(* ===== verification/Prelude.thy ===== *)
theory Prelude
  imports Main "HOL-Library.Word" "HOL-Library.Monad_Syntax"
begin

text \<open>
  What the component theories share: the machine types of the AVR target (8 and 16 bit
  words, \<open>int\<close> of the C code is 16 bits wide there), the avr-libc bit macros the sources use
  (\<open>bit_is_set\<close>, \<open>parity_even_bit\<close>, part of the C library of the target), lists of bits and
  bytes, little-endian packing, and the collections of rewrite rules the proofs use.

  \<^item> \<open>fw_defs\<close>: definitions that are unfolded to follow a handler step by step;
  \<^item> \<open>frame_simps\<close>: what an operation leaves unchanged.
\<close>

unbundle bit_operations_syntax

named_theorems fw_defs \<open>definitions of handlers and drivers\<close>
named_theorems frame_simps \<open>fields an operation leaves unchanged\<close>

type_synonym u8 = "8 word"
type_synonym u16 = "16 word"
type_synonym u32 = "32 word"

section \<open>Bits of a byte\<close>

text \<open>The bits of a byte in the order PS/2 sends them, least significant first.\<close>

definition byte_bits :: "u8 \<Rightarrow> bool list" where
  "byte_bits v = map (bit v) [0..<8]"

definition bits_byte :: "bool list \<Rightarrow> u8" where
  "bits_byte bs = horner_sum of_bool 2 bs"

text \<open>
  \<open>util/parity.h\<close> of avr-libc: \<open>parity_even_bit(v)\<close> is 1 when \<open>v\<close> has an odd number of bits
  set and 0 otherwise (the bit that makes the parity even).
\<close>

definition parity_even_bit :: "u8 \<Rightarrow> u8" where
  "parity_even_bit v = of_bool (odd (length (filter id (byte_bits v))))"

text \<open>
  \<open>avr/sfr_defs.h\<close> of avr-libc: \<open>bit_is_set(sfr, b)\<close> is \<open>sfr & (1 << b)\<close>, zero or the value
  of the bit; it is not normalised to 0 or 1.
\<close>

definition bit_is_set :: "u8 \<Rightarrow> nat \<Rightarrow> u8" where
  "bit_is_set sfr b = sfr AND push_bit b 1"

definition bit_is_clear :: "u8 \<Rightarrow> nat \<Rightarrow> bool" where
  "bit_is_clear sfr b \<longleftrightarrow> bit_is_set sfr b = 0"

lemma length_byte_bits [simp]: "length (byte_bits v) = 8"
  by (simp add: byte_bits_def)

lemma byte_bits_explicit:
  "byte_bits v = [bit v 0, bit v 1, bit v 2, bit v 3, bit v 4, bit v 5, bit v 6, bit v 7]"
  by (simp add: byte_bits_def upt_rec numeral_eq_Suc)

lemma bits_byte_byte_bits [simp]: "bits_byte (byte_bits v) = v"
proof -
  have "horner_sum of_bool 2 (map (bit v) [0..<8]) = take_bit 8 v"
    by (simp add: horner_sum_bit_eq_take_bit)
  moreover have "take_bit 8 v = v"
    using take_bit_length_eq [of v] by simp
  ultimately show ?thesis
    by (simp add: bits_byte_def byte_bits_def)
qed

lemma byte_bits_inj: "byte_bits v = byte_bits w \<longleftrightarrow> v = w"
  by (metis bits_byte_byte_bits)

lemma bit_push_bit_1: "bit (push_bit b (1::u8)) n \<longleftrightarrow> n = b \<and> b < 8"
  by (auto simp: bit_simps)

declare push_bit_of_1 [simp del]

lemma bit_is_set_bit: "b < 8 \<Longrightarrow> bit_is_set sfr b = (if bit sfr b then push_bit b 1 else 0)"
  unfolding bit_is_set_def by (rule bit_eqI) (auto simp: bit_and_iff bit_push_bit_1)

lemma push_bit_1_nonzero: "b < 8 \<Longrightarrow> push_bit b (1::u8) \<noteq> 0"
  by (metis bit_0_eq bit_push_bit_1 bot_apply bot_boolE)

lemma bit_is_set_0_iff: "b < 8 \<Longrightarrow> bit_is_set sfr b = 0 \<longleftrightarrow> \<not> bit sfr b"
  by (simp add: bit_is_set_bit push_bit_1_nonzero)

lemma bit_is_clear_iff: "b < 8 \<Longrightarrow> bit_is_clear sfr b \<longleftrightarrow> \<not> bit sfr b"
  by (simp add: bit_is_clear_def bit_is_set_0_iff)

lemma parity_even_bit_cases: "parity_even_bit v = 0 \<or> parity_even_bit v = 1"
  by (simp add: parity_even_bit_def)

lemma unat_pred_less: "n \<noteq> 0 \<Longrightarrow> unat (n - 1) < unat (n :: 'a :: len word)"
  by (metis diff_less unat_gt_0 unat_minus_one zero_less_one)

section \<open>Packets\<close>

text \<open>
  The contract of a USB transfer with packets of \<open>n\<close> bytes: full packets followed by one short,
  possibly empty, packet.
\<close>

function packets :: "nat \<Rightarrow> 'a list \<Rightarrow> 'a list list" where
  "packets n xs = (if n = 0 \<or> length xs < n then [xs] else take n xs # packets n (drop n xs))"
  by pat_completeness auto
termination
  by (relation "measure (\<lambda>(n, xs). length xs)") auto

declare packets.simps [simp del]

lemma packets_short: "length xs < n \<Longrightarrow> packets n xs = [xs]"
  by (subst packets.simps) simp

lemma packets_long:
  "\<not> length xs < n \<Longrightarrow> 0 < n \<Longrightarrow> packets n xs = take n xs # packets n (drop n xs)"
  by (subst packets.simps) simp

lemma packets_spec:
  assumes "0 < n"
  shows "concat (packets n xs) = xs \<and> length (last (packets n xs)) < n \<and>
    (\<forall>p \<in> set (butlast (packets n xs)). length p = n) \<and> packets n xs \<noteq> []"
  using assms
proof (induction n xs rule: packets.induct)
  case (1 n xs)
  show ?case
  proof (cases "length xs < n")
    case True
    then show ?thesis by (simp add: packets_short)
  next
    case False
    then have "\<not> (n = 0 \<or> length xs < n)" using "1.prems" by simp
    note ih = "1.IH" [OF this "1.prems"]
    define ps where "ps = packets n (drop n xs)"
    have "concat ps = drop n xs" "length (last ps) < n"
      "\<forall>p \<in> set (butlast ps). length p = n" "ps \<noteq> []"
      unfolding ps_def using ih by blast+
    moreover have "packets n xs = take n xs # ps"
      using packets_long [OF False "1.prems"] by (simp add: ps_def)
    ultimately show ?thesis using False by simp
  qed
qed

lemma length_packets: "0 < n \<Longrightarrow> length (packets n xs) = length xs div n + 1"
proof (induction n xs rule: packets.induct)
  case (1 n xs)
  show ?case
  proof (cases "length xs < n")
    case True
    then show ?thesis by (simp add: packets_short)
  next
    case False
    moreover have "length xs div n = (length xs - n) div n + 1"
      using False "1.prems" by (simp add: le_div_geq)
    moreover have "\<not> (n = 0 \<or> length xs < n)" using False "1.prems" by simp
    note "1.IH" [OF this "1.prems"]
    ultimately show ?thesis using packets_long [OF False "1.prems"] by simp
  qed
qed

end
