(* ===== verification/RingBuffer.thy ===== *)
theory RingBuffer
  imports Prelude
begin

text \<open>
  \<open>ps-2/RingBuffer.c\<close>: the byte queue between a clock interrupt (producer) and an event task
  (consumer). Every operation runs inside \<open>ATOMIC_BLOCK\<close>, so it is one step of the model.
  The record has the fields of \<open>ringbuff_t\<close>; the memory \<open>data\<close> points to is a list. The locale
  \<open>bounded_fifo\<close> is the contract the drivers rely on: a bounded first-in first-out queue that
  drops the newest element when it is full. The ring buffer interprets it.
\<close>

section \<open>The C code\<close>

record ringbuff =
  rb_data :: "u8 list"
  rb_size :: u8
  rb_in :: u8
  rb_out :: u8
  rb_elements :: u8

text \<open>\<open>RING_Initialize( buffer, data, size )\<close>, with the clearing loop over the memory \<open>data\<close>.\<close>

definition RING_Initialize :: "u8 list \<Rightarrow> u8 \<Rightarrow> ringbuff" where
  "RING_Initialize data sz =
     \<lparr>rb_data = fold (\<lambda>i d. d[i := 0]) [0..<unat sz] data,
      rb_size = sz, rb_in = 0, rb_out = 0, rb_elements = 0\<rparr>"

definition RING_AddElement :: "ringbuff \<Rightarrow> u8 \<Rightarrow> u8 \<times> ringbuff" where
  "RING_AddElement buffer x =
     (x, if rb_elements buffer < rb_size buffer then
           let d = (rb_data buffer)[unat (rb_in buffer) := x];
               i = rb_in buffer + 1
           in buffer\<lparr>rb_data := d,
                rb_in := (if i = rb_size buffer then 0 else i),
                rb_elements := rb_elements buffer + 1\<rparr>
         else buffer)"

definition RING_GetElement :: "ringbuff \<Rightarrow> u8 \<times> ringbuff" where
  "RING_GetElement buffer =
     (if rb_elements buffer > 0 then
        let x = rb_data buffer ! unat (rb_out buffer);
            i = rb_out buffer + 1
        in (x, buffer\<lparr>rb_out := (if i = rb_size buffer then 0 else i),
                 rb_elements := rb_elements buffer - 1\<rparr>)
      else (0, buffer))"

definition RING_HasElement :: "ringbuff \<Rightarrow> bool" where
  "RING_HasElement buffer \<longleftrightarrow> rb_elements buffer > 0"

section \<open>The interface: a bounded queue\<close>

text \<open>
  A producer and a consumer interleave puts and gets; \<open>fifo_run\<close> executes such a sequence and
  collects what the gets return. \<open>queue_put\<close> and \<open>queue_get\<close> are the abstract queue: a list of
  at most \<open>n\<close> elements.
\<close>

datatype 'a fifo_op = Put 'a | Get

fun fifo_run :: "('a \<Rightarrow> 'q \<Rightarrow> 'q) \<Rightarrow> ('q \<Rightarrow> 'a \<times> 'q) \<Rightarrow> 'a fifo_op list \<Rightarrow> 'q \<Rightarrow> 'a list \<times> 'q" where
  "fifo_run put get [] q = ([], q)"
| "fifo_run put get (Put x # ops) q = fifo_run put get ops (put x q)"
| "fifo_run put get (Get # ops) q =
     (let (x, q') = get q; (xs, q'') = fifo_run put get ops q' in (x # xs, q''))"

definition queue_put :: "nat \<Rightarrow> 'a \<Rightarrow> 'a list \<Rightarrow> 'a list" where
  "queue_put n x xs = (if length xs < n then xs @ [x] else xs)"

definition queue_get :: "'a \<Rightarrow> 'a list \<Rightarrow> 'a \<times> 'a list" where
  "queue_get d xs = (case xs of [] \<Rightarrow> (d, []) | y # ys \<Rightarrow> (y, ys))"

locale bounded_fifo =
  fixes put :: "'a \<Rightarrow> 'q \<Rightarrow> 'q"
    and get :: "'q \<Rightarrow> 'a \<times> 'q"
    and nonempty :: "'q \<Rightarrow> bool"
    and contents :: "'q \<Rightarrow> 'a list"
    and cap :: "'q \<Rightarrow> nat"
    and wf :: "'q \<Rightarrow> bool"
    and dflt :: 'a
  assumes wf_put: "wf q \<Longrightarrow> wf (put x q)"
    and wf_get: "wf q \<Longrightarrow> wf (snd (get q))"
    and cap_put: "wf q \<Longrightarrow> cap (put x q) = cap q"
    and cap_get: "wf q \<Longrightarrow> cap (snd (get q)) = cap q"
    and contents_put: "wf q \<Longrightarrow> contents (put x q) = queue_put (cap q) x (contents q)"
    and contents_get: "wf q \<Longrightarrow> contents (snd (get q)) = snd (queue_get dflt (contents q))"
    and value_get: "wf q \<Longrightarrow> fst (get q) = fst (queue_get dflt (contents q))"
    and nonempty_contents: "wf q \<Longrightarrow> nonempty q \<longleftrightarrow> contents q \<noteq> []"
    and bounded: "wf q \<Longrightarrow> length (contents q) \<le> cap q"
begin

lemmas fifo_laws = wf_put wf_get cap_put cap_get contents_put contents_get value_get

text \<open>Any interleaving of puts and gets returns what the abstract queue returns.\<close>

lemma run_refines:
  assumes "wf q"
  shows "fst (fifo_run put get ops q) =
      fst (fifo_run (queue_put (cap q)) (queue_get dflt) ops (contents q)) \<and>
    contents (snd (fifo_run put get ops q)) =
      snd (fifo_run (queue_put (cap q)) (queue_get dflt) ops (contents q)) \<and>
    wf (snd (fifo_run put get ops q))"
  using assms
proof (induction ops arbitrary: q)
  case Nil
  then show ?case by simp
next
  case (Cons a ops)
  show ?case
  proof (cases a)
    case (Put x)
    with Cons.IH [of "put x q"] Cons.prems show ?thesis by (simp add: fifo_laws)
  next
    case Get
    with Cons.IH [of "snd (get q)"] Cons.prems show ?thesis
      by (simp add: fifo_laws split_beta Let_def)
  qed
qed

text \<open>A producer alone keeps the oldest elements and drops what does not fit.\<close>

lemma fold_put:
  assumes "wf q"
  shows "wf (fold put xs q) \<and> cap (fold put xs q) = cap q \<and>
    contents (fold put xs q) = contents q @ take (cap q - length (contents q)) xs"
  using assms
proof (induction xs arbitrary: q)
  case Nil
  then show ?case by simp
next
  case (Cons x xs)
  from Cons.IH [of "put x q"] Cons.prems bounded [OF Cons.prems] show ?case
    by (auto simp: fifo_laws queue_put_def take_Cons')
qed

end

section \<open>The ring buffer is a bounded queue\<close>

definition ring_ok :: "ringbuff \<Rightarrow> bool" where
  "ring_ok b \<longleftrightarrow> 0 < rb_size b \<and> unat (rb_size b) \<le> length (rb_data b) \<and>
     rb_out b < rb_size b \<and> rb_in b < rb_size b \<and> rb_elements b \<le> rb_size b \<and>
     unat (rb_in b) = (unat (rb_out b) + unat (rb_elements b)) mod unat (rb_size b)"

definition ring_contents :: "ringbuff \<Rightarrow> u8 list" where
  "ring_contents b =
     map (\<lambda>k. rb_data b ! ((unat (rb_out b) + k) mod unat (rb_size b))) [0..<unat (rb_elements b)]"

definition ring_put :: "u8 \<Rightarrow> ringbuff \<Rightarrow> ringbuff" where
  "ring_put x b = snd (RING_AddElement b x)"


text \<open>Arithmetic of the wrapping indices.\<close>

lemma unat_inc: "x < (y::u8) \<Longrightarrow> unat (x + 1) = Suc (unat x)"
proof -
  assume "x < y"
  then have "unat x < unat y" by (simp add: word_less_nat_alt)
  moreover have "unat y < 256" using unsigned_less [where 'a = nat, of y] by simp
  ultimately show ?thesis by (simp add: unat_word_ariths)
qed

lemma unat_dec: "0 < (x::u8) \<Longrightarrow> unat (x - 1) = unat x - 1"
  by (metis One_nat_def unat_1 unat_sub word_gt_0 word_less_1 word_le_nat_alt word_less_nat_alt
      linorder_not_le not_less_eq_eq unat_0 not_less_zero le_0_eq less_Suc0)

lemma wrap_index:
  assumes "i < (n::u8)"
  shows "unat (if i + 1 = n then 0 else i + 1) = Suc (unat i) mod unat n"
    and "(if i + 1 = n then 0 else i + 1) < n"
proof -
  have i: "unat (i + 1) = Suc (unat i)" using assms by (rule unat_inc)
  have l: "unat i < unat n" using assms by (simp add: word_less_nat_alt)
  show "unat (if i + 1 = n then 0 else i + 1) = Suc (unat i) mod unat n"
  proof (cases "i + 1 = n")
    case True
    with i show ?thesis by auto
  next
    case False
    then have "unat (i + 1) \<noteq> unat n" by (simp add: word_unat_eq_iff)
    with i l have "Suc (unat i) < unat n" by simp
    with False i show ?thesis by simp
  qed
  then show "(if i + 1 = n then 0 else i + 1) < n"
    using l by (simp add: word_less_nat_alt)
qed

lemma ring_ok_nat:
  assumes "ring_ok b"
  shows "0 < unat (rb_size b)" "unat (rb_out b) < unat (rb_size b)"
    "unat (rb_in b) < unat (rb_size b)" "unat (rb_elements b) \<le> unat (rb_size b)"
    "unat (rb_size b) \<le> length (rb_data b)"
    "unat (rb_in b) = (unat (rb_out b) + unat (rb_elements b)) mod unat (rb_size b)"
  using assms by (auto simp: ring_ok_def word_less_nat_alt word_le_nat_alt)

lemma length_ring_contents [simp]: "length (ring_contents b) = unat (rb_elements b)"
  by (simp add: ring_contents_def)

lemma ring_put_full: "\<not> rb_elements b < rb_size b \<Longrightarrow> ring_put x b = b"
  by (simp add: ring_put_def RING_AddElement_def)

lemma ring_put_room:
  assumes "ring_ok b" and "rb_elements b < rb_size b"
  shows "ring_ok (ring_put x b)" and "ring_contents (ring_put x b) = ring_contents b @ [x]"
    and "rb_size (ring_put x b) = rb_size b"
proof -
  note n = ring_ok_nat [OF assms(1)]
  let ?n = "unat (rb_size b)" and ?o = "unat (rb_out b)" and ?e = "unat (rb_elements b)"
  have e: "unat (rb_elements b + 1) = Suc ?e" using assms(2) by (rule unat_inc)
  have el: "?e < ?n" using assms(2) by (simp add: word_less_nat_alt)
  have il: "rb_in b < rb_size b" using assms(1) by (simp add: ring_ok_def)
  note w = wrap_index [OF il]
  show "rb_size (ring_put x b) = rb_size b"
    using assms(2) by (simp add: ring_put_def RING_AddElement_def Let_def)
  have "(?o + Suc ?e) mod ?n = Suc ((?o + ?e) mod ?n) mod ?n"
    by (simp add: mod_Suc_eq)
  then show "ring_ok (ring_put x b)"
    using assms w n e el
    by (auto simp: ring_ok_def ring_put_def RING_AddElement_def Let_def word_le_nat_alt)
  have other: "(?o + k) mod ?n \<noteq> unat (rb_in b)" if "k < ?e" for k
  proof
    assume "(?o + k) mod ?n = unat (rb_in b)"
    then have "(?o + k) mod ?n = (?o + ?e) mod ?n" using n(6) by simp
    then have "?n dvd (?o + ?e) - (?o + k)"
      using that mod_eq_dvd_iff_nat [of "?o + k" "?o + ?e" ?n] by simp
    with that el show False using nat_dvd_not_less [of "?e - k" ?n] by simp
  qed
  have "ring_contents (ring_put x b) =
      map (\<lambda>k. (rb_data b)[unat (rb_in b) := x] ! ((?o + k) mod ?n)) ([0..<?e] @ [?e])"
    using assms(2) e by (simp add: ring_contents_def ring_put_def RING_AddElement_def Let_def)
  also have "\<dots> = ring_contents b @ [x]"
  proof -
    have a: "map (\<lambda>k. (rb_data b)[unat (rb_in b) := x] ! ((?o + k) mod ?n)) [0..<?e] =
        ring_contents b"
      unfolding ring_contents_def by (rule map_cong) (auto dest: other simp: nth_list_update)
    have "(rb_data b)[unat (rb_in b) := x] ! unat (rb_in b) = x"
      using n(3,5) by (intro nth_list_update_eq) simp
    then have "(rb_data b)[unat (rb_in b) := x] ! ((?o + ?e) mod ?n) = x"
      by (simp only: n(6))
    with a show ?thesis by (simp only: map_append list.map)
  qed
  finally show "ring_contents (ring_put x b) = ring_contents b @ [x]" .
qed

lemma ring_get_empty: "ring_contents b = [] \<Longrightarrow> RING_GetElement b = (0, b)"
  by (simp add: RING_GetElement_def word_gt_0 unat_eq_0 flip: length_0_conv)

lemma ring_get_some:
  assumes "ring_ok b" and "0 < rb_elements b"
  shows "ring_ok (snd (RING_GetElement b))"
    and "ring_contents b = fst (RING_GetElement b) # ring_contents (snd (RING_GetElement b))"
proof -
  note n = ring_ok_nat [OF assms(1)]
  let ?n = "unat (rb_size b)" and ?o = "unat (rb_out b)" and ?e = "unat (rb_elements b)"
  have ol: "rb_out b < rb_size b" using assms(1) by (simp add: ring_ok_def)
  note w = wrap_index [OF ol]
  have e: "unat (rb_elements b - 1) = ?e - 1" using assms(2) by (rule unat_dec)
  have ep: "0 < ?e" using assms(2) by (simp add: word_less_nat_alt)
  have "(Suc ?o mod ?n + (?e - 1)) mod ?n = (Suc ?o + (?e - 1)) mod ?n"
    by (rule mod_add_left_eq)
  then have sum: "(Suc ?o mod ?n + (?e - 1)) mod ?n = (?o + ?e) mod ?n"
    using ep by simp
  show "ring_ok (snd (RING_GetElement b))"
    using assms w n e sum
    by (auto simp: ring_ok_def RING_GetElement_def Let_def word_le_nat_alt)
  have "[0..<?e] = 0 # map Suc [0..<?e - 1]"
    using ep by (metis map_Suc_upt upt_conv_Cons Suc_diff_1)
  moreover have "(Suc ?o mod ?n + k) mod ?n = Suc (?o + k) mod ?n" for k
    by (simp add: mod_simps)
  ultimately show "ring_contents b =
      fst (RING_GetElement b) # ring_contents (snd (RING_GetElement b))"
    using assms(2) e w n by (simp add: ring_contents_def RING_GetElement_def Let_def comp_def)
qed

lemma ring_nonempty: "RING_HasElement b \<longleftrightarrow> ring_contents b \<noteq> []"
  by (simp add: RING_HasElement_def word_gt_0 unat_eq_0 flip: length_0_conv)

lemma rb_size_get [simp]: "rb_size (snd (RING_GetElement b)) = rb_size b"
  by (simp add: RING_GetElement_def Let_def)

interpretation ring: bounded_fifo ring_put RING_GetElement RING_HasElement ring_contents
  "\<lambda>b. unat (rb_size b)" ring_ok 0
proof unfold_locales
  fix b :: ringbuff and x :: u8
  assume ok: "ring_ok b"
  note lt = word_less_nat_alt [of "rb_elements b" "rb_size b"]
  show "ring_ok (ring_put x b)" "unat (rb_size (ring_put x b)) = unat (rb_size b)"
    "ring_contents (ring_put x b) = queue_put (unat (rb_size b)) x (ring_contents b)"
    using ok ring_put_room [OF ok, of x] ring_put_full [of b x] lt
    by (cases "rb_elements b < rb_size b"; simp add: queue_put_def)+
  show "length (ring_contents b) \<le> unat (rb_size b)"
    using ring_ok_nat [OF ok] by simp
  show "RING_HasElement b = (ring_contents b \<noteq> [])"
    by (rule ring_nonempty)
  show "unat (rb_size (snd (RING_GetElement b))) = unat (rb_size b)"
    by simp
  have "ring_ok (snd (RING_GetElement b)) \<and>
    queue_get 0 (ring_contents b) =
      (fst (RING_GetElement b), ring_contents (snd (RING_GetElement b)))"
  proof (cases "0 < rb_elements b")
    case True
    show ?thesis
      using ring_get_some(1) [OF ok True] by (subst ring_get_some(2) [OF ok True])
        (simp add: queue_get_def)
  next
    case False
    then have e: "ring_contents b = []" using ring_nonempty [of b] by (simp add: RING_HasElement_def)
    show ?thesis using ok e by (simp add: ring_get_empty queue_get_def)
  qed
  then show "ring_ok (snd (RING_GetElement b))"
    "ring_contents (snd (RING_GetElement b)) = snd (queue_get 0 (ring_contents b))"
    "fst (RING_GetElement b) = fst (queue_get 0 (ring_contents b))"
    by simp_all
qed

lemma fold_clear: "k \<le> length xs \<Longrightarrow>
  fold (\<lambda>i d. d[i := 0]) [0..<k] xs = replicate k (0::u8) @ drop k xs"
proof (induction k)
  case 0
  then show ?case by simp
next
  case (Suc k)
  then have "k < length xs" by simp
  then have "drop k xs = xs ! k # drop (Suc k) xs" by (rule Cons_nth_drop_Suc [symmetric])
  with Suc show ?case by (simp add: list_update_append replicate_append_same)
qed

lemma ring_init_ok:
  "0 < n \<Longrightarrow> length xs = unat n \<Longrightarrow> ring_ok (RING_Initialize xs n)"
  by (simp add: ring_ok_def RING_Initialize_def fold_clear word_less_nat_alt)

lemma ring_init_contents [simp]: "ring_contents (RING_Initialize xs n) = []"
  by (simp add: ring_contents_def RING_Initialize_def)

lemma rb_size_init [simp]: "rb_size (RING_Initialize xs n) = n"
  by (simp add: RING_Initialize_def)

section \<open>Properties\<close>

text \<open>C19:
  After initialisation over \<open>n > 0\<close> bytes of memory, any sequence of adds and gets, from the
  interrupt and from the task in any order, behaves as a first-in first-out queue of at most \<open>n\<close>
  bytes: the values returned are those of the abstract queue (0 when it is empty), an add to a
  full buffer is dropped, and the indices stay inside the allocated memory.
\<close>

theorem ring_refines_queue:
  assumes "0 < n" and "length mem = unat n"
  shows "fst (fifo_run ring_put RING_GetElement ops (RING_Initialize mem n)) =
      fst (fifo_run (queue_put (unat n)) (queue_get 0) ops []) \<and>
    ring_ok (snd (fifo_run ring_put RING_GetElement ops (RING_Initialize mem n)))"
  using ring.run_refines [OF ring_init_ok [OF assms], of ops] by simp

theorem ring_refines_queue_witness:
  "fst (fifo_run ring_put RING_GetElement [Put 7, Put 9, Put 11, Get, Put 13, Get, Get, Get]
     (RING_Initialize [5, 6] 2)) = [7, 9, 13, 0]"
proof -
  have "fst (fifo_run (queue_put (unat (2::u8))) (queue_get (0::u8))
      [Put 7, Put 9, Put 11, Get, Put 13, Get, Get, Get] []) = [7, 9, 13, 0]"
    by (simp add: queue_put_def queue_get_def)
  then show ?thesis
    using ring_refines_queue [of 2 "[5, 6]"
      "[Put 7, Put 9, Put 11, Get, Put 13, Get, Get, Get]"] by simp
qed

end
