(* ===== verification/Ps2Line.thy ===== *)
theory Ps2Line
  imports RingBuffer
begin

text \<open>
  The bit level of the PS/2 protocol, which \<open>ps-2/KeyboardDriver.c\<close> and \<open>ps-2/MouseDriver.c\<close> each
  implement on their own two pins (clock and data).

  Sending (\<open>KB_Send\<close>, \<open>SendByte\<close>): the host drives the lines with \<open>sbi\<close> and \<open>cbi\<close> on the port
  and direction registers and waits for the device to move the clock. The samples the waiting
  loops read from the PIN register are an input of the model (\<open>pins\<close>); each read consumes one.
  What the host does is a trace of register writes (\<open>ops\<close>), with a marker wherever it has
  waited for a level. A loop that still waits when the samples are used up has not returned,
  so the sending functions are option valued and \<open>None\<close> means "still waiting".

  Receiving (the two clock interrupts): the locale \<open>ps2_receiver\<close> states the laws of one falling
  clock edge; frames of eleven bits and sequences of frames are handled once for both drivers.
\<close>

section \<open>Sending a byte\<close>

datatype line_op =
    ClockPort bool | ClockDdr bool   \<comment> \<open>\<open>sbi\<close> (True) and \<open>cbi\<close> (False) on the clock pin\<close>
  | DataPort bool | DataDdr bool     \<comment> \<open>the same on the data pin\<close>
  | DelayUs nat                      \<comment> \<open>\<open>_delay_us\<close>\<close>
  | SawClock bool | SawData bool     \<comment> \<open>a waiting loop has ended at this level\<close>

record ps2_line =
  pins :: "u8 list"
  ops :: "line_op list"

definition emit :: "line_op \<Rightarrow> ps2_line \<Rightarrow> ps2_line" where
  "emit x l = l\<lparr>ops := ops l @ [x]\<rparr>"

text \<open>\<open>loop_until_bit_is_set\<close> and \<open>loop_until_bit_is_clear\<close>: sample until the level is seen.\<close>

fun await :: "nat \<Rightarrow> bool \<Rightarrow> u8 list \<Rightarrow> u8 list option" where
  "await b lvl [] = None"
| "await b lvl (x # xs) = (if bit_is_clear x b = (\<not> lvl) then Some xs else await b lvl xs)"

definition wait_pin :: "nat \<Rightarrow> bool \<Rightarrow> line_op \<Rightarrow> ps2_line \<Rightarrow> ps2_line option" where
  "wait_pin b lvl mark l = do {
     r \<leftarrow> await b lvl (pins l);
     Some (emit mark (l\<lparr>pins := r\<rparr>)) }"

definition wait_clock :: "nat \<Rightarrow> bool \<Rightarrow> ps2_line \<Rightarrow> ps2_line option" where
  "wait_clock c lvl = wait_pin c lvl (SawClock lvl)"

definition wait_data :: "nat \<Rightarrow> bool \<Rightarrow> ps2_line \<Rightarrow> ps2_line option" where
  "wait_data d lvl = wait_pin d lvl (SawData lvl)"

text \<open>The loop over the data bits: \<open>do { ... } while( mask <<= 1 )\<close> on an 8-bit mask.\<close>

lemma shift_mask_decreases:
  assumes "m \<noteq> (0::u8)"
  shows "(LEAST n. push_bit n (push_bit 1 m) = 0) < (LEAST n. push_bit n m = 0)"
proof -
  let ?P = "\<lambda>n. push_bit n m = 0"
  have "?P 8" by (rule bit_eqI) (auto simp: bit_simps)
  then have P: "?P (LEAST n. ?P n)" by (rule LeastI)
  with assms obtain k where k: "(LEAST n. ?P n) = Suc k"
    by (metis push_bit_0_id id_apply not0_implies_Suc)
  with P have "push_bit k (push_bit 1 m) = 0" by (simp add: push_bit_push_bit)
  then have "(LEAST n. push_bit n (push_bit 1 m) = 0) \<le> k" by (rule Least_le)
  with k show ?thesis by simp
qed

function send_bits :: "nat \<Rightarrow> u8 \<Rightarrow> u8 \<Rightarrow> ps2_line \<Rightarrow> ps2_line option" where
  "send_bits c d msk l = do {
     let l1 = emit (DataDdr (d AND msk = 0)) l;
     l2 \<leftarrow> wait_clock c True l1;
     l3 \<leftarrow> wait_clock c False l2;
     if push_bit 1 msk \<noteq> 0 then send_bits c d (push_bit 1 msk) l3 else Some l3 }"
  by pat_completeness auto
termination
proof (relation "measure (\<lambda>(c, d, m, l). LEAST n. push_bit n m = 0)", goal_cases)
  case 1
  show ?case by simp
next
  case (2 c d m l)
  have "m \<noteq> 0" using 2 by auto
  then show ?case using shift_mask_decreases by simp
qed

declare send_bits.simps [simp del]

text \<open>
  The common body of \<open>KB_Send\<close> and \<open>SendByte\<close> between disabling and enabling the interrupts,
  for a clock on bit \<open>cb\<close> and data on bit \<open>db\<close> of the port.
\<close>

definition ps2_send :: "nat \<Rightarrow> nat \<Rightarrow> u8 \<Rightarrow> ps2_line \<Rightarrow> ps2_line option" where
  "ps2_send cb db d l = do {
     let l = emit (ClockPort False) l;
     let l = emit (ClockDdr True) l;
     let l = emit (DelayUs 100) l;
     let l = emit (DataPort False) l;
     let l = emit (DataDdr True) l;
     let l = emit (ClockDdr False) l;
     let l = emit (ClockPort True) l;
     l \<leftarrow> wait_clock cb True l;
     l \<leftarrow> wait_clock cb False l;
     l \<leftarrow> send_bits cb d 1 l;
     let l = emit (DataDdr (parity_even_bit d \<noteq> 0)) l;
     l \<leftarrow> wait_clock cb True l;
     l \<leftarrow> wait_clock cb False l;
     let l = emit (DataDdr False) l;
     let l = emit (DataPort False) l;
     l \<leftarrow> wait_clock cb True l;
     l \<leftarrow> wait_data db False l;
     l \<leftarrow> wait_clock cb False l;
     wait_clock cb True l }"

subsection \<open>What is driven, and when the sending returns\<close>

text \<open>A list of waits in sequence; \<open>ps2_send\<close> performs the fixed list \<open>send_waits\<close>.\<close>

fun await_all :: "(nat \<times> bool) list \<Rightarrow> u8 list \<Rightarrow> u8 list option" where
  "await_all [] xs = Some xs"
| "await_all ((b, lvl) # ws) xs = do { r \<leftarrow> await b lvl xs; await_all ws r }"

definition send_waits :: "nat \<Rightarrow> nat \<Rightarrow> (nat \<times> bool) list" where
  "send_waits cb db =
     concat (replicate 10 [(cb, True), (cb, False)]) @
     [(cb, True), (db, False), (cb, False), (cb, True)]"

definition bit_ops :: "u8 \<Rightarrow> u8 \<Rightarrow> line_op list" where
  "bit_ops d m = [DataDdr (d AND m = 0), SawClock True, SawClock False]"

definition frame_ops :: "u8 \<Rightarrow> line_op list" where
  "frame_ops d =
     [ClockPort False, ClockDdr True, DelayUs 100, DataPort False, DataDdr True, ClockDdr False,
      ClockPort True, SawClock True, SawClock False] @
     concat (map (bit_ops d) [1, 2, 4, 8, 16, 32, 64, 128]) @
     [DataDdr (parity_even_bit d \<noteq> 0), SawClock True, SawClock False,
      DataDdr False, DataPort False, SawClock True, SawData False, SawClock False, SawClock True]"

lemma await_all_append:
  "await_all (ws @ vs) xs = Option.bind (await_all ws xs) (await_all vs)"
  by (induction ws xs rule: await_all.induct) (auto split: bind_splits)

lemma wait_clock_eq:
  "wait_clock c lvl l = map_option (\<lambda>r. \<lparr>pins = r, ops = ops l @ [SawClock lvl]\<rparr>) (await c lvl (pins l))"
  by (cases "await c lvl (pins l)") (simp_all add: wait_clock_def wait_pin_def emit_def)

lemma wait_data_eq:
  "wait_data c lvl l = map_option (\<lambda>r. \<lparr>pins = r, ops = ops l @ [SawData lvl]\<rparr>) (await c lvl (pins l))"
  by (cases "await c lvl (pins l)") (simp_all add: wait_data_def wait_pin_def emit_def)

text \<open>The loop over an explicit list of masks, one round per mask.\<close>

primrec send_masks :: "nat \<Rightarrow> u8 \<Rightarrow> u8 list \<Rightarrow> ps2_line \<Rightarrow> ps2_line option" where
  "send_masks c d [] l = Some l"
| "send_masks c d (m # ms) l =
     Option.bind (await_all [(c, True), (c, False)] (pins l)) (\<lambda>r.
       send_masks c d ms \<lparr>pins = r, ops = ops l @ bit_ops d m\<rparr>)"

lemma send_bits_round:
  "push_bit 1 m \<noteq> 0 \<Longrightarrow> send_bits c d (push_bit 1 m) = send_masks c d ms \<Longrightarrow>
     send_bits c d m = send_masks c d (m # ms)"
  "push_bit 1 m = 0 \<Longrightarrow> send_bits c d m = send_masks c d [m]"
  by (rule ext, subst send_bits.simps,
      auto simp: wait_clock_eq bit_ops_def emit_def Let_def split: bind_splits)+

lemma send_bits_all: "send_bits c d 1 = send_masks c d [1, 2, 4, 8, 16, 32, 64, 128]"
  by (intro send_bits_round(1) | simp add: send_bits_round(2))+

lemma send_masks_eq:
  "send_masks c d ms l =
     map_option (\<lambda>r. \<lparr>pins = r, ops = ops l @ concat (map (bit_ops d) ms)\<rparr>)
       (await_all (concat (replicate (length ms) [(c, True), (c, False)])) (pins l))"
  by (induction ms arbitrary: l) (auto split: bind_splits)

text \<open>The whole transmission as one equation: it returns exactly when the waits are answered.\<close>

lemma send_waits_split:
  "send_waits cb db = [(cb, True), (cb, False)] @
     concat (replicate 8 [(cb, True), (cb, False)]) @
     [(cb, True), (cb, False), (cb, True), (db, False), (cb, False), (cb, True)]"
  by (simp add: send_waits_def numeral_eq_Suc)

lemma ps2_send_eq:
  "ps2_send cb db d l =
     map_option (\<lambda>r. \<lparr>pins = r, ops = ops l @ frame_ops d\<rparr>) (await_all (send_waits cb db) (pins l))"
proof -
  have four: "length [1, 2, 4, 8, 16, 32, 64, 128 :: u8] = 8" by simp
  show ?thesis
    unfolding ps2_send_def send_waits_split Let_def emit_def wait_clock_eq wait_data_eq
      send_bits_all send_masks_eq four await_all_append frame_ops_def
    by (auto split: bind_splits)
qed

subsection \<open>What the device receives\<close>

text \<open>
  The abstract contract of a transmission: the device samples the data line at every rising edge
  of the clock it generates. The line is low exactly while the host drives it (direction
  register set with the port bit clear), otherwise the pull-up holds it high.
\<close>

fun device_samples :: "bool \<Rightarrow> line_op list \<Rightarrow> bool list" where
  "device_samples low [] = []"
| "device_samples low (DataDdr b # xs) = device_samples b xs"
| "device_samples low (SawClock True # xs) = (\<not> low) # device_samples low xs"
| "device_samples low (_ # xs) = device_samples low xs"

text \<open>A frame: start bit low, eight data bits, odd parity, stop bit high.\<close>

definition ps2_frame :: "u8 \<Rightarrow> bool list" where
  "ps2_frame v = False # byte_bits v @ [parity_even_bit v = 0, True]"

definition device_decode :: "bool list \<Rightarrow> u8 option" where
  "device_decode bs = (let v = bits_byte (take 8 (drop 1 bs)) in
     if 11 \<le> length bs \<and> take 11 bs = ps2_frame v then Some v else None)"

lemma bit_and_mask: "n < 8 \<Longrightarrow> (d AND push_bit n 1 = 0) \<longleftrightarrow> \<not> bit (d::u8) n"
  using bit_is_set_0_iff [of n d] by (simp add: bit_is_set_def)

lemma and_masks:
  "(d AND 1 = 0) = (\<not> bit (d::u8) 0)" "(d AND 2 = 0) = (\<not> bit d 1)"
  "(d AND 4 = 0) = (\<not> bit d 2)" "(d AND 8 = 0) = (\<not> bit d 3)"
  "(d AND 16 = 0) = (\<not> bit d 4)" "(d AND 32 = 0) = (\<not> bit d 5)"
  "(d AND 64 = 0) = (\<not> bit d 6)" "(d AND 128 = 0) = (\<not> bit d 7)"
  using bit_and_mask [of 0 d] bit_and_mask [of 1 d] bit_and_mask [of 2 d] bit_and_mask [of 3 d]
    bit_and_mask [of 4 d] bit_and_mask [of 5 d] bit_and_mask [of 6 d] bit_and_mask [of 7 d]
  by (simp_all add: push_bit_of_1)

lemma device_samples_frame: "device_samples low (frame_ops d) = ps2_frame d @ [True]"
  using parity_even_bit_cases [of d]
  by (simp add: frame_ops_def bit_ops_def and_masks ps2_frame_def byte_bits_explicit)

lemma length_ps2_frame [simp]: "length (ps2_frame v) = 11"
  by (simp add: ps2_frame_def)

lemma device_decode_frame: "device_decode (ps2_frame d @ xs) = Some d"
proof -
  have "take 8 (drop 1 (ps2_frame d @ xs)) = byte_bits d"
    by (simp add: ps2_frame_def)
  then show ?thesis by (simp add: device_decode_def Let_def)
qed

subsection \<open>A device that keeps clocking\<close>

text \<open>
  \<open>clock_wave hi lo a b n\<close>: the samples of \<open>n\<close> clock periods, each read \<open>a + 1\<close> times high and
  \<open>b + 1\<close> times low, whatever the speed of the waiting loops is relative to the clock.
\<close>

definition clock_wave :: "u8 \<Rightarrow> u8 \<Rightarrow> nat \<Rightarrow> nat \<Rightarrow> nat \<Rightarrow> u8 list" where
  "clock_wave hi lo a b n = concat (replicate n (replicate (Suc a) hi @ replicate (Suc b) lo))"

lemma await_skip: "bit_is_clear x b = lvl \<Longrightarrow> await b lvl (replicate k x @ xs) = await b lvl xs"
  by (induction k) auto

lemma wave_edges:
  assumes "\<not> bit_is_clear hi cb" and "bit_is_clear lo cb"
  shows "await_all (concat (replicate k [(cb, True), (cb, False)]))
      (replicate j lo @ clock_wave hi lo a b (k + n)) =
    Some (replicate (if k = 0 then j else b) lo @ clock_wave hi lo a b n)"
proof (induction k arbitrary: j)
  case 0
  then show ?case by simp
next
  case (Suc k)
  have "await_all [(cb, True), (cb, False)]
      (replicate j lo @ clock_wave hi lo a b (Suc (k + n))) =
    Some (replicate b lo @ clock_wave hi lo a b (k + n))"
    using assms by (simp add: clock_wave_def await_skip)
  moreover have "concat (replicate (Suc k) [(cb, True), (cb, False)]) =
      [(cb, True), (cb, False)] @ concat (replicate k [(cb, True), (cb, False)])"
    by simp
  ultimately show ?case
    using Suc [of b] by (simp only: await_all_append add_Suc) simp
qed

lemma wave_answers:
  assumes "\<not> bit_is_clear hi cb" and "bit_is_clear lo cb" and "bit_is_clear lo db"
    and "\<not> bit_is_clear hi db \<or> 0 < b" and "14 \<le> n"
  shows "await_all (send_waits cb db) (clock_wave hi lo a b n) \<noteq> None"
proof -
  have n: "n = 10 + (4 + (n - 14))" using assms(5) by simp
  have "await_all (concat (replicate 10 [(cb, True), (cb, False)]))
      (replicate 0 lo @ clock_wave hi lo a b (10 + (4 + (n - 14)))) =
    Some (replicate b lo @ clock_wave hi lo a b (4 + (n - 14)))"
    using wave_edges [OF assms(1,2), of 10 0 a b "4 + (n - 14)"] by simp
  moreover have "await_all [(cb, True), (db, False), (cb, False), (cb, True)]
      (replicate b lo @ clock_wave hi lo a b (4 + m)) \<noteq> None" for m
    using assms(1-4) by (cases "bit_is_clear hi db"; cases b; cases a;
      simp add: clock_wave_def await_skip numeral_eq_Suc)
  ultimately show ?thesis
    by (subst n) (simp only: send_waits_def await_all_append replicate_0 append_Nil bind.bind_lunit,
      simp)
qed

subsection \<open>Many transmissions in a row\<close>

text \<open>
  A line with at least \<open>n\<close> more clock periods, after any samples. A period is any list of samples
  in which the clock pin \<open>cb\<close> is seen high and low and the data pin \<open>db\<close> low: the periods may
  differ from each other in length, in what else is sampled and in the order. One waiting loop
  uses up at most one period, so 24 periods are enough for a transmission wherever it starts.
\<close>

definition period :: "nat \<Rightarrow> nat \<Rightarrow> u8 list \<Rightarrow> bool" where
  "period cb db p \<longleftrightarrow> (\<exists>x \<in> set p. \<not> bit_is_clear x cb) \<and> (\<exists>x \<in> set p. bit_is_clear x cb) \<and>
     (\<exists>x \<in> set p. bit_is_clear x db)"

definition clocking :: "nat \<Rightarrow> nat \<Rightarrow> nat \<Rightarrow> u8 list \<Rightarrow> bool" where
  "clocking cb db n xs \<longleftrightarrow>
     (\<exists>pre ps. xs = pre @ concat ps \<and> n \<le> length ps \<and> list_all (period cb db) ps)"

lemma clocking_less: "clocking cb db n xs \<Longrightarrow> k \<le> n \<Longrightarrow> clocking cb db k xs"
  unfolding clocking_def using le_trans by blast

lemma wave_clocking:
  assumes "bit hi cb" and "\<not> bit lo cb" and "\<not> bit lo db" and "cb < 8" and "db < 8"
  shows "clocking cb db n (clock_wave hi lo a b n)"
proof -
  have "period cb db (replicate (Suc a) hi @ replicate (Suc b) lo)"
    using assms by (auto simp: period_def bit_is_clear_iff)
  then show ?thesis
    unfolding clocking_def clock_wave_def
    by (intro exI [of _ "[]"] exI [of _ "replicate n (replicate (Suc a) hi @ replicate (Suc b) lo)"])
      (simp add: list_all_iff)
qed

lemma await_found: "x \<in> set xs \<Longrightarrow> bit_is_clear x b = (\<not> lvl) \<Longrightarrow>
    \<exists>r. await b lvl (xs @ ys) = Some (r @ ys)"
  by (induction xs) auto

lemma await_clocking:
  assumes "clocking cb db (Suc n) xs" and "(p, lvl) = (cb, True) \<or> (p, lvl) = (cb, False) \<or> (p, lvl) = (db, False)"
  shows "\<exists>r. await p lvl xs = Some r \<and> clocking cb db n r"
proof -
  from assms(1) obtain pre q ps where xs: "xs = pre @ q @ concat ps" and n: "n \<le> length ps"
    and q: "period cb db q" and ps: "list_all (period cb db) ps"
    by (auto simp: clocking_def Suc_le_length_iff)
  obtain x where x: "x \<in> set (pre @ q)" "bit_is_clear x p = (\<not> lvl)"
    using assms(2) q by (auto simp: period_def)
  from await_found [OF x, of "concat ps"] xs obtain r where "await p lvl xs = Some (r @ concat ps)"
    by auto
  moreover have "clocking cb db n (r @ concat ps)" using n ps unfolding clocking_def by blast
  ultimately show ?thesis by blast
qed

lemma await_all_clocking:
  assumes "clocking cb db (length ws + n) xs" and "set ws \<subseteq> {(cb, True), (cb, False), (db, False)}"
  shows "\<exists>r. await_all ws xs = Some r \<and> clocking cb db n r"
  using assms
proof (induction ws arbitrary: xs)
  case Nil
  then show ?case by simp
next
  case (Cons w ws)
  obtain p lvl where w: "w = (p, lvl)" by (cases w)
  from await_clocking [of cb db "length ws + n" xs p lvl] Cons.prems w
  obtain r where "await p lvl xs = Some r" "clocking cb db (length ws + n) r" by auto
  with Cons.IH [of r] Cons.prems w show ?case by auto
qed

lemma send_clocking:
  assumes "clocking cb db (24 + n) (pins l)"
  shows "\<exists>r. ps2_send cb db d l = Some \<lparr>pins = r, ops = ops l @ frame_ops d\<rparr> \<and> clocking cb db n r"
proof -
  have "length (send_waits cb db) = 24" "set (send_waits cb db) \<subseteq> {(cb, True), (cb, False), (db, False)}"
    by (auto simp: send_waits_def numeral_eq_Suc)
  with await_all_clocking [of cb db "send_waits cb db" n "pins l"] assms
  show ?thesis by (auto simp: ps2_send_eq)
qed

text \<open>The bytes a device decodes from a trace: it takes twelve samples per transmission.\<close>

function decode_bytes :: "bool list \<Rightarrow> u8 option list" where
  "decode_bytes bs = (if length bs < 12 then [] else device_decode (take 12 bs) # decode_bytes (drop 12 bs))"
  by pat_completeness auto
termination
  by (relation "measure length") auto

declare decode_bytes.simps [simp del]

definition device_bytes :: "line_op list \<Rightarrow> u8 option list" where
  "device_bytes os = decode_bytes (device_samples False os)"

lemma device_samples_frame_append:
  "device_samples low (frame_ops d @ os) = (ps2_frame d @ [True]) @ device_samples False os"
  using parity_even_bit_cases [of d]
  by (simp add: frame_ops_def bit_ops_def and_masks ps2_frame_def byte_bits_explicit)

lemma device_bytes_frames: "device_bytes (concat (map frame_ops ds)) = map Some ds"
proof (induction ds)
  case Nil
  then show ?case by (simp add: device_bytes_def decode_bytes.simps)
next
  case (Cons d ds)
  have "take 12 (ps2_frame d @ [True]) = ps2_frame d @ [True]" by simp
  with Cons device_decode_frame [of d "[True]"] show ?case
    by (simp add: device_bytes_def device_samples_frame_append decode_bytes.simps [of "ps2_frame d @ _"])
qed

section \<open>The lines on which sending returns\<close>

text \<open>
  \<open>seen ls xs\<close>: among the samples there are, in this order, one for each of the given levels
  (a pin and its level), with any other samples before, between and after them. A \<open>pulse\<close> is the
  clock seen high and later low; in the \<open>acknowledgement\<close> the data pin is seen low after a high
  clock, then the clock low and high again.
\<close>

fun seen :: "(nat \<times> bool) list \<Rightarrow> u8 list \<Rightarrow> bool" where
  "seen [] xs = True"
| "seen (_ # _) [] = False"
| "seen ((p, lvl) # ls) (x # xs) = (if bit x p = lvl then seen ls xs else seen ((p, lvl) # ls) xs)"

definition pulse :: "nat \<Rightarrow> u8 list \<Rightarrow> bool" where
  "pulse cb p = seen [(cb, True), (cb, False)] p"

definition acknowledgement :: "nat \<Rightarrow> nat \<Rightarrow> u8 list \<Rightarrow> bool" where
  "acknowledgement cb db q = seen [(cb, True), (db, False), (cb, False), (cb, True)] q"

lemma seen_one_more: "(\<forall>ls x. seen ls xs \<longrightarrow> seen ls (x # xs)) \<and> (\<forall>l ls. seen (l # ls) xs \<longrightarrow> seen ls xs)"
proof (induction xs)
  case Nil
  have "seen ls [x]" if "seen ls []" for ls x using that by (cases ls) auto
  then show ?case by auto
next
  case (Cons y ys)
  have fewer: "seen ls (y # ys)" if "seen (l # ls) (y # ys)" for l ls
    using that Cons.IH by (cases l) (auto split: if_splits)
  moreover have "seen ls (x # y # ys)" if "seen ls (y # ys)" for ls x
    using that fewer by (cases ls) (auto simp del: seen.simps(3) simp: seen.simps(3) [of _ _ _ x])
  ultimately show ?case by blast
qed

lemma seen_longer: "seen ls xs \<Longrightarrow> seen ls (x # xs)"
  using seen_one_more by blast

lemma seen_prefixed: "seen ls xs \<Longrightarrow> seen ls (p @ xs)"
  by (induction p) (simp_all add: seen_longer)

lemma seen_join: "seen ls p \<Longrightarrow> seen ms q \<Longrightarrow> seen (ls @ ms) (p @ q)"
  by (induction ls p rule: seen.induct) (auto simp: seen_prefixed split: if_splits)

lemma seen_split: "seen (ls @ ms) xs \<Longrightarrow> \<exists>p q. xs = p @ q \<and> seen ls p \<and> seen ms q"
proof (induction ls xs rule: seen.induct)
  case (1 xs)
  then show ?case by (intro exI [of _ "[]"] exI [of _ xs]) simp
next
  case (3 p lvl ls x xs)
  then obtain a b where "xs = a @ b" "seen (if bit x p = lvl then ls else (p, lvl) # ls) a" "seen ms b"
    by (auto split: if_splits)
  then show ?case by (intro exI [of _ "x # a"] exI [of _ b]) (auto split: if_splits)
qed simp

lemma seen_repeated:
  "seen (concat (replicate n ls) @ ms) xs \<longleftrightarrow>
     (\<exists>ps q. xs = concat ps @ q \<and> length ps = n \<and> list_all (seen ls) ps \<and> seen ms q)"
proof (induction n arbitrary: xs)
  case 0
  then show ?case by simp
next
  case (Suc n)
  have "seen (ls @ ks) xs \<longleftrightarrow> (\<exists>p r. xs = p @ r \<and> seen ls p \<and> seen ks r)" for ks
    using seen_split seen_join by blast
  then have "seen (concat (replicate (Suc n) ls) @ ms) xs \<longleftrightarrow>
      (\<exists>p ps q. xs = p @ concat ps @ q \<and> seen ls p \<and> length ps = n \<and> list_all (seen ls) ps \<and> seen ms q)"
    using Suc.IH by auto
  also have "\<dots> \<longleftrightarrow>
      (\<exists>ps q. xs = concat ps @ q \<and> length ps = Suc n \<and> list_all (seen ls) ps \<and> seen ms q)" (is "?L \<longleftrightarrow> ?R")
  proof
    assume ?L
    then obtain p ps q where "xs = p @ concat ps @ q" "seen ls p" "length ps = n"
      "list_all (seen ls) ps" "seen ms q" by blast
    then show ?R by (intro exI [of _ "p # ps"] exI [of _ q]) simp
  next
    assume ?R
    then obtain ps q where "xs = concat ps @ q" "length ps = Suc n" "list_all (seen ls) ps" "seen ms q"
      by blast
    then show ?L by (cases ps) auto
  qed
  finally show ?case .
qed

lemma await_all_seen:
  "\<forall>(b, lvl) \<in> set ws. b < 8 \<Longrightarrow> await_all ws xs \<noteq> None \<longleftrightarrow> seen ws xs"
  by (induction ws xs rule: seen.induct) (auto simp: bit_is_clear_iff)

lemma send_waits_answered:
  assumes "cb < 8" and "db < 8"
  shows "await_all (send_waits cb db) xs \<noteq> None \<longleftrightarrow>
    (\<exists>ps q. xs = concat ps @ q \<and> length ps = 10 \<and> list_all (pulse cb) ps \<and> acknowledgement cb db q)"
proof -
  have "\<forall>(b, lvl) \<in> set (send_waits cb db). b < 8" using assms by (auto simp: send_waits_def)
  moreover have "pulse cb = seen [(cb, True), (cb, False)]" by (rule ext) (simp add: pulse_def)
  ultimately show ?thesis
    by (simp only: await_all_seen send_waits_def seen_repeated acknowledgement_def)
qed

section \<open>Receiving bytes: the contract of the clock interrupts\<close>

record ps2_rx =
  rx_bit_n :: u8
  rx_buffer :: u8
  rx_error :: u8
  rx_ring :: ringbuff

text \<open>
  The driver's interrupt handler runs once per falling edge of the clock and reads one sample of
  the PIN register. It is option valued because asking for a retransmission sends a byte.
\<close>

fun clk_run :: "(u8 \<Rightarrow> 's \<Rightarrow> 's option) \<Rightarrow> u8 list \<Rightarrow> 's \<Rightarrow> 's option" where
  "clk_run clk [] s = Some s"
| "clk_run clk (x # xs) s = Option.bind (clk x s) (clk_run clk xs)"

lemma clk_run_append:
  "clk_run clk (xs @ ys) s = Option.bind (clk_run clk xs s) (clk_run clk ys)"
  by (induction xs arbitrary: s) (auto split: bind_splits)

definition rx_idle :: "ps2_rx \<Rightarrow> bool" where
  "rx_idle r \<longleftrightarrow> rx_bit_n r = 1 \<and> rx_buffer r = 0"

locale ps2_receiver =
  fixes clk :: "u8 \<Rightarrow> 's \<Rightarrow> 's option"
    and view :: "'s \<Rightarrow> ps2_rx"
    and db :: nat
  assumes start_bit: "rx_bit_n (view s) = 1 \<Longrightarrow> \<not> bit x db \<Longrightarrow>
      map_option view (clk x s) = Some ((view s)\<lparr>rx_bit_n := 2\<rparr>)"
    and no_start: "rx_bit_n (view s) = 1 \<Longrightarrow> bit x db \<Longrightarrow>
      map_option view (clk x s) = Some (view s)"
    and data_bit: "2 \<le> rx_bit_n (view s) \<Longrightarrow> rx_bit_n (view s) \<le> 9 \<Longrightarrow>
      map_option view (clk x s) = Some ((view s)\<lparr>rx_bit_n := rx_bit_n (view s) + 1,
        rx_buffer := rx_buffer (view s) OR
          (if bit x db then push_bit (unat (rx_bit_n (view s) - 2)) 1 else 0)\<rparr>)"
    and parity_ok: "rx_bit_n (view s) = 10 \<Longrightarrow>
      bit x db = (parity_even_bit (rx_buffer (view s)) = 0) \<Longrightarrow>
      map_option view (clk x s) = Some ((view s)\<lparr>rx_bit_n := 11\<rparr>)"
    and stop_bit: "rx_bit_n (view s) = 11 \<Longrightarrow> bit x db \<Longrightarrow>
      map_option view (clk x s) = Some \<lparr>rx_bit_n = 1, rx_buffer = 0, rx_error = 0,
        rx_ring = ring_put (rx_buffer (view s)) (rx_ring (view s))\<rparr>"
begin

lemma horner_step:
  "(if c then push_bit n 1 else 0) OR push_bit (Suc n) (horner_sum of_bool 2 bs) =
    push_bit n (horner_sum of_bool 2 (c # bs) :: u8)"
proof -
  have "(of_bool c :: u8) OR 2 * w = of_bool c + 2 * w" for w
    by (rule disjunctive_add_eq_or [symmetric], rule bit_eqI) (auto simp: bit_simps)
  then have "push_bit n (of_bool c) OR push_bit n (2 * w) = push_bit n (of_bool c + 2 * w :: u8)" for w
    by (metis push_bit_or)
  moreover have "push_bit (Suc n) w = push_bit n (2 * w :: u8)" for w
    by (metis push_bit_Suc mult.commute)
  ultimately show ?thesis by (cases c) simp_all
qed

text \<open>The eight data bits, with the interrupt at bit \<open>n + 2\<close>.\<close>

lemma data_bits:
  assumes "length xs + n \<le> 8" and "rx_bit_n (view s) = of_nat (n + 2)"
  shows "map_option view (clk_run clk xs s) = Some ((view s)\<lparr>
      rx_bit_n := of_nat (n + length xs + 2),
      rx_buffer := rx_buffer (view s) OR
        push_bit n (horner_sum of_bool 2 (map (\<lambda>x. bit x db) xs))\<rparr>)"
  using assms
proof (induction xs arbitrary: n s)
  case Nil
  then show ?case by simp
next
  case (Cons x xs)
  have n: "n < 8" using Cons.prems(1) by simp
  have u: "unat (of_nat (n + 2) :: u8) = n + 2" "unat (of_nat n :: u8) = n"
    by (simp_all only: unat_of_nat) (use n in simp_all)
  have d: "of_nat (n + 2) - 2 = (of_nat n :: u8)" by simp
  have "2 \<le> rx_bit_n (view s)" "rx_bit_n (view s) \<le> 9"
    using n Cons.prems(2) u by (simp_all add: word_le_nat_alt)
  from data_bit [OF this, of x] obtain s' where s': "clk x s = Some s'"
    and v: "view s' = (view s)\<lparr>rx_bit_n := of_nat (Suc n + 2),
      rx_buffer := rx_buffer (view s) OR (if bit x db then push_bit n 1 else 0)\<rparr>"
    using Cons.prems(2) u d by (auto simp: add.commute)
  have "map_option view (clk_run clk xs s') = Some ((view s')\<lparr>
      rx_bit_n := of_nat (Suc n + length xs + 2),
      rx_buffer := rx_buffer (view s') OR
        push_bit (Suc n) (horner_sum of_bool 2 (map (\<lambda>x. bit x db) xs))\<rparr>)"
    using Cons.prems v by (intro Cons.IH) simp_all
  moreover have "(if bit x db then push_bit n 1 else 0) OR
      push_bit (Suc n) (horner_sum of_bool 2 bs) =
    push_bit n (horner_sum of_bool 2 (bit x db # bs) :: u8)" for bs
    by (rule horner_step)
  ultimately show ?case using s' v by (simp add: or.assoc)
qed

text \<open>The start bit and the eight data bits.\<close>

lemma frame_data:
  assumes "\<not> bit x0 db" and "map (\<lambda>x. bit x db) ys = byte_bits v" and "rx_idle (view s)"
  shows "map_option view (clk_run clk (x0 # ys) s) = Some ((view s)\<lparr>rx_bit_n := 10, rx_buffer := v\<rparr>)"
proof -
  obtain s1 where s1: "clk x0 s = Some s1" "view s1 = (view s)\<lparr>rx_bit_n := 2\<rparr>"
    using start_bit [of s x0] assms by (auto simp: rx_idle_def)
  have "horner_sum of_bool 2 (map (\<lambda>x. bit x db) ys) = v"
    using bits_byte_byte_bits [of v] assms(2) by (simp add: bits_byte_def)
  moreover have "length ys = 8" using assms(2) by (metis length_byte_bits length_map)
  ultimately show ?thesis
    using data_bits [of ys 0 s1] s1 assms(3) by (auto simp: rx_idle_def)
qed

lemma whole_frame:
  assumes "map (\<lambda>x. bit x db) xs = ps2_frame v" and "rx_idle (view s)"
  shows "map_option view (clk_run clk xs s) = Some \<lparr>rx_bit_n = 1, rx_buffer = 0, rx_error = 0,
    rx_ring = ring_put v (rx_ring (view s))\<rparr>"
proof -
  have "length xs = Suc 10" using assms(1) by (metis length_map length_ps2_frame Suc_numeral
      semiring_norm(5) semiring_norm(2) semiring_norm(8))
  then obtain x0 zs where x0: "xs = x0 # zs" and zs: "length zs = 10"
    by (metis length_Suc_conv)
  obtain p q where pq: "drop 8 zs = [p, q]"
    using zs by (cases "drop 8 zs"; cases "tl (drop 8 zs)"; cases "tl (tl (drop 8 zs))";
        use length_drop [of 8 zs] in auto)
  define ys where "ys = take 8 zs"
  have xs: "xs = (x0 # ys) @ [p, q]" and ys: "length ys = 8"
    using x0 zs pq by (simp_all add: ys_def flip: pq)
  have b: "\<not> bit x0 db" "map (\<lambda>x. bit x db) ys = byte_bits v"
    "bit p db = (parity_even_bit v = 0)" "bit q db"
    using assms(1) ys by (simp_all add: xs ps2_frame_def)
  obtain s2 where s2: "clk_run clk (x0 # ys) s = Some s2"
    "view s2 = (view s)\<lparr>rx_bit_n := 10, rx_buffer := v\<rparr>"
    using frame_data [OF b(1,2) assms(2)] by auto
  obtain s3 where s3: "clk p s2 = Some s3" "view s3 = (view s2)\<lparr>rx_bit_n := 11\<rparr>"
    using parity_ok [of s2 p] b(3) s2(2) by auto
  show ?thesis
    using stop_bit [of s3 q] b(4) s2 s3 by (auto simp only: xs clk_run_append) auto
qed

text \<open>
  Frame after frame: every byte a device sends with correct framing is queued, in order, and the
  line between frames may idle high for any number of spurious edges.
\<close>

lemma idle_edges:
  assumes "\<forall>x \<in> set xs. bit x db" and "rx_idle (view s)"
  shows "map_option view (clk_run clk xs s) = Some (view s)"
  using assms
proof (induction xs arbitrary: s)
  case Nil
  then show ?case by simp
next
  case (Cons x xs)
  obtain s' where "clk x s = Some s'" "view s' = view s"
    using no_start [of s x] Cons.prems by (auto simp: rx_idle_def)
  with Cons.IH [of s'] Cons.prems show ?case by simp
qed

lemma all_frames:
  assumes "list_all2 (\<lambda>xs v. map (\<lambda>x. bit x db) xs = ps2_frame v) fs vs" and "rx_idle (view s)"
  shows "\<exists>s'. clk_run clk (concat fs) s = Some s' \<and> rx_idle (view s') \<and>
    rx_ring (view s') = fold ring_put vs (rx_ring (view s))"
  using assms
proof (induction fs vs arbitrary: s rule: list_all2_induct)
  case Nil
  then show ?case by simp
next
  case (Cons f fs v vs)
  from whole_frame [OF Cons.hyps(1) Cons.prems] obtain s1 where s1: "clk_run clk f s = Some s1"
    and v1: "view s1 = \<lparr>rx_bit_n = 1, rx_buffer = 0, rx_error = 0,
      rx_ring = ring_put v (rx_ring (view s))\<rparr>"
    by auto
  from Cons.IH [of s1] v1 s1 show ?case by (auto simp: clk_run_append rx_idle_def)
qed

end

section \<open>Properties\<close>

text \<open>C36:
  Whatever byte the host sends and however the device spaces its clock, when the transmission
  returns, the levels the device has sampled at its rising clock edges are a start bit, the eight
  bits of that byte least significant first, an odd parity bit and a released stop bit: the
  device decodes exactly the byte that was sent.
\<close>

theorem send_roundtrip:
  assumes "ps2_send cb db d l = Some l'"
  shows "device_decode (device_samples False (drop (length (ops l)) (ops l'))) = Some d"
  using assms device_decode_frame [of d "[True]"]
  by (auto simp: ps2_send_eq device_samples_frame)

theorem send_roundtrip_witness:
  "\<exists>l'. ps2_send 7 1 0xED \<lparr>pins = clock_wave 0x82 0 0 0 14, ops = []\<rparr> = Some l' \<and>
    device_decode (device_samples False (ops l')) = Some 0xED"
proof -
  have "await_all (send_waits 7 1) (clock_wave 0x82 0 0 0 14) \<noteq> None"
    by (rule wave_answers) (simp_all add: bit_is_clear_def bit_is_set_def push_bit_of_1)
  then obtain l' where l': "ps2_send 7 1 0xED \<lparr>pins = clock_wave 0x82 0 0 0 14, ops = []\<rparr> = Some l'"
    by (auto simp: ps2_send_eq)
  with send_roundtrip [OF l'] show ?thesis by simp
qed

text \<open>C37:
  Sending returns exactly on the lines whose device keeps clocking. When what the waiting loops
  sample holds ten clock pulses (the clock seen high and later low: the start bit, the eight data
  bits and the parity bit) and then an acknowledgement (clock high, later data low, later clock
  low, later clock high), the call returns and has driven the whole frame; on every other line it
  is still waiting when the samples end. The pulses may be of any length, at any and at changing
  speed, and the data pin may have any level outside of the acknowledgement.
\<close>

theorem send_returns:
  assumes "cb < 8" and "db < 8"
  shows "if \<exists>ps q. xs = concat ps @ q \<and> length ps = 10 \<and> list_all (pulse cb) ps \<and> acknowledgement cb db q
    then \<exists>r. ps2_send cb db d \<lparr>pins = xs, ops = os\<rparr> = Some \<lparr>pins = r, ops = os @ frame_ops d\<rparr>
    else ps2_send cb db d \<lparr>pins = xs, ops = os\<rparr> = None"
  using send_waits_answered [OF assms, of xs] by (auto simp: ps2_send_eq)

theorem send_returns_witness:
  "(\<exists>r. ps2_send 6 0 0xFF \<lparr>pins = concat [[0, 0x41, 0x40, 0], [0x40, 1], [0x41, 0x41, 0, 1], [0x40, 0],
      [0x41, 1, 1, 1, 1], [0x40, 0], [0x41, 1], [0x40, 1], [0x41, 0], [0x40, 1]] @
      [1, 0x41, 0x40, 0, 0x41], ops = []\<rparr> = Some \<lparr>pins = r, ops = frame_ops 0xFF\<rparr>)"
proof -
  let ?ps = "[[0, 0x41, 0x40, 0], [0x40, 1], [0x41, 0x41, 0, 1], [0x40, 0], [0x41, 1, 1, 1, 1],
      [0x40, 0], [0x41, 1], [0x40, 1], [0x41, 0], [0x40, 1]] :: u8 list list"
  let ?q = "[1, 0x41, 0x40, 0, 0x41] :: u8 list"
  have "list_all (pulse 6) ?ps \<and> acknowledgement 6 0 ?q" by code_simp
  then have "\<exists>ps q. concat ?ps @ ?q = concat ps @ q \<and> length ps = 10 \<and> list_all (pulse 6) ps \<and>
      acknowledgement 6 0 q"
    by (intro exI [of _ ?ps] exI [of _ ?q]) simp
  then show ?thesis using send_returns [of 6 0 "concat ?ps @ ?q" "0xFF" "[]"]
    by (simp only: if_True append_Nil)
qed

end
