(* ===== verification/EventAction.thy ===== *)
theory EventAction
  imports Prelude
begin

text \<open>
  \<open>ps-2/EventAction.h\<close>: events are 16-bit words, a device in bits 12 to 15, a trigger in bits 8
  to 11 and a value in bits 0 to 7. The macros are functions on 16-bit words (\<open>int\<close> has 16 bits
  on the target, and the macros cast their result to \<open>uint16_t\<close>).
\<close>

datatype Device_t = Null | Keyboard | Mouse | Usb | XBox | Arcade | Joystick | Script

primrec device_code :: "Device_t \<Rightarrow> u16" where
  "device_code Null = 0"
| "device_code Keyboard = 1"
| "device_code Mouse = 2"
| "device_code Usb = 3"
| "device_code XBox = 4"
| "device_code Arcade = 5"
| "device_code Joystick = 6"
| "device_code Script = 7"

definition EVA_NewEvent :: "u16 \<Rightarrow> u16 \<Rightarrow> u16" where
  "EVA_NewEvent k v = k OR v"

definition EVA_NewEventKey :: "Device_t \<Rightarrow> u16 \<Rightarrow> u16" where
  "EVA_NewEventKey d t = push_bit 12 (device_code d) OR push_bit 8 t"

definition EVA_NewEventValue :: "u8 \<Rightarrow> u16" where
  "EVA_NewEventValue v = ucast v"

definition EVA_EventKey :: "u16 \<Rightarrow> u8" where
  "EVA_EventKey e = ucast (drop_bit 8 e AND 0xff)"

definition EVA_EventDevice :: "u16 \<Rightarrow> u8" where
  "EVA_EventDevice e = ucast (drop_bit 12 e AND 0x0f)"

definition EVA_EventTrigger :: "u16 \<Rightarrow> u8" where
  "EVA_EventTrigger e = ucast (drop_bit 8 e AND 0x0f)"

definition EVA_EventValue :: "u16 \<Rightarrow> u8" where
  "EVA_EventValue e = ucast (e AND 0xff)"

text \<open>The order of the enumeration, by code, with the classes the library's automation uses.\<close>

instantiation Device_t :: linorder
begin

definition less_eq_Device_t :: "Device_t \<Rightarrow> Device_t \<Rightarrow> bool" where
  "less_eq_Device_t a b \<longleftrightarrow> device_code a \<le> device_code b"

definition less_Device_t :: "Device_t \<Rightarrow> Device_t \<Rightarrow> bool" where
  "less_Device_t a b \<longleftrightarrow> device_code a < device_code b"

lemma device_code_inj: "device_code a = device_code b \<Longrightarrow> a = b"
  by (cases a; cases b; simp)

instance
  by standard (auto simp: less_eq_Device_t_def less_Device_t_def intro: device_code_inj)

end

text \<open>Masks of the low bits, and words below a power of two.\<close>

lemma and_15: "(w::u16) AND 0xf = take_bit 4 w"
  by (simp add: take_bit_eq_mask mask_eq_exp_minus_1)

lemma and_255: "(w::u16) AND 0xff = take_bit 8 w"
  by (simp add: take_bit_eq_mask mask_eq_exp_minus_1)

lemma small_bits:
  assumes "(x::u16) < 16" and "bit x n"
  shows "n < 4"
proof -
  have "take_bit 4 x = x" using less_mask_eq [of x 4] assms(1) by (simp add: take_bit_eq_mask)
  then show ?thesis using assms(2) by (metis bit_take_bit_iff)
qed

lemma byte_bits_below: "bit (v::u8) n \<Longrightarrow> n < 8"
  using bit_imp_le_length [of v n] by simp

lemmas event_defs = EVA_NewEvent_def EVA_NewEventKey_def EVA_NewEventValue_def
  EVA_EventKey_def EVA_EventDevice_def EVA_EventTrigger_def EVA_EventValue_def

text \<open>The event encoding loses nothing: an event built from a device, a trigger below 16 and a byte
  value gives back exactly those three parts through the accessor macros.
\<close>

theorem event_roundtrip:
  assumes "t < 16"
  shows "EVA_EventDevice (EVA_NewEvent (EVA_NewEventKey d t) (EVA_NewEventValue v)) = ucast (device_code d) \<and>
    EVA_EventTrigger (EVA_NewEvent (EVA_NewEventKey d t) (EVA_NewEventValue v)) = ucast t \<and>
    EVA_EventValue (EVA_NewEvent (EVA_NewEventKey d t) (EVA_NewEventValue v)) = v"
proof -
  have d: "device_code d < 16" by (cases d) auto
  note hi = small_bits [OF d] small_bits [OF assms] byte_bits_below [of v]
  have "EVA_EventDevice (EVA_NewEvent (EVA_NewEventKey d t) (EVA_NewEventValue v)) =
      ucast (device_code d)"
    by (rule bit_eqI) (use hi in \<open>fastforce simp: event_defs and_15 bit_simps\<close>)
  moreover have "EVA_EventTrigger (EVA_NewEvent (EVA_NewEventKey d t) (EVA_NewEventValue v)) =
      ucast t"
    by (rule bit_eqI) (use hi in \<open>fastforce simp: event_defs and_15 bit_simps\<close>)
  moreover have "EVA_EventValue (EVA_NewEvent (EVA_NewEventKey d t) (EVA_NewEventValue v)) = v"
    by (rule bit_eqI) (auto simp: event_defs and_255 bit_simps)
  ultimately show ?thesis by blast
qed

theorem event_roundtrip_witness:
  "EVA_EventTrigger (EVA_NewEvent (EVA_NewEventKey Keyboard 3) (EVA_NewEventValue 0x14)) = 3"
  using event_roundtrip [of 3 Keyboard "0x14"] by simp

end
