(* ===== verification/KeyboardDriver.thy ===== *)
theory KeyboardDriver
  imports Ps2Line EventAction
begin

text \<open>
  \<open>ps-2/KeyboardDriver.c\<close>, the part below the event filter: the static variables of the driver,
  initialisation, the heartbeat settings, reading scan codes from the byte queue, sending a byte
  to the keyboard and the clock interrupt. The keyboard clock is bit 7 and its data line bit 1 of
  port E (\<open>KeyboardDriver.h\<close>). The PIN register an interrupt samples is an argument; the samples
  the waiting loops of \<open>KB_Send\<close> read are the \<open>pins\<close> of \<open>kb_line\<close>.
\<close>

section \<open>State\<close>

record keyboard =
  kb_bit_n :: u8
  kb_buffer :: u8
  kb_error :: u8
  kb_ringbuffer :: ringbuff
  kb_e0_f0 :: u8
  kb_scancode :: u16
  kb_lastbyte :: u8
  kb_retry :: u8
  kb_leds :: u8
  kb_cmd :: u8
  kb_led_dutycycle :: u16
  kb_led_delay :: u16
  kb_led_keycode :: u16
  kb_irq :: bool           \<comment> \<open>bit INT7 of EIMSK\<close>
  kb_intf :: bool          \<comment> \<open>bit INTF7 of EIFR: an edge is pending\<close>
  kb_falling :: bool       \<comment> \<open>bit ISC71 of EICRB: interrupt on the falling edge\<close>
  kb_line :: ps2_line

abbreviation (input) "KB_DATA_BIT \<equiv> 1 :: nat"
abbreviation (input) "KB_CLOCK_BIT \<equiv> 7 :: nat"
abbreviation (input) "KB_BUFSIZE \<equiv> 8 :: nat"
abbreviation (input) "KB_F0 \<equiv> 0 :: nat"
abbreviation (input) "KB_E0 \<equiv> 1 :: nat"

text \<open>The triggers of keyboard events and the key codes the filter uses.\<close>

definition KB_KeyPress :: "u8 \<Rightarrow> u16" where
  "KB_KeyPress v = EVA_NewEvent (EVA_NewEventKey Keyboard 0) (ucast v)"

definition KB_KeyRelease :: "u8 \<Rightarrow> u16" where
  "KB_KeyRelease v = EVA_NewEvent (EVA_NewEventKey Keyboard 1) (ucast v)"

definition KB_EKeyPress :: "u8 \<Rightarrow> u16" where
  "KB_EKeyPress v = EVA_NewEvent (EVA_NewEventKey Keyboard 2) (ucast v)"

definition KB_EKeyRelease :: "u8 \<Rightarrow> u16" where
  "KB_EKeyRelease v = EVA_NewEvent (EVA_NewEventKey Keyboard 3) (ucast v)"

abbreviation (input) "ScrollLockKey \<equiv> 0x7E :: u8"

section \<open>Operations\<close>

definition KB_ErrorStateLed :: "keyboard \<Rightarrow> keyboard" where
  "KB_ErrorStateLed k = k\<lparr>kb_led_keycode := KB_KeyPress ScrollLockKey, kb_led_dutycycle := 10000\<rparr>"

definition KB_NormalStateLed :: "keyboard \<Rightarrow> keyboard" where
  "KB_NormalStateLed k = k\<lparr>kb_led_keycode := KB_KeyPress ScrollLockKey, kb_led_dutycycle := 50000\<rparr>"

definition kb_emit :: "line_op \<Rightarrow> keyboard \<Rightarrow> keyboard" where
  "kb_emit x k = k\<lparr>kb_line := emit x (kb_line k)\<rparr>"

definition KB_Init :: "keyboard \<Rightarrow> keyboard" where
  "KB_Init k =
     (let k = k\<lparr>kb_bit_n := 1, kb_buffer := 0, kb_error := 0\<rparr>;
          k = k\<lparr>kb_e0_f0 := 0, kb_scancode := 0\<rparr>;
          k = k\<lparr>kb_ringbuffer := RING_Initialize (rb_data (kb_ringbuffer k)) (of_nat KB_BUFSIZE)\<rparr>;
          k = k\<lparr>kb_lastbyte := 0, kb_retry := 0, kb_leds := 0, kb_cmd := 0\<rparr>;
          k = kb_emit (ClockPort True) k;
          k = KB_NormalStateLed k;
          k = k\<lparr>kb_falling := True\<rparr>
      in k\<lparr>kb_irq := True\<rparr>)"

text \<open>
  One call takes at most one byte from the queue: the prefixes \<open>E0\<close> and \<open>F0\<close> set flags and yield
  no event (0), any other byte yields an event with the collected flags.
\<close>

definition KB_GetScancode :: "keyboard \<Rightarrow> u16 \<times> keyboard" where
  "KB_GetScancode k =
     (let k = k\<lparr>kb_scancode := 0\<rparr>;
          k = (if RING_HasElement (kb_ringbuffer k) then
                 (let (b, r) = RING_GetElement (kb_ringbuffer k);
                      k = k\<lparr>kb_ringbuffer := r\<rparr>
                  in if b = 0xE0 then k\<lparr>kb_e0_f0 := push_bit KB_E0 1\<rparr>
                     else if b = 0xF0 then k\<lparr>kb_e0_f0 := kb_e0_f0 k OR push_bit KB_F0 1\<rparr>
                     else k\<lparr>kb_scancode := EVA_NewEvent (EVA_NewEventKey Keyboard (ucast (kb_e0_f0 k)))
                              (EVA_NewEventValue b),
                            kb_e0_f0 := 0\<rparr>)
               else k)
      in (kb_scancode k, k))"

definition KB_Send :: "u8 \<Rightarrow> keyboard \<Rightarrow> keyboard option" where
  "KB_Send d k = do {
     let k = k\<lparr>kb_irq := False\<rparr>;
     let k = k\<lparr>kb_buffer := 0, kb_error := 0, kb_bit_n := 1\<rparr>;
     l \<leftarrow> ps2_send KB_CLOCK_BIT KB_DATA_BIT d (kb_line k);
     let k = k\<lparr>kb_line := l\<rparr>;
     let k = k\<lparr>kb_intf := False\<rparr>;
     Some (k\<lparr>kb_irq := True\<rparr>) }"

text \<open>The error branches of the interrupt: ask once for a retransmission.\<close>

definition kb_resend :: "keyboard \<Rightarrow> keyboard option" where
  "kb_resend k = do {
     k \<leftarrow> (if kb_error k = 0 then KB_Send 0xFE k else Some k);
     Some (k\<lparr>kb_error := 1\<rparr>) }"

definition KB_ClockInterrupt :: "u8 \<Rightarrow> keyboard \<Rightarrow> keyboard option" where
  "KB_ClockInterrupt pin k =
     (if kb_bit_n k = 1 \<and> bit_is_set pin KB_DATA_BIT \<noteq> 0 then Some k
      else if 2 \<le> kb_bit_n k \<and> kb_bit_n k \<le> 9 then
        (let k = (if bit_is_set pin KB_DATA_BIT \<noteq> 0 then
                    k\<lparr>kb_buffer := kb_buffer k OR push_bit (unat (kb_bit_n k - 2)) 1\<rparr>
                  else k)
         in Some (k\<lparr>kb_bit_n := kb_bit_n k + 1\<rparr>))
      else if kb_bit_n k = 10 then
        (if bit_is_set pin KB_DATA_BIT = parity_even_bit (kb_buffer k) then kb_resend k
         else Some (k\<lparr>kb_bit_n := kb_bit_n k + 1\<rparr>))
      else if kb_bit_n k = 11 then
        (if bit_is_clear pin KB_DATA_BIT then kb_resend k
         else
           (let k = k\<lparr>kb_ringbuffer := ring_put (kb_buffer k) (kb_ringbuffer k)\<rparr>;
                k = k\<lparr>kb_buffer := 0, kb_bit_n := 0, kb_error := 0\<rparr>
            in Some (k\<lparr>kb_bit_n := kb_bit_n k + 1\<rparr>)))
      else Some (k\<lparr>kb_bit_n := kb_bit_n k + 1\<rparr>))"

section \<open>The interrupt is a PS/2 receiver\<close>

definition kb_rx :: "keyboard \<Rightarrow> ps2_rx" where
  "kb_rx k = \<lparr>rx_bit_n = kb_bit_n k, rx_buffer = kb_buffer k, rx_error = kb_error k,
     rx_ring = kb_ringbuffer k\<rparr>"

lemma kb_rx_sel [simp]:
  "rx_bit_n (kb_rx k) = kb_bit_n k" "rx_buffer (kb_rx k) = kb_buffer k"
  "rx_error (kb_rx k) = kb_error k" "rx_ring (kb_rx k) = kb_ringbuffer k"
  by (simp_all add: kb_rx_def)

lemma data_bit_1:
  "bit_is_set x (Suc 0) = (if bit x (Suc 0) then 2 else 0)"
  "bit_is_clear x (Suc 0) \<longleftrightarrow> \<not> bit x (Suc 0)"
  by (simp_all add: bit_is_set_bit bit_is_clear_iff push_bit_of_1)

interpretation kbd: ps2_receiver KB_ClockInterrupt kb_rx 1
proof (unfold_locales, goal_cases)
  case (1 s x)
  then show ?case by (simp add: KB_ClockInterrupt_def data_bit_1 kb_rx_def)
next
  case (2 s x)
  then show ?case by (simp add: KB_ClockInterrupt_def data_bit_1 kb_rx_def)
next
  case (3 s x)
  then have "kb_bit_n s \<noteq> 1" by (auto simp: word_le_nat_alt)
  with 3 show ?case by (simp add: KB_ClockInterrupt_def data_bit_1 kb_rx_def)
next
  case (4 s x)
  then show ?case
    using parity_even_bit_cases [of "kb_buffer s"]
    by (cases "bit x 1") (auto simp: KB_ClockInterrupt_def data_bit_1 kb_rx_def)
next
  case (5 s x)
  then show ?case by (simp add: KB_ClockInterrupt_def data_bit_1 kb_rx_def)
qed

section \<open>Key strokes\<close>

text \<open>
  The bytes of scan code set 2 for pressing and releasing a normal or extended key, and the event
  the driver reports for each.
\<close>

datatype key_action = Make bool u8 | Break bool u8   \<comment> \<open>extended?, key code\<close>

fun action_code :: "key_action \<Rightarrow> u8" where
  "action_code (Make e v) = v"
| "action_code (Break e v) = v"

fun scan_bytes :: "key_action \<Rightarrow> u8 list" where
  "scan_bytes (Make e v) = (if e then [0xE0] else []) @ [v]"
| "scan_bytes (Break e v) = (if e then [0xE0] else []) @ [0xF0, v]"

fun key_event :: "key_action \<Rightarrow> u16" where
  "key_event (Make e v) = (if e then KB_EKeyPress v else KB_KeyPress v)"
| "key_event (Break e v) = (if e then KB_EKeyRelease v else KB_KeyRelease v)"

text \<open>What \<open>n\<close> successive calls of \<open>KB_GetScancode\<close> return.\<close>

fun get_scancodes :: "nat \<Rightarrow> keyboard \<Rightarrow> u16 list \<times> keyboard" where
  "get_scancodes 0 k = ([], k)"
| "get_scancodes (Suc n) k =
     (let (c, k1) = KB_GetScancode k; (cs, k2) = get_scancodes n k1 in (c # cs, k2))"

lemma get_scancodes_add:
  "get_scancodes (m + n) k =
    (let (cs, k1) = get_scancodes m k; (ds, k2) = get_scancodes n k1 in (cs @ ds, k2))"
  by (induction m arbitrary: k) (simp_all add: split_beta Let_def)

text \<open>One byte taken from a well-formed queue that is not empty.\<close>

lemma get_scancode_byte:
  assumes "ring_ok (kb_ringbuffer k)" and "ring_contents (kb_ringbuffer k) = b # bs"
  shows "\<exists>r. ring_ok r \<and> ring_contents r = bs \<and>
    KB_GetScancode k =
      (if b = 0xE0 then (0, k\<lparr>kb_scancode := 0, kb_ringbuffer := r, kb_e0_f0 := 2\<rparr>)
       else if b = 0xF0 then (0, k\<lparr>kb_scancode := 0, kb_ringbuffer := r, kb_e0_f0 := kb_e0_f0 k OR 1\<rparr>)
       else (EVA_NewEvent (EVA_NewEventKey Keyboard (ucast (kb_e0_f0 k))) (EVA_NewEventValue b),
         k\<lparr>kb_ringbuffer := r, kb_e0_f0 := 0,
           kb_scancode := EVA_NewEvent (EVA_NewEventKey Keyboard (ucast (kb_e0_f0 k))) (EVA_NewEventValue b)\<rparr>))"
proof -
  have "RING_HasElement (kb_ringbuffer k)"
    using assms ring.nonempty_contents by auto
  moreover from this have "0 < rb_elements (kb_ringbuffer k)" by (simp add: RING_HasElement_def)
  note g = ring_get_some [OF assms(1) this]
  obtain x r where x: "RING_GetElement (kb_ringbuffer k) = (x, r)" by fastforce
  ultimately show ?thesis
    using g assms(2) by (intro exI [of _ r]) (simp add: KB_GetScancode_def Let_def push_bit_of_1)
qed

text \<open>One key action: all its bytes but the last yield 0, the last yields the event.\<close>

lemma get_action:
  assumes "ring_ok (kb_ringbuffer k)" and "ring_contents (kb_ringbuffer k) = scan_bytes a @ bs"
    and "kb_e0_f0 k = 0" and "action_code a \<noteq> 0xE0" and "action_code a \<noteq> 0xF0"
  shows "\<exists>k'. get_scancodes (length (scan_bytes a)) k =
      (replicate (length (scan_bytes a) - 1) 0 @ [key_event a], k') \<and>
    ring_ok (kb_ringbuffer k') \<and> ring_contents (kb_ringbuffer k') = bs \<and> kb_e0_f0 k' = 0"
proof (cases a)
  case (Make e v)
  show ?thesis
  proof (cases e)
    case True
    obtain r where r: "ring_ok r" "ring_contents r = v # bs"
      "KB_GetScancode k = (0, k\<lparr>kb_scancode := 0, kb_ringbuffer := r, kb_e0_f0 := 2\<rparr>)"
      using get_scancode_byte [OF assms(1), of "0xE0" "v # bs"] assms(2) Make True by auto
    from get_scancode_byte [of "snd (KB_GetScancode k)" v bs] r assms(4,5) Make True
    show ?thesis
      by (auto simp: KB_EKeyPress_def EVA_NewEventValue_def)
  next
    case False
    from get_scancode_byte [OF assms(1), of v bs] assms Make False show ?thesis
      by (auto simp: KB_KeyPress_def EVA_NewEventValue_def)
  qed
next
  case (Break e v)
  show ?thesis
  proof (cases e)
    case True
    obtain r where r: "ring_ok r" "ring_contents r = 0xF0 # v # bs"
      "KB_GetScancode k = (0, k\<lparr>kb_scancode := 0, kb_ringbuffer := r, kb_e0_f0 := 2\<rparr>)"
      using get_scancode_byte [OF assms(1), of "0xE0" "0xF0 # v # bs"] assms(2) Break True by auto
    obtain r' where r': "ring_ok r'" "ring_contents r' = v # bs"
      "KB_GetScancode (snd (KB_GetScancode k)) =
        (0, k\<lparr>kb_scancode := 0, kb_ringbuffer := r', kb_e0_f0 := 3\<rparr>)"
      using get_scancode_byte [of "snd (KB_GetScancode k)" "0xF0" "v # bs"] r by auto
    from get_scancode_byte [of "snd (KB_GetScancode (snd (KB_GetScancode k)))" v bs] r r' assms(4,5)
      Break True
    show ?thesis
      by (auto simp: KB_EKeyRelease_def EVA_NewEventValue_def)
  next
    case False
    obtain r where r: "ring_ok r" "ring_contents r = v # bs"
      "KB_GetScancode k = (0, k\<lparr>kb_scancode := 0, kb_ringbuffer := r, kb_e0_f0 := 1\<rparr>)"
      using get_scancode_byte [OF assms(1), of "0xF0" "v # bs"] assms(2,3) Break False by auto
    from get_scancode_byte [of "snd (KB_GetScancode k)" v bs] r assms(4,5) Break False
    show ?thesis
      by (auto simp: KB_KeyRelease_def EVA_NewEventValue_def)
  qed
qed

lemma key_event_nonzero: "key_event a \<noteq> 0"
proof -
  have "bit (key_event a) 12"
    by (cases a) (auto simp: KB_KeyPress_def KB_KeyRelease_def KB_EKeyPress_def KB_EKeyRelease_def
      event_defs bit_simps)
  then show ?thesis by auto
qed

lemma scan_bytes_nonempty: "0 < length (scan_bytes a)"
  by (cases a) auto

lemma get_actions:
  assumes "ring_ok (kb_ringbuffer k)" and "ring_contents (kb_ringbuffer k) = concat (map scan_bytes as)"
    and "kb_e0_f0 k = 0" and "\<forall>a \<in> set as. action_code a \<noteq> 0xE0 \<and> action_code a \<noteq> 0xF0"
  shows "\<exists>cs k'. get_scancodes (length (concat (map scan_bytes as))) k = (cs, k') \<and>
    filter (\<lambda>c. c \<noteq> 0) cs = map key_event as \<and>
    ring_contents (kb_ringbuffer k') = [] \<and> kb_e0_f0 k' = 0"
  using assms
proof (induction as arbitrary: k)
  case Nil
  then show ?case by simp
next
  case (Cons a as)
  from get_action [of k a "concat (map scan_bytes as)"] Cons.prems
  obtain k1 where k1: "get_scancodes (length (scan_bytes a)) k =
      (replicate (length (scan_bytes a) - 1) 0 @ [key_event a], k1)"
    "ring_ok (kb_ringbuffer k1)" "ring_contents (kb_ringbuffer k1) = concat (map scan_bytes as)"
    "kb_e0_f0 k1 = 0" by auto
  from Cons.IH [OF k1(2-4)] Cons.prems obtain cs k2
    where "get_scancodes (length (concat (map scan_bytes as))) k1 = (cs, k2)"
      "filter (\<lambda>c. c \<noteq> 0) cs = map key_event as"
      "ring_contents (kb_ringbuffer k2) = []" "kb_e0_f0 k2 = 0" by auto
  with k1(1) show ?case by (simp add: get_scancodes_add key_event_nonzero)
qed

lemma ring_put_fold:
  assumes "ring_ok r"
  shows "ring_ok (fold ring_put vs r)"
    and "ring_contents (fold ring_put vs r) =
      ring_contents r @ take (unat (rb_size r) - length (ring_contents r)) vs"
  using ring.fold_put [OF assms, of vs] by simp_all

lemma KB_Init_sel [simp]:
  "kb_bit_n (KB_Init k) = 1" "kb_buffer (KB_Init k) = 0" "kb_e0_f0 (KB_Init k) = 0"
  "kb_error (KB_Init k) = 0" "kb_irq (KB_Init k)"
  "kb_ringbuffer (KB_Init k) = RING_Initialize (rb_data (kb_ringbuffer k)) 8"
  by (simp_all add: KB_Init_def Let_def kb_emit_def KB_NormalStateLed_def)

section \<open>Properties\<close>

text \<open>Reception on the keyboard line: whatever sequence of bytes a keyboard sends in well-formed
  frames (low start bit, eight data bits, odd parity, high stop bit), the clock interrupt, run
  once per falling edge, appends exactly these bytes in order to the receive queue, dropping what
  exceeds the eight bytes of the queue, and is ready for the next frame.
\<close>

theorem kb_frames_queued:
  assumes "list_all2 (\<lambda>xs v. map (\<lambda>x. bit x KB_DATA_BIT) xs = ps2_frame v) fs vs"
    and "kb_bit_n k = 1" and "kb_buffer k = 0" and "ring_ok (kb_ringbuffer k)"
  shows "\<exists>k'. clk_run KB_ClockInterrupt (concat fs) k = Some k' \<and>
    ring_contents (kb_ringbuffer k') = ring_contents (kb_ringbuffer k) @
      take (unat (rb_size (kb_ringbuffer k)) - length (ring_contents (kb_ringbuffer k))) vs \<and>
    ring_ok (kb_ringbuffer k') \<and> kb_bit_n k' = 1 \<and> kb_buffer k' = 0"
  using kbd.all_frames [of fs vs k] assms ring_put_fold [OF assms(4), of vs]
  by (auto simp: rx_idle_def)

definition kb_power_on :: keyboard where
  "kb_power_on = \<lparr>kb_bit_n = 0, kb_buffer = 0, kb_error = 0,
     kb_ringbuffer = \<lparr>rb_data = replicate 8 0, rb_size = 0, rb_in = 0, rb_out = 0, rb_elements = 0\<rparr>,
     kb_e0_f0 = 0, kb_scancode = 0, kb_lastbyte = 0, kb_retry = 0, kb_leds = 0, kb_cmd = 0,
     kb_led_dutycycle = 0, kb_led_delay = 0, kb_led_keycode = 0, kb_irq = False, kb_intf = False,
     kb_falling = False, kb_line = \<lparr>pins = [], ops = []\<rparr>\<rparr>"

text \<open>Samples of port E for a frame, with the data line on bit \<open>b\<close>.\<close>

definition frame_samples :: "nat \<Rightarrow> u8 \<Rightarrow> u8 list" where
  "frame_samples b v = map (\<lambda>x. if x then push_bit b 1 else 0) (ps2_frame v)"

lemma frame_samples_bits: "b < 8 \<Longrightarrow> map (\<lambda>x. bit x b) (frame_samples b v) = ps2_frame v"
  by (simp add: frame_samples_def comp_def if_distrib bit_push_bit_1 cong: if_cong)

lemma kb_init_ring:
  "ring_ok (kb_ringbuffer (KB_Init kb_power_on))"
  "ring_contents (kb_ringbuffer (KB_Init kb_power_on)) = []"
  "rb_size (kb_ringbuffer (KB_Init kb_power_on)) = 8"
  by (simp_all add: kb_power_on_def ring_init_ok ring_init_contents rb_size_init)

theorem kb_frames_queued_witness:
  "\<exists>k'. clk_run KB_ClockInterrupt (concat [frame_samples 1 0xF0, frame_samples 1 0x1C])
      (KB_Init kb_power_on) = Some k' \<and>
    ring_contents (kb_ringbuffer k') = [0xF0, 0x1C]"
  using kb_frames_queued [of "[frame_samples 1 0xF0, frame_samples 1 0x1C]" "[0xF0, 0x1C]"
      "KB_Init kb_power_on"]
  by (auto simp: frame_samples_bits kb_init_ring simp del: KB_Init_sel(6))

text \<open>Scan code set 2 is decoded without loss: when the queue holds the bytes of a sequence of key
  presses and releases (extended keys with prefix E0, releases with prefix F0), as many calls of
  \<open>KB_GetScancode\<close> as there are bytes return, next to zeros, exactly the keyboard events of these
  key actions in order, and leave an empty queue and no pending prefix.
\<close>

theorem scancodes_roundtrip:
  assumes "ring_ok (kb_ringbuffer k)"
    and "ring_contents (kb_ringbuffer k) = concat (map scan_bytes as)"
    and "kb_e0_f0 k = 0"
    and "\<forall>a \<in> set as. action_code a \<noteq> 0xE0 \<and> action_code a \<noteq> 0xF0"
  shows "filter (\<lambda>c. c \<noteq> 0) (fst (get_scancodes (length (concat (map scan_bytes as))) k)) =
      map key_event as \<and>
    \<not> RING_HasElement (kb_ringbuffer (snd (get_scancodes (length (concat (map scan_bytes as))) k))) \<and>
    kb_e0_f0 (snd (get_scancodes (length (concat (map scan_bytes as))) k)) = 0"
  using get_actions [OF assms] by (auto simp: RING_HasElement_def word_gt_0 unat_eq_0 simp flip: length_0_conv)

theorem scancodes_roundtrip_witness:
  "filter (\<lambda>c. c \<noteq> 0) (fst (get_scancodes 4
      (KB_Init kb_power_on\<lparr>kb_ringbuffer := fold ring_put [0x1C, 0xE0, 0xF0, 0x14] (RING_Initialize (replicate 8 0) 8)\<rparr>))) =
    [0x101C, 0x1314]"
proof -
  let ?r = "RING_Initialize (replicate 8 0) 8"
  let ?k = "KB_Init kb_power_on\<lparr>kb_ringbuffer := fold ring_put [0x1C, 0xE0, 0xF0, 0x14] ?r\<rparr>"
  let ?as = "[Make False 0x1C, Break True 0x14]"
  have r: "ring_ok ?r" "ring_contents ?r = []" "rb_size ?r = 8"
    using kb_init_ring by (simp_all add: kb_power_on_def)
  from ring_put_fold [OF r(1), of "[0x1C, 0xE0, 0xF0, 0x14]"] r
  have "ring_ok (kb_ringbuffer ?k)" "ring_contents (kb_ringbuffer ?k) = concat (map scan_bytes ?as)"
    by simp_all
  from scancodes_roundtrip [OF this]
  have "filter (\<lambda>c. c \<noteq> 0) (fst (get_scancodes (length (concat (map scan_bytes ?as))) ?k)) =
      map key_event ?as" by simp
  moreover have "length (concat (map scan_bytes ?as)) = 4" by simp
  moreover have "map key_event ?as = [0x101C, 0x1314]"
    by (simp add: KB_KeyPress_def KB_EKeyRelease_def event_defs push_bit_eq_mult)
  ultimately show ?thesis by (simp only:)
qed

text \<open>A frame whose parity or stop bit is found wrong, for the first time, is asked for again: the
  interrupt transmits the resend command 0xFE, so that the keyboard decodes exactly this byte,
  discards the partial byte, keeps the queue, and is ready for a new frame, on every line whose
  keyboard keeps clocking.
\<close>

theorem kb_resend_request:
  assumes "kb_error k = 0"
    and "kb_bit_n k = 10 \<and> \<not> bit pin KB_DATA_BIT \<and> parity_even_bit (kb_buffer k) = 0 \<or>
      kb_bit_n k = 11 \<and> \<not> bit pin KB_DATA_BIT"
    and "bit hi KB_CLOCK_BIT" and "\<not> bit lo KB_CLOCK_BIT" and "\<not> bit lo KB_DATA_BIT"
    and "bit hi KB_DATA_BIT \<or> 0 < b"
    and "kb_line k = \<lparr>pins = clock_wave hi lo a b 14, ops = []\<rparr>"
  shows "\<exists>k'. KB_ClockInterrupt pin k = Some k' \<and>
    device_decode (device_samples False (ops (kb_line k'))) = Some 0xFE \<and>
    kb_bit_n k' = 1 \<and> kb_buffer k' = 0 \<and> kb_error k' = 1 \<and> kb_irq k' \<and>
    kb_ringbuffer k' = kb_ringbuffer k"
proof -
  obtain l where l: "ps2_send 7 1 0xFE (kb_line k) = Some l"
    using wave_answers [of hi 7 lo 1 b 14 a] assms(3-7) by (auto simp: ps2_send_eq bit_is_clear_iff)
  then have d: "device_decode (device_samples False (ops l)) = Some 0xFE"
    using device_decode_frame [of "0xFE" "[True]"] assms(7)
    by (auto simp: ps2_send_eq device_samples_frame)
  have "KB_ClockInterrupt pin k = kb_resend k"
    using assms(2) by (auto simp: KB_ClockInterrupt_def data_bit_1)
  then show ?thesis using assms(1) l d by (simp add: kb_resend_def KB_Send_def)
qed

theorem kb_resend_request_witness:
  "\<exists>k'. KB_ClockInterrupt 0 (kb_power_on\<lparr>kb_bit_n := 10, kb_buffer := 3,
      kb_line := \<lparr>pins = clock_wave 0x82 0 2 1 14, ops = []\<rparr>\<rparr>) = Some k' \<and>
    device_decode (device_samples False (ops (kb_line k'))) = Some 0xFE"
proof -
  have "bit (0x82::u8) 7" "\<not> bit (0::u8) 7" "\<not> bit (0::u8) 1" "bit (0x82::u8) 1"
    by (simp_all add: bit_iff_odd drop_bit_eq_div)
  moreover have "parity_even_bit 3 = 0" by (simp add: parity_even_bit_def byte_bits_explicit bit_iff_odd)
  ultimately show ?thesis
    using kb_resend_request [of "kb_power_on\<lparr>kb_bit_n := 10, kb_buffer := 3,
      kb_line := \<lparr>pins = clock_wave 0x82 0 2 1 14, ops = []\<rparr>\<rparr>" 0 "0x82" 0 1 2]
    by (auto simp: kb_power_on_def)
qed

text \<open>The parity and stop edges, by the level of the data line.\<close>

lemma kb_edge_parity_high:
  "kb_bit_n k = 10 \<Longrightarrow> bit x KB_DATA_BIT \<Longrightarrow> KB_ClockInterrupt x k = Some (k\<lparr>kb_bit_n := 11\<rparr>)"
  using parity_even_bit_cases [of "kb_buffer k"] by (auto simp: KB_ClockInterrupt_def data_bit_1)

lemma kb_edge_parity_low_again:
  "kb_bit_n k = 10 \<Longrightarrow> \<not> bit x KB_DATA_BIT \<Longrightarrow> parity_even_bit (kb_buffer k) = 0 \<Longrightarrow>
    kb_error k = 1 \<Longrightarrow> KB_ClockInterrupt x k = Some k"
  by (simp add: KB_ClockInterrupt_def data_bit_1 kb_resend_def)

lemma kb_edge_stop_low_again:
  "kb_bit_n k = 11 \<Longrightarrow> \<not> bit x KB_DATA_BIT \<Longrightarrow> kb_error k = 1 \<Longrightarrow> KB_ClockInterrupt x k = Some k"
  by (simp add: KB_ClockInterrupt_def data_bit_1 kb_resend_def)

lemma kb_edge_stop_high:
  "kb_bit_n k = 11 \<Longrightarrow> bit x KB_DATA_BIT \<Longrightarrow> map_option kb_rx (KB_ClockInterrupt x k) =
    Some \<lparr>rx_bit_n = 1, rx_buffer = 0, rx_error = 0,
      rx_ring = ring_put (kb_buffer k) (kb_ringbuffer k)\<rparr>"
  using kbd.stop_bit [of k x] by simp

text \<open>Before the parity bit nothing is transmitted.\<close>

lemma kb_data_line:
  "clk_run KB_ClockInterrupt xs k = Some k' \<Longrightarrow> unat (kb_bit_n k) + length xs \<le> 10 \<Longrightarrow>
    kb_line k' = kb_line k"
proof (induction xs arbitrary: k)
  case Nil
  then show ?case by simp
next
  case (Cons x xs)
  then obtain k1 where k1: "KB_ClockInterrupt x k = Some k1" "clk_run KB_ClockInterrupt xs k1 = Some k'"
    by (auto split: bind_splits)
  have "kb_bit_n k \<noteq> 10" "kb_bit_n k \<noteq> 11" "kb_bit_n k < 255"
    using Cons.prems(2) by (auto simp: word_less_nat_alt)
  moreover from this have "unat (kb_bit_n k + 1) = Suc (unat (kb_bit_n k))"
    by (intro unat_inc)
  ultimately have "kb_line k1 = kb_line k" "unat (kb_bit_n k1) \<le> Suc (unat (kb_bit_n k))"
    using k1(1) by (auto simp: KB_ClockInterrupt_def Let_def split: if_splits)
  with Cons.IH [OF k1(2)] Cons.prems(2) show ?case by simp
qed

text \<open>The parity check of the keyboard accepts every frame whose parity bit is high, whatever the
  data: a frame with low start bit, any eight data bits, a high parity bit and a high stop bit is
  queued, also when its parity is even, that is wrong. (The comparison is between the masked
  port bit, 2 when the line is high, and a parity of 0 or 1.)
\<close>

theorem kb_parity_high_accepted:
  assumes "kb_bit_n k = 1" and "kb_buffer k = 0"
    and "map (\<lambda>x. bit x KB_DATA_BIT) xs = [False] @ byte_bits v @ [True, True]"
  shows "\<exists>k'. clk_run KB_ClockInterrupt xs k = Some k' \<and>
    kb_ringbuffer k' = ring_put v (kb_ringbuffer k) \<and> kb_bit_n k' = 1"
proof -
  obtain x0 zs where xs: "xs = x0 # zs" using assms(3) by (cases xs) auto
  with assms(3) have z: "map (\<lambda>x. bit x 1) zs = byte_bits v @ [True, True]" "\<not> bit x0 1" by simp_all
  obtain ys ps where ys: "zs = ys @ ps" "map (\<lambda>x. bit x 1) ys = byte_bits v"
    "map (\<lambda>x. bit x 1) ps = [True, True]"
    using z(1) by (auto simp: map_eq_append_conv)
  then obtain p q where pq: "ps = [p, q]" "bit p 1" "bit q 1" by (auto simp: map_eq_Cons_conv)
  have "map_option kb_rx (clk_run KB_ClockInterrupt (x0 # ys) k) =
      Some ((kb_rx k)\<lparr>rx_bit_n := 10, rx_buffer := v\<rparr>)"
    using kbd.frame_data [OF z(2) ys(2), of k] assms(1,2) by (simp add: rx_idle_def)
  then obtain k1 where k1: "clk_run KB_ClockInterrupt (x0 # ys) k = Some k1"
    "kb_bit_n k1 = 10" "kb_buffer k1 = v" "kb_ringbuffer k1 = kb_ringbuffer k"
    by (auto simp: kb_rx_def)
  note k2 = kb_edge_parity_high [OF k1(2) pq(2)]
  from kb_edge_stop_high [of "k1\<lparr>kb_bit_n := 11\<rparr>" q] pq(3) obtain k3
    where k3: "KB_ClockInterrupt q (k1\<lparr>kb_bit_n := 11\<rparr>) = Some k3"
      "kb_rx k3 = \<lparr>rx_bit_n = 1, rx_buffer = 0, rx_error = 0, rx_ring = ring_put v (kb_ringbuffer k)\<rparr>"
    using k1 by auto
  have "clk_run KB_ClockInterrupt ((x0 # ys) @ [p, q]) k = Some k3"
    using k1(1) k2 k3(1) by (simp only: clk_run_append) simp
  then show ?thesis using k3(2) xs ys(1) pq(1) by (auto simp: kb_rx_def)
qed

theorem kb_parity_high_accepted_witness:
  "\<exists>k'. clk_run KB_ClockInterrupt [0, 2, 0, 0, 0, 0, 0, 0, 0, 2, 2] (kb_power_on\<lparr>kb_bit_n := 1\<rparr>) = Some k' \<and>
    kb_ringbuffer k' = ring_put 1 (kb_ringbuffer kb_power_on) \<and> parity_even_bit 1 = 1"
proof -
  have "map (\<lambda>x. bit (x::u8) 1) [0, 2, 0, 0, 0, 0, 0, 0, 0, 2, 2] = [False] @ byte_bits 1 @ [True, True]"
    by (simp add: byte_bits_explicit bit_iff_odd)
  from kb_parity_high_accepted [of "kb_power_on\<lparr>kb_bit_n := 1\<rparr>", OF _ _ this]
  show ?thesis
    by (auto simp: kb_power_on_def parity_even_bit_def byte_bits_explicit bit_iff_odd)
qed

text \<open>A second frame in a row with a wrong (low) parity bit is neither discarded nor asked for again:
  the interrupt keeps its position inside the frame, takes the stop bit of the bad frame for the
  parity bit, waits at the start bit of the next frame and queues the bad byte at its first high
  data bit.
\<close>

theorem kb_second_error_desync:
  assumes "kb_bit_n k = 1" and "kb_buffer k = 0" and "kb_error k = 1" and "parity_even_bit v = 0"
    and "map (\<lambda>x. bit x KB_DATA_BIT) xs = [False] @ byte_bits v @ [False, True]"
    and "\<not> bit start KB_DATA_BIT" and "bit first KB_DATA_BIT"
  shows "\<exists>k'. clk_run KB_ClockInterrupt (xs @ [start, first]) k = Some k' \<and>
    kb_ringbuffer k' = ring_put v (kb_ringbuffer k) \<and> kb_bit_n k' = 1 \<and>
    ops (kb_line k') = ops (kb_line k)"
proof -
  obtain x0 zs where xs: "xs = x0 # zs" using assms(5) by (cases xs) auto
  with assms(5) have z: "map (\<lambda>x. bit x 1) zs = byte_bits v @ [False, True]" "\<not> bit x0 1" by simp_all
  obtain ys ps where ys: "zs = ys @ ps" "map (\<lambda>x. bit x 1) ys = byte_bits v"
    "map (\<lambda>x. bit x 1) ps = [False, True]"
    using z(1) by (auto simp: map_eq_append_conv)
  then obtain p q where pq: "ps = [p, q]" "\<not> bit p 1" "bit q 1" by (auto simp: map_eq_Cons_conv)
  have "map_option kb_rx (clk_run KB_ClockInterrupt (x0 # ys) k) =
      Some ((kb_rx k)\<lparr>rx_bit_n := 10, rx_buffer := v\<rparr>)"
    using kbd.frame_data [OF z(2) ys(2), of k] assms(1,2) by (simp add: rx_idle_def)
  then obtain k1 where k1: "clk_run KB_ClockInterrupt (x0 # ys) k = Some k1"
    "kb_bit_n k1 = 10" "kb_buffer k1 = v" "kb_ringbuffer k1 = kb_ringbuffer k" "kb_error k1 = 1"
    using assms(3) by (auto simp: kb_rx_def)
  have line: "kb_line k1 = kb_line k"
  proof (rule kb_data_line [OF k1(1)])
    have "length ys = 8" using ys(2) by (metis length_byte_bits length_map)
    then show "unat (kb_bit_n k) + length (x0 # ys) \<le> 10" using assms(1) by simp
  qed
  have p: "KB_ClockInterrupt p k1 = Some k1"
    using k1 pq(2) assms(4) by (intro kb_edge_parity_low_again) simp_all
  have q: "KB_ClockInterrupt q k1 = Some (k1\<lparr>kb_bit_n := 11\<rparr>)"
    by (rule kb_edge_parity_high [OF k1(2) pq(3)])
  have st: "KB_ClockInterrupt start (k1\<lparr>kb_bit_n := 11\<rparr>) = Some (k1\<lparr>kb_bit_n := 11\<rparr>)"
    using k1 assms(6) by (intro kb_edge_stop_low_again) simp_all
  have f: "KB_ClockInterrupt first (k1\<lparr>kb_bit_n := 11\<rparr>) = Some (k1\<lparr>kb_ringbuffer :=
      ring_put v (kb_ringbuffer k), kb_bit_n := 1, kb_buffer := 0, kb_error := 0\<rparr>)"
    using k1 assms(7) by (simp add: KB_ClockInterrupt_def data_bit_1)
  have "clk_run KB_ClockInterrupt ((x0 # ys) @ [p, q, start, first]) k = Some (k1\<lparr>kb_ringbuffer :=
      ring_put v (kb_ringbuffer k), kb_bit_n := 1, kb_buffer := 0, kb_error := 0\<rparr>)"
    using k1(1) p q st f by (simp only: clk_run_append) simp
  then show ?thesis using line xs ys(1) pq(1) by simp
qed

theorem kb_second_error_desync_witness:
  "\<exists>k'. clk_run KB_ClockInterrupt ([0, 2, 2, 0, 0, 0, 0, 0, 0, 0, 2] @ [0, 2])
      (kb_power_on\<lparr>kb_bit_n := 1, kb_error := 1\<rparr>) = Some k' \<and>
    kb_ringbuffer k' = ring_put 3 (kb_ringbuffer kb_power_on)"
proof -
  have b: "map (\<lambda>x. bit (x::u8) 1) [0, 2, 2, 0, 0, 0, 0, 0, 0, 0, 2] = [False] @ byte_bits 3 @ [False, True]"
    "parity_even_bit 3 = 0" "\<not> bit (0::u8) 1" "bit (2::u8) 1"
    by (simp_all add: byte_bits_explicit bit_iff_odd parity_even_bit_def)
  show ?thesis
    using kb_second_error_desync [of "kb_power_on\<lparr>kb_bit_n := 1, kb_error := 1\<rparr>", OF _ _ _ b(2,1,3,4)]
    by (auto simp: kb_power_on_def)
qed

end
