(* ===== verification/MouseDriver.thy ===== *)
theory MouseDriver
  imports Ps2Line EventAction
begin

text \<open>
  \<open>ps-2/MouseDriver.c\<close>, the driver below the event filter: its static structures, initialisation,
  configuration and reset, the transmission of a byte, the clock and timer interrupts, and the
  arithmetic that turns a movement into a stick position. The mouse clock is bit 6 and its data
  line bit 0 of port E (\<open>MouseDriver.h\<close>). One bit fields of the C structures are booleans.
\<close>

section \<open>State\<close>

record mouse =
  \<comment> \<open>\<open>ms_driver\<close>\<close>
  drv_bit_n :: u8
  drv_buffer :: u8
  drv_error :: u8
  drv_ringbuffer :: ringbuff
  \<comment> \<open>\<open>ms_trigger\<close>\<close>
  trg_timeout :: u8
  trg_timer :: u8
  trg_action :: u8
  \<comment> \<open>\<open>ms_packet\<close>\<close>
  pk_size :: u8
  pk_bytes :: "u8 list"
  \<comment> \<open>\<open>ms_dispatch\<close>\<close>
  dsp_left :: bool
  dsp_right :: bool
  dsp_middle :: bool
  dsp_averagex_index :: u8
  dsp_averagey_index :: u8
  \<comment> \<open>\<open>ms_config\<close>, the last two fields have two bits\<close>
  cfg_frequency :: u8
  cfg_resolution :: u8
  cfg_scale :: u8
  \<comment> \<open>\<open>ms_filter\<close>\<close>
  flt_state :: u8
  flt_retry :: u8
  flt_size :: u8
  flt_table :: "u8 list"
  \<comment> \<open>INT6 of EIMSK, INTF6 of EIFR, ISC61 of EICRB, OCIE1A of TIMSK1, timer 1, and the lines\<close>
  ms_irq :: bool
  ms_intf :: bool
  ms_falling :: bool
  ms_timer_irq :: bool
  ocr1a :: u16
  tccr1a :: u8
  tccr1b :: u8
  prtim1 :: bool
  ms_line :: ps2_line

abbreviation (input) "MS_DATA_BIT \<equiv> 0 :: nat"
abbreviation (input) "MS_CLOCK_BIT \<equiv> 6 :: nat"
abbreviation (input) "MS_BUFSIZE \<equiv> 2 :: nat"

text \<open>The start-up dialogue: pairs of the byte to receive and the byte to send next.\<close>

definition ms_state_table :: "u8 list" where
  "ms_state_table =
    [0xFA, 0x00,
     0xAA, 0x00,
     0x00, 0xFF,
     0xFA, 0x00,
     0xAA, 0x00,
     0x00, 0xFF,
     0xFA, 0x00,
     0xAA, 0x00,
     0x00, 0xFF,
     0xFA, 0x00,
     0xAA, 0x00,
     0x00, 0xF3,
     0xFA, 200,
     0xFA, 0xF3,
     0xFA, 100,
     0xFA, 0xF3,
     0xFA, 80,
     0xFA, 0xF2,
     0xFA, 0x00,
     0x03, 0xE8,
     0xFA, 0xD1,
     0xFA, 0xD2,
     0xFA, 0xF3,
     0xFA, 0xD3,
     0xFA, 0xF4,
     0xFA, 0x00]"

section \<open>Initialisation and configuration\<close>

definition SetMouseDefault :: "mouse \<Rightarrow> mouse" where
  "SetMouseDefault m = m\<lparr>cfg_resolution := 3, cfg_frequency := 100, cfg_scale := 1\<rparr>"

definition ms_emit :: "line_op \<Rightarrow> mouse \<Rightarrow> mouse" where
  "ms_emit x m = m\<lparr>ms_line := emit x (ms_line m)\<rparr>"

definition TimerInit :: "mouse \<Rightarrow> mouse" where
  "TimerInit m =
     (let m = m\<lparr>ocr1a := 250\<rparr>;
          m = m\<lparr>tccr1a := 0\<rparr>;
          m = m\<lparr>tccr1b := push_bit 3 1 OR push_bit 1 1 OR push_bit 0 1\<rparr>;
          m = m\<lparr>prtim1 := False\<rparr>
      in m\<lparr>ms_timer_irq := True\<rparr>)"

definition MS_Init :: "mouse \<Rightarrow> mouse" where
  "MS_Init m =
     (let m = m\<lparr>drv_bit_n := 1, drv_buffer := 0, drv_error := 0\<rparr>;
          m = m\<lparr>drv_ringbuffer := RING_Initialize (rb_data (drv_ringbuffer m)) (of_nat MS_BUFSIZE)\<rparr>;
          m = m\<lparr>trg_timeout := 15, trg_timer := 0, trg_action := 0\<rparr>;
          m = m\<lparr>pk_size := 0\<rparr>;
          m = m\<lparr>dsp_averagex_index := 0, dsp_averagey_index := 0\<rparr>;
          m = m\<lparr>flt_retry := 0, flt_state := 2, flt_size := of_nat (length ms_state_table),
                flt_table := ms_state_table\<rparr>;
          m = ms_emit (DataDdr False) m;
          m = ms_emit (ClockDdr False) m;
          m = ms_emit (ClockPort True) m;
          m = SetMouseDefault m;
          m = m\<lparr>ms_falling := True\<rparr>;
          m = m\<lparr>ms_intf := False\<rparr>;
          m = m\<lparr>ms_irq := True\<rparr>
      in TimerInit m)"

definition SendByte :: "u8 \<Rightarrow> mouse \<Rightarrow> mouse option" where
  "SendByte d m = do {
     let m = m\<lparr>ms_irq := False\<rparr>;
     let m = m\<lparr>ms_timer_irq := False\<rparr>;
     let m = m\<lparr>drv_buffer := 0, drv_error := 0, drv_bit_n := 1\<rparr>;
     l \<leftarrow> ps2_send MS_CLOCK_BIT MS_DATA_BIT d (ms_line m);
     let m = m\<lparr>ms_line := l\<rparr>;
     let m = m\<lparr>ms_intf := False\<rparr>;
     let m = m\<lparr>ms_irq := True\<rparr>;
     Some (m\<lparr>ms_timer_irq := True\<rparr>) }"

definition ResetState :: "mouse \<Rightarrow> mouse option" where
  "ResetState m = do {
     m \<leftarrow> SendByte 0xFF m;
     Some (m\<lparr>flt_state := 0\<rparr>) }"

definition MS_MouseReset :: "mouse \<Rightarrow> mouse option" where
  "MS_MouseReset m = ResetState (SetMouseDefault m)"

text \<open>The two-bit fields keep the low two bits of what is assigned.\<close>

definition MS_SetResolution :: "u8 \<Rightarrow> mouse \<Rightarrow> mouse option" where
  "MS_SetResolution r m = ResetState (m\<lparr>cfg_resolution := r AND 3\<rparr>)"

definition MS_SetFrequency :: "u8 \<Rightarrow> mouse \<Rightarrow> mouse option" where
  "MS_SetFrequency f m = ResetState (m\<lparr>cfg_frequency := f\<rparr>)"

definition MS_SetScaling :: "u8 \<Rightarrow> mouse \<Rightarrow> mouse option" where
  "MS_SetScaling c m = ResetState (m\<lparr>cfg_scale := c AND 3\<rparr>)"

definition GetScancode :: "mouse \<Rightarrow> u8 \<times> mouse" where
  "GetScancode m = (let (b, r) = RING_GetElement (drv_ringbuffer m) in (b, m\<lparr>drv_ringbuffer := r\<rparr>))"

definition HasScancode :: "mouse \<Rightarrow> bool" where
  "HasScancode m = RING_HasElement (drv_ringbuffer m)"

section \<open>Interrupts\<close>

definition ms_resend :: "mouse \<Rightarrow> mouse option" where
  "ms_resend m = do {
     m \<leftarrow> (if drv_error m = 0 then SendByte 0xFE m else Some m);
     Some (m\<lparr>drv_error := 1\<rparr>) }"

definition MS_ClockInterrupt :: "u8 \<Rightarrow> mouse \<Rightarrow> mouse option" where
  "MS_ClockInterrupt pin m =
     (let m = m\<lparr>trg_timer := trg_timeout m, trg_action := 0\<rparr> in
      if drv_bit_n m = 1 \<and> bit_is_set pin MS_DATA_BIT \<noteq> 0 then Some m
      else if 2 \<le> drv_bit_n m \<and> drv_bit_n m \<le> 9 then
        (let m = (if bit_is_set pin MS_DATA_BIT \<noteq> 0 then
                    m\<lparr>drv_buffer := drv_buffer m OR push_bit (unat (drv_bit_n m - 2)) 1\<rparr>
                  else m)
         in Some (m\<lparr>drv_bit_n := drv_bit_n m + 1\<rparr>))
      else if drv_bit_n m = 10 then
        (if bit_is_set pin MS_DATA_BIT = parity_even_bit (drv_buffer m) then ms_resend m
         else Some (m\<lparr>drv_bit_n := drv_bit_n m + 1\<rparr>))
      else if drv_bit_n m = 11 then
        (if bit_is_clear pin MS_DATA_BIT then ms_resend m
         else
           (let m = m\<lparr>drv_ringbuffer := ring_put (drv_buffer m) (drv_ringbuffer m)\<rparr>;
                m = m\<lparr>drv_buffer := 0, drv_bit_n := 0, drv_error := 0\<rparr>
            in Some (m\<lparr>drv_bit_n := drv_bit_n m + 1\<rparr>)))
      else Some (m\<lparr>drv_bit_n := drv_bit_n m + 1\<rparr>))"

definition MS_TimerInterrupt :: "mouse \<Rightarrow> mouse" where
  "MS_TimerInterrupt m =
     (if trg_timer m > 0 then
        (let m = m\<lparr>trg_timer := trg_timer m - 1\<rparr>
         in if trg_timer m = 0 \<and> trg_action m = 0 then m\<lparr>trg_action := 1\<rparr> else m)
      else m)"

section \<open>From a movement to a stick position\<close>

record vector =
  v_sign :: bool
  v_overflow :: bool
  v_label :: u8
  v_data :: u8

abbreviation (input) "ACTION_VW_IDLE \<equiv> 128 :: u16"
abbreviation (input) "ACTION_VW_DEAD_ZONE \<equiv> 25 :: u16"
abbreviation (input) "ACTION_VW_MAXVECTOR \<equiv> 126 :: u16"

definition AbsoluteValue :: "vector \<Rightarrow> vector" where
  "AbsoluteValue v =
     (let v = (if v_sign v then v\<lparr>v_data := NOT (v_data v) + 1\<rparr> else v)
      in if v_overflow v then v\<lparr>v_data := ucast ACTION_VW_MAXVECTOR\<rparr> else v)"

text \<open>The fields of the four packet bytes: header bits, then the x, y and z bytes.\<close>

definition VectorX :: "u8 list \<Rightarrow> vector" where
  "VectorX p = AbsoluteValue \<lparr>v_sign = bit (p ! 0) 4, v_overflow = bit (p ! 0) 6, v_label = 88 - 64,
     v_data = p ! 1\<rparr>"

definition VectorY :: "u8 list \<Rightarrow> vector" where
  "VectorY p = AbsoluteValue \<lparr>v_sign = bit (p ! 0) 5, v_overflow = bit (p ! 0) 7, v_label = 89 - 64,
     v_data = p ! 2\<rparr>"

text \<open>
  \<open>Val\<close>, without the FARCRY2 variant (which no Makefile of the repository selects). The factor
  is a \<open>double\<close> in the code; its callers pass 3, and the products stay below 1024.
\<close>

definition Val :: "vector \<Rightarrow> u16 \<Rightarrow> u8" where
  "Val v mul =
     (let val = mul * ucast (v_data v);
          val = (if val \<noteq> 0 then val + ACTION_VW_DEAD_ZONE else val)
      in if val \<le> ACTION_VW_MAXVECTOR then
           (if v_sign v then ucast (ACTION_VW_IDLE - val) else ucast (ACTION_VW_IDLE + val))
         else if v_sign v then 0 else 255)"

section \<open>The interrupt is a PS/2 receiver\<close>

definition ms_rx :: "mouse \<Rightarrow> ps2_rx" where
  "ms_rx m = \<lparr>rx_bit_n = drv_bit_n m, rx_buffer = drv_buffer m, rx_error = drv_error m,
     rx_ring = drv_ringbuffer m\<rparr>"

lemma ms_rx_sel [simp]:
  "rx_bit_n (ms_rx m) = drv_bit_n m" "rx_buffer (ms_rx m) = drv_buffer m"
  "rx_error (ms_rx m) = drv_error m" "rx_ring (ms_rx m) = drv_ringbuffer m"
  by (simp_all add: ms_rx_def)

lemma data_bit_0:
  "bit_is_set x 0 = (if bit x 0 then 1 else 0)" "bit_is_clear x 0 \<longleftrightarrow> \<not> bit x 0"
  by (simp_all add: bit_is_set_bit bit_is_clear_iff)

interpretation mse: ps2_receiver MS_ClockInterrupt ms_rx 0
proof (unfold_locales, goal_cases)
  case (1 s x)
  then show ?case by (simp add: MS_ClockInterrupt_def Let_def data_bit_0 ms_rx_def del: bit_0)
next
  case (2 s x)
  then show ?case by (simp add: MS_ClockInterrupt_def Let_def data_bit_0 ms_rx_def del: bit_0)
next
  case (3 s x)
  then have "drv_bit_n s \<noteq> 1" by (auto simp: word_le_nat_alt)
  with 3 show ?case by (simp add: MS_ClockInterrupt_def Let_def data_bit_0 ms_rx_def del: bit_0)
next
  case (4 s x)
  then show ?case
    using parity_even_bit_cases [of "drv_buffer s"]
    by (cases "bit x 0") (auto simp: MS_ClockInterrupt_def Let_def data_bit_0 ms_rx_def simp del: bit_0)
next
  case (5 s x)
  then show ?case by (simp add: MS_ClockInterrupt_def Let_def data_bit_0 ms_rx_def del: bit_0)
qed

section \<open>Stick positions\<close>

text \<open>
  The reference: a signed movement moves the stick from its centre by three times the movement
  plus the dead zone of the controller, and saturates.
\<close>

definition stick :: "int \<Rightarrow> int" where
  "stick d = (if d = 0 then 128
     else if 3 * \<bar>d\<bar> + 25 \<le> 126 then 128 + sgn d * (3 * \<bar>d\<bar> + 25)
     else if d < 0 then 0 else 255)"

text \<open>The header bits and data byte with which a mouse encodes a movement of nine bits.\<close>

definition encode_move :: "int \<Rightarrow> bool \<times> u8" where
  "encode_move d = (d < 0, of_int d)"

definition decode_move :: "bool \<Rightarrow> u8 \<Rightarrow> int" where
  "decode_move neg x = (if neg then uint x - 256 else uint x)"

lemma stick_mono: "d \<le> e \<Longrightarrow> stick d \<le> stick e"
  by (cases "d = 0"; cases "e = 0"; cases "d < 0"; cases "e < 0"; simp add: stick_def sgn_if)

lemma stick_range: "0 \<le> stick d" "stick d \<le> 255"
  by (auto simp: stick_def sgn_if)

lemma unat_product: "unat (3 * ucast (x::u8) :: u16) = 3 * unat x"
proof -
  have "unat x < 256" using unsigned_less [where 'a = nat, of x] by simp
  then show ?thesis by (simp add: unat_word_ariths unsigned_ucast_eq take_bit_nat_eq_self)
qed

lemma unat_product_zone: "unat (3 * ucast (x::u8) + 25 :: u16) = 3 * unat x + 25"
proof -
  have "unat x < 256" using unsigned_less [where 'a = nat, of x] by simp
  then show ?thesis by (simp add: unat_word_ariths unsigned_ucast_eq take_bit_nat_eq_self)
qed

text \<open>\<open>Val\<close> in terms of the magnitude as a number.\<close>

lemma Val_nat:
  assumes "v_data v = x"
  shows "unat (Val v 3) = (if x = 0 then 128
     else if 3 * unat x + 25 \<le> 126 then (if v_sign v then 103 - 3 * unat x else 153 + 3 * unat x)
     else if v_sign v then 0 else 255)"
proof (cases "x = 0")
  case True
  with assms show ?thesis by (simp add: Val_def)
next
  case False
  have "unat x \<noteq> 0" using False by (simp add: unat_eq_0)
  then have nz: "(3 * ucast x :: u16) \<noteq> 0" using unat_product [of x] by (metis mult_eq_0_iff unat_0 zero_neq_numeral)
  have le: "(3 * ucast x + 25 :: u16) \<le> 126 \<longleftrightarrow> 3 * unat x + 25 \<le> 126"
    using unat_product_zone [of x] by (simp add: word_le_nat_alt)
  have sub: "unat (128 - (3 * ucast x + 25) :: u16) = 103 - 3 * unat x" if "3 * unat x + 25 \<le> 126"
    using that unat_product_zone [of x] by (subst unat_sub) (simp_all add: word_le_nat_alt)
  have add: "unat (128 + (3 * ucast x + 25) :: u16) = 153 + 3 * unat x" if "3 * unat x + 25 \<le> 126"
    using that unat_product_zone [of x] unat_product [of x] by (simp add: unat_word_ariths(1))
  show ?thesis
    using False nz le sub add assms
    by (simp add: Val_def Let_def unsigned_ucast_eq take_bit_nat_eq_self)
qed

text \<open>The magnitude \<open>AbsoluteValue\<close> computes for a movement that fits nine bits without -256.\<close>

lemma magnitude:
  assumes "v_overflow v = False" and "d = decode_move (v_sign v) (v_data v)" and "d \<noteq> -256"
  shows "v_sign (AbsoluteValue v) = v_sign v" and "int (unat (v_data (AbsoluteValue v))) = \<bar>d\<bar>"
    and "v_sign v \<longleftrightarrow> d < 0"
proof -
  let ?x = "v_data v"
  have x: "0 \<le> uint ?x" "uint ?x < 256" using uint_bounded [of ?x] by simp_all
  show "v_sign (AbsoluteValue v) = v_sign v" by (simp add: AbsoluteValue_def Let_def)
  show "v_sign v \<longleftrightarrow> d < 0" using assms(2) x by (auto simp: decode_move_def)
  show "int (unat (v_data (AbsoluteValue v))) = \<bar>d\<bar>"
  proof (cases "v_sign v")
    case True
    with assms have "uint ?x \<noteq> 0" by (auto simp: decode_move_def)
    with x(1) have "0 < uint ?x" by linarith
    then have "uint (- ?x) = 256 - uint ?x"
      using x by (simp add: uint_word_ariths zmod_zminus1_eq_if)
    moreover have "NOT ?x + 1 = - ?x" by (simp add: not_eq_complement)
    ultimately show ?thesis
      using True assms(1,2) x by (simp add: AbsoluteValue_def decode_move_def)
  next
    case False
    then show ?thesis using assms(1,2) x by (simp add: AbsoluteValue_def decode_move_def)
  qed
qed

lemma Val_stick:
  assumes "v_overflow v = False" and "d = decode_move (v_sign v) (v_data v)" and "d \<noteq> -256"
  shows "uint (Val (AbsoluteValue v) 3) = stick d"
proof -
  note m = magnitude [OF assms]
  let ?w = "AbsoluteValue v"
  define n where "n = unat (v_data ?w)"
  have n: "int n = \<bar>d\<bar>" "v_data ?w = 0 \<longleftrightarrow> n = 0" using m(2) by (simp_all add: n_def unat_eq_0)
  have "int (unat (Val ?w 3)) = stick d"
    unfolding Val_nat [of ?w, OF refl] n_def [symmetric] using n m(1,3)
    by (cases "d < 0") (auto simp: stick_def sgn_if)
  then show ?thesis by simp
qed

lemma Val_overflow:
  assumes "v_overflow v"
  shows "Val (AbsoluteValue v) 3 = (if v_sign v then 0 else 255)"
  using assms by (simp add: AbsoluteValue_def Val_def Let_def)

section \<open>Properties\<close>

lemma SendByte_frame:
  assumes "SendByte d m = Some m'"
  shows "drv_ringbuffer m' = drv_ringbuffer m" "trg_timer m' = trg_timer m"
    "trg_timeout m' = trg_timeout m" "trg_action m' = trg_action m" "pk_size m' = pk_size m"
    "pk_bytes m' = pk_bytes m" "flt_state m' = flt_state m" "flt_retry m' = flt_retry m"
    "flt_size m' = flt_size m" "flt_table m' = flt_table m" "cfg_resolution m' = cfg_resolution m"
    "cfg_scale m' = cfg_scale m" "cfg_frequency m' = cfg_frequency m"
    "drv_bit_n m' = 1" "drv_buffer m' = 0" "drv_error m' = 0" "ms_irq m'" "ms_timer_irq m'"
    "ops (ms_line m') = ops (ms_line m) @ frame_ops d"
  using assms by (auto simp: SendByte_def ps2_send_eq split: bind_splits)

text \<open>Reception on the mouse line: every sequence of well-formed frames is appended, byte by byte and
  in order, to the receive queue of two bytes; what exceeds its capacity is dropped, the queue
  stays well formed and the receiver is ready for the next frame.
\<close>

theorem ms_frames_queued:
  assumes "list_all2 (\<lambda>xs v. map (\<lambda>x. bit x MS_DATA_BIT) xs = ps2_frame v) fs vs"
    and "drv_bit_n m = 1" and "drv_buffer m = 0" and "ring_ok (drv_ringbuffer m)"
  shows "\<exists>m'. clk_run MS_ClockInterrupt (concat fs) m = Some m' \<and>
    ring_contents (drv_ringbuffer m') = ring_contents (drv_ringbuffer m) @
      take (unat (rb_size (drv_ringbuffer m)) - length (ring_contents (drv_ringbuffer m))) vs \<and>
    ring_ok (drv_ringbuffer m') \<and> drv_bit_n m' = 1 \<and> drv_buffer m' = 0"
proof -
  obtain m' where m': "clk_run MS_ClockInterrupt (concat fs) m = Some m'" "rx_idle (ms_rx m')"
    "drv_ringbuffer m' = fold ring_put vs (drv_ringbuffer m)"
    using mse.all_frames [of fs vs m] assms(1-3) by (auto simp: rx_idle_def)
  then show ?thesis using ring.fold_put [OF assms(4), of vs] by (auto simp: rx_idle_def)
qed

definition ms_power_on :: mouse where
  "ms_power_on = \<lparr>drv_bit_n = 0, drv_buffer = 0, drv_error = 0,
     drv_ringbuffer = \<lparr>rb_data = [0, 0], rb_size = 0, rb_in = 0, rb_out = 0, rb_elements = 0\<rparr>,
     trg_timeout = 0, trg_timer = 0, trg_action = 0, pk_size = 0, pk_bytes = [0, 0, 0, 0],
     dsp_left = False, dsp_right = False, dsp_middle = False, dsp_averagex_index = 0,
     dsp_averagey_index = 0, cfg_frequency = 0, cfg_resolution = 0, cfg_scale = 0, flt_state = 0,
     flt_retry = 0, flt_size = 0, flt_table = [], ms_irq = False, ms_intf = False,
     ms_falling = False, ms_timer_irq = False, ocr1a = 0, tccr1a = 0, tccr1b = 0, prtim1 = True,
     ms_line = \<lparr>pins = [], ops = []\<rparr>\<rparr>"

lemma MS_Init_sel [simp]:
  "drv_bit_n (MS_Init m) = 1" "drv_buffer (MS_Init m) = 0" "drv_error (MS_Init m) = 0"
  "drv_ringbuffer (MS_Init m) = RING_Initialize (rb_data (drv_ringbuffer m)) 2"
  "trg_timeout (MS_Init m) = 15" "pk_size (MS_Init m) = 0" "pk_bytes (MS_Init m) = pk_bytes m"
  "flt_state (MS_Init m) = 2" "flt_retry (MS_Init m) = 0" "flt_size (MS_Init m) = 52"
  "flt_table (MS_Init m) = ms_state_table" "cfg_resolution (MS_Init m) = 3"
  "cfg_frequency (MS_Init m) = 100" "cfg_scale (MS_Init m) = 1" "ms_irq (MS_Init m)"
  by (simp_all add: MS_Init_def Let_def ms_emit_def TimerInit_def SetMouseDefault_def
      ms_state_table_def)

lemma ms_init_ring:
  "ring_ok (drv_ringbuffer (MS_Init ms_power_on))"
  "ring_contents (drv_ringbuffer (MS_Init ms_power_on)) = []"
  "rb_size (drv_ringbuffer (MS_Init ms_power_on)) = 2"
  by (simp_all add: ms_power_on_def ring_init_ok ring_init_contents rb_size_init)

theorem ms_frames_queued_witness:
  "\<exists>m'. clk_run MS_ClockInterrupt (concat [map (\<lambda>x. of_bool x) (ps2_frame 0xFA),
      map (\<lambda>x. of_bool x) (ps2_frame 0xAA), map (\<lambda>x. of_bool x) (ps2_frame 3)]) (MS_Init ms_power_on) = Some m' \<and>
    ring_contents (drv_ringbuffer m') = [0xFA, 0xAA]"
proof -
  have "map (\<lambda>x. bit x 0) (map (\<lambda>x. of_bool x :: u8) (ps2_frame v)) = ps2_frame v" for v
    by (simp add: comp_def bit_0)
  then show ?thesis
    using ms_frames_queued [of "[map (\<lambda>x. of_bool x) (ps2_frame 0xFA),
        map (\<lambda>x. of_bool x) (ps2_frame 0xAA), map (\<lambda>x. of_bool x) (ps2_frame 3)]" "[0xFA, 0xAA, 3]"
        "MS_Init ms_power_on"] ms_init_ring
    by (auto simp del: MS_Init_sel(4) map_map)
qed

text \<open>The parity check of the mouse is exact: at the parity edge the frame is accepted when the
  parity bit is odd parity of the received data, and otherwise, when it is the first error, the
  resend command 0xFE is transmitted (the mouse decodes exactly that byte), the partial byte is
  discarded and the queue is unchanged.
\<close>

theorem ms_parity_check:
  assumes "drv_bit_n m = 10" and "drv_error m = 0" and "ops (ms_line m) = []"
    and "MS_ClockInterrupt pin m = Some m'"
  shows "if bit pin MS_DATA_BIT = (parity_even_bit (drv_buffer m) = 0)
    then drv_bit_n m' = 11 \<and> drv_buffer m' = drv_buffer m \<and> drv_ringbuffer m' = drv_ringbuffer m \<and>
      ops (ms_line m') = []
    else drv_bit_n m' = 1 \<and> drv_buffer m' = 0 \<and> drv_error m' = 1 \<and>
      drv_ringbuffer m' = drv_ringbuffer m \<and>
      device_decode (device_samples False (ops (ms_line m'))) = Some 0xFE"
proof (cases "bit pin 0 = (parity_even_bit (drv_buffer m) = 0)")
  case True
  then show ?thesis using assms parity_even_bit_cases [of "drv_buffer m"]
    by (auto simp: MS_ClockInterrupt_def Let_def data_bit_0 simp del: bit_0)
next
  case False
  then have "MS_ClockInterrupt pin m = ms_resend (m\<lparr>trg_timer := trg_timeout m, trg_action := 0\<rparr>)"
    using assms(1) parity_even_bit_cases [of "drv_buffer m"]
    by (auto simp: MS_ClockInterrupt_def Let_def data_bit_0 simp del: bit_0)
  with assms(2,4) obtain m1 where m1: "SendByte 0xFE (m\<lparr>trg_timer := trg_timeout m, trg_action := 0\<rparr>) = Some m1"
    "m' = m1\<lparr>drv_error := 1\<rparr>"
    by (auto simp: ms_resend_def split: bind_splits)
  from SendByte_frame [OF m1(1)] m1(2) False show ?thesis
    using device_decode_frame [of "0xFE" "[True]"] assms(3) by (simp add: device_samples_frame del: bit_0)
qed

theorem ms_parity_check_witness:
  "\<exists>m'. MS_ClockInterrupt 1 (ms_power_on\<lparr>drv_bit_n := 10, drv_buffer := 1,
      ms_line := \<lparr>pins = clock_wave 0x41 0 2 1 14, ops = []\<rparr>\<rparr>) = Some m' \<and>
    device_decode (device_samples False (ops (ms_line m'))) = Some 0xFE"
proof -
  let ?m = "ms_power_on\<lparr>drv_bit_n := 10, drv_buffer := 1,
      ms_line := \<lparr>pins = clock_wave 0x41 0 2 1 14, ops = []\<rparr>\<rparr>"
  have b: "bit (0x41::u8) 6" "bit (1::u8) 0" "parity_even_bit 1 = 1"
    by (simp_all add: bit_iff_odd drop_bit_eq_div parity_even_bit_def byte_bits_explicit)
  have "await_all (send_waits 6 0) (clock_wave 0x41 0 2 1 14) \<noteq> None"
    by (rule wave_answers) (simp_all add: bit_is_clear_def bit_is_set_def push_bit_of_1)
  then have "MS_ClockInterrupt 1 ?m \<noteq> None"
    using b by (auto simp: MS_ClockInterrupt_def Let_def data_bit_0 ms_resend_def SendByte_def
      ms_power_on_def ps2_send_eq)
  then obtain m' where m': "MS_ClockInterrupt 1 ?m = Some m'" by auto
  from ms_parity_check [OF _ _ _ m'] b show ?thesis
    by (intro exI [of _ m'] conjI m') (simp add: ms_power_on_def)
qed

text \<open>A movement packet is translated to stick positions as intended: for each axis without overflow,
  the position computed by \<open>Val\<close> is the reference function of the signed nine-bit movement (idle,
  proportional past the dead zone, saturated), and with the overflow flag it is the end of the
  axis in the direction of the sign. The only exception is the movement -256.
\<close>

theorem stick_of_movement:
  assumes "decode_move (bit (p ! 0) 4) (p ! 1) \<noteq> -256" and "decode_move (bit (p ! 0) 5) (p ! 2) \<noteq> -256"
  shows "uint (Val (VectorX p) 3) =
      (if bit (p ! 0) 6 then (if bit (p ! 0) 4 then 0 else 255)
       else stick (decode_move (bit (p ! 0) 4) (p ! 1))) \<and>
    uint (Val (VectorY p) 3) =
      (if bit (p ! 0) 7 then (if bit (p ! 0) 5 then 0 else 255)
       else stick (decode_move (bit (p ! 0) 5) (p ! 2)))"
proof -
  let ?vx = "\<lparr>v_sign = bit (p ! 0) 4, v_overflow = bit (p ! 0) 6, v_label = 88 - 64, v_data = p ! 1\<rparr>"
  let ?vy = "\<lparr>v_sign = bit (p ! 0) 5, v_overflow = bit (p ! 0) 7, v_label = 89 - 64, v_data = p ! 2\<rparr>"
  show ?thesis
    using Val_stick [of ?vx, OF _ refl] Val_stick [of ?vy, OF _ refl]
      Val_overflow [of ?vx] Val_overflow [of ?vy] assms
    by (simp add: VectorX_def VectorY_def)
qed

theorem stick_of_movement_witness:
  "uint (Val (VectorX [0x28, 10, 0xF6, 0]) 3) = 183 \<and> uint (Val (VectorY [0x28, 10, 0xF6, 0]) 3) = 73"
proof -
  have b: "\<not> bit (0x28::u8) 4" "bit (0x28::u8) 5" "\<not> bit (0x28::u8) 6" "\<not> bit (0x28::u8) 7"
    by (simp_all add: bit_iff_odd drop_bit_eq_div)
  then show ?thesis
    using stick_of_movement [of "[0x28, 10, 0xF6, 0]"]
    by (simp add: decode_move_def stick_def sgn_if)
qed

text \<open>The movement -256 (sign bit set, data byte 0), the largest one to the left or down that the
  mouse protocol can report without the overflow flag, leaves the stick idle: its magnitude is
  computed modulo 256.
\<close>

theorem stick_minimum_idle:
  assumes "bit (p ! 0) 4" and "\<not> bit (p ! 0) 6" and "p ! 1 = 0"
  shows "decode_move (bit (p ! 0) 4) (p ! 1) = -256 \<and> Val (VectorX p) 3 = 128 \<and> stick (-256) = 0"
  using assms by (simp add: decode_move_def VectorX_def AbsoluteValue_def Val_def stick_def)

theorem stick_minimum_idle_witness: "Val (VectorX [0x18, 0, 0, 0]) 3 = 128"
proof -
  have "bit (0x18::u8) 4" "\<not> bit (0x18::u8) 6" by (simp_all add: bit_iff_odd drop_bit_eq_div)
  then show ?thesis using stick_minimum_idle [of "[0x18, 0, 0, 0]"] by simp
qed

text \<open>The timer counts down and triggers once, at the transition from one to zero.\<close>

lemma timer_tick:
  "trg_timer m = 0 \<Longrightarrow> MS_TimerInterrupt m = m"
  "trg_timer m \<noteq> 0 \<Longrightarrow> trg_timer (MS_TimerInterrupt m) = trg_timer m - 1"
  "trg_timer m \<noteq> 0 \<Longrightarrow> trg_action (MS_TimerInterrupt m) =
     (if trg_timer m = 1 \<and> trg_action m = 0 then 1 else trg_action m)"
  by (auto simp: MS_TimerInterrupt_def Let_def word_gt_0)

lemma timer_run:
  assumes "trg_action m = 0"
  shows "unat (trg_timer ((MS_TimerInterrupt ^^ n) m)) = unat (trg_timer m) - n \<and>
    trg_action ((MS_TimerInterrupt ^^ n) m) =
      (if trg_timer m \<noteq> 0 \<and> unat (trg_timer m) \<le> n then 1 else 0)"
proof (induction n)
  case 0
  then show ?case using assms by (simp add: unat_eq_0)
next
  case (Suc n)
  define t where "t = (MS_TimerInterrupt ^^ n) m"
  note IH = Suc [folded t_def]
  have s: "(MS_TimerInterrupt ^^ Suc n) m = MS_TimerInterrupt t" by (simp add: t_def)
  show ?case
  proof (cases "trg_timer t = 0")
    case True
    then have "unat (trg_timer m) \<le> n" using IH by simp
    with IH True show ?thesis unfolding s by (simp add: timer_tick(1))
  next
    case False
    then have u: "unat (trg_timer t - 1) = unat (trg_timer t) - 1"
      by (intro unat_dec) (simp add: word_gt_0)
    have nz: "unat (trg_timer t) \<noteq> 0" using False by (simp add: unat_eq_0)
    then have lt: "n < unat (trg_timer m)" using IH by simp
    then have "trg_timer m \<noteq> 0" by auto
    moreover have "trg_timer t = 1 \<longleftrightarrow> unat (trg_timer t) = 1"
      by (simp add: word_unat_eq_iff)
    then have "trg_timer t = 1 \<longleftrightarrow> unat (trg_timer m) \<le> Suc n"
      using IH lt by auto
    ultimately show ?thesis
      unfolding s using IH False lt u by (simp add: timer_tick(2,3))
  qed
qed

lemma clock_reloads:
  assumes "MS_ClockInterrupt pin m = Some m'"
  shows "trg_timer m' = trg_timeout m" "trg_action m' = 0" "trg_timeout m' = trg_timeout m"
  using assms
  by (auto simp: MS_ClockInterrupt_def Let_def ms_resend_def SendByte_frame split: if_splits bind_splits)

text \<open>The inactivity trigger: after a clock interrupt, the trigger is set exactly from the
  \<open>timeout\<close>-th timer interrupt on (fifteen milliseconds with the value of \<open>MS_Init\<close>), and every
  clock interrupt starts the count anew.
\<close>

theorem idle_trigger:
  assumes "MS_ClockInterrupt pin m = Some m'" and "trg_timeout m \<noteq> 0"
  shows "trg_action ((MS_TimerInterrupt ^^ n) m') = (if unat (trg_timeout m) \<le> n then 1 else 0)"
  using timer_run [OF clock_reloads(2) [OF assms(1)], of n] clock_reloads [OF assms(1)] assms(2) by simp

theorem idle_trigger_witness:
  "\<exists>m'. MS_ClockInterrupt 0 (MS_Init ms_power_on) = Some m' \<and>
    trg_action ((MS_TimerInterrupt ^^ 14) m') = 0 \<and> trg_action ((MS_TimerInterrupt ^^ 15) m') = 1"
proof -
  obtain m' where m': "MS_ClockInterrupt 0 (MS_Init ms_power_on) = Some m'"
    using mse.start_bit [of "MS_Init ms_power_on" 0] by auto
  show ?thesis using idle_trigger [OF m', of 14] idle_trigger [OF m', of 15] m' by simp
qed

end
