(* ===== verification/UsbJoystick.thy ===== *)
theory UsbJoystick
  imports Prelude
begin

text \<open>
  \<open>ps-2/usb_joystick.c\<close>: the report state of the emulated joystick (buttons and four axes), the
  transmission of a report on the interrupt endpoint, and the USB device itself: the two USB
  interrupts, with the control requests of endpoint 0 and the descriptor tables.

  The USB controller is reached through special function registers. The values the coming
  volatile reads return (\<open>UEINTX\<close>, \<open>UEDATX\<close>, \<open>UDFNUML\<close>, \<open>UECONX\<close>, and \<open>usb_configuration\<close> when
  it is read while interrupts are enabled) are the input list \<open>reads\<close>, consumed in program
  order. Every register write goes to the list \<open>writes\<close>, in order. A loop that still waits when
  the reads are used up has not returned: its value is \<open>None\<close>.
\<close>

section \<open>State and register access\<close>

datatype sfr =
    UENUM | UEINTX | UEDATX | UECONX | UECFG0X | UECFG1X | UEIENX | UERST
  | UDADDR | UDINT | UDCON | UDIEN | USBCON | PLLCSR | UHWCON

record usb =
  usb_configuration :: u8
  joystick_buttons :: u16
  joystick_axis_x :: u8
  joystick_axis_y :: u8
  joystick_axis_z :: u8
  joystick_axis_rz :: u8
  joystick_protocol :: u8
  sreg_i :: bool            \<comment> \<open>the global interrupt enable bit of SREG\<close>
  reads :: "u8 list"
  writes :: "(sfr \<times> u8) list"

definition rd :: "usb \<Rightarrow> (u8 \<times> usb) option" where
  "rd s = (case reads s of [] \<Rightarrow> None | x # xs \<Rightarrow> Some (x, s\<lparr>reads := xs\<rparr>))"

definition wr :: "sfr \<Rightarrow> u8 \<Rightarrow> usb \<Rightarrow> usb" where
  "wr r x s = s\<lparr>writes := writes s @ [(r, x)]\<rparr>"

lemma rd_decreases [termination_simp]: "rd s = Some (x, s') \<Longrightarrow> length (reads s') < length (reads s)"
  by (auto simp: rd_def split: list.splits)

text \<open>Bits of the registers (\<open>avr/io.h\<close>) and request codes (\<open>usb_joystick.h\<close>).\<close>

abbreviation (input) "RWAL \<equiv> 5 :: nat"
abbreviation (input) "RXSTPI \<equiv> 3 :: nat"
abbreviation (input) "RXOUTI \<equiv> 2 :: nat"
abbreviation (input) "TXINI \<equiv> 0 :: nat"
abbreviation (input) "STALLRQ \<equiv> 5 :: nat"
abbreviation (input) "EORSTI \<equiv> 3 :: nat"

abbreviation (input) "GET_STATUS \<equiv> 0 :: u8"
abbreviation (input) "CLEAR_FEATURE \<equiv> 1 :: u8"
abbreviation (input) "SET_FEATURE \<equiv> 3 :: u8"
abbreviation (input) "SET_ADDRESS \<equiv> 5 :: u8"
abbreviation (input) "GET_DESCRIPTOR \<equiv> 6 :: u8"
abbreviation (input) "GET_CONFIGURATION \<equiv> 8 :: u8"
abbreviation (input) "SET_CONFIGURATION \<equiv> 9 :: u8"
abbreviation (input) "HID_GET_REPORT \<equiv> 1 :: u8"
abbreviation (input) "HID_GET_PROTOCOL \<equiv> 3 :: u8"
abbreviation (input) "HID_SET_PROTOCOL \<equiv> 11 :: u8"

abbreviation (input) "NO_BUTTON \<equiv> 0x0008 :: u16"
abbreviation (input) "UP_BUTTON \<equiv> 0x0000 :: u16"
abbreviation (input) "RIGHT_BUTTON \<equiv> 0x0002 :: u16"
abbreviation (input) "DOWN_BUTTON \<equiv> 0x0004 :: u16"
abbreviation (input) "LEFT_BUTTON \<equiv> 0x0006 :: u16"
abbreviation (input) "RIGHT_HAT_BUTTON \<equiv> 0x8000 :: u16"
abbreviation (input) "LEFT_HAT_BUTTON \<equiv> 0x4000 :: u16"
abbreviation (input) "START_BUTTON \<equiv> 0x2000 :: u16"
abbreviation (input) "SELECT_BUTTON \<equiv> 0x1000 :: u16"
abbreviation (input) "R2_BUTTON \<equiv> 0x0800 :: u16"
abbreviation (input) "L2_BUTTON \<equiv> 0x0400 :: u16"
abbreviation (input) "R1_BUTTON \<equiv> 0x0200 :: u16"
abbreviation (input) "L1_BUTTON \<equiv> 0x0100 :: u16"
abbreviation (input) "TRIANGLE_BUTTON \<equiv> 0x0080 :: u16"
abbreviation (input) "CIRCLE_BUTTON \<equiv> 0x0040 :: u16"
abbreviation (input) "CROSS_BUTTON \<equiv> 0x0020 :: u16"
abbreviation (input) "SQUARE_BUTTON \<equiv> 0x0010 :: u16"

abbreviation (input) "ENDPOINT0_SIZE \<equiv> 32 :: u8"
abbreviation (input) "JOYSTICK_INTERFACE \<equiv> 0 :: u16"
abbreviation (input) "JOYSTICK_ENDPOINT \<equiv> 3 :: u8"
abbreviation (input) "JOYSTICK_SIZE \<equiv> 8 :: u8"
abbreviation (input) "MAX_ENDPOINT \<equiv> 4 :: u8"

definition EP_SIZE :: "u8 \<Rightarrow> u8" where
  "EP_SIZE s = (if s = 64 then 0x30 else if s = 32 then 0x20 else if s = 16 then 0x10 else 0)"

abbreviation (input) "EP_TYPE_CONTROL \<equiv> 0x00 :: u8"
abbreviation (input) "EP_TYPE_INTERRUPT_IN \<equiv> 0xC1 :: u8"
abbreviation (input) "EP_SINGLE_BUFFER \<equiv> 0x02 :: u8"
abbreviation (input) "EP_DOUBLE_BUFFER \<equiv> 0x06 :: u8"

section \<open>The report state\<close>

definition usb_joystick_raz_buttons :: "usb \<Rightarrow> usb" where
  "usb_joystick_raz_buttons s = s\<lparr>joystick_buttons := NO_BUTTON\<rparr>"

definition usb_joystick_raz_axis :: "usb \<Rightarrow> usb" where
  "usb_joystick_raz_axis s = s\<lparr>joystick_axis_x := 0x80, joystick_axis_y := 0x80,
     joystick_axis_z := 0x80, joystick_axis_rz := 0x80\<rparr>"

definition usb_joystick_raz :: "usb \<Rightarrow> usb" where
  "usb_joystick_raz s = usb_joystick_raz_axis (usb_joystick_raz_buttons s)"

definition usb_configured :: "usb \<Rightarrow> u8" where
  "usb_configured s = usb_configuration s"

definition usb_joystick_press :: "u16 \<Rightarrow> usb \<Rightarrow> usb" where
  "usb_joystick_press button s = s\<lparr>joystick_buttons := joystick_buttons s OR button\<rparr>"

definition usb_joystick_release :: "u16 \<Rightarrow> usb \<Rightarrow> usb" where
  "usb_joystick_release button s = s\<lparr>joystick_buttons := joystick_buttons s AND NOT button\<rparr>"

definition usb_joystick_press_dir :: "u16 \<Rightarrow> usb \<Rightarrow> usb" where
  "usb_joystick_press_dir dir s =
     (let s = s\<lparr>joystick_buttons := joystick_buttons s AND 0xFFF0\<rparr>
      in s\<lparr>joystick_buttons := joystick_buttons s OR dir\<rparr>)"

definition usb_joystick_move_x :: "u8 \<Rightarrow> usb \<Rightarrow> usb" where
  "usb_joystick_move_x v s = s\<lparr>joystick_axis_x := v\<rparr>"

definition usb_joystick_move_y :: "u8 \<Rightarrow> usb \<Rightarrow> usb" where
  "usb_joystick_move_y v s = s\<lparr>joystick_axis_y := v\<rparr>"

definition usb_joystick_move_zrz :: "u8 \<Rightarrow> u8 \<Rightarrow> usb \<Rightarrow> usb" where
  "usb_joystick_move_zrz vz vrz s = s\<lparr>joystick_axis_z := vz, joystick_axis_rz := vrz\<rparr>"

text \<open>\<open>usb_init\<close>, for the AT90USB1286 the Makefile builds for; the loop waits for the PLL lock.\<close>

fun wait_pll :: "u8 list \<Rightarrow> u8 list option" where
  "wait_pll [] = None"
| "wait_pll (x # xs) = (if bit x 0 then Some xs else wait_pll xs)"

definition usb_init :: "usb \<Rightarrow> usb option" where
  "usb_init s = do {
     let s = wr UHWCON 0x81 s;
     let s = wr USBCON 0xA0 s;
     let s = wr PLLCSR 0x16 s;
     r \<leftarrow> wait_pll (reads s);
     let s = s\<lparr>reads := r\<rparr>;
     let s = wr USBCON 0x90 s;
     let s = wr UDCON 0 s;
     let s = s\<lparr>usb_configuration := 0\<rparr>;
     let s = wr UDIEN 0x0C s;
     Some (s\<lparr>sreg_i := True\<rparr>) }"

section \<open>Sending a report\<close>

definition usb_send_codes :: "usb \<Rightarrow> usb" where
  "usb_send_codes s =
     (let s = wr UEDATX (joystick_axis_x s) s;
          s = wr UEDATX (joystick_axis_y s) s;
          s = wr UEDATX (joystick_axis_z s) s;
          s = wr UEDATX (joystick_axis_rz s) s;
          s = wr UEDATX (ucast (joystick_buttons s)) s
      in wr UEDATX (ucast (drop_bit 8 (joystick_buttons s))) s)"

text \<open>The waiting loop of \<open>usb_joystick_send\<close>, with the saved interrupt state and the timeout.\<close>

function send_loop :: "bool \<Rightarrow> u8 \<Rightarrow> usb \<Rightarrow> (int \<times> usb) option" where
  "send_loop intr_state timeout s = do {
     (x, s) \<leftarrow> rd s;
     if bit x RWAL then
       (let s = usb_send_codes s;
            s = wr UEINTX 0x3A s
        in Some (0, s\<lparr>sreg_i := intr_state\<rparr>))
     else do {
       let s = s\<lparr>sreg_i := intr_state\<rparr>;
       (c, s) \<leftarrow> rd s;
       let s = s\<lparr>usb_configuration := c\<rparr>;
       if c = 0 then Some (-1, s)
       else do {
         (f, s) \<leftarrow> rd s;
         if f = timeout then Some (-1, s)
         else send_loop (sreg_i s) timeout (wr UENUM JOYSTICK_ENDPOINT (s\<lparr>sreg_i := False\<rparr>)) } } }"
  by pat_completeness auto
termination
proof (relation "measure (\<lambda>(i, t, s). length (reads s))", goal_cases)
  case 1
  show ?case by simp
next
  case 2
  then show ?case by (auto simp: rd_def wr_def split: list.splits)
qed

declare send_loop.simps [simp del]

definition usb_joystick_send :: "usb \<Rightarrow> (int \<times> usb) option" where
  "usb_joystick_send s =
     (if usb_configuration s = 0 then Some (-1, s)
      else do {
        let intr_state = sreg_i s;
        let s = wr UENUM JOYSTICK_ENDPOINT (s\<lparr>sreg_i := False\<rparr>);
        (f, s) \<leftarrow> rd s;
        send_loop intr_state (f + 50) s })"

section \<open>Facts about sending\<close>

text \<open>The six bytes of a report, and what is left of a register trace without endpoint selection.\<close>

definition report :: "usb \<Rightarrow> u8 list" where
  "report s = [joystick_axis_x s, joystick_axis_y s, joystick_axis_z s, joystick_axis_rz s,
     ucast (joystick_buttons s), ucast (drop_bit 8 (joystick_buttons s))]"

definition same_report :: "usb \<Rightarrow> usb \<Rightarrow> bool" where
  "same_report s t \<longleftrightarrow> report s = report t \<and> joystick_buttons s = joystick_buttons t \<and>
     joystick_protocol s = joystick_protocol t"

definition data_writes :: "(sfr \<times> u8) list \<Rightarrow> (sfr \<times> u8) list" where
  "data_writes ws = filter (\<lambda>(r, x). r \<noteq> UENUM) ws"

lemma rd_Some: "rd s = Some (x, t) \<Longrightarrow> reads s = x # reads t \<and> t = s\<lparr>reads := reads t\<rparr>"
  by (auto simp: rd_def split: list.splits)

lemma usb_send_codes_eq: "usb_send_codes s = s\<lparr>writes := writes s @ map (Pair UEDATX) (report s)\<rparr>"
  by (simp add: usb_send_codes_def wr_def report_def)

definition send_post :: "usb \<Rightarrow> int \<Rightarrow> usb \<Rightarrow> bool \<Rightarrow> bool" where
  "send_post s r s' ie \<longleftrightarrow> same_report s s' \<and> sreg_i s' = ie \<and>
     (\<exists>ws. writes s' = writes s @ ws \<and>
       (r = 0 \<and> data_writes ws = map (Pair UEDATX) (report s) @ [(UEINTX, 0x3A)] \<or>
        r = -1 \<and> data_writes ws = []))"

lemma send_post_retry:
  assumes "send_post t r s' ie" and "same_report s t" and "writes t = writes s @ [(UENUM, x)]"
  shows "send_post s r s' ie"
proof -
  from assms(1) obtain ws where "writes s' = writes t @ ws" and
    "r = 0 \<and> data_writes ws = map (Pair UEDATX) (report t) @ [(UEINTX, 0x3A)] \<or>
     r = -1 \<and> data_writes ws = []"
    by (auto simp: send_post_def)
  with assms show ?thesis
    by (auto simp: send_post_def same_report_def data_writes_def intro!: exI [of _ "(UENUM, x) # ws"])
qed

text \<open>The loop by the next samples: ready, offline, timeout, or another round.\<close>

lemma send_loop_unfold:
  "reads s = [] \<Longrightarrow> send_loop ie t s = None"
  "reads s = x # xs \<Longrightarrow> bit x RWAL \<Longrightarrow> send_loop ie t s = Some (0, s\<lparr>reads := xs, sreg_i := ie,
     writes := writes s @ map (Pair UEDATX) (report s) @ [(UEINTX, 0x3A)]\<rparr>)"
  "reads s = [x] \<Longrightarrow> \<not> bit x RWAL \<Longrightarrow> send_loop ie t s = None"
  "reads s = x # c # xs \<Longrightarrow> \<not> bit x RWAL \<Longrightarrow> c = 0 \<Longrightarrow> send_loop ie t s =
     Some (-1, s\<lparr>reads := xs, sreg_i := ie, usb_configuration := 0\<rparr>)"
  "reads s = [x, c] \<Longrightarrow> \<not> bit x RWAL \<Longrightarrow> c \<noteq> 0 \<Longrightarrow> send_loop ie t s = None"
  "reads s = x # c # f # xs \<Longrightarrow> \<not> bit x RWAL \<Longrightarrow> c \<noteq> 0 \<Longrightarrow> f = t \<Longrightarrow> send_loop ie t s =
     Some (-1, s\<lparr>reads := xs, sreg_i := ie, usb_configuration := c\<rparr>)"
  "reads s = x # c # f # xs \<Longrightarrow> \<not> bit x RWAL \<Longrightarrow> c \<noteq> 0 \<Longrightarrow> f \<noteq> t \<Longrightarrow> send_loop ie t s =
     send_loop ie t (s\<lparr>usb_configuration := c, reads := xs, sreg_i := False,
       writes := writes s @ [(UENUM, JOYSTICK_ENDPOINT)]\<rparr>)"
  by (subst send_loop.simps, simp add: rd_def wr_def usb_send_codes_eq report_def)+

lemma send_loop_post: "send_loop ie t s = Some (r, s') \<Longrightarrow> send_post s r s' ie"
proof (induction "length (reads s)" arbitrary: s rule: less_induct)
  case less
  note posts = send_post_def same_report_def report_def data_writes_def
  consider "reads s = []" | (ready) x xs where "reads s = x # xs" "bit x RWAL"
    | x where "reads s = [x]" "\<not> bit x RWAL"
    | (offline) x xs where "reads s = x # 0 # xs" "\<not> bit x RWAL"
    | x c where "reads s = [x, c]" "\<not> bit x RWAL" "c \<noteq> 0"
    | (more) x c f xs where "reads s = x # c # f # xs" "\<not> bit x RWAL" "c \<noteq> 0"
    by (metis list.exhaust)
  then show ?case
  proof cases
    case ready
    with less.prems show ?thesis by (auto simp: send_loop_unfold(2) posts)
  next
    case offline
    with less.prems show ?thesis by (auto simp: send_loop_unfold(4) posts)
  next
    case more
    show ?thesis
    proof (cases "f = t")
      case True
      with more less.prems show ?thesis by (auto simp: send_loop_unfold(6) posts)
    next
      case False
      let ?t = "s\<lparr>usb_configuration := c, reads := xs, sreg_i := False,
        writes := writes s @ [(UENUM, JOYSTICK_ENDPOINT)]\<rparr>"
      have "send_loop ie t ?t = Some (r, s')"
        using less.prems more False by (simp add: send_loop_unfold(7))
      with more have "send_post ?t r s' ie" by (intro less.hyps) simp_all
      then show ?thesis by (rule send_post_retry) (simp_all add: same_report_def report_def)
    qed
  qed (use less.prems in \<open>simp_all add: send_loop_unfold(1,3,5)\<close>)
qed

lemma send_post_full:
  assumes "usb_joystick_send s = Some (r, s')"
  shows "send_post s r s' (sreg_i s)"
proof (cases "usb_configuration s = 0")
  case True
  with assms show ?thesis
    by (auto simp: usb_joystick_send_def send_post_def same_report_def data_writes_def)
next
  case False
  with assms obtain f t where "rd (wr UENUM 3 (s\<lparr>sreg_i := False\<rparr>)) = Some (f, t)"
    and l: "send_loop (sreg_i s) (f + 50) t = Some (r, s')"
    by (auto simp: usb_joystick_send_def split: bind_splits)
  then have "t = s\<lparr>sreg_i := False, reads := reads t, writes := writes s @ [(UENUM, 3)]\<rparr>"
    by (auto simp: rd_def wr_def split: list.splits)
  then have "same_report s t" "writes t = writes s @ [(UENUM, 3)]"
    by (metis (no_types, lifting) same_report_def report_def usb.select_convs usb.surjective usb.update_convs,
      metis usb.select_convs(10) usb.surjective usb.update_convs(10))
  with send_post_retry [OF send_loop_post [OF l]] show ?thesis by blast
qed

subsection \<open>The timeout\<close>

text \<open>
  One polling round reads \<open>UEINTX\<close>, \<open>usb_configuration\<close> and \<open>UDFNUML\<close>. The frame counter steps by
  at most one between two rounds (a round takes far less than the millisecond of a frame), and
  \<open>elapsed\<close> counts its steps.
\<close>

definition rounds :: "(u8 \<times> u8 \<times> u8) list \<Rightarrow> u8 list" where
  "rounds ps = concat (map (\<lambda>(x, c, f). [x, c, f]) ps)"

fun paced :: "u8 \<Rightarrow> u8 list \<Rightarrow> bool" where
  "paced f [] = True"
| "paced f (g # gs) = ((g = f \<or> g = f + 1) \<and> paced g gs)"

fun elapsed :: "u8 \<Rightarrow> u8 list \<Rightarrow> nat" where
  "elapsed f [] = 0"
| "elapsed f (g # gs) = (if g = f then 0 else 1) + elapsed g gs"

lemma frame_reached:
  "paced f gs \<Longrightarrow> 0 < k \<Longrightarrow> k \<le> elapsed f gs \<Longrightarrow> f + of_nat k \<in> set gs"
proof (induction gs arbitrary: f k)
  case Nil
  then show ?case by simp
next
  case (Cons g gs)
  show ?case
  proof (cases "g = f")
    case True
    with Cons show ?thesis by auto
  next
    case False
    then have g: "g = f + 1" and e: "k \<le> Suc (elapsed g gs)" using Cons.prems by auto
    show ?thesis
    proof (cases "k = 1")
      case True
      with g show ?thesis by simp
    next
      case False
      then obtain j where j: "k = Suc j" "0 < j" using Cons.prems(2) by (cases k) auto
      with Cons.IH [of g j] Cons.prems(1) e have "g + of_nat j \<in> set gs" by simp
      then show ?thesis using g j by (simp add: add.assoc)
    qed
  qed
qed

lemma send_loop_stops:
  "reads s = rounds ps \<Longrightarrow> t \<in> (snd \<circ> snd) ` set ps \<Longrightarrow> send_loop ie t s \<noteq> None"
proof (induction ps arbitrary: s)
  case Nil
  then show ?case by simp
next
  case (Cons p ps)
  obtain x c f where p: "p = (x, c, f)" by (cases p)
  with Cons.prems(1) have r: "reads s = x # c # f # rounds ps" by (simp add: rounds_def)
  consider "bit x RWAL" | "\<not> bit x RWAL" "c = 0" | "\<not> bit x RWAL" "c \<noteq> 0" "f = t"
    | "\<not> bit x RWAL" "c \<noteq> 0" "f \<noteq> t" by blast
  then show ?case
  proof cases
    case 4
    with Cons p have "send_loop ie t (s\<lparr>usb_configuration := c, reads := rounds ps, sreg_i := False,
        writes := writes s @ [(UENUM, JOYSTICK_ENDPOINT)]\<rparr>) \<noteq> None"
      by (intro Cons.IH) auto
    with 4 r show ?thesis by (simp add: send_loop_unfold(7))
  qed (use r in \<open>simp_all add: send_loop_unfold(2,4,6)\<close>)
qed

subsection \<open>The endpoint gets ready\<close>

text \<open>Polling rounds in which the bank is still full, the device configured and the time not over.\<close>

definition waiting_rounds :: "u8 \<Rightarrow> (u8 \<times> u8 \<times> u8) list \<Rightarrow> bool" where
  "waiting_rounds t ps = list_all (\<lambda>(x, c, f). \<not> bit x RWAL \<and> c \<noteq> 0 \<and> f \<noteq> t) ps"

lemma send_loop_ready:
  "reads s = rounds ps @ x # rs \<Longrightarrow> waiting_rounds t ps \<Longrightarrow> bit x RWAL \<Longrightarrow>
    \<exists>s'. send_loop ie t s = Some (0, s') \<and> reads s' = rs"
proof (induction ps arbitrary: s)
  case Nil
  then show ?case by (simp add: rounds_def send_loop_unfold(2))
next
  case (Cons p ps)
  obtain y c f where p: "p = (y, c, f)" by (cases p)
  with Cons.prems have r: "reads s = y # c # f # (rounds ps @ x # rs)" and w: "\<not> bit y RWAL" "c \<noteq> 0" "f \<noteq> t"
    "waiting_rounds t ps" by (simp_all add: rounds_def waiting_rounds_def)
  with Cons.IH [of "s\<lparr>usb_configuration := c, reads := rounds ps @ x # rs, sreg_i := False,
      writes := writes s @ [(UENUM, JOYSTICK_ENDPOINT)]\<rparr>"] Cons.prems(3)
  show ?case by (simp add: send_loop_unfold(7) [OF r w(1-3)])
qed

lemma send_ready:
  assumes "usb_configuration s \<noteq> 0" and "reads s = f # rounds ps @ x # rs"
    and "waiting_rounds (f + 50) ps" and "bit x RWAL"
  shows "\<exists>s'. usb_joystick_send s = Some (0, s') \<and> reads s' = rs \<and> report s' = report s \<and>
    joystick_buttons s' = joystick_buttons s \<and>
    data_writes (writes s') = data_writes (writes s) @ map (Pair UEDATX) (report s) @ [(UEINTX, 0x3A)]"
proof -
  obtain s' where s': "usb_joystick_send s = Some (0, s')" "reads s' = rs"
    using assms(1,2) send_loop_ready [OF _ assms(3,4), where rs = rs and ie = "sreg_i s" and
      s = "s\<lparr>sreg_i := False, writes := writes s @ [(UENUM, 3)], reads := rounds ps @ x # rs\<rparr>"]
    by (auto simp: usb_joystick_send_def rd_def wr_def)
  with send_post_full [OF s'(1)] show ?thesis
    by (auto simp: send_post_def same_report_def data_writes_def)
qed

section \<open>Properties\<close>

text \<open>C38:
  Sending a report has two outcomes. It returns 0 after writing exactly the six report bytes
  (the four axes, then the button word low byte first) followed by the command that hands the
  bank to the controller; or it returns -1 without writing any data. Either way the report state
  is unchanged and the interrupt enable state is the one at the call.
\<close>

theorem send_report_or_nothing:
  assumes "usb_joystick_send s = Some (r, s')"
  shows "joystick_buttons s' = joystick_buttons s \<and> report s' = report s \<and> sreg_i s' = sreg_i s \<and>
    (\<exists>ws. writes s' = writes s @ ws \<and>
      (r = 0 \<and> data_writes ws = map (Pair UEDATX) (report s) @ [(UEINTX, 0x3A)] \<or>
       r = -1 \<and> data_writes ws = []))"
  using send_post_full [OF assms] by (auto simp: send_post_def same_report_def)

definition idle_usb :: "u8 \<Rightarrow> u8 list \<Rightarrow> usb" where
  "idle_usb conf rs = \<lparr>usb_configuration = conf, joystick_buttons = NO_BUTTON, joystick_axis_x = 0x80,
     joystick_axis_y = 0x80, joystick_axis_z = 0x80, joystick_axis_rz = 0x80,
     joystick_protocol = 1, sreg_i = True, reads = rs, writes = []\<rparr>"

theorem send_report_or_nothing_witness:
  "\<exists>s'. usb_joystick_send (idle_usb 1 [7, 0, 1, 8, 0x20]) = Some (0, s') \<and>
    data_writes (writes s') = map (Pair UEDATX) [0x80, 0x80, 0x80, 0x80, 8, 0] @ [(UEINTX, 0x3A)]"
proof -
  have b: "bit (0x20::u8) 5" "\<not> bit (0::u8) 5" by (simp_all add: bit_iff_odd)
  obtain s' where s': "usb_joystick_send (idle_usb 1 [7, 0, 1, 8, 0x20]) = Some (0, s')"
    using b by (simp add: usb_joystick_send_def idle_usb_def rd_def wr_def send_loop_unfold(2,7))
  from send_report_or_nothing [OF s'] show ?thesis
    by (intro exI [of _ s'] conjI s') (auto simp: idle_usb_def report_def)
qed

text \<open>Sending always returns: whatever the controller answers, once the frame counter has advanced by
  fifty frames since the call (fifty milliseconds), the loop has ended, because the timeout
  comparison cannot be stepped over and works across the wrap of the 8-bit counter.
\<close>

theorem send_times_out:
  assumes "usb_configuration s \<noteq> 0" and "reads s = f # rounds ps"
    and "paced f (map (snd \<circ> snd) ps)" and "50 \<le> elapsed f (map (snd \<circ> snd) ps)"
  shows "\<exists>r s'. usb_joystick_send s = Some (r, s')"
proof -
  have "f + of_nat 50 \<in> set (map (snd \<circ> snd) ps)"
    using frame_reached [OF assms(3) _ assms(4)] by simp
  then have "f + 50 \<in> (snd \<circ> snd) ` set ps" by simp
  then have "send_loop i (f + 50) t \<noteq> None" if "reads t = rounds ps" for i t
    using send_loop_stops [OF that] by blast
  then show ?thesis using assms(1,2)
    by (simp add: usb_joystick_send_def rd_def wr_def)
qed

theorem send_times_out_witness:
  "\<exists>r s'. usb_joystick_send (idle_usb 1 (250 # rounds (map (\<lambda>k. (0, 1, 251 + of_nat k)) [0..<50]))) =
    Some (r, s')"
proof (rule send_times_out)
  let ?fs = "map (snd \<circ> snd) (map (\<lambda>k. (0::u8, 1::u8, 251 + of_nat k :: u8)) [0..<50])"
  show "paced 250 ?fs" by code_simp
  show "50 \<le> elapsed 250 ?fs" by code_simp
qed (simp_all add: idle_usb_def)

end
