(* ===== verification/MouseEvents.thy ===== *)
theory MouseEvents
  imports KeyboardDriver MouseDriver UsbJoystick
begin

text \<open>
  The state of the whole firmware (the static variables of the two PS/2 drivers and of the USB
  joystick) and the event side of \<open>ps-2/MouseDriver.c\<close>: the filter that runs the start-up dialogue
  and assembles movement packets, the dispatcher that turns a packet into a report, and the task
  the main loop calls. A handler that sends a report or a byte waits for the hardware, so the
  handlers are option valued; \<open>None\<close> means that the samples given as input do not end the waiting.
\<close>

section \<open>The firmware state\<close>

record firmware =
  fw_kb :: keyboard
  fw_ms :: mouse
  fw_js :: usb

definition on_ms :: "(mouse \<Rightarrow> mouse) \<Rightarrow> firmware \<Rightarrow> firmware" where
  "on_ms f s = s\<lparr>fw_ms := f (fw_ms s)\<rparr>"

definition on_js :: "(usb \<Rightarrow> usb) \<Rightarrow> firmware \<Rightarrow> firmware" where
  "on_js f s = s\<lparr>fw_js := f (fw_js s)\<rparr>"

definition on_kb :: "(keyboard \<Rightarrow> keyboard) \<Rightarrow> firmware \<Rightarrow> firmware" where
  "on_kb f s = s\<lparr>fw_kb := f (fw_kb s)\<rparr>"

definition ms_try :: "(mouse \<Rightarrow> mouse option) \<Rightarrow> firmware \<Rightarrow> firmware option" where
  "ms_try f s = map_option (\<lambda>m. s\<lparr>fw_ms := m\<rparr>) (f (fw_ms s))"

definition kb_try :: "(keyboard \<Rightarrow> keyboard option) \<Rightarrow> firmware \<Rightarrow> firmware option" where
  "kb_try f s = map_option (\<lambda>k. s\<lparr>fw_kb := k\<rparr>) (f (fw_kb s))"

text \<open>The drivers call \<open>usb_joystick_send\<close> and ignore its result.\<close>

definition js_send :: "firmware \<Rightarrow> firmware option" where
  "js_send s = map_option (\<lambda>(r, j). s\<lparr>fw_js := j\<rparr>) (usb_joystick_send (fw_js s))"

lemmas on_defs [fw_defs] = on_ms_def on_js_def on_kb_def

section \<open>Dispatching a packet\<close>

text \<open>The three buttons are dispatched when they change; the wheel moves two more buttons.\<close>

definition dispatch_left :: "u8 \<Rightarrow> firmware \<Rightarrow> firmware" where
  "dispatch_left header s =
     (if bit header 0 \<noteq> dsp_left (fw_ms s) then
        (let s = on_ms (\<lambda>m. m\<lparr>dsp_left := bit header 0\<rparr>) s
         in if dsp_left (fw_ms s) then on_js (usb_joystick_press R1_BUTTON) s
            else on_js (usb_joystick_release R1_BUTTON) s)
      else s)"

definition dispatch_right :: "u8 \<Rightarrow> firmware \<Rightarrow> firmware" where
  "dispatch_right header s =
     (if bit header 1 \<noteq> dsp_right (fw_ms s) then
        (let s = on_ms (\<lambda>m. m\<lparr>dsp_right := bit header 1\<rparr>) s
         in if dsp_right (fw_ms s) then on_js (usb_joystick_press L1_BUTTON) s
            else on_js (usb_joystick_release L1_BUTTON) s)
      else s)"

definition dispatch_middle :: "u8 \<Rightarrow> firmware \<Rightarrow> firmware" where
  "dispatch_middle header s =
     (if bit header 2 \<noteq> dsp_middle (fw_ms s) then
        (let s = on_ms (\<lambda>m. m\<lparr>dsp_middle := bit header 2\<rparr>) s
         in if dsp_middle (fw_ms s) then on_js (usb_joystick_press RIGHT_HAT_BUTTON) s
            else on_js (usb_joystick_release RIGHT_HAT_BUTTON) s)
      else s)"

definition dispatch_wheel :: "u8 \<Rightarrow> firmware \<Rightarrow> firmware" where
  "dispatch_wheel pz s =
     (let zsign = pz > 128;
          z = (if zsign then NOT pz + 1 else pz)
      in if z > 0 then
           (if \<not> zsign then (if z \<ge> 1 then on_js (usb_joystick_press R2_BUTTON) s else s)
            else (if z \<ge> 1 then on_js (usb_joystick_press L2_BUTTON) s else s))
         else on_js (usb_joystick_release L2_BUTTON) (on_js (usb_joystick_release R2_BUTTON) s))"

definition EventDispatcher :: "firmware \<Rightarrow> firmware option" where
  "EventDispatcher s =
     (let p = pk_bytes (fw_ms s);
          mz = Val (VectorX p) 3;
          mrz = Val (VectorY p) 3;
          mrz = 0xFF - mrz;
          s = on_js (usb_joystick_move_zrz mz mrz) s;
          s = dispatch_left (p ! 0) s;
          s = dispatch_right (p ! 0) s;
          s = dispatch_middle (p ! 0) s;
          s = dispatch_wheel (p ! 3) s
      in js_send s)"

section \<open>The event filter\<close>

text \<open>The branch of the start-up dialogue, and the branch of the movement packets.\<close>

definition EventFilter :: "u8 \<Rightarrow> firmware \<Rightarrow> firmware option" where
  "EventFilter scancode s =
     (if flt_state (fw_ms s) < flt_size (fw_ms s) then
        (let target = flt_table (fw_ms s) ! unat (flt_state (fw_ms s)) in
         if scancode = target \<or> (target = 0xFA \<and> scancode = 0xF4) then do {
           let b = flt_table (fw_ms s) ! unat (flt_state (fw_ms s) + 1);
           s \<leftarrow> (if b = 0xD1 then ms_try (SendByte (cfg_resolution (fw_ms s))) s
                else if b = 0xD2 then
                  ms_try (SendByte (if cfg_scale (fw_ms s) = 1 then 0xE6 else 0xE7)) s
                else if b = 0xD3 then ms_try (SendByte (cfg_frequency (fw_ms s))) s
                else if b > 0 then ms_try (SendByte b) s
                else Some s);
           Some (on_ms (\<lambda>m. m\<lparr>flt_state := flt_state m + 2\<rparr>) s) }
         else
           (let r = flt_retry (fw_ms s);
                s = on_ms (\<lambda>m. m\<lparr>flt_retry := r + 1\<rparr>) s
            in if r < 5 then ms_try ResetState s
               else
                 (let s = on_kb KB_ErrorStateLed s
                  in Some (on_ms (\<lambda>m. m\<lparr>flt_state := 0xFF, flt_retry := 0\<rparr>) s))))
      else if pk_size (fw_ms s) = 0 \<and> scancode AND 0x08 = 0 then
        Some (on_ms (\<lambda>m. m\<lparr>pk_size := 0\<rparr>) s)
      else
        (let s = on_ms (\<lambda>m. m\<lparr>flt_retry := 0\<rparr>) s;
             s = on_ms (\<lambda>m. m\<lparr>pk_bytes := (pk_bytes m)[unat (pk_size m) := scancode],
                            pk_size := pk_size m + 1\<rparr>) s
         in if pk_size (fw_ms s) = 4 then do {
              s \<leftarrow> EventDispatcher s;
              Some (on_ms (\<lambda>m. m\<lparr>pk_size := 0\<rparr>) s) }
            else Some s))"

lemma js_send_frame:
  "js_send s = Some s' \<Longrightarrow> fw_ms s' = fw_ms s \<and> fw_kb s' = fw_kb s"
  by (auto simp: js_send_def)

lemma dispatch_button_ms:
  "fw_ms (dispatch_left h s) = (fw_ms s)\<lparr>dsp_left := bit h 0\<rparr>"
  "fw_ms (dispatch_right h s) = (fw_ms s)\<lparr>dsp_right := bit h 1\<rparr>"
  "fw_ms (dispatch_middle h s) = (fw_ms s)\<lparr>dsp_middle := bit h 2\<rparr>"
  "fw_ms (dispatch_wheel z s) = fw_ms s"
  by (simp_all add: dispatch_left_def dispatch_right_def dispatch_middle_def dispatch_wheel_def
      Let_def fw_defs)

lemma dispatch_button_kb:
  "fw_kb (dispatch_left h s) = fw_kb s" "fw_kb (dispatch_right h s) = fw_kb s"
  "fw_kb (dispatch_middle h s) = fw_kb s" "fw_kb (dispatch_wheel z s) = fw_kb s"
  by (simp_all add: dispatch_left_def dispatch_right_def dispatch_middle_def dispatch_wheel_def
      Let_def fw_defs)

lemma dispatcher_frame:
  assumes "EventDispatcher s = Some s'"
  shows "fw_kb s' = fw_kb s \<and> fw_ms s' = (fw_ms s)\<lparr>dsp_left := bit (pk_bytes (fw_ms s) ! 0) 0,
    dsp_right := bit (pk_bytes (fw_ms s) ! 0) 1, dsp_middle := bit (pk_bytes (fw_ms s) ! 0) 2\<rparr>"
  using js_send_frame [OF assms [unfolded EventDispatcher_def Let_def]]
  by (simp add: dispatch_button_ms dispatch_button_kb on_js_def del: bit_0)

lemma filter_frame:
  assumes "EventFilter b s = Some s'"
  shows "drv_ringbuffer (fw_ms s') = drv_ringbuffer (fw_ms s)"
    and "flt_size (fw_ms s') = flt_size (fw_ms s)" and "flt_table (fw_ms s') = flt_table (fw_ms s)"
    and "trg_timeout (fw_ms s') = trg_timeout (fw_ms s)"
    and "kb_ringbuffer (fw_kb s') = kb_ringbuffer (fw_kb s)" and "kb_bit_n (fw_kb s') = kb_bit_n (fw_kb s)"
    and "length (pk_bytes (fw_ms s')) = length (pk_bytes (fw_ms s))"
  using assms
  by (auto simp: EventFilter_def Let_def fw_defs ms_try_def SendByte_frame ResetState_def
      KB_ErrorStateLed_def dest!: dispatcher_frame split: if_splits bind_splits)

section \<open>The task\<close>

lemma get_scancode_smaller:
  assumes "HasScancode m"
  shows "unat (rb_elements (drv_ringbuffer (snd (GetScancode m)))) < unat (rb_elements (drv_ringbuffer m))"
proof -
  have g: "0 < rb_elements (drv_ringbuffer m)"
    using assms by (simp add: HasScancode_def RING_HasElement_def)
  then have "rb_elements (drv_ringbuffer (snd (GetScancode m))) = rb_elements (drv_ringbuffer m) - 1"
    by (simp add: GetScancode_def RING_GetElement_def Let_def)
  with unat_dec [OF g] g show ?thesis by (simp add: word_less_nat_alt)
qed

text \<open>\<open>while( HasScancode( ) ) EventFilter( GetScancode( ) );\<close>\<close>

function drain_scancodes :: "firmware \<Rightarrow> firmware option" where
  "drain_scancodes s =
     (if HasScancode (fw_ms s) then do {
        let (b, m) = GetScancode (fw_ms s);
        s \<leftarrow> EventFilter b (s\<lparr>fw_ms := m\<rparr>);
        drain_scancodes s }
      else Some s)"
  by pat_completeness auto
termination
proof (relation "measure (\<lambda>s. unat (rb_elements (drv_ringbuffer (fw_ms s))))", goal_cases)
  case 1
  show ?case by simp
next
  case (2 s bm b m s')
  then have "m = snd (GetScancode (fw_ms s))" by (metis snd_conv)
  with filter_frame(1) [OF 2(4)] get_scancode_smaller [OF 2(1)] show ?case by simp
qed

declare drain_scancodes.simps [simp del]

text \<open>The idle action: centre the right stick, release the direction and the wheel buttons.\<close>

definition idle_action :: "firmware \<Rightarrow> firmware option" where
  "idle_action s =
     (if trg_action (fw_ms s) = 1 then
        (let s = on_ms (\<lambda>m. m\<lparr>ms_timer_irq := False\<rparr>) s;
             s = on_ms (\<lambda>m. m\<lparr>trg_action := 0\<rparr>) s;
             s = on_ms (\<lambda>m. m\<lparr>ms_timer_irq := True\<rparr>) s;
             s = on_js (usb_joystick_move_zrz 128 128) s;
             s = on_js (usb_joystick_press_dir NO_BUTTON) s;
             s = on_js (usb_joystick_release R2_BUTTON) s;
             s = on_js (usb_joystick_release L2_BUTTON) s
         in js_send s)
      else Some s)"

definition MS_EventTask :: "firmware \<Rightarrow> firmware option" where
  "MS_EventTask s = do {
     s \<leftarrow> drain_scancodes s;
     idle_action s }"

section \<open>The report of a packet\<close>

text \<open>The mouse buttons of the report agree with the last dispatched packet.\<close>

definition buttons_agree :: "firmware \<Rightarrow> bool" where
  "buttons_agree s \<longleftrightarrow> bit (joystick_buttons (fw_js s)) 9 = dsp_left (fw_ms s) \<and>
     bit (joystick_buttons (fw_js s)) 8 = dsp_right (fw_ms s)"

lemma button_bits:
  "bit (0x200::u16) n \<longleftrightarrow> n = 9" "bit (0x100::u16) n \<longleftrightarrow> n = 8" "bit (0x8000::u16) n \<longleftrightarrow> n = 15"
  "bit (0x800::u16) n \<longleftrightarrow> n = 11" "bit (0x400::u16) n \<longleftrightarrow> n = 10"
proof -
  have p: "(0x200::u16) = push_bit 9 1" "(0x100::u16) = push_bit 8 1" "(0x8000::u16) = push_bit 15 1"
    "(0x800::u16) = push_bit 11 1" "(0x400::u16) = push_bit 10 1"
    by (simp_all add: push_bit_of_1)
  have "bit (push_bit k 1 :: u16) n \<longleftrightarrow> n = k" if "k < 16" for k
    using that by (auto simp: bit_simps)
  then show "bit (0x200::u16) n \<longleftrightarrow> n = 9" "bit (0x100::u16) n \<longleftrightarrow> n = 8" "bit (0x8000::u16) n \<longleftrightarrow> n = 15"
    "bit (0x800::u16) n \<longleftrightarrow> n = 11" "bit (0x400::u16) n \<longleftrightarrow> n = 10"
    unfolding p by simp_all
qed

lemma press_bit:
  "bit (joystick_buttons (usb_joystick_press b j)) n \<longleftrightarrow> bit (joystick_buttons j) n \<or> bit b n"
  "bit (joystick_buttons (usb_joystick_release b j)) n \<longleftrightarrow> bit (joystick_buttons j) n \<and> \<not> bit b n"
  "joystick_buttons (usb_joystick_move_zrz x y j) = joystick_buttons j"
  by (auto simp: usb_joystick_press_def usb_joystick_release_def usb_joystick_move_zrz_def bit_simps
      dest: bit_imp_le_length)

lemma wheel_sign:
  "(0::u8) < (if 128 < z then NOT z + 1 else z) \<longleftrightarrow> z \<noteq> 0"
  "(1::u8) \<le> w \<longleftrightarrow> 0 < w"
proof -
  have "NOT z + 1 = 0 \<longleftrightarrow> z = 0" by (metis add.inverse_neutral minus_eq_not_plus_1 neg_equal_0_iff_equal)
  then show "(0::u8) < (if 128 < z then NOT z + 1 else z) \<longleftrightarrow> z \<noteq> 0" by (simp add: word_gt_0)
  show "(1::u8) \<le> w \<longleftrightarrow> 0 < w"
    using unat_eq_0 [of w] by (auto simp: word_le_nat_alt word_less_nat_alt Suc_le_eq)
qed

lemma dispatch_button_js:
  "bit (joystick_buttons (fw_js (dispatch_left h s))) n \<longleftrightarrow>
     (if n = 9 \<and> bit h 0 \<noteq> dsp_left (fw_ms s) then bit h 0 else bit (joystick_buttons (fw_js s)) n)"
  "bit (joystick_buttons (fw_js (dispatch_right h s))) n \<longleftrightarrow>
     (if n = 8 \<and> bit h 1 \<noteq> dsp_right (fw_ms s) then bit h 1 else bit (joystick_buttons (fw_js s)) n)"
  "bit (joystick_buttons (fw_js (dispatch_middle h s))) n \<longleftrightarrow>
     (if n = 15 \<and> bit h 2 \<noteq> dsp_middle (fw_ms s) then bit h 2 else bit (joystick_buttons (fw_js s)) n)"
  "bit (joystick_buttons (fw_js (dispatch_wheel z s))) n \<longleftrightarrow>
     (if z = 0 \<and> (n = 10 \<or> n = 11) then False
      else if z \<noteq> 0 \<and> n = (if z \<le> 128 then 11 else 10) then True
      else bit (joystick_buttons (fw_js s)) n)"
proof -
  show "bit (joystick_buttons (fw_js (dispatch_wheel z s))) n \<longleftrightarrow>
     (if z = 0 \<and> (n = 10 \<or> n = 11) then False
      else if z \<noteq> 0 \<and> n = (if z \<le> 128 then 11 else 10) then True
      else bit (joystick_buttons (fw_js s)) n)"
    unfolding dispatch_wheel_def Let_def wheel_sign
    by (auto simp: fw_defs press_bit button_bits word_gt_0 simp del: bit_numeral_word_iff)
qed (auto simp: dispatch_left_def dispatch_right_def dispatch_middle_def Let_def fw_defs
      press_bit button_bits simp del: bit_0 bit_numeral_word_iff)

lemma js_send_report:
  assumes "js_send s = Some s'"
  shows "report (fw_js s') = report (fw_js s)" "joystick_buttons (fw_js s') = joystick_buttons (fw_js s)"
  using send_post_full assms by (fastforce simp: js_send_def send_post_def same_report_def)+

text \<open>The report \<open>EventDispatcher\<close> leaves, button by button.\<close>

lemma dispatcher_buttons:
  assumes "EventDispatcher s = Some s'" and "p = pk_bytes (fw_ms s)"
  shows "bit (joystick_buttons (fw_js s')) n \<longleftrightarrow>
    (if n = 9 \<and> bit (p ! 0) 0 \<noteq> dsp_left (fw_ms s) then bit (p ! 0) 0
     else if n = 8 \<and> bit (p ! 0) 1 \<noteq> dsp_right (fw_ms s) then bit (p ! 0) 1
     else if n = 15 \<and> bit (p ! 0) 2 \<noteq> dsp_middle (fw_ms s) then bit (p ! 0) 2
     else if p ! 3 = 0 \<and> (n = 10 \<or> n = 11) then False
     else if p ! 3 \<noteq> 0 \<and> n = (if p ! 3 \<le> 128 then 11 else 10) then True
     else bit (joystick_buttons (fw_js s)) n)"
proof -
  have "EventDispatcher s = js_send (dispatch_wheel (p ! 3) (dispatch_middle (p ! 0)
      (dispatch_right (p ! 0) (dispatch_left (p ! 0)
        (on_js (usb_joystick_move_zrz (Val (VectorX p) 3) (0xFF - Val (VectorY p) 3)) s)))))"
    by (simp only: EventDispatcher_def Let_def assms(2))
  with assms(1) have "joystick_buttons (fw_js s') = joystick_buttons (fw_js (dispatch_wheel (p ! 3)
      (dispatch_middle (p ! 0) (dispatch_right (p ! 0) (dispatch_left (p ! 0)
        (on_js (usb_joystick_move_zrz (Val (VectorX p) 3) (0xFF - Val (VectorY p) 3)) s))))))"
    by (intro js_send_report(2)) simp
  then show ?thesis
    by (simp add: dispatch_button_js dispatch_button_ms on_js_def press_bit(3) del: bit_0)
qed

lemma dispatch_axes:
  "joystick_axis_z (fw_js (dispatch_left h s)) = joystick_axis_z (fw_js s)"
  "joystick_axis_z (fw_js (dispatch_right h s)) = joystick_axis_z (fw_js s)"
  "joystick_axis_z (fw_js (dispatch_middle h s)) = joystick_axis_z (fw_js s)"
  "joystick_axis_z (fw_js (dispatch_wheel w s)) = joystick_axis_z (fw_js s)"
  "joystick_axis_rz (fw_js (dispatch_left h s)) = joystick_axis_rz (fw_js s)"
  "joystick_axis_rz (fw_js (dispatch_right h s)) = joystick_axis_rz (fw_js s)"
  "joystick_axis_rz (fw_js (dispatch_middle h s)) = joystick_axis_rz (fw_js s)"
  "joystick_axis_rz (fw_js (dispatch_wheel w s)) = joystick_axis_rz (fw_js s)"
  by (simp_all add: dispatch_left_def dispatch_right_def dispatch_middle_def dispatch_wheel_def
      Let_def fw_defs usb_joystick_press_def usb_joystick_release_def)

lemma dispatcher_axes:
  assumes "EventDispatcher s = Some s'"
  shows "joystick_axis_z (fw_js s') = Val (VectorX (pk_bytes (fw_ms s))) 3"
    and "joystick_axis_rz (fw_js s') = 0xFF - Val (VectorY (pk_bytes (fw_ms s))) 3"
  using js_send_report(1) [OF assms [unfolded EventDispatcher_def Let_def]]
  by (simp_all add: report_def dispatch_axes on_js_def usb_joystick_move_zrz_def)

text \<open>Whether the dispatcher returns depends on the USB controller only.\<close>

lemma dispatch_usb_frame:
  "usb_configuration (fw_js (dispatch_left h s)) = usb_configuration (fw_js s)"
  "usb_configuration (fw_js (dispatch_right h s)) = usb_configuration (fw_js s)"
  "usb_configuration (fw_js (dispatch_middle h s)) = usb_configuration (fw_js s)"
  "usb_configuration (fw_js (dispatch_wheel w s)) = usb_configuration (fw_js s)"
  "reads (fw_js (dispatch_left h s)) = reads (fw_js s)"
  "reads (fw_js (dispatch_right h s)) = reads (fw_js s)"
  "reads (fw_js (dispatch_middle h s)) = reads (fw_js s)"
  "reads (fw_js (dispatch_wheel w s)) = reads (fw_js s)"
  by (simp_all add: dispatch_left_def dispatch_right_def dispatch_middle_def dispatch_wheel_def
      Let_def fw_defs usb_joystick_press_def usb_joystick_release_def)

lemma dispatcher_sends:
  "\<exists>t. EventDispatcher s = js_send t \<and> usb_configuration (fw_js t) = usb_configuration (fw_js s) \<and>
    reads (fw_js t) = reads (fw_js s)"
  unfolding EventDispatcher_def Let_def
  by (rule exI, rule conjI [OF refl])
    (simp add: dispatch_usb_frame on_js_def usb_joystick_move_zrz_def)

text \<open>A sequence of received bytes given to the filter.\<close>

fun filter_run :: "u8 list \<Rightarrow> firmware \<Rightarrow> firmware option" where
  "filter_run [] s = Some s"
| "filter_run (b # bs) s = do { s \<leftarrow> EventFilter b s; filter_run bs s }"

definition in_dialogue :: "firmware \<Rightarrow> bool" where
  "in_dialogue s \<longleftrightarrow> flt_state (fw_ms s) < flt_size (fw_ms s)"

lemma header_bit: "(h::u8) AND 8 = 0 \<longleftrightarrow> \<not> bit h 3"
  using bit_and_mask [of 3 h] by (simp add: push_bit_of_1)

lemma filter_collect:
  assumes "\<not> in_dialogue s" and "pk_size (fw_ms s) \<noteq> 0 \<or> bit b 3" and "pk_size (fw_ms s) \<noteq> 3"
  shows "EventFilter b s = Some (on_ms (\<lambda>m. m\<lparr>flt_retry := 0,
    pk_bytes := (pk_bytes m)[unat (pk_size m) := b], pk_size := pk_size m + 1\<rparr>) s)"
proof -
  have "pk_size (fw_ms s) + 1 \<noteq> 4" using assms(3) by (metis add_right_cancel one_plus_numeral
      add.commute semiring_norm(5) semiring_norm(2) numeral_3_eq_3 eval_nat_numeral(3) one_add_one
      numeral_plus_one semiring_norm(4))
  then show ?thesis
    using assms by (auto simp: EventFilter_def in_dialogue_def header_bit Let_def fw_defs)
qed

lemma filter_complete:
  assumes "\<not> in_dialogue s" and "pk_size (fw_ms s) = 3"
  shows "EventFilter b s = map_option (on_ms (\<lambda>m. m\<lparr>pk_size := 0\<rparr>))
    (EventDispatcher (on_ms (\<lambda>m. m\<lparr>flt_retry := 0, pk_bytes := (pk_bytes m)[3 := b], pk_size := 4\<rparr>) s))"
  using assms by (auto simp: EventFilter_def in_dialogue_def Let_def fw_defs split: bind_splits)

lemma packet_run:
  assumes "\<not> in_dialogue s" and "pk_size (fw_ms s) = 0" and "bit h 3" and "length (pk_bytes (fw_ms s)) = 4"
  shows "filter_run [h, x, y, z] s = map_option (on_ms (\<lambda>m. m\<lparr>pk_size := 0\<rparr>))
    (EventDispatcher (on_ms (\<lambda>m. m\<lparr>flt_retry := 0, pk_bytes := [h, x, y, z], pk_size := 4\<rparr>) s))"
proof -
  obtain p0 p1 p2 p3 where p: "pk_bytes (fw_ms s) = [p0, p1, p2, p3]"
    using assms(4) by (auto simp: numeral_eq_Suc length_Suc_conv)
  define s1 where "s1 = on_ms (\<lambda>m. m\<lparr>flt_retry := 0, pk_bytes := [h, p1, p2, p3], pk_size := 1\<rparr>) s"
  define s2 where "s2 = on_ms (\<lambda>m. m\<lparr>flt_retry := 0, pk_bytes := [h, x, p2, p3], pk_size := 2\<rparr>) s"
  define s3 where "s3 = on_ms (\<lambda>m. m\<lparr>flt_retry := 0, pk_bytes := [h, x, y, p3], pk_size := 3\<rparr>) s"
  have "EventFilter h s = Some s1"
    using filter_collect [of s h] assms p by (simp add: s1_def on_ms_def)
  moreover have "EventFilter x s1 = Some s2"
    using filter_collect [of s1 x] assms(1) by (simp add: s1_def s2_def on_ms_def in_dialogue_def)
  moreover have "EventFilter y s2 = Some s3"
    using filter_collect [of s2 y] assms(1) by (simp add: s2_def s3_def on_ms_def in_dialogue_def)
  moreover have "EventFilter z s3 = map_option (on_ms (\<lambda>m. m\<lparr>pk_size := 0\<rparr>))
      (EventDispatcher (on_ms (\<lambda>m. m\<lparr>flt_retry := 0, pk_bytes := [h, x, y, z], pk_size := 4\<rparr>) s))"
    using filter_complete [of s3 z] assms(1) by (simp add: s3_def on_ms_def in_dialogue_def)
  moreover have "Option.bind (map_option f r) filter_run_nil = map_option f r"
    if "filter_run_nil = filter_run []" for f :: "firmware \<Rightarrow> firmware" and r filter_run_nil
    using that by (cases r) simp_all
  ultimately show ?thesis by simp
qed

text \<open>Of the report, only the right stick and the buttons move; the writes so far are unchanged.\<close>

lemma dispatch_left_stick:
  "joystick_axis_x (fw_js (dispatch_left h s)) = joystick_axis_x (fw_js s)"
  "joystick_axis_x (fw_js (dispatch_right h s)) = joystick_axis_x (fw_js s)"
  "joystick_axis_x (fw_js (dispatch_middle h s)) = joystick_axis_x (fw_js s)"
  "joystick_axis_x (fw_js (dispatch_wheel w s)) = joystick_axis_x (fw_js s)"
  "joystick_axis_y (fw_js (dispatch_left h s)) = joystick_axis_y (fw_js s)"
  "joystick_axis_y (fw_js (dispatch_right h s)) = joystick_axis_y (fw_js s)"
  "joystick_axis_y (fw_js (dispatch_middle h s)) = joystick_axis_y (fw_js s)"
  "joystick_axis_y (fw_js (dispatch_wheel w s)) = joystick_axis_y (fw_js s)"
  "writes (fw_js (dispatch_left h s)) = writes (fw_js s)"
  "writes (fw_js (dispatch_right h s)) = writes (fw_js s)"
  "writes (fw_js (dispatch_middle h s)) = writes (fw_js s)"
  "writes (fw_js (dispatch_wheel w s)) = writes (fw_js s)"
  by (simp_all add: dispatch_left_def dispatch_right_def dispatch_middle_def dispatch_wheel_def
      Let_def fw_defs usb_joystick_press_def usb_joystick_release_def)

lemma dispatcher_sent:
  assumes "usb_configuration (fw_js s) \<noteq> 0" and "reads (fw_js s) = f # rounds ps @ v # rs"
    and "waiting_rounds (f + 50) ps" and "bit v RWAL"
  shows "\<exists>s'. EventDispatcher s = Some s' \<and> reads (fw_js s') = rs \<and>
    joystick_axis_x (fw_js s') = joystick_axis_x (fw_js s) \<and>
    joystick_axis_y (fw_js s') = joystick_axis_y (fw_js s) \<and>
    data_writes (writes (fw_js s')) = data_writes (writes (fw_js s)) @
      map (Pair UEDATX) (report (fw_js s')) @ [(UEINTX, 0x3A)]"
proof -
  have "\<exists>t. EventDispatcher s = js_send t \<and> usb_configuration (fw_js t) = usb_configuration (fw_js s) \<and>
      reads (fw_js t) = reads (fw_js s) \<and> joystick_axis_x (fw_js t) = joystick_axis_x (fw_js s) \<and>
      joystick_axis_y (fw_js t) = joystick_axis_y (fw_js s) \<and> writes (fw_js t) = writes (fw_js s)"
    unfolding EventDispatcher_def Let_def
    by (rule exI, rule conjI [OF refl])
      (simp add: dispatch_usb_frame dispatch_left_stick on_js_def usb_joystick_move_zrz_def)
  then obtain t where t: "EventDispatcher s = js_send t" and
    same: "usb_configuration (fw_js t) = usb_configuration (fw_js s)"
    "reads (fw_js t) = reads (fw_js s)" "joystick_axis_x (fw_js t) = joystick_axis_x (fw_js s)"
    "joystick_axis_y (fw_js t) = joystick_axis_y (fw_js s)" "writes (fw_js t) = writes (fw_js s)"
    by blast
  obtain j where "usb_joystick_send (fw_js t) = Some (0, j)" "reads j = rs" "report j = report (fw_js t)"
    "data_writes (writes j) = data_writes (writes (fw_js s)) @ map (Pair UEDATX) (report (fw_js t)) @ [(UEINTX, 0x3A)]"
    using send_ready [of "fw_js t" f ps v rs] assms same by auto
  then show ?thesis using t same by (simp add: js_send_def report_def)
qed

text \<open>C21:
  One movement packet becomes one report. Outside the start-up dialogue, with the device configured
  and its endpoint getting ready in time (after any number of polls of the sending loop), the four
  bytes of a packet (header with bit 3 set, no overflow) make the filter return and hand exactly
  one report to the USB controller, the six bytes of the new report state followed by the bank's
  release. In it the right stick is at the reference position of the movement (its vertical axis
  mirrored) and the left stick is where it was; each mouse button whose bit in the header differs from the
  packet before moves its joystick button (left R1, right L1, middle the right hat button), a
  wheel movement presses R2 (up to 128) or L2 (above) and no wheel movement releases both; no other
  button changes. The packet buffer is empty again and the header's buttons are remembered.
\<close>

theorem packet_report:
  assumes "\<not> in_dialogue s" and "pk_size (fw_ms s) = 0" and "length (pk_bytes (fw_ms s)) = 4"
    and "bit h 3" and "\<not> bit h 6" and "\<not> bit h 7"
    and "decode_move (bit h 4) x \<noteq> -256" and "decode_move (bit h 5) y \<noteq> -256"
    and "usb_configuration (fw_js s) \<noteq> 0" and "reads (fw_js s) = f # rounds ps @ v # rs"
    and "waiting_rounds (f + 50) ps" and "bit v RWAL"
  shows "\<exists>s'. filter_run [h, x, y, z] s = Some s' \<and> reads (fw_js s') = rs \<and>
    (\<exists>zx zy bs. data_writes (writes (fw_js s')) = data_writes (writes (fw_js s)) @
        map (Pair UEDATX) [joystick_axis_x (fw_js s), joystick_axis_y (fw_js s), zx, zy,
          ucast bs, ucast (drop_bit 8 bs)] @ [(UEINTX, 0x3A)] \<and>
      uint zx = stick (decode_move (bit h 4) x) \<and> uint zy = 255 - stick (decode_move (bit h 5) y) \<and>
      bs = joystick_buttons (fw_js s') \<and> zx = joystick_axis_z (fw_js s') \<and> zy = joystick_axis_rz (fw_js s') \<and>
      (\<forall>n. bit bs n \<longleftrightarrow>
        (if n = 9 \<and> bit h 0 \<noteq> dsp_left (fw_ms s) then bit h 0
         else if n = 8 \<and> bit h 1 \<noteq> dsp_right (fw_ms s) then bit h 1
         else if n = 15 \<and> bit h 2 \<noteq> dsp_middle (fw_ms s) then bit h 2
         else if z = 0 \<and> (n = 10 \<or> n = 11) then False
         else if z \<noteq> 0 \<and> n = (if z \<le> 128 then 11 else 10) then True
         else bit (joystick_buttons (fw_js s)) n))) \<and>
    pk_size (fw_ms s') = 0 \<and> dsp_left (fw_ms s') = bit h 0 \<and> dsp_right (fw_ms s') = bit h 1 \<and>
    dsp_middle (fw_ms s') = bit h 2"
proof -
  let ?p = "[h, x, y, z]"
  let ?t = "on_ms (\<lambda>m. m\<lparr>flt_retry := 0, pk_bytes := ?p, pk_size := 4\<rparr>) s"
  have pk: "pk_bytes (fw_ms ?t) = ?p" "fw_js ?t = fw_js s" "dsp_left (fw_ms ?t) = dsp_left (fw_ms s)"
    "dsp_right (fw_ms ?t) = dsp_right (fw_ms s)" "dsp_middle (fw_ms ?t) = dsp_middle (fw_ms s)"
    by (simp_all add: on_ms_def)
  obtain u where u: "EventDispatcher ?t = Some u" and r: "reads (fw_js u) = rs"
    "joystick_axis_x (fw_js u) = joystick_axis_x (fw_js s)" "joystick_axis_y (fw_js u) = joystick_axis_y (fw_js s)"
    "data_writes (writes (fw_js u)) = data_writes (writes (fw_js s)) @
      map (Pair UEDATX) (report (fw_js u)) @ [(UEINTX, 0x3A)]"
    using dispatcher_sent [of ?t f ps v rs] assms(9-12) pk(2) by auto
  let ?s' = "on_ms (\<lambda>m. m\<lparr>pk_size := 0\<rparr>) u"
  have run: "filter_run [h, x, y, z] s = Some ?s'"
    using packet_run [OF assms(1,2,4,3), of x y z] u by simp
  note b = dispatcher_buttons [OF u refl, unfolded pk]
  note ax = dispatcher_axes [OF u, unfolded pk]
  have vx: "uint (Val (VectorX ?p) 3) = stick (decode_move (bit h 4) x)"
    and vy: "uint (Val (VectorY ?p) 3) = stick (decode_move (bit h 5) y)"
    using Val_stick [of "\<lparr>v_sign = bit h 4, v_overflow = bit h 6, v_label = 88 - 64, v_data = x\<rparr>", OF _ refl]
      Val_stick [of "\<lparr>v_sign = bit h 5, v_overflow = bit h 7, v_label = 89 - 64, v_data = y\<rparr>", OF _ refl]
      assms(5-8)
    by (simp_all add: VectorX_def VectorY_def)
  have "uint (0xFF - Val (VectorY ?p) 3) = 255 - uint (Val (VectorY ?p) 3)"
    using uint_bounded [of "Val (VectorY ?p) 3"] by (subst uint_sub_if') (simp add: word_le_def)
  with ax vx vy have "uint (joystick_axis_z (fw_js u)) = stick (decode_move (bit h 4) x)"
    "uint (joystick_axis_rz (fw_js u)) = 255 - stick (decode_move (bit h 5) y)" by simp_all
  moreover have "dsp_left (fw_ms u) = bit h 0" "dsp_right (fw_ms u) = bit h 1" "dsp_middle (fw_ms u) = bit h 2"
    using dispatcher_frame [OF u] by (simp_all add: on_ms_def del: bit_0)
  moreover have "fw_js ?s' = fw_js u" "pk_size (fw_ms ?s') = 0" "dsp_left (fw_ms ?s') = dsp_left (fw_ms u)"
    "dsp_right (fw_ms ?s') = dsp_right (fw_ms u)" "dsp_middle (fw_ms ?s') = dsp_middle (fw_ms u)"
    by (simp_all add: on_ms_def)
  ultimately show ?thesis using r b
    by (intro exI [of _ ?s'] conjI run exI [of _ "joystick_axis_z (fw_js u)"]
        exI [of _ "joystick_axis_rz (fw_js u)"] exI [of _ "joystick_buttons (fw_js u)"])
      (simp_all add: report_def)
qed

definition fw_power_on :: firmware where
  "fw_power_on = \<lparr>fw_kb = kb_power_on, fw_ms = ms_power_on, fw_js = idle_usb 0 []\<rparr>"

theorem packet_report_witness:
  "\<exists>s'. filter_run [0x2D, 10, 0xF6, 255] (fw_power_on\<lparr>fw_js := idle_usb 1 [7, 0, 1, 8, 0x20, 3]\<rparr>) = Some s' \<and>
    data_writes (writes (fw_js s')) = map (Pair UEDATX) [0x80, 0x80, 183, 182,
      ucast (joystick_buttons (fw_js s')), ucast (drop_bit 8 (joystick_buttons (fw_js s')))] @ [(UEINTX, 0x3A)] \<and>
    bit (joystick_buttons (fw_js s')) 9 \<and> bit (joystick_buttons (fw_js s')) 15 \<and> bit (joystick_buttons (fw_js s')) 10"
proof -
  let ?s = "fw_power_on\<lparr>fw_js := idle_usb 1 [7, 0, 1, 8, 0x20, 3]\<rparr>"
  have b: "bit (0x2D::u8) 3" "\<not> bit (0x2D::u8) 6" "\<not> bit (0x2D::u8) 7" "\<not> bit (0x2D::u8) 4"
    "bit (0x2D::u8) 5" "bit (0x2D::u8) 0" "\<not> bit (0x2D::u8) 1" "bit (0x2D::u8) 2"
    "bit (0x20::u8) 5" "\<not> bit (0::u8) 5"
    by (simp_all add: bit_iff_odd drop_bit_eq_div)
  have s: "\<not> in_dialogue ?s" "pk_size (fw_ms ?s) = 0" "length (pk_bytes (fw_ms ?s)) = 4"
    "usb_configuration (fw_js ?s) \<noteq> 0" "reads (fw_js ?s) = 7 # rounds [(0, 1, 8)] @ 0x20 # [3]"
    "waiting_rounds (7 + 50) [(0, 1, 8)]"
    by (simp_all add: fw_power_on_def ms_power_on_def in_dialogue_def idle_usb_def rounds_def waiting_rounds_def b)
  have d: "\<not> dsp_left (fw_ms ?s)" "\<not> dsp_middle (fw_ms ?s)" "writes (fw_js ?s) = []"
    "joystick_axis_x (fw_js ?s) = 0x80" "joystick_axis_y (fw_js ?s) = 0x80"
    by (simp_all add: fw_power_on_def ms_power_on_def idle_usb_def)
  have w: "v = (w::u8)" if "uint v = uint w" for v w using that by (simp add: word_uint_eq_iff)
  have "decode_move (bit (0x2D::u8) 4) 10 \<noteq> -256" "decode_move (bit (0x2D::u8) 5) 0xF6 \<noteq> -256"
    by (simp_all add: decode_move_def b)
  from packet_report [OF s(1-3) b(1-3) this s(4-6) b(9), of 255] obtain s' zx zy bs where
    run: "filter_run [0x2D, 10, 0xF6, 255] ?s = Some s'" and
    wr: "data_writes (writes (fw_js s')) = map (Pair UEDATX) [0x80, 0x80, zx, zy,
      ucast bs, ucast (drop_bit 8 bs)] @ [(UEINTX, 0x3A)]" and
    z: "uint zx = stick (decode_move False 10)" "uint zy = 255 - stick (decode_move True 0xF6)" and
    bs: "bs = joystick_buttons (fw_js s')" and bits: "bit bs 9" "bit bs 15" "bit bs 10"
    using d b by (auto simp: data_writes_def simp del: bit_0)
  have "zx = 183" "zy = 182" using z by (auto intro!: w simp: decode_move_def stick_def sgn_if)
  with run wr bs bits show ?thesis by (intro exI [of _ s'] conjI) simp_all
qed

end
