(* ===== verification/MouseStartup.thy ===== *)
theory MouseStartup
  imports MouseEvents
begin

text \<open>
  The start-up dialogue of \<open>ps-2/MouseDriver.c\<close> in the loop with a mouse. The device is modelled
  from the protocol description in the comments of \<open>MouseDriver.c\<close> (reset, identification, sample
  rate, resolution, scaling, enabling of reports; the wheel is enabled by setting the sample rates
  200, 100, 80). The event filter is first refined by a pure automaton, with which the whole
  dialogue is then evaluated.
\<close>

section \<open>The start-up dialogue\<close>

text \<open>
  The filter in the dialogue as a pure automaton: from a state of the table, the retry counter and
  a received byte, it computes the bytes to send, the next state and the next retry count.
\<close>

definition dialogue_step :: "u8 \<times> u8 \<times> u8 \<Rightarrow> u8 \<times> u8 \<Rightarrow> u8 \<Rightarrow> u8 list \<times> u8 \<times> u8" where
  "dialogue_step = (\<lambda>(res, freq, scale) (st, retry) b.
     (let target = ms_state_table ! unat st; t = ms_state_table ! unat (st + 1)
      in if b = target \<or> target = 0xFA \<and> b = 0xF4 then
           (if t = 0xD1 then [res] else if t = 0xD2 then [if scale = 1 then 0xE6 else 0xE7]
            else if t = 0xD3 then [freq] else if t > 0 then [t] else [], st + 2, retry)
         else if retry < 5 then ([0xFF], 0, retry + 1)
         else ([], 0xFF, 0)))"

definition ms_config :: "mouse \<Rightarrow> u8 \<times> u8 \<times> u8" where
  "ms_config m = (cfg_resolution m, cfg_frequency m, cfg_scale m)"

definition in_startup :: "firmware \<Rightarrow> bool" where
  "in_startup s \<longleftrightarrow> flt_size (fw_ms s) = 52 \<and> flt_table (fw_ms s) = ms_state_table"

text \<open>What a step of the dialogue does not touch.\<close>

definition dialogue_frame :: "firmware \<Rightarrow> firmware \<Rightarrow> bool" where
  "dialogue_frame s t \<longleftrightarrow> in_startup t \<and> ms_config (fw_ms t) = ms_config (fw_ms s) \<and>
     pk_size (fw_ms t) = pk_size (fw_ms s) \<and> pk_bytes (fw_ms t) = pk_bytes (fw_ms s) \<and>
     fw_js t = fw_js s \<and>
     fw_kb t = (if flt_state (fw_ms t) = 0xFF then KB_ErrorStateLed (fw_kb s) else fw_kb s)"

lemma SendByte_clocking:
  assumes "clocking 6 0 (24 + n) (pins (ms_line m))"
  shows "\<exists>m'. SendByte d m = Some m' \<and> clocking 6 0 n (pins (ms_line m')) \<and>
    ops (ms_line m') = ops (ms_line m) @ frame_ops d"
  using send_clocking [OF assms, of d] by (auto simp: SendByte_def)

text \<open>The filter on a byte of the dialogue, through the automaton.\<close>

lemma filter_match:
  assumes "in_startup s" and "flt_state (fw_ms s) < 52"
    and "dialogue_step (ms_config (fw_ms s)) (flt_state (fw_ms s), flt_retry (fw_ms s)) b = (ds, st, r)"
    and "b = ms_state_table ! unat (flt_state (fw_ms s)) \<or>
      ms_state_table ! unat (flt_state (fw_ms s)) = 0xFA \<and> b = 0xF4"
  shows "EventFilter b s = map_option (on_ms (\<lambda>m. m\<lparr>flt_state := flt_state m + 2\<rparr>))
      (case ds of [] \<Rightarrow> Some s | d # _ \<Rightarrow> ms_try (SendByte d) s) \<and>
    length ds \<le> 1 \<and> st = flt_state (fw_ms s) + 2 \<and> r = flt_retry (fw_ms s)"
proof -
  have f: "EventFilter b s = map_option (on_ms (\<lambda>m. m\<lparr>flt_state := flt_state m + 2\<rparr>))
     (let t = ms_state_table ! unat (flt_state (fw_ms s) + 1) in
      if t = 0xD1 then ms_try (SendByte (cfg_resolution (fw_ms s))) s
      else if t = 0xD2 then ms_try (SendByte (if cfg_scale (fw_ms s) = 1 then 0xE6 else 0xE7)) s
      else if t = 0xD3 then ms_try (SendByte (cfg_frequency (fw_ms s))) s
      else if t > 0 then ms_try (SendByte t) s else Some s)"
    using assms(1,2,4) unfolding EventFilter_def in_startup_def Let_def
    by (simp split: bind_splits)
  show ?thesis
    using assms(3,4) unfolding f dialogue_step_def Let_def ms_config_def
    by (auto split: if_splits)
qed

lemma filter_mismatch:
  assumes "in_startup s" and "flt_state (fw_ms s) < 52"
    and "dialogue_step (ms_config (fw_ms s)) (flt_state (fw_ms s), flt_retry (fw_ms s)) b = (ds, st, r)"
    and "\<not> (b = ms_state_table ! unat (flt_state (fw_ms s)) \<or>
      ms_state_table ! unat (flt_state (fw_ms s)) = 0xFA \<and> b = 0xF4)"
  shows "if flt_retry (fw_ms s) < 5
    then EventFilter b s = ms_try ResetState (on_ms (\<lambda>m. m\<lparr>flt_retry := flt_retry m + 1\<rparr>) s) \<and>
      ds = [0xFF] \<and> st = 0 \<and> r = flt_retry (fw_ms s) + 1
    else EventFilter b s = Some (on_ms (\<lambda>m. m\<lparr>flt_state := 0xFF, flt_retry := 0\<rparr>) (on_kb KB_ErrorStateLed s)) \<and>
      ds = [] \<and> st = 0xFF \<and> r = 0"
proof -
  have c: "(b = ms_state_table ! unat (flt_state (fw_ms s)) \<or>
      ms_state_table ! unat (flt_state (fw_ms s)) = 0xFA \<and> b = 0xF4) = False"
    using assms(4) by blast
  have t: "flt_size (fw_ms s) = 52" "flt_table (fw_ms s) = ms_state_table"
    using assms(1) by (simp_all add: in_startup_def)
  have l: "(flt_state (fw_ms s) < 52) = True" using assms(2) by simp
  have f: "EventFilter b s = (if flt_retry (fw_ms s) < 5
      then ms_try ResetState (on_ms (\<lambda>m. m\<lparr>flt_retry := flt_retry (fw_ms s) + 1\<rparr>) s)
      else Some (on_ms (\<lambda>m. m\<lparr>flt_state := 0xFF, flt_retry := 0\<rparr>)
        (on_kb KB_ErrorStateLed (on_ms (\<lambda>m. m\<lparr>flt_retry := flt_retry (fw_ms s) + 1\<rparr>) s))))"
    by (simp only: EventFilter_def t l c Let_def if_True if_False)
  have d: "dialogue_step (ms_config (fw_ms s)) (flt_state (fw_ms s), flt_retry (fw_ms s)) b =
      (if flt_retry (fw_ms s) < 5 then ([0xFF], 0, flt_retry (fw_ms s) + 1) else ([], 0xFF, 0))"
    by (simp only: dialogue_step_def ms_config_def prod.case c Let_def if_False)
  show ?thesis using assms(3) unfolding f d by (auto simp: fw_defs split: if_splits)
qed

lemma filter_dialogue:
  assumes "in_startup s" and "flt_state (fw_ms s) < 52"
    and "clocking 6 0 (24 + n) (pins (ms_line (fw_ms s)))"
    and "dialogue_step (ms_config (fw_ms s)) (flt_state (fw_ms s), flt_retry (fw_ms s)) b = (ds, st, r)"
  shows "\<exists>t. EventFilter b s = Some t \<and> flt_state (fw_ms t) = st \<and> flt_retry (fw_ms t) = r \<and>
    ops (ms_line (fw_ms t)) = ops (ms_line (fw_ms s)) @ concat (map frame_ops ds) \<and>
    clocking 6 0 n (pins (ms_line (fw_ms t))) \<and> dialogue_frame s t"
proof -
  have no: "clocking 6 0 n (pins (ms_line (fw_ms s)))" using clocking_less [OF assms(3)] by simp
  have nff: "flt_state (fw_ms s) + 2 \<noteq> 0xFF"
  proof
    assume "flt_state (fw_ms s) + 2 = 0xFF"
    then have "flt_state (fw_ms s) = 0xFF - 2" by (metis add_diff_cancel_right')
    with assms(2) show False by simp
  qed
  note frame = dialogue_frame_def in_startup_def ms_config_def on_ms_def on_kb_def ms_try_def
  show ?thesis
  proof (cases "b = ms_state_table ! unat (flt_state (fw_ms s)) \<or>
      ms_state_table ! unat (flt_state (fw_ms s)) = 0xFA \<and> b = 0xF4")
    case True
    note m = filter_match [OF assms(1,2,4) True]
    show ?thesis
    proof (cases ds)
      case Nil
      with m no nff assms(1) show ?thesis by (auto simp: frame)
    next
      case (Cons d ds')
      then have d: "ds = [d]" using m by (cases ds') auto
      obtain m' where m': "SendByte d (fw_ms s) = Some m'" "clocking 6 0 n (pins (ms_line m'))"
        "ops (ms_line m') = ops (ms_line (fw_ms s)) @ frame_ops d"
        using SendByte_clocking [OF assms(3)] by blast
      with m d nff assms(1) SendByte_frame [OF m'(1)] show ?thesis by (auto simp: frame)
    qed
  next
    case False
    note m = filter_mismatch [OF assms(1,2,4) False]
    show ?thesis
    proof (cases "flt_retry (fw_ms s) < 5")
      case True
      obtain m' where m': "SendByte 0xFF ((fw_ms s)\<lparr>flt_retry := flt_retry (fw_ms s) + 1\<rparr>) = Some m'"
        "clocking 6 0 n (pins (ms_line m'))"
        "ops (ms_line m') = ops (ms_line (fw_ms s)) @ frame_ops 0xFF"
        using SendByte_clocking [of n "(fw_ms s)\<lparr>flt_retry := flt_retry (fw_ms s) + 1\<rparr>"] assms(3) by auto
      with m True assms(1) SendByte_frame [OF m'(1)] show ?thesis
        by (auto simp: frame ResetState_def)
    next
      case False
      with m no assms(1) show ?thesis by (auto simp: frame)
    qed
  qed
qed

section \<open>A mouse\<close>

record mouse_device =
  dv_intelli :: bool       \<comment> \<open>an Intellimouse (with a wheel), or a standard mouse\<close>
  dv_wheel :: bool         \<comment> \<open>four-byte packets enabled\<close>
  dv_report :: bool        \<comment> \<open>data reporting enabled\<close>
  dv_rates :: "u8 list"    \<comment> \<open>the last sample rates, most recent first\<close>
  dv_resolution :: u8
  dv_double :: bool        \<comment> \<open>2:1 scaling\<close>
  dv_pending :: "u8 option" \<comment> \<open>the command that waits for its parameter\<close>
  dv_out :: "u8 list"      \<comment> \<open>bytes it is going to send\<close>

definition dv_say :: "u8 list \<Rightarrow> mouse_device \<Rightarrow> mouse_device" where
  "dv_say bs d = d\<lparr>dv_out := dv_out d @ bs\<rparr>"

definition dv_reset :: "mouse_device \<Rightarrow> mouse_device" where
  "dv_reset d = d\<lparr>dv_wheel := False, dv_report := False, dv_rates := [100], dv_resolution := 2,
     dv_double := False, dv_pending := None\<rparr>"

definition dv_receive :: "u8 \<Rightarrow> mouse_device \<Rightarrow> mouse_device" where
  "dv_receive b d =
     (case dv_pending d of
        Some c \<Rightarrow>
          if c = 0xF3 then
            (let rates = b # take 2 (dv_rates d)
             in dv_say [0xFA] (d\<lparr>dv_rates := rates, dv_pending := None,
                  dv_wheel := dv_wheel d \<or> dv_intelli d \<and> rates = [80, 100, 200]\<rparr>))
          else dv_say [0xFA] (d\<lparr>dv_resolution := b, dv_pending := None\<rparr>)
      | None \<Rightarrow>
          if b = 0xFF then dv_say [0xFA, 0xAA, 0x00] (dv_reset d)
          else if b = 0xF3 \<or> b = 0xE8 then dv_say [0xFA] (d\<lparr>dv_pending := Some b\<rparr>)
          else if b = 0xF2 then dv_say [0xFA, if dv_wheel d then 3 else 0] d
          else if b = 0xE6 then dv_say [0xFA] (d\<lparr>dv_double := False\<rparr>)
          else if b = 0xE7 then dv_say [0xFA] (d\<lparr>dv_double := True\<rparr>)
          else if b = 0xF4 then dv_say [0xFA] (d\<lparr>dv_report := True\<rparr>)
          else dv_say [0xFE] d)"

text \<open>A mouse after power on: it announces the result of its self test and its identifier.\<close>

definition dv_power_on :: "bool \<Rightarrow> mouse_device" where
  "dv_power_on intelli = dv_say [0xAA, 0x00] (dv_reset \<lparr>dv_intelli = intelli, dv_wheel = False,
     dv_report = False, dv_rates = [], dv_resolution = 0, dv_double = False, dv_pending = None,
     dv_out = []\<rparr>)"

text \<open>
  The closed loop: the filter receives the bytes of the mouse one at a time, and the mouse receives
  the bytes it decodes from what the driver has done on the line meanwhile. It ends when the mouse
  has nothing more to say, after at most \<open>n\<close> bytes.
\<close>

fun mouse_loop :: "nat \<Rightarrow> firmware \<Rightarrow> mouse_device \<Rightarrow> (firmware \<times> mouse_device) option" where
  "mouse_loop 0 s d = Some (s, d)"
| "mouse_loop (Suc n) s d =
     (case dv_out d of
        [] \<Rightarrow> Some (s, d)
      | b # bs \<Rightarrow> do {
          t \<leftarrow> EventFilter b s;
          mouse_loop n t (fold dv_receive
            (map the (device_bytes (drop (length (ops (ms_line (fw_ms s)))) (ops (ms_line (fw_ms t))))))
            (d\<lparr>dv_out := bs\<rparr>)) })"

text \<open>The same loop with the automaton, as long as the dialogue lasts.\<close>

fun dialogue_run :: "nat \<Rightarrow> u8 \<times> u8 \<times> u8 \<Rightarrow> u8 \<times> u8 \<Rightarrow> mouse_device \<Rightarrow> ((u8 \<times> u8) \<times> mouse_device) option" where
  "dialogue_run 0 cfg q d = Some (q, d)"
| "dialogue_run (Suc n) cfg q d =
     (case dv_out d of
        [] \<Rightarrow> Some (q, d)
      | b # bs \<Rightarrow>
          if fst q < 52 then
            (let (ds, q') = dialogue_step cfg q b
             in dialogue_run n cfg q' (fold dv_receive ds (d\<lparr>dv_out := bs\<rparr>)))
          else None)"

text \<open>Frames compose, as long as the error state is not left.\<close>

definition run_frame :: "firmware \<Rightarrow> firmware \<Rightarrow> bool" where
  "run_frame s t \<longleftrightarrow> ms_config (fw_ms t) = ms_config (fw_ms s) \<and>
     pk_size (fw_ms t) = pk_size (fw_ms s) \<and> pk_bytes (fw_ms t) = pk_bytes (fw_ms s) \<and>
     fw_js t = fw_js s \<and>
     fw_kb t = (if flt_state (fw_ms t) = 0xFF then KB_ErrorStateLed (fw_kb s) else fw_kb s)"

lemma mouse_loop_dialogue:
  assumes "dialogue_run n (ms_config (fw_ms s)) (flt_state (fw_ms s), flt_retry (fw_ms s)) d = Some (q, e)"
    and "in_startup s" and "clocking 6 0 (24 * n) (pins (ms_line (fw_ms s)))"
    and "flt_state (fw_ms s) \<noteq> 0xFF"
  shows "\<exists>t. mouse_loop n s d = Some (t, e) \<and> (flt_state (fw_ms t), flt_retry (fw_ms t)) = q \<and>
    in_startup t \<and> run_frame s t"
  using assms
proof (induction n arbitrary: s d)
  case 0
  then show ?case by (auto simp: run_frame_def)
next
  case (Suc n)
  let ?q = "(flt_state (fw_ms s), flt_retry (fw_ms s))"
  show ?case
  proof (cases "dv_out d")
    case Nil
    with Suc.prems show ?thesis by (auto simp: run_frame_def)
  next
    case (Cons b bs)
    obtain ds st r where step: "dialogue_step (ms_config (fw_ms s)) ?q b = (ds, st, r)"
      by (metis prod_cases3)
    let ?e = "fold dv_receive ds (d\<lparr>dv_out := bs\<rparr>)"
    from Suc.prems(1) Cons step have lt: "flt_state (fw_ms s) < 52"
      and run: "dialogue_run n (ms_config (fw_ms s)) (st, r) ?e = Some (q, e)"
      by (auto split: if_splits)
    have c: "clocking 6 0 (24 + 24 * n) (pins (ms_line (fw_ms s)))" using Suc.prems(3) by simp
    from filter_dialogue [OF Suc.prems(2) lt c step] obtain u where u: "EventFilter b s = Some u"
      "flt_state (fw_ms u) = st" "flt_retry (fw_ms u) = r"
      "ops (ms_line (fw_ms u)) = ops (ms_line (fw_ms s)) @ concat (map frame_ops ds)"
      "clocking 6 0 (24 * n) (pins (ms_line (fw_ms u)))" "dialogue_frame s u"
      by blast
    have conv: "mouse_loop (Suc n) s d = mouse_loop n u ?e"
      using Cons u(1,4) by (simp add: device_bytes_frames comp_def)
    show ?thesis
    proof (cases "st = 0xFF")
      case True
      have "(st, r) = q \<and> e = ?e \<and> mouse_loop n u ?e = Some (u, ?e)"
        using run True by (cases n; cases "dv_out ?e") auto
      with u True conv show ?thesis by (auto simp: dialogue_frame_def run_frame_def)
    next
      case False
      have "dialogue_run n (ms_config (fw_ms u)) (flt_state (fw_ms u), flt_retry (fw_ms u)) ?e = Some (q, e)"
        using run u(2,3,6) by (simp add: dialogue_frame_def)
      from Suc.IH [OF this] u False obtain t where t: "mouse_loop n u ?e = Some (t, e)"
        "(flt_state (fw_ms t), flt_retry (fw_ms t)) = q" "in_startup t" "run_frame u t"
        by (auto simp: dialogue_frame_def)
      then have "run_frame s t" using u(2,6) False by (simp add: dialogue_frame_def run_frame_def)
      with t conv show ?thesis by auto
    qed
  qed
qed

section \<open>Properties\<close>

text \<open>The three runs of the automaton.\<close>

lemma run_intelli: "dialogue_run 40 (3, 100, 1) (2, 0) (dv_power_on True) = Some ((52, 0),
    \<lparr>dv_intelli = True, dv_wheel = True, dv_report = True, dv_rates = [100, 80, 100],
     dv_resolution = 3, dv_double = False, dv_pending = None, dv_out = []\<rparr>)"
  by code_simp

lemma run_standard: "dialogue_run 140 (3, 100, 1) (2, 0) (dv_power_on False) = Some ((255, 0),
    \<lparr>dv_intelli = False, dv_wheel = False, dv_report = False, dv_rates = [80, 100, 200],
     dv_resolution = 2, dv_double = False, dv_pending = None, dv_out = []\<rparr>)"
  by code_simp

lemma run_soft_reset: "dialogue_run 40 (3, 100, 1) (0, 0) (dv_receive 0xFF (dv_reset
      \<lparr>dv_intelli = True, dv_wheel = w, dv_report = p, dv_rates = [], dv_resolution = x, dv_double = y,
       dv_pending = None, dv_out = []\<rparr>)) = Some ((52, 0),
    \<lparr>dv_intelli = True, dv_wheel = True, dv_report = True, dv_rates = [100, 80, 100],
     dv_resolution = 3, dv_double = False, dv_pending = None, dv_out = []\<rparr>)"
  by code_simp

text \<open>C3:
  The start-up dialogue with an Intellimouse succeeds: from the state \<open>MS_Init\<close> sets up, in the
  loop with a mouse that has just been switched on, all transmissions return on a line whose mouse
  keeps clocking, and at the end the filter expects packets (state 52) from a mouse that has its
  wheel and its data reporting enabled, resolution 3, sample rate 100 and scaling 1:1, and that
  has nothing more to say. Neither the report nor the keyboard is touched.
\<close>

theorem startup_dialogue:
  assumes "fw_ms s = MS_Init m" and "clocking 6 0 960 (pins (ms_line (fw_ms s)))"
  shows "\<exists>t d. mouse_loop 40 s (dv_power_on True) = Some (t, d) \<and> flt_state (fw_ms t) = 52 \<and>
    \<not> in_dialogue t \<and> dv_wheel d \<and> dv_report d \<and> dv_resolution d = 3 \<and> hd (dv_rates d) = 100 \<and>
    \<not> dv_double d \<and> dv_out d = [] \<and> fw_js t = fw_js s \<and> fw_kb t = fw_kb s"
proof -
  have i: "in_startup s" "ms_config (fw_ms s) = (3, 100, 1)" "flt_state (fw_ms s) = 2"
    "flt_retry (fw_ms s) = 0"
    by (simp_all add: assms(1) in_startup_def ms_config_def)
  from mouse_loop_dialogue [of 40 s "dv_power_on True", unfolded i, OF run_intelli i(1)] assms(2) i(3)
  obtain t where "mouse_loop 40 s (dv_power_on True) = Some (t, \<lparr>dv_intelli = True, dv_wheel = True,
      dv_report = True, dv_rates = [100, 80, 100], dv_resolution = 3, dv_double = False,
      dv_pending = None, dv_out = []\<rparr>)"
    "flt_state (fw_ms t) = 52" "in_startup t" "run_frame s t" by auto
  then show ?thesis by (auto simp: run_frame_def in_dialogue_def in_startup_def)
qed

lemma MS_Init_pins: "pins (ms_line (MS_Init m)) = pins (ms_line m)"
  by (simp add: MS_Init_def Let_def ms_emit_def emit_def TimerInit_def SetMouseDefault_def)

definition fw_started :: "u8 list \<Rightarrow> firmware" where
  "fw_started ps = fw_power_on\<lparr>fw_ms := MS_Init (ms_power_on\<lparr>ms_line := \<lparr>pins = ps, ops = []\<rparr>\<rparr>)\<rparr>"

lemma fw_started_clocking:
  "clocking 6 0 n (pins (ms_line (fw_ms (fw_started (clock_wave 0x41 0 2 1 n)))))"
  by (simp add: fw_started_def MS_Init_pins, rule wave_clocking)
    (simp_all add: bit_iff_odd drop_bit_eq_div)

theorem startup_dialogue_witness:
  "\<exists>t d. mouse_loop 40 (fw_started (clock_wave 0x41 0 2 1 960)) (dv_power_on True) = Some (t, d) \<and>
    flt_state (fw_ms t) = 52 \<and> dv_wheel d \<and> dv_report d"
  using startup_dialogue [of "fw_started (clock_wave 0x41 0 2 1 960)", OF _ fw_started_clocking]
  by (fastforce simp: fw_started_def)

text \<open>With a standard mouse, which identifies itself as 0, the dialogue does not settle for three-byte
  packets: the driver resets the mouse and tries again, five times, and then gives up. It ends in
  the state of the packets (255) with the error rhythm of the heartbeat, while the data reporting
  of the mouse was never enabled.
\<close>

theorem standard_mouse_rejected:
  assumes "fw_ms s = MS_Init m" and "clocking 6 0 3360 (pins (ms_line (fw_ms s)))"
  shows "\<exists>t d. mouse_loop 140 s (dv_power_on False) = Some (t, d) \<and> flt_state (fw_ms t) = 0xFF \<and>
    \<not> in_dialogue t \<and> \<not> dv_report d \<and> \<not> dv_wheel d \<and> dv_out d = [] \<and>
    fw_kb t = KB_ErrorStateLed (fw_kb s) \<and> kb_led_dutycycle (fw_kb t) = 10000"
proof -
  have i: "in_startup s" "ms_config (fw_ms s) = (3, 100, 1)" "flt_state (fw_ms s) = 2"
    "flt_retry (fw_ms s) = 0"
    by (simp_all add: assms(1) in_startup_def ms_config_def)
  from mouse_loop_dialogue [of 140 s "dv_power_on False", unfolded i, OF run_standard i(1)] assms(2) i(3)
  obtain t where "mouse_loop 140 s (dv_power_on False) = Some (t, \<lparr>dv_intelli = False, dv_wheel = False,
      dv_report = False, dv_rates = [80, 100, 200], dv_resolution = 2, dv_double = False,
      dv_pending = None, dv_out = []\<rparr>)"
    "flt_state (fw_ms t) = 0xFF" "in_startup t" "run_frame s t" by auto
  then show ?thesis by (auto simp: run_frame_def in_dialogue_def in_startup_def KB_ErrorStateLed_def)
qed

theorem standard_mouse_rejected_witness:
  "\<exists>t d. mouse_loop 140 (fw_started (clock_wave 0x41 0 2 1 3360)) (dv_power_on False) = Some (t, d) \<and>
    flt_state (fw_ms t) = 0xFF \<and> \<not> dv_report d"
  using standard_mouse_rejected [of "fw_started (clock_wave 0x41 0 2 1 3360)", OF _ fw_started_clocking]
  by (fastforce simp: fw_started_def)

text \<open>A soft reset (\<open>MS_MouseReset\<close>) completes with an Intellimouse, but it keeps a partly received
  packet: when it interrupts a packet after \<open>k\<close> bytes, the header of the first packet after the
  dialogue is stored as byte \<open>k\<close> of the old packet, so packets are cut at the wrong place.
\<close>

theorem soft_reset_keeps_partial_packet:
  assumes "in_startup s" and "flt_retry (fw_ms s) = 0"
    and "clocking 6 0 984 (pins (ms_line (fw_ms s)))"
    and "pk_size (fw_ms s) = k" and "k = 1 \<or> k = 2"
    and "dv_intelli d" and "dv_pending d = None" and "dv_out d = []" and "dv_rates d = []"
  shows "\<exists>t u e. ms_try MS_MouseReset s = Some t \<and>
    device_bytes (drop (length (ops (ms_line (fw_ms s)))) (ops (ms_line (fw_ms t)))) = [Some 0xFF] \<and>
    mouse_loop 40 t (dv_receive 0xFF d) = Some (u, e) \<and> flt_state (fw_ms u) = 52 \<and> dv_report e \<and>
    (\<exists>v. EventFilter h u = Some v \<and> pk_size (fw_ms v) = k + 1 \<and>
      pk_bytes (fw_ms v) = (pk_bytes (fw_ms s))[unat k := h])"
proof -
  let ?m = "SetMouseDefault (fw_ms s)"
  have c: "clocking 6 0 (24 + 960) (pins (ms_line ?m))" using assms(3) by (simp add: SetMouseDefault_def)
  obtain m' where m': "SendByte 0xFF ?m = Some m'" "clocking 6 0 960 (pins (ms_line m'))"
    "ops (ms_line m') = ops (ms_line (fw_ms s)) @ frame_ops 0xFF"
    using SendByte_clocking [OF c, of "0xFF"] by (auto simp: SetMouseDefault_def)
  note f = SendByte_frame [OF m'(1)]
  define t where "t = s\<lparr>fw_ms := m'\<lparr>flt_state := 0\<rparr>\<rparr>"
  have t: "ms_try MS_MouseReset s = Some t"
    using m'(1) by (simp add: ms_try_def MS_MouseReset_def ResetState_def t_def)
  have i: "in_startup t" "ms_config (fw_ms t) = (3, 100, 1)" "flt_state (fw_ms t) = 0"
    "flt_retry (fw_ms t) = 0" "pk_size (fw_ms t) = k" "pk_bytes (fw_ms t) = pk_bytes (fw_ms s)"
    using f assms by (simp_all add: t_def in_startup_def ms_config_def SetMouseDefault_def)
  obtain w p x y where d: "dv_receive 0xFF d = dv_receive 0xFF (dv_reset \<lparr>dv_intelli = True, dv_wheel = w,
      dv_report = p, dv_rates = [], dv_resolution = x, dv_double = y, dv_pending = None, dv_out = []\<rparr>)"
    using assms(6-9) by (cases d) (auto simp: dv_receive_def dv_reset_def dv_say_def)
  from mouse_loop_dialogue [of 40 t "dv_receive 0xFF d", unfolded i d, OF run_soft_reset i(1)] i(3) m'(2)
  obtain u where u: "mouse_loop 40 t (dv_receive 0xFF d) = Some (u, \<lparr>dv_intelli = True, dv_wheel = True,
      dv_report = True, dv_rates = [100, 80, 100], dv_resolution = 3, dv_double = False,
      dv_pending = None, dv_out = []\<rparr>)"
    "flt_state (fw_ms u) = 52" "in_startup u" "run_frame t u" by (auto simp: t_def d)
  have nd: "\<not> in_dialogue u" using u(2,3) by (simp add: in_dialogue_def in_startup_def)
  have pk: "pk_size (fw_ms u) = k" "pk_bytes (fw_ms u) = pk_bytes (fw_ms s)"
    using u(4) i(5,6) by (simp_all add: run_frame_def)
  from filter_collect [OF nd, of h] pk assms(5) have "\<exists>v. EventFilter h u = Some v \<and>
      pk_size (fw_ms v) = k + 1 \<and> pk_bytes (fw_ms v) = (pk_bytes (fw_ms s))[unat k := h]"
    by (auto simp: on_ms_def)
  moreover have "device_bytes (drop (length (ops (ms_line (fw_ms s)))) (ops (ms_line (fw_ms t)))) = [Some 0xFF]"
    using m'(3) device_bytes_frames [of "[0xFF]"] by (simp add: t_def)
  ultimately show ?thesis using t u(1,2) by auto
qed

theorem soft_reset_keeps_partial_packet_witness:
  "\<exists>t u e. ms_try MS_MouseReset (on_ms (\<lambda>m. m\<lparr>flt_state := 52, pk_size := 2, pk_bytes := [8, 1, 0, 0]\<rparr>)
      (fw_started (clock_wave 0x41 0 2 1 984))) = Some t \<and>
    mouse_loop 40 t (dv_receive 0xFF (dv_power_on True\<lparr>dv_out := [], dv_rates := []\<rparr>)) = Some (u, e) \<and>
    (\<exists>v. EventFilter 0x28 u = Some v \<and> pk_bytes (fw_ms v) = [8, 1, 0x28, 0])"
proof -
  let ?s = "on_ms (\<lambda>m. m\<lparr>flt_state := 52, pk_size := 2, pk_bytes := [8, 1, 0, 0]\<rparr>)
      (fw_started (clock_wave 0x41 0 2 1 984))"
  have s: "in_startup ?s" "flt_retry (fw_ms ?s) = 0" "clocking 6 0 984 (pins (ms_line (fw_ms ?s)))"
    "pk_size (fw_ms ?s) = 2" "pk_bytes (fw_ms ?s) = [8, 1, 0, 0]"
    using fw_started_clocking [of 984] by (simp_all add: on_ms_def fw_started_def in_startup_def)
  from soft_reset_keeps_partial_packet [OF s(1-4), of "dv_power_on True\<lparr>dv_out := [], dv_rates := []\<rparr>" "0x28"]
  show ?thesis
    unfolding s(5) by (auto simp: dv_power_on_def dv_say_def dv_reset_def)
qed

end
