(* ===== verification/KeyboardEvents.thy ===== *)
theory KeyboardEvents
  imports MouseEvents
begin

text \<open>
  The event side of \<open>ps-2/KeyboardDriver.c\<close>: the filter that maps key events to commands for the
  keyboard, to a reset of the mouse and to the report, and the task the main loop calls, with the
  heartbeat on the scroll lock light. The \<open>switch\<close> statement of the filter is two functions from
  the scan code to the change of the report; every one of its cases ends with sending the report.
\<close>

section \<open>The code\<close>

abbreviation (input) "MKey \<equiv> 0x3A :: u8"
abbreviation (input) "NumLockKey \<equiv> 0x77 :: u8"
abbreviation (input) "CapsLockKey \<equiv> 0x58 :: u8"
abbreviation (input) "SpaceKey \<equiv> 0x29 :: u8"
abbreviation (input) "RightControlKey \<equiv> 0x14 :: u8"
abbreviation (input) "EKey \<equiv> 0x24 :: u8"
abbreviation (input) "RKey \<equiv> 0x2D :: u8"
abbreviation (input) "AKey \<equiv> 0x1C :: u8"
abbreviation (input) "DKey \<equiv> 0x23 :: u8"
abbreviation (input) "WKey \<equiv> 0x1D :: u8"
abbreviation (input) "SKey \<equiv> 0x1B :: u8"
abbreviation (input) "LeftShiftKey \<equiv> 0x12 :: u8"
abbreviation (input) "EscapeKey \<equiv> 0x76 :: u8"
abbreviation (input) "TabKey \<equiv> 0x0D :: u8"
abbreviation (input) "D1Key \<equiv> 0x16 :: u8"
abbreviation (input) "D2Key \<equiv> 0x1E :: u8"
abbreviation (input) "D3Key \<equiv> 0x26 :: u8"
abbreviation (input) "D4Key \<equiv> 0x25 :: u8"
abbreviation (input) "GKey \<equiv> 0x34 :: u8"
abbreviation (input) "FKey \<equiv> 0x2B :: u8"
abbreviation (input) "TKey \<equiv> 0x2C :: u8"

text \<open>\<open>KB_Send( kb_lastbyte = b )\<close>.\<close>

definition kb_send_last :: "u8 \<Rightarrow> keyboard \<Rightarrow> keyboard option" where
  "kb_send_last b k = KB_Send b (k\<lparr>kb_lastbyte := b\<rparr>)"

definition kb_lock_command :: "u8 \<Rightarrow> keyboard \<Rightarrow> keyboard option" where
  "kb_lock_command c k = do {
     k \<leftarrow> kb_send_last 0xED k;
     Some (k\<lparr>kb_cmd := c, kb_retry := 0\<rparr>) }"

definition kb_retry_command :: "keyboard \<Rightarrow> keyboard option" where
  "kb_retry_command k =
     (let r = kb_retry k; k = k\<lparr>kb_retry := r + 1\<rparr>
      in if r < 4 then KB_Send (kb_lastbyte k) k
         else
           (let r = kb_retry k; k = k\<lparr>kb_retry := r + 1\<rparr>
            in if r < 8 then kb_send_last 0xFF k else Some k))"

text \<open>The chain of conditions at the head of the filter.\<close>

definition kb_commands :: "u16 \<Rightarrow> firmware \<Rightarrow> firmware option" where
  "kb_commands scancode s =
     (if scancode = KB_KeyPress MKey then
        (let s = on_kb KB_NormalStateLed s in ms_try MS_MouseReset s)
      else if scancode = KB_KeyPress ScrollLockKey then kb_try (kb_lock_command 0x01) s
      else if scancode = KB_KeyPress NumLockKey then kb_try (kb_lock_command 0x02) s
      else if scancode = KB_KeyPress CapsLockKey then kb_try (kb_lock_command 0x04) s
      else if scancode = KB_KeyPress 0xFA \<and> kb_lastbyte (fw_kb s) = 0xED then
        kb_try (\<lambda>k. do {
          let k = k\<lparr>kb_leds := kb_leds k XOR kb_cmd k\<rparr>;
          k \<leftarrow> kb_send_last (kb_leds k) k;
          Some (k\<lparr>kb_retry := 0\<rparr>) }) s
      else if scancode = KB_KeyPress 0xFE then kb_try kb_retry_command s
      else Some s)"

text \<open>The first cases of the switch, up to the shift key.\<close>

definition kb_switch_move :: "u16 \<Rightarrow> (usb \<Rightarrow> usb) option" where
  "kb_switch_move c =
     (if c = KB_KeyPress SpaceKey then Some (usb_joystick_press CROSS_BUTTON)
      else if c = KB_KeyRelease SpaceKey then Some (usb_joystick_release CROSS_BUTTON)
      else if c = KB_KeyPress RightControlKey then Some (usb_joystick_press CIRCLE_BUTTON)
      else if c = KB_KeyRelease RightControlKey then Some (usb_joystick_release CIRCLE_BUTTON)
      else if c = KB_KeyPress EKey then Some (usb_joystick_press TRIANGLE_BUTTON)
      else if c = KB_KeyRelease EKey then Some (usb_joystick_release TRIANGLE_BUTTON)
      else if c = KB_KeyPress RKey then Some (usb_joystick_press SQUARE_BUTTON)
      else if c = KB_KeyRelease RKey then Some (usb_joystick_release SQUARE_BUTTON)
      else if c = KB_KeyPress AKey then Some (usb_joystick_move_x 0x00)
      else if c = KB_KeyRelease AKey then Some (usb_joystick_move_x 0x80)
      else if c = KB_KeyPress DKey then Some (usb_joystick_move_x 0xFF)
      else if c = KB_KeyRelease DKey then Some (usb_joystick_move_x 0x80)
      else if c = KB_KeyPress WKey then Some (usb_joystick_move_y 0x00)
      else if c = KB_KeyRelease WKey then Some (usb_joystick_move_y 0x80)
      else if c = KB_KeyPress SKey then Some (usb_joystick_move_y 0xFF)
      else if c = KB_KeyRelease SKey then Some (usb_joystick_move_y 0x80)
      else if c = KB_KeyPress LeftShiftKey then Some (usb_joystick_press LEFT_HAT_BUTTON)
      else if c = KB_KeyRelease LeftShiftKey then Some (usb_joystick_release LEFT_HAT_BUTTON)
      else None)"

definition kb_switch_pad :: "u16 \<Rightarrow> (usb \<Rightarrow> usb) option" where
  "kb_switch_pad c =
     (if c = KB_KeyPress EscapeKey then Some (usb_joystick_press START_BUTTON)
      else if c = KB_KeyRelease EscapeKey then Some (usb_joystick_release START_BUTTON)
      else if c = KB_KeyPress TabKey then Some (usb_joystick_press SELECT_BUTTON)
      else if c = KB_KeyRelease TabKey then Some (usb_joystick_release SELECT_BUTTON)
      else if c = KB_KeyPress D1Key then Some (usb_joystick_press_dir UP_BUTTON)
      else if c = KB_KeyRelease D1Key then Some (usb_joystick_press_dir NO_BUTTON)
      else if c = KB_KeyPress D2Key then Some (usb_joystick_press_dir RIGHT_BUTTON)
      else if c = KB_KeyRelease D2Key then Some (usb_joystick_press_dir NO_BUTTON)
      else if c = KB_KeyPress D3Key then Some (usb_joystick_press_dir LEFT_BUTTON)
      else if c = KB_KeyRelease D3Key then Some (usb_joystick_press_dir NO_BUTTON)
      else if c = KB_KeyPress D4Key then Some (usb_joystick_press_dir DOWN_BUTTON)
      else if c = KB_KeyRelease D4Key then Some (usb_joystick_press_dir NO_BUTTON)
      else if c = KB_KeyPress GKey then Some (usb_joystick_press R2_BUTTON)
      else if c = KB_KeyRelease GKey then Some (usb_joystick_release R2_BUTTON)
      else if c = KB_KeyPress FKey then Some (usb_joystick_press RIGHT_HAT_BUTTON)
      else if c = KB_KeyRelease FKey then Some (usb_joystick_release RIGHT_HAT_BUTTON)
      else if c = KB_KeyPress TKey then Some (usb_joystick_press L2_BUTTON)
      else if c = KB_KeyRelease TKey then Some (usb_joystick_release L2_BUTTON)
      else None)"

definition KB_KeyboardEventFilter :: "u16 \<Rightarrow> firmware \<Rightarrow> firmware option" where
  "KB_KeyboardEventFilter scancode s = do {
     s \<leftarrow> kb_commands scancode s;
     case kb_switch_move scancode of
       Some f \<Rightarrow> js_send (on_js f s)
     | None \<Rightarrow>
         (case kb_switch_pad scancode of
            Some f \<Rightarrow> js_send (on_js f s)
          | None \<Rightarrow> Some s) }"

definition KB_EventTask :: "firmware \<Rightarrow> firmware option" where
  "KB_EventTask s =
     (let (scancode, k) = KB_GetScancode (fw_kb s); s = s\<lparr>fw_kb := k\<rparr>
      in if scancode > 0 then KB_KeyboardEventFilter scancode s
         else
           (let d = kb_led_delay (fw_kb s);
                s = on_kb (\<lambda>k. k\<lparr>kb_led_delay := d - 1\<rparr>) s
            in if d = 0 then do {
                 s \<leftarrow> KB_KeyboardEventFilter (kb_led_keycode (fw_kb s)) s;
                 Some (on_kb (\<lambda>k. k\<lparr>kb_led_delay := kb_led_dutycycle k\<rparr>) s) }
               else Some s))"

section \<open>The report follows the keys\<close>

text \<open>Key events are told apart by their code and their trigger.\<close>

lemma key_event_eq [simp]:
  "KB_KeyPress v = KB_KeyPress w \<longleftrightarrow> v = w" "KB_KeyRelease v = KB_KeyRelease w \<longleftrightarrow> v = w"
  "KB_KeyPress v \<noteq> KB_KeyRelease w" "KB_KeyRelease v \<noteq> KB_KeyPress w"
proof -
  have u: "ucast (KB_KeyPress x) = x" "ucast (KB_KeyRelease x) = x" for x :: u8
    by (rule bit_eqI, auto simp: KB_KeyPress_def KB_KeyRelease_def event_defs bit_simps)+
  then show "KB_KeyPress v = KB_KeyPress w \<longleftrightarrow> v = w" "KB_KeyRelease v = KB_KeyRelease w \<longleftrightarrow> v = w"
    by metis+
  have "\<not> bit (KB_KeyPress x) 8" "bit (KB_KeyRelease x) 8" for x :: u8
    by (auto simp: KB_KeyPress_def KB_KeyRelease_def event_defs bit_simps dest: byte_bits_below)
  then show "KB_KeyPress v \<noteq> KB_KeyRelease w" "KB_KeyRelease v \<noteq> KB_KeyPress w" by metis+
qed

text \<open>The keys that stand for one button each, with the bit of the button.\<close>

definition button_keys :: "(u8 \<times> nat) list" where
  "button_keys = [(SpaceKey, 5), (RightControlKey, 6), (EKey, 7), (RKey, 4), (LeftShiftKey, 14),
     (EscapeKey, 13), (TabKey, 12), (GKey, 11), (FKey, 15), (TKey, 10)]"

definition key_change :: "u8 \<Rightarrow> u16 \<Rightarrow> bool \<Rightarrow> bool" where
  "key_change k c now = (if c = KB_KeyPress k then True else if c = KB_KeyRelease k then False else now)"

lemma more_button_bits:
  "bit (0x10::u16) n \<longleftrightarrow> n = 4" "bit (0x20::u16) n \<longleftrightarrow> n = 5" "bit (0x40::u16) n \<longleftrightarrow> n = 6"
  "bit (0x80::u16) n \<longleftrightarrow> n = 7" "bit (0x1000::u16) n \<longleftrightarrow> n = 12" "bit (0x2000::u16) n \<longleftrightarrow> n = 13"
  "bit (0x4000::u16) n \<longleftrightarrow> n = 14"
proof -
  have p: "(0x10::u16) = push_bit 4 1" "(0x20::u16) = push_bit 5 1" "(0x40::u16) = push_bit 6 1"
    "(0x80::u16) = push_bit 7 1" "(0x1000::u16) = push_bit 12 1" "(0x2000::u16) = push_bit 13 1"
    "(0x4000::u16) = push_bit 14 1"
    by (simp_all add: push_bit_of_1)
  have "bit (push_bit k 1 :: u16) n \<longleftrightarrow> n = k" if "k < 16" for k
    using that by (auto simp: bit_simps)
  then show "bit (0x10::u16) n \<longleftrightarrow> n = 4" "bit (0x20::u16) n \<longleftrightarrow> n = 5" "bit (0x40::u16) n \<longleftrightarrow> n = 6"
    "bit (0x80::u16) n \<longleftrightarrow> n = 7" "bit (0x1000::u16) n \<longleftrightarrow> n = 12" "bit (0x2000::u16) n \<longleftrightarrow> n = 13"
    "bit (0x4000::u16) n \<longleftrightarrow> n = 14"
    unfolding p by simp_all
qed

lemma dir_bits:
  assumes "dir < 16" and "4 \<le> n"
  shows "bit (joystick_buttons (usb_joystick_press_dir dir j)) n = bit (joystick_buttons j) n"
proof -
  have "\<not> bit dir n" using small_bits [OF assms(1), of n] assms(2) by auto
  moreover have "bit (0xFFF0 :: u16) n \<longleftrightarrow> n < 16"
  proof -
    have "(0xFFF0 :: u16) = NOT 15" by simp
    moreover have "bit (15 :: u16) n \<longleftrightarrow> n < 4" using small_bits [of 15 n] assms(2) by auto
    ultimately show ?thesis using assms(2) by (simp only: bit_not_iff possible_bit_word) auto
  qed
  ultimately show ?thesis
    by (auto simp: usb_joystick_press_dir_def bit_or_iff bit_and_iff dest: bit_imp_le_length)
qed

lemma axis_buttons:
  "joystick_buttons (usb_joystick_move_x v j) = joystick_buttons j"
  "joystick_buttons (usb_joystick_move_y v j) = joystick_buttons j"
  by (simp_all add: usb_joystick_move_x_def usb_joystick_move_y_def)

lemma switch_move_button:
  assumes "(k, n) \<in> set button_keys" and "kb_switch_move c = Some f"
  shows "bit (joystick_buttons (f j)) n = key_change k c (bit (joystick_buttons j) n)"
  using assms
  by (auto simp: kb_switch_move_def button_keys_def key_change_def press_bit axis_buttons
      button_bits more_button_bits simp del: bit_numeral_word_iff split: if_splits)

lemma switch_pad_button:
  assumes "(k, n) \<in> set button_keys" and "kb_switch_move c = None" and "kb_switch_pad c = Some f"
  shows "bit (joystick_buttons (f j)) n = key_change k c (bit (joystick_buttons j) n)"
  using assms
  by (auto simp: kb_switch_pad_def button_keys_def key_change_def press_bit dir_bits
      button_bits more_button_bits kb_switch_move_def simp del: bit_numeral_word_iff split: if_splits)

lemma switch_none_button:
  assumes "(k, n) \<in> set button_keys" and "kb_switch_move c = None" and "kb_switch_pad c = None"
  shows "key_change k c b = b"
  using assms
  by (auto simp: kb_switch_pad_def kb_switch_move_def button_keys_def key_change_def split: if_splits)

lemma kb_commands_js:
  assumes "kb_commands c s = Some t"
  shows "fw_js t = fw_js s" and "dsp_left (fw_ms t) = dsp_left (fw_ms s)"
    and "dsp_right (fw_ms t) = dsp_right (fw_ms s)"
  using assms
  by (auto simp: kb_commands_def Let_def ms_try_def kb_try_def on_kb_def MS_MouseReset_def
      ResetState_def SetMouseDefault_def SendByte_def split: if_splits bind_splits)

lemma kb_filter_button:
  assumes "KB_KeyboardEventFilter c s = Some t" and "(k, n) \<in> set button_keys"
  shows "bit (joystick_buttons (fw_js t)) n = key_change k c (bit (joystick_buttons (fw_js s)) n)"
proof -
  from assms(1) obtain u where u: "kb_commands c s = Some u"
    and t: "(case kb_switch_move c of Some f \<Rightarrow> js_send (on_js f u)
      | None \<Rightarrow> (case kb_switch_pad c of Some f \<Rightarrow> js_send (on_js f u) | None \<Rightarrow> Some u)) = Some t"
    by (auto simp: KB_KeyboardEventFilter_def split: bind_splits)
  have send: "joystick_buttons (fw_js t) = joystick_buttons (f (fw_js s))" if "js_send (on_js f u) = Some t" for f
    using js_send_report(2) [OF that] kb_commands_js(1) [OF u] by (simp add: on_js_def)
  show ?thesis
  proof (cases "kb_switch_move c")
    case (Some f)
    with t send [of f] switch_move_button [OF assms(2) Some] show ?thesis by simp
  next
    case None
    note n = None
    show ?thesis
    proof (cases "kb_switch_pad c")
      case (Some f)
      with t n send [of f] switch_pad_button [OF assms(2) n Some] show ?thesis by simp
    next
      case None
      with t n switch_none_button [OF assms(2) n None] kb_commands_js(1) [OF u] show ?thesis by simp
    qed
  qed
qed

text \<open>A sequence of keyboard events given to the filter.\<close>

fun kb_filter_run :: "u16 list \<Rightarrow> firmware \<Rightarrow> firmware option" where
  "kb_filter_run [] s = Some s"
| "kb_filter_run (c # cs) s = do { s \<leftarrow> KB_KeyboardEventFilter c s; kb_filter_run cs s }"

text \<open>C30:
  The buttons of the report follow their keys: for each of the ten keys that stand for a button and
  after any sequence of keyboard events (other keys, lock keys, command replies), the bit of the
  button is set exactly when the last event of its key was a press, and as at the start when the
  sequence holds no event of the key.
\<close>

theorem buttons_follow_keys:
  assumes "kb_filter_run cs s = Some t" and "(k, n) \<in> set button_keys"
  shows "bit (joystick_buttons (fw_js t)) n =
    fold (key_change k) cs (bit (joystick_buttons (fw_js s)) n)"
  using assms(1)
proof (induction cs arbitrary: s)
  case Nil
  then show ?case by simp
next
  case (Cons c cs)
  then obtain u where u: "KB_KeyboardEventFilter c s = Some u" "kb_filter_run cs u = Some t"
    by (auto split: bind_splits)
  from Cons.IH [OF u(2)] kb_filter_button [OF u(1) assms(2)] show ?case by simp
qed

theorem buttons_follow_keys_witness:
  "\<exists>t. kb_filter_run [KB_KeyPress SpaceKey, KB_KeyPress AKey, KB_KeyPress EKey, KB_KeyRelease SpaceKey]
      fw_power_on = Some t \<and>
    \<not> bit (joystick_buttons (fw_js t)) 5 \<and> bit (joystick_buttons (fw_js t)) 7"
proof -
  let ?cs = "[KB_KeyPress SpaceKey, KB_KeyPress AKey, KB_KeyPress EKey, KB_KeyRelease SpaceKey]"
  have js: "js_send s = Some s" if "usb_configuration (fw_js s) = 0" for s
    using that by (simp add: js_send_def usb_joystick_send_def)
  have "kb_filter_run ?cs fw_power_on \<noteq> None"
    by (simp add: KB_KeyboardEventFilter_def kb_commands_def kb_switch_move_def kb_switch_pad_def js
      on_js_def fw_power_on_def idle_usb_def usb_joystick_press_def usb_joystick_release_def
      usb_joystick_move_x_def)
  then obtain t where t: "kb_filter_run ?cs fw_power_on = Some t" by auto
  have "fold (key_change SpaceKey) ?cs b = False" "fold (key_change EKey) ?cs b = True" for b
    by (simp_all add: key_change_def)
  with buttons_follow_keys [OF t, of SpaceKey 5] buttons_follow_keys [OF t, of EKey 7] t show ?thesis
    by (simp add: button_keys_def)
qed

section \<open>The left stick\<close>

definition axis_change :: "u8 \<Rightarrow> u8 \<Rightarrow> u16 \<Rightarrow> u8 \<Rightarrow> u8" where
  "axis_change lo hi c v =
     (if c = KB_KeyPress lo then 0 else if c = KB_KeyPress hi then 0xFF
      else if c = KB_KeyRelease lo \<or> c = KB_KeyRelease hi then 0x80 else v)"

lemmas joystick_op_defs = usb_joystick_press_def usb_joystick_release_def usb_joystick_press_dir_def
  usb_joystick_move_x_def usb_joystick_move_y_def

lemma switch_axes:
  "kb_switch_move c = Some f \<Longrightarrow> joystick_axis_x (f j) = axis_change AKey DKey c (joystick_axis_x j) \<and>
    joystick_axis_y (f j) = axis_change WKey SKey c (joystick_axis_y j)"
  "kb_switch_move c = None \<Longrightarrow> kb_switch_pad c = Some g \<Longrightarrow>
    joystick_axis_x (g j) = axis_change AKey DKey c (joystick_axis_x j) \<and>
    joystick_axis_y (g j) = axis_change WKey SKey c (joystick_axis_y j)"
  "kb_switch_move c = None \<Longrightarrow> axis_change AKey DKey c v = v \<and> axis_change WKey SKey c v = v"
  by (auto simp: kb_switch_move_def kb_switch_pad_def axis_change_def joystick_op_defs Let_def
      split: if_splits)

text \<open>Both switches as one optional change of the report.\<close>

definition kb_report_change :: "u16 \<Rightarrow> usb \<Rightarrow> usb" where
  "kb_report_change c = (case kb_switch_move c of Some f \<Rightarrow> f
     | None \<Rightarrow> (case kb_switch_pad c of Some f \<Rightarrow> f | None \<Rightarrow> id))"

lemma kb_filter_report:
  assumes "KB_KeyboardEventFilter c s = Some t"
  shows "report (fw_js t) = report (kb_report_change c (fw_js s))"
proof -
  from assms obtain u where u: "kb_commands c s = Some u"
    and t: "(case kb_switch_move c of Some f \<Rightarrow> js_send (on_js f u)
      | None \<Rightarrow> (case kb_switch_pad c of Some f \<Rightarrow> js_send (on_js f u) | None \<Rightarrow> Some u)) = Some t"
    by (auto simp: KB_KeyboardEventFilter_def split: bind_splits)
  have "report (fw_js t) = report (f (fw_js s))" if "js_send (on_js f u) = Some t" for f
    using js_send_report(1) [OF that] kb_commands_js(1) [OF u] by (simp add: on_js_def)
  with t kb_commands_js(1) [OF u] show ?thesis
    by (auto simp: kb_report_change_def split: option.splits)
qed

lemma kb_change_axes:
  "joystick_axis_x (kb_report_change c j) = axis_change AKey DKey c (joystick_axis_x j) \<and>
   joystick_axis_y (kb_report_change c j) = axis_change WKey SKey c (joystick_axis_y j)"
  using switch_axes by (auto simp: kb_report_change_def split: option.splits)

text \<open>The left stick follows the last event of its keys: after any sequence of keyboard events its
  horizontal position is 0 when the last event of the keys A and D was a press of A, 255 when it
  was a press of D, centred when it was a release of either, and unchanged without such an event;
  the same holds for the vertical position with W and S.
\<close>

theorem left_stick_follows_keys:
  assumes "kb_filter_run cs s = Some t"
  shows "joystick_axis_x (fw_js t) = fold (axis_change AKey DKey) cs (joystick_axis_x (fw_js s)) \<and>
    joystick_axis_y (fw_js t) = fold (axis_change WKey SKey) cs (joystick_axis_y (fw_js s))"
  using assms
proof (induction cs arbitrary: s)
  case Nil
  then show ?case by simp
next
  case (Cons c cs)
  then obtain u where u: "KB_KeyboardEventFilter c s = Some u" "kb_filter_run cs u = Some t"
    by (auto split: bind_splits)
  from kb_filter_report [OF u(1)] kb_change_axes [of c "fw_js s"]
  have "joystick_axis_x (fw_js u) = axis_change AKey DKey c (joystick_axis_x (fw_js s))"
    "joystick_axis_y (fw_js u) = axis_change WKey SKey c (joystick_axis_y (fw_js s))"
    by (simp_all add: report_def)
  with Cons.IH [OF u(2)] show ?case by simp
qed

theorem left_stick_follows_keys_witness:
  "\<exists>t. kb_filter_run [KB_KeyPress AKey, KB_KeyPress DKey, KB_KeyRelease AKey] fw_power_on = Some t \<and>
    joystick_axis_x (fw_js t) = 0x80"
proof -
  let ?cs = "[KB_KeyPress AKey, KB_KeyPress DKey, KB_KeyRelease AKey]"
  have js: "js_send s = Some s" if "usb_configuration (fw_js s) = 0" for s
    using that by (simp add: js_send_def usb_joystick_send_def)
  have "kb_filter_run ?cs fw_power_on \<noteq> None"
    by (simp add: KB_KeyboardEventFilter_def kb_commands_def kb_switch_move_def kb_switch_pad_def js
      on_js_def fw_power_on_def idle_usb_def joystick_op_defs)
  then obtain t where t: "kb_filter_run ?cs fw_power_on = Some t" by auto
  have "fold (axis_change AKey DKey) ?cs v = 0x80" for v by (simp add: axis_change_def)
  with left_stick_follows_keys [OF t] have "joystick_axis_x (fw_js t) = 0x80" by simp
  with t show ?thesis by (intro exI [of _ t] conjI)
qed

section \<open>Talking to the keyboard\<close>

lemma KB_Send_clocking:
  assumes "clocking 7 1 (24 + n) (pins (kb_line k))"
  shows "\<exists>r. KB_Send b k = Some (k\<lparr>kb_buffer := 0, kb_error := 0, kb_bit_n := 1,
      kb_line := \<lparr>pins = r, ops = ops (kb_line k) @ frame_ops b\<rparr>, kb_intf := False, kb_irq := True\<rparr>) \<and>
    clocking 7 1 n r"
  using send_clocking [OF assms, of b] by (auto simp: KB_Send_def)

text \<open>Bytes transmitted since a state, as the keyboard decodes them.\<close>

definition kb_sent :: "firmware \<Rightarrow> firmware \<Rightarrow> u8 option list" where
  "kb_sent s t = device_bytes (drop (length (ops (kb_line (fw_kb s)))) (ops (kb_line (fw_kb t))))"

lemma kb_no_report:
  assumes "c \<in> {KB_KeyPress 0xFA, KB_KeyPress 0xFE, KB_KeyPress 0x7E, KB_KeyPress 0x77, KB_KeyPress 0x58}"
  shows "KB_KeyboardEventFilter c s = kb_commands c s"
proof -
  have "kb_switch_move c = None" "kb_switch_pad c = None"
    using assms by (auto simp: kb_switch_move_def kb_switch_pad_def)
  then show ?thesis by (cases "kb_commands c s") (simp_all add: KB_KeyboardEventFilter_def)
qed

definition lock_light :: "u8 \<Rightarrow> u8" where
  "lock_light k = (if k = 0x7E then 1 else if k = 0x77 then 2 else 4)"

text \<open>A lock key toggles its light: pressing scroll lock, num lock or caps lock sends the set-lights
  command, and the acknowledgement of the keyboard sends the new state of the lights, which differs
  from the old one in exactly the light of the key (bit 0, 1 or 2). The report is not touched.
\<close>

theorem lock_key_toggles_light:
  assumes "k \<in> {0x7E, 0x77, 0x58}" and "clocking 7 1 48 (pins (kb_line (fw_kb s)))"
  shows "\<exists>t. kb_filter_run [KB_KeyPress k, KB_KeyPress 0xFA] s = Some t \<and>
    kb_sent s t = [Some 0xED, Some (kb_leds (fw_kb s) XOR lock_light k)] \<and>
    kb_leds (fw_kb t) = kb_leds (fw_kb s) XOR lock_light k \<and> fw_js t = fw_js s \<and> fw_ms t = fw_ms s"
proof -
  let ?k = "(fw_kb s)\<lparr>kb_lastbyte := 0xED\<rparr>"
  obtain K where K: "KB_Send 0xED ?k = Some K" "clocking 7 1 (24 + 0) (pins (kb_line K))"
    "ops (kb_line K) = ops (kb_line (fw_kb s)) @ frame_ops 0xED" "kb_lastbyte K = 0xED"
    "kb_leds K = kb_leds (fw_kb s)"
    using KB_Send_clocking [of 24 ?k "0xED"] assms(2) by auto
  define k1 where "k1 = K\<lparr>kb_cmd := lock_light k, kb_retry := 0\<rparr>"
  have k1: "KB_KeyboardEventFilter (KB_KeyPress k) s = Some (s\<lparr>fw_kb := k1\<rparr>)"
    using assms(1) K(1) unfolding k1_def
    by (auto simp: kb_no_report kb_commands_def kb_try_def kb_lock_command_def kb_send_last_def
        lock_light_def)
  let ?b = "kb_leds (fw_kb s) XOR lock_light k"
  let ?l = "k1\<lparr>kb_leds := ?b, kb_lastbyte := ?b\<rparr>"
  have f: "kb_leds k1 = kb_leds (fw_kb s)" "kb_cmd k1 = lock_light k" "kb_lastbyte k1 = 0xED"
    by (simp_all add: k1_def K)
  have "clocking 7 1 (24 + 0) (pins (kb_line ?l))" using K(2) by (simp add: k1_def)
  from KB_Send_clocking [OF this, of ?b] obtain L where L: "KB_Send ?b ?l = Some L" "kb_leds L = ?b"
    "ops (kb_line L) = ops (kb_line (fw_kb s)) @ frame_ops 0xED @ frame_ops ?b"
    using K(3) by (auto simp: k1_def)
  define k2 where "k2 = L\<lparr>kb_retry := 0\<rparr>"
  have k2: "KB_KeyboardEventFilter (KB_KeyPress 0xFA) (s\<lparr>fw_kb := k1\<rparr>) = Some (s\<lparr>fw_kb := k2\<rparr>)"
    "kb_leds k2 = ?b" "ops (kb_line k2) = ops (kb_line (fw_kb s)) @ frame_ops 0xED @ frame_ops ?b"
    using L f by (simp_all add: kb_no_report kb_commands_def kb_try_def kb_send_last_def k2_def)
  have "kb_sent s (s\<lparr>fw_kb := k2\<rparr>) = [Some 0xED, Some ?b]"
    using k2(3) device_bytes_frames [of "[0xED, ?b]"] by (simp add: kb_sent_def)
  with k1 k2 show ?thesis by simp
qed

theorem lock_key_toggles_light_witness:
  "\<exists>t. kb_filter_run [KB_KeyPress 0x58, KB_KeyPress 0xFA]
      (fw_power_on\<lparr>fw_kb := kb_power_on\<lparr>kb_leds := 1, kb_line := \<lparr>pins = clock_wave 0x82 0 2 1 48, ops = []\<rparr>\<rparr>\<rparr>) = Some t \<and>
    kb_leds (fw_kb t) = 5"
proof -
  let ?s = "fw_power_on\<lparr>fw_kb := kb_power_on\<lparr>kb_leds := 1,
    kb_line := \<lparr>pins = clock_wave 0x82 0 2 1 48, ops = []\<rparr>\<rparr>\<rparr>"
  have "clocking 7 1 48 (clock_wave 0x82 0 2 1 48)"
    by (rule wave_clocking) (simp_all add: bit_iff_odd drop_bit_eq_div)
  then show ?thesis using lock_key_toggles_light [of "0x58" ?s] by (auto simp: lock_light_def)
qed

subsection \<open>Retransmission\<close>

lemma kb_filter_run_snoc:
  "kb_filter_run (cs @ [c]) s = Option.bind (kb_filter_run cs s) (KB_KeyboardEventFilter c)"
  by (induction cs arbitrary: s) (auto split: bind_splits)

definition retry_count :: "nat \<Rightarrow> nat" where
  "retry_count n = (if n \<le> 4 then n else 4 + 2 * (n - 4))"

definition retry_sent :: "u8 \<Rightarrow> nat \<Rightarrow> u8 list" where
  "retry_sent l n = replicate (min n 4) l @ replicate (min (n - 4) 2) 0xFF"

text \<open>One retry, by the counter.\<close>

lemma retry_cases:
  "unat (kb_retry k) < 4 \<Longrightarrow> kb_retry_command k = KB_Send (kb_lastbyte k) (k\<lparr>kb_retry := kb_retry k + 1\<rparr>)"
  "4 \<le> unat (kb_retry k) \<Longrightarrow> unat (kb_retry k) < 7 \<Longrightarrow>
    kb_retry_command k = kb_send_last 0xFF (k\<lparr>kb_retry := 2 + kb_retry k\<rparr>)"
  "7 \<le> unat (kb_retry k) \<Longrightarrow> unat (kb_retry k) < 255 \<Longrightarrow>
    kb_retry_command k = Some (k\<lparr>kb_retry := 2 + kb_retry k\<rparr>)"
proof -
  have u: "unat (kb_retry k + 1) = Suc (unat (kb_retry k))" if "unat (kb_retry k) < 255"
    using that by (intro unat_inc [of _ 255]) (simp add: word_less_nat_alt)
  show "unat (kb_retry k) < 4 \<Longrightarrow> kb_retry_command k = KB_Send (kb_lastbyte k) (k\<lparr>kb_retry := kb_retry k + 1\<rparr>)"
    by (simp add: kb_retry_command_def Let_def word_less_nat_alt)
  show "4 \<le> unat (kb_retry k) \<Longrightarrow> unat (kb_retry k) < 7 \<Longrightarrow>
      kb_retry_command k = kb_send_last 0xFF (k\<lparr>kb_retry := 2 + kb_retry k\<rparr>)"
    using u by (simp add: kb_retry_command_def Let_def word_less_nat_alt)
  show "7 \<le> unat (kb_retry k) \<Longrightarrow> unat (kb_retry k) < 255 \<Longrightarrow>
      kb_retry_command k = Some (k\<lparr>kb_retry := 2 + kb_retry k\<rparr>)"
    using u by (simp add: kb_retry_command_def Let_def word_less_nat_alt)
qed

text \<open>The state after \<open>n\<close> retries, relative to the trace at the start.\<close>

definition retried :: "u8 \<Rightarrow> line_op list \<Rightarrow> nat \<Rightarrow> keyboard \<Rightarrow> bool" where
  "retried l os n k \<longleftrightarrow> unat (kb_retry k) = retry_count n \<and>
     clocking 7 1 (24 * (6 - min n 6)) (pins (kb_line k)) \<and>
     kb_lastbyte k = (if n \<le> 4 then l else 0xFF) \<and>
     ops (kb_line k) = os @ concat (map frame_ops (retry_sent l n))"

lemma retried_step:
  assumes "retried l os n k" and "n < 129"
  shows "\<exists>k'. kb_retry_command k = Some k' \<and> retried l os (Suc n) k'"
proof -
  have r: "unat (kb_retry k) = retry_count n" and lb: "kb_lastbyte k = (if n \<le> 4 then l else 0xFF)"
    and o: "ops (kb_line k) = os @ concat (map frame_ops (retry_sent l n))"
    and c: "clocking 7 1 (24 * (6 - min n 6)) (pins (kb_line k))"
    using assms(1) by (simp_all add: retried_def)
  have u1: "unat (kb_retry k + 1) = Suc (retry_count n)" if "retry_count n < 255"
    using that r unat_inc [of "kb_retry k" 255] by (simp add: word_less_nat_alt)
  have u2: "unat (2 + kb_retry k) = retry_count n + 2" if "retry_count n < 254"
    using that r by (simp add: unat_word_ariths(1))
  consider "n < 4" | "4 \<le> n" "n < 6" | "6 \<le> n" by linarith
  then show ?thesis
  proof cases
    case 1
    let ?k = "k\<lparr>kb_retry := kb_retry k + 1\<rparr>"
    have "clocking 7 1 (24 + 24 * (6 - min (Suc n) 6)) (pins (kb_line ?k))"
      by (rule clocking_less [of _ _ "24 * (6 - min n 6)"]) (use c 1 in simp_all)
    from KB_Send_clocking [OF this, of l] obtain k' where k': "KB_Send l ?k = Some k'"
      "clocking 7 1 (24 * (6 - min (Suc n) 6)) (pins (kb_line k'))" "kb_retry k' = kb_retry k + 1"
      "kb_lastbyte k' = kb_lastbyte k" "ops (kb_line k') = ops (kb_line k) @ frame_ops l" by auto
    have "retry_sent l (Suc n) = retry_sent l n @ [l]"
      using 1 by (simp add: retry_sent_def replicate_append_same)
    then have "retried l os (Suc n) k'"
      using k' 1 u1 lb o by (simp add: retried_def retry_count_def)
    moreover have "kb_retry_command k = Some k'"
      using retry_cases(1) [of k] r 1 lb k'(1) by (simp add: retry_count_def)
    ultimately show ?thesis by blast
  next
    case 2
    let ?k = "k\<lparr>kb_retry := 2 + kb_retry k, kb_lastbyte := 0xFF\<rparr>"
    have "clocking 7 1 (24 + 24 * (6 - min (Suc n) 6)) (pins (kb_line ?k))"
      by (rule clocking_less [of _ _ "24 * (6 - min n 6)"]) (use c 2 in simp_all)
    from KB_Send_clocking [OF this, of "0xFF"] obtain k' where k': "KB_Send 0xFF ?k = Some k'"
      "clocking 7 1 (24 * (6 - min (Suc n) 6)) (pins (kb_line k'))" "kb_retry k' = 2 + kb_retry k"
      "kb_lastbyte k' = 0xFF" "ops (kb_line k') = ops (kb_line k) @ frame_ops 0xFF" by auto
    have "min (Suc n - 4) 2 = Suc (min (n - 4) 2)" "min n 4 = 4" "min (Suc n) 4 = 4" using 2 by simp_all
    then have "retry_sent l (Suc n) = retry_sent l n @ [0xFF]"
      by (simp add: retry_sent_def replicate_append_same)
    moreover have "retry_count (Suc n) = retry_count n + 2" "retry_count n < 254"
      using 2 by (auto simp: retry_count_def)
    ultimately have "retried l os (Suc n) k'"
      using k' 2 u2 o by (simp add: retried_def)
    moreover have "kb_retry_command k = Some k'"
      using retry_cases(2) [of k] r 2 k'(1) by (cases "n = 4") (simp_all add: retry_count_def kb_send_last_def)
    ultimately show ?thesis by blast
  next
    case 3
    have "min (Suc n - 4) 2 = min (n - 4) 2" "min n 4 = 4" "min (Suc n) 4 = 4" using 3 by simp_all
    then have "retry_sent l (Suc n) = retry_sent l n" by (simp only: retry_sent_def)
    then have "retried l os (Suc n) (k\<lparr>kb_retry := 2 + kb_retry k\<rparr>)"
      using 3 u2 o lb c assms(2) by (simp add: retried_def retry_count_def)
    moreover have "kb_retry_command k = Some (k\<lparr>kb_retry := 2 + kb_retry k\<rparr>)"
      using retry_cases(3) [of k] r 3 assms(2) by (simp add: retry_count_def)
    ultimately show ?thesis by blast
  qed
qed

text \<open>Retransmission is bounded: when the keyboard answers every byte with a resend request (0xFE), the
  driver sends the last byte again four times, then resets the keyboard (0xFF) twice, and then
  stays silent, for up to 129 requests in a row (the counter is an 8-bit number that moves by two).
\<close>

theorem retry_is_bounded:
  assumes "kb_retry (fw_kb s) = 0" and "clocking 7 1 144 (pins (kb_line (fw_kb s)))" and "n \<le> 129"
  shows "\<exists>t. kb_filter_run (replicate n (KB_KeyPress 0xFE)) s = Some t \<and>
    kb_sent s t = map Some (replicate (min n 4) (kb_lastbyte (fw_kb s)) @ replicate (min (n - 4) 2) 0xFF)"
proof -
  let ?l = "kb_lastbyte (fw_kb s)" and ?os = "ops (kb_line (fw_kb s))"
  have "\<exists>t. kb_filter_run (replicate n (KB_KeyPress 0xFE)) s = Some t \<and> retried ?l ?os n (fw_kb t)"
    using assms(3)
  proof (induction n)
    case 0
    then show ?case using assms(1,2) by (simp add: retried_def retry_count_def retry_sent_def)
  next
    case (Suc n)
    then obtain t where t: "kb_filter_run (replicate n (KB_KeyPress 0xFE)) s = Some t"
      "retried ?l ?os n (fw_kb t)" by auto
    obtain k' where k': "kb_retry_command (fw_kb t) = Some k'" "retried ?l ?os (Suc n) k'"
      using retried_step [OF t(2)] Suc.prems by auto
    have "KB_KeyboardEventFilter (KB_KeyPress 0xFE) t = Some (t\<lparr>fw_kb := k'\<rparr>)"
      using k'(1) by (simp add: kb_no_report kb_commands_def kb_try_def)
    with t(1) k'(2) show ?case
      by (simp add: kb_filter_run_snoc flip: replicate_append_same)
  qed
  then show ?thesis
    using device_bytes_frames [of "retry_sent ?l n"]
    by (auto simp: retried_def kb_sent_def retry_sent_def)
qed

theorem retry_is_bounded_witness:
  "\<exists>t. kb_filter_run (replicate 7 (KB_KeyPress 0xFE))
      (fw_power_on\<lparr>fw_kb := kb_power_on\<lparr>kb_lastbyte := 0xED,
        kb_line := \<lparr>pins = clock_wave 0x82 0 2 1 144, ops = []\<rparr>\<rparr>\<rparr>) = Some t \<and>
    map the (device_bytes (ops (kb_line (fw_kb t)))) = [0xED, 0xED, 0xED, 0xED, 0xFF, 0xFF]"
proof -
  let ?s = "fw_power_on\<lparr>fw_kb := kb_power_on\<lparr>kb_lastbyte := 0xED,
        kb_line := \<lparr>pins = clock_wave 0x82 0 2 1 144, ops = []\<rparr>\<rparr>\<rparr>"
  have "clocking 7 1 144 (clock_wave 0x82 0 2 1 144)"
    by (rule wave_clocking) (simp_all add: bit_iff_odd drop_bit_eq_div)
  then obtain t where "kb_filter_run (replicate 7 (KB_KeyPress 0xFE)) ?s = Some t"
    "kb_sent ?s t = map Some (replicate (min 7 4) 0xED @ replicate (min (7 - 4) 2) 0xFF)"
    using retry_is_bounded [of ?s 7] by (auto simp: kb_power_on_def)
  then show ?thesis by (intro exI [of _ t]) (simp add: kb_sent_def kb_power_on_def numeral_eq_Suc)
qed

subsection \<open>The heartbeat\<close>

text \<open>The task of the main loop, \<open>n\<close> times.\<close>

fun kb_task_run :: "nat \<Rightarrow> firmware \<Rightarrow> firmware option" where
  "kb_task_run 0 s = Some s"
| "kb_task_run (Suc n) s = do { s \<leftarrow> KB_EventTask s; kb_task_run n s }"

lemma kb_task_run_add:
  "kb_task_run (m + n) s = Option.bind (kb_task_run m s) (kb_task_run n)"
  by (induction m arbitrary: s) (auto split: bind_splits)

lemma idle_get_scancode:
  "\<not> RING_HasElement (kb_ringbuffer k) \<Longrightarrow> KB_GetScancode k = (0, k\<lparr>kb_scancode := 0\<rparr>)"
  by (simp add: KB_GetScancode_def Let_def)

lemma idle_task:
  assumes "\<not> RING_HasElement (kb_ringbuffer (fw_kb s))" and "kb_led_delay (fw_kb s) \<noteq> 0"
  shows "KB_EventTask s = Some (s\<lparr>fw_kb := (fw_kb s)\<lparr>kb_scancode := 0,
    kb_led_delay := kb_led_delay (fw_kb s) - 1\<rparr>\<rparr>)"
  using assms by (simp add: KB_EventTask_def idle_get_scancode on_kb_def)

lemma idle_tasks:
  assumes "\<not> RING_HasElement (kb_ringbuffer (fw_kb s))" and "kb_scancode (fw_kb s) = 0"
    and "n \<le> unat (kb_led_delay (fw_kb s))"
  shows "kb_task_run n s = Some (s\<lparr>fw_kb := (fw_kb s)\<lparr>kb_led_delay := kb_led_delay (fw_kb s) - of_nat n\<rparr>\<rparr>)"
  using assms
proof (induction n arbitrary: s)
  case 0
  then show ?case by simp
next
  case (Suc n)
  have d: "kb_led_delay (fw_kb s) \<noteq> 0" using Suc.prems(3) by auto
  let ?t = "s\<lparr>fw_kb := (fw_kb s)\<lparr>kb_led_delay := kb_led_delay (fw_kb s) - 1\<rparr>\<rparr>"
  have "(fw_kb s)\<lparr>kb_scancode := 0\<rparr> = fw_kb s" using Suc.prems(2) by simp
  then have "KB_EventTask s = Some ?t" using idle_task [OF Suc.prems(1) d] by metis
  moreover have "unat (kb_led_delay (fw_kb s) - 1) = unat (kb_led_delay (fw_kb s)) - 1"
    using d by (simp add: unat_sub word_le_nat_alt Suc_le_eq unat_gt_0)
  then have "kb_task_run n ?t = Some (?t\<lparr>fw_kb := (fw_kb ?t)\<lparr>kb_led_delay := kb_led_delay (fw_kb ?t) - of_nat n\<rparr>\<rparr>)"
    using Suc.prems by (intro Suc.IH) simp_all
  ultimately show ?case by (simp add: diff_diff_eq add.commute)
qed

text \<open>The heartbeat: with an idle keyboard, the task only counts down its delay, and on the call after
  \<open>kb_led_delay\<close> calls it starts toggling the scroll lock light (it transmits exactly 0xED and
  expects the light bit 1) and reloads the delay with the current rhythm.
\<close>

theorem heartbeat:
  assumes "\<not> RING_HasElement (kb_ringbuffer (fw_kb s))" and "kb_scancode (fw_kb s) = 0"
    and "kb_led_keycode (fw_kb s) = KB_KeyPress 0x7E" and "clocking 7 1 24 (pins (kb_line (fw_kb s)))"
  shows "\<exists>t. kb_task_run (unat (kb_led_delay (fw_kb s)) + 1) s = Some t \<and> kb_sent s t = [Some 0xED] \<and>
    kb_cmd (fw_kb t) = 1 \<and> kb_led_delay (fw_kb t) = kb_led_dutycycle (fw_kb s) \<and>
    fw_js t = fw_js s \<and> fw_ms t = fw_ms s"
proof -
  define u where "u = s\<lparr>fw_kb := (fw_kb s)\<lparr>kb_led_delay := 0\<rparr>\<rparr>"
  have run: "kb_task_run (unat (kb_led_delay (fw_kb s))) s = Some u"
    using idle_tasks [OF assms(1,2), of "unat (kb_led_delay (fw_kb s))"] by (simp add: u_def)
  let ?k = "(fw_kb s)\<lparr>kb_scancode := 0, kb_led_delay := 0 - 1, kb_lastbyte := 0xED\<rparr>"
  obtain K where K: "KB_Send 0xED ?k = Some K" "ops (kb_line K) = ops (kb_line (fw_kb s)) @ frame_ops 0xED"
    "kb_led_dutycycle K = kb_led_dutycycle (fw_kb s)"
    using KB_Send_clocking [of 0 ?k "0xED"] assms(4) by auto
  have "KB_EventTask u = Some (u\<lparr>fw_kb := K\<lparr>kb_cmd := 1, kb_retry := 0, kb_led_delay := kb_led_dutycycle K\<rparr>\<rparr>)"
    using K(1) assms(1,3)
    by (simp add: KB_EventTask_def u_def idle_get_scancode on_kb_def kb_no_report kb_commands_def
        kb_try_def kb_lock_command_def kb_send_last_def)
  moreover have "kb_task_run (unat (kb_led_delay (fw_kb s)) + 1) s = KB_EventTask u"
    unfolding kb_task_run_add run by (cases "KB_EventTask u") simp_all
  ultimately show ?thesis
    using K(2,3) device_bytes_frames [of "[0xED]"] by (simp add: kb_sent_def u_def)
qed

theorem heartbeat_witness:
  "\<exists>t. kb_task_run 3 (fw_power_on\<lparr>fw_kb := kb_power_on\<lparr>kb_led_delay := 2, kb_led_dutycycle := 50000,
      kb_led_keycode := KB_KeyPress 0x7E, kb_line := \<lparr>pins = clock_wave 0x82 0 2 1 24, ops = []\<rparr>\<rparr>\<rparr>) = Some t \<and>
    device_bytes (ops (kb_line (fw_kb t))) = [Some 0xED] \<and> kb_led_delay (fw_kb t) = 50000"
proof -
  let ?s = "fw_power_on\<lparr>fw_kb := kb_power_on\<lparr>kb_led_delay := 2, kb_led_dutycycle := 50000,
      kb_led_keycode := KB_KeyPress 0x7E, kb_line := \<lparr>pins = clock_wave 0x82 0 2 1 24, ops = []\<rparr>\<rparr>\<rparr>"
  have "clocking 7 1 24 (clock_wave 0x82 0 2 1 24)"
    by (rule wave_clocking) (simp_all add: bit_iff_odd drop_bit_eq_div)
  then have "\<exists>t. kb_task_run (unat (kb_led_delay (fw_kb ?s)) + 1) ?s = Some t \<and> kb_sent ?s t = [Some 0xED] \<and>
    kb_cmd (fw_kb t) = 1 \<and> kb_led_delay (fw_kb t) = kb_led_dutycycle (fw_kb ?s) \<and>
    fw_js t = fw_js ?s \<and> fw_ms t = fw_ms ?s"
    by (intro heartbeat) (simp_all add: kb_power_on_def RING_HasElement_def)
  moreover have "unat (kb_led_delay (fw_kb ?s)) + 1 = 3" by simp
  ultimately show ?thesis by (auto simp only: kb_sent_def) (simp add: kb_power_on_def)
qed

end
