(* ===== verification/UsbDevice.thy ===== *)
theory UsbDevice
  imports UsbJoystick
begin

text \<open>
  \<open>ps-2/usb_joystick.c\<close>, the USB device side: the descriptor tables, the device interrupt
  (\<open>USB_GEN_vect\<close>) and the control endpoint interrupt (\<open>USB_COM_vect\<close>), one definition per
  request. The abstract contract of a descriptor transfer is \<open>packets\<close>: full 32-byte packets
  followed by one short, possibly empty, packet.
\<close>

section \<open>Descriptor data\<close>

definition LSB :: "nat \<Rightarrow> u8" where "LSB n = of_nat (n mod 256)"
definition MSB :: "nat \<Rightarrow> u8" where "MSB n = of_nat (n div 256 mod 256)"

definition VENDOR_ID :: nat where "VENDOR_ID = 1"
definition PRODUCT_ID :: nat where "PRODUCT_ID = 1"

definition endpoint_config_table :: "u8 list" where
  "endpoint_config_table =
     [0, 0, 1, EP_TYPE_INTERRUPT_IN, EP_SIZE JOYSTICK_SIZE OR EP_DOUBLE_BUFFER, 0]"

definition device_descriptor :: "u8 list" where
  "device_descriptor =
     [18, 1, 0x00, 0x02, 0, 0, 0, ENDPOINT0_SIZE, LSB VENDOR_ID, MSB VENDOR_ID,
      LSB PRODUCT_ID, MSB PRODUCT_ID, 0x00, 0x01, 1, 2, 0, 1]"

definition joystick_hid_report_desc :: "u8 list" where
  "joystick_hid_report_desc =
     [0x05, 0x01, 0x09, 0x04, 0xA1, 0x01, 0xA1, 0x02, 0x15, 0x00, 0x26, 0xFF, 0x00,
      0x35, 0x00, 0x46, 0xFF, 0x00, 0x75, 0x08, 0x95, 0x04, 0x09, 0x30, 0x09, 0x31,
      0x09, 0x32, 0x09, 0x35, 0x81, 0x02, 0x25, 0x07, 0x46, 0x3B, 0x01, 0x75, 0x04,
      0x95, 0x01, 0x65, 0x14, 0x09, 0x39, 0x81, 0x42, 0x65, 0x00, 0x25, 0x01, 0x45, 0x01,
      0x75, 0x01, 0x95, 0x0C, 0x05, 0x09, 0x19, 0x01, 0x29, 0x0C, 0x81, 0x02, 0xC0, 0xC0]"

definition CONFIG1_DESC_SIZE :: nat where "CONFIG1_DESC_SIZE = 9 + 9 + 9 + 7"
definition JOYSTICK_HID_DESC_OFFSET :: nat where "JOYSTICK_HID_DESC_OFFSET = 9 + 9"

definition config1_descriptor :: "u8 list" where
  "config1_descriptor =
     [9, 2, LSB CONFIG1_DESC_SIZE, MSB CONFIG1_DESC_SIZE, 1, 1, 0, 0xC0, 50,
      9, 4, ucast JOYSTICK_INTERFACE, 0, 1, 0x03, 0x01, 0x01, 0,
      9, 0x21, 0x11, 0x01, 0, 1, 0x22, of_nat (length joystick_hid_report_desc), 0,
      7, 5, JOYSTICK_ENDPOINT OR 0x80, 0x03, JOYSTICK_SIZE, 0, 1]"

text \<open>
  A string descriptor: \<open>wchar_t\<close> has 16 bits on the target, and \<open>sizeof\<close> of the literal counts
  its terminating zero, whose two bytes make up for the two bytes of the header.
\<close>

definition wide :: "string \<Rightarrow> u8 list" where
  "wide cs = concat (map (\<lambda>c. [of_char c, 0]) (cs @ [CHR 0x00]))"

definition STR_MANUFACTURER :: string where "STR_MANUFACTURER = ''Matlo''"
definition STR_PRODUCT :: string where
  "STR_PRODUCT = ''Mouse/Keyboard to PS3 Joystick adapter''"

definition sizeof_wide :: "string \<Rightarrow> u8" where
  "sizeof_wide cs = of_nat (length (wide cs))"

definition string0 :: "u8 list" where "string0 = [4, 3, 0x09, 0x04]"
definition string1 :: "u8 list" where
  "string1 = [sizeof_wide STR_MANUFACTURER, 3] @ wide STR_MANUFACTURER"
definition string2 :: "u8 list" where
  "string2 = [sizeof_wide STR_PRODUCT, 3] @ wide STR_PRODUCT"

text \<open>\<open>struct descriptor_list_struct\<close> and the table the host's requests are looked up in.\<close>

record descriptor_list_struct =
  dl_wValue :: u16
  dl_wIndex :: u16
  dl_addr :: "u8 list"
  dl_length :: u8

definition entry :: "u16 \<Rightarrow> u16 \<Rightarrow> u8 list \<Rightarrow> u8 \<Rightarrow> descriptor_list_struct" where
  "entry v i a n = \<lparr>dl_wValue = v, dl_wIndex = i, dl_addr = a, dl_length = n\<rparr>"

definition descriptor_list :: "descriptor_list_struct list" where
  "descriptor_list =
     [entry 0x0100 0x0000 device_descriptor (of_nat (length device_descriptor)),
      entry 0x0200 0x0000 config1_descriptor (of_nat (length config1_descriptor)),
      entry 0x2200 JOYSTICK_INTERFACE joystick_hid_report_desc
        (of_nat (length joystick_hid_report_desc)),
      entry 0x2100 JOYSTICK_INTERFACE (drop JOYSTICK_HID_DESC_OFFSET config1_descriptor) 9,
      entry 0x0300 0x0000 string0 4,
      entry 0x0301 0x0409 string1 (sizeof_wide STR_MANUFACTURER),
      entry 0x0302 0x0409 string2 (sizeof_wide STR_PRODUCT)]"

section \<open>Interrupts\<close>

text \<open>\<open>USB_GEN_vect\<close>: an end-of-reset event sets endpoint 0 up and forgets the configuration.\<close>

definition USB_GEN_vect :: "usb \<Rightarrow> usb option" where
  "USB_GEN_vect s = do {
     (intbits, s) \<leftarrow> rd s;
     let s = wr UDINT 0 s;
     if bit intbits EORSTI then
       (let s = wr UENUM 0 s;
            s = wr UECONX 1 s;
            s = wr UECFG0X EP_TYPE_CONTROL s;
            s = wr UECFG1X (EP_SIZE ENDPOINT0_SIZE OR EP_SINGLE_BUFFER) s;
            s = wr UEIENX 0x08 s
        in Some (s\<lparr>usb_configuration := 0\<rparr>))
     else Some s }"

lemma reads_wr [simp]: "reads (wr r x s) = reads s"
  by (simp add: wr_def)

lemma reads_fold_wr [simp]: "reads (fold (wr r) xs s) = reads s"
  by (induction xs arbitrary: s) simp_all

text \<open>\<open>usb_wait_in_ready\<close> and the wait of the descriptor loop: sample \<open>UEINTX\<close> for some bits.\<close>

function wait_ueintx :: "(u8 \<Rightarrow> bool) \<Rightarrow> usb \<Rightarrow> (u8 \<times> usb) option" where
  "wait_ueintx p s = do { (x, s) \<leftarrow> rd s; if p x then Some (x, s) else wait_ueintx p s }"
  by pat_completeness auto
termination
  by (relation "measure (\<lambda>(p, s). length (reads s))") (auto dest: rd_decreases)

declare wait_ueintx.simps [simp del]

lemma wait_ueintx_decreases:
  "wait_ueintx p s = Some (x, s') \<Longrightarrow> length (reads s') < length (reads s)"
proof (induction p s rule: wait_ueintx.induct)
  case (1 p s)
  from "1.prems" obtain y t where rd: "rd s = Some (y, t)"
    and "(if p y then Some (y, t) else wait_ueintx p t) = Some (x, s')"
    by (subst (asm) wait_ueintx.simps) (auto split: bind_splits)
  with "1.IH" [of "(y, t)" y t] rd_decreases [OF rd] show ?case
    by (auto split: if_splits)
qed

definition usb_wait_in_ready :: "usb \<Rightarrow> usb option" where
  "usb_wait_in_ready s = map_option snd (wait_ueintx (\<lambda>x. bit x TXINI) s)"

definition usb_send_in :: "usb \<Rightarrow> usb" where
  "usb_send_in s = wr UEINTX (NOT 1) s"

definition stall :: "usb \<Rightarrow> usb" where
  "stall s = wr UECONX 0x21 s"

text \<open>The search of the descriptor table.\<close>

fun find_descriptor :: "descriptor_list_struct list \<Rightarrow> u16 \<Rightarrow> u16 \<Rightarrow> descriptor_list_struct option" where
  "find_descriptor [] wValue wIndex = None"
| "find_descriptor (e # es) wValue wIndex =
     (if dl_wValue e \<noteq> wValue then find_descriptor es wValue wIndex
      else if dl_wIndex e \<noteq> wIndex then find_descriptor es wValue wIndex
      else Some e)"

text \<open>The packet loop of \<open>GET_DESCRIPTOR\<close>.\<close>

function send_descriptor :: "u8 list \<Rightarrow> u8 \<Rightarrow> usb \<Rightarrow> usb option" where
  "send_descriptor addr len s = do {
     (i, s) \<leftarrow> wait_ueintx (\<lambda>i. bit i TXINI \<or> bit i RXOUTI) s;
     if bit i RXOUTI then Some s
     else
       (let n = (if len < ENDPOINT0_SIZE then len else ENDPOINT0_SIZE);
            s = fold (wr UEDATX) (take (unat n) addr) s;
            len = len - n;
            s = usb_send_in s
        in if len \<noteq> 0 \<or> n = ENDPOINT0_SIZE then send_descriptor (drop (unat n) addr) len s
           else Some s) }"
  by pat_completeness auto
termination
proof (relation "measure (\<lambda>(a, n, s). length (reads s))", goal_cases)
  case 1
  show ?case by simp
next
  case (2 addr len s)
  then show ?case by (auto simp: usb_send_in_def dest: wait_ueintx_decreases)
qed

declare send_descriptor.simps [simp del]

section \<open>The control requests\<close>

record setup_packet =
  bmRequestType :: u8
  bRequest :: u8
  wValue :: u16
  wIndex :: u16
  wLength :: u16

text \<open>The eight bytes of a setup packet, the words low byte first.\<close>

definition rd16 :: "usb \<Rightarrow> (u16 \<times> usb) option" where
  "rd16 s = do {
     (lo, s) \<leftarrow> rd s;
     (hi, s) \<leftarrow> rd s;
     Some (ucast lo OR push_bit 8 (ucast hi), s) }"

definition read_setup :: "usb \<Rightarrow> (setup_packet \<times> usb) option" where
  "read_setup s = do {
     (t, s) \<leftarrow> rd s;
     (r, s) \<leftarrow> rd s;
     (v, s) \<leftarrow> rd16 s;
     (i, s) \<leftarrow> rd16 s;
     (n, s) \<leftarrow> rd16 s;
     Some (\<lparr>bmRequestType = t, bRequest = r, wValue = v, wIndex = i, wLength = n\<rparr>, s) }"

definition get_descriptor :: "setup_packet \<Rightarrow> usb \<Rightarrow> usb option" where
  "get_descriptor q s =
     (case find_descriptor descriptor_list (wValue q) (wIndex q) of
        None \<Rightarrow> Some (stall s)
      | Some e \<Rightarrow>
          let len = (if wLength q < 256 then ucast (wLength q) else 255);
              len = (if len > dl_length e then dl_length e else len)
          in send_descriptor (dl_addr e) len s)"

definition set_address :: "setup_packet \<Rightarrow> usb \<Rightarrow> usb option" where
  "set_address q s = do {
     s \<leftarrow> usb_wait_in_ready (usb_send_in s);
     Some (wr UDADDR (ucast (wValue q) OR 0x80) s) }"

text \<open>The walk over \<open>endpoint_config_table\<close>: three bytes for an enabled endpoint, one otherwise.\<close>

fun configure_endpoints :: "u8 list \<Rightarrow> u8 list \<Rightarrow> usb \<Rightarrow> usb" where
  "configure_endpoints [] cfg s = s"
| "configure_endpoints (i # is) cfg s =
     (let s = wr UENUM i s;
          en = cfg ! 0;
          s = wr UECONX en s
      in if en \<noteq> 0 then
           configure_endpoints is (drop 3 cfg) (wr UECFG1X (cfg ! 2) (wr UECFG0X (cfg ! 1) s))
         else configure_endpoints is (drop 1 cfg) s)"

definition set_configuration :: "setup_packet \<Rightarrow> usb \<Rightarrow> usb" where
  "set_configuration q s =
     (let s = usb_send_in (s\<lparr>usb_configuration := ucast (wValue q)\<rparr>);
          s = configure_endpoints [1, 2, 3, 4] endpoint_config_table s;
          s = wr UERST 0x1E s
      in wr UERST 0 s)"

definition get_configuration :: "usb \<Rightarrow> usb option" where
  "get_configuration s = do {
     s \<leftarrow> usb_wait_in_ready s;
     Some (usb_send_in (wr UEDATX (usb_configuration s) s)) }"

definition get_status :: "setup_packet \<Rightarrow> usb \<Rightarrow> usb option" where
  "get_status q s = do {
     s \<leftarrow> usb_wait_in_ready s;
     (i, s) \<leftarrow> (if bmRequestType q = 0x82 then do {
         let s = wr UENUM (ucast (wIndex q)) s;
         (c, s) \<leftarrow> rd s;
         let i = (if bit c STALLRQ then 1 else 0);
         Some (i, wr UENUM 0 s) }
       else Some (0, s));
     let s = wr UEDATX i s;
     let s = wr UEDATX 0 s;
     Some (usb_send_in s) }"

definition endpoint_halt :: "setup_packet \<Rightarrow> usb \<Rightarrow> usb" where
  "endpoint_halt q s =
     (let i = ucast (wIndex q) AND (0x7F :: u8);
          s = wr UENUM i (usb_send_in s)
      in if bRequest q = SET_FEATURE then wr UECONX 0x21 s
         else wr UERST 0 (wr UERST (push_bit (unat i) 1) (wr UECONX 0x19 s)))"

definition hid_request :: "setup_packet \<Rightarrow> usb \<Rightarrow> usb option" where
  "hid_request q s =
     (if wIndex q = JOYSTICK_INTERFACE then
        (if bmRequestType q = 0xA1 \<and> bRequest q = HID_GET_REPORT then do {
           s \<leftarrow> usb_wait_in_ready s;
           Some (usb_send_in (usb_send_codes s)) }
         else if bmRequestType q = 0xA1 \<and> bRequest q = HID_GET_PROTOCOL then do {
           s \<leftarrow> usb_wait_in_ready s;
           Some (usb_send_in (wr UEDATX (joystick_protocol s) s)) }
         else if bmRequestType q = 0x21 \<and> bRequest q = HID_SET_PROTOCOL then
           Some (usb_send_in (s\<lparr>joystick_protocol := ucast (wValue q)\<rparr>))
         else Some (stall s))
      else Some (stall s))"

definition control_request :: "setup_packet \<Rightarrow> usb \<Rightarrow> usb option" where
  "control_request q s =
     (if bRequest q = GET_DESCRIPTOR then get_descriptor q s
      else if bRequest q = SET_ADDRESS then set_address q s
      else if bRequest q = SET_CONFIGURATION \<and> bmRequestType q = 0 then Some (set_configuration q s)
      else if bRequest q = GET_CONFIGURATION \<and> bmRequestType q = 0x80 then get_configuration s
      else if bRequest q = GET_STATUS then get_status q s
      else if (bRequest q = CLEAR_FEATURE \<or> bRequest q = SET_FEATURE) \<and>
          bmRequestType q = 0x02 \<and> wValue q = 0 \<and>
          1 \<le> ucast (wIndex q) AND (0x7F :: u8) \<and> ucast (wIndex q) AND (0x7F :: u8) \<le> MAX_ENDPOINT
        then Some (endpoint_halt q s)
      else hid_request q s)"

definition USB_COM_vect :: "usb \<Rightarrow> usb option" where
  "USB_COM_vect s = do {
     let s = wr UENUM 0 s;
     (intbits, s) \<leftarrow> rd s;
     if bit intbits RXSTPI then do {
       (q, s) \<leftarrow> read_setup s;
       let s = wr UEINTX 0xF2 s;
       control_request q s }
     else Some (stall s) }"

section \<open>Facts about the operations\<close>

text \<open>A wait skips the samples that do not match.\<close>

lemma wait_ueintx_eq:
  "wait_ueintx p s = (case dropWhile (\<lambda>x. \<not> p x) (reads s) of
     [] \<Rightarrow> None | x # r \<Rightarrow> Some (x, s\<lparr>reads := r\<rparr>))"
proof (induction p s rule: wait_ueintx.induct)
  case (1 p s)
  show ?case
  proof (cases "reads s")
    case Nil
    then show ?thesis by (subst wait_ueintx.simps) (simp add: rd_def)
  next
    case (Cons x xs)
    then have rd: "rd s = Some (x, s\<lparr>reads := xs\<rparr>)" by (simp add: rd_def)
    show ?thesis
    proof (cases "p x")
      case True
      with rd Cons show ?thesis by (subst wait_ueintx.simps) simp
    next
      case False
      have "wait_ueintx p (s\<lparr>reads := xs\<rparr>) = (case dropWhile (\<lambda>x. \<not> p x) xs of
          [] \<Rightarrow> None | x # r \<Rightarrow> Some (x, s\<lparr>reads := r\<rparr>))"
        using "1.IH" [OF rd refl False] by (cases "dropWhile (\<lambda>x. \<not> p x) xs")
          (simp_all del: dropWhile_eq_Nil_conv)
      with rd Cons False show ?thesis by (subst wait_ueintx.simps) simp
    qed
  qed
qed

lemma wait_in_ready_eq:
  "usb_wait_in_ready s = (case dropWhile (\<lambda>x. \<not> bit x TXINI) (reads s) of
     [] \<Rightarrow> None | x # r \<Rightarrow> Some (s\<lparr>reads := r\<rparr>))"
  by (cases "dropWhile (\<lambda>x. \<not> bit x TXINI) (reads s)")
    (simp_all only: usb_wait_in_ready_def wait_ueintx_eq, simp_all)

lemma writes_fold_wr: "fold (wr r) xs s = s\<lparr>writes := writes s @ map (Pair r) xs\<rparr>"
  by (induction xs arbitrary: s) (simp_all add: wr_def)

subsection \<open>Descriptor transfers\<close>

definition transfer :: "u8 list list \<Rightarrow> (sfr \<times> u8) list" where
  "transfer ps = concat (map (\<lambda>p. map (Pair UEDATX) p @ [(UEINTX, NOT 1)]) ps)"

lemma filter_skipped:
  "(\<And>x. q x \<Longrightarrow> p x) \<Longrightarrow> filter q (dropWhile (\<lambda>x. \<not> p x) xs) = filter q xs"
  by (induction xs) auto

text \<open>
  The transfer ends, with exactly these packets, when the host never aborts (\<open>RXOUTI\<close>) and asks
  for as many packets as there are.
\<close>

lemma send_descriptor_packets:
  assumes "unat len \<le> length addr"
    and "\<forall>x \<in> set (reads s). \<not> bit x RXOUTI"
    and "length (packets 32 (take (unat len) addr)) \<le> length (filter (\<lambda>x. bit x TXINI) (reads s))"
  shows "\<exists>r. send_descriptor addr len s =
    Some (s\<lparr>reads := r, writes := writes s @ transfer (packets 32 (take (unat len) addr))\<rparr>)"
  using assms
proof (induction "unat len" arbitrary: addr len s rule: less_induct)
  case less
  let ?p = "\<lambda>i. bit i TXINI \<or> bit i RXOUTI"
  let ?f = "filter (\<lambda>x. bit x TXINI)"
  let ?d = "take (unat len) addr"
  define rest where "rest = dropWhile (\<lambda>x. \<not> ?p x) (reads s)"
  have sub: "set rest \<subseteq> set (reads s)" by (auto simp: rest_def dest: set_dropWhileD)
  have f: "?f (reads s) = ?f rest"
    unfolding rest_def by (rule filter_skipped [symmetric]) simp
  have "?f (reads s) \<noteq> []" using less.prems(3) packets_spec [of 32 ?d] by (cases "packets 32 ?d") auto
  with f obtain x r where dw: "rest = x # r" by (cases rest) auto
  have px: "?p x" using dw hd_dropWhile [of "\<lambda>x. \<not> ?p x" "reads s"] by (simp add: rest_def)
  with less.prems(2) sub dw have x: "bit x TXINI" "\<not> bit x RXOUTI" by auto
  have w: "wait_ueintx ?p s = Some (x, s\<lparr>reads := r\<rparr>)"
    using dw by (simp add: wait_ueintx_eq rest_def)
  define n where "n = (if len < 32 then len else 32)"
  define s1 where "s1 = usb_send_in (fold (wr UEDATX) (take (unat n) addr) (s\<lparr>reads := r\<rparr>))"
  have s1: "s1 = s\<lparr>reads := r,
      writes := writes s @ map (Pair UEDATX) (take (unat n) addr) @ [(UEINTX, NOT 1)]\<rparr>"
    by (simp add: s1_def usb_send_in_def writes_fold_wr wr_def)
  have eq: "send_descriptor addr len s =
      (if len - n \<noteq> 0 \<or> n = 32 then send_descriptor (drop (unat n) addr) (len - n) s1 else Some s1)"
    using w x by (subst send_descriptor.simps) (simp add: n_def s1_def Let_def)
  show ?case
  proof (cases "len < 32")
    case True
    then have "unat len < 32" by (simp add: word_less_nat_alt)
    then have "packets 32 ?d = [?d]" by (simp add: packets_short)
    moreover have "len \<noteq> 32" using True by auto
    ultimately show ?thesis using True eq s1 by (auto simp: n_def transfer_def)
  next
    case False
    then have l: "32 \<le> unat len" by (simp add: word_less_nat_alt)
    have n: "n = 32" using False by (simp add: n_def)
    have u: "unat (len - 32) = unat len - 32" using l by (simp add: unat_sub word_le_nat_alt)
    have d: "take (unat (len - 32)) (drop 32 addr) = drop 32 ?d"
      using u by (simp add: drop_take)
    have pk: "packets 32 ?d = take 32 ?d # packets 32 (drop 32 ?d)"
      using l less.prems(1) by (intro packets_long) simp_all
    have t: "take 32 ?d = take 32 addr" using l by (simp add: min_def)
    have "\<exists>q. send_descriptor (drop 32 addr) (len - 32) s1 = Some (s1\<lparr>reads := q,
      writes := writes s1 @ transfer (packets 32 (take (unat (len - 32)) (drop 32 addr)))\<rparr>)"
    proof (rule less.hyps)
      show "unat (len - 32) < unat len" using u l by simp
      show "unat (len - 32) \<le> length (drop 32 addr)" using u less.prems(1) by simp
      show "\<forall>x\<in>set (reads s1). \<not> bit x RXOUTI" using less.prems(2) sub dw s1 by auto
      show "length (packets 32 (take (unat (len - 32)) (drop 32 addr))) \<le> length (?f (reads s1))"
        using less.prems(3) f dw x s1 pk d by simp
    qed
    with eq n s1 d pk t show ?thesis by (auto simp: transfer_def)
  qed
qed

text \<open>Every entry of the table announces a length its data has.\<close>

lemma descriptor_list_lengths:
  "e \<in> set descriptor_list \<Longrightarrow> unat (dl_length e) \<le> length (dl_addr e)"
proof -
  have "\<forall>e \<in> set descriptor_list. unat (dl_length e) \<le> length (dl_addr e)"
    by code_simp
  then show "e \<in> set descriptor_list \<Longrightarrow> unat (dl_length e) \<le> length (dl_addr e)" by blast
qed

lemma find_descriptor_Some:
  "find_descriptor es v i = Some e \<Longrightarrow> e \<in> set es \<and> dl_wValue e = v \<and> dl_wIndex e = i"
  by (induction es) (auto split: if_splits)

lemma find_descriptor_None:
  "find_descriptor es v i = None \<longleftrightarrow> (\<forall>e \<in> set es. dl_wValue e \<noteq> v \<or> dl_wIndex e \<noteq> i)"
  by (induction es) auto

subsection \<open>Setup packets\<close>

definition setup_bytes :: "setup_packet \<Rightarrow> u8 list" where
  "setup_bytes q = [bmRequestType q, bRequest q, ucast (wValue q), ucast (drop_bit 8 (wValue q)),
     ucast (wIndex q), ucast (drop_bit 8 (wIndex q)),
     ucast (wLength q), ucast (drop_bit 8 (wLength q))]"

lemma join_bytes: "ucast (ucast w :: u8) OR push_bit 8 (ucast (ucast (drop_bit 8 w) :: u8)) = (w :: u16)"
  by (rule bit_eqI) (auto simp: bit_simps)

lemma read_setup_bytes:
  "reads s = setup_bytes q @ r \<Longrightarrow> read_setup s = Some (q, s\<lparr>reads := r\<rparr>)"
  by (simp add: read_setup_def rd16_def rd_def setup_bytes_def join_bytes)

lemma control_interrupt:
  assumes "reads s = x # setup_bytes q @ r" and "bit x RXSTPI"
  shows "USB_COM_vect s = control_request q
    (s\<lparr>reads := r, writes := writes s @ [(UENUM, 0), (UEINTX, 0xF2)]\<rparr>)"
  using assms read_setup_bytes [of "s\<lparr>writes := writes s @ [(UENUM, 0)], reads := setup_bytes q @ r\<rparr>" q r]
  by (simp add: USB_COM_vect_def wr_def rd_def)

section \<open>Properties\<close>

text \<open>C32:
  A GET_DESCRIPTOR request for any entry of the descriptor table, with any requested length, is
  answered completely when the host keeps asking and does not abort: the bytes written to the
  endpoint are exactly the first \<open>wLength\<close> bytes of the descriptor (or all of it when it is
  shorter), in packets of 32 bytes followed by one shorter packet, which is empty when the length
  is a multiple of 32; nothing else is written after the setup packet is acknowledged.
\<close>

theorem get_descriptor_transfer:
  assumes "reads s = x # setup_bytes q @ polls" and "bit x RXSTPI"
    and "bRequest q = GET_DESCRIPTOR"
    and "find_descriptor descriptor_list (wValue q) (wIndex q) = Some e"
    and "\<forall>p \<in> set polls. \<not> bit p RXOUTI"
    and "8 \<le> length (filter (\<lambda>p. bit p TXINI) polls)"
  shows "\<exists>r ps. USB_COM_vect s = Some (s\<lparr>reads := r,
      writes := writes s @ [(UENUM, 0), (UEINTX, 0xF2)] @ transfer ps\<rparr>) \<and>
    concat ps = take (unat (wLength q)) (take (unat (dl_length e)) (dl_addr e)) \<and>
    (\<forall>p \<in> set (butlast ps). length p = 32) \<and> length (last ps) < 32"
proof -
  note de = find_descriptor_Some [OF assms(4)]
  have dl: "unat (dl_length e) \<le> length (dl_addr e)" using descriptor_list_lengths de by blast
  define len :: u8 where "len = (if wLength q < 256 then ucast (wLength q) else 255)"
  define n where "n = (if len > dl_length e then dl_length e else len)"
  have l255: "unat len = min (unat (wLength q)) 255"
    by (auto simp: len_def unsigned_ucast_eq word_less_nat_alt take_bit_nat_eq_self)
  have d255: "unat (dl_length e) \<le> 255"
    using unsigned_less [where 'a = nat, of "dl_length e"] by simp
  have n: "unat n = min (unat (wLength q)) (unat (dl_length e))"
    using l255 d255 by (auto simp: n_def word_less_nat_alt)
  let ?s = "s\<lparr>reads := polls, writes := writes s @ [(UENUM, 0), (UEINTX, 0xF2)]\<rparr>"
  let ?d = "take (unat n) (dl_addr e)"
  have "length (packets 32 ?d) \<le> 8" using n d255 by (simp add: length_packets)
  with assms(5,6) n dl have "\<exists>r. send_descriptor (dl_addr e) n ?s =
      Some (?s\<lparr>reads := r, writes := writes ?s @ transfer (packets 32 ?d)\<rparr>)"
    by (intro send_descriptor_packets) simp_all
  moreover have "USB_COM_vect s = send_descriptor (dl_addr e) n ?s"
    using control_interrupt [OF assms(1,2)] assms(3,4)
    by (simp add: control_request_def get_descriptor_def n_def len_def Let_def)
  ultimately obtain r where r: "USB_COM_vect s = Some (s\<lparr>reads := r,
      writes := writes s @ [(UENUM, 0), (UEINTX, 0xF2)] @ transfer (packets 32 ?d)\<rparr>)"
    by auto
  have "?d = take (unat (wLength q)) (take (unat (dl_length e)) (dl_addr e))" using n by simp
  with packets_spec [of 32 ?d, simplified] r show ?thesis by metis
qed

theorem get_descriptor_transfer_witness:
  "\<exists>s' ps. USB_COM_vect \<lparr>usb_configuration = 0, joystick_buttons = 0, joystick_axis_x = 0,
      joystick_axis_y = 0, joystick_axis_z = 0, joystick_axis_rz = 0, joystick_protocol = 1,
      sreg_i = False, reads = [8, 0x80, 6, 0, 2, 0, 0, 255, 0] @ replicate 8 1, writes = []\<rparr> = Some s' \<and>
    writes s' = [(UENUM, 0), (UEINTX, 0xF2)] @ transfer ps \<and> concat ps = config1_descriptor"
proof -
  let ?q = "\<lparr>bmRequestType = 0x80, bRequest = 6, wValue = 0x0200, wIndex = 0, wLength = 255\<rparr>"
  let ?e = "entry 0x0200 0 config1_descriptor (of_nat (length config1_descriptor))"
  have f: "find_descriptor descriptor_list (wValue ?q) (wIndex ?q) = Some ?e"
    by (simp add: descriptor_list_def entry_def)
  have b: "setup_bytes ?q = [0x80, 6, 0, 2, 0, 0, 255, 0]"
    by (simp add: setup_bytes_def drop_bit_eq_div)
  have p: "bit (8::u8) 3" "\<not> bit (1::u8) 2" by (simp_all add: bit_iff_odd)
  have "length config1_descriptor = 34" by (simp add: config1_descriptor_def)
  then have l: "take (unat (wLength ?q)) (take (unat (dl_length ?e)) (dl_addr ?e)) = config1_descriptor"
    by (simp add: entry_def)
  let ?s = "\<lparr>usb_configuration = 0, joystick_buttons = 0, joystick_axis_x = 0,
      joystick_axis_y = 0, joystick_axis_z = 0, joystick_axis_rz = 0, joystick_protocol = 1,
      sreg_i = False, reads = [8, 0x80, 6, 0, 2, 0, 0, 255, 0] @ replicate 8 1, writes = []\<rparr>"
  have "\<exists>r ps. USB_COM_vect ?s = Some (?s\<lparr>reads := r,
      writes := writes ?s @ [(UENUM, 0), (UEINTX, 0xF2)] @ transfer ps\<rparr>) \<and>
    concat ps = take (unat (wLength ?q)) (take (unat (dl_length ?e)) (dl_addr ?e)) \<and>
    (\<forall>p \<in> set (butlast ps). length p = 32) \<and> length (last ps) < 32"
    by (rule get_descriptor_transfer [where x = 8 and polls = "replicate 8 1", OF _ p(1) _ f])
      (use p(2) in \<open>simp_all only: b, simp_all add: bit_0\<close>)
  then show ?thesis using l by auto
qed

end
