(* ===== verification/UsbEnumeration.thy ===== *)
theory UsbEnumeration
  imports UsbDevice
begin

text \<open>
  What a USB host sees of \<open>ps-2/usb_joystick.c\<close>: the configuration and its endpoints, the stall of
  unknown requests, the effect of a bus reset on sending, and the consistency of the descriptors
  with the report the firmware sends. The registers of the endpoints are read off the trace of
  register writes.
\<close>

section \<open>Endpoint registers\<close>

record ep_regs =
  ep_conx :: u8
  ep_cfg0 :: u8
  ep_cfg1 :: u8

text \<open>\<open>UENUM\<close> selects the endpoint the following register writes go to.\<close>

fun ep_writes :: "(sfr \<times> u8) list \<Rightarrow> u8 \<times> (u8 \<Rightarrow> ep_regs) \<Rightarrow> u8 \<times> (u8 \<Rightarrow> ep_regs)" where
  "ep_writes [] q = q"
| "ep_writes ((r, x) # ws) (n, e) =
     ep_writes ws
       (if r = UENUM then (x, e)
        else if r = UECONX then (n, e(n := (e n)\<lparr>ep_conx := x\<rparr>))
        else if r = UECFG0X then (n, e(n := (e n)\<lparr>ep_cfg0 := x\<rparr>))
        else if r = UECFG1X then (n, e(n := (e n)\<lparr>ep_cfg1 := x\<rparr>))
        else (n, e))"

definition endpoints :: "usb \<Rightarrow> (u8 \<Rightarrow> ep_regs) \<Rightarrow> u8 \<Rightarrow> ep_regs" where
  "endpoints s e = snd (ep_writes (writes s) (0, e))"

lemma ep_writes_append: "ep_writes (ws @ vs) q = ep_writes vs (ep_writes ws q)"
  by (induction ws q rule: ep_writes.induct) auto

text \<open>A control request that comes in a setup packet while the host polls with \<open>r\<close> afterwards.\<close>

definition control_transfer :: "setup_packet \<Rightarrow> u8 list \<Rightarrow> usb \<Rightarrow> usb option" where
  "control_transfer q polls s = USB_COM_vect (s\<lparr>reads := 8 # setup_bytes q @ polls\<rparr>)"

lemma control_transfer_eq:
  "control_transfer q polls s =
     control_request q (s\<lparr>reads := polls, writes := writes s @ [(UENUM, 0), (UEINTX, 0xF2)]\<rparr>)"
proof -
  have "bit (8::u8) 3" by (simp add: bit_iff_odd)
  then show ?thesis
    using control_interrupt [of "s\<lparr>reads := 8 # setup_bytes q @ polls\<rparr>" 8 q polls]
    by (simp add: control_transfer_def)
qed

definition set_configuration_request :: "u8 \<Rightarrow> setup_packet" where
  "set_configuration_request c = \<lparr>bmRequestType = 0, bRequest = 9, wValue = ucast c, wIndex = 0, wLength = 0\<rparr>"

definition get_configuration_request :: setup_packet where
  "get_configuration_request = \<lparr>bmRequestType = 0x80, bRequest = 8, wValue = 0, wIndex = 0, wLength = 1\<rparr>"

lemma byte_word_byte: "ucast (ucast (c::u8) :: u16) = c"
  by (rule bit_eqI) (auto simp: bit_simps)

lemma set_configuration_writes:
  "control_transfer (set_configuration_request c) polls s = Some (s\<lparr>reads := polls, usb_configuration := c,
     writes := writes s @ [(UENUM, 0), (UEINTX, 0xF2), (UEINTX, NOT 1),
       (UENUM, 1), (UECONX, 0), (UENUM, 2), (UECONX, 0),
       (UENUM, 3), (UECONX, 1), (UECFG0X, 0xC1), (UECFG1X, 6),
       (UENUM, 4), (UECONX, 0), (UERST, 0x1E), (UERST, 0)]\<rparr>)"
  by (simp add: control_transfer_eq set_configuration_request_def control_request_def
      set_configuration_def Let_def usb_send_in_def wr_def endpoint_config_table_def EP_SIZE_def
      byte_word_byte)

text \<open>Configuring the device: SET_CONFIGURATION with any value leaves exactly endpoint 3 enabled among
  the endpoints 1 to 4, as an interrupt IN endpoint with two banks of 8 bytes, and the value is
  what a following GET_CONFIGURATION returns in a one-byte packet; the report is not changed.
\<close>

theorem configuration_roundtrip:
  assumes "\<exists>p \<in> set polls. bit p TXINI"
  shows "\<exists>t r. control_transfer (set_configuration_request c) [] s = Some t \<and>
    control_transfer get_configuration_request polls t =
      Some (t\<lparr>reads := r, writes := writes t @ [(UENUM, 0), (UEINTX, 0xF2), (UEDATX, c), (UEINTX, NOT 1)]\<rparr>) \<and>
    usb_configuration t = c \<and> report t = report s \<and>
    (\<forall>n \<in> {1, 2, 4}. ep_conx (endpoints t e n) = 0) \<and>
    endpoints t e 3 = \<lparr>ep_conx = 1, ep_cfg0 = 0xC1, ep_cfg1 = 0x06\<rparr>"
proof -
  obtain t where t: "control_transfer (set_configuration_request c) [] s = Some t"
    "t = s\<lparr>reads := [], usb_configuration := c,
     writes := writes s @ [(UENUM, 0), (UEINTX, 0xF2), (UEINTX, NOT 1),
       (UENUM, 1), (UECONX, 0), (UENUM, 2), (UECONX, 0),
       (UENUM, 3), (UECONX, 1), (UECFG0X, 0xC1), (UECFG1X, 6),
       (UENUM, 4), (UECONX, 0), (UERST, 0x1E), (UERST, 0)]\<rparr>"
    using set_configuration_writes by blast
  obtain n q where nq: "ep_writes (writes s) (0, e) = (n, q)" by fastforce
  have "\<forall>n \<in> {1, 2, 4}. ep_conx (endpoints t e n) = 0"
    "endpoints t e 3 = \<lparr>ep_conx = 1, ep_cfg0 = 0xC1, ep_cfg1 = 0x06\<rparr>"
    by (simp_all add: endpoints_def t(2) ep_writes_append nq)
  moreover obtain x r where "dropWhile (\<lambda>x. \<not> bit x TXINI) polls = x # r"
    using assms by (cases "dropWhile (\<lambda>x. \<not> bit x TXINI) polls") (auto simp: dropWhile_eq_Nil_conv)
  then have "control_transfer get_configuration_request polls t =
      Some (t\<lparr>reads := r, writes := writes t @ [(UENUM, 0), (UEINTX, 0xF2), (UEDATX, c), (UEINTX, NOT 1)]\<rparr>)"
    by (simp add: control_transfer_eq get_configuration_request_def control_request_def
        get_configuration_def wait_in_ready_eq usb_send_in_def wr_def t(2))
  ultimately show ?thesis using t by (auto simp: report_def)
qed

theorem configuration_roundtrip_witness:
  "\<exists>t v. control_transfer (set_configuration_request 1) [] (idle_usb 0 []) = Some t \<and>
    control_transfer get_configuration_request [0, 1] t = Some v \<and>
    (UEDATX, 1) \<in> set (writes v) \<and> ep_conx (endpoints t (\<lambda>n. \<lparr>ep_conx = 9, ep_cfg0 = 9, ep_cfg1 = 9\<rparr>) 3) = 1"
  using configuration_roundtrip [of "[0, 1]" 1 "idle_usb 0 []" "\<lambda>n. \<lparr>ep_conx = 9, ep_cfg0 = 9, ep_cfg1 = 9\<rparr>"]
  by fastforce

section \<open>Unknown requests\<close>

text \<open>The requests the device supports, as (request type, request) with their conditions.\<close>

definition supported :: "setup_packet \<Rightarrow> bool" where
  "supported q \<longleftrightarrow>
     bRequest q = GET_DESCRIPTOR \<and> (wValue q, wIndex q) \<in> set (map (\<lambda>e. (dl_wValue e, dl_wIndex e)) descriptor_list) \<or>
     bRequest q \<in> {SET_ADDRESS, GET_STATUS} \<or>
     (bmRequestType q, bRequest q) \<in> {(0, SET_CONFIGURATION), (0x80, GET_CONFIGURATION)} \<or>
     (bmRequestType q, bRequest q) \<in> {(2, CLEAR_FEATURE), (2, SET_FEATURE)} \<and> wValue q = 0 \<and>
       ucast (wIndex q) AND (0x7F :: u8) \<in> {1, 2, 3, 4} \<or>
     (bmRequestType q, bRequest q) \<in> {(0xA1, HID_GET_REPORT), (0xA1, HID_GET_PROTOCOL), (0x21, HID_SET_PROTOCOL)} \<and>
       wIndex q = 0"

lemma between_1_4: "1 \<le> (i::u8) \<and> i \<le> 4 \<longleftrightarrow> i \<in> {1, 2, 3, 4}"
proof
  assume a: "1 \<le> i \<and> i \<le> 4"
  then have "1 \<le> unat i" "unat i \<le> 4" by (simp_all add: word_le_nat_alt)
  then have "unat i \<in> {1, 2, 3, 4}" by auto
  then show "i \<in> {1, 2, 3, 4}" by (auto simp: word_unat_eq_iff)
qed (auto simp: word_le_nat_alt)

text \<open>A control request that is none of the supported ones is answered by stalling endpoint 0: after
  the acknowledgement of the setup packet the only register written is the stall request, and
  neither the configuration, the protocol, nor the report changes.
\<close>

theorem unknown_request_stalls:
  assumes "\<not> supported q"
  shows "control_transfer q polls s =
    Some (s\<lparr>reads := polls, writes := writes s @ [(UENUM, 0), (UEINTX, 0xF2), (UECONX, 0x21)]\<rparr>)"
proof (cases "bRequest q = GET_DESCRIPTOR")
  case True
  with assms have "find_descriptor descriptor_list (wValue q) (wIndex q) = None"
    by (fastforce simp: find_descriptor_None supported_def image_iff)
  with True show ?thesis
    by (simp add: control_transfer_eq control_request_def get_descriptor_def stall_def wr_def)
next
  case False
  let ?i = "ucast (wIndex q) AND (0x7F :: u8)"
  let ?t = "s\<lparr>reads := polls, writes := writes s @ [(UENUM, 0), (UEINTX, 0xF2)]\<rparr>"
  have h: "\<not> ((bRequest q = CLEAR_FEATURE \<or> bRequest q = SET_FEATURE) \<and>
      bmRequestType q = 0x02 \<and> wValue q = 0 \<and> 1 \<le> ?i \<and> ?i \<le> MAX_ENDPOINT)"
    using assms between_1_4 [of ?i] by (auto simp: supported_def)
  have "control_request q ?t = hid_request q ?t"
    unfolding control_request_def if_not_P [OF h] using False assms by (auto simp: supported_def)
  moreover have "hid_request q ?t = Some (stall ?t)"
    using assms by (auto simp: hid_request_def supported_def)
  ultimately show ?thesis by (simp add: control_transfer_eq stall_def wr_def)
qed

theorem unknown_request_stalls_witness:
  "control_transfer \<lparr>bmRequestType = 0x21, bRequest = 10, wValue = 0, wIndex = 0, wLength = 0\<rparr> [] (idle_usb 1 []) =
    Some ((idle_usb 1 [])\<lparr>reads := [], writes := [(UENUM, 0), (UEINTX, 0xF2), (UECONX, 0x21)]\<rparr>)"
  using unknown_request_stalls [of "\<lparr>bmRequestType = 0x21, bRequest = 10, wValue = 0, wIndex = 0, wLength = 0\<rparr>"
      "[]" "idle_usb 1 []"]
  by (simp add: supported_def idle_usb_def)

section \<open>Bus reset\<close>

text \<open>After a bus reset nothing is sent: the device interrupt with the end-of-reset bit clears the
  configuration and sets endpoint 0 up as a 32-byte control endpoint with the setup interrupt, so
  that \<open>usb_joystick_send\<close> returns -1 without touching the controller, until the host selects a
  configuration again.
\<close>

theorem reset_stops_sending:
  assumes "reads s = x # r" and "bit x EORSTI"
  shows "\<exists>t. USB_GEN_vect s = Some t \<and> usb_configuration t = 0 \<and> usb_joystick_send t = Some (-1, t) \<and>
    ep_conx (endpoints t e 0) = 1 \<and> ep_cfg0 (endpoints t e 0) = EP_TYPE_CONTROL \<and>
    ep_cfg1 (endpoints t e 0) = 0x22 \<and> report t = report s"
proof -
  obtain n q where nq: "ep_writes (writes s) (0, e) = (n, q)" by fastforce
  define t where "t = s\<lparr>reads := r, writes := writes s @ [(UDINT, 0), (UENUM, 0), (UECONX, 1),
      (UECFG0X, 0), (UECFG1X, 0x22), (UEIENX, 8)], usb_configuration := 0\<rparr>"
  have "USB_GEN_vect s = Some t"
    using assms by (simp add: USB_GEN_vect_def rd_def wr_def EP_SIZE_def t_def)
  moreover have "endpoints t e 0 = (q 0)\<lparr>ep_conx := 1, ep_cfg0 := 0, ep_cfg1 := 0x22\<rparr>"
    by (simp add: endpoints_def t_def ep_writes_append nq)
  moreover have "usb_joystick_send t = Some (-1, t)" "usb_configuration t = 0" "report t = report s"
    by (simp_all add: usb_joystick_send_def t_def report_def)
  ultimately show ?thesis by simp
qed

theorem reset_stops_sending_witness:
  "\<exists>t. USB_GEN_vect (idle_usb 1 [8]) = Some t \<and> usb_joystick_send t = Some (-1, t)"
proof -
  have "bit (8::u8) 3" by (simp add: bit_iff_odd)
  then show ?thesis using reset_stops_sending [of "idle_usb 1 [8]" 8 "[]"] by (auto simp: idle_usb_def)
qed

section \<open>The descriptors\<close>

text \<open>The chain of descriptors in a configuration: each starts with its length.\<close>

fun descriptor_chain :: "nat \<Rightarrow> u8 list \<Rightarrow> (u8 \<times> u8 list) list option" where
  "descriptor_chain n [] = Some []"
| "descriptor_chain 0 (l # bs) = None"
| "descriptor_chain (Suc n) (l # bs) =
     (if unat l < 2 \<or> length bs < unat l - 1 then None
      else map_option ((#) (hd bs, take (unat l) (l # bs))) (descriptor_chain n (drop (unat l - 1) bs)))"

text \<open>
  Short items of a report descriptor (HID 1.11, section 6.2.2): the low two bits of the prefix are
  the size (3 stands for 4), the other bits the tag and type. The state is the report size and
  report count in force; an input item adds size times count bits.
\<close>

fun input_bits :: "nat \<Rightarrow> nat \<times> nat \<Rightarrow> u8 list \<Rightarrow> nat list option" where
  "input_bits n q [] = Some []"
| "input_bits 0 q (p # bs) = None"
| "input_bits (Suc n) (rsize, rcount) (p # bs) =
     (let len = (if p AND 3 = 3 then 4 else unat (p AND 3)); v = (if len = 0 then 0 else unat (hd bs));
          tag = p AND 0xFC
      in if length bs < len then None
         else if tag = 0x74 then input_bits n (v, rcount) (drop len bs)
         else if tag = 0x94 then input_bits n (rsize, v) (drop len bs)
         else if tag = 0x80 then map_option ((#) (rsize * rcount)) (input_bits n (rsize, rcount) (drop len bs))
         else input_bits n (rsize, rcount) (drop len bs))"

text \<open>The descriptors agree with each other and with the report: the configuration descriptor is a
  chain of exactly four descriptors (configuration, interface, HID, endpoint) whose lengths add up
  to its announced total length; the HID descriptor announces the length of the report descriptor;
  the endpoint descriptor names endpoint 3, direction IN; and the report descriptor declares input
  fields of 32, 4 and 12 bits, which is exactly the size of the report the firmware sends.
\<close>

theorem descriptors_consistent:
  "map_option (map fst) (descriptor_chain 10 config1_descriptor) = Some [2, 4, 0x21, 5] \<and>
   unat (config1_descriptor ! 2) + 256 * unat (config1_descriptor ! 3) = length config1_descriptor \<and>
   unat (config1_descriptor ! 25) = length joystick_hid_report_desc \<and>
   config1_descriptor ! 29 = 0x83 \<and>
   input_bits 100 (0, 0) joystick_hid_report_desc = Some [32, 4, 12] \<and>
   32 + 4 + 12 = 8 * length (report s)"
proof -
  have "map_option (map fst) (descriptor_chain 10 config1_descriptor) = Some [2, 4, 0x21, 5]" by code_simp
  moreover have "unat (config1_descriptor ! 2) + 256 * unat (config1_descriptor ! 3) = length config1_descriptor"
    by code_simp
  moreover have "unat (config1_descriptor ! 25) = length joystick_hid_report_desc" by code_simp
  moreover have "config1_descriptor ! 29 = 0x83" by code_simp
  moreover have "input_bits 100 (0, 0) joystick_hid_report_desc = Some [32, 4, 12]" by code_simp
  ultimately show ?thesis by (simp add: report_def)
qed

end
