(* ===== verification/PS3Controller.thy ===== *)
theory PS3Controller
  imports MouseStartup KeyboardEvents UsbEnumeration
begin

text \<open>
  \<open>ps-2/PS3Controller.c\<close>: the initialisation sequence of \<open>main\<close>, and the running firmware as a step
  relation. A step is a task of the main loop, an interrupt handler, or an event of the outside
  world (a clock edge, new samples for the waiting loops and registers). Interrupts are taken
  between tasks; inside a task the ring buffer operations, the only data a task and an interrupt
  share besides single bytes, are atomic in the code (\<open>ATOMIC_BLOCK\<close>).
\<close>

section \<open>Initialisation\<close>

record board =
  bd_fw :: firmware
  bd_mcusr :: u8
  bd_wdt :: bool          \<comment> \<open>the watchdog runs\<close>
  bd_clkpr :: u8
  bd_led_out :: bool      \<comment> \<open>the pin of the LED is an output\<close>
  bd_led :: bool

text \<open>\<open>while (!usb_configured()) ;\<close>, which samples the volatile \<open>usb_configuration\<close>.\<close>

fun wait_configured :: "u8 list \<Rightarrow> (u8 \<times> u8 list) option" where
  "wait_configured [] = None"
| "wait_configured (c # cs) = (if c \<noteq> 0 then Some (c, cs) else wait_configured cs)"

definition usb_wait_configured :: "usb \<Rightarrow> usb option" where
  "usb_wait_configured j = map_option (\<lambda>(c, r). j\<lparr>usb_configuration := c, reads := r\<rparr>)
     (wait_configured (reads j))"

definition js_try :: "(usb \<Rightarrow> usb option) \<Rightarrow> firmware \<Rightarrow> firmware option" where
  "js_try f s = map_option (\<lambda>j. s\<lparr>fw_js := j\<rparr>) (f (fw_js s))"

definition main_init :: "board \<Rightarrow> board option" where
  "main_init b = do {
     let b = b\<lparr>bd_mcusr := bd_mcusr b AND NOT (push_bit 3 1)\<rparr>;
     let b = b\<lparr>bd_wdt := False\<rparr>;
     let b = b\<lparr>bd_clkpr := 0\<rparr>;
     let b = b\<lparr>bd_led_out := True\<rparr>;
     let b = b\<lparr>bd_led := True\<rparr>;
     let s = on_kb KB_Init (bd_fw b);
     let s = on_ms MS_Init s;
     let s = on_js usb_joystick_raz s;
     let s = on_js (\<lambda>j. j\<lparr>sreg_i := True\<rparr>) s;
     s \<leftarrow> js_try usb_init s;
     s \<leftarrow> js_try usb_wait_configured s;
     let b = b\<lparr>bd_led := False\<rparr>;
     s \<leftarrow> js_send s;
     s \<leftarrow> ms_try MS_MouseReset s;
     Some (b\<lparr>bd_fw := s\<rparr>) }"

section \<open>The running firmware\<close>

datatype fw_event =
    KbEdge | MsEdge                      \<comment> \<open>a falling edge on a clock line\<close>
  | KbIrq u8 | MsIrq u8                  \<comment> \<open>a clock interrupt, with its sample of port E\<close>
  | TimerIrq | UsbGenIrq | UsbComIrq
  | KbTask | MsTask
  | Samples "u8 list" "u8 list" "u8 list"  \<comment> \<open>coming samples: keyboard line, mouse line, USB\<close>

inductive fw_step :: "firmware \<Rightarrow> fw_event \<Rightarrow> firmware \<Rightarrow> bool" where
  kb_edge: "kb_falling (fw_kb s) \<Longrightarrow> fw_step s KbEdge (on_kb (\<lambda>k. k\<lparr>kb_intf := True\<rparr>) s)"
| ms_edge: "ms_falling (fw_ms s) \<Longrightarrow> fw_step s MsEdge (on_ms (\<lambda>m. m\<lparr>ms_intf := True\<rparr>) s)"
| kb_irq: "sreg_i (fw_js s) \<Longrightarrow> kb_irq (fw_kb s) \<Longrightarrow> kb_intf (fw_kb s) \<Longrightarrow>
    kb_try (KB_ClockInterrupt pin) (on_kb (\<lambda>k. k\<lparr>kb_intf := False\<rparr>) s) = Some t \<Longrightarrow>
    fw_step s (KbIrq pin) t"
| ms_irq: "sreg_i (fw_js s) \<Longrightarrow> ms_irq (fw_ms s) \<Longrightarrow> ms_intf (fw_ms s) \<Longrightarrow>
    ms_try (MS_ClockInterrupt pin) (on_ms (\<lambda>m. m\<lparr>ms_intf := False\<rparr>) s) = Some t \<Longrightarrow>
    fw_step s (MsIrq pin) t"
| timer: "sreg_i (fw_js s) \<Longrightarrow> ms_timer_irq (fw_ms s) \<Longrightarrow>
    fw_step s TimerIrq (on_ms MS_TimerInterrupt s)"
| usb_gen: "sreg_i (fw_js s) \<Longrightarrow> js_try USB_GEN_vect s = Some t \<Longrightarrow> fw_step s UsbGenIrq t"
| usb_com: "sreg_i (fw_js s) \<Longrightarrow> js_try USB_COM_vect s = Some t \<Longrightarrow> fw_step s UsbComIrq t"
| kb_task: "KB_EventTask s = Some t \<Longrightarrow> fw_step s KbTask t"
| ms_task: "MS_EventTask s = Some t \<Longrightarrow> fw_step s MsTask t"
| samples: "fw_step s (Samples ks ms us)
    (s\<lparr>fw_kb := (fw_kb s)\<lparr>kb_line := (kb_line (fw_kb s))\<lparr>pins := ks\<rparr>\<rparr>,
       fw_ms := (fw_ms s)\<lparr>ms_line := (ms_line (fw_ms s))\<lparr>pins := ms\<rparr>\<rparr>,
       fw_js := (fw_js s)\<lparr>reads := us\<rparr>\<rparr>)"

inductive_cases fw_step_cases: "fw_step s e t"
inductive_simps kb_irq_simp: "fw_step s (KbIrq pin) t"
inductive_simps ms_irq_simp: "fw_step s (MsIrq pin) t"

text \<open>The static arrays have the sizes of the C code, and the other statics start as zero.\<close>

definition static_memory :: "firmware \<Rightarrow> bool" where
  "static_memory s \<longleftrightarrow> length (rb_data (kb_ringbuffer (fw_kb s))) = 8 \<and>
     length (rb_data (drv_ringbuffer (fw_ms s))) = 2 \<and> length (pk_bytes (fw_ms s)) = 4 \<and>
     \<not> dsp_left (fw_ms s) \<and> \<not> dsp_right (fw_ms s)"

inductive fw_reach :: "firmware \<Rightarrow> bool" where
  start: "static_memory (bd_fw b) \<Longrightarrow> main_init b = Some b' \<Longrightarrow> fw_reach (bd_fw b')"
| step: "fw_reach s \<Longrightarrow> fw_step s e t \<Longrightarrow> fw_reach t"

section \<open>The invariant\<close>

definition kb_ok :: "keyboard \<Rightarrow> bool" where
  "kb_ok k \<longleftrightarrow> ring_ok (kb_ringbuffer k) \<and> rb_size (kb_ringbuffer k) = 8 \<and>
     1 \<le> kb_bit_n k \<and> kb_bit_n k \<le> 11 \<and> kb_e0_f0 k \<in> {0, 1, 2, 3}"

definition flt_state_ok :: "u8 \<Rightarrow> bool" where
  "flt_state_ok st \<longleftrightarrow> (unat st \<le> 52 \<and> even (unat st)) \<or> st = 0xFF"

definition ms_ok :: "mouse \<Rightarrow> bool" where
  "ms_ok m \<longleftrightarrow> ring_ok (drv_ringbuffer m) \<and> rb_size (drv_ringbuffer m) = 2 \<and>
     1 \<le> drv_bit_n m \<and> drv_bit_n m \<le> 11 \<and>
     flt_size m = 52 \<and> flt_table m = ms_state_table \<and> flt_state_ok (flt_state m) \<and> flt_retry m \<le> 5 \<and>
     pk_size m \<le> 3 \<and> length (pk_bytes m) = 4 \<and>
     trg_timeout m = 15 \<and> trg_timer m \<le> 15 \<and> trg_action m \<le> 1"

definition hat :: "usb \<Rightarrow> u16" where
  "hat j = take_bit 4 (joystick_buttons j)"

definition hat_ok :: "usb \<Rightarrow> bool" where
  "hat_ok j \<longleftrightarrow> hat j \<in> {0, 2, 4, 6, 8}"

definition fw_ok :: "firmware \<Rightarrow> bool" where
  "fw_ok s \<longleftrightarrow> kb_ok (fw_kb s) \<and> ms_ok (fw_ms s) \<and> hat_ok (fw_js s) \<and> buttons_agree s"

subsection \<open>The keyboard\<close>

lemma step_range: "2 \<le> (n::u8) \<Longrightarrow> n \<le> 9 \<Longrightarrow> 1 \<le> n + 1 \<and> n + 1 \<le> 11"
  "(n::u8) = 10 \<Longrightarrow> 1 \<le> n + 1 \<and> n + 1 \<le> 11"
proof -
  assume "2 \<le> n" "n \<le> 9"
  then have "unat (n + 1) = Suc (unat n)"
    by (intro unat_inc [of _ 255]) (simp add: word_le_nat_alt word_less_nat_alt)
  with \<open>n \<le> 9\<close> show "1 \<le> n + 1 \<and> n + 1 \<le> 11" by (simp add: word_le_nat_alt)
qed simp

lemma KB_Send_frame:
  assumes "KB_Send b k = Some k'"
  shows "kb_ringbuffer k' = kb_ringbuffer k" "kb_bit_n k' = 1" "kb_e0_f0 k' = kb_e0_f0 k"
  using assms by (auto simp: KB_Send_def split: bind_splits)

lemma ring_put_ok: "ring_ok r \<Longrightarrow> ring_ok (ring_put x r) \<and> rb_size (ring_put x r) = rb_size r"
  by (cases "rb_elements r < rb_size r") (simp_all add: ring_put_room ring_put_full)

lemma kb_clock_ok:
  assumes "kb_ok k" and "KB_ClockInterrupt pin k = Some k'"
  shows "kb_ok k'"
proof -
  have "kb_bit_n k = 1 \<or> 2 \<le> kb_bit_n k \<and> kb_bit_n k \<le> 9 \<or> kb_bit_n k = 10 \<or> kb_bit_n k = 11"
  proof -
    have "unat (kb_bit_n k) \<in> {1..11}" using assms(1) by (simp add: kb_ok_def word_le_nat_alt)
    then have "unat (kb_bit_n k) = 1 \<or> 2 \<le> unat (kb_bit_n k) \<and> unat (kb_bit_n k) \<le> 9 \<or>
        unat (kb_bit_n k) = 10 \<or> unat (kb_bit_n k) = 11" by auto
    then show ?thesis by (simp add: word_unat_eq_iff word_le_nat_alt)
  qed
  then show ?thesis
    using assms ring_put_ok [of "kb_ringbuffer k"] step_range [of "kb_bit_n k"]
    by (auto simp: KB_ClockInterrupt_def kb_resend_def kb_ok_def Let_def
        dest: KB_Send_frame split: if_splits bind_splits)
qed

lemma kb_scancode_ok:
  assumes "kb_ok k"
  shows "kb_ok (snd (KB_GetScancode k))"
proof -
  have r: "ring_ok (snd (RING_GetElement (kb_ringbuffer k)))"
    using assms ring.wf_get by (simp add: kb_ok_def)
  have z: "rb_size (snd (RING_GetElement (kb_ringbuffer k))) = 8"
    using assms by (simp add: kb_ok_def rb_size_get)
  show ?thesis
    using assms r z by (auto simp: KB_GetScancode_def kb_ok_def Let_def split_beta push_bit_of_1)
qed

subsection \<open>The mouse\<close>

lemma ms_clock_ok:
  assumes "ms_ok m" and "MS_ClockInterrupt pin m = Some m'"
  shows "ms_ok m'"
proof -
  have "drv_bit_n m = 1 \<or> 2 \<le> drv_bit_n m \<and> drv_bit_n m \<le> 9 \<or> drv_bit_n m = 10 \<or> drv_bit_n m = 11"
  proof -
    have "unat (drv_bit_n m) \<in> {1..11}" using assms(1) by (simp add: ms_ok_def word_le_nat_alt)
    then have "unat (drv_bit_n m) = 1 \<or> 2 \<le> unat (drv_bit_n m) \<and> unat (drv_bit_n m) \<le> 9 \<or>
        unat (drv_bit_n m) = 10 \<or> unat (drv_bit_n m) = 11" by auto
    then show ?thesis by (simp add: word_unat_eq_iff word_le_nat_alt)
  qed
  then show ?thesis
    using assms ring_put_ok [of "drv_ringbuffer m"] step_range [of "drv_bit_n m"]
    by (auto simp: MS_ClockInterrupt_def ms_resend_def ms_ok_def Let_def SendByte_frame
        split: if_splits bind_splits)
qed

lemma ms_timer_ok: "ms_ok m \<Longrightarrow> ms_ok (MS_TimerInterrupt m)"
proof -
  assume m: "ms_ok m"
  have "trg_timer m - 1 \<le> 15" if "0 < trg_timer m"
    using that m unat_dec [OF that] by (auto simp: ms_ok_def word_le_nat_alt)
  with m show ?thesis by (simp add: MS_TimerInterrupt_def ms_ok_def Let_def)
qed

lemma ms_send_ok: "ms_ok m \<Longrightarrow> SendByte b m = Some m' \<Longrightarrow> ms_ok m'"
  by (simp add: ms_ok_def SendByte_frame)

lemma ms_reset_ok: "ms_ok m \<Longrightarrow> ResetState m = Some m' \<Longrightarrow> ms_ok m'"
  by (auto simp: ms_ok_def flt_state_ok_def ResetState_def SendByte_frame split: bind_splits)

lemma flt_state_next:
  assumes "flt_state_ok st" and "st < 52"
  shows "flt_state_ok (st + 2)"
proof -
  have "unat st < 52" using assms(2) by (simp add: word_less_nat_alt)
  moreover from this have "even (unat st)" using assms(1) by (auto simp: flt_state_ok_def)
  moreover have "unat (st + 2) = unat st + 2" using \<open>unat st < 52\<close> by (simp add: unat_word_ariths(1))
  ultimately have "unat (st + 2) \<le> 52 \<and> even (unat (st + 2))" by presburger
  then show ?thesis by (simp add: flt_state_ok_def)
qed

text \<open>The hat switch and the agreement of the buttons, through the operations on the report.\<close>

lemma hat_bits: "(\<forall>n < 4. bit (joystick_buttons j) n = bit (joystick_buttons k) n) \<Longrightarrow> hat j = hat k"
  unfolding hat_def by (rule bit_eqI) (auto simp: bit_take_bit_iff)

lemma hat_send: "js_send s = Some t \<Longrightarrow> hat (fw_js t) = hat (fw_js s)"
  by (simp add: hat_def js_send_report(2))

lemma agree_send: "js_send s = Some t \<Longrightarrow> buttons_agree t = buttons_agree s"
  by (simp add: buttons_agree_def js_send_report(2) js_send_frame)

lemma dispatcher_ok:
  assumes "EventDispatcher s = Some t" and "hat_ok (fw_js s)" and "buttons_agree s"
  shows "hat_ok (fw_js t) \<and> buttons_agree t"
proof
  note b = dispatcher_buttons [OF assms(1) refl]
  have "hat (fw_js t) = hat (fw_js s)"
    by (rule hat_bits) (simp add: b del: bit_0)
  with assms(2) show "hat_ok (fw_js t)" by (simp add: hat_ok_def)
  show "buttons_agree t"
    using assms(3) dispatcher_frame [OF assms(1)] b [of 9] b [of 8]
    by (auto simp: buttons_agree_def simp del: bit_0)
qed

lemma pk_size_step: "(n::u8) \<le> 3 \<Longrightarrow> n + 1 \<noteq> 4 \<Longrightarrow> n + 1 \<le> 3"
proof -
  assume n: "n \<le> 3" "n + 1 \<noteq> 4"
  have u: "unat (n + 1) = Suc (unat n)"
    using n(1) by (intro unat_inc [of _ 255]) (simp add: word_le_nat_alt word_less_nat_alt)
  have "unat (n + 1) \<noteq> 4" using n(2) by (simp add: word_unat_eq_iff)
  with u n(1) show "n + 1 \<le> 3" by (simp add: word_le_nat_alt)
qed

lemma retry_range: "(r::u8) < 5 \<Longrightarrow> r + 1 \<le> 5"
  using unat_inc [of r 5] by (simp add: word_le_nat_alt word_less_nat_alt)

lemma kb_error_led_ok: "kb_ok k \<Longrightarrow> kb_ok (KB_ErrorStateLed k)" "kb_ok k \<Longrightarrow> kb_ok (KB_NormalStateLed k)"
  by (simp_all add: kb_ok_def KB_ErrorStateLed_def KB_NormalStateLed_def)

lemma ms_ok_update:
  "ms_ok m \<Longrightarrow> flt_state_ok x \<Longrightarrow> ms_ok (m\<lparr>flt_state := x\<rparr>)"
  "ms_ok m \<Longrightarrow> r \<le> 5 \<Longrightarrow> ms_ok (m\<lparr>flt_retry := r\<rparr>)"
  "ms_ok m \<Longrightarrow> n \<le> 3 \<Longrightarrow> ms_ok (m\<lparr>pk_size := n\<rparr>)"
  "ms_ok m \<Longrightarrow> length p = 4 \<Longrightarrow> ms_ok (m\<lparr>pk_bytes := p\<rparr>)"
  "ms_ok m \<Longrightarrow> ms_ok (m\<lparr>dsp_left := l\<rparr>)" "ms_ok m \<Longrightarrow> ms_ok (m\<lparr>dsp_right := l\<rparr>)"
  "ms_ok m \<Longrightarrow> ms_ok (m\<lparr>dsp_middle := l\<rparr>)" "ms_ok m \<Longrightarrow> ms_ok (m\<lparr>trg_action := 0\<rparr>)"
  "ms_ok m \<Longrightarrow> ms_ok (m\<lparr>ms_timer_irq := l\<rparr>)" "ms_ok m \<Longrightarrow> ms_ok (m\<lparr>ms_intf := l\<rparr>)"
  "ms_ok m \<Longrightarrow> ms_ok (m\<lparr>ms_line := n'\<rparr>)"
  by (simp_all add: ms_ok_def)

subsection \<open>The event filters\<close>

text \<open>Steps that change the mouse only.\<close>

lemma fw_ok_ms: "fw_ok s \<Longrightarrow> ms_ok m \<Longrightarrow> dsp_left m = dsp_left (fw_ms s) \<Longrightarrow>
    dsp_right m = dsp_right (fw_ms s) \<Longrightarrow> fw_ok (s\<lparr>fw_ms := m\<rparr>)"
  by (simp add: fw_ok_def buttons_agree_def)

lemma fw_ok_kb: "fw_ok s \<Longrightarrow> kb_ok k \<Longrightarrow> fw_ok (s\<lparr>fw_kb := k\<rparr>)"
  by (simp add: fw_ok_def buttons_agree_def)

lemma SendByte_dsp: "SendByte d m = Some m' \<Longrightarrow> dsp_left m' = dsp_left m \<and> dsp_right m' = dsp_right m"
  by (auto simp: SendByte_def split: bind_splits)

lemma fw_ok_send: "fw_ok s \<Longrightarrow> ms_try (SendByte d) s = Some t \<Longrightarrow> fw_ok t \<and> flt_state (fw_ms t) = flt_state (fw_ms s)"
  using ms_send_ok [of "fw_ms s" d] SendByte_dsp [of d "fw_ms s"] SendByte_frame(7) [of d "fw_ms s"]
  by (auto simp: ms_try_def fw_ok_def buttons_agree_def)

lemma fw_ok_reset: "fw_ok s \<Longrightarrow> ms_try ResetState s = Some t \<Longrightarrow> fw_ok t"
  using ms_reset_ok [of "fw_ms s"]
  by (auto simp: ms_try_def fw_ok_def ResetState_def buttons_agree_def dest!: SendByte_dsp split: bind_splits)

lemma filter_ok:
  assumes "fw_ok s" and "EventFilter b s = Some t"
  shows "fw_ok t"
proof (cases "flt_state (fw_ms s) < flt_size (fw_ms s)")
  case True
  have m: "ms_ok (fw_ms s)" "kb_ok (fw_kb s)" using assms(1) by (simp_all add: fw_ok_def)
  then have lt: "flt_state (fw_ms s) < 52" and size: "flt_size (fw_ms s) = 52" "flt_table (fw_ms s) = ms_state_table"
    using True by (simp_all add: ms_ok_def)
  have next_ok: "flt_state_ok (flt_state (fw_ms s) + 2)"
    using flt_state_next [OF _ lt] m(1) by (simp add: ms_ok_def)
  have su: "in_startup s" using size by (simp add: in_startup_def)
  obtain ds st r where step: "dialogue_step (ms_config (fw_ms s)) (flt_state (fw_ms s), flt_retry (fw_ms s)) b = (ds, st, r)"
    by (metis prod_cases3)
  show ?thesis
  proof (cases "b = ms_state_table ! unat (flt_state (fw_ms s)) \<or>
      ms_state_table ! unat (flt_state (fw_ms s)) = 0xFA \<and> b = 0xF4")
    case True
    have "map_option (on_ms (\<lambda>m. m\<lparr>flt_state := flt_state m + 2\<rparr>))
        (case ds of [] \<Rightarrow> Some s | d # _ \<Rightarrow> ms_try (SendByte d) s) = Some t"
      using filter_match [OF su lt step True] assms(2) by metis
    then obtain u where
      u: "(case ds of [] \<Rightarrow> Some s | d # _ \<Rightarrow> ms_try (SendByte d) s) = Some u"
      "t = on_ms (\<lambda>m. m\<lparr>flt_state := flt_state m + 2\<rparr>) u"
      unfolding map_option_eq_Some by blast
    then have "fw_ok u \<and> flt_state (fw_ms u) = flt_state (fw_ms s)"
      using fw_ok_send [OF assms(1)] assms(1) by (auto split: list.splits)
    then show ?thesis
      using next_ok u(2) ms_ok_update(1) by (auto simp: on_ms_def fw_ok_def buttons_agree_def)
  next
    case False
    note f = filter_mismatch [OF su lt step False]
    show ?thesis
    proof (cases "flt_retry (fw_ms s) < 5")
      case True
      have "fw_ok (on_ms (\<lambda>m. m\<lparr>flt_retry := flt_retry m + 1\<rparr>) s)"
        using assms(1) ms_ok_update(2) [OF m(1) retry_range [OF True]]
        by (auto simp: on_ms_def fw_ok_def buttons_agree_def)
      then show ?thesis using f True assms(2) fw_ok_reset by auto
    next
      case False
      have "ms_ok ((fw_ms s)\<lparr>flt_state := 0xFF, flt_retry := 0\<rparr>)"
        using ms_ok_update(1) [OF ms_ok_update(2) [OF m(1), of 0], of "0xFF"]
        by (simp add: flt_state_ok_def ms_ok_def)
      then show ?thesis
        using f False assms m kb_error_led_ok(1) by (auto simp: on_ms_def on_kb_def fw_ok_def buttons_agree_def)
    qed
  qed
next
  case False
  then have nd: "\<not> in_dialogue s" by (simp add: in_dialogue_def)
  have m: "ms_ok (fw_ms s)" using assms(1) by (simp add: fw_ok_def)
  consider "pk_size (fw_ms s) = 0" "\<not> bit b 3"
    | "pk_size (fw_ms s) \<noteq> 0 \<or> bit b 3" "pk_size (fw_ms s) \<noteq> 3" | "pk_size (fw_ms s) = 3"
    by blast
  then show ?thesis
  proof cases
    case 1
    then have "t = on_ms (\<lambda>m. m\<lparr>pk_size := 0\<rparr>) s"
      using assms(2) False by (simp add: EventFilter_def header_bit)
    then show ?thesis using assms(1) ms_ok_update(3) [OF m, of 0] by (auto simp: on_ms_def intro!: fw_ok_ms)
  next
    case 2
    let ?n = "pk_size (fw_ms s)"
    have "?n + 1 \<noteq> 4"
    proof
      assume "?n + 1 = 4"
      then have "?n = 4 - 1" by (metis add_diff_cancel_right')
      with 2(2) show False by simp
    qed
    then have "?n + 1 \<le> 3" using m pk_size_step by (simp add: ms_ok_def)
    then have "ms_ok ((fw_ms s)\<lparr>flt_retry := 0, pk_bytes := (pk_bytes (fw_ms s))[unat ?n := b], pk_size := ?n + 1\<rparr>)"
      using m by (simp add: ms_ok_def)
    then show ?thesis using filter_collect [OF nd 2] assms by (auto simp: on_ms_def intro!: fw_ok_ms)
  next
    case 3
    let ?u = "on_ms (\<lambda>m. m\<lparr>flt_retry := 0, pk_bytes := (pk_bytes m)[3 := b], pk_size := 4\<rparr>) s"
    have "map_option (on_ms (\<lambda>m. m\<lparr>pk_size := 0\<rparr>)) (EventDispatcher ?u) = Some t"
      by (simp only: filter_complete [OF nd 3, symmetric] assms(2))
    then obtain v where v: "EventDispatcher ?u = Some v" "t = on_ms (\<lambda>m. m\<lparr>pk_size := 0\<rparr>) v"
      unfolding map_option_eq_Some by blast
    have "hat_ok (fw_js ?u)" "buttons_agree ?u"
      using assms(1) by (simp_all add: on_ms_def fw_ok_def buttons_agree_def)
    with dispatcher_ok [OF v(1)] have "hat_ok (fw_js v)" "buttons_agree v" by simp_all
    then show ?thesis
      using m dispatcher_frame [OF v(1)] v(2) assms(1)
      by (simp add: on_ms_def fw_ok_def ms_ok_def buttons_agree_def del: bit_0)
  qed
qed

lemma drain_ok: "drain_scancodes s = Some t \<Longrightarrow> fw_ok s \<Longrightarrow> fw_ok t"
proof (induction "unat (rb_elements (drv_ringbuffer (fw_ms s)))" arbitrary: s rule: less_induct)
  case less
  show ?case
  proof (cases "HasScancode (fw_ms s)")
    case False
    with less.prems show ?thesis by (subst (asm) drain_scancodes.simps) simp
  next
    case True
    obtain b m where g: "GetScancode (fw_ms s) = (b, m)" by fastforce
    from less.prems(1) True g obtain u where u: "EventFilter b (s\<lparr>fw_ms := m\<rparr>) = Some u"
      "drain_scancodes u = Some t"
      by (subst (asm) drain_scancodes.simps) (auto split: bind_splits)
    have m: "m = (fw_ms s)\<lparr>drv_ringbuffer := snd (RING_GetElement (drv_ringbuffer (fw_ms s)))\<rparr>"
      using g by (auto simp: GetScancode_def split_beta Let_def)
    have "ms_ok m"
      using less.prems(2) ring.wf_get [of "drv_ringbuffer (fw_ms s)"]
      by (simp add: m fw_ok_def ms_ok_def rb_size_get)
    then have "fw_ok (s\<lparr>fw_ms := m\<rparr>)" using less.prems(2) by (intro fw_ok_ms) (simp_all add: m)
    from filter_ok [OF this u(1)] have "fw_ok u" .
    moreover have "unat (rb_elements (drv_ringbuffer (fw_ms u))) < unat (rb_elements (drv_ringbuffer (fw_ms s)))"
      using filter_frame(1) [OF u(1)] get_scancode_smaller [OF True] g by simp
    ultimately show ?thesis using less.hyps u(2) by blast
  qed
qed

subsection \<open>The tasks\<close>

lemma hat_press_dir: "dir \<in> {0, 2, 4, 6, 8} \<Longrightarrow> hat_ok (usb_joystick_press_dir dir j)"
proof -
  assume d: "dir \<in> {0, 2, 4, 6, 8 :: u16}"
  have "take_bit 4 (0xFFF0 :: u16) = 0" by (simp add: take_bit_eq_mod)
  then have "hat (usb_joystick_press_dir dir j) = take_bit 4 dir"
    by (simp add: hat_def usb_joystick_press_dir_def)
  moreover have "take_bit 4 dir = dir" using d by (auto simp: take_bit_eq_mod)
  ultimately show ?thesis using d by (simp add: hat_ok_def)
qed

text \<open>The changes of the report by the keyboard keep the hat valid and do not touch R1 and L1.\<close>

lemma kb_change_ok:
  assumes "hat_ok j"
  shows "hat_ok (kb_report_change c j)" and "n = 8 \<or> n = 9 \<Longrightarrow>
    bit (joystick_buttons (kb_report_change c j)) n = bit (joystick_buttons j) n"
proof -
  have hat: "hat (usb_joystick_press b j) = hat j \<and> hat (usb_joystick_release b j) = hat j"
    if "b \<in> {0x10, 0x20, 0x40, 0x80, 0x400, 0x800, 0x1000, 0x2000, 0x4000, 0x8000}" for b
    using that by (auto intro!: hat_bits simp: press_bit button_bits more_button_bits simp del: bit_numeral_word_iff)
  then have ok: "hat_ok (usb_joystick_press b j) \<and> hat_ok (usb_joystick_release b j)"
    if "b \<in> {0x10, 0x20, 0x40, 0x80, 0x400, 0x800, 0x1000, 0x2000, 0x4000, 0x8000}" for b
    using that assms by (simp add: hat_ok_def)
  have ax: "hat_ok (usb_joystick_move_x v j)" "hat_ok (usb_joystick_move_y v j)" for v
    using assms by (simp_all add: hat_ok_def hat_def axis_buttons)
  show "hat_ok (kb_report_change c j)"
    using ok ax hat_press_dir assms
    by (simp add: kb_report_change_def kb_switch_move_def kb_switch_pad_def)
  show "bit (joystick_buttons (kb_report_change c j)) n = bit (joystick_buttons j) n" if "n = 8 \<or> n = 9"
    using that
    by (auto simp: kb_report_change_def kb_switch_move_def kb_switch_pad_def press_bit axis_buttons dir_bits
        button_bits more_button_bits simp del: bit_numeral_word_iff)
qed

lemma kb_send_ok: "kb_ok k \<Longrightarrow> KB_Send b k = Some k' \<Longrightarrow> kb_ok k'"
  by (simp add: kb_ok_def KB_Send_frame)

lemma kb_ok_update:
  "kb_ok (k\<lparr>kb_lastbyte := a\<rparr>) = kb_ok k" "kb_ok (k\<lparr>kb_retry := a\<rparr>) = kb_ok k"
  "kb_ok (k\<lparr>kb_cmd := a\<rparr>) = kb_ok k" "kb_ok (k\<lparr>kb_leds := a\<rparr>) = kb_ok k"
  "kb_ok (k\<lparr>kb_led_delay := d\<rparr>) = kb_ok k" "kb_ok (k\<lparr>kb_intf := e\<rparr>) = kb_ok k"
  "kb_ok (k\<lparr>kb_line := l\<rparr>) = kb_ok k"
  by (simp_all add: kb_ok_def)

lemma kb_command_ok:
  "kb_ok k \<Longrightarrow> kb_lock_command c k = Some k' \<Longrightarrow> kb_ok k'"
  "kb_ok k \<Longrightarrow> kb_retry_command k = Some k' \<Longrightarrow> kb_ok k'"
  "kb_ok k \<Longrightarrow> kb_send_last b k = Some k' \<Longrightarrow> kb_ok k'"
  by (auto simp: kb_lock_command_def kb_retry_command_def kb_send_last_def Let_def kb_ok_update
      dest!: kb_send_ok [rotated] split: if_splits bind_splits)

lemma kb_commands_ok:
  assumes "fw_ok s" and "kb_commands c s = Some t"
  shows "fw_ok t"
proof -
  have k: "kb_ok (fw_kb s)" and m: "ms_ok (fw_ms s)" using assms(1) by (simp_all add: fw_ok_def)
  have r: "fw_ok t" if "c = KB_KeyPress MKey"
  proof -
    have "fw_ok (s\<lparr>fw_kb := KB_NormalStateLed (fw_kb s), fw_ms := SetMouseDefault (fw_ms s)\<rparr>)"
      using assms(1) k kb_error_led_ok by (simp add: fw_ok_def ms_ok_def SetMouseDefault_def buttons_agree_def)
    from fw_ok_reset [OF this, of t] assms(2) that show ?thesis
      by (simp add: kb_commands_def on_kb_def ms_try_def MS_MouseReset_def)
  qed
  have leds: "kb_ok k'" if "Option.bind (kb_send_last b ((fw_kb s)\<lparr>kb_leds := b\<rparr>)) (\<lambda>k. Some (k\<lparr>kb_retry := 0\<rparr>)) = Some k'"
    for b k' using that kb_command_ok(3) [of "(fw_kb s)\<lparr>kb_leds := b\<rparr>" b] k
    by (auto simp: kb_ok_update split: bind_splits)
  consider "c = KB_KeyPress MKey" | i where "kb_try (kb_lock_command i) s = Some t"
    | "kb_try (\<lambda>k. do {
          let k = k\<lparr>kb_leds := kb_leds k XOR kb_cmd k\<rparr>;
          k \<leftarrow> kb_send_last (kb_leds k) k;
          Some (k\<lparr>kb_retry := 0\<rparr>) }) s = Some t"
    | "kb_try kb_retry_command s = Some t" | "t = s"
    using assms(2) unfolding kb_commands_def by (metis option.inject)
  then show ?thesis
  proof cases
    case 1
    then show ?thesis by (rule r)
  next
    case 2
    then show ?thesis using fw_ok_kb [OF assms(1)] kb_command_ok(1) [OF k] by (auto simp: kb_try_def)
  next
    case 3
    then show ?thesis using fw_ok_kb [OF assms(1)] leds by (auto simp: kb_try_def Let_def)
  next
    case 4
    then show ?thesis using fw_ok_kb [OF assms(1)] kb_command_ok(2) [OF k] by (auto simp: kb_try_def)
  next
    case 5
    then show ?thesis using assms(1) by simp
  qed
qed

lemma kb_filter_ok:
  assumes "fw_ok s" and "KB_KeyboardEventFilter c s = Some t"
  shows "fw_ok t"
proof -
  from assms(2) obtain u where u: "kb_commands c s = Some u"
    and t: "(case kb_switch_move c of Some f \<Rightarrow> js_send (on_js f u)
      | None \<Rightarrow> (case kb_switch_pad c of Some f \<Rightarrow> js_send (on_js f u) | None \<Rightarrow> Some u)) = Some t"
    by (auto simp: KB_KeyboardEventFilter_def split: bind_splits)
  have uok: "fw_ok u" by (rule kb_commands_ok [OF assms(1) u])
  show ?thesis
  proof (cases "t = u")
    case True
    with uok show ?thesis by simp
  next
    case False
    with t have s: "js_send (on_js (kb_report_change c) u) = Some t"
      by (auto simp: kb_report_change_def split: option.splits)
    have "fw_ok (on_js (kb_report_change c) u)"
      using uok kb_change_ok [where j = "fw_js u" and c = c] by (auto simp: fw_ok_def on_js_def buttons_agree_def)
    then show ?thesis
      using hat_send [OF s] agree_send [OF s] js_send_frame [OF s] by (simp add: fw_ok_def hat_ok_def)
  qed
qed

lemma kb_event_task_ok:
  assumes "fw_ok s" and "KB_EventTask s = Some t"
  shows "fw_ok t"
proof -
  obtain c k where g: "KB_GetScancode (fw_kb s) = (c, k)" by fastforce
  have "kb_ok k" using kb_scancode_ok [of "fw_kb s"] assms(1) g by (simp add: fw_ok_def)
  then have s1: "fw_ok (s\<lparr>fw_kb := k\<rparr>)" by (rule fw_ok_kb [OF assms(1)])
  have delay: "fw_ok u \<Longrightarrow> fw_ok (on_kb (\<lambda>k. k\<lparr>kb_led_delay := f k\<rparr>) u)" for u f
    by (simp add: fw_ok_def on_kb_def kb_ok_update buttons_agree_def)
  show ?thesis
  proof (cases "c > 0")
    case True
    then show ?thesis using assms(2) g kb_filter_ok [OF s1] by (simp add: KB_EventTask_def)
  next
    case False
    let ?d = "on_kb (\<lambda>k. k\<lparr>kb_led_delay := kb_led_delay k - 1\<rparr>) (s\<lparr>fw_kb := k\<rparr>)"
    have d: "fw_ok ?d" using delay [OF s1] .
    show ?thesis
    proof (cases "kb_led_delay k = 0")
      case True
      from assms(2) g False True obtain u where u: "KB_KeyboardEventFilter (kb_led_keycode (fw_kb ?d)) ?d = Some u"
        "t = on_kb (\<lambda>k. k\<lparr>kb_led_delay := kb_led_dutycycle k\<rparr>) u"
        by (auto simp: KB_EventTask_def on_kb_def split: bind_splits)
      then show ?thesis using delay kb_filter_ok [OF d] by blast
    next
      case F: False
      then have "t = ?d" using assms(2) g False by (simp add: KB_EventTask_def on_kb_def)
      with d show ?thesis by simp
    qed
  qed
qed

lemma ms_event_task_ok:
  assumes "fw_ok s" and "MS_EventTask s = Some t"
  shows "fw_ok t"
proof -
  from assms(2) obtain u where u: "drain_scancodes s = Some u" "idle_action u = Some t"
    by (auto simp: MS_EventTask_def split: bind_splits)
  have ok: "fw_ok u" by (rule drain_ok [OF u(1) assms(1)])
  show ?thesis
  proof (cases "trg_action (fw_ms u) = 1")
    case False
    with u(2) ok show ?thesis by (simp add: idle_action_def)
  next
    case True
    let ?j = "usb_joystick_release 0x400 (usb_joystick_release 0x800
      (usb_joystick_press_dir 8 (usb_joystick_move_zrz 128 128 (fw_js u))))"
    let ?m = "(fw_ms u)\<lparr>trg_action := 0, ms_timer_irq := True\<rparr>"
    define v where "v = u\<lparr>fw_ms := ?m, fw_js := ?j\<rparr>"
    have s: "js_send v = Some t"
      using u(2) True by (simp add: idle_action_def Let_def fw_defs v_def)
    have "hat ?j = hat (usb_joystick_press_dir 8 (usb_joystick_move_zrz 128 128 (fw_js u)))"
      by (rule hat_bits) (simp add: press_bit button_bits del: bit_numeral_word_iff)
    then have "hat_ok (fw_js v)" using hat_press_dir [of 8] by (simp add: hat_ok_def v_def)
    moreover have "buttons_agree v"
      using ok by (simp add: v_def fw_ok_def buttons_agree_def press_bit button_bits dir_bits
          del: bit_numeral_word_iff)
    moreover have "ms_ok (fw_ms v)" using ok by (simp add: v_def fw_ok_def ms_ok_def)
    ultimately have "fw_ok v" using ok by (simp add: fw_ok_def v_def)
    then show ?thesis
      using hat_send [OF s] agree_send [OF s] js_send_frame [OF s] by (simp add: fw_ok_def hat_ok_def)
  qed
qed

subsection \<open>The USB interrupts\<close>

text \<open>No control request changes the report.\<close>

lemma rd_buttons: "rd s = Some (x, t) \<Longrightarrow> joystick_buttons t = joystick_buttons s"
  by (auto simp: rd_def split: list.splits)

lemma wr_buttons [simp]: "joystick_buttons (wr r x s) = joystick_buttons s"
  by (simp add: wr_def)

lemma wait_ueintx_buttons: "wait_ueintx p s = Some (x, t) \<Longrightarrow> joystick_buttons t = joystick_buttons s"
  by (auto simp: wait_ueintx_eq split: list.splits)

lemma wait_in_buttons: "usb_wait_in_ready s = Some t \<Longrightarrow> joystick_buttons t = joystick_buttons s"
  by (auto simp: wait_in_ready_eq split: list.splits)

lemma send_descriptor_buttons:
  "send_descriptor a n s = Some t \<Longrightarrow> joystick_buttons t = joystick_buttons s"
proof (induction "length (reads s)" arbitrary: a n s rule: less_induct)
  case less
  from less.prems obtain i u where w: "wait_ueintx (\<lambda>i. bit i TXINI \<or> bit i RXOUTI) s = Some (i, u)"
    by (subst (asm) send_descriptor.simps) (auto split: bind_splits)
  note u = wait_ueintx_buttons [OF w] wait_ueintx_decreases [OF w]
  show ?case
  proof (cases "bit i RXOUTI")
    case True
    with less.prems w u show ?thesis by (subst (asm) send_descriptor.simps) simp
  next
    case False
    define m where "m = (if n < ENDPOINT0_SIZE then n else ENDPOINT0_SIZE)"
    define v where "v = usb_send_in (fold (wr UEDATX) (take (unat m) a) u)"
    have v: "joystick_buttons v = joystick_buttons s" "length (reads v) < length (reads s)"
      using u by (simp_all add: v_def usb_send_in_def writes_fold_wr)
    have "(if n - m \<noteq> 0 \<or> m = ENDPOINT0_SIZE then send_descriptor (drop (unat m) a) (n - m) v else Some v) = Some t"
      using less.prems w False unfolding m_def v_def
      by (subst (asm) send_descriptor.simps) (simp only: bind.bind_lunit Let_def prod.case if_False)
    with less.hyps [OF v(2)] v(1) show ?thesis by (auto split: if_splits)
  qed
qed

lemma configure_buttons: "joystick_buttons (configure_endpoints is cfg s) = joystick_buttons s"
  by (induction "is" cfg s rule: configure_endpoints.induct) (simp_all add: Let_def)

lemma control_buttons:
  assumes "control_request q s = Some t"
  shows "joystick_buttons t = joystick_buttons s"
proof -
  consider "get_descriptor q s = Some t" | "set_address q s = Some t" | "t = set_configuration q s"
    | "get_configuration s = Some t" | "get_status q s = Some t" | "t = endpoint_halt q s"
    | "hid_request q s = Some t"
    using assms unfolding control_request_def by (metis option.inject)
  then show ?thesis
  proof cases
    case 1
    then show ?thesis
      by (auto simp: get_descriptor_def stall_def Let_def dest: send_descriptor_buttons
          split: option.splits)
  next
    case 3
    then show ?thesis by (simp add: set_configuration_def configure_buttons usb_send_in_def
        del: configure_endpoints.simps)
  next
    case 5
    then show ?thesis
      by (auto simp: get_status_def usb_send_in_def dest!: wait_in_buttons rd_buttons
          split: if_splits bind_splits)
  next
    case 7
    then show ?thesis
      by (auto simp: hid_request_def usb_send_in_def stall_def usb_send_codes_eq dest!: wait_in_buttons
          split: if_splits bind_splits)
  qed (auto simp: set_address_def get_configuration_def endpoint_halt_def usb_send_in_def Let_def
      dest!: wait_in_buttons split: bind_splits)
qed

lemma read_setup_buttons: "read_setup s = Some (q, t) \<Longrightarrow> joystick_buttons t = joystick_buttons s"
  by (auto simp: read_setup_def rd16_def dest!: rd_buttons split: bind_splits)

lemma usb_com_buttons: "USB_COM_vect s = Some t \<Longrightarrow> joystick_buttons t = joystick_buttons s"
  by (auto simp: USB_COM_vect_def stall_def dest!: rd_buttons read_setup_buttons control_buttons
      split: if_splits bind_splits)

lemma usb_gen_buttons: "USB_GEN_vect s = Some t \<Longrightarrow> joystick_buttons t = joystick_buttons s"
  by (auto simp: USB_GEN_vect_def Let_def dest!: rd_buttons split: if_splits bind_splits)

lemma fw_ok_js: "fw_ok s \<Longrightarrow> joystick_buttons j = joystick_buttons (fw_js s) \<Longrightarrow> fw_ok (s\<lparr>fw_js := j\<rparr>)"
  by (simp add: fw_ok_def hat_ok_def hat_def buttons_agree_def)

subsection \<open>Initialisation establishes it, every step keeps it\<close>

lemma kb_init_ok: "length (rb_data (kb_ringbuffer k)) = 8 \<Longrightarrow> kb_ok (KB_Init k)"
  by (simp add: kb_ok_def ring_init_ok rb_size_init)

lemma ms_init_more:
  "trg_timer (MS_Init m) = 0" "trg_action (MS_Init m) = 0" "dsp_left (MS_Init m) = dsp_left m"
  "dsp_right (MS_Init m) = dsp_right m"
  by (simp_all add: MS_Init_def Let_def ms_emit_def TimerInit_def SetMouseDefault_def)

lemma ms_init_ok:
  "length (rb_data (drv_ringbuffer m)) = 2 \<Longrightarrow> length (pk_bytes m) = 4 \<Longrightarrow> ms_ok (MS_Init m)"
  by (simp add: ms_ok_def ring_init_ok rb_size_init ms_init_more flt_state_ok_def)

lemma main_init_ok:
  assumes "static_memory (bd_fw b)" and "main_init b = Some b'"
  shows "fw_ok (bd_fw b')"
proof -
  let ?s = "on_js (\<lambda>j. j\<lparr>sreg_i := True\<rparr>) (on_js usb_joystick_raz (on_ms MS_Init (on_kb KB_Init (bd_fw b))))"
  from assms(2) obtain u v w x where u: "js_try usb_init ?s = Some u" and v: "js_try usb_wait_configured u = Some v"
    and w: "js_send v = Some w" and x: "ms_try MS_MouseReset w = Some x" and b': "bd_fw b' = x"
    by (auto simp: main_init_def split: bind_splits)
  have "take_bit 4 (8 :: u16) = 8" by (simp add: take_bit_eq_mod)
  moreover have "\<not> bit (8::u16) 9" "\<not> bit (8::u16) 8" by (simp_all add: bit_iff_odd drop_bit_eq_div)
  ultimately have s: "fw_ok ?s"
    using assms(1) kb_init_ok [of "fw_kb (bd_fw b)"] ms_init_ok [of "fw_ms (bd_fw b)"]
    by (simp add: fw_ok_def fw_defs static_memory_def hat_ok_def hat_def buttons_agree_def
        ms_init_more usb_joystick_raz_def usb_joystick_raz_axis_def usb_joystick_raz_buttons_def)
  have "fw_ok u"
    using u fw_ok_js [OF s] by (auto simp: js_try_def usb_init_def Let_def wr_def split: bind_splits)
  then have "fw_ok v"
    using v fw_ok_js [of u] by (auto simp: js_try_def usb_wait_configured_def)
  then have "fw_ok w"
    using hat_send [OF w] agree_send [OF w] js_send_frame [OF w] by (simp add: fw_ok_def hat_ok_def)
  then have "fw_ok (w\<lparr>fw_ms := SetMouseDefault (fw_ms w)\<rparr>)"
    by (simp add: fw_ok_def ms_ok_def SetMouseDefault_def buttons_agree_def)
  from fw_ok_reset [OF this, of x] x b' show ?thesis by (simp add: ms_try_def MS_MouseReset_def)
qed

lemma step_ok:
  assumes "fw_ok s" and "fw_step s e t"
  shows "fw_ok t"
  using assms(2)
proof (cases rule: fw_step.cases)
  case kb_edge
  then show ?thesis using assms(1) by (auto simp: on_kb_def fw_ok_def kb_ok_update buttons_agree_def)
next
  case ms_edge
  then show ?thesis using assms(1) by (auto simp: on_ms_def fw_ok_def ms_ok_def buttons_agree_def)
next
  case (kb_irq pin)
  then show ?thesis
    using assms(1) kb_clock_ok [of "(fw_kb s)\<lparr>kb_intf := False\<rparr>" pin]
    by (auto simp: kb_try_def on_kb_def fw_ok_def kb_ok_update buttons_agree_def)
next
  case (ms_irq pin)
  then obtain m where m: "MS_ClockInterrupt pin ((fw_ms s)\<lparr>ms_intf := False\<rparr>) = Some m" "t = s\<lparr>fw_ms := m\<rparr>"
    by (auto simp: ms_try_def on_ms_def)
  have "dsp_left m = dsp_left (fw_ms s)" "dsp_right m = dsp_right (fw_ms s)"
    using m(1) by (auto simp: MS_ClockInterrupt_def Let_def ms_resend_def dest!: SendByte_dsp
        split: if_splits bind_splits)
  then show ?thesis
    using m ms_clock_ok [OF _ m(1)] assms(1) by (simp add: fw_ok_def ms_ok_update(10) buttons_agree_def)
next
  case timer
  have "dsp_left (MS_TimerInterrupt m) = dsp_left m" "dsp_right (MS_TimerInterrupt m) = dsp_right m" for m
    by (simp_all add: MS_TimerInterrupt_def Let_def)
  then show ?thesis using timer assms(1) ms_timer_ok by (simp add: on_ms_def fw_ok_def buttons_agree_def)
next
  case usb_gen
  then show ?thesis using fw_ok_js [OF assms(1)] usb_gen_buttons by (auto simp: js_try_def)
next
  case usb_com
  then show ?thesis using fw_ok_js [OF assms(1)] usb_com_buttons by (auto simp: js_try_def)
next
  case kb_task
  then show ?thesis using kb_event_task_ok [OF assms(1)] by simp
next
  case ms_task
  then show ?thesis using ms_event_task_ok [OF assms(1)] by simp
next
  case (samples ks ms us)
  then show ?thesis
    using assms(1) by (simp add: fw_ok_def kb_ok_update ms_ok_update(11) hat_ok_def hat_def buttons_agree_def)
qed

lemma reach_ok: "fw_reach s \<Longrightarrow> fw_ok s"
  by (induction rule: fw_reach.induct) (auto intro: main_init_ok step_ok)

section \<open>Properties\<close>

text \<open>C1:
  The invariant of the firmware: in every state reachable from power-on through any interleaving of
  tasks, interrupts, clock edges and hardware samples, both receive queues are well formed with
  their capacities 8 and 2, both receivers are inside a frame (bit 1 to 11), the start-up dialogue
  is at an even position of its table or finished (so the table is never read out of bounds), the
  packet buffer holds at most three bytes (so it is never written out of bounds), the inactivity
  timer is at most 15, the hat switch of the report has one of its five legal values, and R1 and L1
  of the report are the left and right mouse buttons of the last packet.
\<close>

theorem firmware_invariant:
  assumes "fw_reach s"
  shows "ring_ok (kb_ringbuffer (fw_kb s)) \<and> rb_size (kb_ringbuffer (fw_kb s)) = 8 \<and>
    ring_ok (drv_ringbuffer (fw_ms s)) \<and> rb_size (drv_ringbuffer (fw_ms s)) = 2 \<and>
    kb_bit_n (fw_kb s) \<in> {1..11} \<and> drv_bit_n (fw_ms s) \<in> {1..11} \<and>
    (flt_state (fw_ms s) = 0xFF \<or> flt_state (fw_ms s) = 52 \<or>
      unat (flt_state (fw_ms s)) + 1 < length (flt_table (fw_ms s)) \<and> even (unat (flt_state (fw_ms s)))) \<and>
    unat (pk_size (fw_ms s)) < length (pk_bytes (fw_ms s)) \<and> trg_timer (fw_ms s) \<le> 15 \<and>
    joystick_buttons (fw_js s) AND 0xF \<in> {UP_BUTTON, RIGHT_BUTTON, DOWN_BUTTON, LEFT_BUTTON, NO_BUTTON} \<and>
    bit (joystick_buttons (fw_js s)) 9 = dsp_left (fw_ms s) \<and>
    bit (joystick_buttons (fw_js s)) 8 = dsp_right (fw_ms s)"
proof -
  have ok: "kb_ok (fw_kb s)" "ms_ok (fw_ms s)" "hat_ok (fw_js s)" "buttons_agree s"
    using reach_ok [OF assms] by (simp_all add: fw_ok_def)
  have "flt_state (fw_ms s) = 0xFF \<or> flt_state (fw_ms s) = 52 \<or>
      unat (flt_state (fw_ms s)) + 1 < 52 \<and> even (unat (flt_state (fw_ms s)))"
  proof (cases "flt_state (fw_ms s) = 0xFF \<or> flt_state (fw_ms s) = 52")
    case False
    then have "unat (flt_state (fw_ms s)) \<le> 52" "even (unat (flt_state (fw_ms s)))"
      using ok(2) by (auto simp: ms_ok_def flt_state_ok_def)
    moreover have "unat (flt_state (fw_ms s)) \<noteq> 52" using False by (simp add: word_unat_eq_iff)
    ultimately have "unat (flt_state (fw_ms s)) + 1 < 52" by presburger
    with \<open>even _\<close> show ?thesis by simp
  qed blast
  moreover have "length ms_state_table = 52" by (simp add: ms_state_table_def)
  moreover have "unat (pk_size (fw_ms s)) < 4" using ok(2) by (simp add: ms_ok_def word_le_nat_alt)
  moreover have "joystick_buttons (fw_js s) AND 0xF \<in> {0, 2, 4, 6, 8}"
    using ok(3) by (simp add: hat_ok_def hat_def and_15)
  ultimately show ?thesis
    using ok by (simp add: kb_ok_def ms_ok_def buttons_agree_def)
qed

text \<open>
  Samples with which the initialisation completes: the PLL locks after \<open>p\<close> samples, the host
  configures the device (value \<open>c\<close>) after \<open>q\<close> samples, the endpoint is ready at the first poll, and
  the mouse keeps clocking.
\<close>

definition boot_reads :: "nat \<Rightarrow> nat \<Rightarrow> u8 \<Rightarrow> u8 list" where
  "boot_reads p q c = replicate p 0 @ [1] @ replicate q 0 @ [c, 7, 0x20]"

lemma wait_pll_replicate: "wait_pll (replicate p 0 @ 1 # xs) = Some xs"
proof -
  have "bit (1::u8) 0" "\<not> bit (0::u8) 0" by simp_all
  then show ?thesis by (induction p) (simp_all del: bit_0)
qed

lemma wait_configured_replicate: "c \<noteq> 0 \<Longrightarrow> wait_configured (replicate q 0 @ c # xs) = Some (c, xs)"
  by (induction q) simp_all

lemma boot_runs:
  assumes "static_memory (bd_fw b)" and "c \<noteq> 0" and "reads (fw_js (bd_fw b)) = boot_reads p q c"
    and "clocking 6 0 24 (pins (ms_line (fw_ms (bd_fw b))))" and "ops (ms_line (fw_ms (bd_fw b))) = []"
    and "writes (fw_js (bd_fw b)) = []"
  shows "\<exists>b'. main_init b = Some b' \<and> fw_reach (bd_fw b') \<and> \<not> bd_wdt b' \<and> \<not> bd_led b' \<and>
    data_writes (drop 6 (writes (fw_js (bd_fw b')))) =
      map (Pair UEDATX) [0x80, 0x80, 0x80, 0x80, 8, 0] @ [(UEINTX, 0x3A)] \<and>
    device_bytes (ops (ms_line (fw_ms (bd_fw b')))) = [Some 0xFF] \<and> flt_state (fw_ms (bd_fw b')) = 0 \<and>
    kb_irq (fw_kb (bd_fw b')) \<and> ms_irq (fw_ms (bd_fw b')) \<and> ms_timer_irq (fw_ms (bd_fw b')) \<and>
    sreg_i (fw_js (bd_fw b')) \<and> usb_configuration (fw_js (bd_fw b')) = c"
proof -
  define k where "k = KB_Init (fw_kb (bd_fw b))"
  define m where "m = MS_Init (fw_ms (bd_fw b))"
  have m: "pins (ms_line m) = pins (ms_line (fw_ms (bd_fw b)))"
    "ops (ms_line m) = [DataDdr False, ClockDdr False, ClockPort True]"
    using assms(5) by (simp_all add: m_def MS_Init_def Let_def ms_emit_def emit_def TimerInit_def SetMouseDefault_def)
  have r: "bit (0x20::u8) 5" by (simp add: bit_iff_odd drop_bit_eq_div)
  obtain m' where m': "SendByte 0xFF (SetMouseDefault m) = Some m'"
    "ops (ms_line m') = ops (ms_line m) @ frame_ops 0xFF"
    using SendByte_clocking [of 0 "SetMouseDefault m" "0xFF"] assms(4) m by (auto simp: SetMouseDefault_def)
  define j where "j = (usb_joystick_raz (fw_js (bd_fw b)))\<lparr>sreg_i := True\<rparr>"
  have j: "reads j = boot_reads p q c" "writes j = []" "report j = [0x80, 0x80, 0x80, 0x80, 8, 0]" "sreg_i j"
    using assms(3,6)
    by (simp_all add: j_def usb_joystick_raz_def usb_joystick_raz_axis_def usb_joystick_raz_buttons_def
        report_def drop_bit_eq_div)
  define j1 where "j1 = j\<lparr>usb_configuration := c, reads := [7, 0x20], writes := [(UHWCON, 0x81), (USBCON, 0xA0),
    (PLLCSR, 0x16), (USBCON, 0x90), (UDCON, 0), (UDIEN, 0x0C)]\<rparr>"
  have init: "Option.bind (usb_init j) usb_wait_configured = Some j1"
    using j assms(2) by (simp add: usb_init_def wr_def boot_reads_def wait_pll_replicate Let_def
        usb_wait_configured_def wait_configured_replicate j1_def)
  define j2 where "j2 = j1\<lparr>reads := [], writes := writes j1 @ [(UENUM, 3)] @
    map (Pair UEDATX) [0x80, 0x80, 0x80, 0x80, 8, 0] @ [(UEINTX, 0x3A)]\<rparr>"
  have rep: "report (j1\<lparr>sreg_i := i, writes := ws, reads := rs\<rparr>) = [0x80, 0x80, 0x80, 0x80, 8, 0]" for i ws rs
    using j(3) by (simp add: j1_def report_def)
  have si: "sreg_i j1" "usb_configuration j1 \<noteq> 0" "reads j1 = [7, 0x20]" using j(4) assms(2) by (simp_all add: j1_def)
  have rest: "j1\<lparr>sreg_i := True, writes := ws, reads := rs\<rparr> = j1\<lparr>reads := rs, writes := ws\<rparr>" for ws rs
    using si(1) by (cases j1) simp
  have send: "usb_joystick_send j1 = Some (0, j2)"
    using si r rep rest by (simp add: usb_joystick_send_def rd_def wr_def send_loop_unfold(2) j2_def)
  obtain i1 where i1: "usb_init j = Some i1" "usb_wait_configured i1 = Some j1"
    using init by (auto split: bind_splits)
  define f where "f = \<lparr>fw_kb = k, fw_ms = m'\<lparr>flt_state := 0\<rparr>, fw_js = j2\<rparr>"
  have "js_try usb_init \<lparr>fw_kb = k, fw_ms = m, fw_js = j\<rparr> = Some \<lparr>fw_kb = k, fw_ms = m, fw_js = i1\<rparr>"
    "js_try usb_wait_configured \<lparr>fw_kb = k, fw_ms = m, fw_js = i1\<rparr> = Some \<lparr>fw_kb = k, fw_ms = m, fw_js = j1\<rparr>"
    "js_send \<lparr>fw_kb = k, fw_ms = m, fw_js = j1\<rparr> = Some \<lparr>fw_kb = k, fw_ms = m, fw_js = j2\<rparr>"
    "ms_try MS_MouseReset \<lparr>fw_kb = k, fw_ms = m, fw_js = j2\<rparr> = Some f"
    using i1 send m'(1) by (simp_all add: js_try_def js_send_def ms_try_def MS_MouseReset_def ResetState_def f_def)
  moreover have "on_js (\<lambda>j. j\<lparr>sreg_i := True\<rparr>) (on_js usb_joystick_raz (on_ms MS_Init (on_kb KB_Init (bd_fw b)))) =
      \<lparr>fw_kb = k, fw_ms = m, fw_js = j\<rparr>"
    by (simp add: fw_defs k_def m_def j_def)
  ultimately have init_b: "\<exists>b'. main_init b = Some b' \<and> bd_fw b' = f \<and> \<not> bd_wdt b' \<and> \<not> bd_led b'"
    by (simp add: main_init_def Let_def)
  then obtain b' where b': "main_init b = Some b'" "bd_fw b' = f" "\<not> bd_wdt b'" "\<not> bd_led b'" by blast
  have "device_bytes (ops (ms_line m')) = [Some 0xFF]"
    using m' m(2) device_bytes_frames [of "[0xFF]"] by (simp add: device_bytes_def)
  moreover have "data_writes (drop 6 (writes j2)) = map (Pair UEDATX) [0x80, 0x80, 0x80, 0x80, 8, 0] @ [(UEINTX, 0x3A)]"
    by (simp add: j2_def j1_def data_writes_def)
  moreover have "sreg_i j2" "usb_configuration j2 = c" using si(1) by (simp_all add: j2_def j1_def)
  moreover have "ms_irq m'" "ms_timer_irq m'" using SendByte_frame [OF m'(1)] by simp_all
  moreover have "kb_irq k" by (simp add: k_def)
  ultimately show ?thesis
    using b' fw_reach.start [OF assms(1) b'(1)] by (simp add: f_def)
qed

text \<open>C39:
  Start-up of the firmware: however long the PLL and the USB host take, \<open>main\<close> reaches its loop
  when they answer and the mouse clocks; then the watchdog is off, the LED is off, one centred
  report with no button pressed has been handed to the endpoint, the mouse has received exactly a
  reset command, the dialogue is at its start, all interrupts are enabled, and the host's
  configuration is in force.
\<close>

theorem boot_completes:
  assumes "static_memory (bd_fw b)" and "c \<noteq> 0" and "reads (fw_js (bd_fw b)) = boot_reads p q c"
    and "clocking 6 0 24 (pins (ms_line (fw_ms (bd_fw b))))" and "ops (ms_line (fw_ms (bd_fw b))) = []"
    and "writes (fw_js (bd_fw b)) = []"
  shows "\<exists>b'. main_init b = Some b' \<and> fw_reach (bd_fw b') \<and> \<not> bd_wdt b' \<and> \<not> bd_led b' \<and>
    data_writes (drop 6 (writes (fw_js (bd_fw b')))) =
      map (Pair UEDATX) [0x80, 0x80, 0x80, 0x80, 8, 0] @ [(UEINTX, 0x3A)] \<and>
    device_bytes (ops (ms_line (fw_ms (bd_fw b')))) = [Some 0xFF] \<and> flt_state (fw_ms (bd_fw b')) = 0 \<and>
    kb_irq (fw_kb (bd_fw b')) \<and> ms_irq (fw_ms (bd_fw b')) \<and> ms_timer_irq (fw_ms (bd_fw b')) \<and>
    sreg_i (fw_js (bd_fw b')) \<and> usb_configuration (fw_js (bd_fw b')) = c"
  by (rule boot_runs [OF assms])

definition board_power_on :: "u8 list \<Rightarrow> u8 list \<Rightarrow> board" where
  "board_power_on ps us = \<lparr>bd_fw = \<lparr>fw_kb = kb_power_on, fw_ms = ms_power_on\<lparr>ms_line := \<lparr>pins = ps, ops = []\<rparr>\<rparr>,
     fw_js = idle_usb 0 us\<rparr>, bd_mcusr = 8, bd_wdt = True, bd_clkpr = 3, bd_led_out = False, bd_led = False\<rparr>"

lemma board_static: "static_memory (bd_fw (board_power_on ps us))"
  by (simp add: board_power_on_def static_memory_def kb_power_on_def ms_power_on_def)

theorem boot_completes_witness:
  "\<exists>b'. main_init (board_power_on (clock_wave 0x41 0 2 1 24) (boot_reads 2 3 1)) = Some b' \<and>
    device_bytes (ops (ms_line (fw_ms (bd_fw b')))) = [Some 0xFF] \<and> \<not> bd_led b'"
proof -
  have "clocking 6 0 24 (clock_wave 0x41 0 2 1 24)"
    by (rule wave_clocking) (simp_all add: bit_iff_odd drop_bit_eq_div)
  then show ?thesis
    using boot_completes [OF board_static, of 1 "clock_wave 0x41 0 2 1 24" "boot_reads 2 3 1" 2 3]
    by (auto simp: board_power_on_def idle_usb_def)
qed

text \<open>A reachable state for the witness of the invariant: the one after start-up.\<close>

theorem firmware_invariant_witness:
  "\<exists>s. fw_reach s \<and> flt_state (fw_ms s) = 0 \<and> unat (pk_size (fw_ms s)) < length (pk_bytes (fw_ms s))"
proof -
  let ?b = "board_power_on (clock_wave 0x41 0 2 1 24) (boot_reads 0 0 1)"
  have "clocking 6 0 24 (clock_wave 0x41 0 2 1 24)"
    by (rule wave_clocking) (simp_all add: bit_iff_odd drop_bit_eq_div)
  then have "\<exists>b' :: board. fw_reach (bd_fw b') \<and> flt_state (fw_ms (bd_fw b')) = 0"
    using boot_runs [OF board_static, of 1 "clock_wave 0x41 0 2 1 24" "boot_reads 0 0 1" 0 0]
    by (simp add: board_power_on_def idle_usb_def) blast
  then obtain b' :: board where b': "fw_reach (bd_fw b')" "flt_state (fw_ms (bd_fw b')) = 0" by blast
  with firmware_invariant [OF b'(1)] show ?thesis by blast
qed

end
