(* ===== verification/LufaEndpoint.thy ===== *)
theory LufaEndpoint
  imports Prelude
begin

text \<open>
  The endpoint layer of the LUFA library (\<open>tools/sixpair-emu/LUFA/Drivers/USB/LowLevel\<close>:
  \<open>Endpoint.h\<close>, \<open>Endpoint.c\<close> and its three stream templates), as the controller emulator builds
  it: an ATmega32U4 (\<open>USB_SERIES_4_AVR\<close>), \<open>USB_DEVICE_ONLY\<close>, \<open>NO_STREAM_CALLBACKS\<close>, no
  \<open>FAST_STREAM_TRANSFERS\<close> and \<open>FIXED_CONTROL_ENDPOINT_SIZE = 64\<close>.

  Registers are volatile: \<open>inp s r\<close> holds what the successive reads of register \<open>r\<close> return, \<open>out s\<close>
  is the log of all register writes in order. A function returns \<open>None\<close> when a register is read for
  which the input holds no further value (a waiting loop that goes on), or when the C code leaves
  the buffer it was given (no defined behaviour). \<open>USB_DeviceState\<close> is changed by the interrupt
  handler while the main program waits: \<open>irqs\<close> holds, for the successive reads of that variable, the
  interrupt that has been served meanwhile, if one has; when the list is exhausted, none occur.
  \<open>UENUM\<close> is only changed by the program, so its value is kept in \<open>uenum\<close>.
\<close>

section \<open>Registers\<close>

datatype sfr = UENUM | UERST | UECONX | UECFG0X | UECFG1X | UESTA0X | UEIENX | UEINTX | UEINT
  | UEDATX | UEBCHX | UEBCLX | UDINT | UDIEN | UDCON | UDADDR | USBINT | USBCON | USBSTA
  | PLLCSR | PLLFRQ | UHWCON

datatype device_state = Unattached | Powered | Default | Addressed | Configured | Suspended

text \<open>
  The interrupts that change the state of the device (\<open>USB_GEN_vect\<close>), and their effect on the
  variables the main program shares with them.
\<close>

datatype irq = Attach | Detach | Suspend | WakeUp | BusReset

record USB_Request_Header_t =
  bmRequestType :: u8
  bRequest :: u8
  wValue :: u16
  wIndex :: u16
  wLength :: u16

record lufa =
  inp :: "sfr \<Rightarrow> u8 list"
  out :: "(sfr \<times> u8) list"
  irqs :: "irq option list"
  uenum :: u8
  USB_DeviceState :: device_state
  USB_ConfigurationNumber :: u8
  USB_CurrentlySelfPowered :: bool
  USB_RemoteWakeupEnabled :: bool
  USB_IsInitialized :: bool
  sreg_i :: bool              \<comment> \<open>the global interrupt enable bit of SREG\<close>
  USB_ControlRequest :: USB_Request_Header_t

definition rd :: "sfr \<Rightarrow> 'a lufa_scheme \<Rightarrow> (u8 \<times> 'a lufa_scheme) option" where
  "rd r s = (case inp s r of [] \<Rightarrow> None | x # xs \<Rightarrow> Some (x, s\<lparr>inp := (inp s)(r := xs)\<rparr>))"

definition wr :: "sfr \<Rightarrow> u8 \<Rightarrow> 'a lufa_scheme \<Rightarrow> 'a lufa_scheme" where
  "wr r x s = s\<lparr>out := out s @ [(r, x)]\<rparr>"

text \<open>Read one bit of a register; read, modify and write a register; read the device state.\<close>

definition flag :: "sfr \<Rightarrow> nat \<Rightarrow> 'a lufa_scheme \<Rightarrow> (bool \<times> 'a lufa_scheme) option" where
  "flag r b s = do { (x, s) \<leftarrow> rd r s; Some (bit x b, s) }"

definition rmw :: "sfr \<Rightarrow> (u8 \<Rightarrow> u8) \<Rightarrow> 'a lufa_scheme \<Rightarrow> 'a lufa_scheme option" where
  "rmw r f s = do { (x, s) \<leftarrow> rd r s; Some (wr r (f x) s) }"

fun irq_effect :: "irq \<Rightarrow> 'a lufa_scheme \<Rightarrow> 'a lufa_scheme" where
  "irq_effect Attach s = s\<lparr>USB_DeviceState := Powered\<rparr>"
| "irq_effect Detach s = s\<lparr>USB_DeviceState := Unattached\<rparr>"
| "irq_effect Suspend s = s\<lparr>USB_DeviceState := Suspended\<rparr>"
| "irq_effect WakeUp s =
     s\<lparr>USB_DeviceState := (if USB_ConfigurationNumber s \<noteq> 0 then Configured else Addressed)\<rparr>"
| "irq_effect BusReset s = s\<lparr>USB_DeviceState := Default, USB_ConfigurationNumber := 0\<rparr>"

definition read_state :: "'a lufa_scheme \<Rightarrow> device_state \<times> 'a lufa_scheme" where
  "read_state s = (case irqs s of
     [] \<Rightarrow> (USB_DeviceState s, s)
   | i # is \<Rightarrow> (let s = case_option id irq_effect i (s\<lparr>irqs := is\<rparr>) in (USB_DeviceState s, s)))"

text \<open>Bit positions (\<open>avr/iom32u4.h\<close>) and masks (\<open>Endpoint.h\<close>).\<close>

abbreviation (input) "TXINI \<equiv> 0 :: nat"
abbreviation (input) "RXOUTI \<equiv> 2 :: nat"
abbreviation (input) "RXSTPI \<equiv> 3 :: nat"
abbreviation (input) "RWAL \<equiv> 5 :: nat"
abbreviation (input) "FIFOCON \<equiv> 7 :: nat"
abbreviation (input) "EPEN \<equiv> 0 :: nat"
abbreviation (input) "RSTDT \<equiv> 3 :: nat"
abbreviation (input) "STALLRQC \<equiv> 4 :: nat"
abbreviation (input) "STALLRQ \<equiv> 5 :: nat"
abbreviation (input) "EPDIR \<equiv> 0 :: nat"
abbreviation (input) "ALLOC \<equiv> 1 :: nat"
abbreviation (input) "CFGOK \<equiv> 7 :: nat"
abbreviation (input) "SOFI \<equiv> 2 :: nat"

definition msk :: "nat \<Rightarrow> u8" where "msk b = push_bit b 1"

abbreviation (input) "ENDPOINT_CONTROLEP \<equiv> 0 :: u8"
abbreviation (input) "ENDPOINT_DIR_OUT \<equiv> 0 :: u8"
abbreviation (input) "ENDPOINT_DIR_IN \<equiv> 1 :: u8"
abbreviation (input) "ENDPOINT_BANK_SINGLE \<equiv> 0 :: u8"
abbreviation (input) "ENDPOINT_TOTAL_ENDPOINTS \<equiv> 7 :: u8"
abbreviation (input) "EP_TYPE_CONTROL \<equiv> 0 :: u8"
abbreviation (input) "EP_TYPE_INTERRUPT \<equiv> 3 :: u8"
abbreviation (input) "USB_ControlEndpointSize \<equiv> 64 :: u16"

section \<open>The macros of \<open>Endpoint.h\<close>\<close>

definition Endpoint_BytesInEndpoint :: "'a lufa_scheme \<Rightarrow> (u16 \<times> 'a lufa_scheme) option" where
  "Endpoint_BytesInEndpoint s = do {
     (h, s) \<leftarrow> rd UEBCHX s;
     (l, s) \<leftarrow> rd UEBCLX s;
     Some (push_bit 8 (ucast h) OR ucast l, s) }"

definition Endpoint_GetCurrentEndpoint :: "'a lufa_scheme \<Rightarrow> u8" where
  "Endpoint_GetCurrentEndpoint s = uenum s AND 0x07"

definition Endpoint_SelectEndpoint :: "u8 \<Rightarrow> 'a lufa_scheme \<Rightarrow> 'a lufa_scheme" where
  "Endpoint_SelectEndpoint n s = (wr UENUM n s)\<lparr>uenum := n\<rparr>"

definition Endpoint_ResetFIFO :: "u8 \<Rightarrow> 'a lufa_scheme \<Rightarrow> 'a lufa_scheme" where
  "Endpoint_ResetFIFO n s = wr UERST 0 (wr UERST (msk (unat n)) s)"

definition Endpoint_EnableEndpoint :: "'a lufa_scheme \<Rightarrow> 'a lufa_scheme option" where
  "Endpoint_EnableEndpoint = rmw UECONX (\<lambda>x. x OR msk EPEN)"

definition Endpoint_DisableEndpoint :: "'a lufa_scheme \<Rightarrow> 'a lufa_scheme option" where
  "Endpoint_DisableEndpoint = rmw UECONX (\<lambda>x. x AND NOT (msk EPEN))"

definition Endpoint_IsEnabled :: "'a lufa_scheme \<Rightarrow> (bool \<times> 'a lufa_scheme) option" where
  "Endpoint_IsEnabled = flag UECONX EPEN"

definition Endpoint_IsReadWriteAllowed :: "'a lufa_scheme \<Rightarrow> (bool \<times> 'a lufa_scheme) option" where
  "Endpoint_IsReadWriteAllowed = flag UEINTX RWAL"

definition Endpoint_IsConfigured :: "'a lufa_scheme \<Rightarrow> (bool \<times> 'a lufa_scheme) option" where
  "Endpoint_IsConfigured = flag UESTA0X CFGOK"

definition Endpoint_GetEndpointInterrupts :: "'a lufa_scheme \<Rightarrow> (u8 \<times> 'a lufa_scheme) option" where
  "Endpoint_GetEndpointInterrupts = rd UEINT"

definition Endpoint_HasEndpointInterrupted :: "nat \<Rightarrow> 'a lufa_scheme \<Rightarrow> (bool \<times> 'a lufa_scheme) option" where
  "Endpoint_HasEndpointInterrupted n = flag UEINT n"

definition Endpoint_IsINReady :: "'a lufa_scheme \<Rightarrow> (bool \<times> 'a lufa_scheme) option" where
  "Endpoint_IsINReady = flag UEINTX TXINI"

definition Endpoint_IsOUTReceived :: "'a lufa_scheme \<Rightarrow> (bool \<times> 'a lufa_scheme) option" where
  "Endpoint_IsOUTReceived = flag UEINTX RXOUTI"

definition Endpoint_IsSETUPReceived :: "'a lufa_scheme \<Rightarrow> (bool \<times> 'a lufa_scheme) option" where
  "Endpoint_IsSETUPReceived = flag UEINTX RXSTPI"

definition Endpoint_ClearSETUP :: "'a lufa_scheme \<Rightarrow> 'a lufa_scheme option" where
  "Endpoint_ClearSETUP = rmw UEINTX (\<lambda>x. x AND NOT (msk RXSTPI))"

definition Endpoint_ClearIN :: "'a lufa_scheme \<Rightarrow> 'a lufa_scheme option" where
  "Endpoint_ClearIN s = do {
     (Temp, s) \<leftarrow> rd UEINTX s;
     let s = wr UEINTX (Temp AND NOT (msk TXINI)) s;
     Some (wr UEINTX (Temp AND NOT (msk FIFOCON)) s) }"

definition Endpoint_ClearOUT :: "'a lufa_scheme \<Rightarrow> 'a lufa_scheme option" where
  "Endpoint_ClearOUT s = do {
     (Temp, s) \<leftarrow> rd UEINTX s;
     let s = wr UEINTX (Temp AND NOT (msk RXOUTI)) s;
     Some (wr UEINTX (Temp AND NOT (msk FIFOCON)) s) }"

definition Endpoint_StallTransaction :: "'a lufa_scheme \<Rightarrow> 'a lufa_scheme option" where
  "Endpoint_StallTransaction = rmw UECONX (\<lambda>x. x OR msk STALLRQ)"

definition Endpoint_ClearStall :: "'a lufa_scheme \<Rightarrow> 'a lufa_scheme option" where
  "Endpoint_ClearStall = rmw UECONX (\<lambda>x. x OR msk STALLRQC)"

definition Endpoint_IsStalled :: "'a lufa_scheme \<Rightarrow> (bool \<times> 'a lufa_scheme) option" where
  "Endpoint_IsStalled = flag UECONX STALLRQ"

definition Endpoint_ResetDataToggle :: "'a lufa_scheme \<Rightarrow> 'a lufa_scheme option" where
  "Endpoint_ResetDataToggle = rmw UECONX (\<lambda>x. x OR msk RSTDT)"

definition Endpoint_GetEndpointDirection :: "'a lufa_scheme \<Rightarrow> (u8 \<times> 'a lufa_scheme) option" where
  "Endpoint_GetEndpointDirection s = do { (x, s) \<leftarrow> rd UECFG0X s; Some (x AND ENDPOINT_DIR_IN, s) }"

definition Endpoint_SetEndpointDirection :: "u8 \<Rightarrow> 'a lufa_scheme \<Rightarrow> 'a lufa_scheme option" where
  "Endpoint_SetEndpointDirection d = rmw UECFG0X (\<lambda>x. (x AND NOT ENDPOINT_DIR_IN) OR d)"

definition Endpoint_DeallocateMemory :: "'a lufa_scheme \<Rightarrow> 'a lufa_scheme option" where
  "Endpoint_DeallocateMemory = rmw UECFG1X (\<lambda>x. x AND NOT (msk ALLOC))"

definition Endpoint_AllocateMemory :: "'a lufa_scheme \<Rightarrow> 'a lufa_scheme option" where
  "Endpoint_AllocateMemory = rmw UECFG1X (\<lambda>x. x OR msk ALLOC)"

section \<open>The inline functions of \<open>Endpoint.h\<close>\<close>

definition Endpoint_Read_Byte :: "'a lufa_scheme \<Rightarrow> (u8 \<times> 'a lufa_scheme) option" where
  "Endpoint_Read_Byte = rd UEDATX"

definition Endpoint_Write_Byte :: "u8 \<Rightarrow> 'a lufa_scheme \<Rightarrow> 'a lufa_scheme" where
  "Endpoint_Write_Byte b = wr UEDATX b"

definition Endpoint_Discard_Byte :: "'a lufa_scheme \<Rightarrow> 'a lufa_scheme option" where
  "Endpoint_Discard_Byte s = do { (Dummy, s) \<leftarrow> rd UEDATX s; Some s }"

definition Endpoint_Read_Word_LE :: "'a lufa_scheme \<Rightarrow> (u16 \<times> 'a lufa_scheme) option" where
  "Endpoint_Read_Word_LE s = do {
     (b0, s) \<leftarrow> rd UEDATX s;
     (b1, s) \<leftarrow> rd UEDATX s;
     Some (word_rcat [b1, b0], s) }"

definition Endpoint_Read_Word_BE :: "'a lufa_scheme \<Rightarrow> (u16 \<times> 'a lufa_scheme) option" where
  "Endpoint_Read_Word_BE s = do {
     (b1, s) \<leftarrow> rd UEDATX s;
     (b0, s) \<leftarrow> rd UEDATX s;
     Some (word_rcat [b1, b0], s) }"

definition Endpoint_Write_Word_LE :: "u16 \<Rightarrow> 'a lufa_scheme \<Rightarrow> 'a lufa_scheme" where
  "Endpoint_Write_Word_LE w s = wr UEDATX (ucast (drop_bit 8 w)) (wr UEDATX (ucast (w AND 0xFF)) s)"

definition Endpoint_Write_Word_BE :: "u16 \<Rightarrow> 'a lufa_scheme \<Rightarrow> 'a lufa_scheme" where
  "Endpoint_Write_Word_BE w s = wr UEDATX (ucast (w AND 0xFF)) (wr UEDATX (ucast (drop_bit 8 w)) s)"

definition Endpoint_Read_DWord_LE :: "'a lufa_scheme \<Rightarrow> (32 word \<times> 'a lufa_scheme) option" where
  "Endpoint_Read_DWord_LE s = do {
     (b0, s) \<leftarrow> rd UEDATX s;
     (b1, s) \<leftarrow> rd UEDATX s;
     (b2, s) \<leftarrow> rd UEDATX s;
     (b3, s) \<leftarrow> rd UEDATX s;
     Some (word_rcat [b3, b2, b1, b0], s) }"

definition Endpoint_Read_DWord_BE :: "'a lufa_scheme \<Rightarrow> (32 word \<times> 'a lufa_scheme) option" where
  "Endpoint_Read_DWord_BE s = do {
     (b3, s) \<leftarrow> rd UEDATX s;
     (b2, s) \<leftarrow> rd UEDATX s;
     (b1, s) \<leftarrow> rd UEDATX s;
     (b0, s) \<leftarrow> rd UEDATX s;
     Some (word_rcat [b3, b2, b1, b0], s) }"

definition Endpoint_Write_DWord_LE :: "32 word \<Rightarrow> 'a lufa_scheme \<Rightarrow> 'a lufa_scheme" where
  "Endpoint_Write_DWord_LE w s =
     (let s = wr UEDATX (ucast (w AND 0xFF)) s;
          s = wr UEDATX (ucast (drop_bit 8 w)) s;
          s = wr UEDATX (ucast (drop_bit 16 w)) s
      in wr UEDATX (ucast (drop_bit 24 w)) s)"

definition Endpoint_Write_DWord_BE :: "32 word \<Rightarrow> 'a lufa_scheme \<Rightarrow> 'a lufa_scheme" where
  "Endpoint_Write_DWord_BE w s =
     (let s = wr UEDATX (ucast (drop_bit 24 w)) s;
          s = wr UEDATX (ucast (drop_bit 16 w)) s;
          s = wr UEDATX (ucast (drop_bit 8 w)) s
      in wr UEDATX (ucast (w AND 0xFF)) s)"

definition Endpoint_Discard_Word :: "'a lufa_scheme \<Rightarrow> 'a lufa_scheme option" where
  "Endpoint_Discard_Word s = do { s \<leftarrow> Endpoint_Discard_Byte s; Endpoint_Discard_Byte s }"

definition Endpoint_Discard_DWord :: "'a lufa_scheme \<Rightarrow> 'a lufa_scheme option" where
  "Endpoint_Discard_DWord s = do { s \<leftarrow> Endpoint_Discard_Word s; Endpoint_Discard_Word s }"

text \<open>
  \<open>Endpoint_BytesToEPSizeMask\<close>: the 16-bit \<open>CheckBytes\<close> is doubled until it reaches \<open>Bytes\<close>; above
  32768 it wraps to 0 and the loop never ends.
\<close>

partial_function (option) epsize_loop :: "u8 \<Rightarrow> u16 \<Rightarrow> u16 \<Rightarrow> u8 option" where
  "epsize_loop MaskVal CheckBytes Bytes =
     (if CheckBytes < Bytes then epsize_loop (MaskVal + 1) (push_bit 1 CheckBytes) Bytes
      else Some MaskVal)"

definition Endpoint_BytesToEPSizeMask :: "u16 \<Rightarrow> u8 option" where
  "Endpoint_BytesToEPSizeMask Bytes = map_option (push_bit 4) (epsize_loop 0 8 Bytes)"

end
