(* ===== verification/LufaStream.thy ===== *)
theory LufaStream
  imports LufaEndpoint
begin

text \<open>
  The functions of \<open>Endpoint.c\<close>: configuration of endpoints, the waits, and the stream functions
  its templates \<open>Template_Endpoint_RW.c\<close>, \<open>Template_Endpoint_Control_W.c\<close> and
  \<open>Template_Endpoint_Control_R.c\<close> expand to. A template is a definition over the bytes in the order
  they are transferred; its little and big endian instances choose that order. That the source or
  destination is RAM, flash or EEPROM makes no difference to the bytes transferred.
\<close>

section \<open>What the reads consume\<close>

definition consumes :: "'a lufa_scheme \<Rightarrow> 'a lufa_scheme \<Rightarrow> bool" where
  "consumes s t \<longleftrightarrow> (\<forall>r. length (inp t r) \<le> length (inp s r))"

named_theorems endpoint_defs \<open>the macros of Endpoint.h\<close>
named_theorems consumed \<open>what an operation consumes\<close>

declare Endpoint_BytesInEndpoint_def [endpoint_defs] Endpoint_IsReadWriteAllowed_def [endpoint_defs]
  Endpoint_IsINReady_def [endpoint_defs] Endpoint_IsOUTReceived_def [endpoint_defs]
  Endpoint_IsSETUPReceived_def [endpoint_defs] Endpoint_ClearSETUP_def [endpoint_defs]
  Endpoint_ClearIN_def [endpoint_defs] Endpoint_ClearOUT_def [endpoint_defs]
  Endpoint_IsStalled_def [endpoint_defs] Endpoint_GetEndpointDirection_def [endpoint_defs]
  Endpoint_Read_Byte_def [endpoint_defs] Endpoint_Write_Byte_def [endpoint_defs]
  Endpoint_Discard_Byte_def [endpoint_defs]

lemma consumes_refl [simp]: "consumes s s"
  by (simp add: consumes_def)

lemma consumes_trans: "consumes s t \<Longrightarrow> consumes t u \<Longrightarrow> consumes s u"
  by (meson consumes_def le_trans)

lemma rd_consumed: "rd r s = Some (x, t) \<Longrightarrow> consumes s t \<and> length (inp t r) < length (inp s r)"
  by (auto simp: rd_def consumes_def split: list.splits)

lemma inp_wr [simp]: "inp (wr r x s) = inp s"
  by (simp add: wr_def)

lemma consumes_wr [simp]: "consumes s (wr r x t) \<longleftrightarrow> consumes s t"
  by (simp add: consumes_def)

lemma irq_effect_inp [simp]: "inp (irq_effect i s) = inp s"
  by (cases i) simp_all

lemma inp_read_state [simp]: "read_state s = (d, t) \<Longrightarrow> inp t = inp s"
  by (auto simp: read_state_def Let_def split: list.splits option.splits)

lemma read_state_inp: "(d, t) = read_state s \<Longrightarrow> inp t = inp s"
  by (metis inp_read_state)

lemma consumes_read_state: "read_state s = (d, t) \<Longrightarrow> consumes s t"
  by (simp add: consumes_def)

lemma flag_consumed: "flag r b s = Some (x, t) \<Longrightarrow> consumes s t \<and> length (inp t r) < length (inp s r)"
  by (auto simp: flag_def dest: rd_consumed split: bind_splits)

lemma rmw_consumed: "rmw r f s = Some t \<Longrightarrow> consumes s t \<and> length (inp t r) < length (inp s r)"
  by (auto simp: rmw_def dest: rd_consumed split: bind_splits)

lemma clear_consumed:
  "Endpoint_ClearIN s = Some t \<Longrightarrow> consumes s t \<and> length (inp t UEINTX) < length (inp s UEINTX)"
  "Endpoint_ClearOUT s = Some t \<Longrightarrow> consumes s t \<and> length (inp t UEINTX) < length (inp s UEINTX)"
  by (auto simp: endpoint_defs dest: rd_consumed split: bind_splits)

lemma bytes_consumed: "Endpoint_BytesInEndpoint s = Some (n, t) \<Longrightarrow> consumes s t"
  by (auto simp: endpoint_defs dest!: rd_consumed split: bind_splits intro: consumes_trans)

lemma consumesD: "consumes s t \<Longrightarrow> length (inp t r) \<le> length (inp s r)"
  by (simp add: consumes_def)

lemma consumesD2:
  "consumes s t \<Longrightarrow> length (inp t r) \<le> length (inp s r) \<and> length (inp t q) \<le> length (inp s q)"
  by (simp add: consumes_def)

section \<open>Configuration and waits\<close>

definition Endpoint_ConfigureEndpoint_Prv ::
    "u8 \<Rightarrow> u8 \<Rightarrow> u8 \<Rightarrow> 'a lufa_scheme \<Rightarrow> (bool \<times> 'a lufa_scheme) option" where
  "Endpoint_ConfigureEndpoint_Prv Number UECFG0XData UECFG1XData s = do {
     let s = Endpoint_SelectEndpoint Number s;
     s \<leftarrow> Endpoint_EnableEndpoint s;
     let s = wr UECFG1X 0 s;
     let s = wr UECFG0X UECFG0XData s;
     let s = wr UECFG1X UECFG1XData s;
     Endpoint_IsConfigured s }"

definition Endpoint_ConfigureEndpoint ::
    "u8 \<Rightarrow> u8 \<Rightarrow> u8 \<Rightarrow> u16 \<Rightarrow> u8 \<Rightarrow> 'a lufa_scheme \<Rightarrow> (bool \<times> 'a lufa_scheme) option" where
  "Endpoint_ConfigureEndpoint Number Type Direction Size Banks s = do {
     m \<leftarrow> Endpoint_BytesToEPSizeMask Size;
     Endpoint_ConfigureEndpoint_Prv Number (push_bit 6 Type OR Direction)
       (msk ALLOC OR Banks OR m) s }"

fun clear_endpoints :: "u8 list \<Rightarrow> 'a lufa_scheme \<Rightarrow> 'a lufa_scheme option" where
  "clear_endpoints [] s = Some s"
| "clear_endpoints (EPNum # ns) s = do {
     let s = Endpoint_SelectEndpoint EPNum s;
     let s = wr UEIENX 0 s;
     let s = wr UEINTX 0 s;
     s \<leftarrow> Endpoint_DeallocateMemory s;
     s \<leftarrow> Endpoint_DisableEndpoint s;
     clear_endpoints ns s }"

definition Endpoint_ClearEndpoints :: "'a lufa_scheme \<Rightarrow> 'a lufa_scheme option" where
  "Endpoint_ClearEndpoints s =
     clear_endpoints (map of_nat [0..<unat ENDPOINT_TOTAL_ENDPOINTS]) (wr UEINT 0 s)"

text \<open>
  \<open>while (!(flag)) { if (USB_DeviceState == DEVICE_STATE_Unattached) return; }\<close>: whether the flag
  was seen, or the device was detached first.
\<close>

function wait_flag :: "nat \<Rightarrow> 'a lufa_scheme \<Rightarrow> (bool \<times> 'a lufa_scheme) option" where
  "wait_flag b s = do {
     (x, s) \<leftarrow> flag UEINTX b s;
     if x then Some (True, s)
     else (let (d, s) = read_state s in
           if d = Unattached then Some (False, s) else wait_flag b s) }"
  by pat_completeness auto
termination
  by (relation "measure (\<lambda>(b, s). length (inp s UEINTX))")
    (auto dest!: flag_consumed read_state_inp)

declare wait_flag.simps [simp del]

definition Endpoint_ClearStatusStage :: "'a lufa_scheme \<Rightarrow> 'a lufa_scheme option" where
  "Endpoint_ClearStatusStage s =
     (if bit (bmRequestType (USB_ControlRequest s)) 7 then do {
        (seen, s) \<leftarrow> wait_flag RXOUTI s;
        if seen then Endpoint_ClearOUT s else Some s }
      else do {
        (seen, s) \<leftarrow> wait_flag TXINI s;
        if seen then Endpoint_ClearIN s else Some s })"

datatype rw_error = RW_NoError | RW_EndpointStalled | RW_DeviceDisconnected | RW_Timeout

abbreviation (input) "USB_STREAM_TIMEOUT_MS \<equiv> 100 :: u8"

function wait_ready :: "u8 \<Rightarrow> 'a lufa_scheme \<Rightarrow> (rw_error \<times> 'a lufa_scheme) option" where
  "wait_ready TimeoutMSRem s = do {
     (dir, s) \<leftarrow> Endpoint_GetEndpointDirection s;
     (ready, s) \<leftarrow> (if dir = ENDPOINT_DIR_IN then Endpoint_IsINReady s else Endpoint_IsOUTReceived s);
     if ready then Some (RW_NoError, s)
     else (let (d, s) = read_state s in
       if d = Unattached then Some (RW_DeviceDisconnected, s)
       else do {
         (stalled, s) \<leftarrow> Endpoint_IsStalled s;
         if stalled then Some (RW_EndpointStalled, s)
         else do {
           (sof, s) \<leftarrow> flag UDINT SOFI s;
           if sof then do {
             s \<leftarrow> rmw UDINT (\<lambda>x. x AND NOT (msk SOFI)) s;
             if TimeoutMSRem = 0 then Some (RW_Timeout, s)
             else wait_ready (TimeoutMSRem - 1) s }
           else wait_ready TimeoutMSRem s } }) }"
  by pat_completeness auto
termination
proof (relation "measure (\<lambda>(n, s). length (inp s UECFG0X))", goal_cases)
  case 1
  show ?case by simp
next
  case (2 n s x xa xb y xc xd ya xe xf yb xg xh yc xi)
  then show ?case
    by (auto simp: endpoint_defs dest!: rd_consumed flag_consumed rmw_consumed read_state_inp
        consumesD [of _ _ UECFG0X] split: bind_splits if_splits)
next
  case (3 n s x xa xb y xc xd ya xe xf yb xg xh yc)
  then show ?case
    by (auto simp: endpoint_defs dest!: rd_consumed flag_consumed rmw_consumed read_state_inp
        consumesD [of _ _ UECFG0X] split: bind_splits if_splits)
qed

declare wait_ready.simps [simp del]

definition Endpoint_WaitUntilReady :: "'a lufa_scheme \<Rightarrow> (rw_error \<times> 'a lufa_scheme) option" where
  "Endpoint_WaitUntilReady = wait_ready USB_STREAM_TIMEOUT_MS"

section \<open>Endpoint streams (\<open>Template_Endpoint_RW.c\<close>)\<close>

lemma wait_ready_consumed: "wait_ready n s = Some (e, t) \<Longrightarrow> consumes s t"
proof (induction "length (inp s UECFG0X)" arbitrary: n s rule: less_induct)
  case less
  have IH: "length (inp t r) \<le> length (inp u r)"
    if "wait_ready m u = Some (e, t)" "length (inp u UECFG0X) < length (inp s UECFG0X)" for m u r
    using less.hyps [OF that(2,1)] by (simp add: consumes_def)
  show ?case
    unfolding consumes_def
  proof
    fix r
    from less.prems show "length (inp t r) \<le> length (inp s r)"
      by (subst (asm) wait_ready.simps)
        (auto simp: endpoint_defs Let_def dest!: rd_consumed flag_consumed rmw_consumed
          consumesD2 [of _ _ r UECFG0X] IH [of _ _ r]
          split: bind_splits if_splits prod.splits)
  qed
qed

text \<open>
  \<open>DataStream\<close> holds the bytes the buffer pointer runs over, \<open>Length\<close> how many of them are to be
  transferred; running past the buffer has no defined result.
\<close>

function stream_write_loop ::
    "u8 list \<Rightarrow> u16 \<Rightarrow> 'a lufa_scheme \<Rightarrow> (rw_error \<times> 'a lufa_scheme) option" where
  "stream_write_loop DataStream Length s =
     (if Length = 0 then Some (RW_NoError, s)
      else do {
        (allowed, s) \<leftarrow> Endpoint_IsReadWriteAllowed s;
        if \<not> allowed then do {
          s \<leftarrow> Endpoint_ClearIN s;
          (ErrorCode, s) \<leftarrow> Endpoint_WaitUntilReady s;
          if ErrorCode \<noteq> RW_NoError then Some (ErrorCode, s)
          else stream_write_loop DataStream Length s }
        else (case DataStream of
            [] \<Rightarrow> None
          | b # bs \<Rightarrow> stream_write_loop bs (Length - 1) (Endpoint_Write_Byte b s)) })"
  by pat_completeness auto
termination
  by (relation "measure (\<lambda>(d, n, s). length (inp s UEINTX))")
    (auto simp: endpoint_defs Endpoint_WaitUntilReady_def dest!: rd_consumed flag_consumed
      wait_ready_consumed consumesD [of _ _ UEINTX] split: bind_splits)

declare stream_write_loop.simps [simp del]

definition stream_write :: "u8 list \<Rightarrow> u16 \<Rightarrow> 'a lufa_scheme \<Rightarrow> (rw_error \<times> 'a lufa_scheme) option" where
  "stream_write DataStream Length s = do {
     (ErrorCode, s) \<leftarrow> Endpoint_WaitUntilReady s;
     if ErrorCode \<noteq> RW_NoError then Some (ErrorCode, s) else stream_write_loop DataStream Length s }"

function stream_read_loop ::
    "u16 \<Rightarrow> u8 list \<Rightarrow> 'a lufa_scheme \<Rightarrow> (rw_error \<times> u8 list \<times> 'a lufa_scheme) option" where
  "stream_read_loop Length got s =
     (if Length = 0 then Some (RW_NoError, got, s)
      else do {
        (allowed, s) \<leftarrow> Endpoint_IsReadWriteAllowed s;
        if \<not> allowed then do {
          s \<leftarrow> Endpoint_ClearOUT s;
          (ErrorCode, s) \<leftarrow> Endpoint_WaitUntilReady s;
          if ErrorCode \<noteq> RW_NoError then Some (ErrorCode, got, s)
          else stream_read_loop Length got s }
        else do {
          (b, s) \<leftarrow> Endpoint_Read_Byte s;
          stream_read_loop (Length - 1) (got @ [b]) s } })"
  by pat_completeness auto
termination
  by (relation "measure (\<lambda>(n, g, s). length (inp s UEINTX))")
    (auto simp: endpoint_defs Endpoint_WaitUntilReady_def dest!: rd_consumed flag_consumed
      wait_ready_consumed consumesD [of _ _ UEINTX] split: bind_splits)

declare stream_read_loop.simps [simp del]

definition stream_read :: "u16 \<Rightarrow> 'a lufa_scheme \<Rightarrow> (rw_error \<times> u8 list \<times> 'a lufa_scheme) option" where
  "stream_read Length s = do {
     (ErrorCode, s) \<leftarrow> Endpoint_WaitUntilReady s;
     if ErrorCode \<noteq> RW_NoError then Some (ErrorCode, [], s) else stream_read_loop Length [] s }"

function discard_loop :: "u16 \<Rightarrow> 'a lufa_scheme \<Rightarrow> (rw_error \<times> 'a lufa_scheme) option" where
  "discard_loop Length s =
     (if Length = 0 then Some (RW_NoError, s)
      else do {
        (allowed, s) \<leftarrow> Endpoint_IsReadWriteAllowed s;
        if \<not> allowed then do {
          s \<leftarrow> Endpoint_ClearOUT s;
          (ErrorCode, s) \<leftarrow> Endpoint_WaitUntilReady s;
          if ErrorCode \<noteq> RW_NoError then Some (ErrorCode, s) else discard_loop Length s }
        else do {
          s \<leftarrow> Endpoint_Discard_Byte s;
          discard_loop (Length - 1) s } })"
  by pat_completeness auto
termination
  by (relation "measure (\<lambda>(n, s). length (inp s UEINTX))")
    (auto simp: endpoint_defs Endpoint_WaitUntilReady_def dest!: rd_consumed flag_consumed
      wait_ready_consumed consumesD [of _ _ UEINTX] split: bind_splits)

declare discard_loop.simps [simp del]

definition Endpoint_Discard_Stream :: "u16 \<Rightarrow> 'a lufa_scheme \<Rightarrow> (rw_error \<times> 'a lufa_scheme) option" where
  "Endpoint_Discard_Stream Length s = do {
     (ErrorCode, s) \<leftarrow> Endpoint_WaitUntilReady s;
     if ErrorCode \<noteq> RW_NoError then Some (ErrorCode, s) else discard_loop Length s }"

text \<open>
  The instances. A big endian transfer starts at the last byte of the buffer; a read returns the
  bytes as they stand in memory, at the start of the buffer (little endian) or at the end of its
  first \<open>Length\<close> bytes (big endian).
\<close>

definition last_first :: "u8 list \<Rightarrow> u16 \<Rightarrow> u8 list" where
  "last_first Buffer Length = rev (take (unat Length) Buffer)"

definition Endpoint_Write_Stream_LE :: "u8 list \<Rightarrow> u16 \<Rightarrow> 'a lufa_scheme \<Rightarrow> (rw_error \<times> 'a lufa_scheme) option" where
  "Endpoint_Write_Stream_LE Buffer Length = stream_write Buffer Length"

definition Endpoint_Write_PStream_LE :: "u8 list \<Rightarrow> u16 \<Rightarrow> 'a lufa_scheme \<Rightarrow> (rw_error \<times> 'a lufa_scheme) option" where
  "Endpoint_Write_PStream_LE Buffer Length = stream_write Buffer Length"

definition Endpoint_Write_EStream_LE :: "u8 list \<Rightarrow> u16 \<Rightarrow> 'a lufa_scheme \<Rightarrow> (rw_error \<times> 'a lufa_scheme) option" where
  "Endpoint_Write_EStream_LE Buffer Length = stream_write Buffer Length"

definition Endpoint_Write_Stream_BE :: "u8 list \<Rightarrow> u16 \<Rightarrow> 'a lufa_scheme \<Rightarrow> (rw_error \<times> 'a lufa_scheme) option" where
  "Endpoint_Write_Stream_BE Buffer Length = stream_write (last_first Buffer Length) Length"

definition Endpoint_Write_EStream_BE :: "u8 list \<Rightarrow> u16 \<Rightarrow> 'a lufa_scheme \<Rightarrow> (rw_error \<times> 'a lufa_scheme) option" where
  "Endpoint_Write_EStream_BE Buffer Length = stream_write (last_first Buffer Length) Length"

definition Endpoint_Write_PStream_BE :: "u8 list \<Rightarrow> u16 \<Rightarrow> 'a lufa_scheme \<Rightarrow> (rw_error \<times> 'a lufa_scheme) option" where
  "Endpoint_Write_PStream_BE Buffer Length = stream_write (last_first Buffer Length) Length"

definition rev_data :: "(rw_error \<times> u8 list \<times> 'a lufa_scheme) option \<Rightarrow> (rw_error \<times> u8 list \<times> 'a lufa_scheme) option" where
  "rev_data = map_option (\<lambda>(e, bs, s). (e, rev bs, s))"

definition Endpoint_Read_Stream_LE :: "u16 \<Rightarrow> 'a lufa_scheme \<Rightarrow> (rw_error \<times> u8 list \<times> 'a lufa_scheme) option" where
  "Endpoint_Read_Stream_LE Length s = stream_read Length s"

definition Endpoint_Read_EStream_LE :: "u16 \<Rightarrow> 'a lufa_scheme \<Rightarrow> (rw_error \<times> u8 list \<times> 'a lufa_scheme) option" where
  "Endpoint_Read_EStream_LE Length s = stream_read Length s"

definition Endpoint_Read_Stream_BE :: "u16 \<Rightarrow> 'a lufa_scheme \<Rightarrow> (rw_error \<times> u8 list \<times> 'a lufa_scheme) option" where
  "Endpoint_Read_Stream_BE Length s = rev_data (stream_read Length s)"

definition Endpoint_Read_EStream_BE :: "u16 \<Rightarrow> 'a lufa_scheme \<Rightarrow> (rw_error \<times> u8 list \<times> 'a lufa_scheme) option" where
  "Endpoint_Read_EStream_BE Length s = rev_data (stream_read Length s)"

section \<open>Control streams\<close>

datatype rwc_error = RWC_NoError | RWC_HostAborted | RWC_DeviceDisconnected

fun control_fill ::
    "u8 list \<Rightarrow> u16 \<Rightarrow> u16 \<Rightarrow> 'a lufa_scheme \<Rightarrow> (u8 list \<times> u16 \<times> u16 \<times> 'a lufa_scheme) option" where
  "control_fill DataStream Length BytesInEndpoint s =
     (if Length \<noteq> 0 \<and> BytesInEndpoint < USB_ControlEndpointSize
      then (case DataStream of
          [] \<Rightarrow> None
        | b # bs \<Rightarrow> control_fill bs (Length - 1) (BytesInEndpoint + 1) (Endpoint_Write_Byte b s))
      else Some (DataStream, Length, BytesInEndpoint, s))"

declare control_fill.simps [simp del]

lemma control_fill_inp: "control_fill d n k s = Some (d', n', k', t) \<Longrightarrow> inp t = inp s"
proof (induction d arbitrary: n k s)
  case Nil
  then show ?case
    by (subst (asm) control_fill.simps) (simp split: if_splits)
next
  case (Cons b d)
  from Cons.prems show ?case
    by (subst (asm) control_fill.simps) (auto simp: Endpoint_Write_Byte_def dest: Cons.IH split: if_splits)
qed

definition wait_out :: "'a lufa_scheme \<Rightarrow> (rwc_error \<times> 'a lufa_scheme) option" where
  "wait_out s = do {
     (seen, s) \<leftarrow> wait_flag RXOUTI s;
     Some (if seen then RWC_NoError else RWC_DeviceDisconnected, s) }"

function control_write_loop ::
    "u8 list \<Rightarrow> u16 \<Rightarrow> bool \<Rightarrow> 'a lufa_scheme \<Rightarrow> (rwc_error \<times> 'a lufa_scheme) option" where
  "control_write_loop DataStream Length LastPacketFull s =
     (if Length \<noteq> 0 \<or> LastPacketFull then do {
        (setup, s) \<leftarrow> Endpoint_IsSETUPReceived s;
        if setup then Some (RWC_HostAborted, s)
        else do {
          (ended, s) \<leftarrow> Endpoint_IsOUTReceived s;
          if ended then wait_out s
          else (let (d, s) = read_state s in
            if d = Unattached then Some (RWC_DeviceDisconnected, s)
            else do {
              (ready, s) \<leftarrow> Endpoint_IsINReady s;
              if ready then do {
                (n, s) \<leftarrow> Endpoint_BytesInEndpoint s;
                (DataStream, Length, n, s) \<leftarrow> control_fill DataStream Length n s;
                s \<leftarrow> Endpoint_ClearIN s;
                control_write_loop DataStream Length (n = USB_ControlEndpointSize) s }
              else control_write_loop DataStream Length LastPacketFull s }) } }
      else wait_out s)"
  by pat_completeness auto
termination
  by (relation "measure (\<lambda>(d, n, l, s). length (inp s UEINTX))")
    (auto dest!: flag_consumed read_state_inp bytes_consumed control_fill_inp clear_consumed
      consumesD [of _ _ UEINTX]
      simp: Endpoint_IsSETUPReceived_def Endpoint_IsOUTReceived_def Endpoint_IsINReady_def)

declare control_write_loop.simps [simp del]

text \<open>\<open>Template_Endpoint_Control_W.c\<close>\<close>

definition control_write ::
    "u8 list \<Rightarrow> u16 \<Rightarrow> 'a lufa_scheme \<Rightarrow> (rwc_error \<times> 'a lufa_scheme) option" where
  "control_write DataStream Length s =
     (if Length > wLength (USB_ControlRequest s)
      then control_write_loop DataStream (wLength (USB_ControlRequest s)) False s
      else if Length = 0 then do {
        s \<leftarrow> Endpoint_ClearIN s;
        control_write_loop DataStream Length False s }
      else control_write_loop DataStream Length False s)"

text \<open>\<open>Template_Endpoint_Control_R.c\<close>\<close>

function control_take ::
    "u16 \<Rightarrow> u8 list \<Rightarrow> 'a lufa_scheme \<Rightarrow> (u16 \<times> u8 list \<times> 'a lufa_scheme) option" where
  "control_take Length got s =
     (if Length = 0 then Some (Length, got, s)
      else do {
        (n, s) \<leftarrow> Endpoint_BytesInEndpoint s;
        if n = 0 then Some (Length, got, s)
        else do {
          (b, s) \<leftarrow> Endpoint_Read_Byte s;
          control_take (Length - 1) (got @ [b]) s } })"
  by pat_completeness auto
termination
  by (relation "measure (\<lambda>(n, g, s). unat n)") (auto intro: unat_pred_less)

declare control_take.simps [simp del]

lemma control_take_consumed: "control_take n g s = Some (n', g', t) \<Longrightarrow> consumes s t"
proof (induction "unat n" arbitrary: n g s rule: less_induct)
  case less
  have IH: "length (inp t r) \<le> length (inp u r)"
    if "control_take (n - 1) h u = Some (n', g', t)" "n \<noteq> 0" for h u r
    using less.hyps [OF unat_pred_less [OF that(2)]] that(1) less.prems
    by (simp add: consumes_def)
  show ?case
    unfolding consumes_def
  proof
    fix r
    from less.prems show "length (inp t r) \<le> length (inp s r)"
      by (subst (asm) control_take.simps)
        (auto simp: Endpoint_Read_Byte_def dest!: rd_consumed bytes_consumed
          consumesD [of _ _ r] IH [of _ _ r] split: bind_splits if_splits)
  qed
qed

function control_read_loop ::
    "u16 \<Rightarrow> u8 list \<Rightarrow> 'a lufa_scheme \<Rightarrow> (rwc_error \<times> u8 list \<times> 'a lufa_scheme) option" where
  "control_read_loop Length got s =
     (if Length = 0 then do {
        (seen, s) \<leftarrow> wait_flag TXINI s;
        Some (if seen then RWC_NoError else RWC_DeviceDisconnected, got, s) }
      else do {
        (setup, s) \<leftarrow> Endpoint_IsSETUPReceived s;
        if setup then Some (RWC_HostAborted, got, s)
        else (let (d, s) = read_state s in
          if d = Unattached then Some (RWC_DeviceDisconnected, got, s)
          else do {
            (received, s) \<leftarrow> Endpoint_IsOUTReceived s;
            if received then do {
              (Length, got, s) \<leftarrow> control_take Length got s;
              s \<leftarrow> Endpoint_ClearOUT s;
              control_read_loop Length got s }
            else control_read_loop Length got s }) })"
  by pat_completeness auto
termination
  by (relation "measure (\<lambda>(n, g, s). length (inp s UEINTX))")
    (auto dest!: flag_consumed read_state_inp control_take_consumed clear_consumed
      consumesD [of _ _ UEINTX]
      simp: Endpoint_IsSETUPReceived_def Endpoint_IsOUTReceived_def)

declare control_read_loop.simps [simp del]

definition control_read :: "u16 \<Rightarrow> 'a lufa_scheme \<Rightarrow> (rwc_error \<times> u8 list \<times> 'a lufa_scheme) option" where
  "control_read Length s = do {
     s \<leftarrow> (if Length = 0 then Endpoint_ClearOUT s else Some s);
     control_read_loop Length [] s }"

definition Endpoint_Write_Control_Stream_LE :: "u8 list \<Rightarrow> u16 \<Rightarrow> 'a lufa_scheme \<Rightarrow> (rwc_error \<times> 'a lufa_scheme) option" where
  "Endpoint_Write_Control_Stream_LE Buffer Length = control_write Buffer Length"

definition Endpoint_Write_Control_PStream_LE :: "u8 list \<Rightarrow> u16 \<Rightarrow> 'a lufa_scheme \<Rightarrow> (rwc_error \<times> 'a lufa_scheme) option" where
  "Endpoint_Write_Control_PStream_LE Buffer Length = control_write Buffer Length"

definition Endpoint_Write_Control_EStream_LE :: "u8 list \<Rightarrow> u16 \<Rightarrow> 'a lufa_scheme \<Rightarrow> (rwc_error \<times> 'a lufa_scheme) option" where
  "Endpoint_Write_Control_EStream_LE Buffer Length = control_write Buffer Length"

definition Endpoint_Write_Control_Stream_BE :: "u8 list \<Rightarrow> u16 \<Rightarrow> 'a lufa_scheme \<Rightarrow> (rwc_error \<times> 'a lufa_scheme) option" where
  "Endpoint_Write_Control_Stream_BE Buffer Length = control_write (last_first Buffer Length) Length"

definition Endpoint_Write_Control_PStream_BE :: "u8 list \<Rightarrow> u16 \<Rightarrow> 'a lufa_scheme \<Rightarrow> (rwc_error \<times> 'a lufa_scheme) option" where
  "Endpoint_Write_Control_PStream_BE Buffer Length = control_write (last_first Buffer Length) Length"

definition Endpoint_Write_Control_EStream_BE :: "u8 list \<Rightarrow> u16 \<Rightarrow> 'a lufa_scheme \<Rightarrow> (rwc_error \<times> 'a lufa_scheme) option" where
  "Endpoint_Write_Control_EStream_BE Buffer Length = control_write (last_first Buffer Length) Length"

definition rev_control :: "(rwc_error \<times> u8 list \<times> 'a lufa_scheme) option \<Rightarrow> (rwc_error \<times> u8 list \<times> 'a lufa_scheme) option" where
  "rev_control = map_option (\<lambda>(e, bs, s). (e, rev bs, s))"

definition Endpoint_Read_Control_Stream_LE :: "u16 \<Rightarrow> 'a lufa_scheme \<Rightarrow> (rwc_error \<times> u8 list \<times> 'a lufa_scheme) option" where
  "Endpoint_Read_Control_Stream_LE Length s = control_read Length s"

definition Endpoint_Read_Control_EStream_LE :: "u16 \<Rightarrow> 'a lufa_scheme \<Rightarrow> (rwc_error \<times> u8 list \<times> 'a lufa_scheme) option" where
  "Endpoint_Read_Control_EStream_LE Length s = control_read Length s"

definition Endpoint_Read_Control_Stream_BE :: "u16 \<Rightarrow> 'a lufa_scheme \<Rightarrow> (rwc_error \<times> u8 list \<times> 'a lufa_scheme) option" where
  "Endpoint_Read_Control_Stream_BE Length s = rev_control (control_read Length s)"

definition Endpoint_Read_Control_EStream_BE :: "u16 \<Rightarrow> 'a lufa_scheme \<Rightarrow> (rwc_error \<times> u8 list \<times> 'a lufa_scheme) option" where
  "Endpoint_Read_Control_EStream_BE Length s = rev_control (control_read Length s)"

end
