(* ===== verification/LufaTransfer.thy ===== *)
theory LufaTransfer
  imports LufaStream
begin

text \<open>
  What the streams of \<open>Endpoint.c\<close> transfer: for every behaviour of host and controller the bytes
  written are a prefix of the data, and a host that takes part receives all of it in packets of 64
  bytes and a short one; a read returns the received bytes; the waits are bounded.
\<close>

definition tx :: "'a lufa_scheme \<Rightarrow> u8 list" where
  "tx s = map snd (filter (\<lambda>(r, x). r = UEDATX) (out s))"

section \<open>What an operation leaves alone\<close>

text \<open>Everything but the registers and what the interrupts change.\<close>

definition frame :: "'a lufa_scheme \<Rightarrow> 'a lufa_scheme" where
  "frame s = s\<lparr>inp := \<lambda>_. [], out := [], irqs := [],
     USB_DeviceState := Unattached, USB_ConfigurationNumber := 0\<rparr>"

definition quiet :: "'a lufa_scheme \<Rightarrow> 'a lufa_scheme \<Rightarrow> bool" where
  "quiet s t \<longleftrightarrow>
     out t = out s \<and> frame t = frame s \<and> consumes s t \<and> inp t UEDATX = inp s UEDATX"

lemma out_wr [simp]: "out (wr r x s) = out s @ [(r, x)]"
  by (simp add: wr_def)

lemma frame_wr [simp]: "frame (wr r x s) = frame s"
  by (simp add: wr_def frame_def)

lemma tx_wr [simp]: "tx (wr r x s) = tx s @ (if r = UEDATX then [x] else [])"
  by (simp add: tx_def)

lemma frame_sel [simp]:
  "USB_ControlRequest (frame s) = USB_ControlRequest s"
  "uenum (frame s) = uenum s"
  "lufa.more (frame s) = lufa.more s"
  by (simp_all add: frame_def)

lemma frameD:
  assumes "frame t = frame s"
  shows "USB_ControlRequest t = USB_ControlRequest s"
    and "uenum t = uenum s" and "lufa.more t = lufa.more s"
  using assms by (metis frame_sel)+

lemma quiet_refl [simp]: "quiet s s"
  by (simp add: quiet_def)

lemma quiet_trans: "quiet s t \<Longrightarrow> quiet t u \<Longrightarrow> quiet s u"
  by (auto simp: quiet_def intro: consumes_trans)

lemma quiet_tx: "quiet s t \<Longrightarrow> tx t = tx s"
  by (simp add: quiet_def tx_def)

lemma rd_quiet:
  "rd r s = Some (x, t) \<Longrightarrow> r \<noteq> UEDATX \<Longrightarrow> quiet s t \<and> length (inp t r) < length (inp s r)"
  using rd_consumed [of r s x t]
  by (auto simp: rd_def quiet_def frame_def split: list.splits)

lemma flag_quiet:
  "flag r b s = Some (x, t) \<Longrightarrow> r \<noteq> UEDATX \<Longrightarrow> quiet s t \<and> length (inp t r) < length (inp s r)"
  by (auto simp: flag_def dest: rd_quiet split: bind_splits)

lemma read_state_quiet:
  assumes "read_state s = (d, t)"
  shows "quiet s t"
proof -
  have "frame (irq_effect i u) = frame u" "out (irq_effect i u) = out u" for i and u :: "'a lufa_scheme"
    by (cases i; simp add: frame_def)+
  moreover have "frame (s\<lparr>irqs := is\<rparr>) = frame s" for "is" by (simp add: frame_def)
  ultimately have "quiet s (snd (read_state s))"
    by (cases "irqs s") (simp_all add: read_state_def quiet_def consumes_def Let_def split: option.split)
  then show ?thesis using assms by simp
qed

lemma bytes_quiet: "Endpoint_BytesInEndpoint s = Some (n, t) \<Longrightarrow> quiet s t"
  by (auto simp: endpoint_defs dest!: rd_quiet split: bind_splits) (meson quiet_trans)

lemma quiet_length: "quiet s t \<Longrightarrow> length (inp t r) \<le> length (inp s r)"
  by (simp add: quiet_def consumes_def)

lemma quiet_strict:
  "quiet s t \<Longrightarrow> length (inp u r) < length (inp t r) \<Longrightarrow> length (inp u r) < length (inp s r)"
  using quiet_length [of s t r] by simp

lemma wait_flag_quiet: "wait_flag b s = Some (x, t) \<Longrightarrow> quiet s t"
proof (induction "length (inp s UEINTX)" arbitrary: s rule: less_induct)
  case less
  obtain f u where f: "flag UEINTX b s = Some (f, u)"
    using less.prems by (subst (asm) wait_flag.simps) (auto split: bind_splits)
  note u = flag_quiet [OF f, simplified]
  obtain d v where d: "read_state u = (d, v)" by fastforce
  note v = read_state_quiet [OF d]
  have "length (inp v UEINTX) < length (inp s UEINTX)" using u quiet_length [OF v, of UEINTX] by simp
  note ih = less.hyps [OF this]
  show ?case
    using less.prems f d u v ih
    by (subst (asm) wait_flag.simps) (auto split: if_splits intro: quiet_trans)
qed

lemma clear_quiet:
  assumes "Endpoint_ClearIN s = Some t \<or> Endpoint_ClearOUT s = Some t"
  shows "tx t = tx s \<and> frame t = frame s \<and> inp t UEDATX = inp s UEDATX \<and>
    length (inp t UEINTX) < length (inp s UEINTX)"
  using assms
  by (auto simp: endpoint_defs quiet_def tx_def dest!: rd_quiet split: bind_splits)

lemma rmw_quiet:
  "rmw r f s = Some t \<Longrightarrow> r \<noteq> UEDATX \<Longrightarrow> tx t = tx s \<and> frame t = frame s \<and> consumes s t"
  by (auto simp: rmw_def quiet_def tx_def dest!: rd_quiet split: bind_splits)

section \<open>Control writes\<close>

lemma control_fill_spec:
  "control_fill D n k s = Some (D', n', k', t) \<Longrightarrow>
   \<exists>m. m \<le> unat n \<and> m \<le> length D \<and> D' = drop m D \<and> unat n' = unat n - m \<and>
     tx t = tx s @ take m D \<and> frame t = frame s"
proof (induction D arbitrary: n k s)
  case Nil
  then show ?case
    by (subst (asm) control_fill.simps) (auto split: if_splits)
next
  case (Cons b D)
  show ?case
  proof (cases "n \<noteq> 0 \<and> k < 64")
    case True
    then have "control_fill D (n - 1) (k + 1) (Endpoint_Write_Byte b s) = Some (D', n', k', t)"
      using Cons.prems by (subst (asm) control_fill.simps) simp
    from Cons.IH [OF this] obtain m where m: "m \<le> unat (n - 1)" "m \<le> length D" "D' = drop m D"
      "unat n' = unat (n - 1) - m" "tx t = tx (Endpoint_Write_Byte b s) @ take m D"
      "frame t = frame (Endpoint_Write_Byte b s)" by blast
    have "unat (n - 1) = unat n - 1" "0 < unat n" using True by (simp_all add: unat_minus_one unat_gt_0)
    with m show ?thesis by (intro exI [of _ "Suc m"]) (auto simp: Endpoint_Write_Byte_def)
  next
    case False
    then have "(D', n', k', t) = (b # D, n, k, s)"
      using Cons.prems by (subst (asm) control_fill.simps) auto
    then show ?thesis by (intro exI [of _ 0]) auto
  qed
qed

text \<open>One pass of the loop.\<close>

lemma control_write_loop_cases:
  assumes "control_write_loop D n l s = Some (e, t)"
  obtains
    (stop) u where "quiet s u" "u = t \<or> wait_out u = Some (e, t)"
  | (wait) u where "quiet s u" "length (inp u UEINTX) < length (inp s UEINTX)"
      "control_write_loop D n l u = Some (e, t)"
  | (send) u b E m c v w where "quiet s u" "length (inp u UEINTX) < length (inp s UEINTX)"
      "control_fill D n b u = Some (E, m, c, v)" "Endpoint_ClearIN v = Some w"
      "control_write_loop E m (c = 64) w = Some (e, t)"
proof (cases "n \<noteq> 0 \<or> l")
  case False
  then have "wait_out s = Some (e, t)" using assms by (subst (asm) control_write_loop.simps) simp
  then show thesis by (rule stop [OF quiet_refl disjI2])
next
  case True
  note ctrl = assms [unfolded control_write_loop.simps [of D n l s] Endpoint_IsSETUPReceived_def
      Endpoint_IsOUTReceived_def Endpoint_IsINReady_def]
  obtain f1 s1 where f1: "flag UEINTX RXSTPI s = Some (f1, s1)"
    using ctrl True by (auto split: bind_splits)
  note q1 = flag_quiet [OF f1, simplified]
  show thesis
  proof (cases f1)
    case True
    then have "s1 = t" using ctrl f1 \<open>n \<noteq> 0 \<or> l\<close> by auto
    with q1 stop show thesis by blast
  next
    case f1_False: False
    then obtain f2 s2 where f2: "flag UEINTX RXOUTI s1 = Some (f2, s2)"
      using ctrl f1 True by (auto split: bind_splits)
    note q2 = flag_quiet [OF f2, simplified]
    have qs2: "quiet s s2" using q1 q2 quiet_trans by blast
    show thesis
    proof (cases f2)
      case True
      then have "wait_out s2 = Some (e, t)" using ctrl f1 f1_False f2 \<open>n \<noteq> 0 \<or> l\<close> by auto
      with qs2 stop show thesis by blast
    next
      case f2_False: False
      obtain d s3 where d: "read_state s2 = (d, s3)" by fastforce
      have qs3: "quiet s s3" using read_state_quiet [OF d] qs2 quiet_trans by blast
      show thesis
      proof (cases "d = Unattached")
        case True
        then have "s3 = t" using ctrl f1 f1_False f2 f2_False d \<open>n \<noteq> 0 \<or> l\<close> by auto
        with qs3 stop show thesis by blast
      next
        case d_ne: False
        then obtain f4 s4 where f4: "flag UEINTX TXINI s3 = Some (f4, s4)"
          using ctrl f1 f1_False f2 f2_False d True by (auto split: bind_splits)
        note q4 = flag_quiet [OF f4, simplified]
        have qs4: "quiet s s4" "length (inp s4 UEINTX) < length (inp s UEINTX)"
          using q4 qs3 quiet_trans quiet_length [OF qs3, of UEINTX] by (blast, simp)
        have rest: "(if f4 then do {
              (n', s) \<leftarrow> Endpoint_BytesInEndpoint s4;
              (DataStream, Length, n', s) \<leftarrow> control_fill D n n' s;
              s \<leftarrow> Endpoint_ClearIN s;
              control_write_loop DataStream Length (n' = 64) s }
            else control_write_loop D n l s4) = Some (e, t)"
          using ctrl f1 f1_False f2 f2_False d d_ne f4 True by simp
        show thesis
        proof (cases f4)
          case False
          with rest wait [OF qs4] show thesis by simp
        next
          case True
          then obtain b s5 where b: "Endpoint_BytesInEndpoint s4 = Some (b, s5)"
            using rest by (auto split: bind_splits)
          have qs5: "quiet s s5" "length (inp s5 UEINTX) < length (inp s UEINTX)"
            using bytes_quiet [OF b] qs4 quiet_trans quiet_length [of s4 s5 UEINTX] by (blast, fastforce)
          from rest True b send [OF qs5] show thesis by (auto split: bind_splits)
        qed
      qed
    qed
  qed
qed

lemma control_write_loop_prefix:
  "control_write_loop D n l s = Some (e, t) \<Longrightarrow>
   \<exists>k. k \<le> unat n \<and> k \<le> length D \<and> tx t = tx s @ take k D \<and> frame t = frame s"
proof (induction "length (inp s UEINTX)" arbitrary: D n l s rule: less_induct)
  case less
  from less.prems show ?case
  proof (cases rule: control_write_loop_cases)
    case (stop u)
    then have "quiet s t"
      by (auto simp: wait_out_def dest!: wait_flag_quiet intro: quiet_trans split: bind_splits)
    then show ?thesis by (intro exI [of _ 0]) (simp add: quiet_tx, simp add: quiet_def)
  next
    case (wait u)
    from less.hyps [OF wait(2,3)] quiet_tx [OF wait(1)] wait(1) show ?thesis
      by (simp add: quiet_def)
  next
    case (send u b E m c v w)
    obtain i where i: "i \<le> unat n" "i \<le> length D" "E = drop i D" "unat m = unat n - i"
      "tx v = tx u @ take i D" "frame v = frame u"
      using control_fill_spec [OF send(3)] by blast
    note w = clear_quiet [of v w, OF disjI1, OF send(4)]
    have "length (inp w UEINTX) < length (inp s UEINTX)"
      using w send(2) control_fill_inp [OF send(3)] by simp
    from less.hyps [OF this send(5)] obtain k where "k \<le> unat m" "k \<le> length E"
      "tx t = tx w @ take k E" "frame t = frame w" by blast
    with i w quiet_tx [OF send(1)] send(1) show ?thesis
      by (intro exI [of _ "i + k"]) (auto simp: take_add quiet_def)
  qed
qed

text \<open>
  The completed IN packets of a log: the bytes written to \<open>UEDATX\<close> between two writes to \<open>UEINTX\<close>
  that clear \<open>TXINI\<close>.
\<close>

fun sent :: "u8 list \<Rightarrow> (sfr \<times> u8) list \<Rightarrow> u8 list list" where
  "sent acc [] = []"
| "sent acc ((r, x) # l) =
     (if r = UEDATX then sent (acc @ [x]) l
      else if r = UEINTX \<and> \<not> bit x TXINI then acc # sent [] l
      else sent acc l)"

lemma sent_data: "sent acc (map (Pair UEDATX) p @ l) = sent (acc @ p) l"
  by (induction p arbitrary: acc) simp_all

lemma control_fill_exact:
  assumes "m = min (unat n) (64 - unat k)" "m \<le> length D"
  shows "control_fill D n k s =
    Some (drop m D, n - of_nat m, k + of_nat m, s\<lparr>out := out s @ map (Pair UEDATX) (take m D)\<rparr>)"
  using assms
proof (induction D arbitrary: n k s m)
  case Nil
  then have "n = 0 \<or> \<not> k < 64" by (auto simp: word_less_nat_alt unat_eq_0 min_def split: if_splits)
  with Nil show ?case by (subst control_fill.simps) auto
next
  case (Cons b D)
  show ?case
  proof (cases "n \<noteq> 0 \<and> k < 64")
    case True
    then have u: "0 < unat n" "unat k < 64" "unat (n - 1) = unat n - 1"
      by (simp_all add: unat_gt_0 word_less_nat_alt unat_minus_one)
    have k: "unat (k + 1) = unat k + 1"
      using u(2) by (subst unat_add_lem [THEN iffD1]) (simp_all)
    have m: "m = Suc (min (unat (n - 1)) (64 - unat (k + 1)))" using Cons.prems(1) u k by simp
    then obtain j where j: "m = Suc j" "j = min (unat (n - 1)) (64 - unat (k + 1))" by blast
    have "control_fill (b # D) n k s = control_fill D (n - 1) (k + 1) (Endpoint_Write_Byte b s)"
      using True by (subst control_fill.simps) simp
    also have "\<dots> = Some (drop j D, n - 1 - of_nat j, k + 1 + of_nat j,
        (Endpoint_Write_Byte b s)\<lparr>out := out (Endpoint_Write_Byte b s) @ map (Pair UEDATX) (take j D)\<rparr>)"
      using Cons.prems(2) j by (intro Cons.IH) simp_all
    finally show ?thesis by (simp add: j(1) Endpoint_Write_Byte_def wr_def algebra_simps)
  next
    case False
    then have "m = 0" using Cons.prems(1) by (auto simp: word_less_nat_alt)
    with False show ?thesis by (subst control_fill.simps) auto
  qed
qed

text \<open>
  How a host lets packets through, as the polls of \<open>UEINTX\<close> show it: each pass of the loop looks for a SETUP
  packet, for an OUT packet and for a free bank, and when the bank is not free yet it begins again. \<open>polled k xs\<close>
  is what is left of the polls \<open>xs\<close> when \<open>k\<close> packets have been sent off.
\<close>

fun polled :: "nat \<Rightarrow> u8 list \<Rightarrow> u8 list option" where
  "polled 0 xs = Some xs"
| "polled (Suc k) (a # b # c # xs) =
     (if bit a RXSTPI \<or> bit b RXOUTI then None
      else if bit c TXINI then
        (case xs of [] \<Rightarrow> None | d # ys \<Rightarrow> if bit d TXINI then polled k ys else None)
      else polled (Suc k) xs)"
| "polled (Suc k) xs = None"

text \<open>The wait for the status stage, which the host begins with an OUT packet at any time.\<close>

fun status_seen :: "u8 list \<Rightarrow> u8 list option" where
  "status_seen [] = None"
| "status_seen (x # xs) = (if bit x RXOUTI then Some xs else status_seen xs)"

text \<open>A host that has all it asked for begins the status stage while the bank of the last packet is still taken.\<close>

fun ended_early :: "u8 list \<Rightarrow> u8 list option" where
  "ended_early (a # b # xs) =
     (if bit a RXSTPI then None else if bit b RXOUTI then status_seen xs
      else (case xs of [] \<Rightarrow> None | c # ys \<Rightarrow> if bit c TXINI then None else ended_early ys))"
| "ended_early xs = None"

lemma inp_out_commute: "s\<lparr>inp := a, out := b\<rparr> = s\<lparr>out := b, inp := a\<rparr>"
  by (cases s rule: lufa.cases_scheme) simp

lemma inp_same: "inp s = f \<Longrightarrow> s\<lparr>out := out s, inp := f\<rparr> = s"
  by (cases s rule: lufa.cases_scheme) simp

lemma control_write_pass:
  assumes "n \<noteq> 0 \<or> l" and "inp s UEINTX = a # b # c # d # zs" and "\<not> bit a RXSTPI" "\<not> bit b RXOUTI" "bit c TXINI"
    and "inp s UEBCHX = 0 # hs" "inp s UEBCLX = 0 # ls"
    and "irqs s = []" "USB_DeviceState s \<noteq> Unattached" and "m = min (unat n) 64" "m \<le> length D"
  shows "control_write_loop D n l s = control_write_loop (drop m D) (n - of_nat m) (m = 64)
    (s\<lparr>out := out s @ map (Pair UEDATX) (take m D) @
         [(UEINTX, d AND NOT (msk TXINI)), (UEINTX, d AND NOT (msk FIFOCON))],
       inp := (inp s)(UEBCHX := hs, UEBCLX := ls, UEINTX := zs)\<rparr>)"
proof -
  have "m \<le> 64" using assms(10) by simp
  then have "unat (of_nat m :: u16) = m" by (simp add: unat_of_nat)
  moreover have "(of_nat m = (64 :: u16)) \<longleftrightarrow> unat (of_nat m :: u16) = 64"
    by (simp only: word_unat_eq_iff) simp
  ultimately have "(of_nat m = (64 :: u16)) = (m = 64)" by simp
  with assms show ?thesis
    by (subst control_write_loop.simps)
      (simp add: Endpoint_IsSETUPReceived_def Endpoint_IsOUTReceived_def Endpoint_IsINReady_def flag_def
        Endpoint_BytesInEndpoint_def Endpoint_ClearIN_def rd_def read_state_def
        control_fill_exact [OF refl] wr_def inp_out_commute)
qed

lemma control_write_busy:
  assumes "n \<noteq> 0 \<or> l" and "inp s UEINTX = a # b # c # xs" and "\<not> bit a RXSTPI" "\<not> bit b RXOUTI" "\<not> bit c TXINI"
    and "irqs s = []" "USB_DeviceState s \<noteq> Unattached"
  shows "control_write_loop D n l s = control_write_loop D n l (s\<lparr>inp := (inp s)(UEINTX := xs)\<rparr>)"
  using assms
  by (subst control_write_loop.simps)
    (simp add: Endpoint_IsSETUPReceived_def Endpoint_IsOUTReceived_def Endpoint_IsINReady_def flag_def rd_def read_state_def)

lemma control_write_polled:
  assumes "polled k (inp s UEINTX) = Some ys" and "k = 0 \<or> n \<noteq> 0 \<or> l" "k \<le> unat n div 64 + 1" "unat n \<le> length D"
    and "inp s UEBCHX = replicate k 0 @ hs" "inp s UEBCLX = replicate k 0 @ ls"
    and "irqs s = []" "USB_DeviceState s \<noteq> Unattached"
  shows "\<exists>w. control_write_loop D n l s = control_write_loop (drop (min (64 * k) (unat n)) D)
      (n - of_nat (min (64 * k) (unat n))) (if k = 0 then l else 64 * k \<le> unat n)
      (s\<lparr>out := out s @ w, inp := (inp s)(UEBCHX := hs, UEBCLX := ls, UEINTX := ys)\<rparr>) \<and>
    sent [] w = take k (packets 64 (take (unat n) D))"
  using assms
proof (induction k "inp s UEINTX" arbitrary: D n l s rule: polled.induct)
  case 1
  then have "s\<lparr>out := out s, inp := (inp s)(UEBCHX := hs, UEBCLX := ls, UEINTX := ys)\<rparr> = s"
    by (intro inp_same) auto
  then show ?case
    using 1 by (intro exI [of _ "[]"]) simp
next
  case (2 k a b c xs)
  note poll = 2(3) [symmetric]
  note low = \<open>polled (Suc k) (inp s UEINTX) = Some ys\<close> [unfolded poll]
  have flags: "\<not> bit a RXSTPI" "\<not> bit b RXOUTI"
    using low by (auto split: if_splits)
  have go: "n \<noteq> 0 \<or> l"
    using "2.prems"(2) by simp
  show ?case
  proof (cases "bit c TXINI")
    case False
    let ?s = "s\<lparr>inp := (inp s)(UEINTX := xs)\<rparr>"
    have "\<exists>w. control_write_loop D n l ?s = control_write_loop (drop (min (64 * Suc k) (unat n)) D)
        (n - of_nat (min (64 * Suc k) (unat n))) (if Suc k = 0 then l else 64 * Suc k \<le> unat n)
        (?s\<lparr>out := out ?s @ w, inp := (inp ?s)(UEBCHX := hs, UEBCLX := ls, UEINTX := ys)\<rparr>) \<and>
      sent [] w = take (Suc k) (packets 64 (take (unat n) D))"
      using flags False low "2.prems" by (intro 2(2)) simp_all
    then show ?thesis
      using control_write_busy [OF go poll flags False "2.prems"(7,8)] by (simp add: inp_out_commute)
  next
    case True
    then obtain d zs where d: "xs = d # zs" "bit d TXINI" "polled k zs = Some ys"
      using low flags by (auto split: list.splits if_splits)
    define m where "m = min (unat n) 64"
    let ?w = "map (Pair UEDATX) (take m D) @ [(UEINTX, d AND NOT (msk TXINI)), (UEINTX, d AND NOT (msk FIFOCON))]"
    let ?s = "s\<lparr>out := out s @ ?w, inp := (inp s)(UEBCHX := replicate k 0 @ hs, UEBCLX := replicate k 0 @ ls, UEINTX := zs)\<rparr>"
    have pass: "control_write_loop D n l s = control_write_loop (drop m D) (n - of_nat m) (m = 64) ?s"
      using control_write_pass [of n l s a b c d zs "replicate k 0 @ hs" "replicate k 0 @ ls" m D]
        go poll d flags True "2.prems" m_def by simp
    have un: "unat (n - of_nat m) = unat n - m"
      unfolding m_def by (cases "unat n \<le> 64") (auto simp: unat_sub word_le_nat_alt min_def)
    have next_k: "k = 0 \<or> n - of_nat m \<noteq> 0 \<or> m = 64" "k \<le> unat (n - of_nat m) div 64 + 1"
      using "2.prems"(3) un by (auto simp: m_def min_def le_div_geq)
    have "\<exists>w. control_write_loop (drop m D) (n - of_nat m) (m = 64) ?s =
        control_write_loop (drop (min (64 * k) (unat (n - of_nat m))) (drop m D))
          (n - of_nat m - of_nat (min (64 * k) (unat (n - of_nat m)))) (if k = 0 then m = 64 else 64 * k \<le> unat (n - of_nat m))
          (?s\<lparr>out := out ?s @ w, inp := (inp ?s)(UEBCHX := hs, UEBCLX := ls, UEINTX := ys)\<rparr>) \<and>
        sent [] w = take k (packets 64 (take (unat (n - of_nat m)) (drop m D)))"
      using flags True d "2.prems" next_k un by (intro 2(1) [where ?x21.0 = d and s = ?s]) simp_all
    then obtain w where w: "control_write_loop (drop m D) (n - of_nat m) (m = 64) ?s =
        control_write_loop (drop (min (64 * k) (unat n - m)) (drop m D))
          (n - of_nat m - of_nat (min (64 * k) (unat n - m))) (if k = 0 then m = 64 else 64 * k \<le> unat n - m)
          (s\<lparr>out := out s @ (?w @ w), inp := (inp s)(UEBCHX := hs, UEBCLX := ls, UEINTX := ys)\<rparr>)"
        "sent [] w = take k (packets 64 (take (unat n - m) (drop m D)))"
      unfolding un by (auto simp: fun_upd_twist)
    have sum: "min (64 * k) (unat n - m) + m = min (64 * Suc k) (unat n)"
      by (auto simp: m_def min_def)
    have rest: "n - of_nat m - of_nat (min (64 * k) (unat n - m)) = n - of_nat (min (64 * Suc k) (unat n))"
      unfolding sum [symmetric] by simp
    have full: "(if k = 0 then m = 64 else 64 * k \<le> unat n - m) = (64 * Suc k \<le> unat n)"
    proof -
      have "64 * k \<le> unat n"
        using "2.prems"(3) by linarith
      then show ?thesis
        by (cases "unat n < 64") (auto simp: m_def min_def)
    qed
    have "sent [] (?w @ w) = take m D # take k (packets 64 (take (unat n - m) (drop m D)))"
      using w(2) d(2) by (simp add: sent_data msk_def bit_simps)
    also have "\<dots> = take (Suc k) (packets 64 (take (unat n) D))"
      using "2.prems"(3,4) by (cases "unat n < 64") (auto simp: m_def packets_short packets_long min_def drop_take div_eq_0_iff)
    finally show ?thesis
      using pass w(1) sum rest full by (intro exI [of _ "?w @ w"]) (simp add: drop_drop)
  qed
qed (metis polled.simps option.distinct(1))+

section \<open>Waiting for the controller\<close>

text \<open>The start-of-frame flags the program has cleared so far.\<close>

definition frames :: "'a lufa_scheme \<Rightarrow> nat" where
  "frames s = length (filter (\<lambda>(r, x). r = UDINT) (out s))"

lemma quiet_frames: "quiet s t \<Longrightarrow> frames t = frames s"
  by (simp add: quiet_def frames_def)

lemma wait_ready_cases:
  assumes "wait_ready n s = Some (e, t)"
  obtains
    (stop) "quiet s t" "e \<noteq> RW_Timeout"
  | (idle) u where "quiet s u" "length (inp u UECFG0X) < length (inp s UECFG0X)"
      "wait_ready n u = Some (e, t)"
  | (tick) u v where "quiet s u" "length (inp u UECFG0X) < length (inp s UECFG0X)"
      "rmw UDINT (\<lambda>x. x AND NOT (msk SOFI)) u = Some v"
      "if n = 0 then e = RW_Timeout \<and> t = v else wait_ready (n - 1) v = Some (e, t)"
proof -
  note run = assms [unfolded wait_ready.simps [of n s]]
  obtain x0 s0 where d: "rd UECFG0X s = Some (x0, s0)"
    using run by (auto simp: Endpoint_GetEndpointDirection_def split: bind_splits)
  define b where "b = (if x0 AND 1 = 1 then TXINI else RXOUTI)"
  obtain f1 s1 where f1: "flag UEINTX b s0 = Some (f1, s1)"
    using run d by (auto simp: endpoint_defs b_def split: bind_splits if_splits)
  obtain d2 s2 where s2: "read_state s1 = (d2, s2)" by fastforce
  have q0: "quiet s s0" "length (inp s0 UECFG0X) < length (inp s UECFG0X)" using rd_quiet [OF d] by simp_all
  have q1: "quiet s s1" "length (inp s1 UECFG0X) < length (inp s UECFG0X)"
    using flag_quiet [OF f1] q0 quiet_trans quiet_length [of s0 s1 UECFG0X] by (blast, fastforce)
  have q2: "quiet s s2" "length (inp s2 UECFG0X) < length (inp s UECFG0X)"
    using read_state_quiet [OF s2] q1 quiet_trans quiet_length [of s1 s2 UECFG0X] by (blast, fastforce)
  have run1: "(if f1 then Some (RW_NoError, s1)
     else if d2 = Unattached then Some (RW_DeviceDisconnected, s2)
     else do {
         (stalled, s) \<leftarrow> flag UECONX STALLRQ s2;
         if stalled then Some (RW_EndpointStalled, s)
         else do {
           (sof, s) \<leftarrow> flag UDINT SOFI s;
           if sof then do {
             s \<leftarrow> rmw UDINT (\<lambda>x. x AND NOT (msk SOFI)) s;
             if n = 0 then Some (RW_Timeout, s) else wait_ready (n - 1) s }
           else wait_ready n s } }) = Some (e, t)"
    using run d f1 s2 by (simp add: endpoint_defs b_def split: if_splits)
  show thesis
  proof (cases "f1 \<or> d2 = Unattached")
    case True
    with run1 have "e \<noteq> RW_Timeout" "t = s1 \<or> t = s2" by (auto split: if_splits)
    with q1 q2 stop show thesis by blast
  next
    case False
    then obtain f3 s3 where f3: "flag UECONX STALLRQ s2 = Some (f3, s3)"
      using run1 by (auto split: bind_splits)
    have q3: "quiet s s3" "length (inp s3 UECFG0X) < length (inp s UECFG0X)"
      using flag_quiet [OF f3] q2 quiet_trans quiet_length [of s2 s3 UECFG0X] by (blast, fastforce)
    show thesis
    proof (cases f3)
      case True
      with run1 f3 False have "e \<noteq> RW_Timeout" "t = s3" by auto
      with q3 stop show thesis by blast
    next
      case f3_False: False
      then obtain f4 s4 where f4: "flag UDINT SOFI s3 = Some (f4, s4)"
        using run1 f3 False by (auto split: bind_splits)
      have q4: "quiet s s4" "length (inp s4 UECFG0X) < length (inp s UECFG0X)"
        using flag_quiet [OF f4] q3 quiet_trans quiet_length [of s3 s4 UECFG0X] by (blast, fastforce)
      have run2: "(if f4 then do {
             s \<leftarrow> rmw UDINT (\<lambda>x. x AND NOT (msk SOFI)) s4;
             if n = 0 then Some (RW_Timeout, s) else wait_ready (n - 1) s }
           else wait_ready n s4) = Some (e, t)"
        using run1 f3 f3_False f4 False by simp
      show thesis
      proof (cases f4)
        case True
        then obtain v where "rmw UDINT (\<lambda>x. x AND NOT (msk SOFI)) s4 = Some v"
          "(if n = 0 then Some (RW_Timeout, v) else wait_ready (n - 1) v) = Some (e, t)"
          using run2 by (auto split: bind_splits)
        then show thesis using tick [OF q4] by (auto split: if_splits)
      next
        case False
        with run2 idle [OF q4] show thesis by simp
      qed
    qed
  qed
qed

lemma wait_ready_frames:
  "wait_ready n s = Some (e, t) \<Longrightarrow>
   tx t = tx s \<and> frame t = frame s \<and> inp t UEDATX = inp s UEDATX \<and>
   (\<exists>k \<le> unat n + 1. frames t = frames s + k \<and> (e = RW_Timeout \<longleftrightarrow> k = unat n + 1))"
proof (induction "length (inp s UECFG0X)" arbitrary: n s rule: less_induct)
  case less
  from less.prems show ?case
  proof (cases rule: wait_ready_cases)
    case stop
    then show ?thesis using quiet_frames quiet_tx by (auto simp: quiet_def)
  next
    case (idle u)
    from less.hyps [OF idle(2,3)] quiet_frames [OF idle(1)] quiet_tx [OF idle(1)] idle(1)
    show ?thesis by (auto simp: quiet_def)
  next
    case (tick u v)
    have v: "tx v = tx s" "frame v = frame s" "inp v UEDATX = inp s UEDATX" "frames v = frames s + 1"
      "length (inp v UECFG0X) < length (inp s UECFG0X)"
      using tick(1-3) quiet_tx [OF tick(1)] rmw_quiet [OF tick(3)] consumesD [of u v UECFG0X]
      by (auto simp: quiet_def rmw_def frames_def dest!: rd_quiet split: bind_splits)
    show ?thesis
    proof (cases "n = 0")
      case True
      with tick(4) v show ?thesis by auto
    next
      case False
      then have "wait_ready (n - 1) v = Some (e, t)" using tick(4) by simp
      from less.hyps [OF v(5) this] obtain k where k: "k \<le> unat (n - 1) + 1" "frames t = frames v + k"
        "e = RW_Timeout \<longleftrightarrow> k = unat (n - 1) + 1" "tx t = tx v" "frame t = frame v"
        "inp t UEDATX = inp v UEDATX" by blast
      moreover have "unat (n - 1) = unat n - 1" "0 < unat n"
        using False by (simp_all add: unat_minus_one unat_gt_0)
      ultimately show ?thesis using v by (auto intro!: exI [of _ "Suc k"])
    qed
  qed
qed

lemma ready_quiet:
  "Endpoint_WaitUntilReady s = Some (e, t) \<Longrightarrow>
   tx t = tx s \<and> frame t = frame s \<and> inp t UEDATX = inp s UEDATX \<and> consumes s t"
  using wait_ready_frames [of 100 s e t] wait_ready_consumed [of 100 s e t]
  by (simp add: Endpoint_WaitUntilReady_def)

section \<open>Endpoint streams\<close>

lemma stream_write_loop_spec:
  "stream_write_loop D n s = Some (e, t) \<Longrightarrow>
   \<exists>k. k \<le> unat n \<and> k \<le> length D \<and> tx t = tx s @ take k D \<and> (e = RW_NoError \<longrightarrow> k = unat n) \<and>
     frame t = frame s"
proof (induction "length (inp s UEINTX)" arbitrary: D n s rule: less_induct)
  case less
  show ?case
  proof (cases "n = 0")
    case True
    with less.prems show ?thesis by (subst (asm) stream_write_loop.simps) auto
  next
    case False
    note run = less.prems [unfolded stream_write_loop.simps [of D n s] Endpoint_IsReadWriteAllowed_def]
    obtain f u where f: "flag UEINTX RWAL s = Some (f, u)"
      using run False by (auto split: bind_splits)
    note u = flag_quiet [OF f, simplified]
    show ?thesis
    proof (cases f)
      case f_True: True
      then obtain b bs where D: "D = b # bs" and r: "stream_write_loop bs (n - 1) (wr UEDATX b u) = Some (e, t)"
        using run False f by (auto simp: Endpoint_Write_Byte_def split: list.splits)
      have "length (inp (wr UEDATX b u) UEINTX) < length (inp s UEINTX)" using u by simp
      from less.hyps [OF this r] obtain k where k: "k \<le> unat (n - 1)" "k \<le> length bs"
        "tx t = tx (wr UEDATX b u) @ take k bs" "e = RW_NoError \<longrightarrow> k = unat (n - 1)"
        "frame t = frame (wr UEDATX b u)" by blast
      have "unat (n - 1) = unat n - 1" "0 < unat n"
        using False by (simp_all add: unat_minus_one unat_gt_0)
      with k u D quiet_tx [of s u] show ?thesis
        by (intro exI [of _ "Suc k"]) (auto simp: quiet_def)
    next
      case f_False: False
      then obtain v where v: "Endpoint_ClearIN u = Some v" using run False f by (auto split: bind_splits)
      then obtain c w where w: "Endpoint_WaitUntilReady v = Some (c, w)"
        using run False f f_False by (auto split: bind_splits)
      have q: "tx w = tx s" "frame w = frame s" "length (inp w UEINTX) < length (inp s UEINTX)"
        using u quiet_tx [of s u] clear_quiet [of u v, OF disjI1, OF v] ready_quiet [OF w]
          consumesD [of v w UEINTX] by (auto simp: quiet_def)
      have r: "(if c \<noteq> RW_NoError then Some (c, w) else stream_write_loop D n w) = Some (e, t)"
        using run False f f_False v w by simp
      show ?thesis
      proof (cases "c = RW_NoError")
        case True
        with r have "stream_write_loop D n w = Some (e, t)" by simp
        from less.hyps [OF q(3) this] q show ?thesis by simp
      next
        case False
        with r q show ?thesis by (intro exI [of _ 0]) auto
      qed
    qed
  qed
qed

section \<open>Control reads\<close>

lemma rd_data: "rd UEDATX s = Some (b, t) \<Longrightarrow>
   out t = out s \<and> frame t = frame s \<and> inp s UEDATX = b # inp t UEDATX \<and> consumes s t"
  using rd_consumed [of UEDATX s b t]
  by (auto simp: rd_def frame_def split: list.splits)

lemma control_take_spec:
  "control_take n g s = Some (n', g', t) \<Longrightarrow>
   \<exists>bs. g' = g @ bs \<and> unat n = unat n' + length bs \<and> inp s UEDATX = bs @ inp t UEDATX \<and>
     frame t = frame s \<and> out t = out s"
proof (induction "unat n" arbitrary: n g s rule: less_induct)
  case less
  note run = less.prems [unfolded control_take.simps [of n g s] Endpoint_Read_Byte_def]
  show ?case
  proof (cases "n = 0")
    case True
    with run show ?thesis by auto
  next
    case False
    then obtain c u where c: "Endpoint_BytesInEndpoint s = Some (c, u)"
      using run by (auto split: bind_splits)
    note u = bytes_quiet [OF c]
    show ?thesis
    proof (cases "c = 0")
      case True
      with run False c u show ?thesis by (auto simp: quiet_def)
    next
      case c_ne: False
      then obtain b v where b: "rd UEDATX u = Some (b, v)"
        and r: "control_take (n - 1) (g @ [b]) v = Some (n', g', t)"
        using run False c by (auto split: bind_splits)
      from less.hyps [OF unat_pred_less [OF False] r] obtain bs where
        "g' = (g @ [b]) @ bs" "unat (n - 1) = unat n' + length bs"
        "inp v UEDATX = bs @ inp t UEDATX" "frame t = frame v" "out t = out v" by blast
      moreover have "unat (n - 1) = unat n - 1" "0 < unat n"
        using False by (simp_all add: unat_minus_one unat_gt_0)
      ultimately show ?thesis using rd_data [OF b] u by (intro exI [of _ "b # bs"]) (auto simp: quiet_def)
    qed
  qed
qed

lemma control_read_loop_spec:
  "control_read_loop n g s = Some (e, g', t) \<Longrightarrow>
   \<exists>bs. g' = g @ bs \<and> length bs \<le> unat n \<and> (e = RWC_NoError \<longrightarrow> length bs = unat n) \<and>
     inp s UEDATX = bs @ inp t UEDATX \<and> frame t = frame s \<and> tx t = tx s"
proof (induction "length (inp s UEINTX)" arbitrary: n g s rule: less_induct)
  case less
  note run = less.prems [unfolded control_read_loop.simps [of n g s] Endpoint_IsSETUPReceived_def
      Endpoint_IsOUTReceived_def]
  show ?case
  proof (cases "n = 0")
    case True
    then obtain f where "wait_flag TXINI s = Some (f, t)" "g' = g"
      using run by (auto split: bind_splits)
    with True wait_flag_quiet [of TXINI s f t] quiet_tx [of s t] show ?thesis by (auto simp: quiet_def)
  next
    case n: False
    then obtain f1 s1 where f1: "flag UEINTX RXSTPI s = Some (f1, s1)"
      using run by (auto split: bind_splits)
    note q1 = flag_quiet [OF f1, simplified]
    have stop: ?thesis if "quiet s t" "g' = g" "e \<noteq> RWC_NoError"
      using that quiet_tx [OF that(1)] by (auto simp: quiet_def)
    obtain d s2 where s2: "read_state s1 = (d, s2)" by fastforce
    have q2: "quiet s s2" "length (inp s2 UEINTX) < length (inp s UEINTX)"
      using read_state_quiet [OF s2] q1 quiet_trans quiet_length [of s1 s2 UEINTX] by (blast, fastforce)
    show ?thesis
    proof (cases "f1 \<or> d = Unattached")
      case True
      then have "e \<noteq> RWC_NoError" "g' = g" "t = s1 \<or> t = s2"
        using run n f1 s2 by (auto split: if_splits)
      with stop q1 q2 show ?thesis by blast
    next
      case go: False
      then obtain f3 s3 where f3: "flag UEINTX RXOUTI s2 = Some (f3, s3)"
        using run n f1 s2 by (auto split: bind_splits)
      have q3: "quiet s s3" "length (inp s3 UEINTX) < length (inp s UEINTX)"
        using flag_quiet [OF f3, simplified] q2 quiet_trans by (blast, simp)
      show ?thesis
      proof (cases f3)
        case False
        then have "control_read_loop n g s3 = Some (e, g', t)" using run n f1 s2 go f3 by simp
        from less.hyps [OF q3(2) this] q3(1) quiet_tx [OF q3(1)] show ?thesis by (simp add: quiet_def)
      next
        case True
        then obtain m h v w where m: "control_take n g s3 = Some (m, h, v)"
          and w: "Endpoint_ClearOUT v = Some w" and r: "control_read_loop m h w = Some (e, g', t)"
          using run n f1 s2 go f3 by (auto split: bind_splits)
        obtain bs where bs: "h = g @ bs" "unat n = unat m + length bs"
          "inp s3 UEDATX = bs @ inp v UEDATX" "frame v = frame s3" "out v = out s3"
          using control_take_spec [OF m] by blast
        note w' = clear_quiet [of v w, OF disjI2, OF w]
        have "length (inp w UEINTX) < length (inp s UEINTX)"
          using w' q3(2) consumesD [OF control_take_consumed [OF m], of UEINTX] by simp
        from less.hyps [OF this r] obtain cs where "g' = h @ cs" "length cs \<le> unat m"
          "e = RWC_NoError \<longrightarrow> length cs = unat m" "inp w UEDATX = cs @ inp t UEDATX"
          "frame t = frame w" "tx t = tx w" by blast
        with bs w' q3(1) show ?thesis
          by (intro exI [of _ "bs @ cs"]) (auto simp: quiet_def tx_def)
      qed
    qed
  qed
qed

section \<open>The contracts\<close>

text \<open>
  A host that takes part in a control read of \<open>n\<close> bytes, as the controller shows it: the bank becomes free, after
  any number of polls, for each of the packets, and then the OUT packet of the status stage is seen. A host
  that has got all its bytes in full packets may go on to the status stage before the empty one (\<open>early\<close>).
  \<open>taken_by\<close> is what is left of the polls then.
\<close>

definition taken_by :: "bool \<Rightarrow> nat \<Rightarrow> u8 list \<Rightarrow> u8 list option" where
  "taken_by early n xs =
     (if \<not> early then do { ys \<leftarrow> polled (n div 64 + 1) xs; status_seen ys }
      else if n mod 64 = 0 then do { ys \<leftarrow> polled (n div 64) xs; ended_early ys }
      else None)"

definition packets_taken :: "bool \<Rightarrow> nat \<Rightarrow> nat" where
  "packets_taken early n = (if early then n div 64 else n div 64 + 1)"

definition taking_host :: "bool \<Rightarrow> nat \<Rightarrow> 'a lufa_scheme \<Rightarrow> bool" where
  "taking_host early n s \<longleftrightarrow>
     irqs s = [] \<and> USB_DeviceState s \<noteq> Unattached \<and> taken_by early n (inp s UEINTX) \<noteq> None \<and>
     (let k = packets_taken early n in
        take k (inp s UEBCHX) = replicate k 0 \<and> take k (inp s UEBCLX) = replicate k 0)"

text \<open>What is left of the input of such a host.\<close>

definition after_host :: "bool \<Rightarrow> nat \<Rightarrow> 'a lufa_scheme \<Rightarrow> sfr \<Rightarrow> u8 list" where
  "after_host early n s = (let k = packets_taken early n in
     (inp s)(UEBCHX := drop k (inp s UEBCHX), UEBCLX := drop k (inp s UEBCLX),
             UEINTX := the (taken_by early n (inp s UEINTX))))"

lemma wait_out_seen:
  assumes "status_seen (inp s UEINTX) = Some ys" "irqs s = []" "USB_DeviceState s \<noteq> Unattached"
  shows "wait_out s = Some (RWC_NoError, s\<lparr>inp := (inp s)(UEINTX := ys)\<rparr>)"
proof -
  have "wait_flag RXOUTI s = Some (True, s\<lparr>inp := (inp s)(UEINTX := ys)\<rparr>)"
    using assms
  proof (induction "inp s UEINTX" arbitrary: s rule: status_seen.induct)
    case (2 x xs)
    note poll = 2(2) [symmetric]
    show ?case
    proof (cases "bit x RXOUTI")
      case True
      with 2 poll show ?thesis
        by (subst wait_flag.simps) (simp add: flag_def rd_def)
    next
      case False
      let ?s = "s\<lparr>inp := (inp s)(UEINTX := xs)\<rparr>"
      have "wait_flag RXOUTI ?s = Some (True, ?s\<lparr>inp := (inp ?s)(UEINTX := ys)\<rparr>)"
        using 2 False poll by (intro 2(1)) simp_all
      with 2 poll False show ?thesis
        by (subst wait_flag.simps) (simp add: flag_def rd_def read_state_def)
    qed
  qed simp
  then show ?thesis
    by (simp add: wait_out_def)
qed

lemma control_write_ended:
  assumes "ended_early (inp s UEINTX) = Some ys" "irqs s = []" "USB_DeviceState s \<noteq> Unattached"
  shows "control_write_loop D 0 True s = Some (RWC_NoError, s\<lparr>inp := (inp s)(UEINTX := ys)\<rparr>)"
  using assms
proof (induction "inp s UEINTX" arbitrary: s rule: ended_early.induct)
  case (1 a b xs)
  note poll = 1(2) [symmetric]
  have a: "\<not> bit a RXSTPI"
    using 1(3) poll by (auto split: if_splits)
  show ?case
  proof (cases "bit b RXOUTI")
    case True
    let ?s = "s\<lparr>inp := (inp s)(UEINTX := xs)\<rparr>"
    have "control_write_loop D 0 True s = wait_out ?s"
      using a True poll
      by (subst control_write_loop.simps) (simp add: Endpoint_IsSETUPReceived_def Endpoint_IsOUTReceived_def flag_def rd_def)
    moreover have "wait_out ?s = Some (RWC_NoError, ?s\<lparr>inp := (inp ?s)(UEINTX := ys)\<rparr>)"
      using a True 1(3-5) poll by (intro wait_out_seen) simp_all
    ultimately show ?thesis by simp
  next
    case False
    then obtain c zs where c: "xs = c # zs" "\<not> bit c TXINI" "ended_early zs = Some ys"
      using a 1(3) poll by (auto split: list.splits if_splits)
    let ?s = "s\<lparr>inp := (inp s)(UEINTX := zs)\<rparr>"
    have "control_write_loop D 0 True ?s = Some (RWC_NoError, ?s\<lparr>inp := (inp ?s)(UEINTX := ys)\<rparr>)"
      using a False c 1(4,5) by (intro 1(1) [where ?x21.0 = c and s = ?s]) simp_all
    then show ?thesis
      using control_write_busy [of 0 True s a b c zs D] a False c poll 1(4,5) by simp
  qed
qed (metis ended_early.simps(2,3) option.distinct(1))+

lemma control_write_exact:
  assumes "n = min Length (wLength (USB_ControlRequest s))" "n \<noteq> 0" "unat n \<le> length D"
    and "taking_host early (unat n) s"
  obtains w where "control_write D Length s =
      Some (RWC_NoError, s\<lparr>out := out s @ w, inp := after_host early (unat n) s\<rparr>)"
    "sent [] w = take (packets_taken early (unat n)) (packets 64 (take (unat n) D))"
proof -
  let ?k = "packets_taken early (unat n)"
  obtain ys zs where polls: "polled ?k (inp s UEINTX) = Some ys" "taken_by early (unat n) (inp s UEINTX) = Some zs"
    "if early then unat n mod 64 = 0 \<and> ended_early ys = Some zs else status_seen ys = Some zs"
    using assms(4) by (auto simp: taking_host_def taken_by_def packets_taken_def split: if_splits bind_splits)
  have "take ?k (inp s UEBCHX) = replicate ?k 0" "take ?k (inp s UEBCLX) = replicate ?k 0"
    using assms(4) by (simp_all only: taking_host_def Let_def)
  then have bc: "inp s UEBCHX = replicate ?k 0 @ drop ?k (inp s UEBCHX)" "inp s UEBCLX = replicate ?k 0 @ drop ?k (inp s UEBCLX)"
    by (metis append_take_drop_id)+
  have good: "irqs s = []" "USB_DeviceState s \<noteq> Unattached"
    using assms(4) by (simp_all add: taking_host_def)
  have k: "?k = 0 \<or> n \<noteq> 0 \<or> False" "?k \<le> unat n div 64 + 1"
    using assms(2) by (simp_all add: packets_taken_def)
  obtain w where w: "control_write_loop D n False s = control_write_loop (drop (min (64 * ?k) (unat n)) D)
      (n - of_nat (min (64 * ?k) (unat n))) (if ?k = 0 then False else 64 * ?k \<le> unat n)
      (s\<lparr>out := out s @ w, inp := (inp s)(UEBCHX := drop ?k (inp s UEBCHX), UEBCLX := drop ?k (inp s UEBCLX), UEINTX := ys)\<rparr>)"
    "sent [] w = take ?k (packets 64 (take (unat n) D))"
    using control_write_polled [OF polls(1) k assms(3) bc good] by blast
  let ?s = "s\<lparr>out := out s @ w, inp := (inp s)(UEBCHX := drop ?k (inp s UEBCHX), UEBCLX := drop ?k (inp s UEBCLX), UEINTX := ys)\<rparr>"
  have "control_write_loop D n False s = Some (RWC_NoError, ?s\<lparr>inp := (inp ?s)(UEINTX := zs)\<rparr>)"
  proof (cases early)
    case True
    with polls(3) have mod: "64 * (unat n div 64) = unat n"
      using True by (metis add.right_neutral mult_div_mod_eq)
    moreover have "unat n div 64 \<noteq> 0"
      using assms(2) mod by (metis mult_0_right unat_eq_zero)
    ultimately show ?thesis
      using w(1) True polls(3) good packets_taken_def control_write_ended [of ?s zs "drop (unat n) D"] by simp
  next
    case False
    have "unat n < 64 * (unat n div 64 + 1)"
      using dividend_less_times_div [of 64 "unat n"] by simp
    then have "control_write_loop D n False s = control_write_loop (drop (unat n) D) 0 False ?s"
      using w(1) False by (simp add: packets_taken_def min_absorb2)
    also have "\<dots> = wait_out ?s"
      by (subst control_write_loop.simps) simp
    finally show ?thesis
      using False polls(3) good wait_out_seen [of ?s zs] by simp
  qed
  moreover have "control_write D Length s = control_write_loop D n False s"
    using assms(1,2) by (auto simp: control_write_def min_def)
  moreover have "?s\<lparr>inp := (inp ?s)(UEINTX := zs)\<rparr> = s\<lparr>out := out s @ w, inp := after_host early (unat n) s\<rparr>"
    using polls(2) by (simp add: after_host_def Let_def fun_upd_twist)
  ultimately show thesis
    using that w(2) by simp
qed

text \<open>All the packets are taken, or all but the empty one.\<close>

lemma packets_taken_all: "length X = n \<Longrightarrow> take (packets_taken False n) (packets 64 X) = packets 64 X"
  by (simp add: length_packets packets_taken_def)

lemma length_full: "\<forall>p \<in> set ps. length p = n \<Longrightarrow> length (concat ps) = n * length ps"
  by (induction ps) simp_all

lemma packets_taken_early:
  assumes "length X = n" "n mod 64 = 0"
  shows "take (packets_taken True n) (packets 64 X) = butlast (packets 64 X)" "concat (butlast (packets 64 X)) = X"
proof -
  let ?ps = "packets 64 X"
  have len: "length ?ps = n div 64 + 1" and spec: "concat ?ps = X" "length (last ?ps) < 64" "\<forall>p \<in> set (butlast ?ps). length p = 64" "?ps \<noteq> []"
    using length_packets [of 64 X] packets_spec [of 64 X] assms(1) by simp_all
  then show "take (packets_taken True n) ?ps = butlast ?ps"
    by (simp add: butlast_conv_take packets_taken_def)
  have split: "concat (butlast ?ps) @ last ?ps = X"
    using spec(1,4) by (metis append_butlast_last_id concat.simps(2) concat_append concat_eq_Nil_conv concat.simps(1) append_Nil2)
  have "length (concat (butlast ?ps)) + length (last ?ps) = length X"
    using arg_cong [OF split, of length] by simp
  moreover have "64 * (n div 64) = n"
    using assms(2) by (metis add.right_neutral mult_div_mod_eq)
  ultimately have "last ?ps = []"
    using length_full [OF spec(3)] len assms(1) by simp
  with split show "concat (butlast ?ps) = X"
    by simp
qed

lemma packets_taken_concat:
  assumes "length X = n" "early \<longrightarrow> n mod 64 = 0"
  shows "concat (take (packets_taken early n) (packets 64 X)) = X"
proof (cases early)
  case True
  with assms packets_taken_early [of X n] show ?thesis by simp
next
  case False
  with assms(1) packets_taken_all [of X n] packets_spec [of 64 X] show ?thesis by simp
qed

lemma taken_early: "taken_by early n xs = Some ys \<Longrightarrow> early \<longrightarrow> n mod 64 = 0"
  by (simp add: taken_by_def split: if_splits)

lemma control_write_complete:
  assumes "n = min Length (wLength (USB_ControlRequest s))" "n \<noteq> 0" "unat n \<le> length D"
    and "taking_host early (unat n) s"
  shows "\<exists>t. control_write D Length s = Some (RWC_NoError, t) \<and>
    (\<exists>w. out t = out s @ w \<and> sent [] w = take (packets_taken early (unat n)) (packets 64 (take (unat n) D))) \<and> frame t = frame s"
proof -
  obtain w where "control_write D Length s =
      Some (RWC_NoError, s\<lparr>out := out s @ w, inp := after_host early (unat n) s\<rparr>)"
    "sent [] w = take (packets_taken early (unat n)) (packets 64 (take (unat n) D))"
    by (rule control_write_exact [OF assms])
  then show ?thesis by (auto simp: frame_def)
qed

text \<open>A host that asks for 70 bytes and takes its time, and one that asks for 64 and ends early.\<close>

definition polling_host :: "u16 \<Rightarrow> u8 list \<Rightarrow> lufa" where
  "polling_host n polls = \<lparr>inp = (\<lambda>r. if r = UEINTX then polls else if r \<in> {UEBCHX, UEBCLX} then [0, 0] else []),
     out = [], irqs = [], uenum = 0, USB_DeviceState = Configured, USB_ConfigurationNumber = 1,
     USB_CurrentlySelfPowered = False, USB_RemoteWakeupEnabled = False, USB_IsInitialized = True, sreg_i = True,
     USB_ControlRequest = \<lparr>bmRequestType = 0x80, bRequest = 6, wValue = 0, wIndex = 0, wLength = n\<rparr>\<rparr>"

definition slow_polls :: "u8 list" where
  "slow_polls = [1, 1, 1, 1] @ [0, 0, 0] @ [0, 0, 0] @ [0, 0, 1, 1] @ [0, 0, 4]"

definition early_polls :: "u8 list" where
  "early_polls = [1, 1, 1, 1] @ [0, 0, 0] @ [0, 4, 4]"

lemma polling_hosts:
  "taking_host False 70 (polling_host 70 slow_polls)" "taking_host True 64 (polling_host 64 early_polls)"
  by code_simp+

text \<open>Whatever host and controller do, a control write that returns has written a prefix of the
  data, never more than the host asked for and never more than the buffer holds.\<close>

theorem control_write_prefix:
  assumes "Endpoint_Write_Control_Stream_LE D Length s = Some (e, t)"
  shows "\<exists>k. k \<le> min (unat Length) (unat (wLength (USB_ControlRequest s))) \<and> k \<le> length D \<and>
    tx t = tx s @ take k D"
proof -
  obtain u n where u: "control_write_loop D n False u = Some (e, t)" "tx u = tx s"
    "unat n = min (unat Length) (unat (wLength (USB_ControlRequest s)))"
    using assms clear_quiet [of s]
    by (auto simp: Endpoint_Write_Control_Stream_LE_def control_write_def word_less_nat_alt
        split: if_splits bind_splits)
  from control_write_loop_prefix [OF u(1)] u(2,3) show ?thesis by auto
qed

theorem control_write_prefix_witness:
  "\<exists>t k. Endpoint_Write_Control_Stream_LE (replicate 80 7) 80 (polling_host 70 slow_polls) = Some (RWC_NoError, t) \<and>
    k \<le> 70 \<and> tx t = replicate k 7"
proof -
  let ?s = "polling_host 70 slow_polls"
  obtain t where t: "Endpoint_Write_Control_Stream_LE (replicate 80 7) 80 ?s = Some (RWC_NoError, t)"
    using control_write_complete [of 70 80 ?s "replicate 80 7" False] polling_hosts(1)
    unfolding Endpoint_Write_Control_Stream_LE_def by (auto simp: polling_host_def)
  from control_write_prefix [OF t] obtain k where "k \<le> 70" "tx t = tx ?s @ take k (replicate 80 7)"
    by (auto simp: polling_host_def)
  moreover have "tx ?s = []" by (simp add: tx_def polling_host_def)
  ultimately show ?thesis using t by auto
qed

text \<open>C10: a host that takes part in a control read, and however long it lets the device wait for each packet
  and for the status stage, receives exactly the data it asked for: in packets of 64 bytes followed by one
  shorter packet, which is empty when the length is a multiple of 64 and which a host may leave then.\<close>

theorem control_write_packets:
  assumes "n = min Length (wLength (USB_ControlRequest s))" "n \<noteq> 0" "unat n \<le> length D"
    and "taking_host early (unat n) s"
  shows "\<exists>t w ps. Endpoint_Write_Control_Stream_LE D Length s = Some (RWC_NoError, t) \<and>
    out t = out s @ w \<and> sent [] w = ps \<and> concat ps = take (unat n) D \<and>
    (if early then unat n mod 64 = 0 \<and> (\<forall>p \<in> set ps. length p = 64)
     else (\<forall>p \<in> set (butlast ps). length p = 64) \<and> ps \<noteq> [] \<and> length (last ps) < 64)"
proof -
  let ?X = "take (unat n) D"
  have len: "length ?X = unat n"
    using assms(3) by simp
  note spec = packets_spec [of 64 ?X, simplified]
  obtain t w where t: "control_write D Length s = Some (RWC_NoError, t)" "out t = out s @ w"
    "sent [] w = take (packets_taken early (unat n)) (packets 64 ?X)"
    using control_write_complete [OF assms] by blast
  show ?thesis
  proof (cases early)
    case True
    then have "unat n mod 64 = 0"
      using assms(4) by (auto simp: taking_host_def taken_by_def split: if_splits)
    with t True spec packets_taken_early [OF len this] show ?thesis
      unfolding Endpoint_Write_Control_Stream_LE_def by auto
  next
    case False
    with t spec packets_taken_all [OF len] show ?thesis
      unfolding Endpoint_Write_Control_Stream_LE_def by auto
  qed
qed

theorem control_write_packets_witness:
  "\<exists>t u. Endpoint_Write_Control_Stream_LE (replicate 80 7) 80 (polling_host 70 slow_polls) = Some (RWC_NoError, t) \<and>
    concat (sent [] (out t)) = replicate 70 7 \<and>
    Endpoint_Write_Control_Stream_LE (replicate 80 7) 80 (polling_host 64 early_polls) = Some (RWC_NoError, u) \<and>
    concat (sent [] (out u)) = replicate 64 7"
proof -
  have "out (polling_host n ps) = [] \<and> wLength (USB_ControlRequest (polling_host n ps)) = n" for n ps
    by (simp add: polling_host_def)
  with control_write_packets [of 70 80 "polling_host 70 slow_polls" "replicate 80 7" False]
    control_write_packets [of 64 80 "polling_host 64 early_polls" "replicate 80 7" True] polling_hosts
  show ?thesis by auto
qed

text \<open>Waiting for an endpoint ends, whatever the controller answers, after at most 101 start of
  frame flags have been cleared, and it ends with the timeout exactly when it has cleared 101.\<close>

theorem ready_wait_bounded:
  assumes "Endpoint_WaitUntilReady s = Some (e, t)"
  shows "frames t \<le> frames s + 101 \<and> (e = RW_Timeout \<longleftrightarrow> frames t = frames s + 101)"
proof -
  obtain k where "k \<le> unat (100 :: u8) + 1" "frames t = frames s + k"
    "e = RW_Timeout \<longleftrightarrow> k = unat (100 :: u8) + 1"
    using wait_ready_frames [OF assms [unfolded Endpoint_WaitUntilReady_def]] by blast
  then show ?thesis by simp
qed

theorem ready_wait_bounded_witness:
  "\<exists>t. Endpoint_WaitUntilReady (polling_host 0 []\<lparr>inp := (\<lambda>r. [1])\<rparr>) = Some (RW_NoError, t) \<and> frames t \<noteq> 101"
proof -
  let ?s = "polling_host 0 []\<lparr>inp := (\<lambda>r. [1])\<rparr>"
  let ?t = "?s\<lparr>inp := (\<lambda>r. [1])(UECFG0X := [])\<rparr>"
  let ?u = "?t\<lparr>inp := (inp ?t)(UEINTX := [])\<rparr>"
  have "Endpoint_GetEndpointDirection ?s = Some (1, ?t)"
    by (simp add: Endpoint_GetEndpointDirection_def rd_def)
  moreover have "Endpoint_IsINReady ?t = Some (True, ?u)"
    by (simp add: Endpoint_IsINReady_def flag_def rd_def)
  ultimately have t: "Endpoint_WaitUntilReady ?s = Some (RW_NoError, ?u)"
    unfolding Endpoint_WaitUntilReady_def by (subst wait_ready.simps) (simp only: bind.simps if_True prod.case simp_thms)
  moreover have "frames ?s = 0" by (simp add: frames_def polling_host_def)
  ultimately show ?thesis using ready_wait_bounded [OF t] by simp
qed

text \<open>The size field of the endpoint configuration.\<close>

lemma unat_check: "k \<le> 12 \<Longrightarrow> unat (push_bit k (8 :: u16)) = 8 * 2 ^ k"
proof -
  assume k: "k \<le> 12"
  then have "(2 :: nat) ^ k \<le> 2 ^ 12" by (intro power_increasing) simp_all
  then have "8 * 2 ^ k < (2 :: nat) ^ 16" by simp
  moreover have "push_bit k (8 :: u16) = of_nat (8 * 2 ^ k)" by (simp add: push_bit_eq_mult)
  ultimately show ?thesis by (simp only: unat_of_nat) simp
qed

lemma epsize_loop_doubles:
  assumes "k \<le> 12"
  shows "epsize_loop (of_nat k) (push_bit k 8) B =
    (if 8 * 2 ^ k < unat B then epsize_loop (of_nat (Suc k)) (push_bit (Suc k) 8) B else Some (of_nat k))"
  using unat_check [OF assms]
  by (subst epsize_loop.simps) (simp add: word_less_nat_alt add.commute push_bit_Suc push_bit_push_bit)

lemma epsize_loop_none: "epsize_loop M C B = Some r \<Longrightarrow> C = 0 \<longrightarrow> B = 0"
  by (rule epsize_loop.raw_induct [where P = "\<lambda>M C B r. C = 0 \<longrightarrow> B = 0"])
    (auto split: if_splits simp: word_less_nat_alt unat_eq_0)


lemma epsize_loop_least:
  assumes "k \<le> 12" "\<forall>j < k. 8 * 2 ^ j < unat B" "unat B \<le> 32768"
  shows "\<exists>m \<le> 12. epsize_loop (of_nat k) (push_bit k 8) B = Some (of_nat m) \<and>
    unat B \<le> 8 * 2 ^ m \<and> (\<forall>j < m. 8 * 2 ^ j < unat B)"
  using assms
proof (induction "12 - k" arbitrary: k)
  case 0
  then have "k = 12" by simp
  with 0 show ?case by (intro exI [of _ 12]) (simp add: epsize_loop_doubles [of 12, simplified])
next
  case (Suc d)
  show ?case
  proof (cases "8 * 2 ^ k < unat B")
    case True
    have "\<forall>j < Suc k. 8 * 2 ^ j < unat B" using Suc.prems(2) True by (simp add: less_Suc_eq)
    with Suc.hyps(1) [of "Suc k"] Suc.hyps(2) Suc.prems True show ?thesis
      by (simp only: epsize_loop_doubles [OF Suc.prems(1)]) simp
  next
    case False
    with Suc.prems show ?thesis
      by (intro exI [of _ k]) (simp add: epsize_loop_doubles [OF Suc.prems(1)])
  qed
qed

lemma epsize_loop_long:
  assumes "32768 < unat B" "k \<le> 13"
  shows "epsize_loop 0 8 B = epsize_loop (of_nat k) (push_bit k 8) B"
  using assms(2)
proof (induction k)
  case 0
  show ?case by simp
next
  case (Suc k)
  have "(2 :: nat) ^ k \<le> 2 ^ 12" using Suc.prems by (intro power_increasing) simp_all
  then have "8 * 2 ^ k < unat B" using assms(1) by simp
  with Suc epsize_loop_doubles [of k B] show ?case by simp
qed

text \<open>The size field computed for an endpoint of up to 32768 bytes names the smallest bank of
  8, 16, 32, ... bytes that holds it; for a larger size the loop never ends.\<close>

theorem endpoint_size_mask:
  "if unat Bytes \<le> 32768
   then \<exists>m \<le> 12. Endpoint_BytesToEPSizeMask Bytes = Some (push_bit 4 (of_nat m)) \<and>
     unat Bytes \<le> 8 * 2 ^ m \<and> (\<forall>j. j < m \<longrightarrow> 8 * 2 ^ j < unat Bytes)
   else Endpoint_BytesToEPSizeMask Bytes = None"
proof (cases "unat Bytes \<le> 32768")
  case True
  with epsize_loop_least [of 0 Bytes] show ?thesis by (auto simp: Endpoint_BytesToEPSizeMask_def)
next
  case False
  have "push_bit 13 (8 :: u16) = 0" "(65536 :: u16) = 0" by simp_all
  with False epsize_loop_long [of Bytes 13] have "epsize_loop 0 8 Bytes = epsize_loop (of_nat 13) 0 Bytes"
    by simp
  moreover have "epsize_loop (of_nat 13) 0 Bytes = None"
    using epsize_loop_none [of "of_nat 13" 0 Bytes] False by (cases "epsize_loop (of_nat 13) 0 Bytes") auto
  ultimately show ?thesis using False by (simp add: Endpoint_BytesToEPSizeMask_def)
qed

theorem endpoint_size_mask_witness:
  "\<exists>m \<le> 12. Endpoint_BytesToEPSizeMask 64 = Some (push_bit 4 (of_nat m)) \<and> m = 3"
proof -
  obtain m where m: "m \<le> 12" "Endpoint_BytesToEPSizeMask 64 = Some (push_bit 4 (of_nat m))"
    "64 \<le> 8 * (2 :: nat) ^ m" "\<forall>j < m. 8 * (2 :: nat) ^ j < 64"
    using endpoint_size_mask [of 64] by auto
  have "m \<notin> {0, 1, 2}"
  proof
    assume "m \<in> {0, 1, 2}"
    with m(3) show False by auto
  qed
  then have "\<not> m < 3" by auto
  moreover have "\<not> 3 < m" using m(4) by auto
  ultimately show ?thesis using m(1,2) by (intro exI [of _ m]) simp
qed

end
