(* ===== verification/LufaDevice.thy ===== *)
theory LufaDevice
  imports LufaTransfer
begin

text \<open>
  The device stack of LUFA: the standard control requests (\<open>LowLevel/DevChapter9.c\<close>), the task
  that polls for them (\<open>HighLevel/USBTask.c\<close>), the controller interrupt
  (\<open>HighLevel/USBInterrupt.c\<close>) and the initialisation (\<open>LowLevel/LowLevel.c\<close>), in the build of the
  controller emulator (device mode only, one configuration, descriptors in any memory space,
  ATmega32U4 at 16 MHz, \<open>USE_STATIC_OPTIONS\<close> full speed, regulator on, automatic PLL).

  The application supplies the descriptor callback and the event handlers; here they are the
  fields of the record \<open>app\<close>.
\<close>

datatype memspace = MEMSPACE_FLASH | MEMSPACE_EEPROM | MEMSPACE_RAM

text \<open>
  The callback returns the size (0 is \<open>NO_DESCRIPTOR\<close>), the bytes at the address, and the memory
  space. A handler with no result runs forever or leaves its buffers.
\<close>

record 's app =
  CALLBACK_USB_GetDescriptor :: "u16 \<Rightarrow> u8 \<Rightarrow> 's \<Rightarrow> u16 \<times> u8 list \<times> memspace"
  EVENT_USB_Device_UnhandledControlRequest :: "'s \<Rightarrow> 's option"
  EVENT_USB_Device_ConfigurationChanged :: "'s \<Rightarrow> 's option"
  EVENT_USB_Device_Connect :: "'s \<Rightarrow> 's"
  EVENT_USB_Device_Disconnect :: "'s \<Rightarrow> 's"
  EVENT_USB_Device_Suspend :: "'s \<Rightarrow> 's"
  EVENT_USB_Device_WakeUp :: "'s \<Rightarrow> 's"
  EVENT_USB_Device_Reset :: "'s \<Rightarrow> 's"
  EVENT_USB_Device_StartOfFrame :: "'s \<Rightarrow> 's"

abbreviation (input) "NO_DESCRIPTOR \<equiv> 0 :: u16"
abbreviation (input) "FIXED_NUM_CONFIGURATIONS \<equiv> 1 :: u8"

abbreviation (input) "REQ_GetStatus \<equiv> 0 :: u8"
abbreviation (input) "REQ_ClearFeature \<equiv> 1 :: u8"
abbreviation (input) "REQ_SetFeature \<equiv> 3 :: u8"
abbreviation (input) "REQ_SetAddress \<equiv> 5 :: u8"
abbreviation (input) "REQ_GetDescriptor \<equiv> 6 :: u8"
abbreviation (input) "REQ_GetConfiguration \<equiv> 8 :: u8"
abbreviation (input) "REQ_SetConfiguration \<equiv> 9 :: u8"

abbreviation (input) "FEATURE_ENDPOINT_HALT \<equiv> 0 :: u8"
abbreviation (input) "FEATURE_REMOTE_WAKEUP \<equiv> 1 :: u8"

definition set_state :: "device_state \<Rightarrow> 'a lufa_scheme \<Rightarrow> 'a lufa_scheme" where
  "set_state d s = s\<lparr>USB_DeviceState := d\<rparr>"

abbreviation wValue8 :: "'a lufa_scheme \<Rightarrow> u8" where
  "wValue8 s \<equiv> ucast (wValue (USB_ControlRequest s))"

section \<open>Standard requests (\<open>DevChapter9.c\<close>)\<close>

definition USB_Device_SetAddress :: "'a lufa_scheme \<Rightarrow> 'a lufa_scheme option" where
  "USB_Device_SetAddress s = do {
     let DeviceAddress = wValue8 s AND 0x7F;
     s \<leftarrow> Endpoint_ClearSETUP s;
     s \<leftarrow> Endpoint_ClearStatusStage s;
     (seen, s) \<leftarrow> wait_flag TXINI s;
     if \<not> seen then Some s
     else (let s = (if DeviceAddress \<noteq> 0 then set_state Addressed s else s)
           in Some (wr UDADDR (msk 7 OR DeviceAddress) s)) }"

definition USB_Device_SetConfiguration :: "'a lufa_scheme app \<Rightarrow> 'a lufa_scheme \<Rightarrow> 'a lufa_scheme option" where
  "USB_Device_SetConfiguration a s =
     (if wValue8 s > FIXED_NUM_CONFIGURATIONS then Some s
      else do {
        s \<leftarrow> Endpoint_ClearSETUP s;
        let s = s\<lparr>USB_ConfigurationNumber := wValue8 s\<rparr>;
        s \<leftarrow> Endpoint_ClearStatusStage s;
        let s = set_state (if USB_ConfigurationNumber s \<noteq> 0 then Configured else Addressed) s;
        EVENT_USB_Device_ConfigurationChanged a s })"

definition USB_Device_GetConfiguration :: "'a lufa_scheme \<Rightarrow> 'a lufa_scheme option" where
  "USB_Device_GetConfiguration s = do {
     s \<leftarrow> Endpoint_ClearSETUP s;
     let s = Endpoint_Write_Byte (USB_ConfigurationNumber s) s;
     s \<leftarrow> Endpoint_ClearIN s;
     Endpoint_ClearStatusStage s }"

definition USB_Device_GetDescriptor :: "'a lufa_scheme app \<Rightarrow> 'a lufa_scheme \<Rightarrow> 'a lufa_scheme option" where
  "USB_Device_GetDescriptor a s =
     (case CALLBACK_USB_GetDescriptor a (wValue (USB_ControlRequest s)) (ucast (wIndex (USB_ControlRequest s))) s
      of (DescriptorSize, DescriptorPointer, DescriptorAddressSpace) \<Rightarrow>
        if DescriptorSize = NO_DESCRIPTOR then Some s
        else do {
          s \<leftarrow> Endpoint_ClearSETUP s;
          (e, s) \<leftarrow> (if DescriptorAddressSpace = MEMSPACE_FLASH
                     then Endpoint_Write_Control_PStream_LE DescriptorPointer DescriptorSize s
                     else if DescriptorAddressSpace = MEMSPACE_EEPROM
                     then Endpoint_Write_Control_EStream_LE DescriptorPointer DescriptorSize s
                     else Endpoint_Write_Control_Stream_LE DescriptorPointer DescriptorSize s);
          Endpoint_ClearOUT s })"

text \<open>The answer of \<open>GetStatus\<close>: none when the recipient is neither the device nor an endpoint.\<close>

definition USB_Device_GetStatus :: "'a lufa_scheme \<Rightarrow> 'a lufa_scheme option" where
  "USB_Device_GetStatus s = do {
     let t = bmRequestType (USB_ControlRequest s);
     (CurrentStatus, s) \<leftarrow>
       (if t = 0x80 then
          Some (Some ((if USB_CurrentlySelfPowered s then 1 else 0) OR
                      (if USB_RemoteWakeupEnabled s then 2 else 0)), s)
        else if t = 0x82 then do {
          let s = Endpoint_SelectEndpoint (ucast (wIndex (USB_ControlRequest s))) s;
          (stalled, s) \<leftarrow> Endpoint_IsStalled s;
          Some (Some (of_bool stalled), Endpoint_SelectEndpoint ENDPOINT_CONTROLEP s) }
        else Some (None :: u8 option, s));
     (case CurrentStatus of
        None \<Rightarrow> Some s
      | Some c \<Rightarrow> do {
          s \<leftarrow> Endpoint_ClearSETUP s;
          let s = Endpoint_Write_Word_LE (ucast c) s;
          s \<leftarrow> Endpoint_ClearIN s;
          Endpoint_ClearStatusStage s }) }"

text \<open>The halt feature of an endpoint; the result tells whether the function goes on.\<close>

definition endpoint_feature :: "'a lufa_scheme \<Rightarrow> (bool \<times> 'a lufa_scheme) option" where
  "endpoint_feature s =
     (if wValue8 s = FEATURE_ENDPOINT_HALT then
        (let EndpointIndex = ucast (wIndex (USB_ControlRequest s)) AND 0x07 in
         if EndpointIndex = ENDPOINT_CONTROLEP then Some (False, s)
         else do {
           let s = Endpoint_SelectEndpoint EndpointIndex s;
           (enabled, s) \<leftarrow> Endpoint_IsEnabled s;
           s \<leftarrow> (if \<not> enabled then Some s
                 else if bRequest (USB_ControlRequest s) = REQ_SetFeature
                 then Endpoint_StallTransaction s
                 else do {
                   s \<leftarrow> Endpoint_ClearStall s;
                   Endpoint_ResetDataToggle (Endpoint_ResetFIFO EndpointIndex s) });
           Some (True, s) })
      else Some (True, s))"

definition USB_Device_ClearSetFeature :: "'a lufa_scheme \<Rightarrow> 'a lufa_scheme option" where
  "USB_Device_ClearSetFeature s = do {
     let recipient = bmRequestType (USB_ControlRequest s) AND 0x1F;
     (go_on, s) \<leftarrow>
       (if recipient = 0 then
          if wValue8 s = FEATURE_REMOTE_WAKEUP
          then Some (True, s\<lparr>USB_RemoteWakeupEnabled := (bRequest (USB_ControlRequest s) = REQ_SetFeature)\<rparr>)
          else Some (False, s)
        else if recipient = 2 then endpoint_feature s
        else Some (False, s));
     if \<not> go_on then Some s
     else do {
       let s = Endpoint_SelectEndpoint ENDPOINT_CONTROLEP s;
       s \<leftarrow> Endpoint_ClearSETUP s;
       Endpoint_ClearStatusStage s } }"

text \<open>The eight bytes of the request header.\<close>

definition read_header :: "'a lufa_scheme \<Rightarrow> 'a lufa_scheme option" where
  "read_header s = do {
     (t, s) \<leftarrow> Endpoint_Read_Byte s;
     (r, s) \<leftarrow> Endpoint_Read_Byte s;
     (v, s) \<leftarrow> Endpoint_Read_Word_LE s;
     (i, s) \<leftarrow> Endpoint_Read_Word_LE s;
     (n, s) \<leftarrow> Endpoint_Read_Word_LE s;
     Some (s\<lparr>USB_ControlRequest :=
       \<lparr>bmRequestType = t, bRequest = r, wValue = v, wIndex = i, wLength = n\<rparr>\<rparr>) }"

text \<open>The switch over the standard requests; \<open>None\<close> when the library does not handle the request.\<close>

definition standard_request ::
    "'a lufa_scheme app \<Rightarrow> u8 \<Rightarrow> u8 \<Rightarrow> ('a lufa_scheme \<Rightarrow> 'a lufa_scheme option) option" where
  "standard_request a r t =
     (if r = REQ_GetStatus \<and> (t = 0x80 \<or> t = 0x82) then Some USB_Device_GetStatus
      else if (r = REQ_ClearFeature \<or> r = REQ_SetFeature) \<and> (t = 0x00 \<or> t = 0x02)
      then Some USB_Device_ClearSetFeature
      else if r = REQ_SetAddress \<and> t = 0x00 then Some USB_Device_SetAddress
      else if r = REQ_GetDescriptor \<and> (t = 0x80 \<or> t = 0x81) then Some (USB_Device_GetDescriptor a)
      else if r = REQ_GetConfiguration \<and> t = 0x80 then Some USB_Device_GetConfiguration
      else if r = REQ_SetConfiguration \<and> t = 0x00 then Some (USB_Device_SetConfiguration a)
      else None)"

definition USB_Device_ProcessControlRequest :: "'a lufa_scheme app \<Rightarrow> 'a lufa_scheme \<Rightarrow> 'a lufa_scheme option" where
  "USB_Device_ProcessControlRequest a s = do {
     s \<leftarrow> read_header s;
     s \<leftarrow> (case standard_request a (bRequest (USB_ControlRequest s)) (bmRequestType (USB_ControlRequest s)) of
            Some f \<Rightarrow> f s
          | None \<Rightarrow> EVENT_USB_Device_UnhandledControlRequest a s);
     (pending, s) \<leftarrow> Endpoint_IsSETUPReceived s;
     if pending then do {
       s \<leftarrow> Endpoint_StallTransaction s;
       Endpoint_ClearSETUP s }
     else Some s }"

section \<open>The task (\<open>USBTask.c\<close>)\<close>

definition USB_DeviceTask :: "'a lufa_scheme app \<Rightarrow> 'a lufa_scheme \<Rightarrow> 'a lufa_scheme option" where
  "USB_DeviceTask a s =
     (let (d, s) = read_state s in
      if d \<noteq> Unattached then do {
        let PrevEndpoint = Endpoint_GetCurrentEndpoint s;
        let s = Endpoint_SelectEndpoint ENDPOINT_CONTROLEP s;
        (received, s) \<leftarrow> Endpoint_IsSETUPReceived s;
        s \<leftarrow> (if received then USB_Device_ProcessControlRequest a s else Some s);
        Some (Endpoint_SelectEndpoint PrevEndpoint s) }
      else Some s)"

definition USB_USBTask :: "'a lufa_scheme app \<Rightarrow> 'a lufa_scheme \<Rightarrow> 'a lufa_scheme option" where
  "USB_USBTask a = USB_DeviceTask a"

section \<open>The controller interrupt (\<open>USBInterrupt.c\<close>)\<close>

text \<open>The interrupts of the device mode: flag and enable bit.\<close>

datatype usb_int = USB_INT_VBUS | USB_INT_WAKEUP | USB_INT_SUSPEND | USB_INT_EORSTI | USB_INT_SOFI

fun USB_INT_GET_EN_REG :: "usb_int \<Rightarrow> sfr" where
  "USB_INT_GET_EN_REG USB_INT_VBUS = USBCON"
| "USB_INT_GET_EN_REG _ = UDIEN"

fun USB_INT_GET_INT_REG :: "usb_int \<Rightarrow> sfr" where
  "USB_INT_GET_INT_REG USB_INT_VBUS = USBINT"
| "USB_INT_GET_INT_REG _ = UDINT"

fun int_bit :: "usb_int \<Rightarrow> nat" where
  "int_bit USB_INT_VBUS = 0"
| "int_bit USB_INT_WAKEUP = 4"
| "int_bit USB_INT_SUSPEND = 0"
| "int_bit USB_INT_EORSTI = 3"
| "int_bit USB_INT_SOFI = 2"

definition USB_INT_Enable :: "usb_int \<Rightarrow> 'a lufa_scheme \<Rightarrow> 'a lufa_scheme option" where
  "USB_INT_Enable i = rmw (USB_INT_GET_EN_REG i) (\<lambda>x. x OR msk (int_bit i))"

definition USB_INT_Disable :: "usb_int \<Rightarrow> 'a lufa_scheme \<Rightarrow> 'a lufa_scheme option" where
  "USB_INT_Disable i = rmw (USB_INT_GET_EN_REG i) (\<lambda>x. x AND NOT (msk (int_bit i)))"

definition USB_INT_Clear :: "usb_int \<Rightarrow> 'a lufa_scheme \<Rightarrow> 'a lufa_scheme option" where
  "USB_INT_Clear i = rmw (USB_INT_GET_INT_REG i) (\<lambda>x. x AND NOT (msk (int_bit i)))"

definition USB_INT_IsEnabled :: "usb_int \<Rightarrow> 'a lufa_scheme \<Rightarrow> (bool \<times> 'a lufa_scheme) option" where
  "USB_INT_IsEnabled i = flag (USB_INT_GET_EN_REG i) (int_bit i)"

definition USB_INT_HasOccurred :: "usb_int \<Rightarrow> 'a lufa_scheme \<Rightarrow> (bool \<times> 'a lufa_scheme) option" where
  "USB_INT_HasOccurred i = flag (USB_INT_GET_INT_REG i) (int_bit i)"

definition USB_INT_DisableAllInterrupts :: "'a lufa_scheme \<Rightarrow> 'a lufa_scheme option" where
  "USB_INT_DisableAllInterrupts s = do {
     s \<leftarrow> rmw USBCON (\<lambda>x. x AND NOT (msk 0)) s;
     Some (wr UDIEN 0 s) }"

definition USB_INT_ClearAllInterrupts :: "'a lufa_scheme \<Rightarrow> 'a lufa_scheme" where
  "USB_INT_ClearAllInterrupts s = wr UDINT 0 (wr USBINT 0 s)"

text \<open>\<open>if (USB_INT_HasOccurred(i) && USB_INT_IsEnabled(i)) { f }\<close>\<close>

definition on_int :: "usb_int \<Rightarrow> ('a lufa_scheme \<Rightarrow> 'a lufa_scheme option) \<Rightarrow> 'a lufa_scheme \<Rightarrow> 'a lufa_scheme option" where
  "on_int i f s = do {
     (occurred, s) \<leftarrow> USB_INT_HasOccurred i s;
     if occurred then do {
       (enabled, s) \<leftarrow> USB_INT_IsEnabled i s;
       if enabled then f s else Some s }
     else Some s }"

text \<open>\<open>USB_PLL_On\<close> and the wait for the lock (\<open>LowLevel.h\<close>).\<close>

function wait_pll :: "'a lufa_scheme \<Rightarrow> 'a lufa_scheme option" where
  "wait_pll s = do { (locked, s) \<leftarrow> flag PLLCSR 0 s; if locked then Some s else wait_pll s }"
  by pat_completeness auto
termination
  by (relation "measure (\<lambda>s. length (inp s PLLCSR))") (auto dest!: flag_consumed)

declare wait_pll.simps [simp del]

definition USB_PLL_On :: "'a lufa_scheme \<Rightarrow> 'a lufa_scheme option" where
  "USB_PLL_On s = rmw PLLCSR (\<lambda>x. x OR msk 1) (wr PLLCSR (msk 4) s)"

definition USB_PLL_Off :: "'a lufa_scheme \<Rightarrow> 'a lufa_scheme" where
  "USB_PLL_Off s = wr PLLCSR 0 s"

definition USB_CLK_Freeze :: "'a lufa_scheme \<Rightarrow> 'a lufa_scheme option" where
  "USB_CLK_Freeze = rmw USBCON (\<lambda>x. x OR msk 5)"

definition USB_CLK_Unfreeze :: "'a lufa_scheme \<Rightarrow> 'a lufa_scheme option" where
  "USB_CLK_Unfreeze = rmw USBCON (\<lambda>x. x AND NOT (msk 5))"

definition int_vbus :: "'a lufa_scheme app \<Rightarrow> 'a lufa_scheme \<Rightarrow> 'a lufa_scheme option" where
  "int_vbus a s = do {
     s \<leftarrow> USB_INT_Clear USB_INT_VBUS s;
     (vbus, s) \<leftarrow> flag USBSTA 0 s;
     Some (if vbus then EVENT_USB_Device_Connect a (set_state Powered s)
           else EVENT_USB_Device_Disconnect a (set_state Unattached s)) }"

definition int_suspend :: "'a lufa_scheme app \<Rightarrow> 'a lufa_scheme \<Rightarrow> 'a lufa_scheme option" where
  "int_suspend a s = do {
     s \<leftarrow> USB_INT_Clear USB_INT_SUSPEND s;
     s \<leftarrow> USB_INT_Disable USB_INT_SUSPEND s;
     s \<leftarrow> USB_INT_Enable USB_INT_WAKEUP s;
     s \<leftarrow> USB_CLK_Freeze s;
     let s = USB_PLL_Off s;
     Some (EVENT_USB_Device_Suspend a (set_state Suspended s)) }"

definition int_wakeup :: "'a lufa_scheme app \<Rightarrow> 'a lufa_scheme \<Rightarrow> 'a lufa_scheme option" where
  "int_wakeup a s = do {
     s \<leftarrow> USB_PLL_On s;
     s \<leftarrow> wait_pll s;
     s \<leftarrow> USB_CLK_Unfreeze s;
     s \<leftarrow> USB_INT_Clear USB_INT_WAKEUP s;
     s \<leftarrow> USB_INT_Disable USB_INT_WAKEUP s;
     s \<leftarrow> USB_INT_Enable USB_INT_SUSPEND s;
     let s = set_state (if USB_ConfigurationNumber s \<noteq> 0 then Configured else Addressed) s;
     Some (EVENT_USB_Device_WakeUp a s) }"

definition int_reset :: "'a lufa_scheme app \<Rightarrow> 'a lufa_scheme \<Rightarrow> 'a lufa_scheme option" where
  "int_reset a s = do {
     s \<leftarrow> USB_INT_Clear USB_INT_EORSTI s;
     let s = (set_state Default s)\<lparr>USB_ConfigurationNumber := 0\<rparr>;
     s \<leftarrow> USB_INT_Clear USB_INT_SUSPEND s;
     s \<leftarrow> USB_INT_Disable USB_INT_SUSPEND s;
     s \<leftarrow> USB_INT_Enable USB_INT_WAKEUP s;
     s \<leftarrow> Endpoint_ClearEndpoints s;
     (ok, s) \<leftarrow> Endpoint_ConfigureEndpoint ENDPOINT_CONTROLEP EP_TYPE_CONTROL ENDPOINT_DIR_OUT
       USB_ControlEndpointSize ENDPOINT_BANK_SINGLE s;
     Some (EVENT_USB_Device_Reset a s) }"

definition int_sof :: "'a lufa_scheme app \<Rightarrow> 'a lufa_scheme \<Rightarrow> 'a lufa_scheme option" where
  "int_sof a s = do {
     s \<leftarrow> USB_INT_Clear USB_INT_SOFI s;
     Some (EVENT_USB_Device_StartOfFrame a s) }"

definition USB_GEN_vect :: "'a lufa_scheme app \<Rightarrow> 'a lufa_scheme \<Rightarrow> 'a lufa_scheme option" where
  "USB_GEN_vect a s = do {
     s \<leftarrow> on_int USB_INT_VBUS (int_vbus a) s;
     s \<leftarrow> on_int USB_INT_SUSPEND (int_suspend a) s;
     s \<leftarrow> on_int USB_INT_WAKEUP (int_wakeup a) s;
     s \<leftarrow> on_int USB_INT_EORSTI (int_reset a) s;
     on_int USB_INT_SOFI (int_sof a) s }"

section \<open>Initialisation (\<open>LowLevel.c\<close>)\<close>

definition USB_Controller_Reset :: "'a lufa_scheme \<Rightarrow> 'a lufa_scheme option" where
  "USB_Controller_Reset s = do {
     (Temp, s) \<leftarrow> rd USBCON s;
     let s = wr USBCON (Temp AND NOT (msk 7)) s;
     Some (wr USBCON (Temp OR msk 7) s) }"

definition USB_ResetInterface :: "'a lufa_scheme \<Rightarrow> 'a lufa_scheme option" where
  "USB_ResetInterface s = do {
     s \<leftarrow> USB_INT_DisableAllInterrupts s;
     let s = USB_INT_ClearAllInterrupts s;
     let s = (set_state Unattached s)\<lparr>USB_ConfigurationNumber := 0, USB_RemoteWakeupEnabled := False,
       USB_CurrentlySelfPowered := False\<rparr>;
     let s = wr PLLFRQ (msk 6 OR msk 3 OR msk 1) s;
     s \<leftarrow> USB_PLL_On s;
     s \<leftarrow> wait_pll s;
     s \<leftarrow> USB_Controller_Reset s;
     s \<leftarrow> rmw UHWCON (\<lambda>x. x OR msk 0) s;
     s \<leftarrow> USB_CLK_Unfreeze s;
     s \<leftarrow> rmw UDCON (\<lambda>x. x AND NOT (msk 2)) s;
     s \<leftarrow> rmw UDCON (\<lambda>x. x AND NOT (msk 0)) s;
     s \<leftarrow> USB_INT_Clear USB_INT_SUSPEND s;
     s \<leftarrow> USB_INT_Enable USB_INT_SUSPEND s;
     s \<leftarrow> USB_INT_Clear USB_INT_EORSTI s;
     s \<leftarrow> USB_INT_Enable USB_INT_EORSTI s;
     USB_INT_Enable USB_INT_VBUS s }"

definition USB_Init :: "'a lufa_scheme \<Rightarrow> 'a lufa_scheme option" where
  "USB_Init s = do {
     s \<leftarrow> USB_ResetInterface s;
     s \<leftarrow> rmw USBCON (\<lambda>x. x OR msk 4) s;
     Some (s\<lparr>USB_IsInitialized := True, sreg_i := True\<rparr>) }"

definition USB_ShutDown :: "'a lufa_scheme \<Rightarrow> 'a lufa_scheme option" where
  "USB_ShutDown s = do {
     s \<leftarrow> USB_ResetInterface s;
     s \<leftarrow> rmw UDCON (\<lambda>x. x OR msk 0) s;
     s \<leftarrow> rmw USBCON (\<lambda>x. x AND NOT (msk 7)) s;
     let s = USB_PLL_Off s;
     s \<leftarrow> rmw USBCON (\<lambda>x. x AND NOT (msk 4)) s;
     Some (s\<lparr>USB_IsInitialized := False\<rparr>) }"

text \<open>The macros of \<open>Device.h\<close>.\<close>

definition USB_Device_SendRemoteWakeup :: "'a lufa_scheme \<Rightarrow> 'a lufa_scheme option" where
  "USB_Device_SendRemoteWakeup = rmw UDCON (\<lambda>x. x OR msk 1)"

definition USB_Device_IsRemoteWakeupSent :: "'a lufa_scheme \<Rightarrow> (bool \<times> 'a lufa_scheme) option" where
  "USB_Device_IsRemoteWakeupSent s = do { (sending, s) \<leftarrow> flag UDCON 1 s; Some (\<not> sending, s) }"

definition USB_Device_IsUSBSuspended :: "'a lufa_scheme \<Rightarrow> (bool \<times> 'a lufa_scheme) option" where
  "USB_Device_IsUSBSuspended = flag UDINT 0"

definition USB_Device_EnableSOFEvents :: "'a lufa_scheme \<Rightarrow> 'a lufa_scheme option" where
  "USB_Device_EnableSOFEvents = USB_INT_Enable USB_INT_SOFI"

definition USB_Device_DisableSOFEvents :: "'a lufa_scheme \<Rightarrow> 'a lufa_scheme option" where
  "USB_Device_DisableSOFEvents = USB_INT_Disable USB_INT_SOFI"

end
