(* ===== verification/SixpairDescriptors.thy ===== *)
theory SixpairDescriptors
  imports LufaDevice
begin

text \<open>
  \<open>tools/sixpair-emu/Descriptors.c\<close>: the descriptors of the controller emulator, as records of the
  structures of LUFA's \<open>StdDescriptors.h\<close> with the bytes they have in memory (the structures have no
  padding on the target, words are stored low byte first), and the descriptor callback.
\<close>

definition le16 :: "u16 \<Rightarrow> u8 list" where
  "le16 w = [ucast w, ucast (drop_bit 8 w)]"

lemma length_le16 [simp]: "length (le16 w) = 2"
  by (simp add: le16_def)

text \<open>A word read from two bytes in memory.\<close>

definition word_le :: "u8 list \<Rightarrow> u16" where
  "word_le bs = word_rcat (rev bs)"

lemma le16_word_le: "length bs = 2 \<Longrightarrow> le16 (word_le bs) = bs"
proof -
  assume "length bs = 2"
  then obtain a b where bs: "bs = [a, b]" by (auto simp: length_Suc_conv numeral_2_eq_2)
  have w: "uint (word_le [a, b]) = uint a + 256 * uint b"
    using uint_lt2p [of a] uint_lt2p [of b]
    by (simp add: word_le_def word_rcat_def uint_word_ariths unsigned_ucast_eq take_bit_eq_mod)
  have "ucast (word_le [a, b]) = a"
    using uint_lt2p [of a] by (simp add: word_uint_eq_iff unsigned_ucast_eq take_bit_eq_mod w)
  moreover have "ucast (drop_bit 8 (word_le [a, b])) = b"
    using uint_lt2p [of a] uint_lt2p [of b]
    by (simp add: word_uint_eq_iff unsigned_ucast_eq uint_div drop_bit_eq_div take_bit_eq_mod w)
  ultimately show ?thesis by (simp add: le16_def bs)
qed

lemma word_le_ffff: "length bs = 2 \<Longrightarrow> word_le bs = 0xFFFF \<longleftrightarrow> bs = [0xFF, 0xFF]"
proof -
  assume bs: "length bs = 2"
  have "le16 0xFFFF = [0xFF, 0xFF]" by (simp add: le16_def)
  moreover have "word_le [0xFF, 0xFF] = 0xFFFF" by (simp add: word_le_def word_rcat_def)
  ultimately show ?thesis using le16_word_le [OF bs] by metis
qed

lemma word_le_le16 [simp]: "word_le (le16 w) = w"
proof -
  have "x mod 256 + 256 * (x div 256 mod 256) = x" if "0 \<le> x" "x < 65536" for x :: int
  proof -
    have "x div 256 < 256" using that(2) by presburger
    moreover have "0 \<le> x div 256" using that(1) by (simp add: pos_imp_zdiv_nonneg_iff)
    ultimately have "x div 256 mod 256 = x div 256" by (rule mod_pos_pos_trivial [rotated])
    then show ?thesis by simp
  qed
  from this [of "uint w"] have "uint w mod 256 + 256 * (uint w div 256 mod 256) = uint w"
    using uint_lt2p [of w] by simp
  then show ?thesis
    by (simp add: word_uint_eq_iff word_le_def le16_def word_rcat_def uint_word_ariths unsigned_ucast_eq
        take_bit_eq_mod uint_div drop_bit_eq_div)
qed

record USB_Descriptor_Header_t =
  Size :: u8
  Type :: u8

record USB_Descriptor_Device_t = USB_Descriptor_Header_t +
  USBSpecification :: u16
  Class :: u8
  SubClass :: u8
  Protocol :: u8
  Endpoint0Size :: u8
  VendorID :: u16
  ProductID :: u16
  ReleaseNumber :: u16
  ManufacturerStrIndex :: u8
  ProductStrIndex :: u8
  SerialNumStrIndex :: u8
  NumberOfConfigurations :: u8

definition device_bytes :: "USB_Descriptor_Device_t \<Rightarrow> u8 list" where
  "device_bytes d = [Size d, Type d] @ le16 (USBSpecification d) @
     [Class d, SubClass d, Protocol d, Endpoint0Size d] @
     le16 (VendorID d) @ le16 (ProductID d) @ le16 (ReleaseNumber d) @
     [ManufacturerStrIndex d, ProductStrIndex d, SerialNumStrIndex d, NumberOfConfigurations d]"

record USB_Descriptor_Configuration_Header_t = USB_Descriptor_Header_t +
  TotalConfigurationSize :: u16
  TotalInterfaces :: u8
  ConfigurationNumber :: u8
  ConfigurationStrIndex :: u8
  ConfigAttributes :: u8
  MaxPowerConsumption :: u8

definition configuration_bytes :: "USB_Descriptor_Configuration_Header_t \<Rightarrow> u8 list" where
  "configuration_bytes c = [Size c, Type c] @ le16 (TotalConfigurationSize c) @
     [TotalInterfaces c, ConfigurationNumber c, ConfigurationStrIndex c, ConfigAttributes c,
      MaxPowerConsumption c]"

record USB_Descriptor_Interface_t = USB_Descriptor_Header_t +
  InterfaceNumber :: u8
  AlternateSetting :: u8
  TotalEndpoints :: u8
  if_Class :: u8
  if_SubClass :: u8
  if_Protocol :: u8
  InterfaceStrIndex :: u8

definition interface_bytes :: "USB_Descriptor_Interface_t \<Rightarrow> u8 list" where
  "interface_bytes i = [Size i, Type i, InterfaceNumber i, AlternateSetting i, TotalEndpoints i,
     if_Class i, if_SubClass i, if_Protocol i, InterfaceStrIndex i]"

record USB_Descriptor_HID_t = USB_Descriptor_Header_t +
  HIDSpec :: u16
  CountryCode :: u8
  TotalReportDescriptors :: u8
  HIDReportType :: u8
  HIDReportLength :: u16

definition hid_bytes :: "USB_Descriptor_HID_t \<Rightarrow> u8 list" where
  "hid_bytes h = [Size h, Type h] @ le16 (HIDSpec h) @
     [CountryCode h, TotalReportDescriptors h, HIDReportType h] @ le16 (HIDReportLength h)"

record USB_Descriptor_Endpoint_t = USB_Descriptor_Header_t +
  EndpointAddress :: u8
  Attributes :: u8
  EndpointSize :: u16
  PollingIntervalMS :: u8

definition endpoint_bytes :: "USB_Descriptor_Endpoint_t \<Rightarrow> u8 list" where
  "endpoint_bytes e = [Size e, Type e, EndpointAddress e, Attributes e] @ le16 (EndpointSize e) @
     [PollingIntervalMS e]"

record USB_Descriptor_Configuration_t =
  Config :: USB_Descriptor_Configuration_Header_t
  Interface :: USB_Descriptor_Interface_t
  SixaxisHID :: USB_Descriptor_HID_t
  SixaxisOutEndpoint :: USB_Descriptor_Endpoint_t
  SixaxisInEndpoint :: USB_Descriptor_Endpoint_t

definition whole_configuration :: "USB_Descriptor_Configuration_t \<Rightarrow> u8 list" where
  "whole_configuration c = configuration_bytes (Config c) @ interface_bytes (Interface c) @
     hid_bytes (SixaxisHID c) @ endpoint_bytes (SixaxisOutEndpoint c) @ endpoint_bytes (SixaxisInEndpoint c)"

abbreviation (input) "DTYPE_Device \<equiv> 0x01 :: u8"
abbreviation (input) "DTYPE_Configuration \<equiv> 0x02 :: u8"
abbreviation (input) "DTYPE_String \<equiv> 0x03 :: u8"
abbreviation (input) "DTYPE_Interface \<equiv> 0x04 :: u8"
abbreviation (input) "DTYPE_Endpoint \<equiv> 0x05 :: u8"
abbreviation (input) "DTYPE_HID \<equiv> 0x21 :: u8"
abbreviation (input) "DTYPE_Report \<equiv> 0x22 :: u8"
abbreviation (input) "SIXAXIS_IN_EPNUM \<equiv> 1 :: u8"
abbreviation (input) "SIXAXIS_OUT_EPNUM \<equiv> 2 :: u8"
abbreviation (input) "SIXAXIS_EPSIZE \<equiv> 64 :: u16"

section \<open>The tables\<close>

definition SixaxisReport :: "u8 list" where
  "SixaxisReport =
     [0x05, 0x01, 0x09, 0x04, 0xa1, 0x01, 0xa1, 0x02, 0x85, 0x01, 0x75, 0x08, 0x95, 0x01,
      0x15, 0x00, 0x26, 0xff, 0x00, 0x81, 0x03, 0x75, 0x01, 0x95, 0x13, 0x15, 0x00, 0x25, 0x01,
      0x35, 0x00, 0x45, 0x01, 0x05, 0x09, 0x19, 0x01, 0x29, 0x13, 0x81, 0x02, 0x75, 0x01,
      0x95, 0x0d, 0x06, 0x00, 0xff, 0x81, 0x03, 0x15, 0x00, 0x26, 0xff, 0x00, 0x05, 0x01,
      0x09, 0x01, 0xa1, 0x00, 0x75, 0x08, 0x95, 0x04, 0x35, 0x00, 0x46, 0xff, 0x00, 0x09, 0x30,
      0x09, 0x31, 0x09, 0x32, 0x09, 0x35, 0x81, 0x02, 0xc0, 0x05, 0x01, 0x75, 0x08, 0x95, 0x27,
      0x09, 0x01, 0x81, 0x02, 0x75, 0x08, 0x95, 0x30, 0x09, 0x01, 0x91, 0x02, 0x75, 0x08,
      0x95, 0x30, 0x09, 0x01, 0xb1, 0x02, 0xc0, 0xa1, 0x02, 0x85, 0x02, 0x75, 0x08, 0x95, 0x30,
      0x09, 0x01, 0xb1, 0x02, 0xc0, 0xa1, 0x02, 0x85, 0xee, 0x75, 0x08, 0x95, 0x30, 0x09, 0x01,
      0xb1, 0x02, 0xc0, 0xa1, 0x02, 0x85, 0xef, 0x75, 0x08, 0x95, 0x30, 0x09, 0x01, 0xb1, 0x02,
      0xc0, 0xc0]"

text \<open>The device descriptor before the start-up code has filled in the two identifiers.\<close>

definition DeviceDescriptor :: USB_Descriptor_Device_t where
  "DeviceDescriptor =
     \<lparr>Size = 18, Type = DTYPE_Device, USBSpecification = 0x0200, Class = 0, SubClass = 0, Protocol = 0,
      Endpoint0Size = 64, VendorID = 0x0000, ProductID = 0x0000, ReleaseNumber = 0x0100,
      ManufacturerStrIndex = 1, ProductStrIndex = 2, SerialNumStrIndex = 0,
      NumberOfConfigurations = FIXED_NUM_CONFIGURATIONS\<rparr>"

definition ConfigurationDescriptor :: USB_Descriptor_Configuration_t where
  "ConfigurationDescriptor =
     \<lparr>Config = \<lparr>Size = 9, Type = DTYPE_Configuration, TotalConfigurationSize = 9 + 9 + 9 + 7 + 7,
        TotalInterfaces = 1, ConfigurationNumber = 1, ConfigurationStrIndex = 0,
        ConfigAttributes = 0x80, MaxPowerConsumption = 250\<rparr>,
      Interface = \<lparr>Size = 9, Type = DTYPE_Interface, InterfaceNumber = 0, AlternateSetting = 0,
        TotalEndpoints = 2, if_Class = 0x03, if_SubClass = 0, if_Protocol = 0, InterfaceStrIndex = 0\<rparr>,
      SixaxisHID = \<lparr>Size = 9, Type = DTYPE_HID, HIDSpec = 0x0111, CountryCode = 0,
        TotalReportDescriptors = 1, HIDReportType = DTYPE_Report,
        HIDReportLength = of_nat (length SixaxisReport)\<rparr>,
      SixaxisOutEndpoint = \<lparr>Size = 7, Type = DTYPE_Endpoint, EndpointAddress = 0x00 OR SIXAXIS_OUT_EPNUM,
        Attributes = EP_TYPE_INTERRUPT, EndpointSize = SIXAXIS_EPSIZE, PollingIntervalMS = 1\<rparr>,
      SixaxisInEndpoint = \<lparr>Size = 7, Type = DTYPE_Endpoint, EndpointAddress = 0x80 OR SIXAXIS_IN_EPNUM,
        Attributes = EP_TYPE_INTERRUPT, EndpointSize = SIXAXIS_EPSIZE, PollingIntervalMS = 1\<rparr>\<rparr>"

text \<open>A string descriptor: the declared size, the type and the 16-bit characters of the literal.\<close>

definition USB_STRING_LEN :: "nat \<Rightarrow> u8" where
  "USB_STRING_LEN n = of_nat (2 + n * 2)"

definition LanguageString :: "u8 list" where
  "LanguageString = [USB_STRING_LEN 1, DTYPE_String] @ le16 0x0409"

definition ManufacturerString :: "u8 list" where
  "ManufacturerString = [USB_STRING_LEN 5, DTYPE_String] @ concat (replicate 4 [0x58, 0x00]) @ [0, 0]"

definition ProductString :: "u8 list" where
  "ProductString = [USB_STRING_LEN 26, DTYPE_String] @ concat (replicate 26 [0x59, 0x00]) @ [0, 0]"

section \<open>The callback\<close>

text \<open>
  \<open>d\<close> is the device descriptor with its identifiers; the byte list of an unknown descriptor stands for
  the null pointer, its memory space is not set (the caller does not use either).
\<close>

definition get_descriptor_callback ::
    "USB_Descriptor_Device_t \<Rightarrow> u16 \<Rightarrow> u8 \<Rightarrow> u16 \<times> u8 list \<times> memspace" where
  "get_descriptor_callback d wV wI =
     (let DescriptorType = ucast (drop_bit 8 wV) :: u8;
          DescriptorNumber = ucast wV :: u8
      in if DescriptorType = DTYPE_Device then (18, device_bytes d, MEMSPACE_RAM)
         else if DescriptorType = DTYPE_Configuration
         then (41, whole_configuration ConfigurationDescriptor, MEMSPACE_FLASH)
         else if DescriptorType = DTYPE_String then
           (if DescriptorNumber = 0 then (ucast (LanguageString ! 0), LanguageString, MEMSPACE_FLASH)
            else if DescriptorNumber = 1 then (ucast (ManufacturerString ! 0), ManufacturerString, MEMSPACE_FLASH)
            else if DescriptorNumber = 2 then (ucast (ProductString ! 0), ProductString, MEMSPACE_FLASH)
            else (NO_DESCRIPTOR, [], MEMSPACE_FLASH))
         else if DescriptorType = DTYPE_HID
         then (9, drop 18 (whole_configuration ConfigurationDescriptor), MEMSPACE_FLASH)
         else if DescriptorType = DTYPE_Report
         then (of_nat (length SixaxisReport), SixaxisReport, MEMSPACE_FLASH)
         else (NO_DESCRIPTOR, [], MEMSPACE_FLASH))"

lemma length_whole_configuration: "length (whole_configuration ConfigurationDescriptor) = 41"
  by (simp add: whole_configuration_def configuration_bytes_def interface_bytes_def hid_bytes_def
      endpoint_bytes_def)

lemma length_device_bytes [simp]: "length (device_bytes d) = 18"
  by (simp add: device_bytes_def)

lemma length_SixaxisReport: "length SixaxisReport = 148"
  by (simp add: SixaxisReport_def)

lemma length_pairs [simp]: "length (concat (replicate n [a, b])) = 2 * n"
  by (induction n) simp_all

text \<open>Every descriptor the callback offers is as long as the size it gives.\<close>

lemma callback_in_bounds:
  "get_descriptor_callback d v i = (n, bs, m) \<Longrightarrow> unat n \<le> length bs"
  by (auto simp: get_descriptor_callback_def Let_def length_whole_configuration length_SixaxisReport
      LanguageString_def ManufacturerString_def ProductString_def USB_STRING_LEN_def split: if_splits)

end
