(* ===== verification/SixpairEmu.thy ===== *)
theory SixpairEmu
  imports SixpairDescriptors
begin

text \<open>
  \<open>tools/sixpair-emu/sixaxis_pair_emu.c\<close>: the firmware that stands in for a controller while a
  console is paired. It answers the feature reports of a Sixaxis, keeps the address of the console
  the host programs, and sends input reports. The state extends that of the USB library by the
  EEPROM variables and the globals of the file; the LED functions do nothing on the board the
  makefile selects (\<open>BOARD_NONE\<close>).
\<close>

record emu = lufa +
  ee_DeviceBdaddr :: "u8 list"      \<comment> \<open>\<open>EEMEM\<close> variables\<close>
  ee_VendorId :: u16
  ee_ProductId :: u16
  dd :: USB_Descriptor_Device_t     \<comment> \<open>\<open>DeviceDescriptor\<close>, in RAM\<close>
  VolatileDeviceBdaddr :: "u8 list"
  VolatileMasterBdaddr :: "u8 list"
  reply :: u8
  UsingReportProtocol :: bool
  IdleCount :: u16
  IdleMSRemaining :: u16
  RefReportData :: "u8 list"
  PrevSixaxisReportData :: "u8 list"
  last_set_data :: "u8 list"

definition REF_REPORT :: "u8 list" where
  "REF_REPORT =
     [0x01, 0x00, 0x00, 0x00, 0x00, 0x00, 0x7a, 0x80, 0x82, 0x7d, 0x00, 0x00, 0x00, 0x00, 0x00,
      0x00, 0x00, 0x00, 0x00, 0x00, 0x00, 0x00, 0x00, 0x00, 0x00, 0x00, 0x00, 0x00, 0x00, 0x02,
      0xee, 0x10, 0x00, 0x00, 0x00, 0x00, 0x02, 0xff, 0x77, 0x01, 0x80, 0x02, 0x1f, 0x02, 0x02,
      0x01, 0x9c, 0x00, 0x05, 0x00]"

text \<open>The globals as they are initialised; \<open>l\<close> is the library state and \<open>b v p\<close> what the EEPROM holds.\<close>

definition emu_start :: "lufa \<Rightarrow> u8 list \<Rightarrow> u16 \<Rightarrow> u16 \<Rightarrow> emu" where
  "emu_start l b v p = lufa.extend l
     \<lparr>ee_DeviceBdaddr = b, ee_VendorId = v, ee_ProductId = p, dd = DeviceDescriptor,
      VolatileDeviceBdaddr = replicate 6 0, VolatileMasterBdaddr = replicate 6 0, reply = 0,
      UsingReportProtocol = True, IdleCount = 500, IdleMSRemaining = 0, RefReportData = REF_REPORT,
      PrevSixaxisReportData = replicate 50 0, last_set_data = replicate 64 0\<rparr>"

definition readEepromIdentifiers :: "emu \<Rightarrow> emu" where
  "readEepromIdentifiers s =
     (let d = (dd s)\<lparr>VendorID := ee_VendorId s, ProductID := ee_ProductId s\<rparr>;
          d = (if VendorID d = 0xFFFF then d\<lparr>VendorID := 0x03EB\<rparr> else d);
          d = (if ProductID d = 0xFFFF then d\<lparr>ProductID := 0x2042\<rparr> else d)
      in s\<lparr>dd := d, VolatileDeviceBdaddr := ee_DeviceBdaddr s\<rparr>)"

section \<open>Event handlers\<close>

definition emu_Connect :: "emu \<Rightarrow> emu" where
  "emu_Connect s = s\<lparr>UsingReportProtocol := True\<rparr>"

definition emu_ConfigurationChanged :: "emu \<Rightarrow> emu option" where
  "emu_ConfigurationChanged s = do {
     (in_ok, s) \<leftarrow> Endpoint_ConfigureEndpoint SIXAXIS_IN_EPNUM EP_TYPE_INTERRUPT ENDPOINT_DIR_IN
       SIXAXIS_EPSIZE ENDPOINT_BANK_SINGLE s;
     (out_ok, s) \<leftarrow> Endpoint_ConfigureEndpoint SIXAXIS_OUT_EPNUM EP_TYPE_INTERRUPT ENDPOINT_DIR_OUT
       SIXAXIS_EPSIZE ENDPOINT_BANK_SINGLE s;
     USB_INT_Enable USB_INT_SOFI s }"

definition emu_StartOfFrame :: "emu \<Rightarrow> emu" where
  "emu_StartOfFrame s =
     (if IdleMSRemaining s \<noteq> 0 then s\<lparr>IdleMSRemaining := IdleMSRemaining s - 1\<rparr> else s)"

section \<open>The feature reports\<close>

definition feature_f7 :: "u8 list" where
  "feature_f7 =
     [0x01, 0x00, 0x08, 0x03, 0xd2, 0x01, 0xee, 0xff, 0x10, 0x02, 0x00, 0x03, 0x50, 0x81, 0xd8,
      0x01, 0x8a, 0x00, 0x00, 0x01, 0x64, 0x19, 0x01, 0x00, 0x64, 0x00, 0x01, 0x90, 0x00, 0x19,
      0xfe, 0x00, 0x00, 0x00, 0x00, 0x00, 0x00, 0x00, 0x00, 0x00, 0x00, 0x00, 0x00, 0x00, 0x00,
      0x00, 0x00, 0x00, 0x03, 0x00, 0x00, 0x00, 0x00, 0x00, 0x00, 0x00, 0x00, 0x00, 0x00, 0x00,
      0x00, 0x00, 0x00, 0x00]"

definition feature_f5_dummy :: "u8 list" where
  "feature_f5_dummy =
     [0x01, 0x00, 0xaa, 0xaa, 0xaa, 0xaa, 0xaa, 0xaa, 0x23, 0x1e, 0x00, 0x03, 0x50, 0x81, 0xd8,
      0x01, 0x8a, 0x00, 0x00, 0x01, 0x64, 0x19, 0x01, 0x00, 0x64, 0x00, 0x01, 0x90, 0x00, 0x19,
      0xfe, 0x00, 0x00, 0x00, 0x00, 0x00, 0x00, 0x00, 0x00, 0x00, 0x00, 0x00, 0x00, 0x00, 0x00,
      0x00, 0x00, 0x00, 0x03, 0x00, 0x00, 0x00, 0x00, 0x00, 0x00, 0x00, 0x00, 0x00, 0x00, 0x00,
      0x00, 0x00, 0x00, 0x00]"

definition feature_f5 :: "u8 list" where
  "feature_f5 =
     [0x01, 0x00, 0x00, 0x00, 0x00, 0x00, 0x00, 0x00, 0x23, 0x1e, 0x00, 0x03, 0x50, 0x81, 0xd8,
      0x01, 0x8a, 0x00, 0x00, 0x01, 0x64, 0x19, 0x01, 0x00, 0x64, 0x00, 0x01, 0x90, 0x00, 0x19,
      0xfe, 0x00, 0x00, 0x00, 0x00, 0x00, 0x00, 0x00, 0x00, 0x00, 0x00, 0x00, 0x00, 0x00, 0x00,
      0x00, 0x00, 0x00, 0x03, 0x00, 0x00, 0x00, 0x00, 0x00, 0x00, 0x00, 0x00, 0x00, 0x00, 0x00,
      0x00, 0x00, 0x00, 0x00]"

definition feature_f2 :: "u8 list" where
  "feature_f2 =
     [0xf2, 0xff, 0xff, 0x00, 0x00, 0x00, 0x00, 0x00, 0x00, 0x00, 0x00, 0x03, 0x50, 0x81, 0xd8,
      0x01, 0x8a, 0x00, 0x00, 0x01, 0x64, 0x19, 0x01, 0x00, 0x64, 0x00, 0x01, 0x90, 0x00, 0x19,
      0xfe, 0x00, 0x00, 0x00, 0x00, 0x00, 0x00, 0x00, 0x00, 0x00, 0x00, 0x00, 0x00, 0x00, 0x00,
      0x00, 0x00, 0x00, 0x03, 0x00, 0x00, 0x00, 0x00, 0x00, 0x00, 0x00, 0x00, 0x00, 0x00, 0x00,
      0x00, 0x00, 0x00, 0x00]"

definition feature_ef :: "u8 list" where
  "feature_ef =
     [0x00, 0xef, 0x03, 0x00, 0x04, 0x03, 0x01, 0xb0, 0x00, 0x00, 0x00, 0x00, 0x00, 0x00, 0x00,
      0x00, 0x00, 0x02, 0x05, 0x01, 0x92, 0x02, 0x02, 0x01, 0x91, 0x02, 0x05, 0x01, 0x91, 0x02,
      0x04, 0x00, 0x76, 0x00, 0x00, 0x00, 0x00, 0x00, 0x00, 0x00, 0x00, 0x00, 0x00, 0x00, 0x00,
      0x00, 0x00, 0x00, 0x03, 0x00, 0x00, 0x00, 0x00, 0x00, 0x00, 0x00, 0x00, 0x00, 0x00, 0x00,
      0x00, 0x00, 0x00, 0x00]"

definition feature_ee :: "u8 list" where
  "feature_ee =
     [0x00, 0xee, 0x02, 0x00, 0x04, 0xee, 0x10, 0x00, 0x00, 0x00, 0x00, 0x02, 0x03, 0x08, 0x01,
      0xd2, 0x00, 0x00, 0x02, 0x02, 0x02, 0x00, 0x03, 0x00, 0x00, 0x02, 0x00, 0x00, 0x02, 0x62,
      0x01, 0x02, 0x01, 0x5e, 0x00, 0x32, 0x00, 0x00, 0x00, 0x00, 0x00, 0x00, 0x00, 0x00, 0x00,
      0x00, 0x00, 0x00, 0x00, 0x00, 0x00, 0x00, 0x00, 0x00, 0x00, 0x00, 0x00, 0x00, 0x00, 0x00,
      0x00, 0x00, 0x00, 0x00]"

definition report_302 :: "u8 list" where
  "report_302 =
     [0x00, 0x02, 0x01, 0x00, 0x04, 0x00, 0x00, 0x00, 0x00, 0x00, 0x00, 0x00, 0x00, 0x00, 0x00,
      0x00, 0x00, 0x00, 0x00, 0x00, 0x00, 0x00, 0x00, 0x00, 0x00, 0x00, 0x00, 0x00, 0x00, 0x00,
      0x00, 0x00, 0x00, 0x00, 0x00, 0x00, 0x00, 0x00, 0x00, 0x00, 0x00, 0x00, 0x00, 0x00, 0x00,
      0x00, 0x00, 0x00, 0x00, 0xff, 0xff, 0xff, 0xff, 0xff, 0xff, 0xff, 0xff, 0xff, 0xff, 0xff,
      0xff, 0xff, 0xff, 0xff]"

definition report_301 :: "u8 list" where
  "report_301 =
     [0x00, 0x01, 0x03, 0x00, 0x04, 0x0c, 0x01, 0x02, 0x18, 0x18, 0x18, 0x18, 0x09, 0x0a, 0x10,
      0x11, 0x12, 0x13, 0x00, 0x00, 0x00, 0x00, 0x04, 0x00, 0x02, 0x02, 0x02, 0x02, 0x00, 0x00,
      0x00, 0x04, 0x04, 0x04, 0x04, 0x00, 0x00, 0x01, 0x06, 0x00, 0x00, 0x00, 0x00, 0x00, 0x00,
      0x00, 0x00, 0x00, 0x00, 0x00, 0x00, 0x00, 0x00, 0x00, 0x00, 0x00, 0x00, 0x00, 0x00, 0x00,
      0x00, 0x00, 0x00, 0x00]"

definition report_201 :: "u8 list" where
  "report_201 =
     [0x00, 0x00, 0x00, 0x00, 0x00, 0x00, 0x00, 0x00, 0x00, 0x00, 0x1e, 0xff, 0x27, 0x10, 0x32,
      0x32, 0xff, 0x27, 0x10, 0x32, 0x32, 0xff, 0x27, 0x10, 0x32, 0x32, 0xff, 0x27, 0x10, 0x32,
      0x32, 0x00, 0x00, 0x00, 0x00, 0x00, 0x00, 0x00, 0x00, 0x00, 0x00, 0x00, 0x00, 0x00, 0x00,
      0x00, 0x00, 0x00, 0x00, 0x00, 0x00, 0x00, 0x00, 0x00, 0x00, 0x00, 0x00, 0x00, 0x00, 0x00,
      0x00, 0x00, 0x00, 0x00]"

definition report_101 :: "u8 list" where
  "report_101 =
     [0x00, 0x00, 0x00, 0x00, 0x00, 0x00, 0x80, 0x80, 0x80, 0x80, 0x00, 0x00, 0x00, 0x00, 0x00,
      0x00, 0x00, 0x00, 0x00, 0x00, 0x00, 0x00, 0x00, 0x00, 0x00, 0x00, 0x00, 0x00, 0x00, 0x03,
      0xee, 0x10, 0x00, 0x00, 0x00, 0x00, 0x02, 0x54, 0x77, 0x01, 0x80, 0x01, 0xff, 0x01, 0xff,
      0x01, 0xff, 0x01, 0xff, 0x00, 0x00, 0x00, 0x00, 0x00, 0x00, 0x00, 0x00, 0x00, 0x00, 0x00,
      0x00, 0x00, 0x00, 0x00]"

text \<open>\<open>memcpy(buf + i, bs, n)\<close>\<close>

definition patch :: "nat \<Rightarrow> u8 list \<Rightarrow> u8 list \<Rightarrow> u8 list" where
  "patch i bs buf = take i buf @ bs @ drop (i + length bs) buf"

definition req_length :: "emu \<Rightarrow> u16" where
  "req_length s = wLength (USB_ControlRequest s)"

definition answer :: "u8 list \<Rightarrow> emu \<Rightarrow> emu option" where
  "answer buf s = do {
     s \<leftarrow> Endpoint_ClearSETUP s;
     (e, s) \<leftarrow> Endpoint_Write_Control_Stream_LE buf (req_length s) s;
     Endpoint_ClearOUT s }"

text \<open>
  The answer to programming request \<open>0xDEAD\<close>: of the 64 bytes of the buffer only the first ten are
  initialised, only those have a defined value.
\<close>

definition dead_buffer :: "emu \<Rightarrow> u8 list" where
  "dead_buffer s = le16 (VendorID (dd s)) @ le16 (ProductID (dd s)) @ VolatileDeviceBdaddr s"

text \<open>Feature report F5: the first answer carries a dummy address, the later ones the stored one.\<close>

definition answer_f5 :: "emu \<Rightarrow> emu option" where
  "answer_f5 s = do {
     s \<leftarrow> Endpoint_ClearSETUP s;
     s \<leftarrow> (if reply s = 0 then do {
             (e, s) \<leftarrow> Endpoint_Write_Control_Stream_LE feature_f5_dummy (req_length s) s;
             Some (s\<lparr>reply := 1\<rparr>) }
           else do {
             (e, s) \<leftarrow> Endpoint_Write_Control_Stream_LE (patch 2 (VolatileMasterBdaddr s) feature_f5)
               (req_length s) s;
             Some s });
     Endpoint_ClearOUT s }"

definition CreateSixaxisReport :: "emu \<Rightarrow> u8 list" where
  "CreateSixaxisReport s = RefReportData s"

definition get_report :: "emu \<Rightarrow> emu option" where
  "get_report s =
     (let v = wValue (USB_ControlRequest s); has = (\<lambda>m. v AND m = m)
      in if v = 0xDEAD then answer (dead_buffer s) s
         else if has 0x03f7 then answer feature_f7 s
         else if has 0x03f5 then answer_f5 s
         else if has 0x03f2 then answer (patch 4 (VolatileDeviceBdaddr s) feature_f2) s
         else if has 0x03ef then answer (feature_ef[7 := last_set_data s ! 6]) s
         else if has 0x03ee then answer feature_ee s
         else if has 0x0302 then answer report_302 s
         else if has 0x0301 then answer report_301 s
         else if has 0x0201 then answer report_201 s
         else if has 0x0101 then answer report_101 s
         else do {
           s \<leftarrow> Endpoint_ClearSETUP s;
           (e, s) \<leftarrow> Endpoint_Write_Control_Stream_LE (CreateSixaxisReport s) 50 s;
           Endpoint_ClearOUT s })"

text \<open>
  The loop of \<open>REQ_SetReport\<close>: an 8-bit index against the 16-bit length, into a buffer of 64 bytes;
  a byte stored past its end has no defined result.
\<close>

function set_report_loop :: "u8 \<Rightarrow> emu \<Rightarrow> emu option" where
  "set_report_loop i s =
     (if ucast i < req_length s then do {
        (b, s) \<leftarrow> Endpoint_Read_Byte s;
        if unat i < length (last_set_data s)
        then set_report_loop (i + 1) (s\<lparr>last_set_data := (last_set_data s)[unat i := b]\<rparr>)
        else None }
      else Some s)"
  by pat_completeness auto
termination
  by (relation "measure (\<lambda>(i, s). length (inp s UEDATX))")
    (auto simp: Endpoint_Read_Byte_def dest!: rd_consumed)

declare set_report_loop.simps [simp del]

definition set_report :: "emu \<Rightarrow> emu option" where
  "set_report s = do {
     s \<leftarrow> Endpoint_ClearSETUP s;
     (seen, s) \<leftarrow> wait_flag RXOUTI s;
     if \<not> seen then Some s
     else do {
       s \<leftarrow> set_report_loop 0 s;
       s \<leftarrow> Endpoint_ClearOUT s;
       s \<leftarrow> Endpoint_ClearStatusStage s;
       let d = last_set_data s;
       let s = (if wValue (USB_ControlRequest s) = 0xDEAD
         then s\<lparr>ee_VendorId := word_le (take 2 d), ee_ProductId := word_le (take 2 (drop 2 d)),
                ee_DeviceBdaddr := take 6 (drop 4 d)\<rparr>
         else s);
       let s = (if wValue (USB_ControlRequest s) = 0x03f5
         then s\<lparr>VolatileMasterBdaddr := take 6 (drop 2 d)\<rparr> else s);
       Some s } }"

section \<open>The protocol and the idle rate\<close>

definition get_protocol :: "emu \<Rightarrow> emu option" where
  "get_protocol s = do {
     s \<leftarrow> Endpoint_ClearSETUP s;
     let s = Endpoint_Write_Byte (of_bool (UsingReportProtocol s)) s;
     s \<leftarrow> Endpoint_ClearIN s;
     Endpoint_ClearStatusStage s }"

definition set_protocol :: "emu \<Rightarrow> emu option" where
  "set_protocol s = do {
     s \<leftarrow> Endpoint_ClearSETUP s;
     let s = s\<lparr>UsingReportProtocol := (wValue (USB_ControlRequest s) \<noteq> 0)\<rparr>;
     Endpoint_ClearStatusStage s }"

definition set_idle :: "emu \<Rightarrow> emu option" where
  "set_idle s = do {
     s \<leftarrow> Endpoint_ClearSETUP s;
     let s = s\<lparr>IdleCount := drop_bit 6 (wValue (USB_ControlRequest s) AND 0xFF00)\<rparr>;
     Endpoint_ClearStatusStage s }"

definition get_idle :: "emu \<Rightarrow> emu option" where
  "get_idle s = do {
     s \<leftarrow> Endpoint_ClearSETUP s;
     let s = Endpoint_Write_Byte (ucast (drop_bit 2 (IdleCount s))) s;
     s \<leftarrow> Endpoint_ClearIN s;
     Endpoint_ClearStatusStage s }"

abbreviation (input) "REQ_GetReport \<equiv> 0x01 :: u8"
abbreviation (input) "REQ_GetIdle \<equiv> 0x02 :: u8"
abbreviation (input) "REQ_GetProtocol \<equiv> 0x03 :: u8"
abbreviation (input) "REQ_SetReport \<equiv> 0x09 :: u8"
abbreviation (input) "REQ_SetIdle \<equiv> 0x0A :: u8"
abbreviation (input) "REQ_SetProtocol \<equiv> 0x0B :: u8"

text \<open>Class requests to the interface: \<open>0xA1\<close> towards the host, \<open>0x21\<close> towards the device.\<close>

definition emu_UnhandledControlRequest :: "emu \<Rightarrow> emu option" where
  "emu_UnhandledControlRequest s =
     (let r = bRequest (USB_ControlRequest s); t = bmRequestType (USB_ControlRequest s)
      in if r = REQ_GetReport then (if t = 0xA1 then get_report s else Some s)
         else if r = REQ_SetReport then (if t = 0x21 then set_report s else Some s)
         else if r = REQ_GetProtocol then (if t = 0xA1 then get_protocol s else Some s)
         else if r = REQ_SetProtocol then (if t = 0x21 then set_protocol s else Some s)
         else if r = REQ_SetIdle then (if t = 0x21 then set_idle s else Some s)
         else if r = REQ_GetIdle then (if t = 0xA1 then get_idle s else Some s)
         else Some s)"

definition emu_app :: "emu app" where
  "emu_app =
     \<lparr>CALLBACK_USB_GetDescriptor = (\<lambda>v i s. get_descriptor_callback (dd s) v i),
      EVENT_USB_Device_UnhandledControlRequest = emu_UnhandledControlRequest,
      EVENT_USB_Device_ConfigurationChanged = emu_ConfigurationChanged,
      EVENT_USB_Device_Connect = emu_Connect,
      EVENT_USB_Device_Disconnect = id,
      EVENT_USB_Device_Suspend = id,
      EVENT_USB_Device_WakeUp = id,
      EVENT_USB_Device_Reset = id,
      EVENT_USB_Device_StartOfFrame = emu_StartOfFrame\<rparr>"

section \<open>The input reports\<close>

abbreviation (input) "HID_IDLE_CHANGESONLY \<equiv> 0 :: u16"

definition SendNextReport :: "emu \<Rightarrow> emu option" where
  "SendNextReport s = do {
     let report = CreateSixaxisReport s;
     let SendReport = (PrevSixaxisReportData s \<noteq> report);
     let (SendReport, s) =
       (if IdleCount s \<noteq> HID_IDLE_CHANGESONLY \<and> IdleMSRemaining s = 0
        then (True, s\<lparr>IdleMSRemaining := IdleCount s\<rparr>) else (SendReport, s));
     let s = Endpoint_SelectEndpoint SIXAXIS_IN_EPNUM s;
     (allowed, s) \<leftarrow> Endpoint_IsReadWriteAllowed s;
     if allowed \<and> SendReport then do {
       let s = s\<lparr>PrevSixaxisReportData := report\<rparr>;
       (e, s) \<leftarrow> Endpoint_Write_Stream_LE report 50 s;
       Endpoint_ClearIN s }
     else Some s }"

definition ProcessLEDReport :: "u8 \<Rightarrow> emu \<Rightarrow> emu" where
  "ProcessLEDReport LEDReport s = s"

definition ReceiveNextReport :: "emu \<Rightarrow> emu option" where
  "ReceiveNextReport s = do {
     let s = Endpoint_SelectEndpoint SIXAXIS_OUT_EPNUM s;
     (received, s) \<leftarrow> Endpoint_IsOUTReceived s;
     if received then do {
       (allowed, s) \<leftarrow> Endpoint_IsReadWriteAllowed s;
       s \<leftarrow> (if allowed then do {
               (LEDReport, s) \<leftarrow> Endpoint_Read_Byte s;
               Some (ProcessLEDReport LEDReport s) }
             else Some s);
       Endpoint_ClearOUT s }
     else Some s }"

definition HID_Task :: "emu \<Rightarrow> emu option" where
  "HID_Task s =
     (let (d, s) = read_state s in
      if d \<noteq> Configured then Some s
      else do { s \<leftarrow> SendNextReport s; ReceiveNextReport s })"

section \<open>The main program\<close>

definition main_pass :: "emu \<Rightarrow> emu option" where
  "main_pass s = do { s \<leftarrow> HID_Task s; USB_USBTask emu_app s }"

fun passes :: "nat \<Rightarrow> emu \<Rightarrow> emu option" where
  "passes 0 s = Some s"
| "passes (Suc n) s = do { s \<leftarrow> main_pass s; passes n s }"

text \<open>\<open>main\<close>, up to the \<open>n\<close>-th pass of its endless loop.\<close>

definition emu_main :: "nat \<Rightarrow> emu \<Rightarrow> emu option" where
  "emu_main n s = do {
     let s = readEepromIdentifiers s;
     s \<leftarrow> USB_Init s;
     s \<leftarrow> passes 2000 s;
     let s = s\<lparr>RefReportData := (RefReportData s)[4 := 0x01]\<rparr>;
     s \<leftarrow> passes 1000 s;
     let s = s\<lparr>RefReportData := (RefReportData s)[4 := 0x00]\<rparr>;
     passes n s }"

end
