(* ===== verification/LufaContract.thy ===== *)
theory LufaContract
  imports LufaDevice
begin

text \<open>
  What the library guarantees to an application, and what it expects from it. \<open>ok P m\<close> says that a
  computation ends, if it ends, in a state with \<open>P\<close>. The locale \<open>lufa_invariant\<close> holds for every
  property that register accesses and interrupts keep; the locale \<open>lufa_application\<close> is the contract
  between the device stack and the callbacks of an application: callbacks that keep the invariant of
  the application never break it or that of the library, whatever requests and interrupts arrive.
\<close>

section \<open>Conditions on the final state\<close>

definition ok :: "('a lufa_scheme \<Rightarrow> bool) \<Rightarrow> 'a lufa_scheme option \<Rightarrow> bool" where
  "ok P m \<longleftrightarrow> (\<forall>t. m = Some t \<longrightarrow> P t)"

definition ok2 :: "('a lufa_scheme \<Rightarrow> bool) \<Rightarrow> ('x \<times> 'a lufa_scheme) option \<Rightarrow> bool" where
  "ok2 P m \<longleftrightarrow> (\<forall>x t. m = Some (x, t) \<longrightarrow> P t)"

named_theorems ok_rules \<open>conditions on the final state, along a computation\<close>

lemma ok_Some [ok_rules]: "P t \<Longrightarrow> ok P (Some t)"
  and ok2_Some [ok_rules]: "P t \<Longrightarrow> ok2 P (Some (x, t))"
  and ok_None [ok_rules]: "ok P None"
  and ok2_None [ok_rules]: "ok2 P None"
  by (simp_all add: ok_def ok2_def)

lemma ok_bind_weak:
  "ok Q m \<Longrightarrow> (\<And>t. m = Some t \<Longrightarrow> Q t \<Longrightarrow> ok P (g t)) \<Longrightarrow> ok P (m \<bind> g)"
  by (cases m) (auto simp: ok_def)

lemma ok_bind [ok_rules]:
  "ok P m \<Longrightarrow> (\<And>t. m = Some t \<Longrightarrow> P t \<Longrightarrow> ok P (g t)) \<Longrightarrow> ok P (m \<bind> g)"
  by (rule ok_bind_weak)

lemma ok_bind2 [ok_rules]:
  "ok2 P m \<Longrightarrow> (\<And>x t. m = Some (x, t) \<Longrightarrow> P t \<Longrightarrow> ok P (g x t)) \<Longrightarrow> ok P (m \<bind> (\<lambda>(x, t). g x t))"
  by (cases m) (auto simp: ok_def ok2_def)

lemma ok2_bind [ok_rules]:
  "ok P m \<Longrightarrow> (\<And>t. m = Some t \<Longrightarrow> P t \<Longrightarrow> ok2 P (g t)) \<Longrightarrow> ok2 P (m \<bind> g)"
  by (cases m) (auto simp: ok_def ok2_def)

lemma ok2_bind2 [ok_rules]:
  "ok2 P m \<Longrightarrow> (\<And>x t. m = Some (x, t) \<Longrightarrow> P t \<Longrightarrow> ok2 P (g x t)) \<Longrightarrow>
   ok2 P (m \<bind> (\<lambda>(x, t). g x t))"
  by (cases m) (auto simp: ok2_def)

lemma ok_if [ok_rules]: "(b \<Longrightarrow> ok P m) \<Longrightarrow> (\<not> b \<Longrightarrow> ok P n) \<Longrightarrow> ok P (if b then m else n)"
  and ok2_if [ok_rules]: "(b \<Longrightarrow> ok2 P k) \<Longrightarrow> (\<not> b \<Longrightarrow> ok2 P l) \<Longrightarrow> ok2 P (if b then k else l)"
  by simp_all

lemma ok_option [ok_rules]:
  "(m = None \<Longrightarrow> ok P n) \<Longrightarrow> (\<And>c. m = Some c \<Longrightarrow> ok P (f c)) \<Longrightarrow> ok P (case m of None \<Rightarrow> n | Some c \<Rightarrow> f c)"
  by (cases m) simp_all

section \<open>Register accesses and interrupts\<close>

locale lufa_invariant =
  fixes P :: "'a lufa_scheme \<Rightarrow> bool"
  assumes keep_inp: "P s \<Longrightarrow> P (s\<lparr>inp := f\<rparr>)"
    and keep_out: "P s \<Longrightarrow> P (s\<lparr>out := w\<rparr>)"
    and keep_uenum: "P s \<Longrightarrow> P (s\<lparr>uenum := n\<rparr>)"
    and keep_irqs: "P s \<Longrightarrow> P (s\<lparr>irqs := l\<rparr>)"
    and keep_irq: "P s \<Longrightarrow> P (irq_effect i s)"
begin

lemma wr_keeps [ok_rules]: "P s \<Longrightarrow> P (wr r x s)"
  by (simp add: wr_def keep_out)

lemma select_keeps [ok_rules]: "P s \<Longrightarrow> P (Endpoint_SelectEndpoint n s)"
  by (simp add: Endpoint_SelectEndpoint_def wr_keeps keep_uenum)

lemma read_state_keeps: "read_state s = (d, t) \<Longrightarrow> P s \<Longrightarrow> P t"
  by (cases "irqs s") (auto simp: read_state_def Let_def intro: keep_irqs keep_irq split: option.splits)

lemma read_state_facts: "read_state s = (d, t) \<Longrightarrow> P s \<Longrightarrow> P t \<and> inp t = inp s"
  by (auto dest: read_state_keeps)

lemma rd_keeps [ok_rules]: "P s \<Longrightarrow> ok2 P (rd r s)"
  by (auto simp: rd_def ok2_def keep_inp split: list.splits)

lemma flag_keeps [ok_rules]: "P s \<Longrightarrow> ok2 P (flag r b s)"
  unfolding flag_def by (intro ok_rules)

lemma rmw_keeps [ok_rules]: "P s \<Longrightarrow> ok P (rmw r f s)"
  unfolding rmw_def by (intro ok_rules)

lemma macro_keeps [ok_rules]:
  assumes "P s"
  shows "ok2 P (Endpoint_BytesInEndpoint s)" "ok2 P (Endpoint_IsReadWriteAllowed s)"
    "ok2 P (Endpoint_IsINReady s)" "ok2 P (Endpoint_IsOUTReceived s)" "ok2 P (Endpoint_IsSETUPReceived s)"
    "ok2 P (Endpoint_IsStalled s)" "ok2 P (Endpoint_IsEnabled s)" "ok2 P (Endpoint_IsConfigured s)"
    "ok2 P (Endpoint_GetEndpointDirection s)" "ok2 P (Endpoint_Read_Byte s)"
    "ok P (Endpoint_ClearSETUP s)" "ok P (Endpoint_ClearIN s)" "ok P (Endpoint_ClearOUT s)"
    "ok P (Endpoint_StallTransaction s)" "ok P (Endpoint_ClearStall s)"
    "ok P (Endpoint_ResetDataToggle s)" "ok P (Endpoint_EnableEndpoint s)"
    "ok P (Endpoint_DisableEndpoint s)" "ok P (Endpoint_DeallocateMemory s)"
  unfolding endpoint_defs Endpoint_IsEnabled_def Endpoint_IsConfigured_def
    Endpoint_StallTransaction_def Endpoint_ClearStall_def Endpoint_ResetDataToggle_def
    Endpoint_EnableEndpoint_def Endpoint_DisableEndpoint_def Endpoint_DeallocateMemory_def Let_def
  using assms by (auto intro!: ok_rules)

lemma wait_flag_keeps [ok_rules]: "P s \<Longrightarrow> ok2 P (wait_flag b s)"
proof (induction "length (inp s UEINTX)" arbitrary: s rule: less_induct)
  case less
  have IH: "ok2 P (wait_flag b u)" if "length (inp u UEINTX) < length (inp s UEINTX)" "P u" for u
    using less.hyps that .
  show ?case
    using less.prems
    by (subst wait_flag.simps)
      (auto intro!: ok_rules IH simp: Let_def split: prod.split
        dest!: flag_consumed read_state_facts)
qed

lemma status_keeps [ok_rules]: "P s \<Longrightarrow> ok P (Endpoint_ClearStatusStage s)"
  unfolding Endpoint_ClearStatusStage_def by (auto intro!: ok_rules)

lemma configure_keeps [ok_rules]: "P s \<Longrightarrow> ok2 P (Endpoint_ConfigureEndpoint n t d z b s)"
  unfolding Endpoint_ConfigureEndpoint_def Endpoint_ConfigureEndpoint_Prv_def Let_def
  by (cases "Endpoint_BytesToEPSizeMask z") (auto intro!: ok_rules)

lemma clear_endpoints_keeps: "P s \<Longrightarrow> ok P (clear_endpoints ns s)"
  by (induction ns arbitrary: s) (auto intro!: ok_rules simp: Let_def)

lemma clear_all_keeps [ok_rules]: "P s \<Longrightarrow> ok P (Endpoint_ClearEndpoints s)"
  unfolding Endpoint_ClearEndpoints_def by (intro clear_endpoints_keeps ok_rules)

lemma control_fill_keeps: "control_fill d n k s = Some (d', n', k', t) \<Longrightarrow> P s \<Longrightarrow> P t"
proof (induction d arbitrary: n k s)
  case Nil
  then show ?case by (subst (asm) control_fill.simps) (simp split: if_splits)
next
  case (Cons b d)
  from Cons.prems show ?case
    by (subst (asm) control_fill.simps)
      (auto simp: Endpoint_Write_Byte_def dest: Cons.IH intro: wr_keeps split: if_splits)
qed

lemma okD: "ok P m \<Longrightarrow> m = Some t \<Longrightarrow> P t" and ok2D: "ok2 P m' \<Longrightarrow> m' = Some (x, t) \<Longrightarrow> P t"
  by (simp_all add: ok_def ok2_def)

lemma control_write_loop_keeps: "P s \<Longrightarrow> ok2 P (control_write_loop d n l s)"
proof (induction "length (inp s UEINTX)" arbitrary: d n l s rule: less_induct)
  case less
  have IH: "ok2 P (control_write_loop d n l u)"
    if "length (inp u UEINTX) < length (inp s UEINTX)" "P u" for d n l u
    using less.hyps that .
  have out: "ok2 P (wait_out u)" if "P u" for u
    unfolding wait_out_def using that by (intro ok_rules)
  have send: "ok2 P (control_fill d n k u \<bind>
      (\<lambda>(D, N, c, v). Endpoint_ClearIN v \<bind> control_write_loop D N (c = 64)))"
    if "length (inp u UEINTX) < length (inp s UEINTX)" "P u" for k u
  proof (cases "control_fill d n k u")
    case None
    then show ?thesis by (simp add: ok2_None)
  next
    case (Some r)
    obtain D N c v where r: "r = (D, N, c, v)" by (cases r) auto
    have "P v" "inp v = inp u" using control_fill_keeps control_fill_inp Some r that(2) by blast+
    with that show ?thesis
      by (simp add: Some r) (auto intro!: ok_rules IH dest!: clear_consumed)
  qed
  show ?case
    using less.prems
    by (subst control_write_loop.simps)
      (auto intro!: ok_rules out IH send simp: Let_def split: prod.split
        simp: Endpoint_IsSETUPReceived_def Endpoint_IsOUTReceived_def Endpoint_IsINReady_def
        dest!: flag_consumed read_state_facts bytes_consumed consumesD [of _ _ UEINTX])
qed

lemma control_write_keeps [ok_rules]: "P s \<Longrightarrow> ok2 P (control_write d n s)"
  unfolding control_write_def by (intro ok_rules control_write_loop_keeps)

lemma wait_ready_keeps: "P s \<Longrightarrow> ok2 P (wait_ready n s)"
proof (induction "length (inp s UECFG0X)" arbitrary: n s rule: less_induct)
  case less
  have IH: "ok2 P (wait_ready n u)"
    if "length (inp u UECFG0X) < length (inp s UECFG0X)" "P u" for n u
    using less.hyps that .
  have dir: "length (inp t UECFG0X) < length (inp s UECFG0X)"
    if "Endpoint_GetEndpointDirection s = Some (x, t)" for x t
    using that by (auto simp: Endpoint_GetEndpointDirection_def dest: rd_consumed split: bind_splits)
  have ready: "length (inp t UECFG0X) \<le> length (inp u UECFG0X)"
    if "(if x = 1 then Endpoint_IsINReady u else Endpoint_IsOUTReceived u) = Some (y, t)" for x :: u8 and u y t
    using that by (auto simp: Endpoint_IsINReady_def Endpoint_IsOUTReceived_def consumes_def
        dest!: flag_consumed split: if_splits)
  show ?case
    using less.prems
    by (subst wait_ready.simps)
      (auto intro!: ok_rules IH simp: Let_def Endpoint_IsStalled_def split: prod.split
        dest!: dir ready flag_consumed rmw_consumed read_state_facts consumesD [of _ _ UECFG0X]
        simp del: if_split)
qed

lemma ready_keeps [ok_rules]: "P s \<Longrightarrow> ok2 P (Endpoint_WaitUntilReady s)"
  unfolding Endpoint_WaitUntilReady_def by (rule wait_ready_keeps)

lemma stream_write_loop_keeps: "P s \<Longrightarrow> ok2 P (stream_write_loop d n s)"
proof (induction "length (inp s UEINTX)" arbitrary: d n s rule: less_induct)
  case less
  have IH: "ok2 P (stream_write_loop d n u)"
    if "length (inp u UEINTX) < length (inp s UEINTX)" "P u" for d n u
    using less.hyps that .
  show ?case
    using less.prems
    by (subst stream_write_loop.simps, cases d)
      (auto intro!: ok_rules IH simp: Endpoint_IsReadWriteAllowed_def Endpoint_Write_Byte_def split: list.split
        dest!: flag_consumed clear_consumed wait_ready_consumed consumesD [of _ _ UEINTX]
        simp: Endpoint_WaitUntilReady_def intro: wait_ready_keeps)
qed

lemma stream_write_keeps [ok_rules]: "P s \<Longrightarrow> ok2 P (stream_write d n s)"
  unfolding stream_write_def by (intro ok_rules stream_write_loop_keeps)

lemma instance_keeps [ok_rules]:
  assumes "P s"
  shows "ok2 P (Endpoint_Write_Control_Stream_LE d n s)" "ok2 P (Endpoint_Write_Control_PStream_LE d n s)"
    "ok2 P (Endpoint_Write_Control_EStream_LE d n s)" "ok2 P (Endpoint_Write_Stream_LE d n s)"
    "P (Endpoint_Write_Byte b s)" "P (Endpoint_Write_Word_LE w s)" "P (Endpoint_ResetFIFO k s)"
  unfolding Endpoint_Write_Control_Stream_LE_def Endpoint_Write_Control_PStream_LE_def
    Endpoint_Write_Control_EStream_LE_def Endpoint_Write_Stream_LE_def Endpoint_Write_Byte_def
    Endpoint_Write_Word_LE_def Endpoint_ResetFIFO_def
  using assms by (auto intro!: ok_rules)

lemma int_keeps [ok_rules]:
  assumes "P s"
  shows "ok P (USB_INT_Enable i s)" "ok P (USB_INT_Disable i s)" "ok P (USB_INT_Clear i s)"
    "ok2 P (USB_INT_IsEnabled i s)" "ok2 P (USB_INT_HasOccurred i s)" "ok P (USB_CLK_Freeze s)"
    "ok P (USB_CLK_Unfreeze s)" "ok P (USB_PLL_On s)" "P (USB_PLL_Off s)"
  unfolding USB_INT_Enable_def USB_INT_Disable_def USB_INT_Clear_def USB_INT_IsEnabled_def
    USB_INT_HasOccurred_def USB_CLK_Freeze_def USB_CLK_Unfreeze_def USB_PLL_On_def USB_PLL_Off_def
  using assms by (auto intro!: ok_rules)

lemma pll_keeps [ok_rules]: "P s \<Longrightarrow> ok P (wait_pll s)"
proof (induction "length (inp s PLLCSR)" arbitrary: s rule: less_induct)
  case less
  have IH: "ok P (wait_pll u)" if "length (inp u PLLCSR) < length (inp s PLLCSR)" "P u" for u
    using less.hyps that .
  show ?case
    using less.prems by (subst wait_pll.simps) (auto intro!: ok_rules IH dest!: flag_consumed)
qed

end

section \<open>The contract with the application\<close>

text \<open>The device is only configured with a configuration that exists.\<close>

definition lib_ok :: "'a lufa_scheme \<Rightarrow> bool" where
  "lib_ok s \<longleftrightarrow> (USB_DeviceState s = Configured \<longrightarrow> USB_ConfigurationNumber s \<noteq> 0) \<and>
     USB_ConfigurationNumber s \<le> FIXED_NUM_CONFIGURATIONS"

definition app_inv :: "('a lufa_scheme \<Rightarrow> bool) \<Rightarrow> 'a lufa_scheme \<Rightarrow> bool" where
  "app_inv A s \<longleftrightarrow> lib_ok s \<and> A s"

definition app_weak :: "('a lufa_scheme \<Rightarrow> bool) \<Rightarrow> 'a lufa_scheme \<Rightarrow> bool" where
  "app_weak A s \<longleftrightarrow> USB_ConfigurationNumber s \<le> FIXED_NUM_CONFIGURATIONS \<and> A s"

lemma app_weakI: "app_inv A s \<Longrightarrow> app_weak A s"
  by (simp add: app_inv_def app_weak_def lib_ok_def)

locale lufa_application =
  fixes a :: "'a lufa_scheme app" and A :: "'a lufa_scheme \<Rightarrow> bool"
  assumes application_data: "A s \<Longrightarrow> lufa.more t = lufa.more s \<Longrightarrow> A t"
    and unhandled: "app_inv A s \<Longrightarrow> ok (app_inv A) (EVENT_USB_Device_UnhandledControlRequest a s)"
    and config_changed: "app_inv A s \<Longrightarrow> ok (app_inv A) (EVENT_USB_Device_ConfigurationChanged a s)"
    and connect: "app_inv A s \<Longrightarrow> app_inv A (EVENT_USB_Device_Connect a s)"
    and disconnect: "app_inv A s \<Longrightarrow> app_inv A (EVENT_USB_Device_Disconnect a s)"
    and suspend: "app_inv A s \<Longrightarrow> app_inv A (EVENT_USB_Device_Suspend a s)"
    and wakeup: "app_inv A s \<Longrightarrow> app_inv A (EVENT_USB_Device_WakeUp a s)"
    and reset: "app_inv A s \<Longrightarrow> app_inv A (EVENT_USB_Device_Reset a s)"
    and frame: "app_inv A s \<Longrightarrow> app_inv A (EVENT_USB_Device_StartOfFrame a s)"

sublocale lufa_application \<subseteq> strong: lufa_invariant "app_inv A"
proof
  fix s :: "'a lufa_scheme" and i
  show "app_inv A s \<Longrightarrow> app_inv A (irq_effect i s)"
    by (cases i) (auto simp: app_inv_def lib_ok_def elim: application_data)
qed (auto simp: app_inv_def lib_ok_def elim: application_data)

sublocale lufa_application \<subseteq> weak: lufa_invariant "app_weak A"
proof
  fix s :: "'a lufa_scheme" and i
  show "app_weak A s \<Longrightarrow> app_weak A (irq_effect i s)"
    by (cases i) (auto simp: app_weak_def elim: application_data)
qed (auto simp: app_weak_def elim: application_data)

context lufa_application begin

lemma set_state_keeps [ok_rules]:
  "app_weak A s \<Longrightarrow> d = Configured \<longrightarrow> USB_ConfigurationNumber s \<noteq> 0 \<Longrightarrow> app_inv A (set_state d s)"
  by (auto simp: app_inv_def app_weak_def lib_ok_def set_state_def elim: application_data)

lemma if_keeps: "(b \<Longrightarrow> app_inv A s) \<Longrightarrow> (\<not> b \<Longrightarrow> app_inv A t) \<Longrightarrow> app_inv A (if b then s else t)"
  by simp

lemma request_keeps:
  "app_inv A s \<Longrightarrow> app_inv A (s\<lparr>USB_ControlRequest := q\<rparr>)"
  "app_inv A s \<Longrightarrow> app_inv A (s\<lparr>USB_RemoteWakeupEnabled := b\<rparr>)"
  by (auto simp: app_inv_def lib_ok_def elim: application_data)

lemma reset_keeps:
  "app_inv A s \<Longrightarrow> app_inv A ((set_state Default s)\<lparr>USB_ConfigurationNumber := 0\<rparr>)"
  by (auto simp: app_inv_def lib_ok_def set_state_def elim: application_data)

lemma set_configuration_keeps: "app_inv A s \<Longrightarrow> ok (app_inv A) (USB_Device_SetConfiguration a s)"
proof (cases "wValue8 s > 1")
  case True
  then show "app_inv A s \<Longrightarrow> ?thesis" by (simp add: USB_Device_SetConfiguration_def ok_Some)
next
  case False
  assume "app_inv A s"
  then have s: "app_weak A s" by (rule app_weakI)
  have conf: "app_weak A (t\<lparr>USB_ConfigurationNumber := wValue8 t\<rparr>)"
    if "app_weak A t" "USB_ControlRequest t = USB_ControlRequest s" for t
    using that False by (auto simp: app_weak_def not_less elim: application_data)
  have fin: "ok (app_inv A) (EVENT_USB_Device_ConfigurationChanged a
      (set_state (if USB_ConfigurationNumber t \<noteq> 0 then Configured else Addressed) t))" if "app_weak A t" for t
    using that by (intro config_changed set_state_keeps) simp_all
  have req: "USB_ControlRequest t = USB_ControlRequest s" if "Endpoint_ClearSETUP s = Some t" for t
    using rmw_quiet [OF that [unfolded Endpoint_ClearSETUP_def]] frameD(1) by blast
  have "ok (app_inv A) (Endpoint_ClearSETUP s \<bind>
      (\<lambda>s. Endpoint_ClearStatusStage (s\<lparr>USB_ConfigurationNumber := wValue8 s\<rparr>) \<bind>
      (\<lambda>s. EVENT_USB_Device_ConfigurationChanged a
        (set_state (if USB_ConfigurationNumber s \<noteq> 0 then Configured else Addressed) s))))"
    by (rule ok_bind_weak, rule weak.macro_keeps [OF s], rule ok_bind_weak,
      rule weak.status_keeps, rule conf, assumption, erule req, rule fin)
  with False show ?thesis by (simp add: USB_Device_SetConfiguration_def Let_def)
qed

lemma get_configuration_keeps: "app_inv A s \<Longrightarrow> ok (app_inv A) (USB_Device_GetConfiguration s)"
  unfolding USB_Device_GetConfiguration_def Let_def by (intro ok_rules)

lemma set_address_keeps: "app_inv A s \<Longrightarrow> ok (app_inv A) (USB_Device_SetAddress s)"
  unfolding USB_Device_SetAddress_def Let_def
  by (intro ok_rules if_keeps app_weakI) simp_all

lemma get_descriptor_keeps: "app_inv A s \<Longrightarrow> ok (app_inv A) (USB_Device_GetDescriptor a s)"
  unfolding USB_Device_GetDescriptor_def by (auto intro!: ok_rules split: prod.split)

lemma get_status_keeps: "app_inv A s \<Longrightarrow> ok (app_inv A) (USB_Device_GetStatus s)"
  unfolding USB_Device_GetStatus_def Let_def
  by (intro ok_rules) 

lemma endpoint_feature_keeps: "app_inv A s \<Longrightarrow> ok2 (app_inv A) (endpoint_feature s)"
  unfolding endpoint_feature_def Let_def by (auto intro!: ok_rules)

lemma clear_set_feature_keeps: "app_inv A s \<Longrightarrow> ok (app_inv A) (USB_Device_ClearSetFeature s)"
  unfolding USB_Device_ClearSetFeature_def Let_def
  by (auto intro!: ok_rules endpoint_feature_keeps request_keeps)

lemma read_header_keeps: "app_inv A s \<Longrightarrow> ok (app_inv A) (read_header s)"
proof -
  have "ok2 (app_inv A) (Endpoint_Read_Word_LE t)" if "app_inv A t" for t
    unfolding Endpoint_Read_Word_LE_def using that by (intro ok_rules)
  then show "app_inv A s \<Longrightarrow> ?thesis" unfolding read_header_def by (intro ok_rules request_keeps)
qed

lemma standard_keeps: "standard_request a r t = Some f \<Longrightarrow> app_inv A s \<Longrightarrow> ok (app_inv A) (f s)"
  unfolding standard_request_def
  by (auto split: if_splits intro: get_status_keeps clear_set_feature_keeps set_address_keeps
      get_descriptor_keeps get_configuration_keeps set_configuration_keeps)

lemma process_keeps: "app_inv A s \<Longrightarrow> ok (app_inv A) (USB_Device_ProcessControlRequest a s)"
  unfolding USB_Device_ProcessControlRequest_def
  by (intro ok_rules read_header_keeps unhandled standard_keeps)

theorem task_keeps: "app_inv A s \<Longrightarrow> ok (app_inv A) (USB_USBTask a s)"
  unfolding USB_USBTask_def USB_DeviceTask_def Let_def
  by (auto intro!: ok_rules process_keeps split: prod.split dest: strong.read_state_keeps)

lemma on_int_keeps: "app_inv A s \<Longrightarrow> (\<And>t. app_inv A t \<Longrightarrow> ok (app_inv A) (f t)) \<Longrightarrow> ok (app_inv A) (on_int i f s)"
  unfolding on_int_def by (auto intro!: ok_rules)

theorem interrupt_keeps: "app_inv A s \<Longrightarrow> ok (app_inv A) (USB_GEN_vect a s)"
  unfolding USB_GEN_vect_def int_vbus_def int_suspend_def int_wakeup_def int_reset_def int_sof_def Let_def
  by (intro ok_rules on_int_keeps if_keeps app_weakI connect disconnect suspend wakeup reset frame
      reset_keeps) simp_all

end

end
