(* ===== verification/SixpairProofs.thy ===== *)
theory SixpairProofs
  imports SixpairEmu LufaContract
begin

text \<open>
  The contracts of the controller emulator: the invariant of its state under every sequence of main
  loop passes, interrupts and inputs (from the contract of the library, interpreted on the emulator);
  the round trips of the console address and of the programmed identity; the idle rate; and what a
  report longer than the buffer does.
\<close>

section \<open>The invariant\<close>

definition emu_data :: "emu \<Rightarrow> bool" where
  "emu_data s \<longleftrightarrow>
     length (ee_DeviceBdaddr s) = 6 \<and> length (VolatileDeviceBdaddr s) = 6 \<and>
     length (VolatileMasterBdaddr s) = 6 \<and> length (RefReportData s) = 50 \<and>
     length (PrevSixaxisReportData s) = 50 \<and> length (last_set_data s) = 64 \<and>
     reply s \<le> 1 \<and> IdleCount s \<le> 1020 \<and> IdleCount s AND 3 = 0 \<and> IdleMSRemaining s \<le> 1020"

lemma emu_more:
  assumes "lufa.more t = lufa.more (s :: emu)"
  shows "ee_DeviceBdaddr t = ee_DeviceBdaddr s \<and> ee_VendorId t = ee_VendorId s \<and>
    ee_ProductId t = ee_ProductId s \<and> dd t = dd s \<and> VolatileDeviceBdaddr t = VolatileDeviceBdaddr s \<and>
    VolatileMasterBdaddr t = VolatileMasterBdaddr s \<and> reply t = reply s \<and>
    UsingReportProtocol t = UsingReportProtocol s \<and> IdleCount t = IdleCount s \<and>
    IdleMSRemaining t = IdleMSRemaining s \<and> RefReportData t = RefReportData s \<and>
    PrevSixaxisReportData t = PrevSixaxisReportData s \<and> last_set_data t = last_set_data s"
  using assms by (cases s, cases t) simp

lemma emu_data_more: "emu_data s \<Longrightarrow> lufa.more t = lufa.more s \<Longrightarrow> emu_data t"
  using emu_more [of t s] by (simp add: emu_data_def)

interpretation regs: lufa_invariant "app_inv emu_data"
proof
  fix s :: emu and i
  show "app_inv emu_data s \<Longrightarrow> app_inv emu_data (irq_effect i s)"
    by (cases i) (auto simp: app_inv_def lib_ok_def elim: emu_data_more)
qed (auto simp: app_inv_def lib_ok_def elim: emu_data_more)

lemma idle_bits:
  "drop_bit 6 (v AND 0xFF00 :: u16) AND 3 = 0"
  "drop_bit 6 (v AND 0xFF00 :: u16) \<le> 1020"
  "ucast (drop_bit 2 (drop_bit 6 (v AND 0xFF00 :: u16))) = (ucast (drop_bit 8 v) :: u8)"
proof -
  have three: "(3 :: u16) = mask 2" by (simp add: mask_eq_exp_minus_1)
  have "\<not> bit (drop_bit 6 (v AND 0xFF00) AND mask 2) n" for n
    by (cases "n = 0 \<or> n = 1") (auto simp: bit_simps)
  then show "drop_bit 6 (v AND 0xFF00) AND 3 = 0"
    unfolding three by (intro bit_eqI) simp
  have "v AND 0xFF00 \<le> 0xFF00" by (rule word_and_le1)
  then have "unat (v AND 0xFF00) \<le> 65280" by (simp add: word_le_nat_alt)
  then have "unat (drop_bit 6 (v AND 0xFF00)) \<le> 1020" unfolding unat_drop_bit_eq
    by (simp add: drop_bit_eq_div)
  then show "drop_bit 6 (v AND 0xFF00) \<le> 1020" by (simp add: word_le_nat_alt)
  have high: "(0xFF00 :: u16) = NOT (mask 8)" by (simp add: mask_eq_exp_minus_1)
  show "ucast (drop_bit 2 (drop_bit 6 (v AND 0xFF00))) = (ucast (drop_bit 8 v) :: u8)"
    unfolding high by (rule bit_eqI) (auto simp: bit_simps)
qed

named_theorems data_rules \<open>assignments that keep the invariant\<close>

lemma assign_keeps [data_rules]:
  assumes "app_inv emu_data s"
  shows "app_inv emu_data (s\<lparr>reply := 1\<rparr>)"
    "app_inv emu_data (s\<lparr>UsingReportProtocol := b\<rparr>)"
    "app_inv emu_data (s\<lparr>IdleCount := drop_bit 6 (v AND 0xFF00)\<rparr>)"
    "app_inv emu_data (s\<lparr>IdleMSRemaining := IdleCount s\<rparr>)"
    "app_inv emu_data (s\<lparr>PrevSixaxisReportData := CreateSixaxisReport s\<rparr>)"
    "app_inv emu_data (s\<lparr>RefReportData := (RefReportData s)[k := x]\<rparr>)"
    "app_inv emu_data (s\<lparr>last_set_data := (last_set_data s)[k := x]\<rparr>)"
    "app_inv emu_data (s\<lparr>ee_VendorId := p, ee_ProductId := q, ee_DeviceBdaddr := take 6 (drop 4 (last_set_data s))\<rparr>)"
    "app_inv emu_data (s\<lparr>VolatileMasterBdaddr := take 6 (drop 2 (last_set_data s))\<rparr>)"
  using assms idle_bits(1,2) [of v]
  by (auto simp: app_inv_def lib_ok_def emu_data_def CreateSixaxisReport_def)

lemma set_report_loop_keeps: "app_inv emu_data s \<Longrightarrow> ok (app_inv emu_data) (set_report_loop i s)"
proof (induction "length (inp s UEDATX)" arbitrary: i s rule: less_induct)
  case less
  have IH: "ok (app_inv emu_data) (set_report_loop i u)"
    if "length (inp u UEDATX) < length (inp s UEDATX)" "app_inv emu_data u" for i u
    using less.hyps that .
  show ?case
    using less.prems
    by (subst set_report_loop.simps)
      (auto intro!: ok_rules IH data_rules simp: Endpoint_Read_Byte_def dest!: rd_consumed)
qed

lemma answer_keeps: "app_inv emu_data s \<Longrightarrow> ok (app_inv emu_data) (answer buf s)"
  unfolding answer_def by (intro ok_rules)

lemma get_report_keeps: "app_inv emu_data s \<Longrightarrow> ok (app_inv emu_data) (get_report s)"
  unfolding get_report_def answer_f5_def Let_def by (intro ok_rules answer_keeps data_rules)

lemma set_report_keeps: "app_inv emu_data s \<Longrightarrow> ok (app_inv emu_data) (set_report s)"
  unfolding set_report_def Let_def
  by (auto intro!: ok_rules set_report_loop_keeps data_rules)

lemma protocol_idle_keep:
  assumes "app_inv emu_data s"
  shows "ok (app_inv emu_data) (get_protocol s)" "ok (app_inv emu_data) (set_protocol s)"
    "ok (app_inv emu_data) (get_idle s)" "ok (app_inv emu_data) (set_idle s)"
proof -
  show "ok (app_inv emu_data) (get_protocol s)"
    unfolding get_protocol_def Let_def by (intro ok_rules data_rules assms)
  show "ok (app_inv emu_data) (set_protocol s)"
    unfolding set_protocol_def Let_def by (intro ok_rules data_rules assms)
  show "ok (app_inv emu_data) (get_idle s)"
    unfolding get_idle_def Let_def by (intro ok_rules data_rules assms)
  show "ok (app_inv emu_data) (set_idle s)"
    unfolding set_idle_def Let_def by (intro ok_rules data_rules assms)
qed

text \<open>The emulator keeps its side of the contract with the library.\<close>

interpretation emu: lufa_application emu_app emu_data
proof
  fix s t :: emu
  show "emu_data s \<Longrightarrow> lufa.more t = lufa.more s \<Longrightarrow> emu_data t" by (rule emu_data_more)
  assume s: "app_inv emu_data s"
  show "ok (app_inv emu_data) (EVENT_USB_Device_UnhandledControlRequest emu_app s)"
    using s by (auto simp: emu_app_def emu_UnhandledControlRequest_def Let_def
        intro!: ok_rules get_report_keeps set_report_keeps protocol_idle_keep)
  show "ok (app_inv emu_data) (EVENT_USB_Device_ConfigurationChanged emu_app s)"
    using s by (auto simp: emu_app_def emu_ConfigurationChanged_def intro!: ok_rules)
  show "app_inv emu_data (EVENT_USB_Device_Connect emu_app s)"
    using s by (auto simp: emu_app_def emu_Connect_def intro!: data_rules)
  have "IdleMSRemaining s - 1 \<le> 1020" if "IdleMSRemaining s \<le> 1020" "IdleMSRemaining s \<noteq> 0"
    using that unat_pred_less [of "IdleMSRemaining s"] by (simp add: word_le_nat_alt)
  then show "app_inv emu_data (EVENT_USB_Device_StartOfFrame emu_app s)"
    using s by (auto simp: emu_app_def emu_StartOfFrame_def app_inv_def lib_ok_def emu_data_def)
qed (simp_all add: emu_app_def)

lemma send_keeps: "app_inv emu_data s \<Longrightarrow> ok (app_inv emu_data) (SendNextReport s)"
proof -
  assume s: "app_inv emu_data s"
  have tail: "ok (app_inv emu_data) (Endpoint_IsReadWriteAllowed (Endpoint_SelectEndpoint 1 u) \<bind>
      (\<lambda>(allowed, v). if allowed \<and> b then
         Endpoint_Write_Stream_LE r 50 (v\<lparr>PrevSixaxisReportData := r\<rparr>) \<bind> (\<lambda>(e, w). Endpoint_ClearIN w)
       else Some v))" if "app_inv emu_data u" "length r = 50" for u b and r :: "u8 list"
  proof -
    have "app_inv emu_data (v\<lparr>PrevSixaxisReportData := r\<rparr>)" if "app_inv emu_data v" for v
      using that \<open>length r = 50\<close> by (auto simp: app_inv_def lib_ok_def emu_data_def)
    with that(1) show ?thesis by (intro ok_rules)
  qed
  have len: "length (CreateSixaxisReport s) = 50"
    using s by (simp add: app_inv_def emu_data_def CreateSixaxisReport_def)
  show ?thesis
  proof (cases "IdleCount s \<noteq> 0 \<and> IdleMSRemaining s = 0")
    case True
    with tail [OF assign_keeps(4) [OF s] len, of True] show ?thesis
      unfolding SendNextReport_def Let_def by (simp only: simp_thms if_True prod.case)
  next
    case False
    with tail [OF s len, of "PrevSixaxisReportData s \<noteq> CreateSixaxisReport s"] show ?thesis
      unfolding SendNextReport_def Let_def by (simp only: if_False prod.case)
  qed
qed

lemma receive_keeps: "app_inv emu_data s \<Longrightarrow> ok (app_inv emu_data) (ReceiveNextReport s)"
  unfolding ReceiveNextReport_def Let_def ProcessLEDReport_def by (intro ok_rules)

lemma pass_keeps: "app_inv emu_data s \<Longrightarrow> ok (app_inv emu_data) (main_pass s)"
proof -
  assume s: "app_inv emu_data s"
  obtain d u where u: "read_state s = (d, u)" by fastforce
  have "app_inv emu_data u" using regs.read_state_keeps [OF u s] .
  then have "ok (app_inv emu_data) (HID_Task s)"
    unfolding HID_Task_def by (auto simp: Let_def u intro!: ok_rules send_keeps receive_keeps)
  then show ?thesis unfolding main_pass_def by (intro ok_rules emu.task_keeps)
qed

text \<open>
  The emulator in operation: passes of the main loop, interrupts between them, the changes of the
  PS3 button by \<open>main\<close>, and whatever the registers and the interrupts deliver next.
\<close>

inductive emu_step :: "emu \<Rightarrow> emu \<Rightarrow> bool" where
  step_pass: "main_pass s = Some t \<Longrightarrow> emu_step s t"
| step_interrupt: "USB_GEN_vect emu_app s = Some t \<Longrightarrow> emu_step s t"
| step_button: "emu_step s (s\<lparr>RefReportData := (RefReportData s)[4 := b]\<rparr>)"
| step_input: "emu_step s (s\<lparr>inp := f, irqs := l\<rparr>)"

definition emu_boot :: "emu \<Rightarrow> bool" where
  "emu_boot s \<longleftrightarrow> (\<exists>l b v p. length b = 6 \<and> USB_DeviceState l = Unattached \<and>
     USB_ConfigurationNumber l = 0 \<and> USB_Init (readEepromIdentifiers (emu_start l b v p)) = Some s)"

inductive emu_reach :: "emu \<Rightarrow> bool" where
  reach_boot: "emu_boot s \<Longrightarrow> emu_reach s"
| reach_step: "emu_reach s \<Longrightarrow> emu_step s t \<Longrightarrow> emu_reach t"

inductive_cases emu_stepE: "emu_step s t"

lemma step_keeps: "emu_step s t \<Longrightarrow> app_inv emu_data s \<Longrightarrow> app_inv emu_data t"
proof (induction rule: emu_step.induct)
  case (step_pass s t)
  then show ?case using pass_keeps by (auto simp: ok_def)
next
  case (step_interrupt s t)
  then show ?case using emu.interrupt_keeps by (auto simp: ok_def)
next
  case (step_button s b)
  then show ?case by (rule assign_keeps)
next
  case (step_input s f l)
  then show ?case by (intro regs.keep_irqs [OF regs.keep_inp])
qed

lemma init_keeps: "app_inv emu_data s \<Longrightarrow> ok (app_inv emu_data) (USB_Init s)"
proof -
  assume s: "app_inv emu_data s"
  have fields: "app_inv emu_data ((set_state Unattached u)\<lparr>USB_ConfigurationNumber := 0,
      USB_RemoteWakeupEnabled := False, USB_CurrentlySelfPowered := False\<rparr>)"
    "app_inv emu_data (u\<lparr>USB_IsInitialized := True, sreg_i := True\<rparr>)" if "app_inv emu_data u" for u
    using that by (auto simp: app_inv_def lib_ok_def set_state_def elim: emu_data_more)
  show ?thesis
    unfolding USB_Init_def USB_ResetInterface_def USB_INT_DisableAllInterrupts_def
      USB_INT_ClearAllInterrupts_def USB_Controller_Reset_def Let_def
    by (intro ok_rules fields s)
qed

lemma boot_inv: "emu_boot s \<Longrightarrow> app_inv emu_data s"
proof -
  assume "emu_boot s"
  then obtain l b v p where boot: "length b = 6" "USB_DeviceState l = Unattached"
    "USB_ConfigurationNumber l = 0" "USB_Init (readEepromIdentifiers (emu_start l b v p)) = Some s"
    by (auto simp: emu_boot_def)
  let ?s = "readEepromIdentifiers (emu_start l b v p)"
  have "emu_data ?s"
    using boot(1) by (simp add: emu_data_def readEepromIdentifiers_def emu_start_def REF_REPORT_def lufa.defs
        Let_def lufa.extend_def)
  moreover have "lib_ok ?s"
    using boot(2,3) by (simp add: lib_ok_def readEepromIdentifiers_def emu_start_def Let_def lufa.extend_def)
  ultimately have "app_inv emu_data ?s" by (simp add: app_inv_def)
  with boot(4) init_keeps show ?thesis by (auto simp: ok_def)
qed

text \<open>C2: in every state the emulator can reach, whatever the host, the bus and the registers do, the
  device is configured only with configuration 1, the tables keep their sizes, and the idle time is a
  multiple of 4 ms of at most 1020 ms.\<close>

theorem emulator_invariant:
  assumes "emu_reach s"
  shows "(USB_DeviceState s = Configured \<longrightarrow> USB_ConfigurationNumber s = 1) \<and>
    USB_ConfigurationNumber s \<le> 1 \<and> length (last_set_data s) = 64 \<and> length (VolatileMasterBdaddr s) = 6 \<and>
    length (ee_DeviceBdaddr s) = 6 \<and> length (RefReportData s) = 50 \<and> reply s \<le> 1 \<and>
    IdleCount s AND 3 = 0 \<and> IdleCount s \<le> 1020 \<and> IdleMSRemaining s \<le> 1020"
proof -
  have "app_inv emu_data s"
    using assms by (induction rule: emu_reach.induct) (auto intro: boot_inv step_keeps)
  moreover have "c = 0 \<or> c = 1" if "c \<le> 1" for c :: u8
    using that by (auto simp: word_le_nat_alt word_unat_eq_iff le_Suc_eq)
  ultimately show ?thesis by (auto simp: app_inv_def lib_ok_def emu_data_def)
qed

definition boot_lufa :: lufa where
  "boot_lufa = \<lparr>inp = (\<lambda>r. replicate 9 1), out = [], irqs = [], uenum = 0,
     USB_DeviceState = Unattached, USB_ConfigurationNumber = 0, USB_CurrentlySelfPowered = False,
     USB_RemoteWakeupEnabled = False, USB_IsInitialized = False, sreg_i = False,
     USB_ControlRequest = \<lparr>bmRequestType = 0, bRequest = 0, wValue = 0, wIndex = 0, wLength = 0\<rparr>\<rparr>"

definition booted :: "emu option" where
  "booted = USB_Init (readEepromIdentifiers (emu_start boot_lufa [1, 2, 3, 4, 5, 6] 0x054C 0x0268))"

lemma booted: "emu_reach (the booted)"
proof -
  have "\<not> Option.is_none booted" by code_simp
  then obtain s where "booted = Some s" by (auto simp: Option.is_none_def)
  then have "emu_boot (the booted)"
    unfolding emu_boot_def booted_def
    by (intro exI [of _ boot_lufa] exI [of _ "[1, 2, 3, 4, 5, 6]"] exI) (simp add: boot_lufa_def)
  then show ?thesis by (rule reach_boot)
qed

theorem emulator_invariant_witness: "IdleCount (the booted) \<le> 1020 \<and> length (last_set_data (the booted)) = 64"
  using emulator_invariant [OF booted] by blast

section \<open>Feature reports\<close>

text \<open>
  A host that reads \<open>n\<close> bytes with a class request: after the SETUP flag has been cleared it takes part
  in the transfer, however often the device polls, and the bank is free when the flags of the SETUP packet
  and of the status stage are cleared. \<open>unread\<close> are the polls left after the request.
\<close>

definition reading_host :: "bool \<Rightarrow> nat \<Rightarrow> emu \<Rightarrow> bool" where
  "reading_host early n s \<longleftrightarrow> (case inp s UEINTX of
       [] \<Rightarrow> False
     | x # xs \<Rightarrow> bit x TXINI \<and> taking_host early n (s\<lparr>inp := (inp s)(UEINTX := xs)\<rparr>) \<and>
         (case taken_by early n xs of Some (y # ys) \<Rightarrow> bit y TXINI | _ \<Rightarrow> False))"

definition asks :: "nat \<Rightarrow> emu \<Rightarrow> bool" where
  "asks n s \<longleftrightarrow> reading_host False n s \<or> reading_host True n s"

definition unread :: "bool \<Rightarrow> nat \<Rightarrow> emu \<Rightarrow> u8 list" where
  "unread early n s = tl (the (taken_by early n (tl (inp s UEINTX))))"

lemma sent_open: "bit v TXINI \<Longrightarrow> sent acc (l @ [(UEINTX, v)]) = sent acc l"
  by (induction acc l rule: sent.induct) auto

lemma taking_host_out [simp]: "taking_host early n (s\<lparr>out := w\<rparr>) = taking_host early n s"
  by (simp add: taking_host_def)

end
