(* ===== verification/SixpairReports.thy ===== *)
theory SixpairReports
  imports SixpairProofs
begin

text \<open>
  The feature reports of the emulator, from the control request of the host to the data it receives: an
  answer is transferred completely, and what SET_REPORT has stored (the address of the console, a new
  identity) is what GET_REPORT answers later. The last section shows what a report that is too long does.
\<close>

section \<open>A feature report is transferred\<close>

lemma sent_append_open:
  "\<forall>(r, v) \<in> set l. r = UEINTX \<and> bit v TXINI \<Longrightarrow> sent acc (w @ l) = sent acc w"
proof (induction acc w rule: sent.induct)
  case (1 acc)
  then show ?case by (induction l arbitrary: acc) auto
qed auto

lemma keep_txini: "bit (y AND NOT (msk 2)) TXINI = bit y TXINI" "bit (y AND NOT (msk 3)) TXINI = bit y TXINI"
  "bit (y AND NOT (msk 7)) TXINI = bit y TXINI"
  by (simp_all add: msk_def bit_simps)

text \<open>The common form of the answers: data that a host asks for, sent after the set-up packet.\<close>

lemma setup_write_complete:
  assumes "reading_host early (unat n) s" "n = min l (req_length s)" "n \<noteq> 0" "unat n \<le> length buf"
  obtains v u t w where "Endpoint_ClearSETUP s = Some v" "control_write buf l v = Some (RWC_NoError, u)"
    "Endpoint_ClearOUT u = Some t" "out t = out s @ w" "concat (sent [] w) = take (unat n) buf"
    "frame t = frame s" "inp t UEINTX = unread early (unat n) s"
    "sent [] w = take (packets_taken early (unat n)) (packets 64 (take (unat n) buf))"
proof -
  let ?n = "unat n" and ?ps = "take (packets_taken early (unat n)) (packets 64 (take (unat n) buf))"
  obtain x xs zs where xs: "inp s UEINTX = x # xs" "bit x TXINI" "taking_host early ?n (s\<lparr>inp := (inp s)(UEINTX := xs)\<rparr>)"
    "taken_by early ?n xs = Some zs" "case zs of [] \<Rightarrow> False | y # ys \<Rightarrow> bit y TXINI"
    using assms(1) unfolding reading_host_def by (auto split: list.splits option.splits)
  then obtain y ys where "zs = y # ys" "bit y TXINI"
    by (cases zs) auto
  note x = xs(1-3) xs(4) [unfolded this(1)] this(2)
  let ?v = "wr UEINTX (x AND NOT (msk 3)) (s\<lparr>inp := (inp s)(UEINTX := xs)\<rparr>)"
  have first: "Endpoint_ClearSETUP s = Some ?v"
    using x(1) by (simp add: Endpoint_ClearSETUP_def rmw_def rd_def)
  have len: "n = min l (wLength (USB_ControlRequest ?v))"
    using assms(2) by (simp add: wr_def req_length_def)
  have "taking_host early ?n ?v" using x(3) by (simp add: wr_def)
  from control_write_exact [OF len assms(3,4) this] obtain w where w:
    "control_write buf l ?v = Some (RWC_NoError, ?v\<lparr>out := out ?v @ w, inp := after_host early ?n ?v\<rparr>)"
    "sent [] w = ?ps" .
  let ?u = "?v\<lparr>out := out ?v @ w, inp := after_host early ?n ?v\<rparr>"
  have in_u: "inp ?u UEINTX = y # ys"
    using x(4) by (simp add: after_host_def Let_def wr_def)
  let ?tail = "[(UEINTX, y AND NOT (msk 2)), (UEINTX, y AND NOT (msk 7))]"
  let ?t = "?u\<lparr>inp := (inp ?u)(UEINTX := ys), out := out ?u @ ?tail\<rparr>"
  have clear: "Endpoint_ClearOUT ?u = Some ?t"
    using in_u by (simp add: Endpoint_ClearOUT_def rd_def wr_def)
  have log: "out ?t = out s @ ((UEINTX, x AND NOT (msk 3)) # w @ ?tail)" by (simp add: wr_def)
  have "sent [] ((UEINTX, x AND NOT (msk 3)) # w @ ?tail) = ?ps"
    using w(2) sent_append_open [of ?tail "[]" w] x(2,5) by (simp add: keep_txini)
  moreover have "concat ?ps = take ?n buf"
    using assms(4) by (intro packets_taken_concat taken_early [OF x(4)]) simp
  moreover have "frame ?t = frame s" by (simp add: frame_def wr_def)
  moreover have "inp ?t UEINTX = unread early ?n s"
    using x(1,4) by (simp add: unread_def)
  ultimately show thesis using that [OF first w(1) clear log] by simp
qed

lemma answer_complete:
  assumes "asks (unat (req_length s)) s" "req_length s \<noteq> 0" "unat (req_length s) \<le> length buf"
  obtains t w where "answer buf s = Some t" "out t = out s @ w"
    "concat (sent [] w) = take (unat (req_length s)) buf" "frame t = frame s"
proof -
  obtain early where early: "reading_host early (unat (req_length s)) s"
    using assms(1) by (auto simp: asks_def)
  obtain v u t w where t: "Endpoint_ClearSETUP s = Some v" "control_write buf (req_length s) v = Some (RWC_NoError, u)"
    "Endpoint_ClearOUT u = Some t" "out t = out s @ w" "concat (sent [] w) = take (unat (req_length s)) buf"
    "frame t = frame s"
    by (rule setup_write_complete [OF early _ assms(2,3), of "req_length s"]) simp_all
  have "req_length v = req_length s"
    using t(1) by (auto simp: Endpoint_ClearSETUP_def rmw_def rd_def wr_def req_length_def split: list.splits)
  with t that show thesis
    by (simp add: answer_def Endpoint_Write_Control_Stream_LE_def)
qed

text \<open>The first answer to report F5 and the later ones.\<close>

lemma answer_f5_eq:
  "answer_f5 s = (if reply s = 0 then map_option (\<lambda>t. t\<lparr>reply := 1\<rparr>) (answer feature_f5_dummy s)
     else answer (patch 2 (VolatileMasterBdaddr s) feature_f5) s)"
proof -
  have first: "reply t = reply s \<and> VolatileMasterBdaddr t = VolatileMasterBdaddr s"
    if "Endpoint_ClearSETUP s = Some t" for t
    using that by (auto simp: Endpoint_ClearSETUP_def rmw_def rd_def wr_def split: list.splits)
  have "Endpoint_ClearOUT (t\<lparr>reply := 1\<rparr>) = map_option (\<lambda>t. t\<lparr>reply := 1\<rparr>) (Endpoint_ClearOUT t)" for t
    by (simp add: Endpoint_ClearOUT_def rd_def wr_def split: list.split)
  with first show ?thesis
    by (cases "Endpoint_ClearSETUP s") (auto simp: answer_f5_def answer_def split: bind_splits)
qed


section \<open>A report is received\<close>

text \<open>The device is still attached when the wait for the data ends with the data.\<close>

lemma wait_flag_detached: "wait_flag b s = Some (False, t) \<Longrightarrow> USB_DeviceState t = Unattached"
proof (induction "length (inp s UEINTX)" arbitrary: s rule: less_induct)
  case less
  obtain f u where f: "flag UEINTX b s = Some (f, u)"
    using less.prems by (subst (asm) wait_flag.simps) (auto split: bind_splits)
  obtain d v where d: "read_state u = (d, v)" by fastforce
  then have state: "USB_DeviceState v = d"
    unfolding read_state_def by (cases "irqs u") (auto simp: Let_def)
  have shorter: "length (inp v UEINTX) < length (inp s UEINTX)"
    using flag_quiet [OF f] quiet_length [OF read_state_quiet [OF d], of UEINTX] by simp
  from less.prems f d state less.hyps [OF shorter] show ?case
    by (subst (asm) wait_flag.simps) (auto split: if_splits)
qed

lemma unat_index: "i \<le> 255 \<Longrightarrow> unat (ucast (of_nat i :: u8) :: u16) = i"
  by (simp add: unat_of_nat unsigned_ucast_eq take_bit_nat_eq_self)

lemma index_less: "i \<le> 255 \<Longrightarrow> (ucast (of_nat i :: u8) < (n :: u16)) = (i < unat n)"
  by (simp add: word_less_nat_alt unat_index)

lemma set_report_loop_spec:
  assumes "i + length d = unat (req_length s)" "unat (req_length s) \<le> length (last_set_data s)"
    "length (last_set_data s) \<le> 255" "inp s UEDATX = d @ rest"
  shows "set_report_loop (of_nat i) s = Some (s\<lparr>inp := (inp s)(UEDATX := rest),
    last_set_data := take i (last_set_data s) @ d @ drop (i + length d) (last_set_data s)\<rparr>)"
  using assms
proof (induction d arbitrary: i s)
  case Nil
  then have "i \<le> 255" "\<not> i < unat (req_length s)" by simp_all
  then have "\<not> ucast (of_nat i :: u8) < req_length s" by (simp only: index_less) simp
  with Nil show ?case by (subst set_report_loop.simps) (simp add: fun_upd_idem)
next
  case (Cons b d)
  then have i: "unat (of_nat i :: u8) = i" "ucast (of_nat i :: u8) < req_length s"
    by (simp_all add: unat_of_nat index_less)
  let ?s = "s\<lparr>inp := (inp s)(UEDATX := d @ rest), last_set_data := (last_set_data s)[i := b]\<rparr>"
  have "set_report_loop (of_nat i) s = set_report_loop (of_nat (Suc i)) ?s"
    using Cons.prems i by (subst set_report_loop.simps) (simp add: Endpoint_Read_Byte_def rd_def add.commute)
  also have "\<dots> = Some (?s\<lparr>inp := (inp ?s)(UEDATX := rest),
      last_set_data := take (Suc i) (last_set_data ?s) @ d @ drop (Suc i + length d) (last_set_data ?s)\<rparr>)"
    using Cons.prems by (intro Cons.IH) (simp_all add: req_length_def)
  also have "?s\<lparr>inp := (inp ?s)(UEDATX := rest),
      last_set_data := take (Suc i) (last_set_data ?s) @ d @ drop (Suc i + length d) (last_set_data ?s)\<rparr> =
    s\<lparr>inp := (inp s)(UEDATX := rest),
      last_set_data := take i (last_set_data s) @ (b # d) @ drop (i + length (b # d)) (last_set_data s)\<rparr>"
    using Cons.prems(1,2) by (simp add: take_Suc_conv_app_nth)
  finally show ?case .
qed


lemma setup_frame:
  "Endpoint_ClearSETUP s = Some t \<Longrightarrow> frame t = frame s \<and> inp t UEDATX = inp s UEDATX"
  by (auto simp: Endpoint_ClearSETUP_def rmw_def rd_def wr_def frame_def split: list.splits)

lemma status_frame: "Endpoint_ClearStatusStage s = Some t \<Longrightarrow> frame t = frame s"
  by (auto simp: Endpoint_ClearStatusStage_def quiet_def dest!: wait_flag_quiet clear_quiet [OF disjI1]
      clear_quiet [OF disjI2] split: if_splits bind_splits)

text \<open>What a report of at most 64 bytes changes, when the device is still attached at its end.\<close>

lemma set_report_effect:
  assumes run: "set_report s = Some t" "USB_DeviceState t \<noteq> Unattached"
    and len: "length d = unat (req_length s)" "length d \<le> 64" "length (last_set_data s) = 64"
    and bytes: "inp s UEDATX = d @ rest"
  defines "D \<equiv> d @ drop (length d) (last_set_data s)"
    and "v \<equiv> wValue (USB_ControlRequest s)"
  shows "last_set_data t = D" "dd t = dd s" "reply t = reply s" "VolatileDeviceBdaddr t = VolatileDeviceBdaddr s"
    "ee_VendorId t = (if v = 0xDEAD then word_le (take 2 D) else ee_VendorId s)"
    "ee_ProductId t = (if v = 0xDEAD then word_le (take 2 (drop 2 D)) else ee_ProductId s)"
    "ee_DeviceBdaddr t = (if v = 0xDEAD then take 6 (drop 4 D) else ee_DeviceBdaddr s)"
    "VolatileMasterBdaddr t = (if v = 0x03f5 then take 6 (drop 2 D) else VolatileMasterBdaddr s)"
proof -
  obtain s1 where s1: "Endpoint_ClearSETUP s = Some s1"
    using run(1) by (auto simp: set_report_def split: bind_splits)
  then obtain seen s2 where s2: "wait_flag RXOUTI s1 = Some (seen, s2)"
    using run(1) by (auto simp: set_report_def split: bind_splits)
  have seen: "seen"
  proof (rule ccontr)
    assume "\<not> seen"
    with run s1 s2 wait_flag_detached [of RXOUTI s1 s2] show False by (auto simp: set_report_def)
  qed
  have "frame s2 = frame s" "inp s2 UEDATX = inp s UEDATX"
    using setup_frame [OF s1] wait_flag_quiet [OF s2] by (auto simp: quiet_def)
  note f2 = frameD(1,3) [OF this(1)] and b2 = this(2)
  note m2 = emu_more [OF f2(2)]
  let ?s3 = "s2\<lparr>inp := (inp s2)(UEDATX := rest), last_set_data := D\<rparr>"
  have "set_report_loop (of_nat 0) s2 = Some ?s3"
    using set_report_loop_spec [of 0 d s2 rest] len bytes b2 f2(1) m2 by (simp add: D_def req_length_def)
  then have s3: "set_report_loop 0 s2 = Some ?s3" by simp
  obtain s4 where s4: "Endpoint_ClearOUT ?s3 = Some s4"
    using run(1) s1 s2 seen s3 by (auto simp: set_report_def split: bind_splits)
  then obtain s5 where s5: "Endpoint_ClearStatusStage s4 = Some s5"
    using run(1) s1 s2 seen s3 by (auto simp: set_report_def split: bind_splits)
  have "frame s5 = frame ?s3" using clear_quiet [OF disjI2, OF s4] status_frame [OF s5] by simp
  note f5 = frameD(1,3) [OF this]
  have m5: "last_set_data s5 = D" "dd s5 = dd s" "reply s5 = reply s"
    "VolatileDeviceBdaddr s5 = VolatileDeviceBdaddr s" "ee_VendorId s5 = ee_VendorId s"
    "ee_ProductId s5 = ee_ProductId s" "ee_DeviceBdaddr s5 = ee_DeviceBdaddr s"
    "VolatileMasterBdaddr s5 = VolatileMasterBdaddr s" "wValue (USB_ControlRequest s5) = v"
    using emu_more [OF f5(2)] m2 f5(1) f2(1) by (simp_all add: v_def)
  have t: "t = (let u = (if v = 0xDEAD
         then s5\<lparr>ee_VendorId := word_le (take 2 D), ee_ProductId := word_le (take 2 (drop 2 D)),
                ee_DeviceBdaddr := take 6 (drop 4 D)\<rparr> else s5)
     in if v = 0x03f5 then u\<lparr>VolatileMasterBdaddr := take 6 (drop 2 D)\<rparr> else u)"
    using run(1) s1 s2 seen s3 s4 s5 m5(1,9) by (auto simp: set_report_def Let_def)
  show "last_set_data t = D" "dd t = dd s" "reply t = reply s" "VolatileDeviceBdaddr t = VolatileDeviceBdaddr s"
    "ee_VendorId t = (if v = 0xDEAD then word_le (take 2 D) else ee_VendorId s)"
    "ee_ProductId t = (if v = 0xDEAD then word_le (take 2 (drop 2 D)) else ee_ProductId s)"
    "ee_DeviceBdaddr t = (if v = 0xDEAD then take 6 (drop 4 D) else ee_DeviceBdaddr s)"
    "VolatileMasterBdaddr t = (if v = 0x03f5 then take 6 (drop 2 D) else VolatileMasterBdaddr s)"
    by (simp_all add: t Let_def m5)
qed


text \<open>A report longer than the buffer: the loop does not end within it.\<close>

lemma set_report_loop_long:
  "unat i \<le> length (last_set_data s) \<Longrightarrow> length (last_set_data s) < unat (req_length s) \<Longrightarrow>
   length (last_set_data s) < 255 \<Longrightarrow> set_report_loop i s = None"
proof (induction "length (last_set_data s) - unat i" arbitrary: i s)
  case 0
  then have "ucast i < req_length s" by (simp add: word_less_nat_alt unsigned_ucast_eq take_bit_nat_eq_self)
  with 0 show ?case
    by (subst set_report_loop.simps) (auto simp: Endpoint_Read_Byte_def rd_def split: list.splits)
next
  case (Suc k)
  then have i: "unat i < length (last_set_data s)" "unat (i + 1) = unat i + 1" "ucast i < req_length s"
    by (simp_all add: unat_plus_if' word_less_nat_alt unsigned_ucast_eq take_bit_nat_eq_self)
  show ?case
  proof (cases "inp s UEDATX")
    case Nil
    then show ?thesis using i(3) by (subst set_report_loop.simps) (simp add: Endpoint_Read_Byte_def rd_def)
  next
    case (Cons b bs)
    let ?s = "s\<lparr>inp := (inp s)(UEDATX := bs), last_set_data := (last_set_data s)[unat i := b]\<rparr>"
    have "set_report_loop (i + 1) ?s = None"
      using Suc.prems Suc.hyps(2) i(1,2) by (intro Suc.hyps(1)) (simp_all add: req_length_def)
    then show ?thesis using i Cons by (subst set_report_loop.simps) (simp add: Endpoint_Read_Byte_def rd_def)
  qed
qed


section \<open>The contracts\<close>

text \<open>The handler is called with this class request.\<close>

definition requests :: "u8 \<Rightarrow> u8 \<Rightarrow> u16 \<Rightarrow> emu \<Rightarrow> bool" where
  "requests t r v s \<longleftrightarrow> bmRequestType (USB_ControlRequest s) = t \<and>
     bRequest (USB_ControlRequest s) = r \<and> wValue (USB_ControlRequest s) = v"

lemma handler_set:
  "requests 0x21 0x09 v s \<Longrightarrow> emu_UnhandledControlRequest s = set_report s"
  by (simp add: requests_def emu_UnhandledControlRequest_def Let_def)

lemma handler_get:
  "requests 0xA1 0x01 v s \<Longrightarrow> emu_UnhandledControlRequest s = get_report s"
  by (simp add: requests_def emu_UnhandledControlRequest_def Let_def)

lemma stored_address_read:
  assumes stored: "requests 0x21 0x09 0x03f5 s" "emu_UnhandledControlRequest s = Some t"
      "USB_DeviceState t \<noteq> Unattached"
    and d: "length d = unat (req_length s)" "8 \<le> length d" "length d \<le> 64"
      "length (last_set_data s) = 64" "inp s UEDATX = d @ rest"
    and later: "VolatileMasterBdaddr u = VolatileMasterBdaddr t"
    and read: "requests 0xA1 0x01 0x03f5 u" "asks (unat (req_length u)) u"
      "req_length u \<noteq> 0" "req_length u \<le> 64"
  shows "\<exists>v w. emu_UnhandledControlRequest u = Some v \<and> out v = out u @ w \<and> reply v \<noteq> 0 \<and>
    concat (sent [] w) = take (unat (req_length u))
      ([1, 0] @ (if reply u = 0 then replicate 6 0xaa else take 6 (drop 2 d)) @ drop 8 feature_f5)"
proof -
  have "wValue (USB_ControlRequest s) = 0x03f5" "set_report s = Some t"
    using stored(1,2) handler_set [OF stored(1)] by (simp_all add: requests_def)
  note e = set_report_effect [OF this(2) stored(3) d(1,3,4,5)] and v = this(1)
  have addr: "VolatileMasterBdaddr u = take 6 (drop 2 d)"
    using e(8) d(2) by (simp add: v later)
  have "patch 2 (take 6 (drop 2 d)) feature_f5 = [1, 0] @ take 6 (drop 2 d) @ drop 8 feature_f5"
    using d(2) by (simp add: patch_def feature_f5_def)
  moreover have "feature_f5_dummy = [1, 0] @ replicate 6 0xaa @ drop 8 feature_f5"
    by (simp add: feature_f5_dummy_def feature_f5_def numeral_eq_Suc)
  ultimately have buf: "(if reply u = 0 then feature_f5_dummy else patch 2 (VolatileMasterBdaddr u) feature_f5) =
      [1, 0] @ (if reply u = 0 then replicate 6 0xaa else take 6 (drop 2 d)) @ drop 8 feature_f5" (is "?b = ?c")
    by (simp add: addr)
  have "unat (req_length u) \<le> length ?b"
    using read(4) d(2) unfolding buf by (simp add: word_le_nat_alt feature_f5_def)
  from answer_complete [OF read(2,3) this] obtain v w where vw: "answer ?b u = Some v"
    "out v = out u @ w" "concat (sent [] w) = take (unat (req_length u)) ?c" "frame v = frame u"
    unfolding buf by metis
  have "get_report u = answer_f5 u"
    using read(1) by (simp add: get_report_def Let_def requests_def)
  then have "emu_UnhandledControlRequest u =
      Some (if reply u = 0 then v\<lparr>reply := 1\<rparr> else v)"
    using vw(1) by (auto simp: handler_get [OF read(1)] answer_f5_eq)
  moreover have "reply v = reply u" using emu_more [OF frameD(3) [OF vw(4)]] by simp
  ultimately show ?thesis using vw(2,3) by (auto intro!: exI)
qed


text \<open>C5: the address of the console. Once the console has stored a report F5 of at least 8 bytes
  (\<open>set_master\<close> sends 01 00 and the 6 bytes of the address), reading report F5 first gives a dummy
  address, so that the console stores its own; after that it gives exactly the bytes stored, for
  whatever length the console asks.\<close>

theorem console_address_roundtrip:
  assumes stored: "requests 0x21 0x09 0x03f5 s" "emu_UnhandledControlRequest s = Some t"
      "USB_DeviceState t \<noteq> Unattached"
    and d: "length d = unat (req_length s)" "8 \<le> length d" "length d \<le> 64"
      "length (last_set_data s) = 64" "inp s UEDATX = d @ rest"
    and later: "VolatileMasterBdaddr u = VolatileMasterBdaddr t"
    and read: "requests 0xA1 0x01 0x03f5 u" "asks (unat (req_length u)) u"
      "req_length u \<noteq> 0" "req_length u \<le> 64"
  shows "\<exists>v w. emu_UnhandledControlRequest u = Some v \<and> out v = out u @ w \<and> reply v \<noteq> 0 \<and>
    concat (sent [] w) = take (unat (req_length u))
      ([1, 0] @ (if reply u = 0 then replicate 6 0xaa else take 6 (drop 2 d)) @ drop 8 feature_f5)"
  by (rule stored_address_read [OF assms])

text \<open>An emulator that has received a request with the given data, and whose host takes a short answer at once.\<close>

definition receiving :: "USB_Request_Header_t \<Rightarrow> u8 list \<Rightarrow> emu \<Rightarrow> emu" where
  "receiving q d s = s\<lparr>USB_ControlRequest := q, USB_DeviceState := Configured, irqs := [],
     inp := (\<lambda>r. if r = UEINTX then [1, 1, 1, 1, 1, 5, 1, 1, 1] else if r = UEDATX then d
                 else if r \<in> {UEBCHX, UEBCLX} then [0] else [])\<rparr>"

definition idle_emu :: emu where
  "idle_emu = emu_start boot_lufa [1, 2, 3, 4, 5, 6] 0x054C 0x0268"

definition set_f5 :: emu where
  "set_f5 = receiving \<lparr>bmRequestType = 0x21, bRequest = 9, wValue = 0x03f5, wIndex = 0, wLength = 8\<rparr>
     [1, 0, 0x10, 0x20, 0x30, 0x40, 0x50, 0x60] idle_emu"

definition get_f5 :: "emu \<Rightarrow> emu" where
  "get_f5 = receiving \<lparr>bmRequestType = 0xA1, bRequest = 1, wValue = 0x03f5, wIndex = 0, wLength = 8\<rparr> []"

lemmas answered_host_defs = asks_def reading_host_def receiving_def taking_host_def taken_by_def packets_taken_def

lemma receiving_asks: "wLength q = 8 \<Longrightarrow> asks 8 (receiving q d s)"
  by (simp add: answered_host_defs)

lemma set_f5_run: "\<exists>t. emu_UnhandledControlRequest set_f5 = Some t \<and> USB_DeviceState t = Configured"
proof -
  have "map_option USB_DeviceState (emu_UnhandledControlRequest set_f5) = Some Configured" by code_simp
  then show ?thesis by auto
qed


theorem console_address_roundtrip_witness:
  "\<exists>t v w. emu_UnhandledControlRequest set_f5 = Some t \<and>
    emu_UnhandledControlRequest (get_f5 (t\<lparr>reply := 1\<rparr>)) = Some v \<and> out v = out t @ w \<and>
    concat (sent [] w) = [1, 0, 0x10, 0x20, 0x30, 0x40, 0x50, 0x60]"
proof -
  obtain t where t: "emu_UnhandledControlRequest set_f5 = Some t" "USB_DeviceState t = Configured"
    using set_f5_run by blast
  let ?u = "get_f5 (t\<lparr>reply := 1\<rparr>)"
  have "requests 0x21 0x09 0x03f5 set_f5" "length (last_set_data set_f5) = 64" "req_length set_f5 = 8"
    "inp set_f5 UEDATX = [1, 0, 0x10, 0x20, 0x30, 0x40, 0x50, 0x60] @ []"
    by (simp_all add: set_f5_def requests_def receiving_def idle_emu_def emu_start_def lufa.extend_def
        req_length_def)
  note console_address_roundtrip [OF this(1) t(1) _ _ _ _ this(2,4), of ?u] and this(3)
  moreover have "requests 0xA1 0x01 0x03f5 ?u" "req_length ?u = 8" "asks 8 ?u" "out ?u = out t" "reply ?u = 1"
    "VolatileMasterBdaddr ?u = VolatileMasterBdaddr t"
    by (simp_all add: get_f5_def requests_def receiving_asks req_length_def) (simp_all add: receiving_def)
  ultimately show ?thesis using t by simp blast
qed

lemma identity_read:
  assumes stored: "requests 0x21 0x09 0xDEAD s" "emu_UnhandledControlRequest s = Some t"
      "USB_DeviceState t \<noteq> Unattached"
    and d: "length d = unat (req_length s)" "10 \<le> length d" "length d \<le> 64"
      "length (last_set_data s) = 64" "inp s UEDATX = d @ rest"
    and ids: "take 2 d \<noteq> [0xFF, 0xFF]" "take 2 (drop 2 d) \<noteq> [0xFF, 0xFF]"
    and start: "ee_VendorId r = ee_VendorId t" "ee_ProductId r = ee_ProductId t"
      "ee_DeviceBdaddr r = ee_DeviceBdaddr t"
      "dd u = dd (readEepromIdentifiers r)" "VolatileDeviceBdaddr u = VolatileDeviceBdaddr (readEepromIdentifiers r)"
    and read: "requests 0xA1 0x01 0xDEAD u" "asks (unat (req_length u)) u"
      "req_length u \<noteq> 0" "req_length u \<le> 10"
  shows "(\<exists>v w. emu_UnhandledControlRequest u = Some v \<and> out v = out u @ w \<and>
      concat (sent [] w) = take (unat (req_length u)) (take 10 d)) \<and>
    take 4 (drop 8 (device_bytes (dd u))) = take 4 d"
proof -
  have "wValue (USB_ControlRequest s) = 0xDEAD" "set_report s = Some t"
    using stored(1,2) handler_set [OF stored(1)] by (simp_all add: requests_def)
  note e = set_report_effect [OF this(2) stored(3) d(1,3,4,5)] and v = this(1)
  have len: "length (take 2 d) = 2" "length (take 2 (drop 2 d)) = 2" using d(2) by simp_all
  have ee: "ee_VendorId r = word_le (take 2 d)" "ee_ProductId r = word_le (take 2 (drop 2 d))"
    "ee_DeviceBdaddr r = take 6 (drop 4 d)"
    using e(5-7) d(2) by (simp_all add: v start)
  then have ids': "ee_VendorId r \<noteq> 0xFFFF" "ee_ProductId r \<noteq> 0xFFFF"
    using ids word_le_ffff [OF len(1)] word_le_ffff [OF len(2)] by simp_all
  have u: "le16 (VendorID (dd u)) = take 2 d" "le16 (ProductID (dd u)) = take 2 (drop 2 d)"
    "VolatileDeviceBdaddr u = take 6 (drop 4 d)"
    using ids' len by (simp_all add: start(4,5) readEepromIdentifiers_def Let_def ee le16_word_le)
  have ten: "take 10 d = take 2 d @ take 2 (drop 2 d) @ take 6 (drop 4 d)"
    by (simp add: take_add [of 2 8, simplified] take_add [of 2 6, simplified])
  have buf: "dead_buffer u = take 10 d"
    unfolding dead_buffer_def u ten ..
  have "unat (req_length u) \<le> length (dead_buffer u)"
    using read(4) d(2) by (simp add: buf word_le_nat_alt)
  from answer_complete [OF read(2,3) this] obtain v w where "answer (dead_buffer u) u = Some v"
    "out v = out u @ w" "concat (sent [] w) = take (unat (req_length u)) (dead_buffer u)" by metis
  moreover have "get_report u = answer (dead_buffer u) u"
    using read(1) by (simp add: get_report_def requests_def)
  ultimately have "\<exists>v w. emu_UnhandledControlRequest u = Some v \<and> out v = out u @ w \<and>
      concat (sent [] w) = take (unat (req_length u)) (take 10 d)"
    by (simp add: handler_get [OF read(1)] buf)
  moreover have "take 4 (drop 8 (device_bytes (dd u))) = take 2 d @ take 2 (drop 2 d)"
    unfolding u(1,2) [symmetric] by (simp add: device_bytes_def le16_def)
  moreover have "take 4 d = take 2 d @ take 2 (drop 2 d)" by (simp add: take_add [of 2 2, simplified])
  ultimately show ?thesis by simp
qed

text \<open>The identity of the emulator. Programming it with a report \<open>0xDEAD\<close> of at least ten bytes
  (vendor and product identifier low byte first, then the address) changes what the next start reads from
  the EEPROM: reading report \<open>0xDEAD\<close> then gives these ten bytes back, and the device descriptor carries
  the two identifiers, unless one of them is 0xFFFF, the value of an empty EEPROM.\<close>

theorem identity_roundtrip:
  assumes stored: "requests 0x21 0x09 0xDEAD s" "emu_UnhandledControlRequest s = Some t"
      "USB_DeviceState t \<noteq> Unattached"
    and d: "length d = unat (req_length s)" "10 \<le> length d" "length d \<le> 64"
      "length (last_set_data s) = 64" "inp s UEDATX = d @ rest"
    and ids: "take 2 d \<noteq> [0xFF, 0xFF]" "take 2 (drop 2 d) \<noteq> [0xFF, 0xFF]"
    and start: "ee_VendorId r = ee_VendorId t" "ee_ProductId r = ee_ProductId t"
      "ee_DeviceBdaddr r = ee_DeviceBdaddr t"
      "dd u = dd (readEepromIdentifiers r)" "VolatileDeviceBdaddr u = VolatileDeviceBdaddr (readEepromIdentifiers r)"
    and read: "requests 0xA1 0x01 0xDEAD u" "asks (unat (req_length u)) u"
      "req_length u \<noteq> 0" "req_length u \<le> 10"
  shows "(\<exists>v w. emu_UnhandledControlRequest u = Some v \<and> out v = out u @ w \<and>
      concat (sent [] w) = take (unat (req_length u)) (take 10 d)) \<and>
    take 4 (drop 8 (device_bytes (dd u))) = take 4 d"
  by (rule identity_read [OF assms])

definition set_dead :: emu where
  "set_dead = receiving \<lparr>bmRequestType = 0x21, bRequest = 9, wValue = 0xDEAD, wIndex = 0, wLength = 10\<rparr>
     [0x4C, 0x05, 0x68, 0x02, 0x10, 0x20, 0x30, 0x40, 0x50, 0x60] idle_emu"

definition get_dead :: "emu \<Rightarrow> emu" where
  "get_dead = receiving \<lparr>bmRequestType = 0xA1, bRequest = 1, wValue = 0xDEAD, wIndex = 0, wLength = 8\<rparr> []"

lemma set_dead_run: "\<exists>t. emu_UnhandledControlRequest set_dead = Some t \<and> USB_DeviceState t = Configured"
proof -
  have "map_option USB_DeviceState (emu_UnhandledControlRequest set_dead) = Some Configured" by code_simp
  then show ?thesis by auto
qed

theorem identity_roundtrip_witness:
  "\<exists>t v w. emu_UnhandledControlRequest set_dead = Some t \<and>
    emu_UnhandledControlRequest (get_dead (readEepromIdentifiers t)) = Some v \<and> out v = out t @ w \<and>
    concat (sent [] w) = [0x4C, 0x05, 0x68, 0x02, 0x10, 0x20, 0x30, 0x40]"
proof -
  obtain t where t: "emu_UnhandledControlRequest set_dead = Some t" "USB_DeviceState t = Configured"
    using set_dead_run by blast
  let ?u = "get_dead (readEepromIdentifiers t)"
  have "requests 0x21 0x09 0xDEAD set_dead" "length (last_set_data set_dead) = 64" "req_length set_dead = 10"
    "inp set_dead UEDATX = [0x4C, 0x05, 0x68, 0x02, 0x10, 0x20, 0x30, 0x40, 0x50, 0x60] @ []"
    by (simp_all add: set_dead_def requests_def receiving_def idle_emu_def emu_start_def lufa.extend_def
        req_length_def)
  note identity_roundtrip [OF this(1) t(1) _ _ _ _ this(2,4), of t ?u] and this(3)
  moreover have "requests 0xA1 0x01 0xDEAD ?u" "req_length ?u = 8" "asks 8 ?u" "out ?u = out t"
    "dd ?u = dd (readEepromIdentifiers t)"
    "VolatileDeviceBdaddr ?u = VolatileDeviceBdaddr (readEepromIdentifiers t)"
    by (simp_all add: get_dead_def requests_def receiving_asks req_length_def)
      (simp_all add: receiving_def readEepromIdentifiers_def Let_def)
  ultimately show ?thesis using t by simp
qed

text \<open>A report longer than the buffer. \<open>REQ_SetReport\<close> copies \<open>wLength\<close> bytes into a buffer of 64
  without checking the length: for a longer report the handler has no defined result that returns, whatever
  host and controller do, unless the device is detached while it waits for the data.\<close>

theorem long_report_undefined:
  assumes "requests 0x21 0x09 v s" "length (last_set_data s) = 64" "64 < req_length s"
    and "emu_UnhandledControlRequest s = Some t"
  shows "USB_DeviceState t = Unattached"
proof -
  have run: "set_report s = Some t" using assms(1,4) handler_set by simp
  then obtain s1 where s1: "Endpoint_ClearSETUP s = Some s1" by (auto simp: set_report_def split: bind_splits)
  with run obtain seen s2 where s2: "wait_flag RXOUTI s1 = Some (seen, s2)"
    by (auto simp: set_report_def split: bind_splits)
  have "frame s2 = frame s"
    using setup_frame [OF s1] wait_flag_quiet [OF s2] by (auto simp: quiet_def)
  then have "req_length s2 = req_length s" "last_set_data s2 = last_set_data s"
    using frameD(1) [of s2 s] emu_more [OF frameD(3), of s2 s] by (simp_all add: req_length_def)
  then have "set_report_loop 0 s2 = None"
    using assms(2,3) by (intro set_report_loop_long) (simp_all add: word_less_nat_alt)
  with run s1 s2 have "\<not> seen" "t = s2" by (auto simp: set_report_def split: if_splits)
  then show ?thesis using s2 wait_flag_detached [of RXOUTI s1 s2] by simp
qed

definition set_long :: emu where
  "set_long = (receiving \<lparr>bmRequestType = 0x21, bRequest = 9, wValue = 0x03f5, wIndex = 0, wLength = 65\<rparr>
     [] idle_emu)\<lparr>inp := (\<lambda>r. [0, 0]), irqs := [Some Detach]\<rparr>"

theorem long_report_undefined_witness:
  "\<exists>t. emu_UnhandledControlRequest set_long = Some t \<and> USB_DeviceState t = Unattached"
proof -
  have "requests 0x21 0x09 0x03f5 set_long" "length (last_set_data set_long) = 64" "64 < req_length set_long"
    by (simp_all add: set_long_def requests_def receiving_def idle_emu_def emu_start_def lufa.extend_def
        req_length_def)
  note long_report_undefined [OF this]
  moreover have "\<not> Option.is_none (emu_UnhandledControlRequest set_long)" by code_simp
  ultimately show ?thesis by (auto simp: Option.is_none_def)
qed

end
