(* ===== verification/SixpairIdle.thy ===== *)
theory SixpairIdle
  imports SixpairReports
begin

text \<open>
  The idle rate of the controller emulator: with an unchanged report and a controller that is always ready, how
  many reports the main loop of the emulator sends over a number of USB frames, each with any number of passes.
\<close>

section \<open>One report\<close>

text \<open>
  The registers of a configured device whose endpoint for reports is free, to which the host sends nothing, and
  which only the interrupt of a new frame reaches; there are values for \<open>k\<close> passes of the loop and \<open>n\<close> frames.
\<close>

definition calm_value :: "sfr \<Rightarrow> u8 \<Rightarrow> bool" where
  "calm_value r x = (case r of
       UEINTX \<Rightarrow> bit x RWAL \<and> bit x TXINI \<and> \<not> bit x RXOUTI \<and> \<not> bit x RXSTPI
     | UECFG0X \<Rightarrow> x AND 1 = 1
     | USBINT \<Rightarrow> \<not> bit x 0
     | UDINT \<Rightarrow> bit x SOFI \<and> \<not> bit x 0 \<and> \<not> bit x 3 \<and> \<not> bit x 4
     | UDIEN \<Rightarrow> bit x SOFI
     | _ \<Rightarrow> True)"

definition served :: "nat \<Rightarrow> nat \<Rightarrow> emu \<Rightarrow> bool" where
  "served k n s \<longleftrightarrow> irqs s = [] \<and> USB_DeviceState s = Configured \<and> (\<forall>r. \<forall>x \<in> set (inp s r). calm_value r x) \<and>
     55 * k \<le> length (inp s UEINTX) \<and> k \<le> length (inp s UECFG0X) \<and>
     n \<le> length (inp s USBINT) \<and> 5 * n \<le> length (inp s UDINT) \<and> n \<le> length (inp s UDIEN)"

text \<open>What an operation leaves alone besides the registers it reads.\<close>

definition same_state :: "emu \<Rightarrow> emu \<Rightarrow> bool" where
  "same_state s t \<longleftrightarrow> irqs t = irqs s \<and> USB_DeviceState t = USB_DeviceState s"

lemma stream_write_loop_ready:
  "inp s UEINTX = xs @ ys \<Longrightarrow> length xs = length D \<Longrightarrow> \<forall>x \<in> set xs. bit x RWAL \<Longrightarrow>
   length D < 65536 \<Longrightarrow>
   stream_write_loop D (of_nat (length D)) s =
     Some (RW_NoError, s\<lparr>inp := (inp s)(UEINTX := ys), out := out s @ map (Pair UEDATX) D\<rparr>)"
proof (induction D arbitrary: xs s)
  case Nil
  then show ?case by (subst stream_write_loop.simps) (simp add: fun_upd_idem)
next
  case (Cons b D)
  then obtain x us where xs: "xs = x # us" by (cases xs) auto
  have n: "(of_nat (Suc (length D)) :: u16) \<noteq> 0" "(of_nat (Suc (length D)) :: u16) - 1 = of_nat (length D)"
    using Cons.prems(4) by (auto simp: word_unat_eq_iff unat_of_nat take_bit_nat_eq_self simp del: of_nat_Suc)
      (simp add: unat_of_nat)
  let ?s = "wr UEDATX b (s\<lparr>inp := (inp s)(UEINTX := us @ ys)\<rparr>)"
  have "stream_write_loop (b # D) (of_nat (length (b # D))) s = stream_write_loop D (of_nat (length D)) ?s"
    using Cons.prems n xs
    by (subst stream_write_loop.simps)
      (simp add: Endpoint_IsReadWriteAllowed_def flag_def rd_def Endpoint_Write_Byte_def del: of_nat_Suc)
  also have "\<dots> = Some (RW_NoError, ?s\<lparr>inp := (inp ?s)(UEINTX := ys), out := out ?s @ map (Pair UEDATX) D\<rparr>)"
    using Cons.prems xs by (intro Cons.IH [of _ us]) (simp_all add: wr_def)
  also have "?s\<lparr>inp := (inp ?s)(UEINTX := ys), out := out ?s @ map (Pair UEDATX) D\<rparr> =
      s\<lparr>inp := (inp s)(UEINTX := ys), out := out s @ map (Pair UEDATX) (b # D)\<rparr>"
    by (simp add: wr_def)
  finally show ?case .
qed

text \<open>The register accesses of a ready endpoint.\<close>

lemma ready_allowed: "inp q UEINTX = x # xs \<Longrightarrow> bit x RWAL \<Longrightarrow>
    Endpoint_IsReadWriteAllowed q = Some (True, q\<lparr>inp := (inp q)(UEINTX := xs)\<rparr>)"
  by (simp add: Endpoint_IsReadWriteAllowed_def flag_def rd_def)

lemma ready_wait: "inp q UECFG0X = g # gs \<Longrightarrow> g AND 1 = 1 \<Longrightarrow> inp q UEINTX = x # xs \<Longrightarrow> bit x TXINI \<Longrightarrow>
    Endpoint_WaitUntilReady q = Some (RW_NoError, q\<lparr>inp := (inp q)(UECFG0X := gs, UEINTX := xs)\<rparr>)"
  by (simp add: Endpoint_WaitUntilReady_def wait_ready.simps [of _ q] Endpoint_GetEndpointDirection_def
      Endpoint_IsINReady_def flag_def rd_def)

lemma ready_clear: "inp q UEINTX = x # xs \<Longrightarrow> Endpoint_ClearIN q = Some (q\<lparr>inp := (inp q)(UEINTX := xs),
    out := out q @ [(UEINTX, x AND NOT (msk TXINI)), (UEINTX, x AND NOT (msk FIFOCON))]\<rparr>)"
  by (simp add: Endpoint_ClearIN_def rd_def wr_def)

definition restart :: "emu \<Rightarrow> emu" where
  "restart s = s\<lparr>IdleMSRemaining := (if IdleMSRemaining s = 0 then IdleCount s else IdleMSRemaining s)\<rparr>"

lemma restart_if:
  "(if IdleCount s \<noteq> 0 \<and> IdleMSRemaining s = 0 then (True, s\<lparr>IdleMSRemaining := IdleCount s\<rparr>) else (b, s)) =
   (b \<or> IdleCount s \<noteq> 0 \<and> IdleMSRemaining s = 0, restart s)"
  by (auto simp: restart_def)

lemma send_report:
  assumes good: "\<forall>x \<in> set (inp s UEINTX). calm_value UEINTX x" "\<forall>x \<in> set (inp s UECFG0X). calm_value UECFG0X x"
    and enough: "53 \<le> length (inp s UEINTX)" "inp s UECFG0X \<noteq> []" and len: "length (RefReportData s) = 50"
    and due: "PrevSixaxisReportData s \<noteq> RefReportData s \<or> IdleCount s \<noteq> 0 \<and> IdleMSRemaining s = 0"
  obtains t w where "SendNextReport s = Some t" "out t = out s @ w"
    "\<And>l. sent [] (w @ l) = RefReportData s # sent [] l"
    "inp t = (inp s)(UEINTX := drop 53 (inp s UEINTX), UECFG0X := tl (inp s UECFG0X))" "same_state s t"
    "lufa.more t = lufa.more ((restart s)\<lparr>PrevSixaxisReportData := RefReportData s\<rparr>)"
proof -
  obtain a b xs y zs where in_s: "inp s UEINTX = a # b # xs @ y # zs" "length xs = 50"
  proof -
    obtain a b us where us: "inp s UEINTX = a # b # us" "51 \<le> length us"
      using enough(1) by (cases "inp s UEINTX"; cases "tl (inp s UEINTX)") auto
    then obtain y zs where "drop 50 us = y # zs" by (cases "drop 50 us") auto
    then have "us = take 50 us @ y # zs" by (metis append_take_drop_id)
    with us that [of a b "take 50 us" y zs] show thesis by simp
  qed
  obtain g gs where g: "inp s UECFG0X = g # gs" "g AND 1 = 1"
    using good(2) enough(2) by (cases "inp s UECFG0X") (auto simp: calm_value_def)
  have flags: "bit a RWAL" "bit b TXINI" "\<forall>x \<in> set xs. bit x RWAL" "bit y TXINI"
    using good(1) in_s by (auto simp: calm_value_def)
  let ?R = "RefReportData s"
  let ?tail = "[(UEINTX, y AND NOT (msk TXINI)), (UEINTX, y AND NOT (msk FIFOCON))]"
  define q1 where "q1 = Endpoint_SelectEndpoint 1 (restart s)"
  define q2 where "q2 = q1\<lparr>inp := (inp q1)(UEINTX := b # xs @ y # zs)\<rparr>"
  define q3 where "q3 = q2\<lparr>PrevSixaxisReportData := ?R\<rparr>"
  define q4 where "q4 = q3\<lparr>inp := (inp q3)(UECFG0X := gs, UEINTX := xs @ y # zs)\<rparr>"
  define q5 where "q5 = q4\<lparr>inp := (inp q4)(UEINTX := y # zs), out := out q4 @ map (Pair UEDATX) ?R\<rparr>"
  define t where "t = q5\<lparr>inp := (inp q5)(UEINTX := zs), out := out q5 @ ?tail\<rparr>"
  have q1: "inp q1 = inp s" "out q1 = out s @ [(UENUM, 1)]" "same_state s q1"
    by (simp_all add: q1_def Endpoint_SelectEndpoint_def restart_def same_state_def wr_def)
  have "Endpoint_IsReadWriteAllowed q1 = Some (True, q2)"
    using ready_allowed [of q1 a "b # xs @ y # zs"] in_s flags(1) by (simp add: q1 q2_def)
  moreover have "Endpoint_WaitUntilReady q3 = Some (RW_NoError, q4)"
    using ready_wait [of q3 g gs b "xs @ y # zs"] g flags(2) by (simp add: q4_def q3_def q2_def q1)
  moreover have "stream_write_loop ?R 50 q4 = Some (RW_NoError, q5)"
    using stream_write_loop_ready [of q4 xs "y # zs" ?R] in_s(2) flags(3) len by (simp add: q5_def q4_def)
  moreover have "Endpoint_ClearIN q5 = Some t"
    using ready_clear [of q5 y zs] by (simp add: t_def q5_def)
  ultimately have run: "SendNextReport s = Some t"
    using due
    by (auto simp: SendNextReport_def CreateSixaxisReport_def restart_if q1_def [symmetric] q3_def [symmetric]
        Endpoint_Write_Stream_LE_def stream_write_def Let_def)
  let ?w = "(UENUM, 1) # map (Pair UEDATX) ?R @ ?tail"
  have log: "out t = out s @ ?w" by (simp add: t_def q5_def q4_def q3_def q2_def q1)
  have pk: "sent [] (?w @ l) = ?R # sent [] l" for l
    using flags(4) by (simp add: sent_data keep_txini msk_def bit_simps)
  have "inp t = (inp s)(UEINTX := drop 53 (inp s UEINTX), UECFG0X := tl (inp s UECFG0X))"
    using in_s by (intro ext) (simp add: t_def q5_def q4_def q3_def q2_def q1 g(1) numeral_eq_Suc)
  moreover have "same_state s t"
    using q1(3) by (simp add: t_def q5_def q4_def q3_def q2_def same_state_def)
  moreover have "lufa.more t = lufa.more ((restart s)\<lparr>PrevSixaxisReportData := ?R\<rparr>)"
    by (simp add: t_def q5_def q4_def q3_def q2_def q1_def Endpoint_SelectEndpoint_def wr_def)
      (cases "restart s", simp)
  ultimately show thesis by (rule that [OF run log pk])
qed

lemma send_nothing:
  assumes "inp s UEINTX = a # xs"
    and due: "PrevSixaxisReportData s = RefReportData s" "IdleCount s = 0 \<or> IdleMSRemaining s \<noteq> 0"
  obtains t where "SendNextReport s = Some t" "out t = out s @ [(UENUM, 1)]"
    "inp t = (inp s)(UEINTX := xs)" "same_state s t" "lufa.more t = lufa.more s"
proof -
  have same: "restart s = s" using due(2) by (auto simp: restart_def)
  define q1 where "q1 = Endpoint_SelectEndpoint 1 s"
  define t where "t = q1\<lparr>inp := (inp q1)(UEINTX := xs)\<rparr>"
  have q1: "inp q1 = inp s" "out q1 = out s @ [(UENUM, 1)]"
    by (simp_all add: q1_def Endpoint_SelectEndpoint_def)
  have "Endpoint_IsReadWriteAllowed q1 = Some (bit a RWAL, t)"
    using assms(1) q1(1) by (simp add: Endpoint_IsReadWriteAllowed_def flag_def rd_def t_def)
  then have "SendNextReport s = Some t"
    using due
    by (auto simp: SendNextReport_def CreateSixaxisReport_def restart_if same q1_def [symmetric] Let_def)
  then show thesis
    by (rule that) (simp_all add: t_def q1 same_state_def, simp_all add: q1_def Endpoint_SelectEndpoint_def wr_def)
qed

section \<open>One pass of the loop\<close>

text \<open>The rest of a pass: no report of the host and no control request.\<close>

abbreviation (input) "nothing_log \<equiv> [(UENUM, 2), (UENUM, 0), (UENUM, 2)] :: (sfr \<times> u8) list"

lemma nothing_received:
  assumes "inp s UEINTX = a # b # xs" "calm_value UEINTX a" "calm_value UEINTX b" "irqs s = []" "USB_DeviceState s = Configured"
  shows "\<exists>t. do { s \<leftarrow> ReceiveNextReport s; USB_USBTask emu_app s } = Some t \<and> out t = out s @ nothing_log \<and>
    inp t = (inp s)(UEINTX := xs) \<and> same_state s t \<and> lufa.more t = lufa.more s"
proof -
  let ?u = "(Endpoint_SelectEndpoint 2 s)\<lparr>inp := (inp s)(UEINTX := b # xs)\<rparr>"
  have "ReceiveNextReport s = Some ?u"
    using assms(1,2)
    by (simp add: ReceiveNextReport_def Endpoint_IsOUTReceived_def flag_def rd_def Endpoint_SelectEndpoint_def calm_value_def wr_def)
  moreover have "\<exists>t. USB_USBTask emu_app ?u = Some t \<and> out t = out s @ nothing_log \<and>
      inp t = (inp s)(UEINTX := xs) \<and> same_state s t \<and> lufa.more t = lufa.more s"
    using assms
    by (simp add: USB_USBTask_def USB_DeviceTask_def read_state_def Endpoint_IsSETUPReceived_def flag_def rd_def
        Endpoint_SelectEndpoint_def Endpoint_GetCurrentEndpoint_def calm_value_def wr_def same_state_def)
  ultimately show ?thesis
    by simp
qed

lemma served_values:
  "served k n s \<Longrightarrow> \<forall>x \<in> set (inp s r). calm_value r x" "served k n s \<Longrightarrow> irqs s = []" "served k n s \<Longrightarrow> USB_DeviceState s = Configured"
  by (simp_all add: served_def)

lemma main_pass_served: "served k n s \<Longrightarrow> main_pass s = do { s \<leftarrow> SendNextReport s; s \<leftarrow> ReceiveNextReport s; USB_USBTask emu_app s }"
  by (simp add: main_pass_def HID_Task_def read_state_def served_def)

lemma served_less:
  assumes "served (Suc k) n s" "same_state s t" "inp t = (inp s)(UEINTX := drop j (inp s UEINTX), UECFG0X := drop i (inp s UECFG0X))"
    "j \<le> 55" "i \<le> 1"
  shows "served k n t"
  using assms by (auto simp: served_def same_state_def dest: in_set_dropD)

lemma pass_report:
  assumes "served (Suc k) n s" "length (RefReportData s) = 50"
    and "PrevSixaxisReportData s \<noteq> RefReportData s \<or> IdleCount s \<noteq> 0 \<and> IdleMSRemaining s = 0"
  obtains t w where "main_pass s = Some t" "out t = out s @ w" "\<And>l. sent [] (w @ l) = RefReportData s # sent [] l"
    "served k n t" "lufa.more t = lufa.more ((restart s)\<lparr>PrevSixaxisReportData := RefReportData s\<rparr>)"
proof -
  note calm = served_values [OF assms(1)]
  have len: "55 \<le> length (inp s UEINTX)" "inp s UECFG0X \<noteq> []"
    using assms(1) by (auto simp: served_def)
  then have "53 \<le> length (inp s UEINTX)" by simp
  from send_report [OF calm(1) calm(1) this len(2) assms(2,3)] obtain u v where
    u: "SendNextReport s = Some u" "out u = out s @ v" "\<And>l. sent [] (v @ l) = RefReportData s # sent [] l"
    "inp u = (inp s)(UEINTX := drop 53 (inp s UEINTX), UECFG0X := tl (inp s UECFG0X))" "same_state s u"
    "lufa.more u = lufa.more ((restart s)\<lparr>PrevSixaxisReportData := RefReportData s\<rparr>)" by metis
  let ?X = "inp s UEINTX"
  have ab: "inp u UEINTX = ?X ! 53 # ?X ! 54 # drop 55 ?X"
    using Cons_nth_drop_Suc [of 53 ?X] Cons_nth_drop_Suc [of 54 ?X] len(1) u(4) by simp
  have good: "calm_value UEINTX (?X ! 53)" "calm_value UEINTX (?X ! 54)"
    using calm(1) [of UEINTX] len(1) by simp_all
  obtain t where
    t: "do { s \<leftarrow> ReceiveNextReport u; USB_USBTask emu_app s } = Some t" "out t = out u @ nothing_log"
    "inp t = (inp u)(UEINTX := drop 55 ?X)" "same_state u t" "lufa.more t = lufa.more u"
    using nothing_received [OF ab good] u(5) calm(2,3) by (auto simp: same_state_def)
  have "served k n t"
    using u(4,5) t(3,4) by (intro served_less [OF assms(1), of _ 55 1]) (auto simp: same_state_def drop_Suc)
  then show thesis
    using main_pass_served [OF assms(1)] u(1-3,6) t(1,2,5) by (intro that [of t "v @ nothing_log"]) simp_all
qed

lemma pass_nothing:
  assumes "served (Suc k) n s" "PrevSixaxisReportData s = RefReportData s" "IdleCount s = 0 \<or> IdleMSRemaining s \<noteq> 0"
  obtains t w where "main_pass s = Some t" "out t = out s @ w" "\<And>l. sent [] (w @ l) = sent [] l"
    "served k n t" "lufa.more t = lufa.more s"
proof -
  note calm = served_values [OF assms(1)]
  have "3 \<le> length (inp s UEINTX)"
    using assms(1) by (simp add: served_def)
  then obtain c a b xs where c: "inp s UEINTX = c # a # b # xs"
    by (auto simp: Suc_le_length_iff numeral_eq_Suc)
  from send_nothing [OF c assms(2,3)] obtain u where u: "SendNextReport s = Some u" "out u = out s @ [(UENUM, 1)]"
    "inp u = (inp s)(UEINTX := a # b # xs)" "same_state s u" "lufa.more u = lufa.more s" by metis
  have ab: "inp u UEINTX = a # b # xs" "calm_value UEINTX a" "calm_value UEINTX b"
    using u(3) calm(1) [of UEINTX] c by simp_all
  obtain t where
    t: "do { s \<leftarrow> ReceiveNextReport u; USB_USBTask emu_app s } = Some t" "out t = out u @ nothing_log"
    "inp t = (inp u)(UEINTX := xs)" "same_state u t" "lufa.more t = lufa.more u"
    using nothing_received [OF ab] u(4) calm(2,3) by (auto simp: same_state_def)
  have "served k n t"
    using u(3,4) t(3,4) c by (intro served_less [OF assms(1), of _ 3 0]) (auto simp: same_state_def numeral_eq_Suc)
  then show thesis
    using main_pass_served [OF assms(1)] u(1,2,5) t(1,2,5) by (intro that [of t "(UENUM, 1) # nothing_log"]) simp_all
qed

lemma passes_nothing:
  "served (p + k) n s \<Longrightarrow> PrevSixaxisReportData s = RefReportData s \<Longrightarrow> IdleCount s = 0 \<or> IdleMSRemaining s \<noteq> 0 \<Longrightarrow>
   \<exists>t w. passes p s = Some t \<and> out t = out s @ w \<and> (\<forall>l. sent [] (w @ l) = sent [] l) \<and> served k n t \<and> lufa.more t = lufa.more s"
proof (induction p arbitrary: s)
  case 0
  then show ?case by (intro exI [of _ s] exI [of _ "[]"]) simp
next
  case (Suc p)
  obtain u v where u: "main_pass s = Some u" "out u = out s @ v" "\<And>l. sent [] (v @ l) = sent [] l" "served (p + k) n u"
    "lufa.more u = lufa.more s"
    by (rule pass_nothing [of "p + k" n s]) (use Suc.prems in simp_all)
  note e = emu_more [OF u(5)]
  from Suc.IH [OF u(4)] e Suc.prems obtain t w where "passes p u = Some t" "out t = out u @ w" "\<forall>l. sent [] (w @ l) = sent [] l"
    "served k n t" "lufa.more t = lufa.more u" by auto
  with u show ?case
    by (intro exI [of _ t] exI [of _ "v @ w"]) simp
qed

section \<open>A number of frames\<close>

text \<open>In each frame the loop runs, once and then \<open>p\<close> times more, and the interrupt of the next frame arrives.\<close>

fun idle_frames :: "nat list \<Rightarrow> emu \<Rightarrow> emu option" where
  "idle_frames [] s = Some s"
| "idle_frames (p # ps) s = do { s \<leftarrow> passes (Suc p) s; s \<leftarrow> USB_GEN_vect emu_app s; idle_frames ps s }"

lemma frame_interrupt:
  assumes "served k (Suc n) s"
  obtains t x where "USB_GEN_vect emu_app s = Some t" "out t = out s @ [(UDINT, x)]" "served k n t"
    "lufa.more t = lufa.more (emu_StartOfFrame s)"
proof -
  note calm = served_values(1) [OF assms]
  have "1 \<le> length (inp s USBINT)" "5 \<le> length (inp s UDINT)" "1 \<le> length (inp s UDIEN)"
    using assms by (simp_all add: served_def)
  then obtain v vs a b c d e ds i "is" where r: "inp s USBINT = v # vs" "inp s UDINT = a # b # c # d # e # ds" "inp s UDIEN = i # is"
    by (auto simp: Suc_le_length_iff numeral_eq_Suc)
  have good: "\<not> bit v 0" "\<not> bit a 0" "\<not> bit b 4" "\<not> bit c 3" "bit d 2" "bit i 2"
    using calm [of USBINT] calm [of UDINT] calm [of UDIEN] r by (simp_all add: calm_value_def)
  let ?u = "s\<lparr>inp := (inp s)(USBINT := vs, UDINT := ds, UDIEN := is), out := out s @ [(UDINT, e AND NOT (msk SOFI))]\<rparr>"
  have "USB_GEN_vect emu_app s = Some (emu_StartOfFrame ?u)"
    using r good
    by (simp add: USB_GEN_vect_def on_int_def USB_INT_HasOccurred_def USB_INT_IsEnabled_def USB_INT_Clear_def int_sof_def flag_def
        rmw_def rd_def wr_def emu_app_def fun_upd_twist)
  moreover have "out (emu_StartOfFrame ?u) = out s @ [(UDINT, e AND NOT (msk SOFI))]"
    by (simp add: emu_StartOfFrame_def)
  moreover have "served k n (emu_StartOfFrame ?u)"
    using assms r by (auto simp: served_def emu_StartOfFrame_def)
  moreover have "lufa.more (emu_StartOfFrame ?u) = lufa.more (emu_StartOfFrame s)"
    by (cases s) (simp add: emu_StartOfFrame_def)
  ultimately show thesis by (rule that)
qed

text \<open>One frame: a report is sent if the time has run out, by the first pass.\<close>

lemma frame:
  assumes "served (Suc p + k) (Suc n) s" "length (RefReportData s) = 50" "PrevSixaxisReportData s = RefReportData s"
  obtains t w where "do { s \<leftarrow> passes (Suc p) s; USB_GEN_vect emu_app s } = Some t" "out t = out s @ w"
    "\<And>l. sent [] (w @ l) = (if IdleCount s \<noteq> 0 \<and> IdleMSRemaining s = 0 then [RefReportData s] else []) @ sent [] l"
    "served k n t" "lufa.more t = lufa.more (emu_StartOfFrame (restart s))"
proof -
  let ?rs = "if IdleCount s \<noteq> 0 \<and> IdleMSRemaining s = 0 then [RefReportData s] else []"
  have same: "(restart s)\<lparr>PrevSixaxisReportData := RefReportData s\<rparr> = restart s"
    using assms(3) by (cases s) (simp add: restart_def)
  have "\<exists>u v. passes (Suc p) s = Some u \<and> out u = out s @ v \<and> (\<forall>l. sent [] (v @ l) = ?rs @ sent [] l) \<and>
      served k (Suc n) u \<and> lufa.more u = lufa.more (restart s)"
  proof (cases "IdleCount s \<noteq> 0 \<and> IdleMSRemaining s = 0")
    case True
    then obtain t w where t: "main_pass s = Some t" "out t = out s @ w" "\<And>l. sent [] (w @ l) = RefReportData s # sent [] l"
      "served (p + k) (Suc n) t" "lufa.more t = lufa.more (restart s)"
      using pass_report [of "p + k" "Suc n" s] assms(1,2) same by auto
    note e = emu_more [OF t(5)]
    have "PrevSixaxisReportData t = RefReportData t" "IdleCount t = 0 \<or> IdleMSRemaining t \<noteq> 0"
      using e assms(3) True by (simp_all add: restart_def)
    with passes_nothing [OF t(4)] obtain u v where "passes p t = Some u" "out u = out t @ v" "\<forall>l. sent [] (v @ l) = sent [] l"
      "served k (Suc n) u" "lufa.more u = lufa.more t" by auto
    with t True show ?thesis
      by (intro exI [of _ u] exI [of _ "w @ v"]) simp
  next
    case False
    then have "restart s = s" by (auto simp: restart_def)
    with False assms passes_nothing [of "Suc p" k "Suc n" s] show ?thesis by auto
  qed
  then obtain u v where u: "passes (Suc p) s = Some u" "out u = out s @ v" "\<forall>l. sent [] (v @ l) = ?rs @ sent [] l"
    "served k (Suc n) u" "lufa.more u = lufa.more (restart s)" by blast
  obtain t x where t: "USB_GEN_vect emu_app u = Some t" "out t = out u @ [(UDINT, x)]" "served k n t"
    "lufa.more t = lufa.more (emu_StartOfFrame u)"
    by (rule frame_interrupt [OF u(4)])
  have "lufa.more (emu_StartOfFrame u) = lufa.more (emu_StartOfFrame (restart s))"
    using u(5) by (cases u, cases "restart s") (simp add: emu_StartOfFrame_def)
  with u t show thesis
    by (intro that [of t "v @ [(UDINT, x)]"]) simp_all
qed

lemma idle_frames_spec:
  "served (sum_list (map Suc ps)) (length ps) s \<Longrightarrow> length (RefReportData s) = 50 \<Longrightarrow> PrevSixaxisReportData s = RefReportData s \<Longrightarrow>
   c = unat (IdleCount s) \<Longrightarrow> m = unat (IdleMSRemaining s) \<Longrightarrow>
   \<exists>t w. idle_frames ps s = Some t \<and> out t = out s @ w \<and>
     sent [] w = replicate (if c = 0 \<or> length ps \<le> m then 0 else (length ps - m - 1) div c + 1) (RefReportData s)"
proof (induction ps arbitrary: s m)
  case Nil
  then show ?case by simp
next
  case (Cons p ps)
  have "served (Suc p + sum_list (map Suc ps)) (Suc (length ps)) s"
    using Cons.prems(1) by simp
  from frame [OF this Cons.prems(2,3)] obtain u v where
    u: "do { s \<leftarrow> passes (Suc p) s; USB_GEN_vect emu_app s } = Some u" "out u = out s @ v"
    "\<And>l. sent [] (v @ l) = (if IdleCount s \<noteq> 0 \<and> IdleMSRemaining s = 0 then [RefReportData s] else []) @ sent [] l"
    "served (sum_list (map Suc ps)) (length ps) u" "lufa.more u = lufa.more (emu_StartOfFrame (restart s))" by metis
  note e = emu_more [OF u(5)]
  have kept: "RefReportData u = RefReportData s" "PrevSixaxisReportData u = RefReportData u" "IdleCount u = IdleCount s"
    using e Cons.prems(3) by (auto simp: emu_StartOfFrame_def restart_def)
  have step: "idle_frames (p # ps) s = idle_frames ps u"
    using u(1) by (auto split: bind_splits)
  have zero: "IdleCount s = 0 \<longleftrightarrow> c = 0" "IdleMSRemaining s = 0 \<longleftrightarrow> m = 0"
    using Cons.prems(4,5) by (simp_all add: unat_eq_0)
  let ?m = "(if c \<noteq> 0 \<and> m = 0 then c else m) - 1"
  have "?m = unat (IdleMSRemaining u)"
    using Cons.prems(4,5) e zero by (auto simp: emu_StartOfFrame_def restart_def unat_minus_one)
  with Cons.IH [of u ?m] Cons.prems(2,4) u(4) kept obtain t w where t: "idle_frames ps u = Some t" "out t = out u @ w"
    "sent [] w = replicate (if c = 0 \<or> length ps \<le> ?m then 0 else (length ps - ?m - 1) div c + 1) (RefReportData s)"
    by auto
  let ?n = "length ps"
  have "(if c \<noteq> 0 \<and> m = 0 then 1 else 0) + (if c = 0 \<or> ?n \<le> ?m then 0 else (?n - ?m - 1) div c + 1) =
      (if c = 0 \<or> Suc ?n \<le> m then 0 else (Suc ?n - m - 1) div c + 1)"
    by (cases "c \<noteq> 0 \<and> m = 0") (auto simp: div_eq_0_iff le_div_geq not_le Suc_diff_Suc)
  then have "sent [] (v @ w) = replicate (if c = 0 \<or> Suc ?n \<le> m then 0 else (Suc ?n - m - 1) div c + 1) (RefReportData s)"
    using u(3) t(3) zero by (auto simp: replicate_app_Cons_same replicate_add split: if_splits)
  with step t(1,2) u(2) show ?case
    by (intro exI [of _ t] exI [of _ "v @ w"]) simp
qed

text \<open>C33: the idle rate. With an unchanged report and an endpoint that is always ready, the main loop of a configured
  emulator, which runs at least once per frame, sends the report in the first of every \<open>IdleCount\<close> frames: of \<open>n\<close>
  frames exactly n divided by \<open>IdleCount\<close>, rounded up, carry a report, one each; with the idle rate 0 none does.\<close>

theorem idle_rate:
  assumes "served (sum_list (map Suc ps)) (length ps) s" "length (RefReportData s) = 50" "PrevSixaxisReportData s = RefReportData s"
    and "IdleMSRemaining s = 0"
  shows "\<exists>t w. idle_frames ps s = Some t \<and> out t = out s @ w \<and>
    sent [] w = replicate (let c = unat (IdleCount s) in if c = 0 then 0 else (length ps + c - 1) div c) (RefReportData s)"
proof -
  let ?c = "unat (IdleCount s)"
  have eq: "(if ?c = 0 \<or> length ps \<le> 0 then 0 else (length ps - 0 - 1) div ?c + 1) =
      (let c = ?c in if c = 0 then 0 else (length ps + c - 1) div c)"
    by (cases ps) (auto simp: Let_def div_eq_0_iff div_add_self2)
  have start: "0 = unat (IdleMSRemaining s)"
    by (simp add: assms(4))
  show ?thesis
    using idle_frames_spec [OF assms(1-3) refl start] unfolding eq .
qed

definition ready_emu :: emu where
  "ready_emu = idle_emu\<lparr>IdleCount := 4, PrevSixaxisReportData := REF_REPORT, irqs := [], USB_DeviceState := Configured,
     inp := (\<lambda>r. replicate 825 (if r = UEINTX then 0x21 else if r \<in> {UDINT, UDIEN} then 4 else if r = USBINT then 0 else 1))\<rparr>"

theorem idle_rate_witness:
  "\<exists>t w. idle_frames [0, 1, 0, 2, 0, 0, 0, 0, 1, 1] ready_emu = Some t \<and> out t = out ready_emu @ w \<and> length (sent [] w) = 3"
proof -
  let ?ps = "[0, 1, 0, 2, 0, 0, 0, 0, 1, 1] :: nat list"
  have s: "served (sum_list (map Suc ?ps)) (length ?ps) ready_emu" "length (RefReportData ready_emu) = 50"
    "PrevSixaxisReportData ready_emu = RefReportData ready_emu" "IdleMSRemaining ready_emu = 0"
    "IdleCount ready_emu = 4"
    by (auto simp add: ready_emu_def served_def calm_value_def idle_emu_def emu_start_def lufa.extend_def REF_REPORT_def bit_simps
        split: sfr.splits)
  from idle_rate [OF s(1-4)] show ?thesis by (auto simp: s(5))
qed

end
