(* ===== verification/SixpairEnumeration.thy ===== *)
theory SixpairEnumeration
  imports SixpairReports
begin

text \<open>
  The emulator as the host sees it on the default endpoint: a whole control request, from the eight bytes of
  its set-up packet through the library and the callbacks of the application to the data and the status.
\<close>

section \<open>The set-up packet\<close>

definition setup_bytes :: "USB_Request_Header_t \<Rightarrow> u8 list" where
  "setup_bytes q = [bmRequestType q, bRequest q] @ le16 (wValue q) @ le16 (wIndex q) @ le16 (wLength q)"

abbreviation header_read :: "USB_Request_Header_t \<Rightarrow> u8 list \<Rightarrow> emu \<Rightarrow> emu" where
  "header_read q rest s \<equiv> s\<lparr>inp := (inp s)(UEDATX := rest), USB_ControlRequest := q\<rparr>"

lemma rcat_le16: "word_rcat [ucast (drop_bit 8 w), ucast w :: u8] = (w :: u16)"
  using word_le_le16 [of w] by (simp add: word_le_def le16_def)

lemma read_header_setup:
  assumes "inp s UEDATX = setup_bytes q @ rest"
  shows "read_header s = Some (header_read q rest s)"
  using assms
  by (simp add: read_header_def Endpoint_Read_Byte_def Endpoint_Read_Word_LE_def rd_def setup_bytes_def le16_def rcat_le16)

lemma asks_header [simp]:
  "reading_host early n (header_read q rest s) = reading_host early n s" "unread early n (header_read q rest s) = unread early n s"
  by (simp_all add: reading_host_def taking_host_def unread_def split: list.split)

lemma stream_forms:
  "Endpoint_Write_Control_PStream_LE D n = control_write D n" "Endpoint_Write_Control_EStream_LE D n = control_write D n"
  "Endpoint_Write_Control_Stream_LE D n = control_write D n"
  by (simp_all add: Endpoint_Write_Control_PStream_LE_def Endpoint_Write_Control_EStream_LE_def
    Endpoint_Write_Control_Stream_LE_def)

section \<open>Descriptors\<close>

text \<open>The packets a descriptor is answered with.\<close>

lemma descriptor_packets:
  assumes "inp s UEDATX = setup_bytes q @ rest" "bRequest q = 6" "bmRequestType q = 0x80 \<or> bmRequestType q = 0x81"
    and "get_descriptor_callback (dd s) (wValue q) (ucast (wIndex q)) = (bytes, D, space)"
    and "n = min bytes (wLength q)" "n \<noteq> 0" "reading_host early (unat n) s"
    and "unread early (unat n) s = z # zs" "\<not> bit z RXSTPI"
  shows "\<exists>t w. USB_Device_ProcessControlRequest emu_app s = Some t \<and> out t = out s @ w \<and>
    sent [] w = take (packets_taken early (unat n)) (packets 64 (take (unat n) D)) \<and> concat (sent [] w) = take (unat n) D"
proof -
  let ?s = "header_read q rest s"
  have "unat n \<le> length D"
    using callback_in_bounds [OF assms(4)] assms(5) by (simp add: min_def word_le_nat_alt split: if_splits)
  moreover have "n = min bytes (req_length ?s)" "reading_host early (unat n) ?s"
    using assms(5,7) by (simp_all add: req_length_def)
  ultimately obtain v u t w where t: "Endpoint_ClearSETUP ?s = Some v" "control_write D bytes v = Some (RWC_NoError, u)"
    "Endpoint_ClearOUT u = Some t" "out t = out ?s @ w"
    "sent [] w = take (packets_taken early (unat n)) (packets 64 (take (unat n) D))" "concat (sent [] w) = take (unat n) D"
    "inp t UEINTX = unread early (unat n) ?s"
    using setup_write_complete [of early n ?s bytes D] assms(6) by metis
  have "bytes \<noteq> 0"
    using assms(5,6) by auto
  then have run: "USB_Device_GetDescriptor emu_app ?s = Some t"
    using t(1-3) assms(4) by (simp add: USB_Device_GetDescriptor_def emu_app_def stream_forms)
  have "standard_request emu_app 6 (bmRequestType q) = Some (USB_Device_GetDescriptor emu_app)"
    using assms(3) by (auto simp: standard_request_def)
  moreover have "inp t UEINTX = z # zs"
    using t(7) assms(8) by simp
  ultimately have "USB_Device_ProcessControlRequest emu_app s = Some (t\<lparr>inp := (inp t)(UEINTX := zs)\<rparr>)"
    using read_header_setup [OF assms(1)] run assms(2,9)
    by (simp add: USB_Device_ProcessControlRequest_def Endpoint_IsSETUPReceived_def flag_def rd_def)
  with t(4-6) show ?thesis
    by (intro exI [of _ "t\<lparr>inp := (inp t)(UEINTX := zs)\<rparr>"] exI [of _ w]) simp
qed

text \<open>The descriptors of the emulator. A GET_DESCRIPTOR request for a descriptor it has, from a host that
  takes the data, is answered with exactly the first bytes of this descriptor, as many as the host asks for
  or as the descriptor has.\<close>

theorem descriptor_transfer:
  assumes "inp s UEDATX = setup_bytes q @ rest" "bRequest q = 6" "bmRequestType q = 0x80 \<or> bmRequestType q = 0x81"
    and "get_descriptor_callback (dd s) (wValue q) (ucast (wIndex q)) = (bytes, D, space)"
    and "n = min bytes (wLength q)" "n \<noteq> 0" "reading_host early (unat n) s"
    and "unread early (unat n) s = z # zs" "\<not> bit z RXSTPI"
  shows "\<exists>t w. USB_Device_ProcessControlRequest emu_app s = Some t \<and> out t = out s @ w \<and>
    concat (sent [] w) = take (unat n) D"
  using descriptor_packets [OF assms] by blast

text \<open>The console asks for the device descriptor.\<close>

abbreviation (input) "ask_device \<equiv>
  \<lparr>bmRequestType = 0x80, bRequest = 6, wValue = 0x0100, wIndex = 0, wLength = 64\<rparr>"

definition asked :: emu where
  "asked = receiving ask_device (setup_bytes ask_device) idle_emu"

theorem descriptor_transfer_witness:
  "\<exists>t w. USB_Device_ProcessControlRequest emu_app asked = Some t \<and> out t = out asked @ w \<and>
    concat (sent [] w) = device_bytes (dd idle_emu)"
proof -
  have "inp asked UEDATX = setup_bytes ask_device @ []" "dd asked = dd idle_emu" "reading_host False 18 asked"
    "unread False 18 asked = [1, 1]"
    by (simp_all add: asked_def answered_host_defs unread_def)
  moreover have "get_descriptor_callback (dd idle_emu) 0x0100 0 = (18, device_bytes (dd idle_emu), MEMSPACE_RAM)"
    by (simp add: get_descriptor_callback_def)
  ultimately show ?thesis
    using descriptor_transfer [of asked ask_device "[]" 18 "device_bytes (dd idle_emu)" MEMSPACE_RAM 18 False 1 "[1]"]
    by simp
qed

section \<open>Requests that are not supported\<close>

definition unsupported :: "USB_Descriptor_Device_t \<Rightarrow> USB_Request_Header_t \<Rightarrow> bool" where
  "unsupported d q \<longleftrightarrow>
     (let t = bmRequestType q; r = bRequest q
      in if r = 6 \<and> (t = 0x80 \<or> t = 0x81) then fst (get_descriptor_callback d (wValue q) (ucast (wIndex q))) = 0
         else if r = 9 \<and> t = 0 then (ucast (wValue q) :: u8) > 1
         else \<not> (r = 0 \<and> (t = 0x80 \<or> t = 0x82)) \<and> \<not> ((r = 1 \<or> r = 3) \<and> (t = 0 \<or> t = 2)) \<and>
           \<not> (r = 5 \<and> t = 0) \<and> \<not> (r = 8 \<and> t = 0x80) \<and>
           \<not> (t = 0xA1 \<and> (r = 1 \<or> r = 2 \<or> r = 3)) \<and> \<not> (t = 0x21 \<and> (r = 9 \<or> r = 10 \<or> r = 11)))"

text \<open>Errors on the default endpoint. A request the emulator does not support, a descriptor it does not
  have and a configuration it does not know are answered with a stall; nothing else is written and the
  state of the application does not change.\<close>

theorem unsupported_request_stalls:
  assumes "inp s UEDATX = setup_bytes q @ rest" "unsupported (dd s) q"
    and "inp s UEINTX = x # y # ys" "bit x RXSTPI" "inp s UECONX = c # cs"
  shows "USB_Device_ProcessControlRequest emu_app s =
    Some (s\<lparr>inp := (inp s)(UEDATX := rest, UEINTX := ys, UECONX := cs), USB_ControlRequest := q,
      out := out s @ [(UECONX, c OR msk STALLRQ), (UEINTX, y AND NOT (msk RXSTPI))]\<rparr>)"
proof -
  let ?s = "header_read q rest s"
  have "(case standard_request emu_app (bRequest q) (bmRequestType q) of
      Some f \<Rightarrow> f ?s | None \<Rightarrow> EVENT_USB_Device_UnhandledControlRequest emu_app ?s) = Some ?s"
    using assms(2)
    by (auto simp: unsupported_def standard_request_def USB_Device_GetDescriptor_def USB_Device_SetConfiguration_def
        emu_UnhandledControlRequest_def emu_app_def Let_def split: prod.splits if_splits)
  then show ?thesis
    using read_header_setup [OF assms(1)] assms(3-5)
    by (simp add: USB_Device_ProcessControlRequest_def Endpoint_IsSETUPReceived_def Endpoint_StallTransaction_def
        Endpoint_ClearSETUP_def rmw_def flag_def rd_def wr_def fun_upd_twist)
qed


abbreviation (input) "ask_qualifier \<equiv>
  \<lparr>bmRequestType = 0x80, bRequest = 6, wValue = 0x0600, wIndex = 0, wLength = 10\<rparr>"

definition asked_qualifier :: emu where
  "asked_qualifier = idle_emu\<lparr>inp := (\<lambda>r. if r = UEDATX then setup_bytes ask_qualifier
     else if r = UEINTX then [9, 9] else if r = UECONX then [1] else [])\<rparr>"

theorem unsupported_request_stalls_witness:
  "\<exists>t. USB_Device_ProcessControlRequest emu_app asked_qualifier = Some t \<and>
    out t = out asked_qualifier @ [(UECONX, 0x21), (UEINTX, 1)]"
proof -
  have "inp asked_qualifier UEDATX = setup_bytes ask_qualifier @ []" "inp asked_qualifier UEINTX = [9, 9]"
    "inp asked_qualifier UECONX = [1]" "unsupported (dd asked_qualifier) ask_qualifier" "bit (9 :: u8) RXSTPI"
    by (simp_all add: asked_qualifier_def unsupported_def get_descriptor_callback_def Let_def bit_iff_odd drop_bit_eq_div)
  moreover have "(1 :: u8) OR msk STALLRQ = 0x21" "(9 :: u8) AND NOT (msk RXSTPI) = 1"
    by code_simp+
  ultimately show ?thesis
    using unsupported_request_stalls [of asked_qualifier ask_qualifier "[]" 9 9 "[]" 1 "[]"] by simp
qed

section \<open>The configuration\<close>

lemma size_mask_64: "Endpoint_BytesToEPSizeMask 64 = Some 0x30"
  by (simp add: Endpoint_BytesToEPSizeMask_def epsize_loop.simps)

text \<open>What configuring an endpoint writes, \<open>c\<close> being the value of its control register.\<close>

definition configures :: "u8 \<Rightarrow> u8 \<Rightarrow> u8 \<Rightarrow> (sfr \<times> u8) list" where
  "configures n direction c =
     [(UENUM, n), (UECONX, c OR msk EPEN), (UECFG1X, 0), (UECFG0X, 0xC0 OR direction), (UECFG1X, 0x32)]"

lemma configure_64:
  assumes "inp s UECONX = c # cs" "inp s UESTA0X = e # es"
  shows "Endpoint_ConfigureEndpoint n EP_TYPE_INTERRUPT d 64 ENDPOINT_BANK_SINGLE s =
    Some (bit e CFGOK, s\<lparr>uenum := n, inp := (inp s)(UECONX := cs, UESTA0X := es), out := out s @ configures n d c\<rparr>)"
proof -
  have "push_bit 6 3 = (0xC0 :: u8)" "msk ALLOC OR 0x30 = (0x32 :: u8)"
    by code_simp+
  then show ?thesis
    using assms
    by (simp add: Endpoint_ConfigureEndpoint_def Endpoint_ConfigureEndpoint_Prv_def size_mask_64
        Endpoint_SelectEndpoint_def Endpoint_EnableEndpoint_def Endpoint_IsConfigured_def rmw_def flag_def rd_def wr_def
        configures_def)
qed


lemma wait_flag_ready:
  "inp s UEINTX = x # xs \<Longrightarrow> bit x b \<Longrightarrow> wait_flag b s = Some (True, s\<lparr>inp := (inp s)(UEINTX := xs)\<rparr>)"
  by (subst wait_flag.simps) (simp add: flag_def rd_def)

lemma cleared_txini: "\<not> bit (y AND NOT (msk 0)) 0" for y :: u8
  by (simp add: msk_def bit_simps)

lemma set_configuration_run:
  assumes "inp s UEDATX = setup_bytes q @ rest" "bmRequestType q = 0" "bRequest q = 9" "(ucast (wValue q) :: u8) \<le> 1"
    and "inp s UEINTX = x # y # z # p # ps" "bit y TXINI" "\<not> bit p RXSTPI"
    and "inp s UECONX = c1 # c2 # cs" "inp s UESTA0X = e1 # e2 # es" "inp s UDIEN = d # ds"
  shows "\<exists>t. USB_Device_ProcessControlRequest emu_app s = Some t \<and> USB_ConfigurationNumber t = ucast (wValue q) \<and>
    USB_DeviceState t = (if (ucast (wValue q) :: u8) \<noteq> 0 then Configured else Addressed) \<and>
    out t = out s @ [(UEINTX, x AND NOT (msk RXSTPI)), (UEINTX, z AND NOT (msk TXINI)), (UEINTX, z AND NOT (msk FIFOCON))]
      @ configures 1 1 c1 @ configures 2 0 c2 @ [(UDIEN, d OR msk 2)]"
proof -
  let ?s = "header_read q rest s" and ?c = "ucast (wValue q) :: u8"
  let ?v = "?s\<lparr>inp := (inp ?s)(UEINTX := p # ps), out := out s @ [(UEINTX, x AND NOT (msk RXSTPI)),
    (UEINTX, z AND NOT (msk TXINI)), (UEINTX, z AND NOT (msk FIFOCON))],
    USB_ConfigurationNumber := ?c, USB_DeviceState := (if ?c \<noteq> 0 then Configured else Addressed)\<rparr>"
  let ?u = "?s\<lparr>inp := (inp ?s)(UEINTX := y # z # p # ps), out := out s @ [(UEINTX, x AND NOT (msk RXSTPI))]\<rparr>"
  have first: "Endpoint_ClearSETUP ?s = Some ?u"
    using assms(5) by (simp add: Endpoint_ClearSETUP_def rmw_def rd_def wr_def)
  have second: "Endpoint_ClearStatusStage (?u\<lparr>USB_ConfigurationNumber := ?c\<rparr>) =
      Some (?v\<lparr>USB_DeviceState := USB_DeviceState s\<rparr>)"
    using assms(2,6) by (simp add: Endpoint_ClearStatusStage_def wait_flag_ready Endpoint_ClearIN_def rd_def wr_def)
  have "\<not> FIXED_NUM_CONFIGURATIONS < wValue8 ?s"
    using assms(4) by simp
  then have "USB_Device_SetConfiguration emu_app ?s = emu_ConfigurationChanged ?v"
    using first second unfolding USB_Device_SetConfiguration_def
    by (simp add: emu_app_def set_state_def)
  moreover have "emu_ConfigurationChanged ?v = Some (?v\<lparr>uenum := 2,
      inp := (inp ?v)(UECONX := cs, UESTA0X := es, UDIEN := ds),
      out := out ?v @ configures 1 1 c1 @ configures 2 0 c2 @ [(UDIEN, d OR msk 2)]\<rparr>)"
    using assms(8-10)
    by (simp add: emu_ConfigurationChanged_def configure_64 USB_INT_Enable_def rmw_def rd_def wr_def fun_upd_twist)
  moreover have "standard_request emu_app 9 0 = Some (USB_Device_SetConfiguration emu_app)"
    by (simp add: standard_request_def)
  ultimately show ?thesis
    using read_header_setup [OF assms(1)] assms(2,3,7)
    by (simp add: USB_Device_ProcessControlRequest_def Endpoint_IsSETUPReceived_def flag_def rd_def)
qed

lemma get_configuration_run:
  assumes "inp s UEDATX = setup_bytes q @ rest" "bmRequestType q = 0x80" "bRequest q = 8"
    and "inp s UEINTX = x # y # z # w # p # ps" "bit x TXINI" "bit y TXINI" "bit z RXOUTI" "bit w TXINI" "\<not> bit p RXSTPI"
  shows "\<exists>t l. USB_Device_ProcessControlRequest emu_app s = Some t \<and> out t = out s @ l \<and>
    sent [] l = [[USB_ConfigurationNumber s]]"
  using read_header_setup [OF assms(1)] assms(2-9)
  by (simp add: USB_Device_ProcessControlRequest_def standard_request_def USB_Device_GetConfiguration_def
      Endpoint_ClearSETUP_def Endpoint_Write_Byte_def Endpoint_ClearIN_def Endpoint_ClearStatusStage_def
      wait_flag_ready Endpoint_ClearOUT_def Endpoint_IsSETUPReceived_def rmw_def flag_def rd_def wr_def
      keep_txini cleared_txini)


text \<open>C31: the configuration of the emulator. SET_CONFIGURATION with 0 or 1 sends the status packet, then sets
  up endpoint 1 for the input reports and endpoint 2 for the output reports with 64 bytes each and enables
  the interrupt that counts the idle time; the device is configured or addressed accordingly, and a later
  GET_CONFIGURATION returns the value that was set.\<close>

theorem emulator_configuration:
  assumes "inp s UEDATX = setup_bytes q @ rest" "bmRequestType q = 0" "bRequest q = 9" "(ucast (wValue q) :: u8) \<le> 1"
    and "inp s UEINTX = x # y # z # p # ps" "bit y TXINI" "\<not> bit p RXSTPI"
    and "inp s UECONX = c1 # c2 # cs" "inp s UESTA0X = e1 # e2 # es" "inp s UDIEN = d # ds"
  shows "\<exists>t. USB_Device_ProcessControlRequest emu_app s = Some t \<and>
    USB_DeviceState t = (if (ucast (wValue q) :: u8) \<noteq> 0 then Configured else Addressed) \<and>
    out t = out s @ [(UEINTX, x AND NOT (msk RXSTPI)), (UEINTX, z AND NOT (msk TXINI)), (UEINTX, z AND NOT (msk FIFOCON))]
      @ configures 1 1 c1 @ configures 2 0 c2 @ [(UDIEN, d OR msk 2)] \<and>
    (\<forall>u r rest' x' y' z' w' p' ps'. USB_ConfigurationNumber u = USB_ConfigurationNumber t \<and>
      inp u UEDATX = setup_bytes r @ rest' \<and> bmRequestType r = 0x80 \<and> bRequest r = 8 \<and>
      inp u UEINTX = x' # y' # z' # w' # p' # ps' \<and> bit x' TXINI \<and> bit y' TXINI \<and> bit z' RXOUTI \<and> bit w' TXINI \<and>
      \<not> bit p' RXSTPI \<longrightarrow>
      (\<exists>v l. USB_Device_ProcessControlRequest emu_app u = Some v \<and> out v = out u @ l \<and> sent [] l = [[ucast (wValue q)]]))"
proof -
  obtain t where t: "USB_Device_ProcessControlRequest emu_app s = Some t"
    "USB_ConfigurationNumber t = ucast (wValue q)"
    "USB_DeviceState t = (if (ucast (wValue q) :: u8) \<noteq> 0 then Configured else Addressed)"
    "out t = out s @ [(UEINTX, x AND NOT (msk RXSTPI)), (UEINTX, z AND NOT (msk TXINI)), (UEINTX, z AND NOT (msk FIFOCON))]
      @ configures 1 1 c1 @ configures 2 0 c2 @ [(UDIEN, d OR msk 2)]"
    using set_configuration_run [OF assms] by blast
  have "\<exists>v l. USB_Device_ProcessControlRequest emu_app u = Some v \<and> out v = out u @ l \<and> sent [] l = [[ucast (wValue q)]]"
    if "USB_ConfigurationNumber u = USB_ConfigurationNumber t" "inp u UEDATX = setup_bytes r @ rest'"
      "bmRequestType r = 0x80" "bRequest r = 8" "inp u UEINTX = x' # y' # z' # w' # p' # ps'" "bit x' TXINI"
      "bit y' TXINI" "bit z' RXOUTI" "bit w' TXINI" "\<not> bit p' RXSTPI"
    for u r rest' x' y' z' w' p' ps'
    using get_configuration_run [OF that(2-10)] by (simp add: that(1) t(2))
  with t(1,3,4) show ?thesis
    by blast
qed

abbreviation (input) "set_one \<equiv>
  \<lparr>bmRequestType = 0x00, bRequest = 9, wValue = 1, wIndex = 0, wLength = 0\<rparr>"
abbreviation (input) "get_one \<equiv>
  \<lparr>bmRequestType = 0x80, bRequest = 8, wValue = 0, wIndex = 0, wLength = 1\<rparr>"

definition asked_set :: emu where
  "asked_set = idle_emu\<lparr>inp := (\<lambda>r. if r = UEDATX then setup_bytes set_one else if r = UEINTX then [9, 1, 1, 0]
     else if r = UECONX then [0, 0] else if r = UESTA0X then [128, 128] else if r = UDIEN then [8] else [])\<rparr>"

definition asked_get :: "emu \<Rightarrow> emu" where
  "asked_get s = s\<lparr>inp := (\<lambda>r. if r = UEDATX then setup_bytes get_one
     else if r = UEINTX then [9, 1, 4, 1, 0] else [])\<rparr>"

theorem emulator_configuration_witness:
  "\<exists>t v l. USB_Device_ProcessControlRequest emu_app asked_set = Some t \<and> USB_DeviceState t = Configured \<and>
    USB_Device_ProcessControlRequest emu_app (asked_get t) = Some v \<and> out v = out t @ l \<and> sent [] l = [[1]]"
proof -
  have bits: "bit (1 :: u8) TXINI" "bit (4 :: u8) RXOUTI" "bit (9 :: u8) TXINI"
    by (simp_all add: bit_iff_odd drop_bit_eq_div)
  have set: "inp asked_set UEDATX = setup_bytes set_one @ []" "inp asked_set UEINTX = 9 # 1 # 1 # 0 # []"
    "inp asked_set UECONX = 0 # 0 # []" "inp asked_set UESTA0X = 128 # 128 # []" "inp asked_set UDIEN = 8 # []"
    by (simp_all add: asked_set_def)
  have get: "USB_ConfigurationNumber (asked_get t) = USB_ConfigurationNumber t" "out (asked_get t) = out t"
    "inp (asked_get t) UEDATX = setup_bytes get_one @ []" "inp (asked_get t) UEINTX = 9 # 1 # 4 # 1 # 0 # []" for t
    by (simp_all add: asked_get_def)
  have one: "(ucast (wValue set_one) :: u8) = 1" and "(1 :: u8) \<le> 1" and "\<not> bit (0 :: u8) RXSTPI"
    and "bmRequestType set_one = 0" "bRequest set_one = 9"
    by simp_all
  from emulator_configuration [OF set(1) this(4,5) _ set(2) bits(1) this(3) set(3-5), unfolded one, OF this(2)]
  obtain t where t: "USB_Device_ProcessControlRequest emu_app asked_set = Some t"
      "USB_DeviceState t = (if (1 :: u8) \<noteq> 0 then Configured else Addressed)"
    and later: "\<forall>u r rest' x' y' z' w' p' ps'. USB_ConfigurationNumber u = USB_ConfigurationNumber t \<and>
      inp u UEDATX = setup_bytes r @ rest' \<and> bmRequestType r = 0x80 \<and> bRequest r = 8 \<and>
      inp u UEINTX = x' # y' # z' # w' # p' # ps' \<and> bit x' TXINI \<and> bit y' TXINI \<and> bit z' RXOUTI \<and> bit w' TXINI \<and>
      \<not> bit p' RXSTPI \<longrightarrow>
      (\<exists>v l. USB_Device_ProcessControlRequest emu_app u = Some v \<and> out v = out u @ l \<and> sent [] l = [[1]])"
    by (elim exE conjE)
  have "USB_ConfigurationNumber (asked_get t) = USB_ConfigurationNumber t \<and>
      inp (asked_get t) UEDATX = setup_bytes get_one @ [] \<and> bmRequestType get_one = 0x80 \<and> bRequest get_one = 8 \<and>
      inp (asked_get t) UEINTX = 9 # 1 # 4 # 1 # 0 # [] \<and> bit (9 :: u8) TXINI \<and> bit (1 :: u8) TXINI \<and>
      bit (4 :: u8) RXOUTI \<and> bit (1 :: u8) TXINI \<and> \<not> bit (0 :: u8) RXSTPI"
    using get bits by simp
  from later [rule_format, OF this] show ?thesis
    using t by (auto simp: get(2))
qed

end
