(* ===== verification/Process.thy ===== *)
theory Process
  imports Prelude
begin

text \<open>
  The command line tools: a computation that may end the process. It works on a state (the results
  the environment will give, what the tool has done so far); \<open>Inl\<close> is the status with which the
  process exits, and \<open>None\<close> means that it waits for a result that does not come.
\<close>

type_synonym ('s, 'x) process = "'s \<Rightarrow> ((int + 'x) \<times> 's) option"

definition result :: "'x \<Rightarrow> ('s, 'x) process" where
  "result x s = Some (Inr x, s)"

definition exit :: "int \<Rightarrow> ('s, 'x) process" where
  "exit n s = Some (Inl n, s)"

definition andthen :: "('s, 'x) process \<Rightarrow> ('x \<Rightarrow> ('s, 'y) process) \<Rightarrow> ('s, 'y) process" where
  "andthen m f s = do {
     (r, s) \<leftarrow> m s;
     (case r of Inl n \<Rightarrow> Some (Inl n, s) | Inr x \<Rightarrow> f x s) }"

text \<open>A sequence of computations.\<close>

fun for_each :: "('a \<Rightarrow> ('s, unit) process) \<Rightarrow> 'a list \<Rightarrow> ('s, unit) process" where
  "for_each f [] = result ()"
| "for_each f (x # xs) = andthen (f x) (\<lambda>_. for_each f xs)"

text \<open>\<open>isspace\<close> of the C library, which \<open>sscanf\<close> and Python's \<open>int\<close> use too.\<close>

definition is_space :: "char \<Rightarrow> bool" where
  "is_space c \<longleftrightarrow> c \<in> {CHR '' '', CHR 0x09, CHR 0x0A, CHR 0x0B, CHR 0x0C, CHR 0x0D}"

named_theorems process_defs \<open>definitions of the operations on processes\<close>

declare result_def [process_defs] exit_def [process_defs] andthen_def [process_defs]

lemma andthen_simps [simp]:
  "andthen (result x) f = f x"
  "andthen (exit n) f = exit n"
  by (rule ext, simp add: process_defs)+

lemma andthen_Inr:
  "andthen m f s = Some (Inr x, u) \<longleftrightarrow> (\<exists>y t. m s = Some (Inr y, t) \<and> f y t = Some (Inr x, u))"
  by (auto simp: andthen_def split: bind_split sum.split)

lemma andthen_assoc: "andthen (andthen m f) g = andthen m (\<lambda>x. andthen (f x) g)"
  by (rule ext) (auto simp: andthen_def split: sum.split bind_split)

lemma for_each_append: "for_each f (xs @ ys) = andthen (for_each f xs) (\<lambda>_. for_each f ys)"
  by (induction xs) (simp_all add: andthen_assoc)

end
