(* ===== verification/Sixutils.thy ===== *)
theory Sixutils
  imports Process SixpairDescriptors
begin

text \<open>
  \<open>tools/sixutils\<close>: the command line tools that talk to a controller over USB. \<open>sixpair\<close> shows and sets
  the address of the console, \<open>sixaddr\<close> shows both addresses, \<open>sixmod\<close> writes report EF and reads it back,
  \<open>sixdump\<close> reads all reports. Their \<open>main\<close> is the same walk over the devices of all busses.

  What libusb returns is the input: for every call its result and, for a control read, the bytes
  received. The calls made and the lines printed are logged.
\<close>

text \<open>The devices as libusb finds them; an alternate setting is given by its \<open>bInterfaceClass\<close>.\<close>

record usb_device =
  idVendor :: u16
  idProduct :: u16
  configs :: "u8 list list list"   \<comment> \<open>configurations, interfaces, alternate settings\<close>

type_synonym usb_bus = "usb_device list"

datatype call =
    Usb_find_busses | Usb_find_devices | Usb_open | Usb_detach nat | Usb_claim nat | Usb_close | Popen
  | Control_in u8 u8 u16 nat nat            \<comment> \<open>request type, request, value, interface, size\<close>
  | Control_out u8 u8 u16 nat "u8 list"

text \<open>
  What is printed, without the formatting. A byte that \<open>usb_control_msg\<close> has not filled in, in a buffer
  that is not initialised, is \<open>None\<close>.
\<close>

datatype line =
    Perror | Usage | No_bdaddr | No_controller
  | Master "u8 option list" | Setting_master "int list" | Device_address "u8 option list"
  | Report u16 int "u8 list" | Number int

record host =
  replies :: "(int \<times> u8 list) list"
  made :: "call list"
  screen :: "line list"

definition libusb :: "call \<Rightarrow> (host, int \<times> u8 list) process" where
  "libusb c s = (case replies s of
     [] \<Rightarrow> None
   | r # rs \<Rightarrow> Some (Inr r, s\<lparr>replies := rs, made := made s @ [c]\<rparr>))"

definition print :: "line \<Rightarrow> (host, unit) process" where
  "print l s = Some (Inr (), s\<lparr>screen := screen s @ [l]\<rparr>)"

definition fatal :: "(host, 'x) process" where
  "fatal = andthen (print Perror) (\<lambda>_. exit 1)"

text \<open>A call whose failure is fatal.\<close>

definition required :: "call \<Rightarrow> (host, unit) process" where
  "required c = andthen (libusb c) (\<lambda>(res, _). if res < 0 then fatal else result ())"

abbreviation (input) "VENDOR \<equiv> 0x054c :: u16"
abbreviation (input) "PRODUCT \<equiv> 0x0268 :: u16"
abbreviation (input) "CLASS_IN \<equiv> 0xA1 :: u8"
abbreviation (input) "CLASS_OUT \<equiv> 0x21 :: u8"

section \<open>The requests\<close>

definition filled :: "u8 list \<Rightarrow> nat \<Rightarrow> u8 option" where
  "filled bs i = (if i < length bs then Some (bs ! i) else None)"

definition show_master :: "nat \<Rightarrow> (host, unit) process" where
  "show_master itf =
     andthen (libusb (Control_in CLASS_IN 0x01 0x03f5 itf 8)) (\<lambda>(res, msg).
     if res < 0 then print Perror
     else print (Master (map (filled (take 8 msg)) [2, 3, 4, 5, 6, 7])))"

definition set_master :: "nat \<Rightarrow> int list \<Rightarrow> (host, unit) process" where
  "set_master itf mac =
     andthen (print (Setting_master mac)) (\<lambda>_.
     required (Control_out CLASS_OUT 0x09 0x03f5 itf ([1, 0] @ map word_of_int mac)))"

definition show_sixaxis_bdaddr :: "nat \<Rightarrow> (host, unit) process" where
  "show_sixaxis_bdaddr itf =
     andthen (libusb (Control_in CLASS_IN 0x01 0x03f2 itf 17)) (\<lambda>(res, buf).
     print (Device_address (map (filled (take 17 buf)) [4, 5, 6, 7, 8, 9])))"

text \<open>\<open>generic_request\<close> of \<open>sixdump\<close> and \<open>standard_request\<close> of \<open>sixmod\<close>: the buffer is filled with 0xFF.\<close>

definition generic_request :: "nat \<Rightarrow> u16 \<Rightarrow> (host, unit) process" where
  "generic_request itf wV =
     andthen (libusb (Control_in CLASS_IN 0x01 wV itf 64)) (\<lambda>(ret, buf).
     print (Report wV ret (take 64 buf @ replicate (64 - length buf) 0xFF)))"

definition generic_set_request :: "nat \<Rightarrow> u16 \<Rightarrow> u8 list \<Rightarrow> (host, unit) process" where
  "generic_set_request itf wV buf =
     andthen (libusb (Control_out CLASS_OUT 0x09 wV itf buf)) (\<lambda>(ret, _). print (Number ret))"

section \<open>The devices\<close>

text \<open>The common beginning of \<open>process_device\<close>. \<open>usb_open\<close> returns a null pointer when it fails.\<close>

definition open_device :: "nat \<Rightarrow> (host, unit) process" where
  "open_device itf =
     andthen (libusb Usb_open) (\<lambda>(devh, _).
     if devh = 0 then fatal
     else andthen (libusb (Usb_detach itf)) (\<lambda>_. required (Usb_claim itf)))"

definition close_device :: "(host, unit) process" where
  "close_device = andthen (libusb Usb_close) (\<lambda>_. result ())"

text \<open>
  The address for \<open>sixpair\<close>: the argument, if there is one, or the output of \<open>hcitool dev\<close>. \<open>arg\<close> and
  \<open>hcitool\<close> are what \<open>sscanf\<close> and \<open>fscanf\<close> read from them, six numbers or nothing.
\<close>

definition six_numbers :: "int list option \<Rightarrow> bool" where
  "six_numbers r = (case r of None \<Rightarrow> False | Some mac \<Rightarrow> length mac = 6)"

definition sixpair_device :: "int list option option \<Rightarrow> int list option \<Rightarrow> nat \<Rightarrow> (host, unit) process" where
  "sixpair_device arg hcitool itf =
     andthen (open_device itf) (\<lambda>_.
     andthen (show_master itf) (\<lambda>_.
     andthen
       (case arg of
          Some r \<Rightarrow> if six_numbers r then result (the r) else andthen (print Usage) (\<lambda>_. exit 1)
        | None \<Rightarrow> andthen (libusb Popen) (\<lambda>(f, _).
            if f = 0 \<or> \<not> six_numbers hcitool then andthen (print No_bdaddr) (\<lambda>_. exit 1)
            else result (the hcitool))) (\<lambda>mac.
     andthen (set_master itf mac) (\<lambda>_. close_device))))"

definition sixaddr_device :: "nat \<Rightarrow> (host, unit) process" where
  "sixaddr_device itf =
     andthen (open_device itf) (\<lambda>_.
     andthen (show_master itf) (\<lambda>_.
     andthen (show_sixaxis_bdaddr itf) (\<lambda>_. close_device)))"

definition sixmod_buf :: "u8 list" where
  "sixmod_buf = [0, 0, 0, 0, 3, 1, 0xA0] @ replicate 57 0"

definition sixmod_device :: "nat \<Rightarrow> (host, unit) process" where
  "sixmod_device itf =
     andthen (open_device itf) (\<lambda>_.
     andthen (generic_set_request itf 0x3EF (take 0x30 sixmod_buf)) (\<lambda>_.
     andthen (generic_request itf 0x3EF) (\<lambda>_. close_device)))"

definition sixdump_device :: "nat \<Rightarrow> (host, unit) process" where
  "sixdump_device itf =
     andthen (open_device itf) (\<lambda>_.
     andthen (for_each (generic_request itf) (map of_nat [0..<0xFFFF])) (\<lambda>_. close_device))"

text \<open>
  The walk of \<open>main\<close>: every alternate setting of class 3 (HID) of every interface of a matching device;
  the number of visits is counted.
\<close>

definition device_visits :: "usb_device \<Rightarrow> nat list" where
  "device_visits dev = concat (map (\<lambda>cfg. concat (map (\<lambda>(itf, alts). concat (map (\<lambda>alt.
       if idVendor dev = VENDOR \<and> idProduct dev = PRODUCT \<and> alt = 3 then [itf] else []) alts))
     (enumerate 0 cfg))) (configs dev))"

definition visits :: "usb_bus list \<Rightarrow> nat list" where
  "visits busses = concat (map device_visits (concat busses))"

definition tool_main :: "(nat \<Rightarrow> (host, unit) process) \<Rightarrow> usb_bus list option \<Rightarrow> (host, unit) process" where
  "tool_main process_device busses =
     andthen (required Usb_find_busses) (\<lambda>_.
     andthen (required Usb_find_devices) (\<lambda>_.
     (case busses of
        None \<Rightarrow> fatal
      | Some bs \<Rightarrow>
          andthen (for_each process_device (visits bs)) (\<lambda>_.
          if visits bs = [] then print No_controller else result ()))))"

definition sixpair where "sixpair arg hcitool = tool_main (sixpair_device arg hcitool)"
definition sixaddr where "sixaddr = tool_main sixaddr_device"
definition sixmod where "sixmod = tool_main sixmod_device"
definition sixdump where "sixdump = tool_main sixdump_device"


section \<open>What the tools do\<close>

lemmas tool_defs = process_defs libusb_def print_def required_def fatal_def open_device_def close_device_def

text \<open>The calls of \<open>sixpair\<close> on a device, when it ends without an error.\<close>

lemma sixpair_calls:
  assumes "sixpair_device (Some (Some mac)) hc itf h = Some (Inr (), k)"
  shows "length mac = 6" "made k = made h @ [Usb_open, Usb_detach itf, Usb_claim itf,
      Control_in CLASS_IN 0x01 0x03f5 itf 8, Control_out CLASS_OUT 0x09 0x03f5 itf ([1, 0] @ map word_of_int mac),
      Usb_close]"
  using assms
  by (auto simp: sixpair_device_def show_master_def set_master_def tool_defs six_numbers_def
      split: list.splits if_splits prod.splits)

lemma show_master_reply:
  assumes "replies h = (8, msg) # rs" "length msg = 8"
  shows "show_master itf h = Some (Inr (), h\<lparr>replies := rs,
      made := made h @ [Control_in CLASS_IN 0x01 0x03f5 itf 8],
      screen := screen h @ [Master (map Some (drop 2 msg))]\<rparr>)"
proof -
  have "map (filled (take 8 msg)) [2, 3, 4, 5, 6, 7] = map Some (drop 2 msg)"
    using assms(2) by (auto simp: filled_def length_Suc_conv numeral_eq_Suc)
  with assms show ?thesis by (simp add: show_master_def tool_defs)
qed

text \<open>The walk of \<open>main\<close> when one controller with one HID interface is on the busses, among other devices.\<close>

definition controller :: "usb_device \<Rightarrow> bool" where
  "controller d \<longleftrightarrow> idVendor d = VENDOR \<and> idProduct d = PRODUCT \<and>
     (\<exists>cfg \<in> set (configs d). \<exists>alts \<in> set cfg. 3 \<in> set alts)"

lemma visits_of_device: "\<not> controller d \<Longrightarrow> device_visits d = []"
  by (auto simp: controller_def device_visits_def in_set_enumerate_eq)

lemma visits_one:
  assumes "concat busses = ds @ d # es" "\<forall>e \<in> set (ds @ es). \<not> controller e"
    and "idVendor d = VENDOR" "idProduct d = PRODUCT" "configs d = [[[3]]]"
  shows "visits busses = [0]"
proof -
  have "concat (map device_visits ds) = []" "concat (map device_visits es) = []"
    using assms(2) visits_of_device by auto
  then show ?thesis
    unfolding visits_def assms(1) using assms(3-5) by (simp add: device_visits_def [of d] del: concat_eq_Nil_conv)
qed

lemma required_made: "required c h = Some (Inr (), g) \<Longrightarrow> made g = made h @ [c]"
  by (auto simp: tool_defs split: list.splits if_splits prod.splits)

lemma tool_main_one:
  assumes "visits busses = [i]" "tool_main process_device (Some busses) h = Some (Inr (), k)"
  obtains g where "process_device i g = Some (Inr (), k)" "made g = made h @ [Usb_find_busses, Usb_find_devices]"
proof -
  obtain u v where "required Usb_find_busses h = Some (Inr (), u)" "required Usb_find_devices u = Some (Inr (), v)"
    "process_device i v = Some (Inr (), k)"
    using assms by (auto simp: tool_main_def andthen_Inr result_def)
  with that show thesis
    by (auto dest!: required_made)
qed

text \<open>What \<open>sixaddr\<close> prints, when every call succeeds.\<close>

lemma sixaddr_prints:
  assumes "visits busses = [itf]" "replies h = (b, x0) # (d, x1) # (o', x2) # (k, x3) # (c, x4) # (8, msg) # (n, buf) # (l, x5) # rs"
    and "0 \<le> b" "0 \<le> d" "o' \<noteq> 0" "0 \<le> c" "length msg = 8"
  shows "\<exists>g. sixaddr (Some busses) h = Some (Inr (), g) \<and>
    screen g = screen h @ [Master (map Some (drop 2 msg)), Device_address (map (filled (take 17 buf)) [4, 5, 6, 7, 8, 9])]"
proof -
  have msg: "map (filled (take 8 msg)) [2, 3, 4, 5, 6, 7] = map Some (drop 2 msg)"
    using assms(7) by (auto simp: filled_def length_Suc_conv numeral_eq_Suc)
  show ?thesis
    using assms(2-6) unfolding sixaddr_def tool_main_def option.case assms(1) for_each.simps
    by (simp add: sixaddr_device_def show_master_def show_sixaxis_bdaddr_def tool_defs msg del: list.map)
qed

text \<open>\<open>sixdump\<close> reads the reports 0 to 0xFFFE, in order; the last one is not read.\<close>

lemma requests_made:
  "for_each (generic_request itf) vs h = Some (Inr (), k) \<Longrightarrow>
   made k = made h @ map (\<lambda>v. Control_in CLASS_IN 0x01 v itf 64) vs"
proof (induction vs arbitrary: h)
  case (Cons v vs)
  then show ?case
    by (auto simp: generic_request_def libusb_def print_def andthen_def split: bind_splits list.splits)
qed (simp add: result_def)

lemma sixdump_misses_last:
  assumes "sixdump_device itf h = Some (Inr (), k)"
  shows "made k = made h @ [Usb_open, Usb_detach itf, Usb_claim itf] @
      map (\<lambda>v. Control_in CLASS_IN 0x01 (of_nat v) itf 64) [0..<0xFFFF] @ [Usb_close]"
proof -
  obtain i j where i: "open_device itf h = Some (Inr (), i)"
    "for_each (generic_request itf) (map of_nat [0..<0xFFFF]) i = Some (Inr (), j)"
    "close_device j = Some (Inr (), k)"
    using assms unfolding sixdump_device_def andthen_def by (auto split: bind_splits sum.splits)
  have "made i = made h @ [Usb_open, Usb_detach itf, Usb_claim itf]"
    using i(1) by (auto simp: tool_defs split: list.splits if_splits prod.splits)
  moreover have "made k = made j @ [Usb_close]"
    using i(3) by (auto simp: tool_defs split: list.splits)
  ultimately show ?thesis using requests_made [OF i(2)] by (simp add: comp_def del: upt_rec_numeral)
qed

end
