(* ===== verification/Pairing.thy ===== *)
theory Pairing
  imports SixpairReports Sixutils
begin

text \<open>
  The tools of \<open>sixutils\<close> and the controller emulator together: what \<open>sixpair\<close> stores, the tools show.
\<close>

text \<open>The emulator as libusb finds it: the identifiers of its device descriptor, and its configuration.\<close>

definition emulator_device :: "emu \<Rightarrow> usb_device" where
  "emulator_device s = \<lparr>idVendor = VendorID (dd s), idProduct = ProductID (dd s),
     configs = [[[if_Class (Interface ConfigurationDescriptor)]]]\<rparr>"

text \<open>What a tool that succeeds needs: the results of the calls of \<open>sixaddr\<close>.\<close>

definition sixaddr_replies :: "u8 list \<Rightarrow> u8 list \<Rightarrow> (int \<times> u8 list) list" where
  "sixaddr_replies master device = [(1, []), (1, []), (1, []), (0, []), (0, []), (8, master), (17, device), (0, [])]"

definition sends :: "call \<Rightarrow> bool" where
  "sends c = (case c of Control_out _ _ _ _ _ \<Rightarrow> True | _ \<Rightarrow> False)"

text \<open>C4: pairing. On busses with one controller, the emulator, a run of \<open>sixpair\<close> with an address that ends without
  an error sends exactly one request, to the emulator's interface. When the emulator has handled this request, and
  has been asked for the address before, a run of \<open>sixaddr\<close> on these busses that gets its answer
  prints exactly the address given to \<open>sixpair\<close>.\<close>

theorem pairing:
  assumes bus: "concat busses = ds @ emulator_device s # es" "\<forall>d \<in> set (ds @ es). \<not> controller d"
      "VendorID (dd s) = 0x054c" "ProductID (dd s) = 0x0268"
    and tool: "sixpair (Some (Some mac)) hc (Some busses) h = Some (Inr (), k)" "made h = []"
    and request: "Control_out rt r v itf msg \<in> set (made k)"
    and device: "requests rt r v s" "req_length s = of_nat (length msg)" "inp s UEDATX = msg"
      "length (last_set_data s) = 64" "emu_UnhandledControlRequest s = Some t" "USB_DeviceState t \<noteq> Unattached"
    and later: "VolatileMasterBdaddr u = VolatileMasterBdaddr t" "reply u \<noteq> 0"
      "requests 0xA1 0x01 0x03f5 u" "req_length u = 8" "asks 8 u"
  shows "filter sends (made k) = [Control_out rt r v itf msg] \<and> itf = 0 \<and>
    (\<exists>x w. emu_UnhandledControlRequest u = Some x \<and> out x = out u @ w \<and>
    (\<forall>g b. replies g = sixaddr_replies (concat (sent [] w)) b \<longrightarrow>
      (\<exists>g' l. sixaddr (Some busses) g = Some (Inr (), g') \<and>
        screen g' = screen g @ [Master (map (Some \<circ> word_of_int) mac), Device_address l])))"
proof -
  have visits: "visits busses = [0]"
    by (rule visits_one [OF bus(1,2)]) (simp_all add: emulator_device_def bus(3,4) ConfigurationDescriptor_def)
  obtain h' where h': "sixpair_device (Some (Some mac)) hc 0 h' = Some (Inr (), k)" "made h' = [Usb_find_busses, Usb_find_devices]"
    using tool_main_one [OF visits tool(1) [unfolded sixpair_def]] tool(2) by auto
  note calls = sixpair_calls [OF h'(1)]
  have msg: "rt = 0x21" "r = 9" "v = 0x03f5" "itf = 0" "msg = [1, 0] @ map word_of_int mac"
    using request by (auto simp: calls(2) h'(2))
  then have len: "length msg = 8" using calls(1) by simp
  have "requests 0x21 0x09 0x03f5 s" "length msg = unat (req_length s)" "inp s UEDATX = msg @ []"
    using device(1-3) msg len by simp_all
  then obtain x w where x: "emu_UnhandledControlRequest u = Some x" "out x = out u @ w"
    "concat (sent [] w) = take 8 ([1, 0] @ take 6 (drop 2 msg) @ drop 8 feature_f5)"
    using stored_address_read [of s t msg "[]" u] device(4-6) later len by auto
  then have ans: "concat (sent [] w) = msg"
    using msg(5) calls(1) by simp
  have "\<exists>g' l. sixaddr (Some busses) g = Some (Inr (), g') \<and>
        screen g' = screen g @ [Master (map (Some \<circ> word_of_int) mac), Device_address l]"
    if "replies g = sixaddr_replies (concat (sent [] w)) b" for g b
    using sixaddr_prints [OF visits that [unfolded sixaddr_replies_def ans]] len msg(5) by auto
  with x(1,2) msg calls(2) h'(2) show ?thesis
    by (auto simp: sends_def)
qed

text \<open>The bus has a hub with the identifiers of another vendor, and then the emulator, which has read
  its identifiers.\<close>

definition tool_host :: host where
  "tool_host = \<lparr>replies = [(1, []), (1, []), (1, []), (0, []), (0, []), (8, replicate 8 0), (8, []), (0, [])], made = [], screen = []\<rparr>"

definition hub :: usb_device where
  "hub = \<lparr>idVendor = 0x1d6b, idProduct = 2, configs = [[[9]]]\<rparr>"

definition started_f5 :: emu where
  "started_f5 = readEepromIdentifiers set_f5"

lemma started_run: "\<exists>t. emu_UnhandledControlRequest started_f5 = Some t \<and> USB_DeviceState t = Configured"
proof -
  have "map_option USB_DeviceState (emu_UnhandledControlRequest started_f5) = Some Configured" by code_simp
  then show ?thesis by auto
qed

theorem pairing_witness:
  "\<exists>k t w. sixpair (Some (Some [0x10, 0x20, 0x30, 0x40, 0x50, 0x60])) None (Some [[hub], [hub, emulator_device started_f5]]) tool_host =
      Some (Inr (), k) \<and>
    emu_UnhandledControlRequest started_f5 = Some t \<and>
    (\<exists>g l. sixaddr (Some [[hub], [hub, emulator_device started_f5]])
        \<lparr>replies = sixaddr_replies (concat (sent [] w)) [], made = [], screen = []\<rparr> = Some (Inr (), g) \<and>
      screen g = [Master [Some 0x10, Some 0x20, Some 0x30, Some 0x40, Some 0x50, Some 0x60], Device_address l])"
proof -
  let ?mac = "[0x10, 0x20, 0x30, 0x40, 0x50, 0x60] :: int list"
  let ?bs = "[[hub], [hub, emulator_device started_f5]]"
  let ?m = "sixpair (Some (Some ?mac)) None (Some ?bs) tool_host"
  have ids: "VendorID (dd started_f5) = 0x054c" "ProductID (dd started_f5) = 0x0268"
    by (simp_all add: started_f5_def set_f5_def readEepromIdentifiers_def receiving_def idle_emu_def emu_start_def
        lufa.extend_def Let_def)
  have bus: "concat ?bs = [hub, hub] @ emulator_device started_f5 # []" "\<forall>d \<in> set ([hub, hub] @ []). \<not> controller d"
    by (simp_all add: controller_def hub_def)
  have "map_option fst ?m = Some (Inr ())" by code_simp
  then obtain k where k: "?m = Some (Inr (), k)" by auto
  obtain t where t: "emu_UnhandledControlRequest started_f5 = Some t" "USB_DeviceState t = Configured"
    using started_run by blast
  let ?u = "get_f5 (t\<lparr>reply := 1\<rparr>)"
  have host: "made tool_host = []" by (simp add: tool_host_def)
  have visits: "visits ?bs = [0]"
    by (rule visits_one [OF bus]) (simp_all add: emulator_device_def ids ConfigurationDescriptor_def)
  obtain h' where "sixpair_device (Some (Some ?mac)) None 0 h' = Some (Inr (), k)"
    using tool_main_one [OF visits k [unfolded sixpair_def]] by auto
  then have req: "Control_out 0x21 9 0x03f5 0 [1, 0, 0x10, 0x20, 0x30, 0x40, 0x50, 0x60] \<in> set (made k)"
    by (simp add: sixpair_calls(2))
  have s: "requests 0x21 9 0x03f5 started_f5" "req_length started_f5 = of_nat (length [1, 0, 0x10, 0x20, 0x30, 0x40, 0x50, 0x60])"
    "inp started_f5 UEDATX = [1, 0, 0x10, 0x20, 0x30, 0x40, 0x50, 0x60]" "length (last_set_data started_f5) = 64"
    by (simp_all add: started_f5_def set_f5_def readEepromIdentifiers_def Let_def requests_def receiving_def idle_emu_def emu_start_def lufa.extend_def
        req_length_def)
  have u: "requests 0xA1 0x01 0x03f5 ?u" "req_length ?u = 8" "asks 8 ?u" "reply ?u \<noteq> 0"
    "VolatileMasterBdaddr ?u = VolatileMasterBdaddr t"
    by (simp_all add: get_f5_def requests_def receiving_asks req_length_def) (simp_all add: receiving_def)
  from pairing [OF bus ids k host req s t(1) _ u(5,4,1,2,3)] t(2) obtain w where
    "\<forall>g b. replies g = sixaddr_replies (concat (sent [] w)) b \<longrightarrow>
      (\<exists>g' l. sixaddr (Some ?bs) g = Some (Inr (), g') \<and>
        screen g' = screen g @ [Master (map (Some \<circ> word_of_int) ?mac), Device_address l])" by auto
  from this [rule_format, of "\<lparr>replies = sixaddr_replies (concat (sent [] w)) [], made = [], screen = []\<rparr>" "[]"] k t(1)
  show ?thesis by auto
qed

end
