(* ===== verification/Customizer.thy ===== *)
theory Customizer
  imports Process SixpairReports
begin

text \<open>
  \<open>tools/sixpair-emu-customizer/sixp-emu-cust.py\<close> (Python 2): the program that writes a new identity into
  the emulator. What is selected and typed in its window is an argument; what PyUSB returns and the
  answer to the last question are inputs. The dialogs shown and the requests made are logged.
\<close>

section \<open>Numbers\<close>

text \<open>A slice \<open>s[a:b]\<close> of a string, cut at its end.\<close>

definition slice :: "nat \<Rightarrow> nat \<Rightarrow> string \<Rightarrow> string" where
  "slice a b s = take (b - a) (drop a s)"

definition hexval :: "char \<Rightarrow> nat option" where
  "hexval c = (let n = (of_char c :: nat) in
     if 48 \<le> n \<and> n \<le> 57 then Some (n - 48)
     else if 97 \<le> n \<and> n \<le> 102 then Some (n - 87)
     else if 65 \<le> n \<and> n \<le> 70 then Some (n - 55)
     else None)"

definition is_hex :: "char \<Rightarrow> bool" where
  "is_hex c \<longleftrightarrow> hexval c \<noteq> None"

definition hex_value :: "string \<Rightarrow> nat" where
  "hex_value ds = foldl (\<lambda>n c. 16 * n + the (hexval c)) 0 ds"

text \<open>\<open>int(s, 16)\<close>: white space, a sign, white space, a prefix before a digit, digits, white space.
  \<open>None\<close> is a \<open>ValueError\<close>.\<close>

definition py_int16 :: "string \<Rightarrow> int option" where
  "py_int16 s =
     (let s = dropWhile is_space s;
          neg = (s \<noteq> [] \<and> hd s = CHR ''-'');
          s = (if s \<noteq> [] \<and> (hd s = CHR ''-'' \<or> hd s = CHR ''+'') then tl s else s);
          s = dropWhile is_space s;
          s = (if length s > 2 \<and> s ! 0 = CHR ''0'' \<and> (s ! 1 = CHR ''x'' \<or> s ! 1 = CHR ''X'') \<and> is_hex (s ! 2)
               then drop 2 s else s);
          ds = takeWhile is_hex s;
          n = int (hex_value ds)
      in if ds = [] \<or> dropWhile is_space (drop (length ds) s) \<noteq> [] then None
         else Some (if neg then - n else n))"

text \<open>\<open>"%04x"\<close> of a 16-bit number and \<open>"%02X"\<close> of a byte.\<close>

definition hex4 :: "u16 \<Rightarrow> string" where
  "hex4 w = map (\<lambda>i. ''0123456789abcdef'' ! unat (drop_bit (4 * i) w AND 15)) [3, 2, 1, 0]"

definition hex2 :: "u8 \<Rightarrow> string" where
  "hex2 b = [''0123456789ABCDEF'' ! (unat b div 16), ''0123456789ABCDEF'' ! (unat b mod 16)]"

section \<open>The lists of the window\<close>

definition known_ids :: "u16 \<Rightarrow> u16 \<Rightarrow> bool" where
  "known_ids vid pid \<longleftrightarrow> vid = 0x054c \<and> pid = 0x0268 \<or> vid = 0x03eb \<and> pid = 0x2042"

definition element :: "u16 \<Rightarrow> u16 \<Rightarrow> string" where
  "element vid pid = ''VendorId: 0x'' @ hex4 vid @ '' - ProductId: 0x'' @ hex4 pid"

definition liste1 :: "(u16 \<times> u16) list \<Rightarrow> string list" where
  "liste1 usb_devs = map (\<lambda>(v, p). element v p) (filter (\<lambda>(v, p). known_ids v p) usb_devs)"

text \<open>
  \<open>read_local_bdaddr\<close>: the last seven bytes of the event (13 bytes) are the status and the address, last
  byte first. A packet of another size or an error status raises an exception.
\<close>

definition read_local_bdaddr :: "u8 list \<Rightarrow> string option" where
  "read_local_bdaddr pkt =
     (if length pkt \<noteq> 13 \<or> pkt ! 6 \<noteq> 0 then None
      else Some (tl (concat (map (\<lambda>b. CHR '':'' # hex2 b) (rev (drop 7 pkt))))))"


text \<open>\<open>read_bdaddrs\<close>: what the adapters answer; those that cannot be opened or read are left out.\<close>

definition liste2 :: "u8 list option list \<Rightarrow> string list" where
  "liste2 pkts = List.map_filter (\<lambda>p. Option.bind p read_local_bdaddr) pkts @ [''Custom bdaddr'']"

definition liste3 :: "string list" where
  "liste3 = [''0x054c - 0x0268'', ''0x03eb - 0x2042'']"

section \<open>The request\<close>

datatype dialog =
    Not_connected int int | Set_failed | Set_successful | Nothing_changed
  | Select_device | Select_bdaddr | Invalid_bdaddr string | Select_ids
  | Invalid_vendor string | Invalid_product string | Confirm string string string

record window =
  found :: bool                         \<comment> \<open>\<open>usb.core.find\<close> finds the device\<close>
  read_reply :: "u8 list option"        \<comment> \<open>\<open>None\<close>: \<open>ctrl_transfer\<close> raises an exception, as in the cont\<close>
  set_reply :: "int option"
  confirmed :: bool
  made :: "(u8 \<times> u8 \<times> u16 \<times> u8 list) list"   \<comment> \<open>the requests that set something\<close>
  shown :: "dialog list"

definition dialog :: "dialog \<Rightarrow> (window, unit) process" where
  "dialog d s = Some (Inr (), s\<lparr>shown := shown s @ [d]\<rparr>)"

text \<open>An exception that is not caught ends the callback.\<close>

definition uncaught :: "(window, 'x) process" where
  "uncaught = exit 1"

text \<open>The items of an \<open>array('B')\<close>; a number that is not a byte raises an exception.\<close>

definition to_bytes :: "int list \<Rightarrow> u8 list option" where
  "to_bytes ns = (if list_all (\<lambda>n. 0 \<le> n \<and> n < 256) ns then Some (map word_of_int ns) else None)"

text \<open>The kernel driver is detached if there is one; that has no effect here.\<close>

definition usb_set :: "int \<Rightarrow> int \<Rightarrow> int \<Rightarrow> int \<Rightarrow> int list \<Rightarrow> (window, unit) process" where
  "usb_set didVendor didProduct idVendor idProduct bdaddr s =
     (if \<not> found s then dialog (Not_connected didVendor didProduct) s
      else (case read_reply s of
        None \<Rightarrow> dialog (Not_connected didVendor didProduct) s
      | Some read \<Rightarrow>
          (case to_bytes ([idVendor mod 256, idVendor div 256, idProduct mod 256, idProduct div 256] @ bdaddr) of
             None \<Rightarrow> uncaught s
           | Some myArray \<Rightarrow>
               if myArray \<noteq> read then
                 (let s = s\<lparr>made := made s @ [(0x21, 0x09, 0xdead, myArray)]\<rparr>
                  in case set_reply s of
                       None \<Rightarrow> uncaught s
                     | Some ret1 \<Rightarrow> if ret1 \<noteq> 10 then dialog Set_failed s else dialog Set_successful s)
               else dialog Nothing_changed s)))"

section \<open>The button\<close>

text \<open>
  \<open>apply\<close>: the selections of the three lists and the text of the entry. The parts of the address are the
  characters between the separators, which may be anything.
\<close>

definition parse_bdaddr :: "string \<Rightarrow> int list option" where
  "parse_bdaddr s = those (map (\<lambda>i. py_int16 (slice i (i + 2) s)) [0, 3, 6, 9, 12, 15])"

definition apply_devices :: "string option \<Rightarrow> (int \<times> int \<Rightarrow> (window, unit) process) \<Rightarrow> (window, unit) process" where
  "apply_devices sel1 cont =
     (case sel1 of
        None \<Rightarrow> dialog Select_device
      | Some e \<Rightarrow>
          (case (py_int16 (slice 10 16 e), py_int16 (slice 30 36 e)) of
             (Some dvid, Some dpid) \<Rightarrow> cont (dvid, dpid)
           | _ \<Rightarrow> uncaught))"

definition apply_bdaddr :: "string option \<Rightarrow> string \<Rightarrow> (string \<times> int list \<Rightarrow> (window, unit) process) \<Rightarrow> (window, unit) process" where
  "apply_bdaddr sel2 entry1 cont =
     (case sel2 of
        None \<Rightarrow> dialog Select_bdaddr
      | Some b \<Rightarrow>
          (let bdaddr = (if b = ''Custom bdaddr'' then entry1 else b)
           in if b = ''Custom bdaddr'' \<and> entry1 = ''00:00:00:00:00:00'' then dialog (Invalid_bdaddr bdaddr)
              else if length bdaddr \<noteq> 17 then dialog (Invalid_bdaddr bdaddr)
              else (case parse_bdaddr bdaddr of
                 None \<Rightarrow> dialog (Invalid_bdaddr bdaddr)
               | Some addr \<Rightarrow> cont (bdaddr, addr))))"

definition apply_ids :: "string option \<Rightarrow> (string \<times> string \<times> int \<times> int \<Rightarrow> (window, unit) process) \<Rightarrow> (window, unit) process" where
  "apply_ids sel3 cont =
     (case sel3 of
        None \<Rightarrow> dialog Select_ids
      | Some e \<Rightarrow>
          (let vendorid = slice 0 6 e; productid = slice 9 16 e
           in case py_int16 vendorid of
                None \<Rightarrow> dialog (Invalid_vendor vendorid)
              | Some vid \<Rightarrow>
                  (case py_int16 productid of
                     None \<Rightarrow> dialog (Invalid_product productid)
                   | Some pid \<Rightarrow>
                       if \<not> (vid = 0x054c \<and> pid = 0x0268 \<or> vid = 0x03eb \<and> pid = 0x2042)
                       then dialog (Invalid_product productid)
                       else cont (vendorid, productid, vid, pid))))"

definition apply_button :: "string option \<Rightarrow> string option \<Rightarrow> string option \<Rightarrow> string \<Rightarrow> (window, unit) process" where
  "apply_button sel1 sel2 sel3 entry1 =
     apply_devices sel1 (\<lambda>(dvid, dpid).
     apply_bdaddr sel2 entry1 (\<lambda>(bdaddr, addr).
     apply_ids sel3 (\<lambda>(vendorid, productid, vid, pid).
     andthen (dialog (Confirm vendorid productid bdaddr)) (\<lambda>_ s.
       if \<not> confirmed s then result () s else usb_set dvid dpid vid pid addr s))))"

section \<open>What is read is what was written\<close>

lemma hex_chars:
  "\<forall>k < 16. hexval (''0123456789ABCDEF'' ! k) = Some k"
  "\<forall>c \<in> set ''0123456789ABCDEF''. \<not> is_space c \<and> c \<noteq> CHR ''-'' \<and> c \<noteq> CHR ''+'' \<and> c \<noteq> CHR ''x'' \<and> c \<noteq> CHR ''X''"
  by code_simp+

lemma py_int16_hex2: "py_int16 (hex2 b) = Some (uint b)"
proof -
  let ?c = "''0123456789ABCDEF'' ! (unat b div 16)" and ?d = "''0123456789ABCDEF'' ! (unat b mod 16)"
  have less: "unat b div 16 < 16" "unat b mod 16 < 16"
    using unsigned_less [of b, where ?'a = nat] by simp_all
  then have v: "hexval ?c = Some (unat b div 16)" "hexval ?d = Some (unat b mod 16)"
    using hex_chars(1) by blast+
  have "?c \<in> set ''0123456789ABCDEF''" "?d \<in> set ''0123456789ABCDEF''"
    using less by (intro nth_mem; simp)+
  then have "\<not> is_space ?c" "?c \<noteq> CHR ''-''" "?c \<noteq> CHR ''+''"
    using hex_chars(2) by blast+
  moreover have "int (hex_value (hex2 b)) = uint b"
    using v by (simp add: hex_value_def hex2_def)
  ultimately show ?thesis
    using v by (simp add: py_int16_def hex2_def is_hex_def Let_def)
qed


lemma local_bdaddr:
  assumes "read_local_bdaddr pkt = Some a"
  shows "length (drop 7 pkt) = 6" "length a = 17" "parse_bdaddr a = Some (map uint (rev (drop 7 pkt)))"
proof -
  have len: "length (drop 7 pkt) = 6"
    and a: "a = tl (concat (map (\<lambda>b. CHR '':'' # hex2 b) (rev (drop 7 pkt))))"
    using assms by (auto simp: read_local_bdaddr_def split: if_splits)
  have six: "\<exists>b0 b1 b2 b3 b4 b5. bs = [b0, b1, b2, b3, b4, b5]" if "length bs = 6" for bs :: "u8 list"
    using that by (auto simp: numeral_eq_Suc length_Suc_conv)
  obtain b0 b1 b2 b3 b4 b5 where bs: "drop 7 pkt = [b0, b1, b2, b3, b4, b5]"
    using six [OF len] by blast
  have two: "\<exists>c d. hex2 b = [c, d]" for b
    by (simp add: hex2_def)
  obtain c0 d0 c1 d1 c2 d2 c3 d3 c4 d4 c5 d5 where h: "hex2 b0 = [c0, d0]" "hex2 b1 = [c1, d1]"
    "hex2 b2 = [c2, d2]" "hex2 b3 = [c3, d3]" "hex2 b4 = [c4, d4]" "hex2 b5 = [c5, d5]"
    using two by meson
  have "py_int16 [c0, d0] = Some (uint b0)" "py_int16 [c1, d1] = Some (uint b1)"
    "py_int16 [c2, d2] = Some (uint b2)" "py_int16 [c3, d3] = Some (uint b3)"
    "py_int16 [c4, d4] = Some (uint b4)" "py_int16 [c5, d5] = Some (uint b5)"
    using py_int16_hex2 [of b0] py_int16_hex2 [of b1] py_int16_hex2 [of b2] py_int16_hex2 [of b3]
      py_int16_hex2 [of b4] py_int16_hex2 [of b5] by (simp_all only: h)
  then show "parse_bdaddr a = Some (map uint (rev (drop 7 pkt)))"
    by (simp add: a bs h parse_bdaddr_def slice_def)
  show "length a = 17"
    by (simp add: a bs h)
  show "length (drop 7 pkt) = 6"
    by (rule len)
qed

text \<open>The entries of the lists for the known identifiers.\<close>

definition ids_entry :: "u16 \<Rightarrow> u16 \<Rightarrow> string" where
  "ids_entry vid pid = ''0x'' @ hex4 vid @ '' - 0x'' @ hex4 pid"

lemma known_ids_cases:
  assumes "known_ids v p"
  obtains "v = 0x054c" "p = 0x0268" | "v = 0x03eb" "p = 0x2042"
  using assms by (auto simp: known_ids_def)

lemma list_entries: "ids_entry vid pid \<in> set liste3" if "known_ids vid pid"
  using that by (cases rule: known_ids_cases) (simp, code_simp)+

lemma element_parsed:
  assumes "known_ids v p"
  shows "py_int16 (slice 10 16 (element v p)) = Some (uint v)" "py_int16 (slice 30 36 (element v p)) = Some (uint p)"
    "py_int16 (slice 0 6 (ids_entry v p)) = Some (uint v)" "py_int16 (slice 9 16 (ids_entry v p)) = Some (uint p)"
  using assms by (cases rule: known_ids_cases; simp; code_simp)+

definition identity :: "u16 \<Rightarrow> u16 \<Rightarrow> u8 list \<Rightarrow> u8 list" where
  "identity vid pid addr = le16 vid @ le16 pid @ addr"

lemma to_bytes_append:
  "to_bytes (ns @ map uint bs) = map_option (\<lambda>l. l @ bs) (to_bytes ns)" for bs :: "u8 list"
proof -
  have "list_all (\<lambda>n. 0 \<le> n \<and> n < 256) (map uint bs)"
    using unsigned_less [where ?'b = 8 and ?'a = int] by (auto simp: list_all_iff)
  moreover have "map (word_of_int \<circ> uint) bs = bs"
    by (induction bs) simp_all
  ultimately show ?thesis
    by (simp add: to_bytes_def)
qed

lemma to_bytes_identity:
  assumes "known_ids vid pid"
  shows "to_bytes ([uint vid mod 256, uint vid div 256, uint pid mod 256, uint pid div 256] @ map uint addr) =
    Some (identity vid pid addr)"
proof -
  have "to_bytes [uint vid mod 256, uint vid div 256, uint pid mod 256, uint pid div 256] = Some (le16 vid @ le16 pid)"
    using assms by (cases rule: known_ids_cases) (simp_all add: to_bytes_def le16_def)
  then show ?thesis
    unfolding to_bytes_append by (simp add: identity_def)
qed

lemma apply_run:
  assumes "known_ids v p" "known_ids vid pid" "read_local_bdaddr pkt = Some a" "confirmed w"
  shows "apply_button (Some (element v p)) (Some a) (Some (ids_entry vid pid)) e w =
    usb_set (uint v) (uint p) (uint vid) (uint pid) (map uint (rev (drop 7 pkt)))
      (w\<lparr>shown := shown w @ [Confirm (slice 0 6 (ids_entry vid pid)) (slice 9 16 (ids_entry vid pid)) a]\<rparr>)"
proof -
  have "a \<noteq> ''Custom bdaddr''"
    using local_bdaddr(2) [OF assms(3)] by auto
  moreover have "uint vid = 0x054c \<and> uint pid = 0x0268 \<or> uint vid = 0x03eb \<and> uint pid = 0x2042"
    using assms(2) by (cases rule: known_ids_cases) simp_all
  ultimately show ?thesis
    using assms(4) local_bdaddr(2,3) [OF assms(3)] element_parsed(1,2) [OF assms(1)] element_parsed(3,4) [OF assms(2)]
    by (auto simp: apply_button_def apply_devices_def apply_bdaddr_def apply_ids_def andthen_def dialog_def Let_def)
qed


text \<open>The button of the customizer. With a device from the list, the address of a local adapter and one
  of the two pairs of identifiers selected and the question confirmed, the program sets exactly the
  identity of two identifiers, low byte first, and the address, last byte of the adapter's answer first;
  it does so unless the device already has this identity, and says which was the case.\<close>

theorem customizer_sets:
  assumes "known_ids v p" "known_ids vid pid" "read_local_bdaddr pkt = Some a"
    and "confirmed w" "found w" "read_reply w = Some r" "set_reply w = Some 10"
  shows "\<exists>w' d. apply_button (Some (element v p)) (Some a) (Some (ids_entry vid pid)) e w = Some (Inr (), w') \<and>
    shown w' = shown w @ [d, if r = identity vid pid (rev (drop 7 pkt)) then Nothing_changed else Set_successful] \<and>
    made w' = made w @ (if r = identity vid pid (rev (drop 7 pkt)) then []
      else [(0x21, 0x09, 0xdead, identity vid pid (rev (drop 7 pkt)))])"
  using to_bytes_identity [OF assms(2)] assms(4-7)
  unfolding apply_run [OF assms(1-4)] by (auto simp: usb_set_def dialog_def)

definition some_window :: window where
  "some_window = \<lparr>found = True, read_reply = Some [0xEB, 0x03, 0x42, 0x20, 0, 0, 0, 0, 0, 0], set_reply = Some 10, confirmed = True,
     made = [], shown = []\<rparr>"

definition adapter :: "u8 list" where
  "adapter = [4, 14, 10, 1, 9, 16, 0, 0x60, 0x50, 0x40, 0x30, 0x20, 0x10]"

lemma adapter_address: "read_local_bdaddr adapter = Some ''10:20:30:40:50:60''"
  by code_simp

theorem customizer_sets_witness:
  "\<exists>w. apply_button (Some ''VendorId: 0x03eb - ProductId: 0x2042'') (Some ''10:20:30:40:50:60'')
      (Some ''0x054c - 0x0268'') [] some_window = Some (Inr (), w) \<and>
    made w = [(0x21, 0x09, 0xdead, [0x4c, 0x05, 0x68, 0x02, 0x10, 0x20, 0x30, 0x40, 0x50, 0x60])]"
proof -
  have e: "element 0x03eb 0x2042 = ''VendorId: 0x03eb - ProductId: 0x2042''" "ids_entry 0x054c 0x0268 = ''0x054c - 0x0268''"
    by code_simp+
  have "identity 0x054c 0x0268 (rev (drop 7 adapter)) = [0x4c, 0x05, 0x68, 0x02, 0x10, 0x20, 0x30, 0x40, 0x50, 0x60]"
    by (simp add: identity_def adapter_def le16_def)
  moreover have "known_ids 0x03eb 0x2042" "known_ids 0x054c 0x0268"
    by (simp_all add: known_ids_def)
  ultimately show ?thesis
    using customizer_sets [OF _ _ adapter_address, of "0x03eb" "0x2042" "0x054c" "0x0268" some_window "[0xEB, 0x03, 0x42, 0x20, 0, 0, 0, 0, 0, 0]" "[]"]
    by (auto simp: e some_window_def)
qed

section \<open>With the emulator\<close>

text \<open>C6: programming. When the emulator has handled the request the customizer makes and has been started
  again, it answers the next run of the customizer with the bytes that were set: the same selection then
  changes nothing.\<close>

theorem customizer_roundtrip:
  assumes tool: "known_ids v p" "known_ids vid pid" "read_local_bdaddr pkt = Some a" "confirmed w"
      "apply_button (Some (element v p)) (Some a) (Some (ids_entry vid pid)) e w = Some (Inr (), w')" "made w = []"
    and request: "(rt, rq, value, msg) \<in> set (made w')"
    and device: "requests rt rq value s" "req_length s = of_nat (length msg)" "inp s UEDATX = msg"
      "length (last_set_data s) = 64" "emu_UnhandledControlRequest s = Some t" "USB_DeviceState t \<noteq> Unattached"
    and start: "ee_VendorId r = ee_VendorId t" "ee_ProductId r = ee_ProductId t"
      "ee_DeviceBdaddr r = ee_DeviceBdaddr t"
      "dd u = dd (readEepromIdentifiers r)" "VolatileDeviceBdaddr u = VolatileDeviceBdaddr (readEepromIdentifiers r)"
    and later: "requests 0xA1 0x01 0xDEAD u" "req_length u = 10" "asks 10 u"
  shows "\<exists>x l. emu_UnhandledControlRequest u = Some x \<and> out x = out u @ l \<and>
    (\<forall>z. read_reply z = Some (concat (sent [] l)) \<and> found z \<and> confirmed z \<longrightarrow>
      (\<exists>z' d. apply_button (Some (element vid pid)) (Some a) (Some (ids_entry vid pid)) e z = Some (Inr (), z') \<and>
        shown z' = shown z @ [d, Nothing_changed] \<and> made z' = made z))"
proof -
  let ?m = "identity vid pid (rev (drop 7 pkt))"
  note bytes = to_bytes_identity [OF tool(2), of "rev (drop 7 pkt)"]
  have "set (made w') \<subseteq> {(0x21, 0x09, 0xdead, ?m)}"
    using tool(5,6) bytes unfolding apply_run [OF tool(1-4)]
    by (auto simp: usb_set_def dialog_def uncaught_def exit_def Let_def split: if_splits option.splits)
  then have msg: "rt = 0x21" "rq = 9" "value = 0xdead" "msg = ?m"
    using request by auto
  have len: "length ?m = 10"
    using local_bdaddr(1) [OF tool(3)] by (simp add: identity_def)
  have ids: "take 2 ?m \<noteq> [0xFF, 0xFF]" "take 2 (drop 2 ?m) \<noteq> [0xFF, 0xFF]"
    using known_ids_cases [OF tool(2)] by (cases; simp add: identity_def le16_def)+
  have read: "asks (unat (req_length u)) u" "req_length u \<noteq> 0" "req_length u \<le> 10"
    using later by simp_all
  have "(\<exists>x l. emu_UnhandledControlRequest u = Some x \<and> out x = out u @ l \<and>
      concat (sent [] l) = take (unat (req_length u)) (take 10 ?m)) \<and>
    take 4 (drop 8 (device_bytes (dd u))) = take 4 ?m"
    using device msg len ids start later(1) read
    by (intro identity_read [where s = s and t = t and rest = "[]" and r = r]) simp_all
  then obtain x l where x: "emu_UnhandledControlRequest u = Some x" "out x = out u @ l" "concat (sent [] l) = ?m"
    using later(2) len by auto
  have "\<exists>z' d. apply_button (Some (element vid pid)) (Some a) (Some (ids_entry vid pid)) e z = Some (Inr (), z') \<and>
      shown z' = shown z @ [d, Nothing_changed] \<and> made z' = made z"
    if "read_reply z = Some ?m" "found z" "confirmed z" for z
    using that bytes unfolding apply_run [OF tool(2,2,3) that(3)] by (auto simp: usb_set_def dialog_def)
  with x show ?thesis
    by auto
qed


definition get_ten :: "emu \<Rightarrow> emu" where
  "get_ten = receiving \<lparr>bmRequestType = 0xA1, bRequest = 1, wValue = 0xDEAD, wIndex = 0, wLength = 10\<rparr> []"

theorem customizer_roundtrip_witness:
  "\<exists>w t l. apply_button (Some ''VendorId: 0x03eb - ProductId: 0x2042'') (Some ''10:20:30:40:50:60'')
      (Some ''0x054c - 0x0268'') [] some_window = Some (Inr (), w) \<and>
    emu_UnhandledControlRequest set_dead = Some t \<and>
    (\<exists>z' d. apply_button (Some ''VendorId: 0x054c - ProductId: 0x0268'') (Some ''10:20:30:40:50:60'')
      (Some ''0x054c - 0x0268'') [] (some_window\<lparr>read_reply := Some (concat (sent [] l))\<rparr>) = Some (Inr (), z') \<and>
      shown z' = [d, Nothing_changed])"
proof -
  have e: "element 0x03eb 0x2042 = ''VendorId: 0x03eb - ProductId: 0x2042''"
    "element 0x054c 0x0268 = ''VendorId: 0x054c - ProductId: 0x0268''" "ids_entry 0x054c 0x0268 = ''0x054c - 0x0268''"
    by code_simp+
  let ?m = "identity 0x054c 0x0268 (rev (drop 7 adapter))"
  have m: "?m = [0x4c, 0x05, 0x68, 0x02, 0x10, 0x20, 0x30, 0x40, 0x50, 0x60]"
    by (simp add: identity_def adapter_def le16_def)
  have k: "known_ids 0x03eb 0x2042" "known_ids 0x054c 0x0268"
    by (simp_all add: known_ids_def)
  have w: "confirmed some_window" "made some_window = []" "found some_window"
    "read_reply some_window = Some [0xEB, 0x03, 0x42, 0x20, 0, 0, 0, 0, 0, 0]" "set_reply some_window = Some 10"
    by (simp_all add: some_window_def)
  have "\<exists>w'. apply_button (Some (element 0x03eb 0x2042)) (Some ''10:20:30:40:50:60'') (Some (ids_entry 0x054c 0x0268)) []
      some_window = Some (Inr (), w') \<and> made w' = [(0x21, 0x09, 0xdead, ?m)]"
    using to_bytes_identity [OF k(2), of "rev (drop 7 adapter)"] w unfolding apply_run [OF k adapter_address w(1)]
    by (auto simp: usb_set_def dialog_def m)
  then obtain w' where w': "apply_button (Some (element 0x03eb 0x2042)) (Some ''10:20:30:40:50:60'')
      (Some (ids_entry 0x054c 0x0268)) [] some_window = Some (Inr (), w')" "made w' = [(0x21, 0x09, 0xdead, ?m)]"
    by blast
  obtain t where t: "emu_UnhandledControlRequest set_dead = Some t" "USB_DeviceState t = Configured"
    using set_dead_run by blast
  let ?u = "get_ten (readEepromIdentifiers t)"
  have s: "requests 0x21 0x09 0xDEAD set_dead" "req_length set_dead = of_nat (length ?m)"
    "inp set_dead UEDATX = ?m" "length (last_set_data set_dead) = 64"
    unfolding m by (simp_all add: set_dead_def requests_def receiving_def idle_emu_def emu_start_def lufa.extend_def
        req_length_def)
  have u: "requests 0xA1 0x01 0xDEAD ?u" "req_length ?u = 10" "asks 10 ?u"
    "dd ?u = dd (readEepromIdentifiers t)" "VolatileDeviceBdaddr ?u = VolatileDeviceBdaddr (readEepromIdentifiers t)"
    by (simp_all add: get_ten_def requests_def req_length_def answered_host_defs
        readEepromIdentifiers_def Let_def)
  have r: "(0x21, 0x09, 0xDEAD, ?m) \<in> set (made w')"
    by (simp add: w')
  obtain l where "\<forall>z. read_reply z = Some (concat (sent [] l)) \<and> found z \<and> confirmed z \<longrightarrow>
      (\<exists>z' d. apply_button (Some (element 0x054c 0x0268)) (Some ''10:20:30:40:50:60'') (Some (ids_entry 0x054c 0x0268)) [] z
        = Some (Inr (), z') \<and> shown z' = shown z @ [d, Nothing_changed] \<and> made z' = made z)"
    using customizer_roundtrip [OF k adapter_address w(1) w'(1) w(2) r s t(1) _ refl refl refl u(4,5,1-3)] t(2) by auto
  from this [rule_format, of "some_window\<lparr>read_reply := Some (concat (sent [] l))\<rparr>"]
  have "\<exists>z' d. apply_button (Some (element 0x054c 0x0268)) (Some ''10:20:30:40:50:60'') (Some (ids_entry 0x054c 0x0268)) []
      (some_window\<lparr>read_reply := Some (concat (sent [] l))\<rparr>) = Some (Inr (), z') \<and> shown z' = [d, Nothing_changed]"
    by (simp add: some_window_def) blast
  then show ?thesis
    using w'(1) t(1) unfolding e by blast
qed

end
