(* ===== verification/SixProxy.thy ===== *)
theory SixProxy
  imports SixpairDescriptors
begin

text \<open>
  \<open>tools/sixproxy/sixproxy.c\<close>: a proxy between a Bluetooth controller and a console. It forwards the ACL
  packets of each side to the other and moves the values of the motion sensor and of the left stick out of
  the dead zone of the console.

  What BlueZ defines is a parameter: the record \<open>hci\<close> holds the functions and constants of
  \<open>bluetooth/hci.h\<close> and \<open>bluetooth.h\<close> the program uses. The host is little endian.
\<close>

record hci =
  acl_handle :: "u16 \<Rightarrow> u16"
  acl_handle_pack :: "u16 \<Rightarrow> u16 \<Rightarrow> u16"
  htobs :: "u16 \<Rightarrow> u16"
  btohs :: "u16 \<Rightarrow> u16"
  HCI_ACLDATA_PKT :: u8
  ACL_START :: u16

text \<open>The correction parameters (\<open>int\<close>: a key moves them by one, they stay far from the limits of the type).\<close>

record axis_param =
  sixhc :: int
  sixhr :: int
  sixvc :: int
  sixvr :: int
  stkhc :: int
  stkhr :: int
  stkvc :: int
  stkvr :: int

section \<open>The dead zone\<close>

text \<open>
  The correction of one value, a 16-bit \<open>short\<close>: \<open>val += r\<close> and \<open>val -= r\<close> are computed as \<open>int\<close> and
  truncated; the second test sees the result of the first.
\<close>

definition correct :: "int \<Rightarrow> int \<Rightarrow> int \<Rightarrow> int \<Rightarrow> 16 word \<Rightarrow> 16 word" where
  "correct lo hi c r val =
     (let val = (if sint val \<ge> c
                 then (let val = word_of_int (sint val + r) in if sint val > hi then word_of_int hi else val)
                 else val)
      in if sint val < c
         then (let val = word_of_int (sint val - r) in if sint val < lo then word_of_int lo else val)
         else val)"

definition read_be16 :: "nat \<Rightarrow> u8 list \<Rightarrow> 16 word" where
  "read_be16 i data = push_bit 8 (ucast (data ! i)) OR ucast (data ! (i + 1))"

definition write_be16 :: "nat \<Rightarrow> 16 word \<Rightarrow> u8 list \<Rightarrow> u8 list" where
  "write_be16 i val data = data[i := ucast (drop_bit 8 val), i + 1 := ucast val]"

definition kill_deadzone :: "axis_param \<Rightarrow> u8 list \<Rightarrow> u8 list" where
  "kill_deadzone p data =
     (let data = write_be16 46 (correct 0x100 0x2ff (sixhc p) (sixhr p) (read_be16 46 data)) data;
          data = write_be16 48 (correct 0x100 0x2ff (sixvc p) (sixvr p) (read_be16 48 data)) data;
          data = data[11 := ucast (correct 0 0xff (stkhc p) (stkhr p) (ucast (data ! 11)))];
          data = data[12 := ucast (correct 0 0xff (stkvc p) (stkvr p) (ucast (data ! 12)))]
      in data)"

section \<open>Packets\<close>

text \<open>
  \<open>writev\<close> on the HCI socket writes a packet, is interrupted (\<open>EAGAIN\<close>, \<open>EINTR\<close>), or fails; its
  results are an input. \<open>None\<close>: the loop still waits when the input ends.
\<close>

datatype writev_result = Written | Interrupted | Failed

fun writev_loop :: "writev_result list \<Rightarrow> (bool \<times> writev_result list) option" where
  "writev_loop [] = None"
| "writev_loop (Written # rs) = Some (True, rs)"
| "writev_loop (Interrupted # rs) = writev_loop rs"
| "writev_loop (Failed # rs) = Some (False, rs)"

definition acl_packet :: "hci \<Rightarrow> u16 \<Rightarrow> u8 \<Rightarrow> u8 list \<Rightarrow> u8 list" where
  "acl_packet H handle plen data =
     [HCI_ACLDATA_PKT H] @ le16 (htobs H (acl_handle_pack H handle (ACL_START H))) @ le16 (ucast plen) @
     (if plen \<noteq> 0 then take (unat plen) data else [])"

text \<open>The result, the packet if one was written, and the results of \<open>writev\<close> that are left.\<close>

definition send_acl_data ::
    "hci \<Rightarrow> u16 \<Rightarrow> u8 \<Rightarrow> u8 list \<Rightarrow> writev_result list \<Rightarrow> (int \<times> u8 list list \<times> writev_result list) option" where
  "send_acl_data H handle plen data rs = do {
     (ok, rs) \<leftarrow> writev_loop rs;
     Some (if ok then (0, [acl_packet H handle plen data], rs) else (-1, [], rs)) }"

text \<open>
  \<open>None\<close>: fewer than five bytes were read (or the read failed), so that the size given to \<open>memcpy\<close> is
  negative.
\<close>

definition receive_acl_data :: "hci \<Rightarrow> u8 list \<Rightarrow> (u16 \<times> u8 list) option" where
  "receive_acl_data H buf =
     (if length buf < 5 then None
      else Some (acl_handle H (btohs H (word_le [buf ! 1, buf ! 2])), drop 5 buf))"

section \<open>The keys\<close>

definition user_interface :: "char option \<Rightarrow> axis_param \<Rightarrow> axis_param" where
  "user_interface key p = (case key of
       None \<Rightarrow> p
     | Some k \<Rightarrow>
         if k = CHR ''a'' then p\<lparr>sixhc := sixhc p + 1\<rparr>
         else if k = CHR ''z'' then p\<lparr>sixhr := sixhr p + 1\<rparr>
         else if k = CHR ''e'' then p\<lparr>sixvc := sixvc p + 1\<rparr>
         else if k = CHR ''r'' then p\<lparr>sixvr := sixvr p + 1\<rparr>
         else if k = CHR ''t'' then p\<lparr>stkhc := stkhc p + 1\<rparr>
         else if k = CHR ''y'' then p\<lparr>stkhr := stkhr p + 1\<rparr>
         else if k = CHR ''u'' then p\<lparr>stkvc := stkvc p + 1\<rparr>
         else if k = CHR ''i'' then p\<lparr>stkvr := stkvr p + 1\<rparr>
         else if k = CHR ''q'' then p\<lparr>sixhc := sixhc p - 1\<rparr>
         else if k = CHR ''s'' then p\<lparr>sixhr := sixhr p - 1\<rparr>
         else if k = CHR ''d'' then p\<lparr>sixvc := sixvc p - 1\<rparr>
         else if k = CHR ''f'' then p\<lparr>sixvr := sixvr p - 1\<rparr>
         else if k = CHR ''g'' then p\<lparr>stkhc := stkhc p - 1\<rparr>
         else if k = CHR ''h'' then p\<lparr>stkhr := stkhr p - 1\<rparr>
         else if k = CHR ''j'' then p\<lparr>stkvc := stkvc p - 1\<rparr>
         else if k = CHR ''k'' then p\<lparr>stkvr := stkvr p - 1\<rparr>
         else p)"


section \<open>The main program\<close>

record proxy =
  param :: axis_param
  hsix :: u16
  hps3 :: u16
  handle :: u16             \<comment> \<open>of the packet received last\<close>
  packet :: "u8 list"       \<comment> \<open>its data, the first \<open>plen\<close> bytes of \<open>buf\<close>\<close>
  wire :: "u8 list list"    \<comment> \<open>the packets written\<close>
  results :: "writev_result list"

definition send_packet :: "hci \<Rightarrow> u16 \<Rightarrow> proxy \<Rightarrow> proxy option" where
  "send_packet H h s = do {
     (res, ps, rs) \<leftarrow> send_acl_data H h (of_nat (length (packet s))) (packet s) (results s);
     Some (s\<lparr>wire := wire s @ ps, results := rs\<rparr>) }"

text \<open>The body of the loop up to the next packet.\<close>

definition forward :: "hci \<Rightarrow> proxy \<Rightarrow> proxy option" where
  "forward H s = do {
     s \<leftarrow> (if handle s = hsix s then do {
             let s = (if length (packet s) = 54 then s\<lparr>packet := kill_deadzone (param s) (packet s)\<rparr> else s);
             send_packet H (hps3 s) s }
           else Some s);
     if handle s = hps3 s then send_packet H (hsix s) s else Some s }"

text \<open>
  The loop, on the packets and keys that arrive: it waits for the next packet when there is no further
  one.
\<close>

fun proxy_loop :: "hci \<Rightarrow> (u8 list \<times> char option) list \<Rightarrow> proxy \<Rightarrow> proxy option" where
  "proxy_loop H [] s = forward H s"
| "proxy_loop H ((buf, key) # input) s = do {
     s \<leftarrow> forward H s;
     (h, data) \<leftarrow> receive_acl_data H buf;
     proxy_loop H input (s\<lparr>handle := h, packet := data, param := user_interface key (param s)\<rparr>) }"

definition start_param :: axis_param where
  "start_param = \<lparr>sixhc = 0x203, sixhr = 7, sixvc = 0x205, sixvr = 10,
     stkhc = 0x80, stkhr = 20, stkvc = 0x80, stkvr = 20\<rparr>"

text \<open>\<open>ps3\<close> is the handle \<open>hci_create_connection\<close> gives to the console.\<close>

definition proxy_main ::
    "hci \<Rightarrow> u16 \<Rightarrow> u8 list \<Rightarrow> (u8 list \<times> char option) list \<Rightarrow> writev_result list \<Rightarrow> proxy option" where
  "proxy_main H ps3 first input rs = do {
     (six, data) \<leftarrow> receive_acl_data H first;
     proxy_loop H input \<lparr>param = start_param, hsix = six, hps3 = ps3, handle = six, packet = data,
       wire = [], results = rs\<rparr> }"


section \<open>The correction as a function of the value\<close>

definition corrected :: "int \<Rightarrow> int \<Rightarrow> int \<Rightarrow> int \<Rightarrow> int \<Rightarrow> int" where
  "corrected lo hi c r v = (if v \<ge> c then min hi (v + r) else max lo (v - r))"

text \<open>Parameters with which neither the \<open>short\<close> nor the second test interferes.\<close>

definition sane :: "int \<Rightarrow> int \<Rightarrow> int \<Rightarrow> int \<Rightarrow> bool" where
  "sane lo hi c r \<longleftrightarrow> 0 \<le> lo \<and> lo \<le> c \<and> c \<le> hi \<and> hi \<le> 0x2ff \<and> 0 \<le> r \<and> r < 0x4000"

lemma sint_short: "- 32768 \<le> i \<Longrightarrow> i < 32768 \<Longrightarrow> sint (word_of_int i :: 16 word) = i"
  by (simp add: sint_sbintrunc' signed_take_bit_int_eq_self)

lemma correct_eq:
  assumes "sane lo hi c r" "0 \<le> sint v" "sint v < 0x4000"
  shows "sint (correct lo hi c r v) = corrected lo hi c r (sint v)"
proof -
  have "sint (v + word_of_int r) = sint v + r" "sint (v - word_of_int r) = sint v - r"
    using assms sint_short [of "sint v + r"] sint_short [of "sint v - r"] by (simp_all add: sane_def)
  moreover have "sint (word_of_int lo :: 16 word) = lo" "sint (word_of_int hi :: 16 word) = hi"
    using assms sint_short [of lo] sint_short [of hi] by (simp_all add: sane_def)
  ultimately show ?thesis
    using assms by (auto simp: correct_def corrected_def sane_def Let_def min_def max_def)
qed

text \<open>A value in range and not closer to the centre than the radius, except at a limit.\<close>

definition cleared :: "int \<Rightarrow> int \<Rightarrow> int \<Rightarrow> int \<Rightarrow> int \<Rightarrow> bool" where
  "cleared lo hi c r x \<longleftrightarrow> lo \<le> x \<and> x \<le> hi \<and> (min hi (c + r) \<le> x \<or> x \<le> max lo (c - r))"

lemma corrected_cleared: "sane lo hi c r \<Longrightarrow> cleared lo hi c r (corrected lo hi c r v)"
  by (auto simp: corrected_def sane_def cleared_def)

text \<open>The values of a report as numbers.\<close>

definition be16 :: "nat \<Rightarrow> u8 list \<Rightarrow> int" where
  "be16 i d = 256 * uint (d ! i) + uint (d ! (i + 1))"

lemma sint_small: "uint (v :: 16 word) < 32768 \<Longrightarrow> sint v = uint v"
  using sint_short [of "uint v"] uint_ge_0 [of v] by simp

lemma uint_read_be16: "uint (read_be16 i d) = be16 i d"
proof -
  have "push_bit 8 (ucast (d ! i)) AND ucast (d ! (i + 1)) = (0 :: 16 word)"
    by (rule bit_eqI) (auto simp: bit_and_iff bit_push_bit_iff bit_unsigned_iff dest: bit_imp_le_length)
  then have "read_be16 i d = push_bit 8 (ucast (d ! i)) + ucast (d ! (i + 1))"
    unfolding read_be16_def by (rule disjunctive_add_eq_or [symmetric])
  then have "read_be16 i d = of_int (be16 i d)"
    by (simp add: be16_def push_bit_eq_mult mult.commute)
  moreover have "be16 i d < 65536" "0 \<le> be16 i d"
    using uint_lt2p [of "d ! i"] uint_lt2p [of "d ! (i + 1)"] by (simp_all add: be16_def)
  ultimately show ?thesis by (simp add: uint_word_of_int)
qed


lemma be16_write: "i + 1 < length d \<Longrightarrow> be16 i (write_be16 i v d) = uint v"
proof -
  assume "i + 1 < length d"
  then have "be16 i (write_be16 i v d) = 256 * (uint v div 256 mod 256) + uint v mod 256"
    by (simp add: be16_def write_be16_def unsigned_ucast_eq take_bit_eq_mod uint_div drop_bit_eq_div)
  moreover have "uint v div 256 < 256" using uint_lt2p [of v] by simp
  moreover have "0 \<le> uint v div 256" by (simp add: pos_imp_zdiv_nonneg_iff)
  ultimately show ?thesis by (simp add: mod_pos_pos_trivial)
qed


lemma write_be16_length [simp]: "length (write_be16 i v d) = length d"
  by (simp add: write_be16_def)

lemma kill_deadzone_length [simp]: "length (kill_deadzone p d) = length d"
  by (simp add: kill_deadzone_def write_be16_def Let_def)

lemma uint_correct:
  assumes "sane lo hi c r" "0 \<le> sint v" "sint v < 0x4000"
  shows "uint (correct lo hi c r v) = corrected lo hi c r (sint v)"
proof -
  have "0 \<le> corrected lo hi c r (sint v)" "corrected lo hi c r (sint v) \<le> 0x2ff"
    using corrected_cleared [OF assms(1), of "sint v"] assms(1) by (simp_all add: cleared_def sane_def)
  then show ?thesis by (simp add: uint_sint correct_eq [OF assms] take_bit_int_eq_self)
qed

lemma correct_be16:
  assumes "sane 0x100 0x2ff c r" "be16 i d < 0x4000"
  shows "uint (correct 0x100 0x2ff c r (read_be16 i d)) = corrected 0x100 0x2ff c r (be16 i d)"
proof -
  have "sint (read_be16 i d) = be16 i d" "0 \<le> be16 i d"
    using assms(2) sint_small [of "read_be16 i d"] uint_ge_0 [of "read_be16 i d"] by (simp_all add: uint_read_be16)
  then show ?thesis using uint_correct [OF assms(1), of "read_be16 i d"] assms(2) by simp
qed

lemma correct_stick:
  assumes "sane 0 0xff c r"
  shows "uint (ucast (correct 0 0xff c r (ucast (x :: u8))) :: u8) = corrected 0 0xff c r (uint x)"
proof -
  have u: "uint (ucast x :: 16 word) = uint x" "uint x < 256"
    using uint_lt2p [of x] by (simp_all add: unsigned_ucast_eq take_bit_eq_mod)
  then have "sint (ucast x :: 16 word) = uint x" using sint_small [of "ucast x"] by simp
  then have "uint (correct 0 0xff c r (ucast x)) = corrected 0 0xff c r (uint x)"
    using uint_correct [OF assms, of "ucast x"] u(2) by simp
  moreover have "0 \<le> corrected 0 0xff c r (uint x)" "corrected 0 0xff c r (uint x) \<le> 255"
    using corrected_cleared [OF assms, of "uint x"] by (simp_all add: cleared_def)
  ultimately show ?thesis by (simp add: unsigned_ucast_eq take_bit_eq_mod)
qed

text \<open>C35: the correction of the dead zone. With sane parameters the tilt values (bytes 46 to 49, high byte
  first) and the left stick (bytes 11 and 12) of a report become the corrected values: at or above the
  centre the radius is added, below it is subtracted, limited to the range of the console; so the result
  is in range and not closer to the centre than the radius except at a limit. No other byte changes.\<close>

theorem deadzone_correction:
  assumes "50 \<le> length d"
    and "sane 0x100 0x2ff (sixhc p) (sixhr p)" "sane 0x100 0x2ff (sixvc p) (sixvr p)"
      "sane 0 0xff (stkhc p) (stkhr p)" "sane 0 0xff (stkvc p) (stkvr p)"
    and "be16 46 d < 0x4000" "be16 48 d < 0x4000"
  defines "e \<equiv> kill_deadzone p d"
  shows "be16 46 e = corrected 0x100 0x2ff (sixhc p) (sixhr p) (be16 46 d) \<and>
    be16 48 e = corrected 0x100 0x2ff (sixvc p) (sixvr p) (be16 48 d) \<and>
    uint (e ! 11) = corrected 0 0xff (stkhc p) (stkhr p) (uint (d ! 11)) \<and>
    uint (e ! 12) = corrected 0 0xff (stkvc p) (stkvr p) (uint (d ! 12)) \<and>
    cleared 0x100 0x2ff (sixhc p) (sixhr p) (be16 46 e) \<and> cleared 0x100 0x2ff (sixvc p) (sixvr p) (be16 48 e) \<and>
    cleared 0 0xff (stkhc p) (stkhr p) (uint (e ! 11)) \<and> cleared 0 0xff (stkvc p) (stkvr p) (uint (e ! 12)) \<and>
    (\<forall>i. i \<notin> {11, 12, 46, 47, 48, 49} \<longrightarrow> e ! i = d ! i)"
proof -
  let ?h = "correct 0x100 0x2ff (sixhc p) (sixhr p) (read_be16 46 d)"
  let ?v = "correct 0x100 0x2ff (sixvc p) (sixvr p) (read_be16 48 d)"
  have e: "e = (write_be16 48 ?v (write_be16 46 ?h d))
      [11 := ucast (correct 0 0xff (stkhc p) (stkhr p) (ucast (d ! 11))),
       12 := ucast (correct 0 0xff (stkvc p) (stkvr p) (ucast (d ! 12)))]"
    by (simp add: e_def kill_deadzone_def Let_def write_be16_def read_be16_def)
  have "be16 46 e = be16 46 (write_be16 46 ?h d)" "be16 48 e = be16 48 (write_be16 48 ?v (write_be16 46 ?h d))"
    by (simp_all add: e be16_def write_be16_def)
  then have six: "be16 46 e = uint ?h" "be16 48 e = uint ?v"
    using assms(1) by (simp_all add: be16_write)
  have stick: "e ! 11 = ucast (correct 0 0xff (stkhc p) (stkhr p) (ucast (d ! 11)))"
    "e ! 12 = ucast (correct 0 0xff (stkvc p) (stkvr p) (ucast (d ! 12)))"
    using assms(1) by (simp_all add: e write_be16_def)
  have "e ! i = d ! i" if "i \<notin> {11, 12, 46, 47, 48, 49}" for i
    using that by (simp add: e write_be16_def)
  then show ?thesis
    using assms(2-7) by (auto simp: six stick correct_be16 correct_stick corrected_cleared)
qed

theorem deadzone_correction_witness:
  "be16 46 (kill_deadzone start_param (replicate 54 2)) = 0x1fb"
proof -
  have "sane 0x100 0x2ff 0x203 7" "sane 0x100 0x2ff 0x205 10" "sane 0 0xff 0x80 20" by (simp_all add: sane_def)
  moreover have "be16 46 (replicate 54 2) = 0x202" "be16 48 (replicate 54 2) = 0x202" by (simp_all add: be16_def)
  ultimately show ?thesis
    using deadzone_correction [of "replicate 54 2" start_param]
    by (simp add: start_param_def corrected_def)
qed


section \<open>Forwarding\<close>

text \<open>
  What a proxy should do: a list of packets, each with its handle, its data and the parameters at that
  time, becomes the list of packets to send, with the handle of the receiver.
\<close>

fun forwards :: "u16 \<Rightarrow> u16 \<Rightarrow> (axis_param \<times> u16 \<times> u8 list) list \<Rightarrow> (u16 \<times> u8 list) list" where
  "forwards six ps3 [] = []"
| "forwards six ps3 ((p, h, d) # xs) =
     (if h = six then [(ps3, if length d = 54 then kill_deadzone p d else d)]
      else if h = ps3 then [(six, d)] else []) @ forwards six ps3 xs"

text \<open>The packets of an input with the parameters that hold when they are forwarded.\<close>

fun arrivals :: "hci \<Rightarrow> axis_param \<Rightarrow> (u8 list \<times> char option) list \<Rightarrow> (axis_param \<times> u16 \<times> u8 list) list" where
  "arrivals H p [] = []"
| "arrivals H p ((buf, key) # xs) =
     (user_interface key p, the (receive_acl_data H buf)) # arrivals H (user_interface key p) xs"

text \<open>What the program expects of the BlueZ functions, for connection handles of 12 bits.\<close>

definition bluez :: "hci \<Rightarrow> bool" where
  "bluez H \<longleftrightarrow> (\<forall>x. btohs H (htobs H x) = x) \<and>
     (\<forall>h f. h < 0x1000 \<longrightarrow> acl_handle H (acl_handle_pack H h f) = h)"

lemma packet_roundtrip:
  assumes "bluez H" "h < 0x1000" "length d \<le> 255"
  shows "receive_acl_data H (acl_packet H h (of_nat (length d)) d) = Some (h, d)"
proof -
  have n: "unat (of_nat (length d) :: u8) = length d"
    using assms(3) by (simp add: unat_of_nat take_bit_nat_eq_self)
  then have "(if (of_nat (length d) :: u8) \<noteq> 0 then take (unat (of_nat (length d) :: u8)) d else []) = d"
    by (metis length_0_conv take_all order_refl unat_0)
  then have pk: "acl_packet H h (of_nat (length d)) d =
      HCI_ACLDATA_PKT H # le16 (htobs H (acl_handle_pack H h (ACL_START H))) @ le16 (ucast (of_nat (length d) :: u8)) @ d"
    by (simp add: acl_packet_def)
  obtain a b where ab: "le16 (htobs H (acl_handle_pack H h (ACL_START H))) = [a, b]" by (simp add: le16_def)
  then have "word_le [a, b] = htobs H (acl_handle_pack H h (ACL_START H))" by (metis word_le_le16)
  then show ?thesis
    using assms(1,2) by (simp add: pk ab receive_acl_data_def bluez_def)
qed

lemma writev_works:
  assumes "Failed \<notin> set rs" "count_list rs Written = Suc n"
  obtains rs' where "writev_loop rs = Some (True, rs')" "Failed \<notin> set rs'" "count_list rs' Written = n"
  using assms by (induction rs rule: writev_loop.induct) auto

lemma send_packet_works:
  assumes "bluez H" "h < 0x1000" "length (packet s) \<le> 255"
    and "Failed \<notin> set (results s)" "count_list (results s) Written = Suc n"
  shows "\<exists>b rs. send_packet H h s = Some (s\<lparr>wire := wire s @ [b], results := rs\<rparr>) \<and>
    receive_acl_data H b = Some (h, packet s) \<and> Failed \<notin> set rs \<and> count_list rs Written = n"
proof -
  obtain rs where "writev_loop (results s) = Some (True, rs)" "Failed \<notin> set rs" "count_list rs Written = n"
    using writev_works [OF assms(4,5)] .
  with packet_roundtrip [OF assms(1-3)] show ?thesis
    by (intro exI [of _ "acl_packet H h (of_nat (length (packet s))) (packet s)"] exI [of _ rs])
      (simp add: send_packet_def send_acl_data_def)
qed

lemma forward_works:
  assumes "bluez H" "hsix s < 0x1000" "hps3 s < 0x1000" "hsix s \<noteq> hps3 s" "length (packet s) \<le> 255"
    and "Failed \<notin> set (results s)" "count_list (results s) Written \<ge> Suc n"
  shows "\<exists>bs rs d. forward H s = Some (s\<lparr>packet := d, wire := wire s @ bs, results := rs\<rparr>) \<and>
    map (receive_acl_data H) bs = map Some (forwards (hsix s) (hps3 s) [(param s, handle s, packet s)]) \<and>
    Failed \<notin> set rs \<and> n \<le> count_list rs Written"
proof -
  obtain m where m: "count_list (results s) Written = Suc m" "n \<le> m"
    using assms(7) by (cases "count_list (results s) Written") auto
  consider "handle s = hsix s" | "handle s \<noteq> hsix s" "handle s = hps3 s"
    | "handle s \<noteq> hsix s" "handle s \<noteq> hps3 s" by blast
  then show ?thesis
  proof cases
    case 1
    define d where "d = (if length (packet s) = 54 then kill_deadzone (param s) (packet s) else packet s)"
    have "length d \<le> 255" using assms(5) by (simp add: d_def)
    then obtain b rs where b: "send_packet H (hps3 s) (s\<lparr>packet := d\<rparr>) =
        Some (s\<lparr>packet := d, wire := wire s @ [b], results := rs\<rparr>)"
      "receive_acl_data H b = Some (hps3 s, d)" "Failed \<notin> set rs" "count_list rs Written = m"
      using send_packet_works [OF assms(1,3), of "s\<lparr>packet := d\<rparr>" m] assms(6) m(1) by auto
    have d: "(if length (packet s) = 54 then s\<lparr>packet := kill_deadzone (param s) (packet s)\<rparr> else s) =
        s\<lparr>packet := d\<rparr>" by (simp add: d_def)
    have "forward H s = Some (s\<lparr>packet := d, wire := wire s @ [b], results := rs\<rparr>)"
      unfolding forward_def Let_def d using 1 assms(4) b(1) by simp
    with b(2-4) 1 m(2) d_def show ?thesis
      by (intro exI [of _ "[b]"] exI [of _ rs] exI [of _ d]) simp
  next
    case 2
    then obtain b rs where "send_packet H (hsix s) s = Some (s\<lparr>wire := wire s @ [b], results := rs\<rparr>)"
      "receive_acl_data H b = Some (hsix s, packet s)" "Failed \<notin> set rs" "count_list rs Written = m"
      using send_packet_works [OF assms(1,2,5,6) m(1)] by auto
    then show ?thesis
      using 2 assms(4) m(2) by (intro exI [of _ "[b]"] exI [of _ rs] exI [of _ "packet s"]) (simp add: forward_def)
  next
    case 3
    then show ?thesis
      using assms(6,7)
      by (intro exI [of _ "[]"] exI [of _ "results s"] exI [of _ "packet s"]) (simp add: forward_def)
  qed
qed

lemma proxy_loop_works:
  assumes "bluez H" "six < 0x1000" "ps3 < 0x1000" "six \<noteq> ps3"
    and "hsix s = six" "hps3 s = ps3" "length (packet s) \<le> 255"
    and "\<forall>(buf, key) \<in> set input. 5 \<le> length buf \<and> length buf \<le> 260"
    and "Failed \<notin> set (results s)" "length input < count_list (results s) Written"
  shows "\<exists>t bs. proxy_loop H input s = Some t \<and> wire t = wire s @ bs \<and>
    map (receive_acl_data H) bs =
      map Some (forwards six ps3 ((param s, handle s, packet s) # arrivals H (param s) input))"
  using assms
proof (induction input arbitrary: s)
  case Nil
  obtain bs rs d where "forward H s = Some (s\<lparr>packet := d, wire := wire s @ bs, results := rs\<rparr>)"
    "map (receive_acl_data H) bs = map Some (forwards (hsix s) (hps3 s) [(param s, handle s, packet s)])"
    using forward_works [of H s 0] Nil.prems by fastforce
  with Nil.prems(5,6) show ?case by simp
next
  case (Cons x input)
  obtain buf key where x: "x = (buf, key)" by (cases x)
  obtain bs rs d where f: "forward H s = Some (s\<lparr>packet := d, wire := wire s @ bs, results := rs\<rparr>)"
    "map (receive_acl_data H) bs = map Some (forwards (hsix s) (hps3 s) [(param s, handle s, packet s)])"
    "Failed \<notin> set rs" "Suc (length input) \<le> count_list rs Written"
    using forward_works [of H s "Suc (length input)"] Cons.prems by auto
  obtain h data where r: "receive_acl_data H buf = Some (h, data)" "length data \<le> 255"
    using Cons.prems(8) x by (auto simp: receive_acl_data_def)
  let ?s = "s\<lparr>wire := wire s @ bs, results := rs, handle := h, packet := data,
    param := user_interface key (param s)\<rparr>"
  have "\<exists>t cs. proxy_loop H input ?s = Some t \<and> wire t = wire ?s @ cs \<and>
    map (receive_acl_data H) cs =
      map Some (forwards six ps3 ((param ?s, handle ?s, packet ?s) # arrivals H (param ?s) input))"
    using Cons.prems f(3,4) r(2) by (intro Cons.IH) simp_all
  then obtain t cs where t: "proxy_loop H input ?s = Some t" "wire t = wire s @ bs @ cs"
    "map (receive_acl_data H) cs =
      map Some (forwards six ps3 ((user_interface key (param s), h, data) # arrivals H (user_interface key (param s)) input))"
    by auto
  have "proxy_loop H (x # input) s = Some t" using f(1) r(1) t(1) by (simp add: x)
  moreover have "map (receive_acl_data H) (bs @ cs) = map Some (forwards six ps3
      ((param s, handle s, packet s) # arrivals H (param s) (x # input)))"
    using f(2) t(3) r(1) Cons.prems(5,6) by (simp add: x)
  ultimately show ?case using t(2) by blast
qed

text \<open>C8: the proxy forwards faithfully. When the socket accepts the packets, the packets on the wire
  decode, in order, to exactly the packets of the controller for the console and those of the console for
  the controller: the reports (54 bytes) of the controller with the correction of that moment, all others
  with their bytes unchanged; packets of other connections are dropped.\<close>

theorem proxy_forwards:
  assumes "bluez H" "con < 0x1000" "receive_acl_data H start = Some (six, data)"
    and "six < 0x1000" "six \<noteq> con" "length start \<le> 260"
    and "\<forall>(buf, key) \<in> set input. 5 \<le> length buf \<and> length buf \<le> 260"
    and "Failed \<notin> set rs" "length input < count_list rs Written"
  shows "\<exists>t. proxy_main H con start input rs = Some t \<and>
    map (receive_acl_data H) (wire t) =
      map Some (forwards six con ((start_param, six, data) # arrivals H start_param input))"
proof -
  have "length data \<le> 255"
    using assms(3,6) by (auto simp: receive_acl_data_def split: if_splits)
  with assms proxy_loop_works [OF assms(1,4,2,5), of "\<lparr>param = start_param, hsix = six, hps3 = con,
      handle = six, packet = data, wire = [], results = rs\<rparr>" input] show ?thesis
    by (auto simp: proxy_main_def)
qed

definition some_hci :: hci where
  "some_hci = \<lparr>acl_handle = (\<lambda>h. h AND 0xFFF), acl_handle_pack = (\<lambda>h f. (h AND 0xFFF) OR push_bit 12 f),
     htobs = id, btohs = id, HCI_ACLDATA_PKT = 2, ACL_START = 2\<rparr>"

lemma some_hci_bluez: "bluez some_hci"
proof -
  have m: "(0xFFF :: u16) = mask 12" by (simp add: mask_eq_exp_minus_1)
  have "(h OR push_bit 12 f) AND mask 12 = h AND mask 12" for h f :: u16
    by (rule bit_eqI) (auto simp: bit_simps)
  moreover have "h AND mask 12 = h" if "h < 0x1000" for h :: u16
    using that less_mask_eq [of h 12] by simp
  ultimately show ?thesis unfolding bluez_def some_hci_def m by simp
qed

theorem proxy_forwards_witness:
  "\<exists>t. proxy_main some_hci 0x2B [2, 0x2A, 0x20, 1, 0, 9] [([2, 0x2B, 0x20, 1, 0, 7], None)]
      [Interrupted, Written, Written] = Some t \<and>
    map (receive_acl_data some_hci) (wire t) = [Some (0x2B, [9]), Some (0x2A, [7])]"
proof -
  have "receive_acl_data some_hci [2, 0x2A, 0x20, 1, 0, 9] = Some (0x2A, [9])"
    "receive_acl_data some_hci [2, 0x2B, 0x20, 1, 0, 7] = Some (0x2B, [7])" by code_simp+
  then show ?thesis
    using proxy_forwards [where H = some_hci and start = "[2, 0x2A, 0x20, 1, 0, 9]" and six = "0x2A" and con = "0x2B"
        and data = "[9]" and input = "[([2, 0x2B, 0x20, 1, 0, 7], None)]" and rs = "[Interrupted, Written, Written]"]
      some_hci_bluez by simp
qed

end
