(* ===== verification/L2capProxy.thy ===== *)
theory L2capProxy
  imports Process
begin

text \<open>
  \<open>tools/l2cap_proxy\<close>: a proxy between the control and data channels (L2CAP) of a controller, its client,
  and those of a console, its server. First the connection set-up, with the results of the system calls as
  input; then the relay loop, with what \<open>select\<close> and \<open>recv\<close> deliver as input.
\<close>

section \<open>The set-up (\<open>l2cap_con.c\<close>, \<open>bt_utils.c\<close>)\<close>

type_synonym fd = int

datatype syscall =
    Socket | Bind fd nat | Listen fd | Accept fd | SetPower fd | SetLinkMode fd
  | Connect fd string nat | HciOpen int | WriteClass fd int

text \<open>The results still to come, and the calls made. A call without a result is blocked.\<close>

record os =
  returns :: "int list"
  calls :: "syscall list"

definition syscall :: "syscall \<Rightarrow> os \<Rightarrow> (int \<times> os) option" where
  "syscall c s = (case returns s of
     [] \<Rightarrow> None
   | r # rs \<Rightarrow> Some (r, s\<lparr>returns := rs, calls := calls s @ [c]\<rparr>))"

text \<open>\<open>if ((r = call) < 0) { perror(); exit(-1); }\<close> and a call whose failure is only reported.\<close>

definition must :: "syscall \<Rightarrow> (os, fd) process" where
  "must c s = do {
     (r, s) \<leftarrow> syscall c s;
     if r < 0 then exit (-1) s else result r s }"

definition may :: "syscall \<Rightarrow> (os, int) process" where
  "may c s = do { (r, s) \<leftarrow> syscall c s; result r s }"

definition l2cap_listen :: "nat \<Rightarrow> (os, fd) process" where
  "l2cap_listen psm =
     andthen (must Socket) (\<lambda>s.
     andthen (must (Bind s psm)) (\<lambda>_.
     andthen (must (Listen s)) (\<lambda>_.
     result s)))"

definition l2cap_accept :: "fd \<Rightarrow> (os, fd) process" where
  "l2cap_accept s =
     andthen (must (Accept s)) (\<lambda>client.
     andthen (may (SetPower client)) (\<lambda>_.
     result client))"

definition l2cap_connect :: "string \<Rightarrow> nat \<Rightarrow> (os, fd) process" where
  "l2cap_connect bdaddr psm =
     andthen (must Socket) (\<lambda>fd.
     andthen (must (SetLinkMode fd)) (\<lambda>_.
     andthen (must (Connect fd bdaddr psm)) (\<lambda>_.
     andthen (may (SetPower fd)) (\<lambda>_.
     result fd))))"

text \<open>The result of \<open>hci_open_dev\<close> is not checked.\<close>

definition write_device_class :: "int \<Rightarrow> int \<Rightarrow> (os, int) process" where
  "write_device_class device_number cls =
     andthen (may (HciOpen device_number)) (\<lambda>s.
     andthen (may (WriteClass s cls)) (\<lambda>r.
     result (if r < 0 then -1 else 0)))"

abbreviation (input) "CTRL \<equiv> 17 :: nat"
abbreviation (input) "DATA \<equiv> 19 :: nat"

datatype channel = Client_ctrl | Client_data | Server_ctrl | Server_data

text \<open>
  \<open>main\<close> up to its loop: the four sockets. \<open>valid\<close> is \<open>bachk\<close> of BlueZ, which tells whether the argument
  is an address.
\<close>

definition setup_sockets :: "(string \<Rightarrow> bool) \<Rightarrow> string \<Rightarrow> (os, channel \<Rightarrow> fd) process" where
  "setup_sockets valid bdaddr =
     (if \<not> valid bdaddr then exit 1
      else
        andthen (write_device_class 0 0x508) (\<lambda>r.
        if r < 0 then exit 1 else
        andthen (l2cap_listen CTRL) (\<lambda>ctrl_fd.
        andthen (l2cap_accept ctrl_fd) (\<lambda>client_ctrl.
        andthen (l2cap_listen DATA) (\<lambda>data_fd.
        andthen (l2cap_accept data_fd) (\<lambda>client_data.
        andthen (l2cap_connect bdaddr CTRL) (\<lambda>server_ctrl.
        andthen (l2cap_connect bdaddr DATA) (\<lambda>server_data.
        result (case_channel client_ctrl client_data server_ctrl server_data)))))))))"

section \<open>The relay\<close>

fun peer :: "channel \<Rightarrow> channel" where
  "peer Client_ctrl = Server_ctrl"
| "peer Client_data = Server_data"
| "peer Server_ctrl = Client_ctrl"
| "peer Server_data = Client_data"

text \<open>
  One turn of the loop: for every channel \<open>None\<close> when \<open>select\<close> does not report it, otherwise what
  \<open>recv\<close> finds: a message, or no message (an error; an empty message is the end of the connection). Then
  for every channel whether a \<open>send\<close> to it fails, as it does with \<open>MSG_DONTWAIT\<close> when the socket is
  full, and whether a signal has arrived meanwhile. The calls of \<open>send\<close> are logged with their success.
\<close>

record turn =
  ready :: "channel \<Rightarrow> u8 list option option"
  refuses :: "channel \<Rightarrow> bool"
  sigint :: bool

record relay =
  sends :: "(channel \<times> u8 list \<times> bool) list"
  stop :: bool              \<comment> \<open>\<open>done\<close>\<close>

text \<open>A message that is longer than the buffer of 1024 bytes is cut; an empty result is a length of 0 or -1.\<close>

definition recv :: "u8 list option \<Rightarrow> u8 list" where
  "recv m = (case m of None \<Rightarrow> [] | Some bs \<Rightarrow> take 1024 bs)"

text \<open>The result of \<open>send\<close> is not looked at.\<close>

definition send :: "turn \<Rightarrow> channel \<Rightarrow> u8 list \<Rightarrow> relay \<Rightarrow> relay" where
  "send e c buf s = s\<lparr>sends := sends s @ [(c, buf, \<not> refuses e c)]\<rparr>"

definition serve :: "turn \<Rightarrow> channel \<Rightarrow> relay \<Rightarrow> relay" where
  "serve e c s = (case ready e c of
     None \<Rightarrow> s
   | Some m \<Rightarrow> (let buf = recv m in if 0 < length buf then send e (peer c) buf s else s\<lparr>stop := True\<rparr>))"

definition relay_turn :: "turn \<Rightarrow> relay \<Rightarrow> relay" where
  "relay_turn e s =
     (let s = s\<lparr>stop := stop s \<or> sigint e\<rparr>;
          s = serve e Client_ctrl s;
          s = serve e Client_data s;
          s = serve e Server_ctrl s
      in serve e Server_data s)"

fun relay_loop :: "turn list \<Rightarrow> relay \<Rightarrow> relay" where
  "relay_loop [] s = s"
| "relay_loop (e # es) s = (if stop s then s else relay_loop es (relay_turn e s))"

text \<open>\<open>main\<close>: the exit status of a failed set-up, or what the relay has done.\<close>

definition l2cap_main ::
    "(string \<Rightarrow> bool) \<Rightarrow> string \<Rightarrow> os \<Rightarrow> turn list \<Rightarrow> (int + (channel \<Rightarrow> fd) \<times> relay) option" where
  "l2cap_main valid bdaddr s es = do {
     (r, s) \<leftarrow> setup_sockets valid bdaddr s;
     Some (case r of
         Inl n \<Rightarrow> Inl n
       | Inr fds \<Rightarrow> Inr (fds, relay_loop es \<lparr>sends = [], stop = False\<rparr>)) }"

section \<open>What the relay does\<close>

text \<open>
  The contract, in terms of what arrives: the messages of a turn in the order in which the channels are served, each
  for the other side and with the fate of its sending; what reaches the other side of a channel; and the turns
  up to and including the first with a signal or with a channel that fails or has ended.
\<close>

definition arrived :: "turn \<Rightarrow> channel \<Rightarrow> u8 list list" where
  "arrived e c = (case ready e c of Some (Some m) \<Rightarrow> if m = [] then [] else [m] | _ \<Rightarrow> [])"

definition relayed :: "turn \<Rightarrow> (channel \<times> u8 list \<times> bool) list" where
  "relayed e = concat (map (\<lambda>c. map (\<lambda>m. (peer c, take 1024 m, \<not> refuses e (peer c))) (arrived e c))
     [Client_ctrl, Client_data, Server_ctrl, Server_data])"

definition passed_on :: "channel \<Rightarrow> (channel \<times> u8 list \<times> bool) list \<Rightarrow> u8 list list" where
  "passed_on c l = map (fst \<circ> snd) (filter (\<lambda>(d, m, sent). d = peer c \<and> sent) l)"

definition broken :: "turn \<Rightarrow> bool" where
  "broken e \<longleftrightarrow> sigint e \<or>
     list_ex (\<lambda>c. ready e c = Some None \<or> ready e c = Some (Some [])) [Client_ctrl, Client_data, Server_ctrl, Server_data]"

fun until_broken :: "turn list \<Rightarrow> turn list" where
  "until_broken [] = []"
| "until_broken (e # es) = e # (if broken e then [] else until_broken es)"

lemma recv_cases: "recv m = [] \<longleftrightarrow> m = None \<or> m = Some []"
  by (cases m) (simp_all add: recv_def)

lemma serve_sends:
  "sends (serve e c s) = sends s @ map (\<lambda>m. (peer c, take 1024 m, \<not> refuses e (peer c))) (arrived e c)"
  by (auto simp: serve_def arrived_def send_def Let_def recv_def split: option.split)

lemma serve_stop: "stop (serve e c s) = (stop s \<or> ready e c = Some None \<or> ready e c = Some (Some []))"
  by (auto simp: serve_def send_def Let_def recv_cases split: option.split)

lemma turn_sends: "sends (relay_turn e s) = sends s @ relayed e"
  by (simp add: relay_turn_def Let_def serve_sends relayed_def)

lemma turn_stop: "stop (relay_turn e s) = (stop s \<or> broken e)"
  by (auto simp: relay_turn_def Let_def serve_stop broken_def)

lemma loop_sends:
  "\<not> stop s \<Longrightarrow> sends (relay_loop es s) = sends s @ concat (map relayed (until_broken es)) \<and>
   stop (relay_loop es s) = list_ex broken es"
proof (induction es arbitrary: s)
  case (Cons e es)
  then show ?case
    by (cases "broken e"; cases es) (simp_all add: turn_sends turn_stop)
qed simp

lemma passed_on_append: "passed_on c (xs @ ys) = passed_on c xs @ passed_on c ys"
  by (simp add: passed_on_def)

lemma passed_on_map:
  "passed_on c (map (\<lambda>m. (d, take 1024 m, sent)) ms) = (if d = peer c \<and> sent then map (take 1024) ms else [])"
  by (induction ms) (auto simp: passed_on_def)

lemma passed_on_relayed:
  "passed_on c (relayed e) = (if refuses e (peer c) then [] else map (take 1024) (arrived e c))"
  by (cases c) (simp_all add: relayed_def passed_on_append passed_on_map)

lemma passed_on_turns:
  "passed_on c (concat (map relayed es)) =
    concat (map (\<lambda>e. if refuses e (peer c) then [] else map (take 1024) (arrived e c)) es)"
  by (induction es) (simp_all add: passed_on_append passed_on_relayed, simp add: passed_on_def)

text \<open>C29: the relay invents and reorders nothing, and loses a message only when the socket refuses it. In the turns
  up to and including the first with a signal or with a channel that fails or has ended, it
  calls \<open>send\<close> exactly once for each message that has arrived, in the order of arrival, for the other side of its
  channel and with its first 1024 bytes; a call that fails changes nothing else. So each side gets on each of the
  channels exactly the messages of the other side, in order and cut to 1024 bytes, but those that were refused.
  After that turn nothing is sent.\<close>

theorem relay_faithful:
  assumes "l2cap_main valid bdaddr s es = Some (Inr (fds, r))"
  shows "sends r = concat (map relayed (until_broken es)) \<and>
    passed_on c (sends r) = concat (map (\<lambda>e. if refuses e (peer c) then [] else map (take 1024) (arrived e c)) (until_broken es)) \<and>
    (stop r \<longleftrightarrow> list_ex broken es)"
proof -
  have "r = relay_loop es \<lparr>sends = [], stop = False\<rparr>"
    using assms by (auto simp: l2cap_main_def split: bind_splits sum.splits)
  then have "sends r = concat (map relayed (until_broken es))" "stop r \<longleftrightarrow> list_ex broken es"
    using loop_sends [of "\<lparr>sends = [], stop = False\<rparr>" es] by simp_all
  then show ?thesis
    by (simp only: passed_on_turns)
qed

text \<open>Three turns: two messages of which one is refused, one message, and one with the end of a channel; a fourth.\<close>

definition some_turns :: "turn list" where
  "some_turns =
    [\<lparr>ready = (\<lambda>c. if c = Client_data then Some (Some [1, 2]) else if c = Server_data then Some (Some [3]) else None),
      refuses = (\<lambda>c. c = Client_data), sigint = False\<rparr>,
     \<lparr>ready = (\<lambda>c. if c = Server_data then Some (Some [4]) else None), refuses = (\<lambda>c. False), sigint = False\<rparr>,
     \<lparr>ready = (\<lambda>c. if c = Client_data then Some (Some [5]) else if c = Server_ctrl then Some None else None),
      refuses = (\<lambda>c. False), sigint = False\<rparr>,
     \<lparr>ready = (\<lambda>c. Some (Some [6])), refuses = (\<lambda>c. False), sigint = False\<rparr>]"

definition connected :: os where
  "connected = \<lparr>returns = [3, 0, 4, 0, 0, 5, 0, 6, 0, 0, 7, 0, 8, 0, 0, 0, 9, 0, 0, 0], calls = []\<rparr>"

theorem relay_faithful_witness:
  "\<exists>fds r. l2cap_main (\<lambda>a. True) ''00:11:22:33:44:55'' connected some_turns = Some (Inr (fds, r)) \<and>
    sends r = [(Server_data, [1, 2], True), (Client_data, [3], False), (Client_data, [4], True), (Server_data, [5], True)] \<and>
    passed_on Server_data (sends r) = [[4]] \<and> stop r"
proof -
  let ?m = "l2cap_main (\<lambda>a. True) ''00:11:22:33:44:55'' connected some_turns"
  have "map_option (\<lambda>x. case x of Inl n \<Rightarrow> False | Inr (f, r) \<Rightarrow> True) ?m = Some True" by code_simp
  then obtain x where x: "?m = Some x" "case x of Inl n \<Rightarrow> False | Inr (f, r) \<Rightarrow> True" by auto
  then obtain fds r where run: "?m = Some (Inr (fds, r))" by (cases x) auto
  have "concat (map relayed (until_broken some_turns)) =
      [(Server_data, [1, 2], True), (Client_data, [3], False), (Client_data, [4], True), (Server_data, [5], True)] \<and>
      list_ex broken some_turns"
    by (simp add: some_turns_def relayed_def arrived_def broken_def)
  with relay_faithful [OF run, of Server_data] run show ?thesis
    by (auto simp: passed_on_def)
qed

text \<open>The set-up. With the results of its twenty system calls at hand (sockets s, bind b, listen l,
  accept k, power mode w, link mode m, connect c; a and c0 of the adapter), the program relays exactly when
  the address is valid and every call that must succeed does, between the accepted and the connected
  sockets; the power modes and the opening of the adapter may fail. Otherwise it exits with status 1 (address
  or device class) or -1 before anything is relayed.\<close>

theorem setup_all_or_nothing:
  assumes "returns s = [a, c0, s1, b1, l1, k1, w1, s2, b2, l2, k2, w2, s3, m3, c3, w3, s4, m4, c4, w4] @ rest"
  shows "l2cap_main valid bdaddr s es =
    (if \<not> valid bdaddr \<or> c0 < 0 then Some (Inl 1)
     else if list_all (\<lambda>r. 0 \<le> r) [s1, b1, l1, k1, s2, b2, l2, k2, s3, m3, c3, s4, m4, c4]
     then Some (Inr (case_channel k1 k2 s3 s4, relay_loop es \<lparr>sends = [], stop = False\<rparr>))
     else Some (Inl (-1)))"
  using assms
  by (simp add: l2cap_main_def setup_sockets_def write_device_class_def l2cap_listen_def l2cap_accept_def
      l2cap_connect_def andthen_def must_def may_def syscall_def result_def exit_def not_less)


theorem setup_all_or_nothing_witness:
  "\<exists>r. l2cap_main (\<lambda>a. True) ''00:11:22:33:44:55'' connected some_turns =
    Some (Inr (case_channel 5 7 8 9, r))"
proof -
  have "returns connected = [3, 0, 4, 0, 0, 5, 0, 6, 0, 0, 7, 0, 8, 0, 0, 0, 9, 0, 0, 0] @ []"
    by (simp add: connected_def)
  from setup_all_or_nothing [OF this, of "\<lambda>a. True" "''00:11:22:33:44:55''" some_turns]
  show ?thesis by simp
qed

end
