(* ===== verification/LatencyTools.thy ===== *)
theory LatencyTools
  imports Process "HOL-Library.Signed_Division"
begin

text \<open>
  \<open>tools/sixemulat.c\<close>, \<open>sixemulat2.c\<close>, \<open>sixemulat_usb.c\<close>: measure the latency between a mouse click and the
  button press it causes, from the lines of \<open>usbmon\<close>, and print statistics.

  The arguments are the numbers \<open>atoi\<close> reads. The input is the list of lines \<open>fgets\<close> returns, each with
  whether a signal has arrived before it is looked at.
\<close>

section \<open>Strings\<close>

fun strstr :: "string \<Rightarrow> string \<Rightarrow> bool" where
  "strstr [] p = (p = [])"
| "strstr (c # s) p = (take (length p) (c # s) = p \<or> strstr s p)"

definition is_digit :: "char \<Rightarrow> bool" where
  "is_digit c \<longleftrightarrow> c \<in> set ''0123456789''"

definition digits_value :: "string \<Rightarrow> nat" where
  "digits_value ds = foldl (\<lambda>n c. 10 * n + (of_char c - 48)) 0 ds"

text \<open>
  \<open>sscanf(line, "%*[^ ]%*[ ]%10u", &t)\<close>: the second field of the line as a number of at most ten
  characters, or nothing when the line does not have this form.
\<close>

definition scan_time :: "string \<Rightarrow> u32 option" where
  "scan_time line =
     (let first = takeWhile (\<lambda>c. c \<noteq> CHR '' '') line;
          gap = takeWhile (\<lambda>c. c = CHR '' '') (drop (length first) line);
          field = dropWhile is_space (drop (length first + length gap) line);
          sign = (if field \<noteq> [] \<and> (hd field = CHR ''-'' \<or> hd field = CHR ''+'') then 1 else 0);
          ds = takeWhile is_digit (drop sign (take 10 field));
          n = of_nat (digits_value ds)
      in if first = [] \<or> gap = [] \<or> ds = [] then None
         else Some (if sign = 1 \<and> hd field = CHR ''-'' then - n else n))"

text \<open>\<open>%d\<close> and \<open>%03d\<close> of a number that is not negative.\<close>

fun decimal :: "nat \<Rightarrow> string" where
  "decimal n = (if n < 10 then [char_of (48 + n)] else decimal (n div 10) @ [char_of (48 + n mod 10)])"

declare decimal.simps [simp del]

definition decimal3 :: "nat \<Rightarrow> string" where
  "decimal3 n = replicate (3 - length (decimal n)) CHR ''0'' @ decimal n"

section \<open>The statistics\<close>

abbreviation (input) "RECORDS \<equiv> 1024 :: nat"

text \<open>
  The standard deviation takes the square root of an \<open>int\<close> with \<open>pow(x, 0.5)\<close> and truncates it. The
  squares are summed in an \<open>int\<close>: a sum that does not fit has no defined result.
\<close>

function isqrt_from :: "nat \<Rightarrow> nat \<Rightarrow> nat" where
  "isqrt_from k n = (if (k + 1) * (k + 1) \<le> n then isqrt_from (k + 1) n else k)"
  by pat_completeness auto
termination
  by (relation "measure (\<lambda>(k, n). n - k)") (auto simp: less_diff_conv)

declare isqrt_from.simps [simp del]

definition sqrt_int :: "int \<Rightarrow> int" where
  "sqrt_int x = int (isqrt_from 0 (nat x))"

text \<open>
  The first loop: \<open>sum = sum + tdiff[i]\<close> is computed without sign and stored in an \<open>int\<close>;
  \<open>tdiff[i] > worst\<close> compares without sign.
\<close>

fun sum_worst :: "u32 list \<Rightarrow> u32 \<Rightarrow> u32 \<Rightarrow> u32 \<times> u32" where
  "sum_worst [] s w = (s, w)"
| "sum_worst (t # ts) s w = sum_worst ts (s + t) (if t > w then t else w)"

text \<open>The second loop: \<open>temp + pow(abs(tdiff[i] - average), 2)\<close>.\<close>

fun squares :: "u32 list \<Rightarrow> u32 \<Rightarrow> int \<Rightarrow> int option" where
  "squares [] average temp = Some temp"
| "squares (t # ts) average temp =
     (let d = \<bar>sint (t - average)\<bar>; temp = temp + d * d
      in if d < 2 ^ 31 \<and> temp < 2 ^ 31 then squares ts average temp else None)"

text \<open>What is printed: the number, the worst value and, for at least two values, average and deviation.\<close>

record stat =
  nb :: nat
  worst :: int
  average :: "int option"
  deviation :: "int option"

definition statistics_of :: "nat \<Rightarrow> u32 list \<Rightarrow> stat option" where
  "statistics_of records tdiff = do {
     let ts = takeWhile (\<lambda>t. t > 0) (take records tdiff);
     let n = length ts;
     let (s, w) = sum_worst ts 0 0;
     if n < 2 then Some \<lparr>nb = n, worst = sint w, average = None, deviation = None\<rparr>
     else do {
       let a = sint s sdiv int n;
       temp \<leftarrow> squares ts (word_of_int a) 0;
       Some \<lparr>nb = n, worst = sint w, average = Some a,
         deviation = Some (sqrt_int (temp div int (n - 1)))\<rparr> } }"

definition results :: "u32 list \<Rightarrow> stat option" where
  "results = statistics_of RECORDS"

section \<open>\<open>sixemulat\<close> and \<open>sixemulat2\<close>\<close>

text \<open>
  The second check of the arguments reads \<open>did\<close> before it is set: \<open>junk\<close> is the value found there. A
  missing or wrong argument ends the program with the usage.
\<close>

definition arguments_ok :: "int \<Rightarrow> int list \<Rightarrow> bool" where
  "arguments_ok junk args = (case args of
     mbid # mid # dbid # did # _ \<Rightarrow>
       \<not> (mbid < 1 \<or> mbid > 9) \<and> \<not> (mid < 1 \<or> junk > 128) \<and> \<not> (dbid < 1 \<or> dbid > 9) \<and>
       \<not> (did < 1 \<or> did > 128)
   | _ \<Rightarrow> False)"

definition device_pattern :: "string \<Rightarrow> int \<Rightarrow> int \<Rightarrow> string" where
  "device_pattern kind bus dev = kind @ decimal (nat bus) @ '':'' @ decimal3 (nat dev)"

record meter =
  tclic :: u32
  tr1 :: u32
  paired :: bool            \<comment> \<open>\<open>done\<close>\<close>
  tdiff :: "u32 list"       \<comment> \<open>the first \<open>i\<close> records\<close>
  full :: bool              \<comment> \<open>the loop has been left: too many records\<close>

definition on_mouse :: "string \<Rightarrow> meter \<Rightarrow> meter" where
  "on_mouse line s =
     (if strstr line ''= 01'' then
        (if tclic s = 0 \<and> \<not> paired s
         then (case scan_time line of None \<Rightarrow> s | Some t \<Rightarrow> s\<lparr>tclic := t\<rparr>) else s)
      else if strstr line ''= 00'' then s\<lparr>tclic := 0, paired := False\<rparr>
      else s)"

definition on_press :: "string \<Rightarrow> meter \<Rightarrow> meter" where
  "on_press line s =
     (if tclic s \<noteq> 0 \<and> \<not> paired s then
        (let s = (case scan_time line of None \<Rightarrow> s | Some t \<Rightarrow> s\<lparr>tr1 := t\<rparr>)
         in if length (tdiff s) < RECORDS
            then s\<lparr>tdiff := tdiff s @ [tr1 s - tclic s], paired := True\<rparr>
            else s\<lparr>full := True\<rparr>)
      else s)"

definition on_line :: "string \<Rightarrow> string \<Rightarrow> string \<Rightarrow> string \<Rightarrow> meter \<Rightarrow> meter" where
  "on_line mouse sixemu press line s =
     (if strstr line mouse then on_mouse line s
      else if strstr line sixemu \<and> strstr line press then on_press line s
      else s)"

fun line_loop :: "(string \<Rightarrow> meter \<Rightarrow> meter) \<Rightarrow> (string \<times> bool) list \<Rightarrow> meter \<Rightarrow> meter" where
  "line_loop f [] s = s"
| "line_loop f ((line, bexit) # ls) s =
     (if bexit then s else (let s = f line s in if full s then s else line_loop f ls s))"

definition meter_start :: meter where
  "meter_start = \<lparr>tclic = 0, tr1 = 0, paired = False, tdiff = [], full = False\<rparr>"

text \<open>\<open>Inl\<close>: the usage; no lines at all when the file cannot be opened.\<close>

definition latency_main ::
    "string \<Rightarrow> string \<Rightarrow> int \<Rightarrow> int list \<Rightarrow> (string \<times> bool) list \<Rightarrow> unit + stat option" where
  "latency_main kind press junk args ls =
     (if \<not> arguments_ok junk args then Inl ()
      else (let mouse = device_pattern ''Ii:'' (args ! 0) (args ! 1);
                sixemu = device_pattern kind (args ! 2) (args ! 3)
            in Inr (results (tdiff (line_loop (on_line mouse sixemu press) ls meter_start)))))"

definition sixemulat where "sixemulat = latency_main ''Bo:'' ''0000ff00''"
definition sixemulat2 where "sixemulat2 = latency_main ''Ii:'' ''08002000''"

section \<open>\<open>sixemulat_usb\<close>\<close>

definition usb_arguments_ok :: "int \<Rightarrow> int list \<Rightarrow> bool" where
  "usb_arguments_ok junk args = (case args of
     mbid # mid # dbid # did # cbid # cdid # _ \<Rightarrow>
       arguments_ok junk args \<and> \<not> (cbid < 1 \<or> cbid > 9) \<and> \<not> (cdid < 1 \<or> cdid > 128)
   | _ \<Rightarrow> False)"

record usb_meter =
  tmouse :: u32
  tusbserial :: u32
  tjoystick :: u32
  mdown :: bool
  udown :: bool
  jdown :: bool
  tdiffs :: "(u32 \<times> u32 \<times> u32) list"   \<comment> \<open>\<open>tdiff1\<close>, \<open>tdiff2\<close>, \<open>tdiff3\<close>, the first \<open>i\<close> records\<close>

text \<open>A button: its press with the time, once until its release.\<close>

definition edge :: "string \<Rightarrow> string \<Rightarrow> string \<Rightarrow> u32 \<Rightarrow> bool \<Rightarrow> u32 \<times> bool" where
  "edge down up line t held =
     (if strstr line down then
        (if \<not> held then (case scan_time line of None \<Rightarrow> t | Some u \<Rightarrow> u, True) else (t, held))
      else if strstr line up then (t, False)
      else (t, held))"

definition usb_line :: "string \<Rightarrow> string \<Rightarrow> string \<Rightarrow> string \<Rightarrow> usb_meter \<Rightarrow> usb_meter" where
  "usb_line mouse usbserial joystick line s =
     (let s =
        (if strstr line mouse
         then (let (t, d) = edge ''= 01'' ''= 00'' line (tmouse s) (mdown s) in s\<lparr>tmouse := t, mdown := d\<rparr>)
         else if strstr line usbserial
         then (let (t, d) = edge ''08002000'' ''08000000'' line (tusbserial s) (udown s)
               in s\<lparr>tusbserial := t, udown := d\<rparr>)
         else if strstr line joystick
         then (let (t, d) = edge ''08002000'' ''08000000'' line (tjoystick s) (jdown s)
               in s\<lparr>tjoystick := t, jdown := d\<rparr>)
         else s)
      in if tmouse s \<noteq> 0 \<and> tusbserial s \<noteq> 0 \<and> tjoystick s \<noteq> 0
         then (let s = s\<lparr>tdiffs := tdiffs s @ [(tusbserial s - tmouse s, tjoystick s - tusbserial s,
                      tjoystick s - tmouse s)]\<rparr>
               in if length (tdiffs s) = RECORDS then s
                  else s\<lparr>tmouse := 0, tusbserial := 0, tjoystick := 0\<rparr>)
         else s)"

fun usb_loop :: "(string \<Rightarrow> usb_meter \<Rightarrow> usb_meter) \<Rightarrow> (string \<times> bool) list \<Rightarrow> usb_meter \<Rightarrow> usb_meter" where
  "usb_loop f [] s = s"
| "usb_loop f ((line, bexit) # ls) s =
     (if bexit then s
      else (let s = f line s in if length (tdiffs s) = RECORDS then s else usb_loop f ls s))"

definition sixemulat_usb ::
    "int \<Rightarrow> int list \<Rightarrow> (string \<times> bool) list \<Rightarrow> unit + stat option \<times> stat option \<times> stat option" where
  "sixemulat_usb junk args ls =
     (if \<not> usb_arguments_ok junk args then Inl ()
      else (let mouse = device_pattern '':'' (args ! 0) (args ! 1);
                usbserial = device_pattern '':'' (args ! 2) (args ! 3);
                joystick = device_pattern '':'' (args ! 4) (args ! 5);
                s = usb_loop (usb_line mouse usbserial joystick) ls
                  \<lparr>tmouse = 0, tusbserial = 0, tjoystick = 0, mdown = False, udown = False, jdown = False, tdiffs = []\<rparr>
            in Inr (results (map fst (tdiffs s)), results (map (fst \<circ> snd) (tdiffs s)),
                 results (map (snd \<circ> snd) (tdiffs s)))))"


section \<open>The statistics are those of the records\<close>

lemma isqrt_from:
  assumes "k * k \<le> n"
  shows "isqrt_from k n * isqrt_from k n \<le> n \<and> n < (isqrt_from k n + 1) * (isqrt_from k n + 1)"
  using assms
proof (induction k n rule: isqrt_from.induct)
  case (1 k n)
  then show ?case
    by (cases "(k + 1) * (k + 1) \<le> n") (simp_all add: isqrt_from.simps [of k n])
qed

lemma sqrt_int:
  assumes "0 \<le> x"
  shows "(sqrt_int x)\<^sup>2 \<le> x \<and> x < (sqrt_int x + 1)\<^sup>2"
proof -
  let ?r = "isqrt_from 0 (nat x)"
  have "int (?r * ?r) \<le> int (nat x)" "int (nat x) < int ((?r + 1) * (?r + 1))"
    using isqrt_from [of 0 "nat x"] by (simp_all only: of_nat_le_iff of_nat_less_iff)
  then show ?thesis
    using assms by (simp add: sqrt_int_def power2_eq_square algebra_simps)
qed

lemma sqrt_int_nonneg: "0 \<le> sqrt_int x"
  by (simp add: sqrt_int_def)

lemma sum_worst_eq:
  "sum_worst ts s w = (s + sum_list ts, fold (\<lambda>t w. if t > w then t else w) ts w)"
  by (induction ts s w rule: sum_worst.induct) (simp_all add: add.assoc)

lemma fold_worst: "fold (\<lambda>t w. if t > w then t else w) ts w = Max (set (w # ts))"
  for ts :: "'a :: linorder list"
proof -
  have "(\<lambda>t w. if t > w then t else w) = (max :: 'a \<Rightarrow> 'a \<Rightarrow> 'a)"
    by (auto simp: max_def fun_eq_iff)
  then show ?thesis
    by (simp only: Max.set_eq_fold)
qed

lemma unat_sum_list:
  fixes ts :: "u32 list"
  assumes "sum_list (map unat ts) < 2 ^ 32"
  shows "unat (sum_list ts) = sum_list (map unat ts)"
  using assms
proof (induction ts)
  case (Cons t ts)
  then have "unat (sum_list ts) = sum_list (map unat ts)"
    by simp
  moreover have "unat t + sum_list (map unat ts) < 2 ^ LENGTH(32)"
    using Cons.prems by simp
  ultimately show ?case
    by (simp add: unat_word_ariths)
qed simp

lemma uint_small: "uint (w :: u32) < 2147483648" if "unat w < 2 ^ 31"
proof -
  have "int (unat w) < int (2 ^ 31)"
    using that by (simp only: of_nat_less_iff)
  then show ?thesis
    by simp
qed

lemma sint_small_time: "sint (w :: u32) = int (unat w)" if "unat w < 2 ^ 31"
proof -
  have "- 2147483648 \<le> uint w"
    using uint_nonnegative [of w] by linarith
  then show ?thesis
    using uint_small [OF that] by (simp add: sint_uint signed_take_bit_int_eq_self)
qed

lemma difference_small: "- 2147483648 \<le> uint (t :: u32) - a \<and> uint t - a < 2147483648"
  "\<bar>int (unat t) - a\<bar> < 2 ^ 31"
  if "unat t < 2 ^ 31" "0 \<le> a" "a < 2 ^ 31"
proof -
  have "a < 2147483648"
    using that(3) by simp
  then show "- 2147483648 \<le> uint t - a \<and> uint t - a < 2147483648"
    using uint_small [OF that(1)] that(2) uint_nonnegative [of t] by linarith
  have "\<bar>uint t - a\<bar> < 2147483648"
    using \<open>a < 2147483648\<close> uint_small [OF that(1)] that(2) uint_nonnegative [of t] by linarith
  then show "\<bar>int (unat t) - a\<bar> < 2 ^ 31"
    by simp
qed

lemma sint_difference: "sint ((t :: u32) - word_of_int a) = int (unat t) - a"
  if "unat t < 2 ^ 31" "0 \<le> a" "a < 2 ^ 31"
proof -
  have eq: "t - word_of_int a = word_of_int (uint t - a)"
    by simp
  show ?thesis
    unfolding eq using difference_small(1) [OF that]
    by (simp add: sint_sbintrunc' signed_take_bit_int_eq_self del: of_int_diff)
qed

lemma sdiv_nonneg: "k sdiv l = k div l" if "0 \<le> k" "0 < l" for k l :: int
  using that by (auto simp: signed_divide_int_def sgn_if)

lemma squares_eq:
  assumes "\<forall>t \<in> set ts. unat t < 2 ^ 31" "0 \<le> a" "a < 2 ^ 31" "0 \<le> temp"
    and "temp + (\<Sum>t\<leftarrow>ts. (int (unat t) - a)\<^sup>2) < 2 ^ 31"
  shows "squares ts (word_of_int a) temp = Some (temp + (\<Sum>t\<leftarrow>ts. (int (unat t) - a)\<^sup>2))"
  using assms
proof (induction ts arbitrary: temp)
  case (Cons t ts)
  let ?d = "int (unat t) - a"
  have rest: "0 \<le> (\<Sum>t\<leftarrow>ts. (int (unat t) - a)\<^sup>2)"
    by (rule sum_list_nonneg) auto
  have "\<bar>int (unat t) - a\<bar> < 2 ^ 31"
    using Cons.prems by (intro difference_small) simp_all
  moreover have "temp + ?d\<^sup>2 < 2 ^ 31"
    using Cons.prems rest by simp
  moreover have "squares ts (word_of_int a) (temp + ?d\<^sup>2)
      = Some (temp + ?d\<^sup>2 + (\<Sum>t\<leftarrow>ts. (int (unat t) - a)\<^sup>2))"
    using Cons.prems by (intro Cons.IH) (simp_all add: algebra_simps)
  ultimately show ?case
    using Cons.prems by (simp add: sint_difference Let_def power2_eq_square add.assoc)
qed simp

text \<open>
  The records are the values before the first 0. When their sum and the sum of the squared differences
  fit in an \<open>int\<close>, what is printed is their number, maximum, average and standard deviation.
\<close>

definition deviations :: "u32 list \<Rightarrow> int \<Rightarrow> int" where
  "deviations ts a = (\<Sum>t\<leftarrow>ts. (int (unat t) - a)\<^sup>2)"

lemma worst_is_max:
  assumes "ts \<noteq> []"
  shows "fold (\<lambda>t w. if t > w then t else w) ts 0 = (Max (set ts) :: u32)"
  using assms by (simp add: fold_worst)

lemma statistics_of_records:
  assumes "ts \<noteq> []" "tl ts \<noteq> []" "length ts \<le> records" "0 \<notin> set ts"
    and "sum_list (map unat ts) < 2 ^ 31"
    and "a = int (sum_list (map unat ts) div length ts)" "deviations ts a < 2 ^ 31"
    and "v = deviations ts a div int (length ts - 1)"
  shows "\<exists>r. statistics_of records ts = Some r \<and> nb r = length ts \<and> worst r = int (unat (Max (set ts))) \<and>
    average r = Some a \<and> (\<exists>d \<ge> 0. deviation r = Some d \<and> d\<^sup>2 \<le> v \<and> v < (d + 1)\<^sup>2)"
proof -
  have n: "2 \<le> length ts"
    using assms(1,2) by (cases ts; cases "tl ts") auto
  have all: "takeWhile (\<lambda>t. t > 0) (take records ts) = ts"
    using assms(3,4) by (auto simp: takeWhile_eq_all_conv word_gt_0)
  have sum: "unat (sum_list ts) = sum_list (map unat ts)"
    using assms(5) by (intro unat_sum_list) simp
  have fits: "unat t < 2 ^ 31" if "t \<in> set ts" for t
    using member_le_sum_list [of "unat t" "map unat ts"] that assms(5) by simp
  have le: "sum_list (map unat ts) div length ts < 2 ^ 31"
    using assms(5) by (meson div_le_dividend le_less_trans)
  have a: "0 \<le> a" "a < 2 ^ 31"
    using le unfolding assms(6) by (simp, metis of_nat_less_iff of_nat_numeral of_nat_power)
  have sq: "squares ts (word_of_int a) 0 = Some (deviations ts a)"
    using squares_eq [of ts a 0] fits a assms(7) by (simp add: deviations_def)
  have avg: "sint (sum_list ts) sdiv int (length ts) = a"
    using n by (simp only: sint_small_time sum assms(5)) (simp add: assms(6) sdiv_nonneg [OF of_nat_0_le_iff] zdiv_int del: length_greater_0_conv)
  have mx: "sint (Max (set ts)) = int (unat (Max (set ts)))"
    using assms(1) by (intro sint_small_time fits) simp
  have dev: "0 \<le> v"
    using n by (auto simp: assms(8) deviations_def div_int_pos_iff intro!: sum_list_nonneg)
  have "statistics_of records ts = Some \<lparr>nb = length ts, worst = int (unat (Max (set ts))), average = Some a,
      deviation = Some (sqrt_int v)\<rparr>"
    using n by (simp add: statistics_of_def all Let_def sum_worst_eq worst_is_max [OF assms(1)] avg sq mx assms(8))
  then show ?thesis
    using sqrt_int [OF dev] sqrt_int_nonneg [of v] by auto
qed


text \<open>The statistics the latency tools print are the number of the records, their maximum, the integer
  part of their mean and the integer part of the square root of their variance (with n - 1), as long as
  the sums fit in 31 bits.
\<close>

theorem statistics:
  assumes "ts \<noteq> []" "tl ts \<noteq> []" "length ts \<le> 1024" "0 \<notin> set ts"
    and "sum_list (map unat ts) < 2 ^ 31"
    and "a = int (sum_list (map unat ts) div length ts)" "deviations ts a < 2 ^ 31"
    and "v = deviations ts a div int (length ts - 1)"
  shows "\<exists>r. results ts = Some r \<and> nb r = length ts \<and> worst r = int (unat (Max (set ts))) \<and>
    average r = Some a \<and> (\<exists>d \<ge> 0. deviation r = Some d \<and> d\<^sup>2 \<le> v \<and> v < (d + 1)\<^sup>2)"
  unfolding results_def by (rule statistics_of_records [OF assms])

theorem statistics_witness:
  "\<exists>r. results [100, 300, 200] = Some r \<and> nb r = 3 \<and> worst r = 300 \<and> average r = Some 200 \<and>
    (\<exists>d \<ge> 0. deviation r = Some d \<and> d\<^sup>2 \<le> 10000 \<and> 10000 < (d + 1)\<^sup>2)"
proof -
  let ?ts = "[100, 300, 200] :: u32 list"
  have facts: "?ts \<noteq> []" "tl ?ts \<noteq> []" "length ?ts \<le> 1024" "0 \<notin> set ?ts"
    "sum_list (map unat ?ts) < 2 ^ 31" "200 = int (sum_list (map unat ?ts) div length ?ts)"
    "deviations ?ts 200 < 2 ^ 31" "10000 = deviations ?ts 200 div int (length ?ts - 1)"
    "length ?ts = 3" "int (unat (Max (set ?ts))) = 300"
    by (simp_all add: deviations_def max_def)
  show ?thesis
    using statistics [OF facts(1-8)] unfolding facts(9,10) .
qed

section \<open>The latencies are those of the clicks\<close>

text \<open>
  What a line says. A click or a press carries the time that is read from it. The lines between two
  releases of the mouse button form a segment: its latency is the time from its first click (with a time
  that is not 0) to the first press after it.
\<close>

datatype event = Click "u32 option" | Release | Press "u32 option" | Other

definition event_of :: "string \<Rightarrow> string \<Rightarrow> string \<Rightarrow> string \<Rightarrow> event" where
  "event_of mouse sixemu press line =
     (if strstr line mouse
      then (if strstr line ''= 01'' then Click (scan_time line)
            else if strstr line ''= 00'' then Release else Other)
      else if strstr line sixemu \<and> strstr line press then Press (scan_time line) else Other)"

fun segments :: "event list \<Rightarrow> event list list" where
  "segments [] = [[]]"
| "segments (Release # es) = [] # segments es"
| "segments (e # es) = (e # hd (segments es)) # tl (segments es)"

fun first_press :: "u32 \<Rightarrow> event list \<Rightarrow> u32 list" where
  "first_press c [] = []"
| "first_press c (Press (Some t) # es) = [t - c]"
| "first_press c (_ # es) = first_press c es"

fun segment_latency :: "event list \<Rightarrow> u32 list" where
  "segment_latency [] = []"
| "segment_latency (Click (Some c) # es) = (if c = 0 then segment_latency es else first_press c es)"
| "segment_latency (_ # es) = segment_latency es"

definition latencies :: "event list \<Rightarrow> u32 list" where
  "latencies es = concat (map segment_latency (segments es))"

lemma segments_not_empty [simp]: "segments es \<noteq> []"
  by (cases es rule: segments.cases) simp_all

text \<open>What is still to come from a state of the meter.\<close>

definition pending :: "meter \<Rightarrow> event list \<Rightarrow> u32 list" where
  "pending s es =
     (if paired s then [] else if tclic s \<noteq> 0 then first_press (tclic s) (hd (segments es))
      else segment_latency (hd (segments es)))
     @ concat (map segment_latency (tl (segments es)))"

lemma pending_start: "pending meter_start es = latencies es"
  by (cases "segments es") (simp_all add: pending_def latencies_def meter_start_def)

definition readable :: "event \<Rightarrow> bool" where
  "readable e \<longleftrightarrow> e \<noteq> Click None \<and> e \<noteq> Press None"

lemma on_line_step:
  assumes "readable (event_of mouse sixemu press line)" "\<not> full s" "length (tdiff s) \<le> RECORDS"
    and "s' = on_line mouse sixemu press line s"
  shows "\<not> full s' \<and> length (tdiff s') \<le> RECORDS \<and>
      tdiff s' @ pending s' es = tdiff s @ pending s (event_of mouse sixemu press line # es)
    \<or> full s' \<and> tdiff s' = tdiff s \<and> length (tdiff s) = RECORDS"
  using assms
  by (cases "segments es")
    (auto simp: on_line_def on_mouse_def on_press_def event_of_def readable_def pending_def split: option.splits)

lemma line_loop_latencies:
  assumes "\<forall>(line, bexit) \<in> set ls. readable (event_of mouse sixemu press line)"
    and "\<not> full s" "length (tdiff s) \<le> RECORDS"
  shows "tdiff (line_loop (on_line mouse sixemu press) ls s) = take RECORDS
    (tdiff s @ pending s (map (event_of mouse sixemu press \<circ> fst) (takeWhile (Not \<circ> snd) ls)))"
  using assms
proof (induction "on_line mouse sixemu press" ls s rule: line_loop.induct)
  case (1 s)
  then show ?case
    by (simp add: pending_def)
next
  case (2 line bexit ls s)
  show ?case
  proof (cases bexit)
    case True
    then show ?thesis
      using 2 by (simp add: pending_def)
  next
    case False
    let ?e = "event_of mouse sixemu press line" and ?s = "on_line mouse sixemu press line s"
    let ?es = "map (event_of mouse sixemu press \<circ> fst) (takeWhile (Not \<circ> snd) ls)"
    have e: "readable ?e"
      using 2(2) by simp
    show ?thesis
      using on_line_step [OF e 2(3,4) refl, of ?es]
    proof (elim disjE conjE)
      assume s: "\<not> full ?s" "length (tdiff ?s) \<le> RECORDS"
        and eq: "tdiff ?s @ pending ?s ?es = tdiff s @ pending s (?e # ?es)"
      have "tdiff (line_loop (on_line mouse sixemu press) ls ?s)
          = take RECORDS (tdiff ?s @ pending ?s ?es)"
        using 2(1) [OF False refl s(1)] 2(2) s by simp
      then show ?thesis
        using False s unfolding eq by (simp add: comp_def del: take_append)
    next
      assume "full ?s" "tdiff ?s = tdiff s" "length (tdiff s) = RECORDS"
      then show ?thesis
        using False by simp
    qed
  qed
qed

text \<open>The latencies the tool records are those of the lines up to the signal, at most 1024: in every
  segment between two releases of the mouse button the time from the first click to the first button
  press after it, and nothing for a segment without a click or a press.
\<close>

theorem latencies_recorded:
  assumes "\<forall>(line, bexit) \<in> set ls. readable (event_of mouse sixemu press line)"
  shows "tdiff (line_loop (on_line mouse sixemu press) ls meter_start) =
    take 1024 (latencies (map (event_of mouse sixemu press \<circ> fst) (takeWhile (Not \<circ> snd) ls)))"
  using line_loop_latencies [OF assms, of meter_start] pending_start
  by (simp add: meter_start_def)

definition trace :: "(string \<times> bool) list" where
  "trace =
     [(''a 100 C Ii:3:004:1 0:8 4 = 01000000'', False), (''b 150 S Bo:2:007:2 -115 3 = 0000ff00'', False),
      (''c 160 S Bo:2:007:2 -115 3 = 0000ff00'', False), (''d 200 C Ii:3:004:1 0:8 4 = 00000000'', False),
      (''e 300 C Ii:3:004:1 0:8 4 = 01000000'', False), (''f 330 S Bo:2:007:2 -115 3 = 0000ff00'', False)]"

theorem latencies_recorded_witness:
  "tdiff (line_loop (on_line ''Ii:3:004'' ''Bo:2:007'' ''0000ff00'') trace meter_start) = [50, 30]"
proof -
  let ?e = "event_of ''Ii:3:004'' ''Bo:2:007'' ''0000ff00''"
  have events: "map ?e (map fst trace) = [Click (Some 100), Press (Some 150), Press (Some 160), Release,
      Click (Some 300), Press (Some 330)]"
    by code_simp
  have signals: "map snd trace = replicate 6 False"
    by code_simp
  then have all: "takeWhile (Not \<circ> snd) trace = trace"
    by (auto simp: takeWhile_eq_all_conv trace_def)
  have "readable e" if "e \<in> set (map ?e (map fst trace))" for e
    using that unfolding events by (auto simp: readable_def)
  then have "\<forall>(line, bexit) \<in> set trace. readable (?e line)"
    by force
  then show ?thesis
    using latencies_recorded [of trace "''Ii:3:004''" "''Bo:2:007''" "''0000ff00''"] events
    unfolding all by (simp add: latencies_def)
qed

end
