(* ===== verification/SerialBench.thy ===== *)
theory SerialBench
  imports LatencyTools
begin

text \<open>
  \<open>tools/serial_bench.c\<close>: measure how long a packet takes through two serial ports that are connected
  to each other. The options are those \<open>getopt\<close> returns, with the numbers \<open>atoi\<close> reads. \<open>B\<close> are the
  constants \<open>B500000\<close> to \<open>B4000000\<close> of \<open>termios.h\<close>, and \<open>rand\<close> gives the random numbers by the number
  of the call. The clock and the ports are an input: one \<open>sample\<close> for every turn of the loop.
\<close>

section \<open>The arguments\<close>

datatype option_arg = Opt_b int | Opt_n int | Opt_s int | Opt_unknown

record settings =
  baudrate :: u32
  rate :: u32
  samples :: u32
  packet_size :: u32

text \<open>\<open>None\<close>: the usage.\<close>

fun read_args :: "(u32 \<Rightarrow> u32) \<Rightarrow> option_arg list \<Rightarrow> settings \<Rightarrow> settings option" where
  "read_args B [] s = Some s"
| "read_args B (Opt_b n # opts) s =
     (let s = s\<lparr>rate := word_of_int n\<rparr>
      in if rate s = 500000 \<or> rate s = 1000000 \<or> rate s = 1500000 \<or> rate s = 2000000 \<or>
          rate s = 3000000 \<or> rate s = 4000000
         then read_args B opts (s\<lparr>baudrate := B (rate s)\<rparr>) else None)"
| "read_args B (Opt_n n # opts) s = read_args B opts (s\<lparr>samples := word_of_int n\<rparr>)"
| "read_args B (Opt_s n # opts) s = read_args B opts (s\<lparr>packet_size := word_of_int n\<rparr>)"
| "read_args B (Opt_unknown # opts) s = None"

text \<open>The results of \<open>open\<close> and \<open>tcsetattr\<close> for a port.\<close>

definition serial_connect :: "int \<times> int \<Rightarrow> int" where
  "serial_connect p = (let (fd, r) = p in if fd < 0 then -1 else if r < 0 then -1 else fd)"

section \<open>A packet\<close>

text \<open>
  The index is an \<open>unsigned char\<close>. The loop does not return when it never reaches the size. \<open>k\<close> is the
  number of calls of \<open>rand\<close>.
\<close>

partial_function (option) fill_loop ::
    "(nat \<Rightarrow> int) \<Rightarrow> u32 \<Rightarrow> u8 \<Rightarrow> nat \<Rightarrow> u8 list \<Rightarrow> (nat \<times> u8 list) option" where
  "fill_loop rand psize i k buf =
     (if ucast i < psize
      then fill_loop rand psize (i + 1) (k + 1) (buf[unat i := word_of_int (rand k mod 255)])
      else Some (k, buf))"

text \<open>The comparison prints the bytes that differ.\<close>

partial_function (option) compare_loop ::
    "u8 list \<Rightarrow> u8 list \<Rightarrow> u32 \<Rightarrow> u8 \<Rightarrow> (u8 \<times> u8) list \<Rightarrow> (u8 \<times> u8) list option" where
  "compare_loop buf buf2 psize i l =
     (if ucast i < psize
      then compare_loop buf buf2 psize (i + 1)
        (if buf2 ! unat i \<noteq> buf ! unat i then l @ [(buf2 ! unat i, buf ! unat i)] else l)
      else Some l)"

text \<open>
  What \<open>select\<close> and \<open>read\<close> find, and whether a signal has arrived by then. \<open>read\<close> returns at most the
  bytes that are still missing; \<open>num\<close> bytes are there already. The result: what is received, or
  \<open>Inl\<close> for an error; whether the program has been told to end; the rest of the input.
\<close>

datatype arrival = Bytes "u8 list" | Read_error | Nothing | Select_error

fun read_packet :: "nat \<Rightarrow> (arrival \<times> bool) list \<Rightarrow> u8 list \<Rightarrow> bool \<Rightarrow> ((unit + u8 list) \<times> bool) option" where
  "read_packet psize [] buf2 ended = (if length buf2 = psize then Some (Inr buf2, ended) else None)"
| "read_packet psize ((a, sig) # as) buf2 ended =
     (if length buf2 = psize then Some (Inr buf2, ended)
      else (let ended = ended \<or> sig
            in case a of
                 Bytes bs \<Rightarrow>
                   (let bs = take (psize - length buf2) bs
                    in if bs = [] then Some (Inl (), ended) else read_packet psize as (buf2 @ bs) ended)
               | Read_error \<Rightarrow> Some (Inl (), ended)
               | Nothing \<Rightarrow> read_packet psize as buf2 ended
               | Select_error \<Rightarrow>
                   if \<not> ended then Some (Inl (), ended) else read_packet psize as buf2 ended))"

section \<open>The loop\<close>

text \<open>Times are seconds and microseconds; the difference is computed as \<open>long\<close> and stored in 32 bits.\<close>

definition micros :: "int \<times> int \<Rightarrow> int" where
  "micros t = fst t * 1000000 + snd t"

definition elapsed :: "int \<times> int \<Rightarrow> int \<times> int \<Rightarrow> u32" where
  "elapsed t t' = word_of_int (micros t' - micros t)"

record sample =
  t0 :: "int \<times> int"
  t1 :: "int \<times> int"
  t2 :: "int \<times> int"
  written :: int                        \<comment> \<open>the result of \<open>write\<close>\<close>
  arrivals :: "(arrival \<times> bool) list"
  signal :: bool                        \<comment> \<open>a signal has arrived after the packet\<close>

record bench =
  calls :: nat                          \<comment> \<open>of \<open>rand\<close>\<close>
  buffer :: "u8 list"                   \<comment> \<open>\<open>buf\<close>\<close>
  ended :: bool                         \<comment> \<open>\<open>done\<close>\<close>
  twrite :: "u32 list"                  \<comment> \<open>the first \<open>cpt\<close> values, as in the next two\<close>
  tread :: "u32 list"
  ttotal :: "u32 list"
  mismatches :: "(u8 \<times> u8) list"

text \<open>\<open>Inl\<close>: an error ends the program. The worst values the loop keeps are not used.\<close>

definition bench_turn :: "(nat \<Rightarrow> int) \<Rightarrow> u32 \<Rightarrow> sample \<Rightarrow> bench \<Rightarrow> (unit + bench) option" where
  "bench_turn rand psize e s = do {
     (k, buf) \<leftarrow> fill_loop rand psize 0 (calls s) (buffer s);
     let s = s\<lparr>calls := k, buffer := buf\<rparr>;
     if written e < 0 then Some (Inl ())
     else do {
       (r, d) \<leftarrow> read_packet (unat psize) (arrivals e) [] (ended s);
       (case r of
          Inl _ \<Rightarrow> Some (Inl ())
        | Inr buf2 \<Rightarrow> do {
            l \<leftarrow> compare_loop buf buf2 psize 0 [];
            let s = s\<lparr>ended := d \<or> signal e, mismatches := mismatches s @ l\<rparr>;
            Some (Inr (if \<not> ended s
              then s\<lparr>twrite := twrite s @ [elapsed (t0 e) (t1 e)],
                tread := tread s @ [elapsed (t1 e) (t2 e)],
                ttotal := ttotal s @ [elapsed (t0 e) (t2 e)]\<rparr>
              else s)) }) } }"

fun bench_loop :: "(nat \<Rightarrow> int) \<Rightarrow> settings \<Rightarrow> sample list \<Rightarrow> bench \<Rightarrow> (unit + bench) option" where
  "bench_loop rand cfg [] s = (if ended s then Some (Inr s) else None)"
| "bench_loop rand cfg (e # es) s =
     (if ended s then Some (Inr s)
      else do {
        r \<leftarrow> bench_turn rand (packet_size cfg) e s;
        (case r of
           Inl _ \<Rightarrow> Some (Inl ())
         | Inr s \<Rightarrow>
             if \<not> ended s \<and> length (ttotal s) = unat (samples cfg) then Some (Inr s)
             else bench_loop rand cfg es s) })"

datatype outcome =
    Usage_shown | Failed_to_run
  | Report u32 u32 u32 "stat option" "stat option" "stat option" "(u8 \<times> u8) list"

text \<open>
  \<open>allocated\<close>: the five buffers. \<open>stopped\<close>: a signal has arrived before the loop. The report holds the
  speed, the number of samples, the packet size, the three
  statistics and the differences that have been printed.
\<close>

definition bench_main ::
    "(u32 \<Rightarrow> u32) \<Rightarrow> (nat \<Rightarrow> int) \<Rightarrow> option_arg list \<Rightarrow> bool \<Rightarrow> int \<times> int \<Rightarrow> int \<times> int \<Rightarrow> bool \<Rightarrow> sample list
     \<Rightarrow> outcome option" where
  "bench_main B rand opts allocated port1 port2 stopped es =
     (case read_args B opts \<lparr>baudrate = 0, rate = 0, samples = 0, packet_size = 0\<rparr> of
        None \<Rightarrow> Some Usage_shown
      | Some cfg \<Rightarrow>
          if baudrate cfg = 0 \<or> samples cfg = 0 \<or> packet_size cfg = 0 then Some Usage_shown
          else if \<not> allocated then Some Failed_to_run
          else if serial_connect port1 < 0 \<or> serial_connect port2 < 0 then Some Failed_to_run
          else do {
            r \<leftarrow> bench_loop rand cfg es
              \<lparr>calls = 0, buffer = replicate (unat (packet_size cfg)) 0, ended = stopped, twrite = [], tread = [],
               ttotal = [], mismatches = []\<rparr>;
            Some (case r of
                Inl _ \<Rightarrow> Failed_to_run
              | Inr s \<Rightarrow> (let n = length (ttotal s) in
                  Report (rate cfg) (of_nat n) (packet_size cfg)
                    (statistics_of n (twrite s)) (statistics_of n (tread s)) (statistics_of n (ttotal s))
                    (mismatches s))) })"


section \<open>What the loops do\<close>

text \<open>The packet that is sent after \<open>k\<close> calls of \<open>rand\<close>.\<close>

definition random_packet :: "(nat \<Rightarrow> int) \<Rightarrow> nat \<Rightarrow> nat \<Rightarrow> u8 list" where
  "random_packet rand k n = map (\<lambda>m. word_of_int (rand (k + m) mod 255)) [0..<n]"

lemma index_step: "unat (of_nat j :: u8) = j" "(of_nat j :: u8) + 1 = of_nat (Suc j)"
  "unat (ucast (of_nat j :: u8) :: u32) = j" if "j \<le> 255"
proof -
  show "unat (of_nat j :: u8) = j" "unat (ucast (of_nat j :: u8) :: u32) = j"
    using that by (simp_all add: unat_of_nat unsigned_ucast_eq take_bit_nat_eq_self)
  show "(of_nat j :: u8) + 1 = of_nat (Suc j)"
    by simp
qed

lemma random_packet_Suc:
  "random_packet rand k (Suc n) = word_of_int (rand k mod 255) # random_packet rand (Suc k) n"
  by (simp add: random_packet_def map_upt_Suc del: upt_Suc)

lemma fill_loop_eq:
  assumes "unat psize = j + n" "unat psize \<le> 255" "length buf = unat psize"
  shows "fill_loop rand psize (of_nat j) k buf = Some (k + n, take j buf @ random_packet rand k n)"
  using assms
proof (induction n arbitrary: j k buf)
  case 0
  then show ?case
    using index_step [of j] by (simp add: fill_loop.simps word_less_nat_alt random_packet_def)
next
  case (Suc n)
  let ?b = "word_of_int (rand k mod 255) :: u8"
  have "fill_loop rand psize (of_nat (Suc j)) (k + 1) (buf[j := ?b])
      = Some (k + 1 + n, take (Suc j) (buf[j := ?b]) @ random_packet rand (k + 1) n)"
    using Suc.prems by (intro Suc.IH) simp_all
  moreover have "take (Suc j) (buf[j := ?b]) = take j buf @ [?b]"
    using Suc.prems by (simp add: take_Suc_conv_app_nth)
  ultimately show ?case
    using Suc.prems index_step [of j]
    by (simp add: fill_loop.simps [of _ _ "of_nat j"] word_less_nat_alt random_packet_Suc del: of_nat_Suc)
qed

lemma fill_loop_long: "fill_loop rand psize i k buf = Some r \<Longrightarrow> unat psize \<le> 255"
proof (rule fill_loop.raw_induct [where P = "\<lambda>rand psize i k buf r. unat psize \<le> 255"])
  fix f rand psize i k buf and r :: "nat \<times> u8 list"
  assume step: "\<And>rand psize i k buf r. f rand psize i k buf = Some r \<Longrightarrow> unat (psize :: u32) \<le> 255"
    and eq: "(if ucast (i :: u8) < psize
      then f rand psize (i + 1) (k + 1) (buf[unat i := word_of_int (rand k mod 255)])
      else Some (k, buf)) = Some r"
  show "unat psize \<le> 255"
  proof (cases "ucast i < psize")
    case True
    then show ?thesis using step eq by simp
  next
    case False
    have less: "unat i < 2 ^ 8"
      using unsigned_less [of i, where ?'a = nat] by simp
    then have "unat (ucast i :: u32) = unat i"
      by (simp add: unsigned_ucast_eq take_bit_nat_eq_self)
    then show ?thesis
      using False less by (simp add: word_less_nat_alt)
  qed
qed

lemma compare_loop_same:
  assumes "unat psize = j + n" "unat psize \<le> 255"
  shows "compare_loop buf buf psize (of_nat j) l = Some l"
  using assms
proof (induction n arbitrary: j)
  case 0
  then show ?case
    using index_step [of j] by (simp add: compare_loop.simps word_less_nat_alt)
next
  case (Suc n)
  then show ?case
    using index_step [of j] Suc.IH [of "Suc j"]
    by (simp add: compare_loop.simps [of _ _ _ "of_nat j"] word_less_nat_alt del: of_nat_Suc)
qed

lemma compare_loop_ends:
  assumes "unat psize = j + n" "unat psize \<le> 255"
  shows "\<exists>l'. compare_loop buf buf2 psize (of_nat j) l = Some l'"
  using assms
proof (induction n arbitrary: j l)
  case 0
  then show ?case
    using index_step [of j] by (simp add: compare_loop.simps word_less_nat_alt)
next
  case (Suc n)
  then show ?case
    using index_step [of j] Suc.IH [of "Suc j"]
    by (simp add: compare_loop.simps [of _ _ _ "of_nat j"] word_less_nat_alt del: of_nat_Suc)
qed

text \<open>A packet that arrives in pieces is put together.\<close>

lemma read_packet_pieces:
  assumes "\<forall>bs \<in> set bss. bs \<noteq> []" "length buf2 \<le> psize" "psize \<le> length buf2 + length (concat bss)"
  shows "read_packet psize (map (\<lambda>bs. (Bytes bs, False)) bss) buf2 d = Some (Inr (take psize (buf2 @ concat bss)), d)"
  using assms
proof (induction bss arbitrary: buf2)
  case (Cons bs bss)
  show ?case
  proof (cases "length buf2 = psize")
    case False
    let ?bs = "take (psize - length buf2) bs"
    have "?bs \<noteq> []"
      using Cons.prems False by auto
    moreover have "read_packet psize (map (\<lambda>bs. (Bytes bs, False)) bss) (buf2 @ ?bs) d
        = Some (Inr (take psize ((buf2 @ ?bs) @ concat bss)), d)"
      using Cons.prems by (intro Cons.IH) auto
    ultimately show ?thesis
      using False by (cases "length bs \<le> psize - length buf2") (simp_all add: Let_def)
  qed simp
qed simp


text \<open>
  The sample of a packet that arrives in pieces and unchanged, without an error or a signal: the
  \<open>i\<close>th packet of \<open>n\<close> bytes.
\<close>

definition delivered :: "(nat \<Rightarrow> int) \<Rightarrow> nat \<Rightarrow> nat \<Rightarrow> sample \<Rightarrow> bool" where
  "delivered rand n i e \<longleftrightarrow>
     0 \<le> written e \<and> \<not> signal e \<and> list_all (\<lambda>(a, sig). \<not> sig) (arrivals e) \<and>
     (\<exists>bss. map fst (arrivals e) = map Bytes bss \<and> [] \<notin> set bss \<and> concat bss = random_packet rand (i * n) n)"

lemma arrivals_delivered:
  assumes "list_all (\<lambda>(a, sig). \<not> sig) as" "map fst as = map Bytes bss"
  shows "as = map (\<lambda>bs. (Bytes bs, False)) bss"
  using assms
proof (induction bss arbitrary: as)
  case (Cons bs bss)
  then show ?case by (cases as) auto
qed simp

lemma length_random_packet [simp]: "length (random_packet rand k n) = n"
  by (simp add: random_packet_def)

text \<open>The values a sample adds.\<close>

definition add_sample :: "sample \<Rightarrow> bench \<Rightarrow> bench" where
  "add_sample e s = s\<lparr>twrite := twrite s @ [elapsed (t0 e) (t1 e)],
     tread := tread s @ [elapsed (t1 e) (t2 e)], ttotal := ttotal s @ [elapsed (t0 e) (t2 e)]\<rparr>"

lemma bench_turn_delivered:
  assumes "delivered rand (unat psize) i e" "unat psize \<le> 255" "length (buffer s) = unat psize"
    and "calls s = i * unat psize" "\<not> ended s"
  shows "bench_turn rand psize e s = Some (Inr (add_sample e
    (s\<lparr>calls := Suc i * unat psize, buffer := random_packet rand (i * unat psize) (unat psize)\<rparr>)))"
proof -
  let ?p = "random_packet rand (i * unat psize) (unat psize)"
  obtain bss where bss: "arrivals e = map (\<lambda>bs. (Bytes bs, False)) bss" "[] \<notin> set bss" "concat bss = ?p"
    using assms(1) arrivals_delivered unfolding delivered_def by blast
  have "\<forall>bs \<in> set bss. bs \<noteq> []"
    using bss(2) by auto
  then have "read_packet (unat psize) (arrivals e) [] False = Some (Inr ?p, False)"
    using read_packet_pieces [of bss "[]" "unat psize" False] by (simp add: bss)
  moreover have "fill_loop rand psize 0 (calls s) (buffer s) = Some (Suc i * unat psize, ?p)"
    using fill_loop_eq [of psize 0 "unat psize" "buffer s" rand "calls s"] assms by (simp add: add.commute)
  moreover have "compare_loop ?p ?p psize 0 [] = Some []"
    using compare_loop_same [of psize 0 "unat psize" ?p "[]"] assms(2) by simp
  ultimately show ?thesis
    using assms(1,5) by (simp add: bench_turn_def delivered_def add_sample_def not_less)
qed

lemma bench_loop_delivered:
  assumes "\<forall>m < length es. delivered rand (unat (packet_size cfg)) (i + m) (es ! m)" "es \<noteq> []"
    and "unat (packet_size cfg) \<le> 255" "length (buffer s) = unat (packet_size cfg)"
    and "calls s = i * unat (packet_size cfg)" "\<not> ended s"
    and "length (ttotal s) = i" "unat (samples cfg) = i + length es" "mismatches s = []"
  shows "\<exists>s'. bench_loop rand cfg (es @ es') s = Some (Inr s') \<and>
    twrite s' = twrite s @ map (\<lambda>e. elapsed (t0 e) (t1 e)) es \<and>
    tread s' = tread s @ map (\<lambda>e. elapsed (t1 e) (t2 e)) es \<and>
    ttotal s' = ttotal s @ map (\<lambda>e. elapsed (t0 e) (t2 e)) es \<and> mismatches s' = []"
  using assms
proof (induction es arbitrary: i s)
  case (Cons e es)
  let ?n = "unat (packet_size cfg)"
  let ?s = "add_sample e (s\<lparr>calls := Suc i * ?n, buffer := random_packet rand (i * ?n) ?n\<rparr>)"
  have turn: "bench_turn rand (packet_size cfg) e s = Some (Inr ?s)"
    using Cons.prems by (intro bench_turn_delivered) auto
  have sel: "\<not> ended ?s" "length (ttotal ?s) = Suc i" "calls ?s = Suc i * ?n" "length (buffer ?s) = ?n"
    "mismatches ?s = []"
    using Cons.prems by (simp_all add: add_sample_def)
  show ?case
  proof (cases "es = []")
    case True
    then show ?thesis
      using Cons.prems sel turn by (simp add: add_sample_def)
  next
    case False
    have later: "\<forall>m < length es. delivered rand ?n (Suc i + m) (es ! m)"
      using Cons.prems(1) by (auto dest: spec [of _ "Suc _"])
    have "\<exists>s'. bench_loop rand cfg (es @ es') ?s = Some (Inr s') \<and>
      twrite s' = twrite ?s @ map (\<lambda>e. elapsed (t0 e) (t1 e)) es \<and>
      tread s' = tread ?s @ map (\<lambda>e. elapsed (t1 e) (t2 e)) es \<and>
      ttotal s' = ttotal ?s @ map (\<lambda>e. elapsed (t0 e) (t2 e)) es \<and> mismatches s' = []"
      using Cons.prems(3,8) sel by (intro Cons.IH [OF later False]) simp_all
    moreover have "length (ttotal ?s) \<noteq> unat (samples cfg)"
      using sel(2) Cons.prems(8) False by simp
    ultimately show ?thesis
      using Cons.prems(6) sel(1) turn by (simp add: add_sample_def)
  qed
qed simp

lemma elapsed_sum: "elapsed t t' + elapsed t' t'' = elapsed t t''"
  by (simp add: elapsed_def micros_def flip: of_int_add)

definition usable :: "settings \<Rightarrow> bool" where
  "usable cfg \<longleftrightarrow> baudrate cfg \<noteq> 0 \<and> samples cfg \<noteq> 0 \<and> packet_size cfg \<noteq> 0"

abbreviation (input) "no_settings \<equiv> \<lparr>baudrate = 0, rate = 0, samples = 0, packet_size = 0\<rparr>"

text \<open>With packets of at most 255 bytes that arrive unchanged, in whatever pieces, the benchmark ends
  after exactly the number of samples asked for and reports the statistics of the times to write, to read
  and in total, and no difference.\<close>

theorem bench_measures:
  assumes "read_args B opts no_settings = Some cfg" "usable cfg" "unat (packet_size cfg) \<le> 255"
    and "fst port1 \<ge> 0" "snd port1 \<ge> 0" "fst port2 \<ge> 0" "snd port2 \<ge> 0"
    and "length es = unat (samples cfg)"
    and "\<forall>i < length es. delivered rand (unat (packet_size cfg)) i (es ! i)"
  shows "bench_main B rand opts True port1 port2 False (es @ es') =
    Some (Report (rate cfg) (samples cfg) (packet_size cfg)
      (statistics_of (length es) (map (\<lambda>e. elapsed (t0 e) (t1 e)) es))
      (statistics_of (length es) (map (\<lambda>e. elapsed (t1 e) (t2 e)) es))
      (statistics_of (length es) (map (\<lambda>e. elapsed (t0 e) (t2 e)) es)) [])"
proof -
  let ?s = "\<lparr>calls = 0, buffer = replicate (unat (packet_size cfg)) 0, ended = False, twrite = [], tread = [],
               ttotal = [], mismatches = []\<rparr>"
  have "es \<noteq> []"
    using assms(2,8) by (auto simp: usable_def unat_eq_0)
  then have "\<exists>s'. bench_loop rand cfg (es @ es') ?s = Some (Inr s') \<and>
    twrite s' = twrite ?s @ map (\<lambda>e. elapsed (t0 e) (t1 e)) es \<and>
    tread s' = tread ?s @ map (\<lambda>e. elapsed (t1 e) (t2 e)) es \<and>
    ttotal s' = ttotal ?s @ map (\<lambda>e. elapsed (t0 e) (t2 e)) es \<and> mismatches s' = []"
    using assms by (intro bench_loop_delivered [of es rand cfg 0]) simp_all
  then obtain s' where "bench_loop rand cfg (es @ es') ?s = Some (Inr s')"
    "twrite s' = map (\<lambda>e. elapsed (t0 e) (t1 e)) es" "tread s' = map (\<lambda>e. elapsed (t1 e) (t2 e)) es"
    "ttotal s' = map (\<lambda>e. elapsed (t0 e) (t2 e)) es" "mismatches s' = []"
    by auto
  then show ?thesis
    using assms by (simp add: bench_main_def usable_def serial_connect_def split_beta Let_def)
qed

definition two_samples :: "sample list" where
  "two_samples =
     [\<lparr>t0 = (7, 10), t1 = (7, 30), t2 = (7, 90), written = 3,
       arrivals = [(Bytes [0, 1], False), (Bytes [2], False)], signal = False\<rparr>,
      \<lparr>t0 = (8, 10), t1 = (8, 20), t2 = (8, 80), written = 3,
       arrivals = [(Bytes [3, 4, 5], False)], signal = False\<rparr>]"

theorem bench_measures_witness:
  "bench_main id int [Opt_b 500000, Opt_n 2, Opt_s 3] True (3, 0) (4, 0) False two_samples =
    Some (Report 500000 2 3 (statistics_of 2 [20, 10]) (statistics_of 2 [60, 60]) (statistics_of 2 [80, 70]) [])"
proof -
  let ?cfg = "\<lparr>baudrate = 500000, rate = 500000, samples = 2, packet_size = 3\<rparr>"
  have args: "read_args id [Opt_b 500000, Opt_n 2, Opt_s 3] no_settings = Some ?cfg"
    by simp
  have packets: "random_packet int 0 3 = concat [[0, 1], [2]]" "random_packet int 3 3 = concat [[3, 4, 5]]"
    by (simp_all add: random_packet_def upt_rec)
  have "delivered int 3 0 (two_samples ! 0)"
    unfolding delivered_def two_samples_def
    by (simp, rule exI [of _ "[[0, 1], [2]]"]) (use packets in simp)
  moreover have "delivered int 3 1 (two_samples ! 1)"
    unfolding delivered_def two_samples_def
    by (simp, rule exI [of _ "[[3, 4, 5]]"]) (use packets in simp)
  moreover have "i = 0 \<or> i = 1" if "i < length two_samples" for i
    using that by (auto simp: two_samples_def)
  ultimately have "\<forall>i < length two_samples. delivered int 3 i (two_samples ! i)"
    by metis
  then have "\<forall>i < length two_samples. delivered int (unat (packet_size ?cfg)) i (two_samples ! i)"
    by simp
  moreover have len: "length two_samples = 2"
    by (simp add: two_samples_def)
  moreover have "map (\<lambda>e. elapsed (t0 e) (t1 e)) two_samples = [20, 10]"
    "map (\<lambda>e. elapsed (t1 e) (t2 e)) two_samples = [60, 60]"
    "map (\<lambda>e. elapsed (t0 e) (t2 e)) two_samples = [80, 70]"
    by (simp_all add: two_samples_def elapsed_def micros_def)
  ultimately show ?thesis
    using bench_measures [OF args, of "(3, 0)" "(4, 0)" two_samples int "[]"] by (simp add: usable_def)
qed

text \<open>With a packet size of 256 or more the benchmark never ends once its ports are open: the 8-bit
  index of the loop that fills the packet never reaches the size, whatever the ports deliver.\<close>

theorem bench_never_ends:
  assumes "read_args B opts no_settings = Some cfg" "usable cfg" "unat (packet_size cfg) > 255"
    and "fst port1 \<ge> 0" "snd port1 \<ge> 0" "fst port2 \<ge> 0" "snd port2 \<ge> 0"
  shows "bench_main B rand opts True port1 port2 False es = None"
proof -
  have "fill_loop rand (packet_size cfg) i k buf = None" for i k buf
    using fill_loop_long [of rand "packet_size cfg" i k buf] assms(3)
    by (cases "fill_loop rand (packet_size cfg) i k buf") auto
  then have "bench_loop rand cfg es s = None" if "\<not> ended s" for s
    using that by (cases es) (simp_all add: bench_turn_def)
  then show ?thesis
    using assms by (simp add: bench_main_def usable_def serial_connect_def split_beta)
qed

theorem bench_never_ends_witness:
  "bench_main id int [Opt_b 500000, Opt_n 2, Opt_s 256] True (3, 0) (4, 0) False two_samples = None"
  using bench_never_ends [of id "[Opt_b 500000, Opt_n 2, Opt_s 256]"
      "\<lparr>baudrate = 500000, rate = 500000, samples = 2, packet_size = 256\<rparr>" "(3, 0)" "(4, 0)"]
  by (simp add: usable_def)

end
