(* ===== verification/HidParser.thy ===== *)
theory HidParser
  imports Prelude
begin

text \<open>
  \<open>Class/Host/HIDParser.c\<close> of LUFA: the parser of report descriptors a host uses, and the functions that
  read and write the items of a report. The filter of the application is a parameter. \<open>None\<close> is
  behaviour without a definition in C: a read or a write outside of an array. Fields of an item that are
  not initialised are \<open>None\<close>.
\<close>

section \<open>Data (\<open>HIDParser.h\<close>)\<close>

datatype HID_Parse_ErrorCodes_t =
    HID_PARSE_Successful | HID_PARSE_HIDStackOverflow | HID_PARSE_HIDStackUnderflow
  | HID_PARSE_InsufficientReportItems | HID_PARSE_UnexpectedEndCollection
  | HID_PARSE_InsufficientCollectionPaths | HID_PARSE_UsageListOverflow
  | HID_PARSE_InsufficientReportIDItems | HID_PARSE_NoUnfilteredReportItems

datatype item_type = In | Out | Feature

record HID_Usage_t =
  Page :: u16
  Usage :: u16

record HID_ReportItem_Attributes_t =
  BitSize :: u8
  ItemUsage :: HID_Usage_t
  UnitType :: u32
  UnitExponent :: u8
  LogicalMin :: u32
  LogicalMax :: u32
  PhysicalMin :: u32
  PhysicalMax :: u32

record HID_StateTable_t =
  Attributes :: HID_ReportItem_Attributes_t
  ReportCount :: u8
  ReportID :: u8

text \<open>Pointers to collections are indexes into their table.\<close>

record HID_CollectionPath_t =
  CollectionType :: u8
  CollectionUsage :: HID_Usage_t
  Parent :: "nat option"

record HID_ReportItem_t =
  BitOffset :: u16
  ItemType :: item_type
  ItemFlags :: u16
  ItemReportID :: u8
  CollectionPath :: "nat option"
  ItemAttributes :: HID_ReportItem_Attributes_t
  Value :: "u32 option"
  PreviousValue :: "u32 option"

record HID_ReportSizeInfo_t =
  SizeReportID :: u8
  ReportSizeBits :: "item_type \<Rightarrow> u16"

abbreviation (input) "HID_STATETABLE_STACK_DEPTH \<equiv> 2 :: nat"
abbreviation (input) "HID_USAGE_STACK_DEPTH \<equiv> 8 :: nat"
abbreviation (input) "HID_MAX_COLLECTIONS \<equiv> 10 :: nat"
abbreviation (input) "HID_MAX_REPORTITEMS \<equiv> 20 :: nat"
abbreviation (input) "HID_MAX_REPORT_IDS \<equiv> 10 :: nat"

record HID_ReportInfo_t =
  ReportItems :: "HID_ReportItem_t list"          \<comment> \<open>the first \<open>TotalReportItems\<close>\<close>
  CollectionPaths :: "HID_CollectionPath_t list"
  TotalDeviceReports :: nat
  ReportIDSizes :: "HID_ReportSizeInfo_t list"
  LargestReportSizeBits :: u16
  UsingReportIDs :: bool

text \<open>The local variables of the parser. The saved entries of the state table come with the last one first.\<close>

record parser = HID_ReportInfo_t +
  CurrState :: HID_StateTable_t
  SavedStates :: "HID_StateTable_t list"
  CurrCollectionPath :: "nat option"
  CurrReportIDInfo :: nat
  UsageList :: "u16 list"
  UsageMin :: u32
  UsageMax :: u32

abbreviation (input) "TYPE_MASK \<equiv> 0x0C :: u8"
abbreviation (input) "TAG_MASK \<equiv> 0xF0 :: u8"
abbreviation (input) "TYPE_MAIN \<equiv> 0x00 :: u8"
abbreviation (input) "TYPE_GLOBAL \<equiv> 0x04 :: u8"
abbreviation (input) "TYPE_LOCAL \<equiv> 0x08 :: u8"
abbreviation (input) "TAG_GLOBAL_PUSH \<equiv> 0xA0 :: u8"
abbreviation (input) "TAG_GLOBAL_POP \<equiv> 0xB0 :: u8"
abbreviation (input) "TAG_GLOBAL_USAGEPAGE \<equiv> 0x00 :: u8"
abbreviation (input) "TAG_GLOBAL_LOGICALMIN \<equiv> 0x10 :: u8"
abbreviation (input) "TAG_GLOBAL_LOGICALMAX \<equiv> 0x20 :: u8"
abbreviation (input) "TAG_GLOBAL_PHYSMIN \<equiv> 0x30 :: u8"
abbreviation (input) "TAG_GLOBAL_PHYSMAX \<equiv> 0x40 :: u8"
abbreviation (input) "TAG_GLOBAL_UNITEXP \<equiv> 0x50 :: u8"
abbreviation (input) "TAG_GLOBAL_UNIT \<equiv> 0x60 :: u8"
abbreviation (input) "TAG_GLOBAL_REPORTSIZE \<equiv> 0x70 :: u8"
abbreviation (input) "TAG_GLOBAL_REPORTCOUNT \<equiv> 0x90 :: u8"
abbreviation (input) "TAG_GLOBAL_REPORTID \<equiv> 0x80 :: u8"
abbreviation (input) "TAG_LOCAL_USAGE \<equiv> 0x00 :: u8"
abbreviation (input) "TAG_LOCAL_USAGEMIN \<equiv> 0x10 :: u8"
abbreviation (input) "TAG_LOCAL_USAGEMAX \<equiv> 0x20 :: u8"
abbreviation (input) "TAG_MAIN_COLLECTION \<equiv> 0xA0 :: u8"
abbreviation (input) "TAG_MAIN_ENDCOLLECTION \<equiv> 0xC0 :: u8"
abbreviation (input) "TAG_MAIN_INPUT \<equiv> 0x80 :: u8"
abbreviation (input) "TAG_MAIN_OUTPUT \<equiv> 0x90 :: u8"
abbreviation (input) "TAG_MAIN_FEATURE \<equiv> 0xB0 :: u8"
abbreviation (input) "IOF_CONSTANT \<equiv> 1 :: u32"

definition zero_attributes :: HID_ReportItem_Attributes_t where
  "zero_attributes = \<lparr>BitSize = 0, ItemUsage = \<lparr>Page = 0, Usage = 0\<rparr>, UnitType = 0, UnitExponent = 0,
     LogicalMin = 0, LogicalMax = 0, PhysicalMin = 0, PhysicalMax = 0\<rparr>"

definition parser_start :: parser where
  "parser_start =
     \<lparr>ReportItems = [],
      CollectionPaths = replicate HID_MAX_COLLECTIONS
        \<lparr>CollectionType = 0, CollectionUsage = \<lparr>Page = 0, Usage = 0\<rparr>, Parent = None\<rparr>,
      TotalDeviceReports = 1,
      ReportIDSizes = replicate HID_MAX_REPORT_IDS \<lparr>SizeReportID = 0, ReportSizeBits = \<lambda>_. 0\<rparr>,
      LargestReportSizeBits = 0, UsingReportIDs = False,
      CurrState = \<lparr>Attributes = zero_attributes, ReportCount = 0, ReportID = 0\<rparr>, SavedStates = [],
      CurrCollectionPath = None, CurrReportIDInfo = 0, UsageList = [], UsageMin = 0, UsageMax = 0\<rparr>"

section \<open>Items of the descriptor\<close>

type_synonym step = "((HID_Parse_ErrorCodes_t \<times> parser) + parser) option"

definition map_attributes ::
    "(HID_ReportItem_Attributes_t \<Rightarrow> HID_ReportItem_Attributes_t) \<Rightarrow> parser \<Rightarrow> step" where
  "map_attributes f s =
     Some (Inr (s\<lparr>CurrState := (CurrState s)\<lparr>Attributes := f (Attributes (CurrState s))\<rparr>\<rparr>))"

text \<open>
  PUSH copies \<open>sizeof(HID_ReportItem_t)\<close> bytes from an entry of the state table to the next one. That is
  more than an entry (the attributes and two bytes): source and destination overlap, and with the last
  entry as destination the copy ends outside of the table.
\<close>

definition push_item :: "parser \<Rightarrow> step" where
  "push_item s =
     (if length (SavedStates s) = HID_STATETABLE_STACK_DEPTH - 1 then Some (Inl (HID_PARSE_HIDStackOverflow, s))
      else None)"

definition pop_item :: "parser \<Rightarrow> step" where
  "pop_item s = (case SavedStates s of
       [] \<Rightarrow> Some (Inl (HID_PARSE_HIDStackUnderflow, s))
     | t # ts \<Rightarrow> Some (Inr (s\<lparr>CurrState := t, SavedStates := ts\<rparr>)))"

text \<open>The search through the reports known so far.\<close>

fun find_report :: "u8 \<Rightarrow> nat \<Rightarrow> HID_ReportSizeInfo_t list \<Rightarrow> nat option" where
  "find_report k i [] = None"
| "find_report k i (r # rs) = (if SizeReportID r = k then Some i else find_report k (i + 1) rs)"

definition report_id_item :: "u32 \<Rightarrow> parser \<Rightarrow> step" where
  "report_id_item d s =
     (let k = ucast d;
          s = s\<lparr>CurrState := (CurrState s)\<lparr>ReportID := k\<rparr>\<rparr>;
          use = (\<lambda>i s. Some (Inr (s\<lparr>UsingReportIDs := True, CurrReportIDInfo := i,
            ReportIDSizes := (ReportIDSizes s)[i := (ReportIDSizes s ! i)\<lparr>SizeReportID := k\<rparr>]\<rparr>)))
      in if UsingReportIDs s then
           (case find_report k 0 (take (TotalDeviceReports s) (ReportIDSizes s)) of
              Some i \<Rightarrow> use i s
            | None \<Rightarrow>
                if TotalDeviceReports s = HID_MAX_REPORT_IDS then Some (Inl (HID_PARSE_InsufficientReportIDItems, s))
                else (let i = TotalDeviceReports s
                      in use i (s\<lparr>TotalDeviceReports := i + 1,
                           ReportIDSizes := (ReportIDSizes s)[i := \<lparr>SizeReportID = 0, ReportSizeBits = \<lambda>_. 0\<rparr>]\<rparr>)))
         else use (CurrReportIDInfo s) s)"

definition usage_item :: "u32 \<Rightarrow> parser \<Rightarrow> step" where
  "usage_item d s =
     (if length (UsageList s) = HID_USAGE_STACK_DEPTH then Some (Inl (HID_PARSE_UsageListOverflow, s))
      else Some (Inr (s\<lparr>UsageList := UsageList s @ [ucast d]\<rparr>)))"

text \<open>
  The next usage of the list or the range, if there is one. The loop that moves the list down reads
  \<open>UsageList[UsageListSize]\<close>: with eight usages that is outside of the array.
\<close>

definition take_usage :: "parser \<Rightarrow> (u16 option \<times> parser) option" where
  "take_usage s = (case UsageList s of
       u # us \<Rightarrow> if length (UsageList s) = HID_USAGE_STACK_DEPTH then None else Some (Some u, s\<lparr>UsageList := us\<rparr>)
     | [] \<Rightarrow>
         if UsageMin s \<le> UsageMax s then Some (Some (ucast (UsageMin s)), s\<lparr>UsageMin := UsageMin s + 1\<rparr>)
         else Some (None, s))"

text \<open>The first collection from the second on without a parent; \<open>None\<close> when there is none.\<close>

fun free_path :: "nat \<Rightarrow> HID_CollectionPath_t list \<Rightarrow> nat option" where
  "free_path i [] = None"
| "free_path i (p # ps) = (if Parent p = None then Some i else free_path (i + 1) ps)"

definition collection_item :: "u32 \<Rightarrow> parser \<Rightarrow> step" where
  "collection_item d s =
     (case (case CurrCollectionPath s of
              None \<Rightarrow> Some (0, s)
            | Some parent \<Rightarrow>
                (case free_path 1 (tl (CollectionPaths s)) of
                   None \<Rightarrow> None
                 | Some i \<Rightarrow> Some (i, s\<lparr>CollectionPaths := (CollectionPaths s)[i := (CollectionPaths s ! i)\<lparr>Parent := Some parent\<rparr>]\<rparr>)))
      of None \<Rightarrow> Some (Inl (HID_PARSE_InsufficientCollectionPaths, s))
       | Some (i, s) \<Rightarrow> do {
           (u, s) \<leftarrow> take_usage s;
           let p = CollectionPaths s ! i;
           let usage = (CollectionUsage p)\<lparr>Page := Page (ItemUsage (Attributes (CurrState s)))\<rparr>;
           let usage = (case u of None \<Rightarrow> usage | Some u \<Rightarrow> usage\<lparr>Usage := u\<rparr>);
           Some (Inr (s\<lparr>CurrCollectionPath := Some i,
             CollectionPaths := (CollectionPaths s)[i := p\<lparr>CollectionType := ucast d, CollectionUsage := usage\<rparr>]\<rparr>)) })"

definition end_collection_item :: "parser \<Rightarrow> step" where
  "end_collection_item s = (case CurrCollectionPath s of
       None \<Rightarrow> Some (Inl (HID_PARSE_UnexpectedEndCollection, s))
     | Some i \<Rightarrow> Some (Inr (s\<lparr>CurrCollectionPath := Parent (CollectionPaths s ! i)\<rparr>)))"

text \<open>One turn of the loop over the report count. The filter is not asked about constant items.\<close>

definition new_item :: "item_type \<Rightarrow> u32 \<Rightarrow> u16 option \<Rightarrow> parser \<Rightarrow> HID_ReportItem_t" where
  "new_item ty d u s =
     (let a = Attributes (CurrState s)
      in \<lparr>BitOffset = ReportSizeBits (ReportIDSizes s ! CurrReportIDInfo s) ty, ItemType = ty, ItemFlags = ucast d,
          ItemReportID = ReportID (CurrState s), CollectionPath = CurrCollectionPath s,
          ItemAttributes = (case u of None \<Rightarrow> a | Some u \<Rightarrow> a\<lparr>ItemUsage := (ItemUsage a)\<lparr>Usage := u\<rparr>\<rparr>),
          Value = None, PreviousValue = None\<rparr>)"

definition report_item :: "(HID_ReportItem_t \<Rightarrow> bool) \<Rightarrow> item_type \<Rightarrow> u32 \<Rightarrow> parser \<Rightarrow> step" where
  "report_item filt ty d s = do {
     (u, s) \<leftarrow> take_usage s;
     let item = new_item ty d u s;
     let i = CurrReportIDInfo s;
     let r = ReportIDSizes s ! i;
     let s = s\<lparr>ReportIDSizes := (ReportIDSizes s)[i := r\<lparr>ReportSizeBits :=
         (ReportSizeBits r)(ty := ReportSizeBits r ty + ucast (BitSize (Attributes (CurrState s))))\<rparr>]\<rparr>;
     let s = (if LargestReportSizeBits s < BitOffset item then s\<lparr>LargestReportSizeBits := BitOffset item\<rparr> else s);
     Some (if d AND IOF_CONSTANT = 0 \<and> filt item then
             (if length (ReportItems s) = HID_MAX_REPORTITEMS then Inl (HID_PARSE_InsufficientReportItems, s)
              else Inr (s\<lparr>ReportItems := ReportItems s @ [item]\<rparr>))
           else Inr s) }"

fun report_items :: "(HID_ReportItem_t \<Rightarrow> bool) \<Rightarrow> item_type \<Rightarrow> u32 \<Rightarrow> nat \<Rightarrow> parser \<Rightarrow> step" where
  "report_items filt ty d 0 s = Some (Inr s)"
| "report_items filt ty d (Suc n) s = do {
     r \<leftarrow> report_item filt ty d s;
     (case r of Inl e \<Rightarrow> Some (Inl e) | Inr s \<Rightarrow> report_items filt ty d n s) }"


definition main_item :: "(HID_ReportItem_t \<Rightarrow> bool) \<Rightarrow> item_type \<Rightarrow> u32 \<Rightarrow> parser \<Rightarrow> step" where
  "main_item filt ty d s = report_items filt ty d (unat (ReportCount (CurrState s))) s"

text \<open>The switch over type and tag.\<close>

definition item_switch :: "(HID_ReportItem_t \<Rightarrow> bool) \<Rightarrow> u8 \<Rightarrow> u32 \<Rightarrow> parser \<Rightarrow> step" where
  "item_switch filt b d s =
     (let k = b AND (TYPE_MASK OR TAG_MASK)
      in if k = TYPE_GLOBAL OR TAG_GLOBAL_PUSH then push_item s
         else if k = TYPE_GLOBAL OR TAG_GLOBAL_POP then pop_item s
         else if k = TYPE_GLOBAL OR TAG_GLOBAL_USAGEPAGE then map_attributes (\<lambda>a. a\<lparr>ItemUsage := (ItemUsage a)\<lparr>Page := ucast d\<rparr>\<rparr>) s
         else if k = TYPE_GLOBAL OR TAG_GLOBAL_LOGICALMIN then map_attributes (\<lambda>a. a\<lparr>LogicalMin := d\<rparr>) s
         else if k = TYPE_GLOBAL OR TAG_GLOBAL_LOGICALMAX then map_attributes (\<lambda>a. a\<lparr>LogicalMax := d\<rparr>) s
         else if k = TYPE_GLOBAL OR TAG_GLOBAL_PHYSMIN then map_attributes (\<lambda>a. a\<lparr>PhysicalMin := d\<rparr>) s
         else if k = TYPE_GLOBAL OR TAG_GLOBAL_PHYSMAX then map_attributes (\<lambda>a. a\<lparr>PhysicalMax := d\<rparr>) s
         else if k = TYPE_GLOBAL OR TAG_GLOBAL_UNITEXP then map_attributes (\<lambda>a. a\<lparr>UnitExponent := ucast d\<rparr>) s
         else if k = TYPE_GLOBAL OR TAG_GLOBAL_UNIT then map_attributes (\<lambda>a. a\<lparr>UnitType := d\<rparr>) s
         else if k = TYPE_GLOBAL OR TAG_GLOBAL_REPORTSIZE then map_attributes (\<lambda>a. a\<lparr>BitSize := ucast d\<rparr>) s
         else if k = TYPE_GLOBAL OR TAG_GLOBAL_REPORTCOUNT then Some (Inr (s\<lparr>CurrState := (CurrState s)\<lparr>ReportCount := ucast d\<rparr>\<rparr>))
         else if k = TYPE_GLOBAL OR TAG_GLOBAL_REPORTID then report_id_item d s
         else if k = TYPE_LOCAL OR TAG_LOCAL_USAGE then usage_item d s
         else if k = TYPE_LOCAL OR TAG_LOCAL_USAGEMIN then Some (Inr (s\<lparr>UsageMin := d\<rparr>))
         else if k = TYPE_LOCAL OR TAG_LOCAL_USAGEMAX then Some (Inr (s\<lparr>UsageMax := d\<rparr>))
         else if k = TYPE_MAIN OR TAG_MAIN_COLLECTION then collection_item d s
         else if k = TYPE_MAIN OR TAG_MAIN_ENDCOLLECTION then end_collection_item s
         else if k = TYPE_MAIN OR TAG_MAIN_INPUT then main_item filt In d s
         else if k = TYPE_MAIN OR TAG_MAIN_OUTPUT then main_item filt Out d s
         else if k = TYPE_MAIN OR TAG_MAIN_FEATURE then main_item filt Feature d s
         else Some (Inr s))"

definition item_step :: "(HID_ReportItem_t \<Rightarrow> bool) \<Rightarrow> u8 \<Rightarrow> u32 \<Rightarrow> parser \<Rightarrow> step" where
  "item_step filt b d s = do {
     r \<leftarrow> item_switch filt b d s;
     Some (case r of
         Inl e \<Rightarrow> Inl e
       | Inr s \<Rightarrow> Inr (if b AND TYPE_MASK = TYPE_MAIN then s\<lparr>UsageList := [], UsageMin := 0, UsageMax := 0\<rparr> else s)) }"

definition data_size :: "u8 \<Rightarrow> nat" where
  "data_size b = (if b AND 3 = 3 then 4 else if b AND 3 = 2 then 2 else if b AND 3 = 1 then 1 else 0)"

text \<open>The loop over the descriptor, which the caller passes with its exact size.\<close>

function parse_items :: "(HID_ReportItem_t \<Rightarrow> bool) \<Rightarrow> u8 list \<Rightarrow> parser \<Rightarrow> step" where
  "parse_items filt [] s = Some (Inr s)"
| "parse_items filt (b # bs) s =
     (let n = data_size b
      in if length bs < n then None
         else do {
           r \<leftarrow> item_step filt b (word_rcat (rev (take n bs))) s;
           (case r of Inl e \<Rightarrow> Some (Inl e) | Inr s \<Rightarrow> parse_items filt (drop n bs) s) })"
  by pat_completeness auto
termination
  by (relation "measure (\<lambda>(filt, bs, s). length bs)") auto

text \<open>The return code and what has been stored.\<close>

definition USB_ProcessHIDReport ::
    "(HID_ReportItem_t \<Rightarrow> bool) \<Rightarrow> u8 list \<Rightarrow> (HID_Parse_ErrorCodes_t \<times> HID_ReportInfo_t) option" where
  "USB_ProcessHIDReport filt data = do {
     r \<leftarrow> parse_items filt data parser_start;
     Some (case r of
         Inl (e, s) \<Rightarrow> (e, HID_ReportInfo_t.truncate s)
       | Inr s \<Rightarrow> (if ReportItems s = [] then HID_PARSE_NoUnfilteredReportItems else HID_PARSE_Successful,
                   HID_ReportInfo_t.truncate s)) }"

section \<open>Items of a report\<close>

text \<open>
  The loop of \<open>USB_GetHIDReportItemInfo\<close>: the number of bits left, the current bit, the mask and the value.
  The length of the report is not checked.
\<close>

fun get_loop :: "u8 list \<Rightarrow> nat \<Rightarrow> u16 \<Rightarrow> u32 \<Rightarrow> u32 \<Rightarrow> u32 option" where
  "get_loop data 0 cur m v = Some v"
| "get_loop data (Suc n) cur m v =
     (let i = unat (cur div 8)
      in if i < length data
         then get_loop data n (cur + 1) (push_bit 1 m) (if bit (data ! i) (unat (cur mod 8)) then v OR m else v)
         else None)"

definition USB_GetHIDReportItemInfo :: "u8 list \<Rightarrow> HID_ReportItem_t \<Rightarrow> (bool \<times> HID_ReportItem_t) option" where
  "USB_GetHIDReportItemInfo data item =
     (let item = item\<lparr>PreviousValue := Value item, Value := Some 0\<rparr>
      in if ItemReportID item \<noteq> 0 \<and> data = [] then None
         else if ItemReportID item \<noteq> 0 \<and> ItemReportID item \<noteq> hd data then Some (False, item)
         else do {
           v \<leftarrow> get_loop (if ItemReportID item \<noteq> 0 then tl data else data)
             (unat (BitSize (ItemAttributes item))) (BitOffset item) 1 0;
           Some (True, item\<lparr>Value := Some v\<rparr>) })"

text \<open>The loop of \<open>USB_SetHIDReportItemInfo\<close>: the mask and the bit of the byte change places.\<close>

fun set_loop :: "u32 \<Rightarrow> nat \<Rightarrow> u16 \<Rightarrow> u32 \<Rightarrow> u8 list \<Rightarrow> u8 list option" where
  "set_loop v 0 cur m data = Some data"
| "set_loop v (Suc n) cur m data =
     (let i = unat (cur div 8)
      in if bit v (unat (cur mod 8))
         then (if i < length data then set_loop v n (cur + 1) (push_bit 1 m) (data[i := data ! i OR ucast m]) else None)
         else set_loop v n (cur + 1) (push_bit 1 m) data)"

definition USB_SetHIDReportItemInfo :: "u8 list \<Rightarrow> HID_ReportItem_t \<Rightarrow> (u8 list \<times> HID_ReportItem_t) option" where
  "USB_SetHIDReportItemInfo data item =
     (case Value item of
        None \<Rightarrow> None
      | Some v \<Rightarrow>
          (let n = unat (BitSize (ItemAttributes item)); item' = item\<lparr>PreviousValue := Some v\<rparr>
           in if ItemReportID item \<noteq> 0 then
                (case data of
                   [] \<Rightarrow> None
                 | _ # rest \<Rightarrow> do {
                     rest \<leftarrow> set_loop v n (BitOffset item) 1 rest;
                     Some (ItemReportID item # rest, item') })
              else do { data \<leftarrow> set_loop v n (BitOffset item) 1 data; Some (data, item') }))"

definition size_bytes :: "u16 \<Rightarrow> u16" where
  "size_bytes bits = drop_bit 3 bits + (if bits AND 7 \<noteq> 0 then 1 else 0)"

definition USB_GetHIDReportSize :: "HID_ReportInfo_t \<Rightarrow> u8 \<Rightarrow> item_type \<Rightarrow> u16" where
  "USB_GetHIDReportSize p k ty =
     (case find_report k 0 (ReportIDSizes p) of
        None \<Rightarrow> 0
      | Some i \<Rightarrow> size_bytes (ReportSizeBits (ReportIDSizes p ! i) ty))"

end
