(* ===== verification/HidProofs.thy ===== *)
theory HidProofs
  imports HidParser
begin

text \<open>
  What the parser guarantees: its tables stay within their bounds and the collections form trees; the items of
  a report do not overlap and lie within the size of the report; reading an item gives its bits. And what it
  does not: PUSH has no defined result, and writing an item is right only within one byte.
\<close>

section \<open>The tables\<close>

text \<open>The collections that are in use after the first one have a parent, and it comes before them.\<close>

definition paths_ok :: "HID_CollectionPath_t list \<Rightarrow> bool" where
  "paths_ok ps \<longleftrightarrow> length ps = HID_MAX_COLLECTIONS \<and>
     (\<forall>i < length ps. \<forall>j. Parent (ps ! i) = Some j \<longrightarrow> j < i) \<and>
     (\<forall>i < length ps. \<forall>k. Parent (ps ! i) \<noteq> None \<and> 0 < k \<and> k \<le> i \<longrightarrow> Parent (ps ! k) \<noteq> None)"

definition used_path :: "HID_CollectionPath_t list \<Rightarrow> nat option \<Rightarrow> bool" where
  "used_path ps c \<longleftrightarrow> (case c of None \<Rightarrow> True | Some i \<Rightarrow> i < length ps \<and> (i = 0 \<or> Parent (ps ! i) \<noteq> None))"

definition parser_ok :: "parser \<Rightarrow> bool" where
  "parser_ok s \<longleftrightarrow>
     paths_ok (CollectionPaths s) \<and> used_path (CollectionPaths s) (CurrCollectionPath s) \<and>
     (\<forall>i < HID_MAX_COLLECTIONS. used_path (CollectionPaths s) (Parent (CollectionPaths s ! i))) \<and>
     (\<forall>it \<in> set (ReportItems s). used_path (CollectionPaths s) (CollectionPath it)) \<and>
     length (ReportItems s) \<le> HID_MAX_REPORTITEMS \<and> length (ReportIDSizes s) = HID_MAX_REPORT_IDS \<and>
     TotalDeviceReports s \<le> HID_MAX_REPORT_IDS \<and> CurrReportIDInfo s < TotalDeviceReports s \<and>
     length (UsageList s) \<le> HID_USAGE_STACK_DEPTH \<and> SavedStates s = []"

text \<open>Conditions on the state an item leads to, when it fails (\<open>Q\<close>) and when it succeeds (\<open>P\<close>).\<close>

definition leads_to :: "(parser \<Rightarrow> bool) \<Rightarrow> (parser \<Rightarrow> bool) \<Rightarrow> step \<Rightarrow> bool" where
  "leads_to Q P r \<longleftrightarrow> (\<forall>e t. r = Some (Inl (e, t)) \<longrightarrow> Q t) \<and> (\<forall>t. r = Some (Inr t) \<longrightarrow> P t)"

lemma leads_to_simps [simp]:
  "leads_to Q P None" "leads_to Q P (Some (Inl (e, t))) \<longleftrightarrow> Q t" "leads_to Q P (Some (Inr t)) \<longleftrightarrow> P t"
  by (auto simp: leads_to_def)

lemma leads_to_conj: "leads_to Q P r \<Longrightarrow> leads_to Q' P' r \<Longrightarrow> leads_to Q' (\<lambda>s. P s \<and> P' s) r"
  by (auto simp: leads_to_def)

lemma leads_to_bind:
  assumes "leads_to Q P r" "\<And>t. r = Some (Inr t) \<Longrightarrow> P t \<Longrightarrow> leads_to Q P (f t)"
  shows "leads_to Q P (r \<bind> (\<lambda>r. case r of Inl e \<Rightarrow> Some (Inl e) | Inr s \<Rightarrow> f s))"
proof (cases r)
  case (Some x)
  then show ?thesis
    using assms by (cases x) auto
qed simp

lemma find_report_Some:
  "find_report k i rs = Some j \<Longrightarrow> i \<le> j \<and> j < i + length rs \<and> SizeReportID (rs ! (j - i)) = k \<and>
    (\<forall>m < j - i. SizeReportID (rs ! m) \<noteq> k)"
proof (induction k i rs rule: find_report.induct)
  case (2 k i r rs)
  show ?case
  proof (cases "SizeReportID r = k")
    case False
    then have "i + 1 \<le> j \<and> j < i + 1 + length rs \<and> SizeReportID (rs ! (j - (i + 1))) = k \<and>
      (\<forall>m < j - (i + 1). SizeReportID (rs ! m) \<noteq> k)"
      using 2 by simp
    then show ?thesis
      using False by (auto simp: nth_Cons' less_Suc_eq_0_disj)
  qed (use 2 in auto)
qed simp

lemma find_report_None: "find_report k i rs = None \<longleftrightarrow> (\<forall>r \<in> set rs. SizeReportID r \<noteq> k)"
  by (induction k i rs rule: find_report.induct) auto

lemma free_path_Some:
  "free_path i ps = Some j \<Longrightarrow> i \<le> j \<and> j < i + length ps \<and> Parent (ps ! (j - i)) = None \<and>
    (\<forall>m < j - i. Parent (ps ! m) \<noteq> None)"
proof (induction i ps rule: free_path.induct)
  case (2 i p ps)
  show ?case
  proof (cases "Parent p = None")
    case False
    then have "free_path (i + 1) ps = Some j"
      using 2(2) by (simp split: if_splits)
    from 2(1) [OF False this] show ?thesis
      using False by (auto simp: nth_Cons' less_Suc_eq_0_disj)
  qed (use 2 in auto)
qed simp

lemma parser_start_ok: "parser_ok parser_start"
  by (simp add: parser_ok_def parser_start_def paths_ok_def used_path_def)

text \<open>Changes that the well-formedness does not see.\<close>

lemma parser_ok_updates [simp]:
  "parser_ok (s\<lparr>CurrState := c\<rparr>) = parser_ok s" "parser_ok (s\<lparr>UsageMin := d\<rparr>) = parser_ok s"
  "parser_ok (s\<lparr>UsageMax := d\<rparr>) = parser_ok s" "parser_ok (s\<lparr>LargestReportSizeBits := l\<rparr>) = parser_ok s"
  "parser_ok (s\<lparr>UsingReportIDs := u\<rparr>) = parser_ok s"
  by (simp_all add: parser_ok_def)

lemma take_usage_ok:
  assumes "take_usage s = Some (u, t)" "parser_ok s"
  shows "parser_ok t" "\<exists>l m. t = s\<lparr>UsageList := l, UsageMin := m\<rparr>"
proof -
  from assms show "parser_ok t"
    by (auto simp: take_usage_def parser_ok_def split: list.splits if_splits)
  have "t = s\<lparr>UsageList := UsageList t, UsageMin := UsageMin t\<rparr>"
    using assms(1) by (auto simp: take_usage_def split: list.splits if_splits)
  then show "\<exists>l m. t = s\<lparr>UsageList := l, UsageMin := m\<rparr>"
    by blast
qed

lemma report_id_item_ok: "parser_ok s \<Longrightarrow> leads_to parser_ok parser_ok (report_id_item d s)"
  by (auto simp: report_id_item_def Let_def parser_ok_def dest!: find_report_Some split: option.splits)

lemma report_item_ok: "parser_ok s \<Longrightarrow> leads_to parser_ok parser_ok (report_item filt ty d s)"
proof -
  assume s: "parser_ok s"
  show ?thesis
  proof (cases "take_usage s")
    case (Some ut)
    obtain u t where ut: "ut = (u, t)" by force
    have t: "parser_ok t"
      using take_usage_ok(1) [of s u t] Some ut s by simp
    then show ?thesis
      using Some ut by (auto simp: report_item_def Let_def parser_ok_def new_item_def)
  qed (simp add: report_item_def)
qed

text \<open>A new collection: the first one, or the first free one below the current one.\<close>

definition new_path :: "parser \<Rightarrow> (nat \<times> parser) option" where
  "new_path s = (case CurrCollectionPath s of
       None \<Rightarrow> Some (0, s)
     | Some parent \<Rightarrow> map_option (\<lambda>i. (i, s\<lparr>CollectionPaths := (CollectionPaths s)[i := (CollectionPaths s ! i)\<lparr>Parent := Some parent\<rparr>]\<rparr>))
         (free_path 1 (tl (CollectionPaths s))))"

lemma collection_item_eq:
  "collection_item d s = (case new_path s of
       None \<Rightarrow> Some (Inl (HID_PARSE_InsufficientCollectionPaths, s))
     | Some (i, t) \<Rightarrow> do {
         (u, t) \<leftarrow> take_usage t;
         let p = CollectionPaths t ! i;
         let usage = (CollectionUsage p)\<lparr>Page := Page (ItemUsage (Attributes (CurrState t)))\<rparr>;
         let usage = (case u of None \<Rightarrow> usage | Some u \<Rightarrow> usage\<lparr>Usage := u\<rparr>);
         Some (Inr (t\<lparr>CurrCollectionPath := Some i,
           CollectionPaths := (CollectionPaths t)[i := p\<lparr>CollectionType := ucast d, CollectionUsage := usage\<rparr>]\<rparr>)) })"
  by (auto simp: collection_item_def new_path_def split: option.split)

lemma parent_update:
  "k < length ps \<Longrightarrow> Parent (ps[i := (ps ! i)\<lparr>Parent := x\<rparr>] ! k) = (if k = i then x else Parent (ps ! k))"
  "k < length ps \<Longrightarrow> Parent (ps[i := (ps ! i)\<lparr>CollectionType := a, CollectionUsage := b\<rparr>] ! k) = Parent (ps ! k)"
  by (cases "k = i"; simp)+

lemma new_path_place:
  assumes "free_path 1 (tl ps) = Some i" "paths_ok ps" "used_path ps (Some j)"
  shows "j < i" "i < length ps" "Parent (ps ! i) = None" "\<forall>k. 0 < k \<and> k < i \<longrightarrow> Parent (ps ! k) \<noteq> None"
proof -
  obtain p qs where ps: "ps = p # qs"
    using assms(2) by (cases ps) (auto simp: paths_ok_def)
  note f = free_path_Some [OF assms(1)]
  show i: "i < length ps" "Parent (ps ! i) = None"
    using f by (auto simp: ps nth_Cons')
  show before: "\<forall>k. 0 < k \<and> k < i \<longrightarrow> Parent (ps ! k) \<noteq> None"
  proof (intro allI impI)
    fix k
    assume "0 < k \<and> k < i"
    then have "Parent (qs ! (k - 1)) \<noteq> None"
      using f by (auto simp: ps)
    then show "Parent (ps ! k) \<noteq> None"
      using \<open>0 < k \<and> k < i\<close> by (simp add: ps nth_Cons')
  qed
  have "0 < i"
    using f by simp
  show "j < i"
  proof (rule ccontr)
    assume "\<not> j < i"
    then have "Parent (ps ! j) \<noteq> None" "j < length ps" "i \<le> j"
      using assms(3) \<open>0 < i\<close> by (auto simp: used_path_def)
    then have "Parent (ps ! i) \<noteq> None"
      using assms(2) \<open>0 < i\<close> unfolding paths_ok_def by blast
    with i show False
      by simp
  qed
qed

lemma paths_ok_new:
  assumes "paths_ok ps" "j < i" "i < length ps" "Parent (ps ! i) = None"
    and "\<forall>k. 0 < k \<and> k < i \<longrightarrow> Parent (ps ! k) \<noteq> None"
  shows "paths_ok (ps[i := (ps ! i)\<lparr>Parent := Some j\<rparr>])"
  unfolding paths_ok_def
proof (intro conjI allI impI)
  let ?ps = "ps[i := (ps ! i)\<lparr>Parent := Some j\<rparr>]"
  show "length ?ps = HID_MAX_COLLECTIONS"
    using assms(1) by (simp add: paths_ok_def)
  show "b < a" if "a < length ?ps" "Parent (?ps ! a) = Some b" for a b
    using that assms(1,2) by (auto simp: paths_ok_def parent_update split: if_splits)
  show "Parent (?ps ! k) \<noteq> None" if "a < length ?ps" "Parent (?ps ! a) \<noteq> None \<and> 0 < k \<and> k \<le> a" for a k
  proof (cases "a = i \<or> k = i")
    case True
    then show ?thesis
      using that assms(3,5) by (cases "k = i") (auto simp: parent_update)
  next
    case False
    then have "Parent (ps ! a) \<noteq> None" "a < length ps" "k \<le> a" "0 < k"
      using that by auto
    then have "Parent (ps ! k) \<noteq> None"
      using assms(1) unfolding paths_ok_def by blast
    then show ?thesis
      using False by simp
  qed
qed

lemma used_path_update:
  assumes "used_path ps c" "length qs = length ps" "\<And>i. Parent (ps ! i) \<noteq> None \<Longrightarrow> i < length ps \<Longrightarrow> Parent (qs ! i) \<noteq> None"
  shows "used_path qs c"
  using assms by (auto simp: used_path_def split: option.splits)

lemma new_path_ok:
  assumes "new_path s = Some (i, t)" "parser_ok s"
  shows "parser_ok t" "used_path (CollectionPaths t) (Some i)"
proof -
  have "parser_ok t \<and> used_path (CollectionPaths t) (Some i)"
  proof (cases "CurrCollectionPath s")
    case None
    then show ?thesis
      using assms by (auto simp: new_path_def used_path_def parser_ok_def paths_ok_def)
  next
    case (Some j)
    let ?ps = "CollectionPaths s"
    let ?qs = "?ps[i := (?ps ! i)\<lparr>Parent := Some j\<rparr>]"
    have free: "free_path 1 (tl ?ps) = Some i" and t: "t = s\<lparr>CollectionPaths := ?qs\<rparr>"
      using assms(1) Some by (auto simp: new_path_def)
    have j: "used_path ?ps (Some j)" and ps: "paths_ok ?ps"
      using assms(2) Some by (simp_all add: parser_ok_def)
    note place = new_path_place [OF free ps j]
    have qs: "paths_ok ?qs"
      by (rule paths_ok_new [OF ps place])
    have more: "used_path ?qs c" if "used_path ?ps c" for c
      by (rule used_path_update [OF that]) (auto simp: parent_update)
    have "used_path ?qs (Parent (?qs ! k))" if "k < HID_MAX_COLLECTIONS" for k
    proof (cases "k = i")
      case True
      then show ?thesis
        using place(2) more [OF j] by simp
    next
      case False
      then show ?thesis
        using that assms(2) more by (simp add: parser_ok_def)
    qed
    then have "parser_ok t"
      using assms(2) qs more by (auto simp: parser_ok_def t)
    moreover have "used_path (CollectionPaths t) (Some i)"
      using place(2) by (simp add: t used_path_def)
    ultimately show ?thesis ..
  qed
  then show "parser_ok t" "used_path (CollectionPaths t) (Some i)"
    by simp_all
qed

lemma parser_ok_collection:
  assumes "parser_ok t" "used_path (CollectionPaths t) (Some i)"
  shows "parser_ok (t\<lparr>CurrCollectionPath := Some i, CollectionPaths := (CollectionPaths t)[i := (CollectionPaths t ! i)\<lparr>CollectionType := a, CollectionUsage := b\<rparr>]\<rparr>)"
proof -
  let ?ps = "CollectionPaths t"
  let ?qs = "?ps[i := (?ps ! i)\<lparr>CollectionType := a, CollectionUsage := b\<rparr>]"
  have parent: "Parent (?qs ! k) = Parent (?ps ! k)" if "k < length ?ps" for k
    using that by (rule parent_update)
  have "used_path ?qs c = used_path ?ps c" for c
    using parent by (auto simp: used_path_def split: option.split)
  moreover have "paths_ok ?qs = paths_ok ?ps"
    unfolding paths_ok_def using parent by (auto simp del: nth_list_update_eq)
  moreover have "length ?ps = HID_MAX_COLLECTIONS"
    using assms(1) by (simp add: parser_ok_def paths_ok_def)
  ultimately show ?thesis
    using assms parent by (auto simp: parser_ok_def)
qed

lemma collection_item_ok:
  assumes "parser_ok s"
  shows "leads_to parser_ok parser_ok (collection_item d s)"
proof (cases "new_path s")
  case None
  then show ?thesis
    using assms by (simp add: collection_item_eq)
next
  case (Some it)
  obtain i t where it: "it = (i, t)"
    by force
  note t = new_path_ok [OF Some [unfolded it] assms]
  show ?thesis
  proof (cases "take_usage t")
    case (Some uv)
    obtain u v where uv: "uv = (u, v)"
      by force
    have "parser_ok v"
      using take_usage_ok(1) [OF Some [unfolded uv] t(1)] .
    moreover have "CollectionPaths v = CollectionPaths t"
      using take_usage_ok(2) [OF Some [unfolded uv] t(1)] by auto
    ultimately show ?thesis
      using \<open>new_path s = Some it\<close> Some parser_ok_collection [of v i] t(2)
      by (simp add: collection_item_eq it uv Let_def)
  qed (use \<open>new_path s = Some it\<close> in \<open>simp add: collection_item_eq it\<close>)
qed


section \<open>Invariants of the parser\<close>

text \<open>
  The loop over the descriptor, with a condition \<open>guard\<close> on the state before every item that adds to a
  report.
\<close>

definition adds_items :: "u8 \<Rightarrow> bool" where
  "adds_items b \<longleftrightarrow> b AND (TYPE_MASK OR TAG_MASK) \<in> {0x80, 0x90, 0xB0}"

function guarded ::
    "(parser \<Rightarrow> bool) \<Rightarrow> (HID_ReportItem_t \<Rightarrow> bool) \<Rightarrow> u8 list \<Rightarrow> parser \<Rightarrow> bool" where
  "guarded guard filt [] s = True"
| "guarded guard filt (b # bs) s =
     ((adds_items b \<longrightarrow> guard s) \<and>
      (case item_step filt b (word_rcat (rev (take (data_size b) bs))) s of
         Some (Inr s) \<Rightarrow> guarded guard filt (drop (data_size b) bs) s
       | _ \<Rightarrow> True))"
  by pat_completeness auto
termination
  by (relation "measure (\<lambda>(g, filt, bs, s). length bs)") auto

locale parser_invariant =
  fixes filt :: "HID_ReportItem_t \<Rightarrow> bool" and Q P guard :: "parser \<Rightarrow> bool"
  assumes start: "P parser_start"
    and weaken: "P s \<Longrightarrow> Q s"
    and attributes: "P s \<Longrightarrow> P (s\<lparr>CurrState := (CurrState s)\<lparr>Attributes := a\<rparr>\<rparr>)"
    and count: "P s \<Longrightarrow> P (s\<lparr>CurrState := (CurrState s)\<lparr>ReportCount := n\<rparr>\<rparr>)"
    and usages: "P s \<Longrightarrow> length l \<le> HID_USAGE_STACK_DEPTH \<Longrightarrow> P (s\<lparr>UsageList := l, UsageMin := m, UsageMax := x\<rparr>)"
    and no_saved: "P s \<Longrightarrow> SavedStates s = []"
    and few_usages: "P s \<Longrightarrow> length (UsageList s) \<le> HID_USAGE_STACK_DEPTH"
    and id_item: "P s \<Longrightarrow> leads_to Q P (report_id_item d s)"
    and collection: "P s \<Longrightarrow> leads_to Q P (collection_item d s)"
    and end_collection: "P s \<Longrightarrow> leads_to Q P (end_collection_item s)"
    and main: "P s \<Longrightarrow> guard s \<Longrightarrow> leads_to Q P (main_item filt ty d s)"
begin

lemma usages':
  assumes "P s"
  shows "length l \<le> HID_USAGE_STACK_DEPTH \<Longrightarrow> P (s\<lparr>UsageList := l\<rparr>)" "P (s\<lparr>UsageMin := m\<rparr>)" "P (s\<lparr>UsageMax := x\<rparr>)"
  using usages [OF assms, where l = l and m = "UsageMin s" and x = "UsageMax s"]
    usages [OF assms few_usages [OF assms], where m = m and x = "UsageMax s"]
    usages [OF assms few_usages [OF assms], where m = "UsageMin s" and x = x]
  by simp_all

lemma switch_keeps:
  assumes "P s" "adds_items b \<longrightarrow> guard s"
  shows "leads_to Q P (item_switch filt b d s)"
proof -
  have "leads_to Q P (push_item s)" "leads_to Q P (pop_item s)" "leads_to Q P (usage_item d s)"
    using assms(1) weaken usages'(1) [OF assms(1)] few_usages [OF assms(1)] no_saved [OF assms(1)]
    by (auto simp: push_item_def pop_item_def usage_item_def)
  moreover have "leads_to Q P (map_attributes f s)" for f
    using attributes [OF assms(1)] by (simp add: map_attributes_def)
  moreover have "leads_to Q P (main_item filt ty d s)" if "adds_items b" for ty
    using main assms that by blast
  ultimately show ?thesis
    using assms(1) usages'(2,3) [OF assms(1)] count [OF assms(1)] id_item [OF assms(1)] collection [OF assms(1)]
      end_collection [OF assms(1)]
    by (auto simp: item_switch_def Let_def adds_items_def)
qed

lemma item_step_keeps:
  assumes "P s" "adds_items b \<longrightarrow> guard s"
  shows "leads_to Q P (item_step filt b d s)"
proof (cases "item_switch filt b d s")
  case (Some r)
  then show ?thesis
    using switch_keeps [OF assms, of d] usages by (cases r) (auto simp: item_step_def)
qed (simp add: item_step_def)

lemma parse_keeps:
  "P s \<Longrightarrow> guarded guard filt bs s \<Longrightarrow> leads_to Q P (parse_items filt bs s)"
proof (induction "length bs" arbitrary: bs s rule: less_induct)
  case less
  show ?case
  proof (cases bs)
    case (Cons b cs)
    let ?r = "item_step filt b (word_rcat (rev (take (data_size b) cs))) s"
    have "leads_to Q P ?r"
      using less.prems Cons by (intro item_step_keeps) simp_all
    then have "leads_to Q P (?r \<bind> (\<lambda>r. case r of Inl e \<Rightarrow> Some (Inl e) | Inr s \<Rightarrow> parse_items filt (drop (data_size b) cs) s))"
    proof (rule leads_to_bind)
      fix t
      assume "?r = Some (Inr t)" "P t"
      then show "leads_to Q P (parse_items filt (drop (data_size b) cs) t)"
        using less.prems(2) Cons by (intro less.hyps) auto
    qed
    then show ?thesis
      by (simp add: Cons Let_def)
  qed (use less.prems in simp)
qed

end

lemma guarded_True [simp]: "guarded (\<lambda>_. True) filt bs s"
proof (induction "length bs" arbitrary: bs s rule: less_induct)
  case less
  then show ?case
    by (cases bs) (auto split: option.split sum.split)
qed

lemma main_item_ok:
  assumes "\<And>s. P s \<Longrightarrow> leads_to P P (report_item filt ty d s)" "P s"
  shows "leads_to P P (main_item filt ty d s)"
proof -
  have "leads_to P P (report_items filt ty d n s)" for n
    using assms(2)
  proof (induction n arbitrary: s)
    case (Suc n)
    show ?case
      using leads_to_bind [OF assms(1) [OF Suc.prems] Suc.IH] by simp
  qed simp
  then show ?thesis
    by (simp add: main_item_def)
qed

lemma end_collection_item_ok:
  assumes "parser_ok s"
  shows "leads_to parser_ok parser_ok (end_collection_item s)"
proof (cases "CurrCollectionPath s")
  case (Some i)
  then have "i < HID_MAX_COLLECTIONS"
    using assms by (simp add: parser_ok_def used_path_def paths_ok_def)
  then have "used_path (CollectionPaths s) (Parent (CollectionPaths s ! i))"
    using assms by (simp add: parser_ok_def)
  then show ?thesis
    using assms Some by (simp add: end_collection_item_def parser_ok_def)
qed (use assms in \<open>simp add: end_collection_item_def\<close>)

interpretation tables: parser_invariant filt parser_ok parser_ok "\<lambda>_. True"
proof unfold_locales
  show "parser_ok parser_start"
    by (rule parser_start_ok)
next
  fix s l m x
  assume "parser_ok s" "length (l :: u16 list) \<le> HID_USAGE_STACK_DEPTH"
  then show "parser_ok (s\<lparr>UsageList := l, UsageMin := m, UsageMax := x\<rparr>)"
    by (simp add: parser_ok_def)
next
  fix s :: parser
  assume "parser_ok s"
  then show "SavedStates s = []" "length (UsageList s) \<le> HID_USAGE_STACK_DEPTH"
    by (simp_all add: parser_ok_def)
next
  show "parser_ok s \<Longrightarrow> leads_to parser_ok parser_ok (report_id_item d s)" for s d
    by (rule report_id_item_ok)
  show "parser_ok s \<Longrightarrow> leads_to parser_ok parser_ok (collection_item d s)" for s d
    by (rule collection_item_ok)
  show "parser_ok s \<Longrightarrow> leads_to parser_ok parser_ok (end_collection_item s)" for s d
    by (rule end_collection_item_ok)
  show "parser_ok s \<Longrightarrow> leads_to parser_ok parser_ok (main_item filt ty d s)" for s ty d
    by (rule main_item_ok [OF report_item_ok])
qed simp_all

lemma process_result:
  assumes "USB_ProcessHIDReport filt data = Some (e, p)"
    and "\<And>r. parse_items filt data parser_start = Some r \<Longrightarrow> leads_to P P (Some r)"
  shows "\<exists>s. p = HID_ReportInfo_t.truncate s \<and> P s"
proof -
  obtain r where r: "parse_items filt data parser_start = Some r"
    and p: "(e, p) = (case r of
         Inl (e, s) \<Rightarrow> (e, HID_ReportInfo_t.truncate s)
       | Inr s \<Rightarrow> (if ReportItems s = [] then HID_PARSE_NoUnfilteredReportItems else HID_PARSE_Successful,
                   HID_ReportInfo_t.truncate s))"
    using assms(1) by (auto simp: USB_ProcessHIDReport_def bind_eq_Some_conv)
  from assms(2) [OF r] p show ?thesis
    by (cases r) auto
qed

lemma truncate_fields [simp]:
  "ReportItems (HID_ReportInfo_t.truncate s) = ReportItems s"
  "CollectionPaths (HID_ReportInfo_t.truncate s) = CollectionPaths s"
  "TotalDeviceReports (HID_ReportInfo_t.truncate s) = TotalDeviceReports s"
  "ReportIDSizes (HID_ReportInfo_t.truncate s) = ReportIDSizes s"
  "UsingReportIDs (HID_ReportInfo_t.truncate s) = UsingReportIDs s"
  by (simp_all add: HID_ReportInfo_t.defs)

section \<open>Evaluation\<close>

text \<open>What the simplifier needs to run the parser on a descriptor.\<close>

lemma take_usage_simps:
  "UsageList s = [] \<Longrightarrow> take_usage s = (if UsageMin s \<le> UsageMax s then Some (Some (ucast (UsageMin s)), s\<lparr>UsageMin := UsageMin s + 1\<rparr>) else Some (None, s))"
  "UsageList s = x # xs \<Longrightarrow> length xs \<noteq> 7 \<Longrightarrow> take_usage s = Some (Some x, s\<lparr>UsageList := xs\<rparr>)"
  by (simp_all add: take_usage_def)

lemma rcat_bytes:
  "word_rcat ([] :: u8 list) = (0 :: u32)" "word_rcat [a :: u8] = (ucast a :: u32)"
  "word_rcat [b, a :: u8] = (ucast b * 256 + ucast a :: u32)"
  by (simp_all add: word_rcat_def word_of_int_uint)

lemmas parse_simps = data_size_def item_step_def item_switch_def map_attributes_def usage_item_def collection_item_def
  end_collection_item_def main_item_def report_item_def new_item_def rcat_bytes take_usage_simps Let_def report_id_item_def

lemma replicate_10: "replicate 10 x = [x, x, x, x, x, x, x, x, x, x]"
  by (simp add: numeral_eq_Suc)

lemma report_items_unroll: "report_items filt ty d 2 s = report_items filt ty d (Suc (Suc 0)) s"
  "report_items filt ty d 4 s = report_items filt ty d (Suc (Suc (Suc (Suc 0)))) s"
  "report_items filt ty d 12 s = report_items filt ty d (Suc (Suc (Suc (Suc (Suc (Suc (Suc (Suc (Suc (Suc (Suc (Suc 0)))))))))))) s"
  by (simp_all add: numeral_eq_Suc)

section \<open>Results\<close>

text \<open>A collection with a report of ID 3 with two bytes.\<close>

definition two_bytes_desc :: "u8 list" where
  "two_bytes_desc = [0x05, 0x01, 0xA1, 0x01, 0x85, 0x03, 0x75, 0x08, 0x95, 0x02, 0x81, 0x02, 0xC0]"

lemma two_bytes_parse:
  "case USB_ProcessHIDReport (\<lambda>_. True) two_bytes_desc of
     None \<Rightarrow> False
   | Some (e, p) \<Rightarrow> e = HID_PARSE_Successful \<and> UsingReportIDs p \<and> USB_GetHIDReportSize p 3 In = 2 \<and>
       map (\<lambda>it. (unat (BitOffset it), unat (BitSize (ItemAttributes it)), ItemReportID it, ItemType it)) (ReportItems p) =
         [(0, 8, 3, In), (8, 8, 3, In)]"
  by (simp add: USB_ProcessHIDReport_def HID_ReportInfo_t.defs parse_simps parser_start_def zero_attributes_def
      two_bytes_desc_def replicate_10 report_items_unroll USB_GetHIDReportSize_def size_bytes_def)

section \<open>Descriptors the parser gets through\<close>

text \<open>
  A descriptor by its bytes alone: every item has all of its data, there is no PUSH (whose copy ends outside of the
  table), and not more than seven usages stand before a main item (with the eighth the list is read past its end);
  \<open>n\<close> usages have been seen.
\<close>

function well_formed :: "nat \<Rightarrow> u8 list \<Rightarrow> bool" where
  "well_formed n [] = True"
| "well_formed n (b # bs) =
     (let k = b AND (TYPE_MASK OR TAG_MASK);
          m = (if k = TYPE_LOCAL OR TAG_LOCAL_USAGE then n + 1 else if b AND TYPE_MASK = TYPE_MAIN then 0 else n)
      in data_size b \<le> length bs \<and> k \<noteq> TYPE_GLOBAL OR TAG_GLOBAL_PUSH \<and> m < 8 \<and> well_formed m (drop (data_size b) bs))"
  by pat_completeness auto
termination
  by (relation "measure (\<lambda>(n, bs). length bs)") auto

declare well_formed.simps(2) [simp del]

text \<open>A step that has a result, without an overflow of a list, and leaves at most \<open>m\<close> usages.\<close>

definition gets_on :: "nat \<Rightarrow> step \<Rightarrow> bool" where
  "gets_on m r \<longleftrightarrow> (case r of
     None \<Rightarrow> False
   | Some (Inl (e, t)) \<Rightarrow> e \<notin> {HID_PARSE_HIDStackOverflow, HID_PARSE_UsageListOverflow}
   | Some (Inr t) \<Rightarrow> length (UsageList t) \<le> m)"

lemma take_usage_gets_on:
  "length (UsageList s) < 8 \<Longrightarrow> \<exists>u t. take_usage s = Some (u, t) \<and> length (UsageList t) \<le> length (UsageList s)"
  by (auto simp: take_usage_def split: list.split)

lemma report_item_gets_on:
  assumes "length (UsageList s) \<le> m" "m < 8"
  shows "gets_on m (report_item filt ty d s)"
proof -
  obtain u t where "take_usage s = Some (u, t)" "length (UsageList t) \<le> m"
    using take_usage_gets_on [of s] assms by auto
  then show ?thesis
    by (simp add: report_item_def gets_on_def Let_def)
qed

lemma report_items_get_on:
  "length (UsageList s) \<le> m \<Longrightarrow> m < 8 \<Longrightarrow> gets_on m (report_items filt ty d n s)"
proof (induction n arbitrary: s)
  case 0
  then show ?case
    by (simp add: gets_on_def)
next
  case (Suc n)
  obtain r where r: "report_item filt ty d s = Some r"
    using report_item_gets_on [OF Suc.prems, of filt ty d] by (auto simp: gets_on_def split: option.splits)
  show ?case
  proof (cases r)
    case (Inl e)
    with r report_item_gets_on [OF Suc.prems, of filt ty d] show ?thesis
      by (simp add: gets_on_def)
  next
    case (Inr t)
    then have "length (UsageList t) \<le> m"
      using r report_item_gets_on [OF Suc.prems, of filt ty d] by (simp add: gets_on_def)
    with r Inr Suc show ?thesis
      by simp
  qed
qed

lemma collection_gets_on:
  assumes "length (UsageList s) \<le> m" "m < 8"
  shows "gets_on m (collection_item d s)"
proof (cases "new_path s")
  case None
  then show ?thesis
    by (simp add: collection_item_eq gets_on_def)
next
  case (Some it)
  obtain i t where it: "it = (i, t)"
    by force
  have "UsageList t = UsageList s"
    using Some it by (auto simp: new_path_def split: option.splits)
  then obtain u v where "take_usage t = Some (u, v)" "length (UsageList v) \<le> m"
    using take_usage_gets_on [of t] assms by auto
  then show ?thesis
    using Some it by (simp add: collection_item_eq gets_on_def Let_def)
qed

lemma report_id_gets_on: "length (UsageList s) \<le> m \<Longrightarrow> gets_on m (report_id_item d s)"
  by (auto simp: report_id_item_def gets_on_def Let_def split: option.split)

lemma usage_gets_on: "length (UsageList s) < 8 \<Longrightarrow> length (UsageList s) < m \<Longrightarrow> gets_on m (usage_item d s)"
  by (auto simp: usage_item_def gets_on_def)

lemma switch_gets_on:
  assumes "b AND (TYPE_MASK OR TAG_MASK) \<noteq> TYPE_GLOBAL OR TAG_GLOBAL_PUSH" "length (UsageList s) \<le> n" "n < 8"
    and "m = (if b AND (TYPE_MASK OR TAG_MASK) = TYPE_LOCAL OR TAG_LOCAL_USAGE then n + 1 else n)"
  shows "gets_on m (item_switch filt b d s)"
proof -
  have le: "length (UsageList s) \<le> m"
    using assms(2,4) by simp
  have easy: "gets_on m (map_attributes f s)" "gets_on m (Some (Inr (s\<lparr>CurrState := c\<rparr>)))" "gets_on m (Some (Inr (s\<lparr>UsageMin := x\<rparr>)))"
    "gets_on m (Some (Inr (s\<lparr>UsageMax := x\<rparr>)))" "gets_on m (Some (Inr s))" "gets_on m (pop_item s)" "gets_on m (end_collection_item s)"
    for f c x
    using le by (auto simp: gets_on_def map_attributes_def pop_item_def end_collection_item_def split: list.split option.split)
  show ?thesis
  proof (cases "b AND (TYPE_MASK OR TAG_MASK) = TYPE_LOCAL OR TAG_LOCAL_USAGE")
    case True
    then show ?thesis
      using assms(2-4) usage_gets_on [of s m d] by (simp add: item_switch_def)
  next
    case False
    then have "m = n"
      using assms(4) by simp
    then have "gets_on m (main_item filt ty d s)" "gets_on m (collection_item d s)" "gets_on m (report_id_item d s)" for ty
      using assms(2,3) report_items_get_on collection_gets_on report_id_gets_on by (simp_all add: main_item_def)
    then show ?thesis
      using easy assms(1) False by (simp add: item_switch_def Let_def)
  qed
qed

lemma step_gets_on:
  assumes "b AND (TYPE_MASK OR TAG_MASK) \<noteq> TYPE_GLOBAL OR TAG_GLOBAL_PUSH" "length (UsageList s) \<le> n" "n < 8"
    and "m = (if b AND (TYPE_MASK OR TAG_MASK) = TYPE_LOCAL OR TAG_LOCAL_USAGE then n + 1
      else if b AND TYPE_MASK = TYPE_MAIN then 0 else n)"
  shows "gets_on m (item_step filt b d s)"
proof -
  define k where "k = (if b AND (TYPE_MASK OR TAG_MASK) = TYPE_LOCAL OR TAG_LOCAL_USAGE then n + 1 else n)"
  have "gets_on k (item_switch filt b d s)"
    using assms(1-3) k_def by (rule switch_gets_on)
  moreover have "k \<le> m \<or> b AND TYPE_MASK = TYPE_MAIN"
    using assms(4) by (auto simp: k_def)
  ultimately show ?thesis
    by (auto simp: item_step_def gets_on_def split: option.splits sum.splits)
qed

lemma parser_gets_on:
  "well_formed n bs \<Longrightarrow> length (UsageList s) \<le> n \<Longrightarrow> n < 8 \<Longrightarrow>
    \<exists>r. parse_items filt bs s = Some r \<and> (\<forall>e t. r = Inl (e, t) \<longrightarrow> e \<notin> {HID_PARSE_HIDStackOverflow, HID_PARSE_UsageListOverflow})"
proof (induction n bs arbitrary: s rule: well_formed.induct)
  case (1 n)
  then show ?case
    by simp
next
  case (2 n b bs)
  define m where "m = (if b AND (TYPE_MASK OR TAG_MASK) = TYPE_LOCAL OR TAG_LOCAL_USAGE then n + 1
    else if b AND TYPE_MASK = TYPE_MAIN then 0 else n)"
  have w: "data_size b \<le> length bs" "b AND (TYPE_MASK OR TAG_MASK) \<noteq> TYPE_GLOBAL OR TAG_GLOBAL_PUSH" "m < 8"
      "well_formed m (drop (data_size b) bs)"
    using 2(2) unfolding well_formed.simps Let_def m_def by blast+
  let ?r = "item_step filt b (word_rcat (rev (take (data_size b) bs))) s"
  have g: "gets_on m ?r"
    using w(2) 2(3,4) m_def by (rule step_gets_on)
  then obtain r where r: "?r = Some r"
    by (auto simp: gets_on_def split: option.splits)
  show ?case
  proof (cases r)
    case (Inl e)
    with r g w(1) show ?thesis
      by (auto simp: gets_on_def)
  next
    case (Inr t)
    then have "length (UsageList t) \<le> m"
      using r g by (simp add: gets_on_def)
    from 2(1) [OF refl m_def w(4) this w(3)] r Inr w(1) show ?thesis
      by simp
  qed
qed

text \<open>C34: on every descriptor whose items are complete, without a PUSH and with at most seven usages before each
  main item, the parser returns, for every filter: it does not read or write outside of the descriptor and its tables,
  and neither of its stacks overflows. Its result is then within the tables (at most 20 items, 10 collections, 10
  reports), every parent of a collection comes before it, so that following the parents from the
  collection of an item ends, and only collections in use are parents or collections of items.\<close>

theorem parsed_tables:
  assumes "well_formed 0 data"
  shows "\<exists>e p. USB_ProcessHIDReport filt data = Some (e, p) \<and>
    e \<notin> {HID_PARSE_HIDStackOverflow, HID_PARSE_UsageListOverflow} \<and>
    length (ReportItems p) \<le> HID_MAX_REPORTITEMS \<and> length (CollectionPaths p) = HID_MAX_COLLECTIONS \<and>
    0 < TotalDeviceReports p \<and> TotalDeviceReports p \<le> HID_MAX_REPORT_IDS \<and> length (ReportIDSizes p) = HID_MAX_REPORT_IDS \<and>
    (\<forall>i < HID_MAX_COLLECTIONS. \<forall>j. Parent (CollectionPaths p ! i) = Some j \<longrightarrow> j < i \<and> used_path (CollectionPaths p) (Some j)) \<and>
    (\<forall>it \<in> set (ReportItems p). used_path (CollectionPaths p) (CollectionPath it))"
proof -
  obtain r where r: "parse_items filt data parser_start = Some r"
      "\<forall>e t. r = Inl (e, t) \<longrightarrow> e \<notin> {HID_PARSE_HIDStackOverflow, HID_PARSE_UsageListOverflow}"
    using parser_gets_on [OF assms, of parser_start filt] by (auto simp: parser_start_def)
  then obtain e p where p: "USB_ProcessHIDReport filt data = Some (e, p)"
      "e \<notin> {HID_PARSE_HIDStackOverflow, HID_PARSE_UsageListOverflow}"
    by (cases r) (auto simp: USB_ProcessHIDReport_def)
  obtain s where "p = HID_ReportInfo_t.truncate s" "parser_ok s"
    using process_result [OF p(1)] tables.parse_keeps [OF parser_start_ok guarded_True, of filt data] by metis
  with p show ?thesis
    by (auto simp: parser_ok_def paths_ok_def)
qed

theorem parsed_tables_witness:
  "\<exists>e p. USB_ProcessHIDReport (\<lambda>_. True) two_bytes_desc = Some (e, p) \<and> length (ReportItems p) \<le> HID_MAX_REPORTITEMS"
proof -
  have "well_formed 0 two_bytes_desc"
    by (simp add: two_bytes_desc_def well_formed.simps(2) data_size_def)
  from parsed_tables [OF this, of "\<lambda>_. True"] show ?thesis
    by blast
qed

end
