(* ===== verification/HidReports.thy ===== *)
theory HidReports
  imports HidProofs
begin

text \<open>
  The items the parser stores: they lie one after the other within the size of their report, and reading one
  gives its bits.
\<close>

section \<open>Places of the items\<close>

definition item_end :: "HID_ReportItem_t \<Rightarrow> nat" where
  "item_end it = unat (BitOffset it) + unat (BitSize (ItemAttributes it))"

definition same_kind :: "HID_ReportItem_t \<Rightarrow> HID_ReportItem_t \<Rightarrow> bool" where
  "same_kind it it' \<longleftrightarrow> ItemReportID it = ItemReportID it' \<and> ItemType it = ItemType it'"

text \<open>
  Items whose report has an entry of its own: with report IDs in use, an item in front of the first REPORT ID
  is counted for the report of that ID, and is left out here.
\<close>

definition placed :: "bool \<Rightarrow> HID_ReportItem_t \<Rightarrow> bool" where
  "placed ids it \<longleftrightarrow> ids \<longrightarrow> ItemReportID it \<noteq> 0"

definition in_order :: "bool \<Rightarrow> HID_ReportItem_t list \<Rightarrow> bool" where
  "in_order ids its \<longleftrightarrow> sorted_wrt (\<lambda>it it'. placed ids it \<and> same_kind it it' \<longrightarrow> item_end it \<le> unat (BitOffset it')) its"

definition item_fits :: "(HID_ReportItem_t \<Rightarrow> bool) \<Rightarrow> HID_ReportSizeInfo_t list \<Rightarrow> HID_ReportItem_t \<Rightarrow> bool" where
  "item_fits filt rs it \<longleftrightarrow> filt it \<and> ItemFlags it AND 1 = 0 \<and>
     (\<exists>r \<in> set rs. SizeReportID r = ItemReportID it \<and> item_end it \<le> unat (ReportSizeBits r (ItemType it)))"

abbreviation (input) known_reports :: "parser \<Rightarrow> HID_ReportSizeInfo_t list" where
  "known_reports s \<equiv> take (TotalDeviceReports s) (ReportIDSizes s)"

definition items_ok :: "(HID_ReportItem_t \<Rightarrow> bool) \<Rightarrow> parser \<Rightarrow> bool" where
  "items_ok filt s \<longleftrightarrow>
     distinct (map SizeReportID (known_reports s)) \<and>
     SizeReportID (ReportIDSizes s ! CurrReportIDInfo s) = ReportID (CurrState s) \<and>
     (\<not> UsingReportIDs s \<longrightarrow> ReportID (CurrState s) = 0 \<and> TotalDeviceReports s = 1 \<and>
        (\<forall>it \<in> set (ReportItems s). ItemReportID it = 0)) \<and>
     (\<forall>it \<in> set (ReportItems s). filt it \<and> ItemFlags it AND 1 = 0 \<and>
        (placed (UsingReportIDs s) it \<longrightarrow> item_fits filt (known_reports s) it)) \<and>
     in_order (UsingReportIDs s) (ReportItems s)"

definition room :: "nat \<Rightarrow> parser \<Rightarrow> bool" where
  "room n s \<longleftrightarrow> (\<forall>ty. unat (ReportSizeBits (ReportIDSizes s ! CurrReportIDInfo s) ty) +
     n * unat (BitSize (Attributes (CurrState s))) < 2 ^ 16)"

definition stored_ok :: "(HID_ReportItem_t \<Rightarrow> bool) \<Rightarrow> parser \<Rightarrow> bool" where
  "stored_ok filt s \<longleftrightarrow>
     parser_ok s \<and> distinct (map SizeReportID (known_reports s)) \<and>
     (\<forall>it \<in> set (ReportItems s). filt it \<and> ItemFlags it AND 1 = 0 \<and>
        (placed (UsingReportIDs s) it \<longrightarrow> item_fits filt (known_reports s) it)) \<and>
     in_order (UsingReportIDs s) (ReportItems s)"

lemma known_report:
  assumes "parser_ok s"
  shows "CurrReportIDInfo s < length (known_reports s)"
    "known_reports s ! CurrReportIDInfo s = ReportIDSizes s ! CurrReportIDInfo s"
    "ReportIDSizes s ! CurrReportIDInfo s \<in> set (known_reports s)"
proof -
  show 1: "CurrReportIDInfo s < length (known_reports s)"
    using assms by (simp add: parser_ok_def)
  show 2: "known_reports s ! CurrReportIDInfo s = ReportIDSizes s ! CurrReportIDInfo s"
    using assms by (simp add: parser_ok_def)
  show "ReportIDSizes s ! CurrReportIDInfo s \<in> set (known_reports s)"
    using nth_mem [OF 1] unfolding 2 .
qed

lemma in_order_ids: "in_order ids its \<Longrightarrow> in_order True its"
  unfolding in_order_def by (rule sorted_wrt_mono_rel) (auto simp: placed_def)

lemma parser_start_items: "items_ok filt parser_start"
  by (simp add: items_ok_def parser_start_def in_order_def)

lemma items_ok_updates [simp]:
  "items_ok filt (s\<lparr>CurrState := (CurrState s)\<lparr>Attributes := a\<rparr>\<rparr>) = items_ok filt s"
  "items_ok filt (s\<lparr>CurrState := (CurrState s)\<lparr>ReportCount := n\<rparr>\<rparr>) = items_ok filt s"
  "items_ok filt (s\<lparr>UsageList := l\<rparr>) = items_ok filt s" "items_ok filt (s\<lparr>UsageMin := d\<rparr>) = items_ok filt s"
  "items_ok filt (s\<lparr>UsageMax := d\<rparr>) = items_ok filt s"
  "items_ok filt (s\<lparr>LargestReportSizeBits := x\<rparr>) = items_ok filt s"
  "items_ok filt (s\<lparr>CurrCollectionPath := c\<rparr>) = items_ok filt s"
  "items_ok filt (s\<lparr>CollectionPaths := ps\<rparr>) = items_ok filt s"
  by (simp_all add: items_ok_def)

lemma take_usage_items: "take_usage s = Some (u, t) \<Longrightarrow> items_ok filt t = items_ok filt s"
  by (auto simp: take_usage_def split: list.splits if_splits)

lemma collection_item_items: "items_ok filt s \<Longrightarrow> leads_to (items_ok filt) (items_ok filt) (collection_item d s)"
  by (auto simp: leads_to_def collection_item_eq new_path_def Let_def bind_eq_Some_conv dest!: take_usage_items [of _ _ _ filt]
      split: option.splits)

lemma end_collection_item_items: "items_ok filt s \<Longrightarrow> leads_to (items_ok filt) (items_ok filt) (end_collection_item s)"
  by (simp add: end_collection_item_def split: option.split)

lemma item_fits_more:
  assumes "item_fits filt rs it" "set rs \<subseteq> set rs'"
  shows "item_fits filt rs' it"
  using assms by (auto simp: item_fits_def)

lemma report_id_item_items:
  assumes ok: "parser_ok s" and items: "items_ok filt s"
  shows "leads_to (\<lambda>_. True) (items_ok filt) (report_id_item d s)"
proof -
  let ?k = "ucast d :: u8" and ?n = "TotalDeviceReports s" and ?rs = "ReportIDSizes s"
  note distinct = items [unfolded items_ok_def, THEN conjunct1]
  show ?thesis
  proof (cases "UsingReportIDs s")
    case False
    then have n: "?n = 1" "CurrReportIDInfo s = 0" and "0 < length ?rs"
      using ok items by (auto simp: parser_ok_def items_ok_def)
    then have "known_reports (s\<lparr>ReportIDSizes := ?rs[0 := (?rs ! 0)\<lparr>SizeReportID := ?k\<rparr>]\<rparr>) = [(?rs ! 0)\<lparr>SizeReportID := ?k\<rparr>]"
      by (cases ?rs) simp_all
    then show ?thesis
      using False items n \<open>0 < length ?rs\<close>
      by (auto simp: report_id_item_def Let_def items_ok_def placed_def dest: in_order_ids)
  next
    case True
    show ?thesis
    proof (cases "find_report ?k 0 (known_reports s)")
      case (Some i)
      from find_report_Some [OF this] have "i < ?n" "i < length ?rs" "SizeReportID (?rs ! i) = ?k"
        by auto
      then have "?rs[i := (?rs ! i)\<lparr>SizeReportID := ?k\<rparr>] = ?rs"
        by (metis HID_ReportSizeInfo_t.surjective HID_ReportSizeInfo_t.update_convs(1) list_update_id old.unit.exhaust)
      then show ?thesis
        using True Some items \<open>SizeReportID (?rs ! i) = ?k\<close> by (simp add: report_id_item_def Let_def items_ok_def)
    next
      case None
      let ?r = "\<lparr>SizeReportID = ?k, ReportSizeBits = \<lambda>_. 0\<rparr>"
      show ?thesis
      proof (cases "?n = HID_MAX_REPORT_IDS")
        case False
        then have n: "?n < length ?rs"
          using ok by (auto simp: parser_ok_def)
        then have known: "take (Suc ?n) (?rs[?n := ?r]) = known_reports s @ [?r]"
          by (simp add: take_Suc_conv_app_nth)
        have "?k \<notin> SizeReportID ` set (known_reports s)"
          using None by (auto simp: find_report_None)
        then show ?thesis
          using True None False items n known
          by (auto simp: report_id_item_def Let_def items_ok_def item_fits_def)
      qed (use True None in \<open>simp add: report_id_item_def Let_def\<close>)
    qed
  qed
qed

text \<open>One turn of the loop: the report grows by an item, which is stored behind the others of its report.\<close>

definition grown :: "item_type \<Rightarrow> parser \<Rightarrow> HID_ReportSizeInfo_t" where
  "grown ty s = (let r = ReportIDSizes s ! CurrReportIDInfo s
     in r\<lparr>ReportSizeBits := (ReportSizeBits r)(ty := ReportSizeBits r ty + ucast (BitSize (Attributes (CurrState s))))\<rparr>)"

definition grow :: "item_type \<Rightarrow> parser \<Rightarrow> parser" where
  "grow ty s = s\<lparr>ReportIDSizes := (ReportIDSizes s)[CurrReportIDInfo s := grown ty s]\<rparr>"

lemma grown_id [simp]: "SizeReportID (grown ty s) = SizeReportID (ReportIDSizes s ! CurrReportIDInfo s)"
  by (simp add: grown_def Let_def)

lemma unat_ucast_u8: "unat (ucast (x :: u8) :: u16) = unat x"
proof -
  have "unat x < 2 ^ 16"
    using unsigned_less [of x, where ?'a = nat] by simp
  then show ?thesis
    by (simp add: unsigned_ucast_eq take_bit_nat_eq_self)
qed

lemma grown_size:
  assumes "room (Suc n) s"
  shows "unat (ReportSizeBits (grown ty s) ty) =
      unat (ReportSizeBits (ReportIDSizes s ! CurrReportIDInfo s) ty) + unat (BitSize (Attributes (CurrState s)))"
    "unat (ReportSizeBits (ReportIDSizes s ! CurrReportIDInfo s) ty') \<le> unat (ReportSizeBits (grown ty s) ty')"
proof -
  let ?x = "ReportSizeBits (ReportIDSizes s ! CurrReportIDInfo s) ty" and ?b = "BitSize (Attributes (CurrState s))"
  have "unat ?x + Suc n * unat ?b < 2 ^ 16"
    using assms by (simp only: room_def)
  then have "unat ?x + unat ?b < 2 ^ 16"
    by simp
  then have "unat (?x + ucast ?b) = unat ?x + unat ?b"
    by (simp add: unat_add_lem [THEN iffD1] unat_ucast_u8)
  then show *: "unat (ReportSizeBits (grown ty s) ty) = unat ?x + unat ?b"
    by (simp add: grown_def Let_def)
  show "unat (ReportSizeBits (ReportIDSizes s ! CurrReportIDInfo s) ty') \<le> unat (ReportSizeBits (grown ty s) ty')"
    using * by (cases "ty' = ty") (auto simp: grown_def Let_def)
qed

lemma room_grow:
  assumes "room (Suc n) s" "parser_ok s"
  shows "room n (grow ty s)"
proof -
  have "unat (ReportSizeBits (grown ty s) ty') + n * unat (BitSize (Attributes (CurrState s))) < 2 ^ 16" for ty'
  proof (cases "ty' = ty")
    case True
    then show ?thesis
      using grown_size(1) [OF assms(1), of ty] assms(1) by (simp add: room_def add.assoc)
  next
    case False
    have "unat (ReportSizeBits (ReportIDSizes s ! CurrReportIDInfo s) ty') +
        Suc n * unat (BitSize (Attributes (CurrState s))) < 2 ^ 16"
      using assms(1) by (simp only: room_def)
    then show ?thesis
      using False by (simp add: grown_def Let_def)
  qed
  then show ?thesis
    using assms(2) by (auto simp: room_def grow_def parser_ok_def)
qed

lemma known_grow: "known_reports (grow ty s) = (known_reports s)[CurrReportIDInfo s := grown ty s]"
  by (simp add: grow_def take_update_swap)

lemma grow_fits:
  assumes "item_fits filt (known_reports s) it" "parser_ok s" "room (Suc n) s"
  shows "item_fits filt (known_reports (grow ty s)) it"
proof -
  let ?i = "CurrReportIDInfo s"
  note known = known_report [OF assms(2)]
  from assms(1) obtain r where r: "r \<in> set (known_reports s)" "SizeReportID r = ItemReportID it"
      "item_end it \<le> unat (ReportSizeBits r (ItemType it))" "filt it" "ItemFlags it AND 1 = 0"
    by (auto simp: item_fits_def)
  from r(1) obtain m where m: "m < length (known_reports s)" "known_reports s ! m = r"
    unfolding in_set_conv_nth by blast
  let ?r = "known_reports (grow ty s) ! m"
  have "?r \<in> set (known_reports (grow ty s))"
    using m(1) by (intro nth_mem) (simp add: grow_def)
  moreover have "SizeReportID ?r = SizeReportID r \<and> unat (ReportSizeBits r (ItemType it)) \<le> unat (ReportSizeBits ?r (ItemType it))"
  proof (cases "m = ?i")
    case True
    then have "?r = grown ty s" "r = ReportIDSizes s ! ?i"
      using m known(1,2) by (simp_all add: known_grow)
    then show ?thesis
      using grown_size(2) [OF assms(3)] by simp
  next
    case False
    then have "?r = r"
      using m by (simp add: known_grow)
    then show ?thesis
      by simp
  qed
  ultimately show ?thesis
    using r by (auto simp: item_fits_def)
qed

lemma grow_items:
  assumes "parser_ok s" "items_ok filt s" "room (Suc n) s"
  shows "items_ok filt (grow ty s)" "parser_ok (grow ty s)"
proof -
  note known = known_report [OF assms(1)]
  have ids: "map SizeReportID (known_reports (grow ty s)) = map SizeReportID (known_reports s)"
    using known by (simp add: known_grow map_update list_update_same_conv)
  have curr: "SizeReportID (ReportIDSizes (grow ty s) ! CurrReportIDInfo s) = SizeReportID (ReportIDSizes s ! CurrReportIDInfo s)"
    using assms(1) by (simp add: grow_def parser_ok_def)
  have same: "UsingReportIDs (grow ty s) = UsingReportIDs s" "ReportItems (grow ty s) = ReportItems s"
      "CurrState (grow ty s) = CurrState s" "CurrReportIDInfo (grow ty s) = CurrReportIDInfo s"
      "TotalDeviceReports (grow ty s) = TotalDeviceReports s"
    by (simp_all add: grow_def)
  have fits: "item_fits filt (take (TotalDeviceReports s) (ReportIDSizes (grow ty s))) it"
    if "item_fits filt (known_reports s) it" for it
    using grow_fits [OF that assms(1,3), of ty] unfolding same .
  show "items_ok filt (grow ty s)"
    using assms(2) fits unfolding items_ok_def same ids [unfolded same] curr by blast
  show "parser_ok (grow ty s)"
    using assms(1) by (simp add: grow_def parser_ok_def)
qed

lemma report_item_grow:
  assumes "take_usage s = Some (u, t)" and item_def: "item = new_item ty d u t"
  shows "\<exists>l. report_item filt ty d s = Some (let v = (grow ty t)\<lparr>LargestReportSizeBits := l\<rparr> in
    if d AND IOF_CONSTANT = 0 \<and> filt item then
      (if length (ReportItems t) = HID_MAX_REPORTITEMS then Inl (HID_PARSE_InsufficientReportItems, v)
       else Inr (v\<lparr>ReportItems := ReportItems t @ [item]\<rparr>))
    else Inr v)"
proof -
  let ?l = "if LargestReportSizeBits t < BitOffset item then BitOffset item else LargestReportSizeBits t"
  have "grow ty t = (grow ty t)\<lparr>LargestReportSizeBits := LargestReportSizeBits t\<rparr>"
    by (simp add: grow_def)
  with assms(1) show ?thesis
    by (intro exI [of _ ?l]) (auto simp: report_item_def Let_def grow_def grown_def item_def)
qed

lemma items_ok_append:
  assumes "parser_ok s" "items_ok filt s" "room (Suc n) s" "filt (new_item ty d u s)" "d AND 1 = 0"
  shows "items_ok filt ((grow ty s)\<lparr>ReportItems := ReportItems s @ [new_item ty d u s]\<rparr>)"
proof -
  let ?it = "new_item ty d u s"
  let ?r = "ReportIDSizes s ! CurrReportIDInfo s"
  note known = known_report [OF assms(1)]
  have it: "ItemReportID ?it = ReportID (CurrState s)" "ItemType ?it = ty" "BitOffset ?it = ReportSizeBits ?r ty"
      "BitSize (ItemAttributes ?it) = BitSize (Attributes (CurrState s))" "ItemFlags ?it = ucast d"
    by (simp_all add: new_item_def Let_def split: option.split)
  have id: "SizeReportID ?r = ReportID (CurrState s)"
    using assms(2) by (simp add: items_ok_def)
  have "\<not> bit d 0"
    using assms(5) by (simp add: bit_0 and_one_eq even_iff_mod_2_eq_zero)
  then have "\<not> bit (ucast d :: u16) 0"
    by (simp add: bit_unsigned_iff)
  then have flags: "(ucast d :: u16) AND 1 = 0"
    by (simp add: bit_0 and_one_eq even_iff_mod_2_eq_zero)
  have "grown ty s \<in> set (known_reports (grow ty s))"
    using known(1) unfolding known_grow by (intro set_update_memI)
  then have new: "item_fits filt (known_reports (grow ty s)) ?it"
    using assms(4) flags id it grown_size(1) [OF assms(3), of ty] unfolding item_fits_def item_end_def
    by (intro conjI bexI [of _ "grown ty s"]) simp_all
  have before: "item_end it \<le> unat (BitOffset ?it)"
    if "it \<in> set (ReportItems s)" "placed (UsingReportIDs s) it" "same_kind it ?it" for it
  proof -
    from that(1,2) assms(2) have "item_fits filt (known_reports s) it"
      by (simp add: items_ok_def)
    then obtain r where r: "r \<in> set (known_reports s)" "SizeReportID r = ItemReportID it"
        "item_end it \<le> unat (ReportSizeBits r (ItemType it))"
      by (auto simp: item_fits_def)
    have "SizeReportID r = SizeReportID ?r"
      using r(2) that(3) id it by (simp add: same_kind_def)
    then have "r = ?r"
      using r(1) known(3) assms(2) by (auto simp: items_ok_def distinct_map inj_on_def)
    then show ?thesis
      using r(3) that(3) it by (simp add: same_kind_def)
  qed
  note g = grow_items(1) [OF assms(1-3), of ty]
  have same: "UsingReportIDs (grow ty s) = UsingReportIDs s" "ReportItems (grow ty s) = ReportItems s"
      "CurrState (grow ty s) = CurrState s" "TotalDeviceReports (grow ty s) = TotalDeviceReports s"
    by (simp_all add: grow_def)
  have "in_order (UsingReportIDs s) (ReportItems s @ [?it])"
    using assms(2) before by (simp add: items_ok_def in_order_def sorted_wrt_append)
  then show ?thesis
    using g new [unfolded same] assms(4) flags it(1,5) by (auto simp: items_ok_def same)
qed

text \<open>The whole loop, when the size of the report does not overflow.\<close>

definition items_inv :: "(HID_ReportItem_t \<Rightarrow> bool) \<Rightarrow> parser \<Rightarrow> bool" where
  "items_inv filt s \<longleftrightarrow> parser_ok s \<and> items_ok filt s"

lemma room_take_usage: "take_usage s = Some (u, t) \<Longrightarrow> room n t = room n s"
  by (auto simp: take_usage_def room_def split: list.splits if_splits)

lemma report_item_inv:
  assumes "items_inv filt s" "room (Suc n) s"
  shows "leads_to (items_inv filt) (\<lambda>t. items_inv filt t \<and> room n t) (report_item filt ty d s)"
proof (cases "take_usage s")
  case (Some ut)
  obtain u t where ut: "ut = (u, t)"
    by force
  note take = Some [unfolded ut]
  have t: "parser_ok t" "items_ok filt t" "room (Suc n) t"
    using assms take_usage_ok(1) [OF take] take_usage_items [OF take] room_take_usage [OF take]
    by (simp_all add: items_inv_def)
  note g = grow_items [OF t, of ty] room_grow [OF t(3,1), of ty]
  let ?it = "new_item ty d u t"
  have item: "items_ok filt ((grow ty t)\<lparr>ReportItems := ReportItems t @ [?it]\<rparr>)" if "filt ?it" "d AND 1 = 0"
    by (rule items_ok_append [OF t that])
  have ok: "parser_ok ((grow ty t)\<lparr>ReportItems := ReportItems t @ [?it]\<rparr>)" if "length (ReportItems t) \<noteq> HID_MAX_REPORTITEMS"
    using t(1) that by (simp add: grow_def parser_ok_def new_item_def Let_def)
  have room: "room n (v\<lparr>LargestReportSizeBits := l, ReportItems := x\<rparr>) = room n v"
      "room n (v\<lparr>LargestReportSizeBits := l\<rparr>) = room n v" "room n (v\<lparr>ReportItems := x\<rparr>) = room n v" for v l x
    by (simp_all add: room_def)
  have swap: "v\<lparr>LargestReportSizeBits := l, ReportItems := x\<rparr> = v\<lparr>ReportItems := x, LargestReportSizeBits := l\<rparr>" for v :: parser and l x
    by simp
  obtain l where "report_item filt ty d s = Some (let v = (grow ty t)\<lparr>LargestReportSizeBits := l\<rparr> in
    if d AND IOF_CONSTANT = 0 \<and> filt ?it then
      (if length (ReportItems t) = HID_MAX_REPORTITEMS then Inl (HID_PARSE_InsufficientReportItems, v)
       else Inr (v\<lparr>ReportItems := ReportItems t @ [?it]\<rparr>))
    else Inr v)"
    using report_item_grow [OF take refl] by blast
  then show ?thesis
    using g item ok by (simp add: Let_def items_inv_def room swap del: HID_ReportInfo_t.update_convs)
qed (simp add: report_item_def)

definition fits :: "parser \<Rightarrow> bool" where
  "fits s \<longleftrightarrow> (\<forall>ty \<in> {In, Out, Feature}. unat (ReportSizeBits (ReportIDSizes s ! CurrReportIDInfo s) ty) +
     unat (ReportCount (CurrState s)) * unat (BitSize (Attributes (CurrState s))) < 2 ^ 16)"

lemma room_fits: "fits s \<Longrightarrow> room (unat (ReportCount (CurrState s))) s"
proof -
  assume "fits s"
  then have "unat (ReportSizeBits (ReportIDSizes s ! CurrReportIDInfo s) ty) +
     unat (ReportCount (CurrState s)) * unat (BitSize (Attributes (CurrState s))) < 2 ^ 16" for ty
    unfolding fits_def by (cases ty) blast+
  then show ?thesis
    by (simp add: room_def)
qed

lemma main_item_items:
  assumes "items_inv filt s" "fits s"
  shows "leads_to (items_inv filt) (items_inv filt) (main_item filt ty d s)"
proof -
  have "leads_to (items_inv filt) (items_inv filt) (report_items filt ty d n s)" if "room n s" for n
    using assms(1) that
  proof (induction n arbitrary: s)
    case (Suc n)
    note r = report_item_inv [OF Suc.prems, of ty d]
    show ?case
    proof (cases "report_item filt ty d s")
      case (Some x)
      then show ?thesis
        using r Suc.IH by (cases x) auto
    qed simp
  qed simp
  then show ?thesis
    using room_fits [OF assms(2)] by (simp add: main_item_def)
qed

lemma items_inv_stored: "items_inv filt s \<Longrightarrow> stored_ok filt s"
  by (simp add: items_inv_def items_ok_def stored_ok_def)

lemma report_id_item_inv:
  assumes "items_inv filt s"
  shows "leads_to (stored_ok filt) (items_inv filt) (report_id_item d s)"
proof -
  have "stored_ok filt t" if "report_id_item d s = Some (Inl (e, t))" for e t
  proof -
    have t: "t = s\<lparr>CurrState := (CurrState s)\<lparr>ReportID := ucast d\<rparr>\<rparr>"
      using that by (auto simp: report_id_item_def Let_def split: option.splits if_splits)
    show ?thesis
      using items_inv_stored [OF assms] unfolding t by (simp add: stored_ok_def)
  qed
  then have "leads_to (stored_ok filt) (\<lambda>_. True) (report_id_item d s)"
    by (simp add: leads_to_def)
  moreover have "leads_to parser_ok parser_ok (report_id_item d s)"
      "leads_to (\<lambda>_. True) (items_ok filt) (report_id_item d s)"
    using assms by (simp_all add: items_inv_def report_id_item_ok report_id_item_items)
  ultimately show ?thesis
    unfolding leads_to_def items_inv_def by blast
qed

lemma leads_to_weaken: "leads_to Q P r \<Longrightarrow> (\<And>s. Q s \<Longrightarrow> Q' s) \<Longrightarrow> leads_to Q' P r"
  by (auto simp: leads_to_def)

lemma leads_to_inv:
  "leads_to parser_ok parser_ok r \<Longrightarrow> leads_to (items_ok filt) (items_ok filt) r \<Longrightarrow> leads_to (stored_ok filt) (items_inv filt) r"
  using items_inv_stored [of filt] by (auto simp: leads_to_def items_inv_def)

interpretation places: parser_invariant filt "stored_ok filt" "items_inv filt" fits
proof unfold_locales
  show "items_inv filt parser_start"
    by (simp add: items_inv_def parser_start_ok parser_start_items)
next
  fix s l m x
  assume "items_inv filt s" "length (l :: u16 list) \<le> HID_USAGE_STACK_DEPTH"
  then show "items_inv filt (s\<lparr>UsageList := l, UsageMin := m, UsageMax := x\<rparr>)"
    by (simp add: items_inv_def parser_ok_def)
next
  fix s
  assume s: "items_inv filt s"
  then show "SavedStates s = []" "length (UsageList s) \<le> HID_USAGE_STACK_DEPTH"
    by (simp_all add: items_inv_def parser_ok_def)
  show "stored_ok filt s"
    by (rule items_inv_stored [OF s])
  show "leads_to (stored_ok filt) (items_inv filt) (report_id_item d s)" for d
    by (rule report_id_item_inv [OF s])
  show "leads_to (stored_ok filt) (items_inv filt) (collection_item d s)" for d
    using s by (intro leads_to_inv collection_item_ok collection_item_items) (simp_all add: items_inv_def)
  show "leads_to (stored_ok filt) (items_inv filt) (end_collection_item s)"
    using s by (intro leads_to_inv end_collection_item_ok end_collection_item_items) (simp_all add: items_inv_def)
  show "fits s \<Longrightarrow> leads_to (stored_ok filt) (items_inv filt) (main_item filt ty d s)" for ty d
    using items_inv_stored by (intro leads_to_weaken [OF main_item_items [OF s]])
qed (simp_all add: items_inv_def)

lemma size_bytes_bits: "unat b \<le> 8 * unat (size_bytes b)"
proof -
  have "unat (drop_bit 3 b) = unat b div 8"
    by (simp add: drop_bit_eq_div unat_div_distrib)
  moreover have "b AND 7 = 0 \<longleftrightarrow> unat b mod 8 = 0"
  proof -
    have "b AND 7 = take_bit 3 b"
      by (simp add: take_bit_eq_mask mask_numeral)
    then have "unat (b AND 7) = unat b mod 8"
      by (simp add: take_bit_eq_mod unat_mod_distrib)
    then show ?thesis
      by (metis unat_0_iff)
  qed
  ultimately show ?thesis
    using unsigned_less [of b, where ?'a = nat]
    by (auto simp: size_bytes_def unat_word_ariths)
qed

text \<open>The report sizes do not overflow: a condition on the descriptor that the parser itself does not check.\<close>

definition sizes_fit :: "(HID_ReportItem_t \<Rightarrow> bool) \<Rightarrow> u8 list \<Rightarrow> bool" where
  "sizes_fit filt data \<longleftrightarrow> guarded fits filt data parser_start"

lemma report_size_of_fit:
  assumes "item_fits filt (known_reports s) it" "stored_ok filt s"
  shows "item_end it \<le> 8 * unat (USB_GetHIDReportSize (HID_ReportInfo_t.truncate s) (ItemReportID it) (ItemType it))"
proof -
  let ?rs = "ReportIDSizes s" and ?n = "TotalDeviceReports s"
  from assms(1) obtain r where r: "r \<in> set (known_reports s)" "SizeReportID r = ItemReportID it"
      "item_end it \<le> unat (ReportSizeBits r (ItemType it))"
    by (auto simp: item_fits_def)
  then obtain j where j: "find_report (ItemReportID it) 0 ?rs = Some j"
    using find_report_None [of "ItemReportID it" 0 ?rs] by (auto dest: in_set_takeD)
  note f = find_report_Some [OF j]
  obtain m where m: "m < length (known_reports s)" "known_reports s ! m = r"
    using r(1) unfolding in_set_conv_nth by blast
  then have "j \<le> m"
    using f r(2) by (auto simp: not_less [symmetric])
  then have "known_reports s ! j = ?rs ! j" "j < length (known_reports s)"
    using m(1) by simp_all
  then have "j = m"
    using assms(2) m f r(2) nth_eq_iff_index_eq [of "map SizeReportID (known_reports s)" j m]
    by (auto simp: stored_ok_def)
  then show ?thesis
    using r(3) m size_bytes_bits [of "ReportSizeBits r (ItemType it)"] \<open>known_reports s ! j = ?rs ! j\<close>
    by (simp add: USB_GetHIDReportSize_def j)
qed

lemma stored_items:
  assumes "USB_ProcessHIDReport filt data = Some (e, p)" "sizes_fit filt data"
  shows "\<exists>s. p = HID_ReportInfo_t.truncate s \<and> stored_ok filt s"
proof (rule process_result [OF assms(1)])
  fix r
  assume "parse_items filt data parser_start = Some r"
  then show "leads_to (stored_ok filt) (stored_ok filt) (Some r)"
    using places.parse_keeps [of filt parser_start data] places.start [of filt] assms(2) items_inv_stored [of filt]
    by (auto simp: leads_to_def sizes_fit_def)
qed

lemma item_lies_in_report:
  assumes "USB_ProcessHIDReport filt data = Some (e, p)" "sizes_fit filt data"
    and "it \<in> set (ReportItems p)" "placed (UsingReportIDs p) it"
  shows "item_end it \<le> 8 * unat (USB_GetHIDReportSize p (ItemReportID it) (ItemType it))" "item_end it < 2 ^ 16"
proof -
  obtain s where s: "p = HID_ReportInfo_t.truncate s" "stored_ok filt s"
    using stored_items [OF assms(1,2)] by blast
  then have it: "item_fits filt (known_reports s) it"
    using assms(3,4) by (simp add: stored_ok_def)
  from report_size_of_fit [OF this s(2)] s(1)
  show "item_end it \<le> 8 * unat (USB_GetHIDReportSize p (ItemReportID it) (ItemType it))"
    by simp
  show "item_end it < 2 ^ 16"
    using it le_less_trans [OF _ unsigned_less [where ?'a = nat]] by (fastforce simp: item_fits_def)
qed

text \<open>The example of a descriptor satisfies the condition.\<close>

lemma two_bytes_fit: "sizes_fit (\<lambda>_. True) two_bytes_desc"
  by (simp add: sizes_fit_def adds_items_def fits_def parse_simps parser_start_def zero_attributes_def
      two_bytes_desc_def replicate_10 report_items_unroll)

text \<open>C26: the items the parser stores are those the filter accepts, none of them constant; each lies within the
  size \<open>USB_GetHIDReportSize\<close> gives for its report, and the items of one report do not overlap, in the order of the
  descriptor. (For reports of less than 65536 bits; with report IDs in use, for the items behind the first one.)\<close>

theorem parsed_items_placed:
  assumes "USB_ProcessHIDReport filt data = Some (e, p)" and "sizes_fit filt data"
  shows "(\<forall>it \<in> set (ReportItems p). filt it \<and> ItemFlags it AND 1 = 0 \<and>
      (placed (UsingReportIDs p) it \<longrightarrow>
         item_end it \<le> 8 * unat (USB_GetHIDReportSize p (ItemReportID it) (ItemType it)))) \<and>
    (\<forall>a b. a < b \<and> b < length (ReportItems p) \<and> placed (UsingReportIDs p) (ReportItems p ! a) \<and>
      same_kind (ReportItems p ! a) (ReportItems p ! b) \<longrightarrow>
        item_end (ReportItems p ! a) \<le> unat (BitOffset (ReportItems p ! b)))"
proof -
  obtain s where s: "p = HID_ReportInfo_t.truncate s" "stored_ok filt s"
    using stored_items [OF assms] by blast
  have "in_order (UsingReportIDs p) (ReportItems p)" "\<forall>it \<in> set (ReportItems p). filt it \<and> ItemFlags it AND 1 = 0"
    using s by (auto simp: stored_ok_def)
  then show ?thesis
    using item_lies_in_report(1) [OF assms] by (simp add: in_order_def sorted_wrt_iff_nth_less)
qed

theorem parsed_items_placed_witness:
  "\<exists>e p. USB_ProcessHIDReport (\<lambda>_. True) two_bytes_desc = Some (e, p) \<and>
    (\<forall>it \<in> set (ReportItems p). placed (UsingReportIDs p) it \<longrightarrow>
      item_end it \<le> 8 * unat (USB_GetHIDReportSize p (ItemReportID it) (ItemType it)))"
proof -
  obtain e p where "USB_ProcessHIDReport (\<lambda>_. True) two_bytes_desc = Some (e, p)"
    using two_bytes_parse by (auto split: option.splits)
  from this parsed_items_placed [OF this two_bytes_fit] show ?thesis
    by blast
qed

end
