(* ===== verification/HidValues.thy ===== *)
theory HidValues
  imports HidReports
begin

text \<open>
  Reading an item gives the bits of the report at its place. Writing one is right within a byte only.
\<close>

section \<open>Reading\<close>

definition report_bits :: "u8 list \<Rightarrow> nat \<Rightarrow> nat \<Rightarrow> bool list" where
  "report_bits data off n = map (\<lambda>i. bit (data ! ((off + i) div 8)) ((off + i) mod 8)) [0..<n]"

lemma report_bits_length [simp]: "length (report_bits data off n) = n"
  by (simp add: report_bits_def)

lemma report_bits_nth: "i < n \<Longrightarrow> report_bits data off n ! i = bit (data ! ((off + i) div 8)) ((off + i) mod 8)"
  by (simp add: report_bits_def)

text \<open>The bytes of the report, without its ID.\<close>

definition report_bytes :: "u8 list \<Rightarrow> HID_ReportItem_t \<Rightarrow> u8 list" where
  "report_bytes data it = (if ItemReportID it \<noteq> 0 then tl data else data)"

definition item_value :: "u8 list \<Rightarrow> HID_ReportItem_t \<Rightarrow> u32" where
  "item_value data it =
     horner_sum of_bool 2 (report_bits (report_bytes data it) (unat (BitOffset it)) (unat (BitSize (ItemAttributes it))))"

lemma bit_mask_bit: "bit (push_bit k 1 :: u32) j \<longleftrightarrow> j = k \<and> j < 32"
  by (auto simp: bit_push_bit_iff bit_1_iff)

lemma get_loop_bits:
  assumes "unat cur + n \<le> 8 * length data" "unat cur + n < 2 ^ 16"
  shows "\<exists>w. get_loop data n cur (push_bit k 1) v = Some w \<and>
    (\<forall>j < 32. bit w j \<longleftrightarrow> bit v j \<or> k \<le> j \<and> j < k + n \<and> report_bits data (unat cur) n ! (j - k))"
  using assms
proof (induction n arbitrary: cur k v)
  case (Suc n)
  let ?b = "bit (data ! (unat cur div 8)) (unat cur mod 8)"
  let ?v = "if ?b then v OR push_bit k 1 else v"
  have cur: "unat (cur + 1) = unat cur + 1"
    using Suc.prems(2) by (simp add: unat_word_ariths)
  have "unat (cur + 1) + n \<le> 8 * length data" "unat (cur + 1) + n < 2 ^ 16"
    using Suc.prems by (simp_all add: cur)
  from Suc.IH [OF this, of "Suc k" ?v] obtain w where
    w: "get_loop data n (cur + 1) (push_bit (Suc k) 1) ?v = Some w"
      "\<forall>j < 32. bit w j \<longleftrightarrow> bit ?v j \<or> Suc k \<le> j \<and> j < Suc k + n \<and> report_bits data (unat cur + 1) n ! (j - Suc k)"
    unfolding cur by blast
  have "unat (cur div 8) = unat cur div 8" "unat (cur mod 8) = unat cur mod 8"
    by (simp_all add: unat_div_distrib unat_mod_distrib)
  moreover have "unat cur div 8 < length data"
    using Suc.prems(1) by simp
  moreover have "push_bit 1 (push_bit k 1) = (push_bit (Suc k) 1 :: u32)"
    by (simp add: push_bit_push_bit)
  ultimately have "get_loop data (Suc n) cur (push_bit k 1) v = Some w"
    using w(1) by (simp add: Let_def)
  moreover have "bit w j \<longleftrightarrow> bit v j \<or> k \<le> j \<and> j < k + Suc n \<and> report_bits data (unat cur) (Suc n) ! (j - k)" if "j < 32" for j
  proof (cases "j = k")
    case True
    then show ?thesis
      using w(2) that by (simp add: bit_or_iff bit_mask_bit report_bits_nth del: push_bit_of_1)
  next
    case False
    have "report_bits data (unat cur) (Suc n) ! (j - k) = report_bits data (unat cur + 1) n ! (j - Suc k)"
      if "k < j" "j < k + Suc n"
    proof -
      have "unat cur + (j - k) = unat cur + 1 + (j - Suc k)"
        using that by simp
      then show ?thesis
        using that by (simp add: report_bits_nth)
    qed
    then show ?thesis
      using w(2) that False by (auto simp: bit_or_iff bit_mask_bit simp del: push_bit_of_1)
  qed
  ultimately show ?case
    by blast
qed auto

lemma get_item:
  assumes "item_end it \<le> 8 * length (report_bytes data it)" "item_end it < 2 ^ 16"
    and "ItemReportID it \<noteq> 0 \<longrightarrow> data \<noteq> [] \<and> hd data = ItemReportID it"
  shows "USB_GetHIDReportItemInfo data it = Some (True, it\<lparr>PreviousValue := Value it, Value := Some (item_value data it)\<rparr>)"
proof -
  let ?n = "unat (BitSize (ItemAttributes it))"
  obtain w where w: "get_loop (report_bytes data it) ?n (BitOffset it) 1 0 = Some w"
      "\<forall>j < 32. bit w j \<longleftrightarrow> j < ?n \<and> report_bits (report_bytes data it) (unat (BitOffset it)) ?n ! j"
    using get_loop_bits [of "BitOffset it" ?n "report_bytes data it" 0 0] assms(1,2) by (auto simp: item_end_def)
  have "w = item_value data it"
    using w(2) by (intro bit_word_eqI) (simp add: item_value_def bit_horner_sum_bit_word_iff)
  with w(1) assms(3) show ?thesis
    by (cases "ItemReportID it = 0") (simp_all add: USB_GetHIDReportItemInfo_def Let_def report_bytes_def)
qed

section \<open>Writing\<close>

lemma low_byte: "(0xFF :: u32) = mask 8"
  by (simp add: mask_eq_exp_minus_1)

text \<open>Only the low byte of the value is looked at.\<close>

lemma set_loop_low:
  assumes "v AND 0xFF = 0"
  shows "set_loop v n cur m data = Some data"
proof (induction n arbitrary: cur m)
  case (Suc n)
  have "unat (cur mod 8) < 8"
    by (simp add: unat_mod_distrib)
  then have "bit v (unat (cur mod 8)) = bit (v AND 0xFF) (unat (cur mod 8))"
    by (simp add: bit_and_iff low_byte bit_mask_iff)
  then show ?case
    using Suc assms by (simp add: Let_def)
qed simp

text \<open>Within a byte, from its first bit on, the bits of the value are added.\<close>

lemma set_loop_byte:
  assumes "unat cur = 8 * i + k" "k + n \<le> 8" "i < length data"
  shows "\<exists>w. set_loop v n cur (push_bit k 1) data = Some (data[i := w]) \<and>
    (\<forall>j < 8. bit w j \<longleftrightarrow> bit (data ! i) j \<or> k \<le> j \<and> j < k + n \<and> bit v j)"
  using assms
proof (induction n arbitrary: cur k data)
  case 0
  then show ?case
    by (intro exI [of _ "data ! i"]) auto
next
  case (Suc n)
  let ?x = "if bit v k then data ! i OR ucast (push_bit k 1 :: u32) else data ! i"
  have k: "k < 8" "unat (cur div 8) = i" "unat (cur mod 8) = k"
    using Suc.prems by (simp_all add: unat_div_distrib unat_mod_distrib)
  have step: "set_loop v (Suc n) cur (push_bit k 1) data = set_loop v n (cur + 1) (push_bit (Suc k) 1) (data[i := ?x])"
    using k Suc.prems(3) by (simp add: Let_def push_bit_push_bit del: push_bit_of_1)
  have x: "bit ?x j \<longleftrightarrow> bit (data ! i) j \<or> j = k \<and> bit v j" if "j < 8" for j
    using that by (cases "j = k") (simp_all add: bit_or_iff bit_unsigned_iff bit_mask_bit del: push_bit_of_1)
  show ?case
  proof (cases "n = 0")
    case True
    then show ?thesis
      using step x by (intro exI [of _ ?x]) auto
  next
    case False
    have "8 * i + k + 1 < 2 ^ 16"
    proof -
      have "8 * i + k < 65536" "k < 7"
        using unsigned_less [of cur, where ?'a = nat] Suc.prems(1,2) False by simp_all
      then have "8 * i + k + 1 < 65536"
        by presburger
      then show ?thesis
        by simp
    qed
    then have "unat (cur + 1) = 8 * i + Suc k"
      using Suc.prems(1) by (simp add: unat_word_ariths)
    from Suc.IH [OF this, of "data[i := ?x]"] Suc.prems obtain w where
      w: "set_loop v n (cur + 1) (push_bit (Suc k) 1) (data[i := ?x]) = Some (data[i := w])"
        "\<forall>j < 8. bit w j \<longleftrightarrow> bit ?x j \<or> Suc k \<le> j \<and> j < Suc k + n \<and> bit v j"
      by auto
    have "bit w j \<longleftrightarrow> bit (data ! i) j \<or> k \<le> j \<and> j < k + Suc n \<and> bit v j" if "j < 8" for j
      using w(2) x that by auto
    with step w(1) show ?thesis
      by (intro exI [of _ w]) simp
  qed
qed

lemma set_item_byte:
  assumes "Value it = Some v" "unat (BitOffset it) = 8 * i" "n = unat (BitSize (ItemAttributes it))" "n \<le> 8"
    and "i < length (report_bytes data it)" "ItemReportID it \<noteq> 0 \<longrightarrow> data \<noteq> []"
  obtains w data' where "USB_SetHIDReportItemInfo data it = Some (data', it\<lparr>PreviousValue := Some v\<rparr>)"
    "report_bytes data' it = (report_bytes data it)[i := w]" "ItemReportID it \<noteq> 0 \<longrightarrow> data' \<noteq> [] \<and> hd data' = ItemReportID it"
    "\<forall>j < 8. bit w j \<longleftrightarrow> bit (report_bytes data it ! i) j \<or> j < n \<and> bit v j"
proof -
  obtain w where w: "set_loop v n (BitOffset it) 1 (report_bytes data it) = Some ((report_bytes data it)[i := w])"
      "\<forall>j < 8. bit w j \<longleftrightarrow> bit (report_bytes data it ! i) j \<or> j < n \<and> bit v j"
    using set_loop_byte [of "BitOffset it" i 0 n "report_bytes data it" v] assms(2,4,5) by auto
  let ?data = "if ItemReportID it \<noteq> 0 then ItemReportID it # (report_bytes data it)[i := w] else (report_bytes data it)[i := w]"
  have "USB_SetHIDReportItemInfo data it = Some (?data, it\<lparr>PreviousValue := Some v\<rparr>)"
    using w(1) assms(1,3,6)
    by (cases data; cases "ItemReportID it = 0") (simp_all add: USB_SetHIDReportItemInfo_def Let_def report_bytes_def)
  then show thesis
    using w(2) that [of ?data w] by (cases "ItemReportID it = 0") (simp_all add: report_bytes_def)
qed

lemma set_get_byte:
  assumes "Value it = Some v" "unat (BitOffset it) = 8 * i" "n = unat (BitSize (ItemAttributes it))" "n \<le> 8"
    and "i < length (report_bytes data it)" "ItemReportID it \<noteq> 0 \<longrightarrow> data \<noteq> []"
    and "\<forall>j < n. \<not> bit (report_bytes data it ! i) j" and fits: "item_end it < 2 ^ 16"
  shows "\<exists>data' it'. USB_SetHIDReportItemInfo data it = Some (data', it') \<and>
    USB_GetHIDReportItemInfo data' it' = Some (True, it'\<lparr>PreviousValue := Some v, Value := Some (take_bit n v)\<rparr>)"
proof -
  obtain w data' where s: "USB_SetHIDReportItemInfo data it = Some (data', it\<lparr>PreviousValue := Some v\<rparr>)"
    and bytes: "report_bytes data' it = (report_bytes data it)[i := w]"
    and id: "ItemReportID it \<noteq> 0 \<longrightarrow> data' \<noteq> [] \<and> hd data' = ItemReportID it"
    and w: "\<forall>j < 8. bit w j \<longleftrightarrow> bit (report_bytes data it ! i) j \<or> j < n \<and> bit v j"
    by (rule set_item_byte [OF assms(1-6)])
  let ?it = "it\<lparr>PreviousValue := Some v\<rparr>"
  have same: "report_bytes d ?it = report_bytes d it" "item_end ?it = item_end it" for d
    by (simp_all add: report_bytes_def item_end_def)
  have "item_end it \<le> 8 * length (report_bytes data' it)"
    using assms(2-5) by (auto simp: item_end_def bytes)
  moreover have "item_value data' ?it = take_bit n v"
  proof (rule bit_word_eqI)
    fix j
    assume "j < LENGTH(32)"
    have bits: "report_bits ((report_bytes data it)[i := w]) (8 * i) n ! j = bit w j" if "j < n"
      using that assms(4,5) by (simp add: report_bits_nth)
    have "bit (item_value data' ?it) j \<longleftrightarrow> j < n \<and> bit w j"
      using \<open>j < LENGTH(32)\<close> assms(2,3) bits
      by (auto simp: item_value_def same bytes bit_horner_sum_bit_word_iff)
    then show "bit (item_value data' ?it) j = bit (take_bit n v) j"
      using w assms(4,7) by (auto simp: bit_take_bit_iff)
  qed
  ultimately show ?thesis
    using s get_item [of ?it data'] id same assms(1) fits by simp
qed

section \<open>Results\<close>

text \<open>C27: for an item of a parsed descriptor and a report of at least the size of its report, behind its ID where
  it has one, \<open>USB_GetHIDReportItemInfo\<close> stays within the report, returns true and stores in the item the number
  whose bits are those of the report at its place (the lowest 32 of them), and the value before as the previous one.\<close>

theorem parsed_item_value:
  assumes "USB_ProcessHIDReport filt desc = Some (e, p)" and "sizes_fit filt desc"
    and "it \<in> set (ReportItems p)" and "placed (UsingReportIDs p) it"
    and "unat (USB_GetHIDReportSize p (ItemReportID it) (ItemType it)) \<le> length (report_bytes data it)"
    and "ItemReportID it \<noteq> 0 \<longrightarrow> data \<noteq> [] \<and> hd data = ItemReportID it"
  shows "USB_GetHIDReportItemInfo data it = Some (True, it\<lparr>PreviousValue := Value it, Value := Some (item_value data it)\<rparr>)"
proof (rule get_item [OF _ _ assms(6)])
  note place = item_lies_in_report [OF assms(1-4)]
  show "item_end it \<le> 8 * length (report_bytes data it)"
    using place(1) assms(5) by simp
  show "item_end it < 2 ^ 16"
    by (rule place(2))
qed

theorem parsed_item_value_witness:
  "\<exists>e p. USB_ProcessHIDReport (\<lambda>_. True) two_bytes_desc = Some (e, p) \<and>
    (\<exists>it \<in> set (ReportItems p). USB_GetHIDReportItemInfo [3, 0x12, 0x34] it =
      Some (True, it\<lparr>PreviousValue := Value it, Value := Some (item_value [3, 0x12, 0x34] it)\<rparr>))"
proof -
  obtain e p where p: "USB_ProcessHIDReport (\<lambda>_. True) two_bytes_desc = Some (e, p)" "USB_GetHIDReportSize p 3 In = 2"
      "map (\<lambda>it. (unat (BitOffset it), unat (BitSize (ItemAttributes it)), ItemReportID it, ItemType it)) (ReportItems p) =
         [(0, 8, 3, In), (8, 8, 3, In)]"
    using two_bytes_parse by (auto split: option.splits)
  then obtain it where it: "it \<in> set (ReportItems p)" "ItemReportID it = 3" "ItemType it = In"
    by (cases "ReportItems p") auto
  have "USB_GetHIDReportItemInfo [3, 0x12, 0x34] it =
      Some (True, it\<lparr>PreviousValue := Value it, Value := Some (item_value [3, 0x12, 0x34] it)\<rparr>)"
    using it p(2) by (intro parsed_item_value [OF p(1) two_bytes_fit]) (simp_all add: placed_def report_bytes_def)
  with p(1) it(1) show ?thesis
    by blast
qed

text \<open>An item of at most eight bits that begins with a byte can be written: in a report whose bits at its place
  are zero, reading back what \<open>USB_SetHIDReportItemInfo\<close> has written gives the value, cut to the size of the item.\<close>

theorem written_byte_read_back:
  assumes "Value it = Some v" and "unat (BitOffset it) = 8 * i" and "unat (BitSize (ItemAttributes it)) \<le> 8"
    and "i < length (report_bytes data it)" and "ItemReportID it \<noteq> 0 \<longrightarrow> data \<noteq> []"
    and "\<forall>j < unat (BitSize (ItemAttributes it)). \<not> bit (report_bytes data it ! i) j" and "item_end it < 2 ^ 16"
  shows "\<exists>data' it'. USB_SetHIDReportItemInfo data it = Some (data', it') \<and>
    USB_GetHIDReportItemInfo data' it' = Some (True, it'\<lparr>PreviousValue := Some v,
      Value := Some (take_bit (unat (BitSize (ItemAttributes it))) v)\<rparr>)"
  using set_get_byte [OF assms(1,2) refl assms(3-7)] .

text \<open>An item at the second byte of a report without an ID.\<close>

definition sample_item :: "nat \<Rightarrow> u32 \<Rightarrow> HID_ReportItem_t" where
  "sample_item n v = \<lparr>BitOffset = 8, ItemType = Out, ItemFlags = 2, ItemReportID = 0, CollectionPath = None,
     ItemAttributes = zero_attributes\<lparr>BitSize := of_nat n\<rparr>, Value = Some v, PreviousValue = None\<rparr>"

theorem written_byte_read_back_witness:
  "\<exists>data' it'. USB_SetHIDReportItemInfo [0, 0] (sample_item 4 0x2A) = Some (data', it') \<and>
    USB_GetHIDReportItemInfo data' it' = Some (True, it'\<lparr>PreviousValue := Some 0x2A, Value := Some 0xA\<rparr>)"
  using written_byte_read_back [of "sample_item 4 0x2A" "0x2A" 1 "[0, 0]"]
  by (simp add: sample_item_def zero_attributes_def report_bytes_def item_end_def take_bit_eq_mod)

text \<open>\<open>USB_SetHIDReportItemInfo\<close> looks at the low byte of the value only: when that is zero it leaves the
  report as it is, whatever the other bytes of the value and the size of the item. An item of 16 bits whose value is
  \<open>0xFF00\<close> is read back as 0.\<close>

theorem high_bytes_not_written:
  assumes "Value it = Some v" and "v AND 0xFF = 0" and "ItemReportID it = 0"
  shows "USB_SetHIDReportItemInfo data it = Some (data, it\<lparr>PreviousValue := Some v\<rparr>)"
  using assms set_loop_low [OF assms(2)] by (simp add: USB_SetHIDReportItemInfo_def Let_def)

theorem high_bytes_not_written_witness:
  "USB_SetHIDReportItemInfo [0, 0, 0] (sample_item 16 0xFF00) = Some ([0, 0, 0], (sample_item 16 0xFF00)\<lparr>PreviousValue := Some 0xFF00\<rparr>)"
  by (rule high_bytes_not_written) (simp_all add: sample_item_def)

end
