(* ===== verification/HidJoystick.thy ===== *)
theory HidJoystick
  imports HidValues UsbJoystick UsbDevice
begin

text \<open>
  The two ends of the bus together: the parser of LUFA's host on the report descriptor of the firmware's joystick
  (\<open>ps-2/usb.c\<close>), and its reading of the reports \<open>usb_send_codes\<close> sends.
\<close>

text \<open>Place, size, type, report, usage page and usage of an item.\<close>

definition layout :: "HID_ReportItem_t \<Rightarrow> nat \<times> nat \<times> item_type \<times> u8 \<times> u16 \<times> u16" where
  "layout it = (unat (BitOffset it), unat (BitSize (ItemAttributes it)), ItemType it, ItemReportID it,
     Page (ItemUsage (ItemAttributes it)), Usage (ItemUsage (ItemAttributes it)))"

definition joystick_layout :: "(nat \<times> nat \<times> item_type \<times> u8 \<times> u16 \<times> u16) list" where
  "joystick_layout =
     [(0, 8, In, 0, 1, 0x30), (8, 8, In, 0, 1, 0x31), (16, 8, In, 0, 1, 0x32), (24, 8, In, 0, 1, 0x35),
      (32, 4, In, 0, 1, 0x39)] @
     map (\<lambda>i. (36 + i, 1, In, 0, 9, of_nat i + 1)) [0, 1, 2, 3, 4, 5, 6, 7, 8, 9, 10, 11]"

lemma joystick_parse:
  "case USB_ProcessHIDReport (\<lambda>_. True) joystick_hid_report_desc of
     None \<Rightarrow> False
   | Some (e, p) \<Rightarrow> e = HID_PARSE_Successful \<and> map layout (ReportItems p) = joystick_layout \<and>
       USB_GetHIDReportSize p 0 In = 6 \<and> LargestReportSizeBits p = 47 \<and> \<not> UsingReportIDs p"
  by (simp add: USB_ProcessHIDReport_def HID_ReportInfo_t.defs parse_simps parser_start_def zero_attributes_def
      joystick_hid_report_desc_def replicate_10 report_items_unroll layout_def joystick_layout_def USB_GetHIDReportSize_def size_bytes_def)

text \<open>The value of an item depends on its place only.\<close>

definition place_value :: "u8 list \<Rightarrow> nat \<times> nat \<times> item_type \<times> u8 \<times> u16 \<times> u16 \<Rightarrow> u32" where
  "place_value data = (\<lambda>(off, n, ty, k, page, us). horner_sum of_bool 2 (report_bits (if k \<noteq> 0 then tl data else data) off n))"

lemma item_value_layout: "item_value data it = place_value data (layout it)"
  by (simp add: item_value_def place_value_def layout_def report_bytes_def)

lemma bit_place_value:
  "j < 32 \<Longrightarrow> bit (place_value data (off, n, ty, 0, pg, us)) j \<longleftrightarrow> j < n \<and> bit (data ! ((off + j) div 8)) ((off + j) mod 8)"
  by (auto simp: place_value_def bit_horner_sum_bit_word_iff report_bits_nth)

text \<open>What the items of the report mean: the four axes, the direction of the hat and the twelve buttons.\<close>

definition joystick_values :: "usb \<Rightarrow> u32 list" where
  "joystick_values s = [ucast (joystick_axis_x s), ucast (joystick_axis_y s), ucast (joystick_axis_z s),
     ucast (joystick_axis_rz s), take_bit 4 (ucast (joystick_buttons s))] @
     map (\<lambda>i. of_bool (bit (joystick_buttons s) (4 + i))) [0, 1, 2, 3, 4, 5, 6, 7, 8, 9, 10, 11]"

lemma byte_value: "8 * i = off \<Longrightarrow> place_value data (off, 8, ty, 0, pg, us) = ucast (data ! i)"
proof (rule bit_word_eqI)
  fix j
  assume off: "8 * i = off" and j: "j < LENGTH(32)"
  show "bit (place_value data (off, 8, ty, 0, pg, us)) j = bit (ucast (data ! i) :: u32) j"
    using off j by (cases "j < 8") (auto simp: bit_place_value bit_unsigned_iff dest: bit_imp_le_length)
qed

lemma bit_value: "place_value data (off, 1, ty, 0, pg, us) = of_bool (bit (data ! (off div 8)) (off mod 8))"
proof (rule bit_word_eqI)
  fix j
  assume "j < LENGTH(32)"
  then show "bit (place_value data (off, 1, ty, 0, pg, us)) j = bit (of_bool (bit (data ! (off div 8)) (off mod 8)) :: u32) j"
    by (cases "j = 0") (simp_all add: bit_place_value bit_of_bool_iff)
qed

lemma hat_value: "place_value data (32, 4, ty, 0, pg, us) = take_bit 4 (ucast (data ! 4))"
proof (rule bit_word_eqI)
  fix j
  assume j: "j < LENGTH(32)"
  show "bit (place_value data (32, 4, ty, 0, pg, us)) j = bit (take_bit 4 (ucast (data ! 4)) :: u32) j"
  proof (cases "j < 4")
    case True
    then have "(32 + j) div 8 = 4" "(32 + j) mod 8 = j"
      by presburger+
    then show ?thesis
      using j True by (simp add: bit_place_value bit_unsigned_iff bit_take_bit_iff)
  qed (use j in \<open>simp add: bit_place_value bit_take_bit_iff\<close>)
qed

lemma take_bit_buttons: "take_bit 4 (ucast (ucast b :: u8)) = (take_bit 4 (ucast (b :: u16)) :: u32)"
  by (rule bit_word_eqI) (auto simp: bit_take_bit_iff bit_unsigned_iff)

lemma report_values: "map (place_value (report s)) joystick_layout = joystick_values s"
  by (simp add: joystick_layout_def joystick_values_def byte_value [where i = 0] byte_value [where i = 1] byte_value [where i = 2]
      byte_value [where i = 3] hat_value bit_value report_def take_bit_buttons bit_unsigned_iff bit_drop_bit_eq del: One_nat_def)

text \<open>From the report descriptor of the joystick the parser stores four axes of a byte, the hat of four bits and
  twelve buttons of a bit, one behind the other, in a report of six bytes without an ID. \<open>LargestReportSizeBits\<close>
  is one bit short: it is where the last item begins.\<close>

theorem joystick_descriptor_parsed:
  "\<exists>p. USB_ProcessHIDReport (\<lambda>_. True) joystick_hid_report_desc = Some (HID_PARSE_Successful, p) \<and>
    map layout (ReportItems p) = joystick_layout \<and> USB_GetHIDReportSize p 0 In = 6 \<and> LargestReportSizeBits p = 47"
  using joystick_parse by (auto split: option.splits)

lemma joystick_items_read:
  "\<exists>p. USB_ProcessHIDReport (\<lambda>_. True) joystick_hid_report_desc = Some (HID_PARSE_Successful, p) \<and>
    map (\<lambda>it. map_option (\<lambda>(ok, it'). (ok, Value it')) (USB_GetHIDReportItemInfo (report s) it)) (ReportItems p) =
    map (\<lambda>v. Some (True, Some v)) (joystick_values s)"
proof -
  obtain p where p: "USB_ProcessHIDReport (\<lambda>_. True) joystick_hid_report_desc = Some (HID_PARSE_Successful, p)"
      "map layout (ReportItems p) = joystick_layout"
    using joystick_parse by (auto split: option.splits)
  have "USB_GetHIDReportItemInfo (report s) it = Some (True, it\<lparr>PreviousValue := Value it, Value := Some (item_value (report s) it)\<rparr>)"
    if "it \<in> set (ReportItems p)" for it
  proof (rule get_item)
    have "layout it \<in> set joystick_layout"
      using that p(2) by (metis image_eqI list.set_map)
    then have "item_end it \<le> 48 \<and> ItemReportID it = 0"
      by (auto simp: joystick_layout_def layout_def item_end_def)
    then show "item_end it \<le> 8 * length (report_bytes (report s) it)" "item_end it < 2 ^ 16"
        "ItemReportID it \<noteq> 0 \<longrightarrow> report s \<noteq> [] \<and> hd (report s) = ItemReportID it"
      by (simp_all add: report_bytes_def report_def)
  qed
  then have "map (\<lambda>it. map_option (\<lambda>(ok, it'). (ok, Value it')) (USB_GetHIDReportItemInfo (report s) it)) (ReportItems p) =
      map (\<lambda>x. Some (True, Some (place_value (report s) x))) (map layout (ReportItems p))"
    by (simp add: item_value_layout)
  also have "\<dots> = map (\<lambda>v. Some (True, Some v)) (joystick_values s)"
    unfolding p(2) report_values [symmetric] by simp
  finally show ?thesis
    using p(1) by blast
qed

text \<open>In every report the firmware sends, reading the items of the parsed descriptor gives, in order, the four
  axes, the direction of the hat and the twelve buttons of the joystick's state.\<close>

theorem joystick_report_read:
  "\<exists>p. USB_ProcessHIDReport (\<lambda>_. True) joystick_hid_report_desc = Some (HID_PARSE_Successful, p) \<and>
    map (\<lambda>it. map_option (\<lambda>(ok, it'). (ok, Value it')) (USB_GetHIDReportItemInfo (report s) it)) (ReportItems p) =
    map (\<lambda>v. Some (True, Some v)) (joystick_values s)"
  by (rule joystick_items_read)

end
