(* ===== verification/HostPipe.thy ===== *)
theory HostPipe
  imports LufaEndpoint
begin

text \<open>
  The pipes of LUFA's host side: \<open>Pipe.h\<close>, \<open>Pipe.c\<close> and the stream functions its template
  \<open>Template_Pipe_RW.c\<close> expands to, without \<open>FAST_STREAM_TRANSFERS\<close> and with \<open>NO_STREAM_CALLBACKS\<close>, as the
  emulator's build sets them, for a part of series 6 or 7 that is host only.

  \<open>hreads\<close> holds the reads of volatile registers the program will make, in the order it makes them: the
  register and the value. \<open>HostLook\<close> is a look at \<open>USB_HostState\<close>, where any value but zero says that the
  disconnection interrupt has been served meanwhile. \<open>None\<close> is a read with no value left (a waiting loop
  that goes on) or of another register than the next one, or leaving a buffer. What is written is logged in
  \<open>hwrites\<close> with the number of the selected pipe. The configuration registers of the pipes (\<open>UPCONX\<close>,
  \<open>UPCFG0X\<close>, \<open>UPCFG1X\<close>), \<open>UPNUM\<close> and the bit \<open>SOFEN\<close> are only changed by the program and kept as memory.
  Whether the hardware accepts the configuration of a pipe (the bit CFGOK) is a parameter.
\<close>

section \<open>State\<close>

record pipe =
  UPCONX :: u8
  UPCFG0X :: u8
  UPCFG1X :: u8

datatype hreg = UPINTX | UPBCX | UPDATX | UPERRX | UPRST | UPIENX | UPINT | UHINT | UPSTAX | UPINRQX | UPCFG2X | UHIEN | UHADDR | UHCON
  | OTGCON | OTGINT | OTGIEN | USBCON | USBINT | UHWCON | UDCON | PLLCSR | PORTE | DDRE | HostLook

datatype host_state =
    HOST_STATE_WaitForDeviceRemoval | HOST_STATE_WaitForDevice | HOST_STATE_Unattached | HOST_STATE_Powered
  | HOST_STATE_Powered_WaitForDeviceSettle | HOST_STATE_Powered_WaitForConnect | HOST_STATE_Powered_DoReset
  | HOST_STATE_Powered_ConfigPipe | HOST_STATE_Default | HOST_STATE_Default_PostReset
  | HOST_STATE_Default_PostAddressSet | HOST_STATE_Addressed | HOST_STATE_Configured | HOST_STATE_Suspended

record host =
  pipes :: "pipe list"
  UPNUM :: nat
  hreads :: "(hreg \<times> u16) list"
  hwrites :: "(nat \<times> hreg \<times> u8) list"
  SOFEN :: bool
  USB_HostState :: host_state
  USB_ControlPipeSize :: u8
  HostRequest :: USB_Request_Header_t     \<comment> \<open>\<open>USB_ControlRequest\<close>\<close>

definition no_request :: USB_Request_Header_t where
  "no_request = \<lparr>bmRequestType = 0, bRequest = 0, wValue = 0, wIndex = 0, wLength = 0\<rparr>"

definition hrd :: "hreg \<Rightarrow> host \<Rightarrow> (u16 \<times> host) option" where
  "hrd r h = (case hreads h of
       [] \<Rightarrow> None
     | (q, x) # xs \<Rightarrow> if q = r then Some (x, h\<lparr>hreads := xs\<rparr>) else None)"

definition hwr :: "hreg \<Rightarrow> u8 \<Rightarrow> host \<Rightarrow> host" where
  "hwr r x h = h\<lparr>hwrites := hwrites h @ [(UPNUM h, r, x)]\<rparr>"

definition hflag :: "hreg \<Rightarrow> nat \<Rightarrow> host \<Rightarrow> (bool \<times> host) option" where
  "hflag r b h = do { (x, h) \<leftarrow> hrd r h; Some (bit x b, h) }"

text \<open>\<open>r &= ~(1 << b)\<close>\<close>

definition hclear :: "hreg \<Rightarrow> nat \<Rightarrow> host \<Rightarrow> host option" where
  "hclear r b h = do { (x, h) \<leftarrow> hrd r h; Some (hwr r (unset_bit b (ucast x)) h) }"

text \<open>\<open>r |= (1 << b)\<close>\<close>

definition hset :: "hreg \<Rightarrow> nat \<Rightarrow> host \<Rightarrow> host option" where
  "hset r b h = do { (x, h) \<leftarrow> hrd r h; Some (hwr r (set_bit b (ucast x)) h) }"

definition look_state :: "host \<Rightarrow> (host_state \<times> host) option" where
  "look_state h = do {
     (x, h) \<leftarrow> hrd HostLook h;
     let h = (if x \<noteq> 0 then h\<lparr>USB_HostState := HOST_STATE_Unattached\<rparr> else h);
     Some (USB_HostState h, h) }"

section \<open>\<open>Pipe.h\<close>\<close>

abbreviation (input) "PIPE_TOTAL_PIPES \<equiv> 7 :: nat"
abbreviation (input) "PIPE_CONTROLPIPE \<equiv> 0 :: u8"
abbreviation (input) "PIPE_TOKEN_SETUP \<equiv> 0x00 :: u8"
abbreviation (input) "PIPE_TOKEN_IN \<equiv> 0x10 :: u8"
abbreviation (input) "PIPE_TOKEN_OUT \<equiv> 0x20 :: u8"
abbreviation (input) "PIPE_TOKEN_MASK \<equiv> 0x30 :: u8"
abbreviation (input) "PIPE_BANK_SINGLE \<equiv> 0x00 :: u8"
abbreviation (input) "PIPE_BANK_DOUBLE \<equiv> 0x04 :: u8"
abbreviation (input) "PIPE_EPNUM_MASK \<equiv> 0x0F :: u8"
abbreviation (input) "PIPE_EPDIR_MASK \<equiv> 0x80 :: u8"
abbreviation (input) "PIPE_EP_TYPE_INTERRUPT \<equiv> 0x03 :: u8"
abbreviation (input) "RXINI \<equiv> 0 :: nat"
abbreviation (input) "RXSTALLI \<equiv> 1 :: nat"
abbreviation (input) "TXOUTI \<equiv> 2 :: nat"
abbreviation (input) "TXSTPI \<equiv> 3 :: nat"
abbreviation (input) "PERRI \<equiv> 4 :: nat"
abbreviation (input) "PIPE_RWAL \<equiv> 5 :: nat"
abbreviation (input) "HSOFI \<equiv> 5 :: nat"

definition on_pipe :: "(pipe \<Rightarrow> pipe) \<Rightarrow> host \<Rightarrow> host" where
  "on_pipe f h = h\<lparr>pipes := (pipes h)[UPNUM h := f (pipes h ! UPNUM h)]\<rparr>"

definition Pipe_SelectPipe :: "u8 \<Rightarrow> host \<Rightarrow> host" where
  "Pipe_SelectPipe n h = h\<lparr>UPNUM := unat n\<rparr>"

definition Pipe_BytesInPipe :: "host \<Rightarrow> (u16 \<times> host) option" where
  "Pipe_BytesInPipe = hrd UPBCX"

definition Pipe_ResetPipe :: "u8 \<Rightarrow> host \<Rightarrow> host" where
  "Pipe_ResetPipe n h = hwr UPRST 0 (hwr UPRST (push_bit (unat n) 1) h)"

definition Pipe_EnablePipe :: "host \<Rightarrow> host" where
  "Pipe_EnablePipe = on_pipe (\<lambda>p. p\<lparr>UPCONX := UPCONX p OR 1\<rparr>)"

definition Pipe_DisablePipe :: "host \<Rightarrow> host" where
  "Pipe_DisablePipe = on_pipe (\<lambda>p. p\<lparr>UPCONX := UPCONX p AND NOT 1\<rparr>)"

definition Pipe_GetPipeToken :: "host \<Rightarrow> u8" where
  "Pipe_GetPipeToken h = UPCFG0X (pipes h ! UPNUM h) AND PIPE_TOKEN_MASK"

definition Pipe_SetPipeToken :: "u8 \<Rightarrow> host \<Rightarrow> host" where
  "Pipe_SetPipeToken t = on_pipe (\<lambda>p. p\<lparr>UPCFG0X := (UPCFG0X p AND NOT PIPE_TOKEN_MASK) OR t\<rparr>)"

definition Pipe_SetInfiniteINRequests :: "host \<Rightarrow> host" where
  "Pipe_SetInfiniteINRequests = on_pipe (\<lambda>p. p\<lparr>UPCONX := UPCONX p OR 0x20\<rparr>)"

definition Pipe_BoundEndpointNumber :: "host \<Rightarrow> u8" where
  "Pipe_BoundEndpointNumber h = UPCFG0X (pipes h ! UPNUM h) AND PIPE_EPNUM_MASK"

definition Pipe_Unfreeze :: "host \<Rightarrow> host" where
  "Pipe_Unfreeze = on_pipe (\<lambda>p. p\<lparr>UPCONX := UPCONX p AND NOT 0x40\<rparr>)"

definition Pipe_Freeze :: "host \<Rightarrow> host" where
  "Pipe_Freeze = on_pipe (\<lambda>p. p\<lparr>UPCONX := UPCONX p OR 0x40\<rparr>)"

definition Pipe_ClearError :: "host \<Rightarrow> host option" where "Pipe_ClearError = hclear UPINTX PERRI"
definition Pipe_IsError :: "host \<Rightarrow> (bool \<times> host) option" where "Pipe_IsError = hflag UPINTX PERRI"
definition Pipe_ClearErrorFlags :: "host \<Rightarrow> host" where "Pipe_ClearErrorFlags = hwr UPERRX 0"

definition Pipe_IsReadWriteAllowed :: "host \<Rightarrow> (bool \<times> host) option" where
  "Pipe_IsReadWriteAllowed = hflag UPINTX PIPE_RWAL"

definition Pipe_IsINReceived :: "host \<Rightarrow> (bool \<times> host) option" where "Pipe_IsINReceived = hflag UPINTX RXINI"
definition Pipe_IsOUTReady :: "host \<Rightarrow> (bool \<times> host) option" where "Pipe_IsOUTReady = hflag UPINTX TXOUTI"
definition Pipe_IsSETUPSent :: "host \<Rightarrow> (bool \<times> host) option" where "Pipe_IsSETUPSent = hflag UPINTX TXSTPI"
definition Pipe_IsStalled :: "host \<Rightarrow> (bool \<times> host) option" where "Pipe_IsStalled = hflag UPINTX RXSTALLI"
definition Pipe_ClearStall :: "host \<Rightarrow> host option" where "Pipe_ClearStall = hclear UPINTX RXSTALLI"

text \<open>\<open>Pipe_ClearIN\<close>, \<open>Pipe_ClearOUT\<close> and \<open>Pipe_ClearSETUP\<close>: one read, two writes.\<close>

definition acknowledge :: "nat \<Rightarrow> host \<Rightarrow> host option" where
  "acknowledge b h = do {
     (Temp, h) \<leftarrow> hrd UPINTX h;
     Some (hwr UPINTX (unset_bit FIFOCON (ucast Temp)) (hwr UPINTX (unset_bit b (ucast Temp)) h)) }"

definition Pipe_ClearIN :: "host \<Rightarrow> host option" where "Pipe_ClearIN = acknowledge RXINI"
definition Pipe_ClearOUT :: "host \<Rightarrow> host option" where "Pipe_ClearOUT = acknowledge TXOUTI"
definition Pipe_ClearSETUP :: "host \<Rightarrow> host option" where "Pipe_ClearSETUP = acknowledge TXSTPI"

definition Pipe_Read_Byte :: "host \<Rightarrow> (u8 \<times> host) option" where
  "Pipe_Read_Byte h = do { (x, h) \<leftarrow> hrd UPDATX h; Some (ucast x, h) }"

definition Pipe_Write_Byte :: "u8 \<Rightarrow> host \<Rightarrow> host" where
  "Pipe_Write_Byte = hwr UPDATX"

definition Pipe_Discard_Byte :: "host \<Rightarrow> host option" where
  "Pipe_Discard_Byte h = do { (Dummy, h) \<leftarrow> Pipe_Read_Byte h; Some h }"

definition Pipe_AllocateMemory :: "host \<Rightarrow> host" where
  "Pipe_AllocateMemory = on_pipe (\<lambda>p. p\<lparr>UPCFG1X := UPCFG1X p OR 2\<rparr>)"

definition Pipe_DeallocateMemory :: "host \<Rightarrow> host" where
  "Pipe_DeallocateMemory = on_pipe (\<lambda>p. p\<lparr>UPCFG1X := UPCFG1X p AND NOT 2\<rparr>)"

definition Pipe_BytesToEPSizeMask :: "u16 \<Rightarrow> u8" where
  "Pipe_BytesToEPSizeMask Bytes =
     (if Bytes \<le> 8 then 0x00 else if Bytes \<le> 16 then 0x10 else if Bytes \<le> 32 then 0x20
      else if Bytes \<le> 64 then 0x30 else if Bytes \<le> 128 then 0x40 else 0x50)"

text \<open>The remaining operations; words and double words have their bytes in both orders.\<close>

definition Pipe_GetCurrentPipe :: "host \<Rightarrow> nat" where
  "Pipe_GetCurrentPipe h = UPNUM h mod 8"

definition Pipe_IsEnabled :: "host \<Rightarrow> bool" where
  "Pipe_IsEnabled h = bit (UPCONX (pipes h ! UPNUM h)) 0"

definition Pipe_SetFiniteINRequests :: "u8 \<Rightarrow> host \<Rightarrow> host" where
  "Pipe_SetFiniteINRequests n h = hwr UPINRQX n (on_pipe (\<lambda>p. p\<lparr>UPCONX := UPCONX p AND NOT 0x20\<rparr>) h)"

definition Pipe_SetInterruptPeriod :: "u8 \<Rightarrow> host \<Rightarrow> host" where
  "Pipe_SetInterruptPeriod ms = hwr UPCFG2X ms"

definition Pipe_GetPipeInterrupts :: "host \<Rightarrow> (u8 \<times> host) option" where
  "Pipe_GetPipeInterrupts h = do { (x, h) \<leftarrow> hrd UPINT h; Some (ucast x, h) }"

definition Pipe_HasPipeInterrupted :: "nat \<Rightarrow> host \<Rightarrow> (bool \<times> host) option" where
  "Pipe_HasPipeInterrupted = hflag UPINT"

definition Pipe_IsFrozen :: "host \<Rightarrow> bool" where
  "Pipe_IsFrozen h = bit (UPCONX (pipes h ! UPNUM h)) 6"

abbreviation (input) "PIPE_ERRORFLAG_OVERFLOW \<equiv> 0x40 :: u8"
abbreviation (input) "PIPE_ERRORFLAG_UNDERFLOW \<equiv> 0x20 :: u8"

definition Pipe_GetErrorFlags :: "host \<Rightarrow> (u8 \<times> host) option" where
  "Pipe_GetErrorFlags h = do {
     (x, h) \<leftarrow> hrd UPERRX h;
     (y, h) \<leftarrow> hrd UPSTAX h;
     Some ((ucast x AND 0x1F) OR (ucast y AND PIPE_ERRORFLAG_OVERFLOW OR PIPE_ERRORFLAG_UNDERFLOW), h) }"

text \<open>As \<open>&\<close> binds stronger than \<open>|\<close>, the flag for an underflow is always there.\<close>

lemma error_flags_underflow: "Pipe_GetErrorFlags h = Some (f, t) \<Longrightarrow> bit f 5"
  by (auto simp: Pipe_GetErrorFlags_def bit_or_iff split: bind_splits)

definition Pipe_IsNAKReceived :: "host \<Rightarrow> (bool \<times> host) option" where "Pipe_IsNAKReceived = hflag UPINTX 6"
definition Pipe_ClearNAKReceived :: "host \<Rightarrow> host option" where "Pipe_ClearNAKReceived = hclear UPINTX 6"

definition Pipe_Read_Word_LE :: "host \<Rightarrow> (u16 \<times> host) option" where
  "Pipe_Read_Word_LE h = do { (b0, h) \<leftarrow> Pipe_Read_Byte h; (b1, h) \<leftarrow> Pipe_Read_Byte h; Some (word_rcat [b1, b0], h) }"

definition Pipe_Read_Word_BE :: "host \<Rightarrow> (u16 \<times> host) option" where
  "Pipe_Read_Word_BE h = do { (b1, h) \<leftarrow> Pipe_Read_Byte h; (b0, h) \<leftarrow> Pipe_Read_Byte h; Some (word_rcat [b1, b0], h) }"

definition Pipe_Write_Word_LE :: "u16 \<Rightarrow> host \<Rightarrow> host" where
  "Pipe_Write_Word_LE w h = Pipe_Write_Byte (ucast (drop_bit 8 w)) (Pipe_Write_Byte (ucast w) h)"

definition Pipe_Write_Word_BE :: "u16 \<Rightarrow> host \<Rightarrow> host" where
  "Pipe_Write_Word_BE w h = Pipe_Write_Byte (ucast w) (Pipe_Write_Byte (ucast (drop_bit 8 w)) h)"

definition Pipe_Discard_Word :: "host \<Rightarrow> host option" where
  "Pipe_Discard_Word h = do { h \<leftarrow> Pipe_Discard_Byte h; Pipe_Discard_Byte h }"

definition Pipe_Read_DWord_LE :: "host \<Rightarrow> (u32 \<times> host) option" where
  "Pipe_Read_DWord_LE h = do {
     (b0, h) \<leftarrow> Pipe_Read_Byte h; (b1, h) \<leftarrow> Pipe_Read_Byte h; (b2, h) \<leftarrow> Pipe_Read_Byte h; (b3, h) \<leftarrow> Pipe_Read_Byte h;
     Some (word_rcat [b3, b2, b1, b0], h) }"

definition Pipe_Read_DWord_BE :: "host \<Rightarrow> (u32 \<times> host) option" where
  "Pipe_Read_DWord_BE h = do {
     (b3, h) \<leftarrow> Pipe_Read_Byte h; (b2, h) \<leftarrow> Pipe_Read_Byte h; (b1, h) \<leftarrow> Pipe_Read_Byte h; (b0, h) \<leftarrow> Pipe_Read_Byte h;
     Some (word_rcat [b3, b2, b1, b0], h) }"

definition Pipe_Write_DWord_LE :: "u32 \<Rightarrow> host \<Rightarrow> host" where
  "Pipe_Write_DWord_LE w h =
     Pipe_Write_Byte (ucast (drop_bit 24 w)) (Pipe_Write_Byte (ucast (drop_bit 16 w))
       (Pipe_Write_Byte (ucast (drop_bit 8 w)) (Pipe_Write_Byte (ucast w) h)))"

definition Pipe_Write_DWord_BE :: "u32 \<Rightarrow> host \<Rightarrow> host" where
  "Pipe_Write_DWord_BE w h =
     Pipe_Write_Byte (ucast w) (Pipe_Write_Byte (ucast (drop_bit 8 w))
       (Pipe_Write_Byte (ucast (drop_bit 16 w)) (Pipe_Write_Byte (ucast (drop_bit 24 w)) h)))"

definition Pipe_Discard_DWord :: "host \<Rightarrow> host option" where
  "Pipe_Discard_DWord h = do { h \<leftarrow> Pipe_Discard_Word h; Pipe_Discard_Word h }"

section \<open>\<open>Pipe.c\<close>\<close>

text \<open>\<open>Pipe_IsConfigured\<close> reads the status of the selected pipe.\<close>

type_synonym cfgok = "nat \<Rightarrow> pipe list \<Rightarrow> bool"

definition Pipe_IsConfigured :: "cfgok \<Rightarrow> host \<Rightarrow> bool" where
  "Pipe_IsConfigured ok h = ok (UPNUM h) (pipes h)"

definition Pipe_ConfigurePipe ::
    "cfgok \<Rightarrow> u8 \<Rightarrow> u8 \<Rightarrow> u8 \<Rightarrow> u8 \<Rightarrow> u16 \<Rightarrow> u8 \<Rightarrow> host \<Rightarrow> (bool \<times> host) option" where
  "Pipe_ConfigurePipe ok Number Type Token EndpointNumber Size Banks h =
     (if length (pipes h) \<le> unat Number then None
      else (let h = h\<lparr>UPNUM := unat Number\<rparr>;
                h = Pipe_EnablePipe h;
                h = on_pipe (\<lambda>p. p\<lparr>UPCFG1X := 0\<rparr>) h;
                h = on_pipe (\<lambda>p. p\<lparr>UPCFG0X := push_bit 6 Type OR Token OR (EndpointNumber AND PIPE_EPNUM_MASK)\<rparr>) h;
                h = on_pipe (\<lambda>p. p\<lparr>UPCFG1X := 2 OR Banks OR Pipe_BytesToEPSizeMask Size\<rparr>) h;
                h = Pipe_SetInfiniteINRequests h
            in Some (Pipe_IsConfigured ok h, h)))"

text \<open>
  The loop over the pipes. The token of a SETUP pipe is zero and stays zero, which is then taken for a
  mismatch of the direction. The pipe that is found stays selected.
\<close>

definition pipe_matches :: "cfgok \<Rightarrow> u8 \<Rightarrow> host \<Rightarrow> bool" where
  "pipe_matches ok EndpointAddress h =
     (let token = Pipe_GetPipeToken h;
          token = (if token \<noteq> PIPE_TOKEN_SETUP
                   then of_bool (token = (if EndpointAddress AND PIPE_EPDIR_MASK \<noteq> 0 then PIPE_TOKEN_IN else PIPE_TOKEN_OUT))
                   else token)
      in Pipe_IsConfigured ok h \<and> Pipe_BoundEndpointNumber h = EndpointAddress AND PIPE_EPNUM_MASK \<and> token \<noteq> 0)"

fun bound_loop :: "cfgok \<Rightarrow> u8 \<Rightarrow> nat list \<Rightarrow> host \<Rightarrow> bool \<times> host" where
  "bound_loop ok a [] h = (False, h)"
| "bound_loop ok a (n # ns) h =
     (let h = h\<lparr>UPNUM := n\<rparr> in if pipe_matches ok a h then (True, h) else bound_loop ok a ns h)"

definition Pipe_IsEndpointBound :: "cfgok \<Rightarrow> u8 \<Rightarrow> host \<Rightarrow> bool \<times> host" where
  "Pipe_IsEndpointBound ok a h =
     (case bound_loop ok a [0..<PIPE_TOTAL_PIPES] h of
        (True, h') \<Rightarrow> (True, h')
      | (False, h') \<Rightarrow> (False, h'\<lparr>UPNUM := UPNUM h\<rparr>))"

text \<open>The loop of \<open>Pipe_ClearPipes\<close>.\<close>

fun clear_pipes :: "nat list \<Rightarrow> host \<Rightarrow> host option" where
  "clear_pipes [] h = Some h"
| "clear_pipes (n # ns) h = do {
     let h = Pipe_ResetPipe (of_nat n) h;
     let h = Pipe_SelectPipe (of_nat n) h;
     let h = hwr UPINTX 0 (hwr UPIENX 0 h);
     h \<leftarrow> Pipe_ClearError h;
     let h = Pipe_ClearErrorFlags h;
     clear_pipes ns (Pipe_DisablePipe (Pipe_DeallocateMemory h)) }"

definition Pipe_ClearPipes :: "host \<Rightarrow> host option" where
  "Pipe_ClearPipes h = clear_pipes [0..<PIPE_TOTAL_PIPES] (hwr UPINT 0 h)"

section \<open>Streams\<close>

text \<open>Every look at the hardware takes one read from the script, so every waiting loop ends with it.\<close>

lemma hrd_less: "hrd r h = Some (x, t) \<Longrightarrow> length (hreads t) < length (hreads h)"
  by (auto simp: hrd_def split: list.splits if_splits)

lemma hwr_hreads [simp]: "hreads (hwr r x h) = hreads h"
  by (simp add: hwr_def)

lemma on_pipe_hreads [simp]: "hreads (on_pipe f h) = hreads h"
  by (simp add: on_pipe_def)

named_theorems pipe_defs \<open>the macros of Pipe.h that look at the hardware\<close>

declare Pipe_BytesInPipe_def [pipe_defs] Pipe_ClearError_def [pipe_defs] Pipe_IsError_def [pipe_defs]
  Pipe_IsReadWriteAllowed_def [pipe_defs] Pipe_IsINReceived_def [pipe_defs] Pipe_IsOUTReady_def [pipe_defs]
  Pipe_IsSETUPSent_def [pipe_defs] Pipe_IsStalled_def [pipe_defs] Pipe_ClearStall_def [pipe_defs]
  Pipe_ClearIN_def [pipe_defs] Pipe_ClearOUT_def [pipe_defs] Pipe_ClearSETUP_def [pipe_defs]
  Pipe_Read_Byte_def [pipe_defs] Pipe_Discard_Byte_def [pipe_defs] acknowledge_def [pipe_defs]
  hflag_def [pipe_defs] hclear_def [pipe_defs] hset_def [pipe_defs] look_state_def [pipe_defs]

abbreviation (input) "PIPE_READYWAIT_NoError \<equiv> 0 :: u8"
abbreviation (input) "PIPE_READYWAIT_PipeStalled \<equiv> 1 :: u8"
abbreviation (input) "PIPE_READYWAIT_DeviceDisconnected \<equiv> 2 :: u8"
abbreviation (input) "PIPE_READYWAIT_Timeout \<equiv> 3 :: u8"
abbreviation (input) "PIPE_RWSTREAM_NoError \<equiv> 0 :: u8"

text \<open>\<open>Pipe_WaitUntilReady\<close> with the number of frames left.\<close>

function pipe_wait_loop :: "u8 \<Rightarrow> host \<Rightarrow> (u8 \<times> host) option" where
  "pipe_wait_loop TimeoutMSRem h = do {
     (ready, h) \<leftarrow> (if Pipe_GetPipeToken h = PIPE_TOKEN_IN then Pipe_IsINReceived h else Pipe_IsOUTReady h);
     if ready then Some (PIPE_READYWAIT_NoError, h)
     else do {
       (stalled, h) \<leftarrow> Pipe_IsStalled h;
       if stalled then Some (PIPE_READYWAIT_PipeStalled, h)
       else do {
         (st, h) \<leftarrow> look_state h;
         if st = HOST_STATE_Unattached then Some (PIPE_READYWAIT_DeviceDisconnected, h)
         else do {
           (frame, h) \<leftarrow> hflag UHINT HSOFI h;
           if frame then do {
             h \<leftarrow> hclear UHINT HSOFI h;
             if TimeoutMSRem = 0 then Some (PIPE_READYWAIT_Timeout, h) else pipe_wait_loop (TimeoutMSRem - 1) h }
           else pipe_wait_loop TimeoutMSRem h } } } }"
  by pat_completeness auto
termination
  by (relation "measure (\<lambda>(n, h). length (hreads h))")
    (auto simp: pipe_defs Let_def dest!: hrd_less split: bind_splits if_splits)

declare pipe_wait_loop.simps [simp del]

definition Pipe_WaitUntilReady :: "host \<Rightarrow> (u8 \<times> host) option" where
  "Pipe_WaitUntilReady = pipe_wait_loop 100"

lemma pipe_wait_less: "pipe_wait_loop n h = Some (e, t) \<Longrightarrow> length (hreads t) < length (hreads h)"
proof (induction "length (hreads h)" arbitrary: n h rule: less_induct)
  case less
  have IH: "length (hreads u) < length (hreads h) \<longrightarrow> length (hreads t) < length (hreads h)"
    if "pipe_wait_loop m u = Some (e, t)" for m u
    using less.hyps [OF _ that] by auto
  from less.prems show ?case
    by (subst (asm) pipe_wait_loop.simps)
      (auto simp: pipe_defs Let_def dest!: hrd_less IH split: bind_splits if_splits)
qed

lemma Pipe_WaitUntilReady_less: "Pipe_WaitUntilReady h = Some (e, t) \<Longrightarrow> length (hreads t) < length (hreads h)"
  by (simp add: Pipe_WaitUntilReady_def pipe_wait_less)

function discard_pipe_loop :: "u16 \<Rightarrow> host \<Rightarrow> (u8 \<times> host) option" where
  "discard_pipe_loop Length h =
     (if Length = 0 then Some (PIPE_RWSTREAM_NoError, h)
      else do {
        (allowed, h) \<leftarrow> Pipe_IsReadWriteAllowed h;
        if \<not> allowed then do {
          h \<leftarrow> Pipe_ClearIN h;
          (ErrorCode, h) \<leftarrow> Pipe_WaitUntilReady h;
          if ErrorCode \<noteq> 0 then Some (ErrorCode, h) else discard_pipe_loop Length h }
        else do {
          h \<leftarrow> Pipe_Discard_Byte h;
          discard_pipe_loop (Length - 1) h } })"
  by pat_completeness auto
termination
  by (relation "measure (\<lambda>(n, h). length (hreads h))")
    (auto simp: pipe_defs dest!: hrd_less Pipe_WaitUntilReady_less split: bind_splits)

declare discard_pipe_loop.simps [simp del]

definition Pipe_Discard_Stream :: "u16 \<Rightarrow> host \<Rightarrow> (u8 \<times> host) option" where
  "Pipe_Discard_Stream Length h = do {
     let h = Pipe_SetPipeToken PIPE_TOKEN_IN h;
     (ErrorCode, h) \<leftarrow> Pipe_WaitUntilReady h;
     if ErrorCode \<noteq> 0 then Some (ErrorCode, h) else discard_pipe_loop Length h }"

text \<open>The template for writing, over the bytes in the order they are transferred.\<close>

function pipe_write_loop :: "u8 list \<Rightarrow> u16 \<Rightarrow> host \<Rightarrow> (u8 \<times> host) option" where
  "pipe_write_loop DataStream Length h =
     (if Length = 0 then Some (PIPE_RWSTREAM_NoError, h)
      else do {
        (allowed, h) \<leftarrow> Pipe_IsReadWriteAllowed h;
        if \<not> allowed then do {
          h \<leftarrow> Pipe_ClearOUT h;
          (ErrorCode, h) \<leftarrow> Pipe_WaitUntilReady h;
          if ErrorCode \<noteq> 0 then Some (ErrorCode, h) else pipe_write_loop DataStream Length h }
        else (case DataStream of
            [] \<Rightarrow> None
          | b # bs \<Rightarrow> pipe_write_loop bs (Length - 1) (Pipe_Write_Byte b h)) })"
  by pat_completeness auto
termination
  by (relation "measure (\<lambda>(d, n, h). length (hreads h))")
    (auto simp: pipe_defs Pipe_Write_Byte_def dest!: hrd_less Pipe_WaitUntilReady_less split: bind_splits)

declare pipe_write_loop.simps [simp del]

definition pipe_stream_write :: "u8 list \<Rightarrow> u16 \<Rightarrow> host \<Rightarrow> (u8 \<times> host) option" where
  "pipe_stream_write DataStream Length h = do {
     let h = Pipe_SetPipeToken PIPE_TOKEN_OUT h;
     (ErrorCode, h) \<leftarrow> Pipe_WaitUntilReady h;
     if ErrorCode \<noteq> 0 then Some (ErrorCode, h) else pipe_write_loop DataStream Length h }"

text \<open>The template for reading; the bytes read come with the result.\<close>

function pipe_read_loop :: "u16 \<Rightarrow> u8 list \<Rightarrow> host \<Rightarrow> (u8 \<times> u8 list \<times> host) option" where
  "pipe_read_loop Length got h =
     (if Length = 0 then Some (PIPE_RWSTREAM_NoError, got, h)
      else do {
        (allowed, h) \<leftarrow> Pipe_IsReadWriteAllowed h;
        if \<not> allowed then do {
          h \<leftarrow> Pipe_ClearIN h;
          (ErrorCode, h) \<leftarrow> Pipe_WaitUntilReady h;
          if ErrorCode \<noteq> 0 then Some (ErrorCode, got, h) else pipe_read_loop Length got h }
        else do {
          (b, h) \<leftarrow> Pipe_Read_Byte h;
          pipe_read_loop (Length - 1) (got @ [b]) h } })"
  by pat_completeness auto
termination
  by (relation "measure (\<lambda>(n, g, h). length (hreads h))")
    (auto simp: pipe_defs dest!: hrd_less Pipe_WaitUntilReady_less split: bind_splits)

declare pipe_read_loop.simps [simp del]

definition pipe_stream_read :: "u16 \<Rightarrow> host \<Rightarrow> (u8 \<times> u8 list \<times> host) option" where
  "pipe_stream_read Length h = do {
     let h = Pipe_SetPipeToken PIPE_TOKEN_IN h;
     (ErrorCode, h) \<leftarrow> Pipe_WaitUntilReady h;
     if ErrorCode \<noteq> 0 then Some (ErrorCode, [], h) else pipe_read_loop Length [] h }"

definition reversed :: "u8 list \<Rightarrow> u16 \<Rightarrow> u8 list" where
  "reversed Buffer Length = rev (take (unat Length) Buffer)"

definition Pipe_Write_Stream_LE :: "u8 list \<Rightarrow> u16 \<Rightarrow> host \<Rightarrow> (u8 \<times> host) option" where
  "Pipe_Write_Stream_LE = pipe_stream_write"
definition Pipe_Write_PStream_LE :: "u8 list \<Rightarrow> u16 \<Rightarrow> host \<Rightarrow> (u8 \<times> host) option" where
  "Pipe_Write_PStream_LE = pipe_stream_write"
definition Pipe_Write_EStream_LE :: "u8 list \<Rightarrow> u16 \<Rightarrow> host \<Rightarrow> (u8 \<times> host) option" where
  "Pipe_Write_EStream_LE = pipe_stream_write"
definition Pipe_Write_Stream_BE :: "u8 list \<Rightarrow> u16 \<Rightarrow> host \<Rightarrow> (u8 \<times> host) option" where
  "Pipe_Write_Stream_BE Buffer Length = pipe_stream_write (reversed Buffer Length) Length"
definition Pipe_Write_PStream_BE :: "u8 list \<Rightarrow> u16 \<Rightarrow> host \<Rightarrow> (u8 \<times> host) option" where
  "Pipe_Write_PStream_BE Buffer Length = pipe_stream_write (reversed Buffer Length) Length"
definition Pipe_Write_EStream_BE :: "u8 list \<Rightarrow> u16 \<Rightarrow> host \<Rightarrow> (u8 \<times> host) option" where
  "Pipe_Write_EStream_BE Buffer Length = pipe_stream_write (reversed Buffer Length) Length"

definition reversing :: "(u8 \<times> u8 list \<times> host) option \<Rightarrow> (u8 \<times> u8 list \<times> host) option" where
  "reversing = map_option (\<lambda>(e, bs, h). (e, rev bs, h))"

definition Pipe_Read_Stream_LE :: "u16 \<Rightarrow> host \<Rightarrow> (u8 \<times> u8 list \<times> host) option" where
  "Pipe_Read_Stream_LE = pipe_stream_read"
definition Pipe_Read_EStream_LE :: "u16 \<Rightarrow> host \<Rightarrow> (u8 \<times> u8 list \<times> host) option" where
  "Pipe_Read_EStream_LE = pipe_stream_read"
definition Pipe_Read_Stream_BE :: "u16 \<Rightarrow> host \<Rightarrow> (u8 \<times> u8 list \<times> host) option" where
  "Pipe_Read_Stream_BE Length h = reversing (pipe_stream_read Length h)"
definition Pipe_Read_EStream_BE :: "u16 \<Rightarrow> host \<Rightarrow> (u8 \<times> u8 list \<times> host) option" where
  "Pipe_Read_EStream_BE Length h = reversing (pipe_stream_read Length h)"

end
