(* ===== verification/ConfigSearch.thy ===== *)
theory ConfigSearch
  imports Prelude
begin

text \<open>
  The host's search through a configuration descriptor: \<open>ConfigDescriptor.c\<close> and \<open>ConfigDescriptor.h\<close> of LUFA
  (\<open>USB_Host_GetDeviceConfigDescriptor\<close> excepted, which sends requests). The buffer is the readable memory from
  the beginning of the descriptor on; a location is an index into it. \<open>None\<close> is a read outside of the buffer or a
  search that does not end.
\<close>

section \<open>Operations\<close>

definition byte_at :: "u8 list \<Rightarrow> nat \<Rightarrow> u8 option" where
  "byte_at mem a = (if a < length mem then Some (mem ! a) else None)"

definition DESCRIPTOR_SIZE :: "u8 list \<Rightarrow> nat \<Rightarrow> u8 option" where
  "DESCRIPTOR_SIZE mem loc = byte_at mem loc"

definition DESCRIPTOR_TYPE :: "u8 list \<Rightarrow> nat \<Rightarrow> u8 option" where
  "DESCRIPTOR_TYPE mem loc = byte_at mem (loc + 1)"

definition USB_GetNextDescriptor :: "u8 list \<Rightarrow> u16 \<Rightarrow> nat \<Rightarrow> (u16 \<times> nat) option" where
  "USB_GetNextDescriptor mem rem loc = do {
     n \<leftarrow> DESCRIPTOR_SIZE mem loc;
     Some (rem - ucast n, loc + unat n) }"

partial_function (option) USB_GetNextDescriptorOfType ::
    "u8 list \<Rightarrow> u8 \<Rightarrow> u16 \<Rightarrow> nat \<Rightarrow> (u16 \<times> nat) option" where
  "USB_GetNextDescriptorOfType mem ty rem loc =
     (if rem = 0 then Some (rem, loc)
      else do {
        (rem, loc) \<leftarrow> USB_GetNextDescriptor mem rem loc;
        t \<leftarrow> DESCRIPTOR_TYPE mem loc;
        if t = ty then Some (rem, loc) else USB_GetNextDescriptorOfType mem ty rem loc })"

partial_function (option) USB_GetNextDescriptorOfTypeBefore ::
    "u8 list \<Rightarrow> u8 \<Rightarrow> u8 \<Rightarrow> u16 \<Rightarrow> nat \<Rightarrow> (u16 \<times> nat) option" where
  "USB_GetNextDescriptorOfTypeBefore mem ty before rem loc =
     (if rem = 0 then Some (rem, loc)
      else do {
        (rem, loc) \<leftarrow> USB_GetNextDescriptor mem rem loc;
        t \<leftarrow> DESCRIPTOR_TYPE mem loc;
        if t = ty then Some (rem, loc)
        else if t = before then Some (0, loc)
        else USB_GetNextDescriptorOfTypeBefore mem ty before rem loc })"

definition USB_GetNextDescriptorOfTypeAfter ::
    "u8 list \<Rightarrow> u8 \<Rightarrow> u8 \<Rightarrow> u16 \<Rightarrow> nat \<Rightarrow> (u16 \<times> nat) option" where
  "USB_GetNextDescriptorOfTypeAfter mem ty after rem loc = do {
     (rem, loc) \<leftarrow> USB_GetNextDescriptorOfType mem after rem loc;
     if rem \<noteq> 0 then USB_GetNextDescriptorOfType mem ty rem loc else Some (rem, loc) }"

text \<open>The comparator of the application gets the location and may use the state of the host.\<close>

abbreviation (input) "DESCRIPTOR_SEARCH_Found \<equiv> 0 :: u8"
abbreviation (input) "DESCRIPTOR_SEARCH_Fail \<equiv> 1 :: u8"
abbreviation (input) "DESCRIPTOR_SEARCH_NotFound \<equiv> 2 :: u8"
abbreviation (input) "DESCRIPTOR_SEARCH_COMP_Found \<equiv> 0 :: u8"
abbreviation (input) "DESCRIPTOR_SEARCH_COMP_EndOfDescriptor \<equiv> 2 :: u8"

partial_function (option) USB_GetNextDescriptorComp ::
    "u8 list \<Rightarrow> (nat \<Rightarrow> 'h \<Rightarrow> (u8 \<times> 'h) option) \<Rightarrow> u16 \<Rightarrow> nat \<Rightarrow> 'h \<Rightarrow> (u8 \<times> u16 \<times> nat \<times> 'h) option" where
  "USB_GetNextDescriptorComp mem cmp rem loc h =
     (if rem = 0 then Some (DESCRIPTOR_SEARCH_COMP_EndOfDescriptor, rem, loc, h)
      else do {
        (rem', loc') \<leftarrow> USB_GetNextDescriptor mem rem loc;
        (e, h) \<leftarrow> cmp loc' h;
        if e \<noteq> DESCRIPTOR_SEARCH_NotFound then
          (if e = DESCRIPTOR_SEARCH_Fail then Some (e, rem, loc, h) else Some (e, rem', loc', h))
        else USB_GetNextDescriptorComp mem cmp rem' loc' h })"

declare USB_GetNextDescriptorOfType.simps [code] USB_GetNextDescriptorOfTypeBefore.simps [code]
  USB_GetNextDescriptorComp.simps [code]

section \<open>Chains of descriptors\<close>

text \<open>A well-formed configuration: every descriptor has its length in its first byte, and a type.\<close>

definition descriptors :: "u8 list list \<Rightarrow> bool" where
  "descriptors ds \<longleftrightarrow> (\<forall>d \<in> set ds. 2 \<le> length d \<and> unat (hd d) = length d)"

lemma descriptors_Cons [simp]: "descriptors (d # ds) \<longleftrightarrow> 2 \<le> length d \<and> unat (hd d) = length d \<and> descriptors ds"
  by (auto simp: descriptors_def)

definition type_of :: "u8 list \<Rightarrow> u8" where
  "type_of d = d ! 1"

lemma next_descriptor:
  assumes "2 \<le> length d" "unat (hd d) = length d"
  shows "USB_GetNextDescriptor (pre @ d @ post) rem (length pre) = Some (rem - of_nat (length d), length pre + length d)"
proof -
  have "d \<noteq> []"
    using assms(1) by auto
  then have "d ! 0 = hd d" "0 < length d"
    by (simp_all add: hd_conv_nth)
  moreover have "(ucast (hd d) :: u16) = of_nat (length d)"
    unfolding assms(2) [symmetric] by simp
  ultimately show ?thesis
    using assms(2) by (simp add: USB_GetNextDescriptor_def DESCRIPTOR_SIZE_def byte_at_def nth_append)
qed

lemma of_nat_u16: "n < 2 ^ 16 \<Longrightarrow> (of_nat n :: u16) = 0 \<longleftrightarrow> n = 0"
  using unat_0_iff [of "of_nat n :: u16"] by (simp add: unsigned_of_nat take_bit_nat_eq_self)

text \<open>
  The first descriptor of the type behind the current one is found; without one the search stops behind the
  last descriptor. It reads two bytes there.
\<close>

lemma search_chain:
  assumes "descriptors (d # ds)" "length (concat (d # ds)) < 2 ^ 16" "2 \<le> length post"
    and r: "r = dropWhile (\<lambda>d. type_of d \<noteq> ty) ds"
  shows "USB_GetNextDescriptorOfType (pre @ concat (d # ds) @ post) ty (of_nat (length (concat (d # ds)))) (length pre) =
    Some (of_nat (length (concat r)), length pre + (length (concat (d # ds)) - length (concat r)))"
  using assms(1,2) unfolding r
proof (induction ds arbitrary: d pre)
  case Nil
  have "(of_nat (length d) :: u16) \<noteq> 0"
    using Nil of_nat_u16 [of "length d"] by auto
  moreover have "DESCRIPTOR_TYPE (pre @ d @ post) (length pre + length d) = Some (post ! 1)"
    using assms(3) by (simp add: DESCRIPTOR_TYPE_def byte_at_def nth_append)
  ultimately show ?case
    using Nil next_descriptor [of d pre post]
    by (simp add: USB_GetNextDescriptorOfType.simps [of _ _ "of_nat (length d)"] USB_GetNextDescriptorOfType.simps [of _ _ 0])
next
  case (Cons e ds)
  let ?rest = "concat (e # ds)" and ?mem = "pre @ concat (d # e # ds) @ post"
  have mem: "?mem = (pre @ d) @ concat (e # ds) @ post"
    by simp
  have rem: "(of_nat (length (concat (d # e # ds))) :: u16) \<noteq> 0"
    using Cons.prems of_nat_u16 [of "length (concat (d # e # ds))"] by auto
  have step: "USB_GetNextDescriptor ?mem (of_nat (length (concat (d # e # ds)))) (length pre) =
      Some (of_nat (length ?rest), length pre + length d)"
    using next_descriptor [of d pre "concat (e # ds) @ post"] Cons.prems(1) by simp
  have type: "DESCRIPTOR_TYPE ?mem (length pre + length d) = Some (type_of e)"
    using Cons.prems(1) by (simp add: DESCRIPTOR_TYPE_def byte_at_def nth_append type_of_def)
  show ?case
  proof (cases "type_of e = ty")
    case True
    then show ?thesis
      using rem step type by (subst USB_GetNextDescriptorOfType.simps) simp
  next
    case False
    have "USB_GetNextDescriptorOfType ?mem ty (of_nat (length ?rest)) (length (pre @ d)) =
        Some (of_nat (length (concat (dropWhile (\<lambda>d. type_of d \<noteq> ty) ds))),
          length (pre @ d) + (length ?rest - length (concat (dropWhile (\<lambda>d. type_of d \<noteq> ty) ds))))"
      unfolding mem using Cons.prems by (intro Cons.IH) simp_all
    moreover have "length (concat (dropWhile (\<lambda>d. type_of d \<noteq> ty) ds)) \<le> length (concat ds)"
      by (induction ds) auto
    ultimately show ?thesis
      using False rem step type by (subst USB_GetNextDescriptorOfType.simps) simp
  qed
qed

section \<open>Descriptors without a length\<close>

text \<open>The loops stay where they are.\<close>

lemma search_stays:
  assumes "USB_GetNextDescriptor mem rem loc = Some (rem, loc)" "DESCRIPTOR_TYPE mem loc = Some t" "t \<noteq> ty" "rem \<noteq> 0"
  shows "USB_GetNextDescriptorOfType mem ty rem loc = None"
proof -
  have never: "(mem', ty', rem', loc') \<noteq> (mem, ty, rem, loc)" if "USB_GetNextDescriptorOfType mem' ty' rem' loc' = Some r"
    for mem' ty' rem' loc' r
    using that
  proof (rule USB_GetNextDescriptorOfType.raw_induct [where P = "\<lambda>mem' ty' rem' loc' r. (mem', ty', rem', loc') \<noteq> (mem, ty, rem, loc)", rotated])
    fix f m y b l r
    assume f: "\<And>m y b l r. f m y b l = Some r \<Longrightarrow> (m, y, b, l) \<noteq> (mem, ty, rem, loc)"
      and r: "(if b = 0 then Some (b, l)
        else do {
          (b, l) \<leftarrow> USB_GetNextDescriptor m b l;
          t \<leftarrow> DESCRIPTOR_TYPE m l;
          if t = y then Some (b, l) else f m y b l }) = Some r"
    show "(m, y, b, l) \<noteq> (mem, ty, rem, loc)"
    proof
      assume "(m, y, b, l) = (mem, ty, rem, loc)"
      then have "f mem ty rem loc = Some r"
        using r assms by simp
      from f [OF this] show False
        by simp
    qed
  qed
  have "USB_GetNextDescriptorOfType mem ty rem loc \<noteq> Some r" for r
    using never [of mem ty rem loc r] by blast
  then show ?thesis
    by (cases "USB_GetNextDescriptorOfType mem ty rem loc") blast+
qed

lemma comparator_stays:
  assumes "USB_GetNextDescriptor mem rem loc = Some (rem, loc)" "rem \<noteq> 0"
    and "\<And>h. \<exists>h'. cmp loc h = Some (DESCRIPTOR_SEARCH_NotFound, h')"
  shows "USB_GetNextDescriptorComp mem cmp rem loc h = None"
proof -
  have never: "(mem', cmp', rem', loc') \<noteq> (mem, cmp, rem, loc)" if "USB_GetNextDescriptorComp mem' cmp' rem' loc' h' = Some r"
    for mem' cmp' rem' loc' h' r
    using that
  proof (rule USB_GetNextDescriptorComp.raw_induct [where P = "\<lambda>mem' cmp' rem' loc' h' r. (mem', cmp', rem', loc') \<noteq> (mem, cmp, rem, loc)", rotated])
    fix f m c b l h r
    assume f: "\<And>m c b l h r. f m c b l h = Some r \<Longrightarrow> (m, c, b, l) \<noteq> (mem, cmp, rem, loc)"
      and r: "(if b = 0 then Some (DESCRIPTOR_SEARCH_COMP_EndOfDescriptor, b, l, h)
        else do {
          (b', l') \<leftarrow> USB_GetNextDescriptor m b l;
          (e, h) \<leftarrow> c l' h;
          if e \<noteq> DESCRIPTOR_SEARCH_NotFound then
            (if e = DESCRIPTOR_SEARCH_Fail then Some (e, b, l, h) else Some (e, b', l', h))
          else f m c b' l' h }) = Some r"
    show "(m, c, b, l) \<noteq> (mem, cmp, rem, loc)"
    proof
      assume eq: "(m, c, b, l) = (mem, cmp, rem, loc)"
      obtain h' where "cmp loc h = Some (DESCRIPTOR_SEARCH_NotFound, h')"
        using assms(3) by blast
      then have "f mem cmp rem loc h' = Some r"
        using r eq assms(1,2) by simp
      from f [OF this] show False
        by simp
    qed
  qed
  have "USB_GetNextDescriptorComp mem cmp rem loc h \<noteq> Some r" for r
    using never [of mem cmp rem loc h r] by blast
  then show ?thesis
    by (cases "USB_GetNextDescriptorComp mem cmp rem loc h") blast+
qed

section \<open>Results\<close>

text \<open>A configuration with an interface and an endpoint.\<close>

definition sample_chain :: "u8 list list" where
  "sample_chain = [[9, 2, 25, 0, 1, 1, 0, 0xC0, 50], [9, 4, 0, 0, 1, 3, 1, 1, 0], [7, 5, 0x81, 3, 64, 0, 1]]"

text \<open>In a well-formed chain of descriptors of less than 65536 bytes \<open>USB_GetNextDescriptorOfType\<close> returns the
  first descriptor of the type behind the current one, with the number of bytes from there to the end; when there
  is none it stops at the end with no bytes left. Two bytes behind the chain have to be readable.\<close>

theorem type_search:
  assumes "descriptors (d # ds)" and "length (concat (d # ds)) < 2 ^ 16" and "2 \<le> length post"
  shows "let r = concat (dropWhile (\<lambda>d. type_of d \<noteq> ty) ds) in
    USB_GetNextDescriptorOfType (pre @ concat (d # ds) @ post) ty (of_nat (length (concat (d # ds)))) (length pre) =
      Some (of_nat (length r), length pre + (length (concat (d # ds)) - length r))"
  using search_chain [OF assms refl] by (simp only: Let_def)

theorem type_search_witness:
  "USB_GetNextDescriptorOfType (concat sample_chain @ [0, 0]) 5 25 0 = Some (7, 18)"
  using type_search [of "[9, 2, 25, 0, 1, 1, 0, 0xC0, 50]" "tl sample_chain" "[0, 0]" 5 "[]"]
  by (simp add: sample_chain_def type_of_def descriptors_def One_nat_def [symmetric] del: One_nat_def)

text \<open>A descriptor whose length is zero, and is not of the type looked for, is never left: the search by type
  and the search with a comparator that does not find it do not end.\<close>

lemma zero_length_never_ends:
  assumes "byte_at mem loc = Some 0" and "DESCRIPTOR_TYPE mem loc = Some t" and "rem \<noteq> 0"
  shows "(t \<noteq> ty \<longrightarrow> USB_GetNextDescriptorOfType mem ty rem loc = None) \<and>
    ((\<forall>h. \<exists>h'. cmp loc h = Some (DESCRIPTOR_SEARCH_NotFound, h')) \<longrightarrow> USB_GetNextDescriptorComp mem cmp rem loc h = None)"
proof -
  have "USB_GetNextDescriptor mem rem loc = Some (rem, loc)"
    using assms(1) by (simp add: USB_GetNextDescriptor_def DESCRIPTOR_SIZE_def)
  note stays = search_stays [OF this assms(2)] comparator_stays [OF this assms(3), of cmp h]
  show ?thesis
    using stays(1) [OF _ assms(3)] stays(2) by blast
qed

lemma zero_length_example:
  "USB_GetNextDescriptorOfType [9, 2, 25, 0, 1, 1, 0, 0xC0, 50, 0, 4, 0] 5 16 9 = None"
  using zero_length_never_ends [where mem = "[9, 2, 25, 0, 1, 1, 0, 0xC0, 50, 0, 4, 0]" and loc = 9 and t = 4
      and rem = 16 and ty = 5 and cmp = "\<lambda>_ h. Some (2, h)" and h = "()"]
  by (simp add: byte_at_def DESCRIPTOR_TYPE_def)

text \<open>Behind the last descriptor of the configuration \<open>USB_GetNextDescriptorComp\<close> asks the comparator once
  more, about what is in memory behind the configuration. When the comparator accepts that, the search reports
  success there, although no byte is left.\<close>

theorem search_finds_behind_end:
  assumes "2 \<le> length d" and "unat (hd d) = length d"
    and "cmp (length (pre @ d)) h = Some (DESCRIPTOR_SEARCH_Found, h')"
  shows "USB_GetNextDescriptorComp (pre @ d @ post) cmp (of_nat (length d)) (length pre) h =
    Some (DESCRIPTOR_SEARCH_COMP_Found, 0, length (pre @ d), h')"
proof -
  have "length d < 2 ^ 16"
    using unsigned_less [of "hd d", where ?'a = nat] assms(2) by simp
  then have "(of_nat (length d) :: u16) \<noteq> 0"
    using of_nat_u16 [of "length d"] assms(1) by auto
  then show ?thesis
    using next_descriptor [OF assms(1,2), of pre post] assms(3) by (subst USB_GetNextDescriptorComp.simps) simp
qed

theorem search_finds_behind_end_witness:
  "USB_GetNextDescriptorComp [7, 5, 0x81, 3, 64, 0, 1, 7, 5]
    (\<lambda>loc h. map_option (\<lambda>t. (if t = 5 then 0 else 2, h)) (DESCRIPTOR_TYPE [7, 5, 0x81, 3, 64, 0, 1, 7, 5] loc)) 7 0 () =
    Some (0, 0, 7, ())"
  using search_finds_behind_end [where d = "[7, 5, 0x81, 3, 64, 0, 1]" and pre = "[]" and post = "[7, 5]" and h = "()" and h' = "()"
      and cmp = "\<lambda>loc h. map_option (\<lambda>t. (if t = 5 then 0 else 2, h)) (DESCRIPTOR_TYPE [7, 5, 0x81, 3, 64, 0, 1, 7, 5] loc)"]
  by (simp add: DESCRIPTOR_TYPE_def byte_at_def)

end
