(* ===== verification/HostControl.thy ===== *)
theory HostControl
  imports HostPipe ConfigSearch
begin

text \<open>
  Control requests of LUFA's host side: \<open>HostChapter9.c\<close>, the waits and the standard requests of \<open>Host.c\<close>, and
  \<open>USB_Host_GetDeviceConfigDescriptor\<close> of \<open>ConfigDescriptor.c\<close>.

  A buffer is given with the bytes it holds and comes back with what it holds then; \<open>None\<close> in its place is the
  null pointer. The jumps to \<open>End_Of_Control_Send\<close> are the early results of \<open>control_stages\<close>. For a part that
  is host only, \<open>USB_CurrentMode\<close> is constant.
\<close>

section \<open>The bus\<close>

definition USB_Host_IsBusSuspended :: "host \<Rightarrow> bool" where
  "USB_Host_IsBusSuspended h = (\<not> SOFEN h)"

definition USB_Host_ResumeBus :: "host \<Rightarrow> host" where
  "USB_Host_ResumeBus h = h\<lparr>SOFEN := True\<rparr>"

definition USB_Host_SuspendBus :: "host \<Rightarrow> host" where
  "USB_Host_SuspendBus h = h\<lparr>SOFEN := False\<rparr>"

lemma bus_hreads [simp]:
  "hreads (USB_Host_ResumeBus h) = hreads h" "hreads (USB_Host_SuspendBus h) = hreads h"
  by (simp_all add: USB_Host_ResumeBus_def USB_Host_SuspendBus_def)

section \<open>Waits\<close>

abbreviation (input) "HOST_WAITERROR_Successful \<equiv> 0 :: u8"
abbreviation (input) "HOST_WAITERROR_DeviceDisconnect \<equiv> 1 :: u8"
abbreviation (input) "HOST_WAITERROR_PipeError \<equiv> 2 :: u8"
abbreviation (input) "HOST_WAITERROR_SetupStalled \<equiv> 3 :: u8"
abbreviation (input) "HOST_SENDCONTROL_Successful \<equiv> 0 :: u8"
abbreviation (input) "HOST_SENDCONTROL_SoftwareTimeOut \<equiv> 4 :: u8"
abbreviation (input) "USB_HOST_TIMEOUT_MS \<equiv> 1000 :: u16"

function wait_ms_loop :: "u8 \<Rightarrow> host \<Rightarrow> (u8 \<times> host) option" where
  "wait_ms_loop MS h =
     (if MS = 0 then Some (HOST_WAITERROR_Successful, h)
      else do {
        (frame, h) \<leftarrow> hflag UHINT HSOFI h;
        (MS, h) \<leftarrow> (if frame then do { h \<leftarrow> hclear UHINT HSOFI h; Some (MS - 1, h) } else Some (MS, h));
        (st, h) \<leftarrow> look_state h;
        if st = HOST_STATE_Unattached then Some (HOST_WAITERROR_DeviceDisconnect, h)
        else do {
          (error, h) \<leftarrow> Pipe_IsError h;
          if error then do { h \<leftarrow> Pipe_ClearError h; Some (HOST_WAITERROR_PipeError, h) }
          else do {
            (stalled, h) \<leftarrow> Pipe_IsStalled h;
            if stalled then do { h \<leftarrow> Pipe_ClearStall h; Some (HOST_WAITERROR_SetupStalled, h) }
            else wait_ms_loop MS h } } })"
  by pat_completeness auto
termination
  by (relation "measure (\<lambda>(n, h). length (hreads h))")
    (auto simp: pipe_defs Let_def dest!: hrd_less split: bind_splits if_splits)

declare wait_ms_loop.simps [simp del]

definition USB_Host_WaitMS :: "u8 \<Rightarrow> host \<Rightarrow> (u8 \<times> host) option" where
  "USB_Host_WaitMS MS h = do {
     let BusSuspended = USB_Host_IsBusSuspended h;
     (ErrorCode, h) \<leftarrow> wait_ms_loop MS (USB_Host_ResumeBus h);
     Some (ErrorCode, if BusSuspended then USB_Host_SuspendBus h else h) }"

text \<open>\<open>USB_Host_WaitForIOS\<close>; what is waited for is a bit of \<open>UPINTX\<close>.\<close>

datatype USB_WaitForTypes = USB_HOST_WAITFOR_SetupSent | USB_HOST_WAITFOR_InReceived | USB_HOST_WAITFOR_OutReady

fun arrived :: "USB_WaitForTypes \<Rightarrow> host \<Rightarrow> (bool \<times> host) option" where
  "arrived USB_HOST_WAITFOR_SetupSent h = Pipe_IsSETUPSent h"
| "arrived USB_HOST_WAITFOR_InReceived h = Pipe_IsINReceived h"
| "arrived USB_HOST_WAITFOR_OutReady h = Pipe_IsOUTReady h"

lemma wait_ms_loop_le: "wait_ms_loop n h = Some (e, t) \<Longrightarrow> length (hreads t) \<le> length (hreads h)"
proof (induction "length (hreads h)" arbitrary: n h rule: less_induct)
  case less
  have IH: "length (hreads u) < length (hreads h) \<longrightarrow> length (hreads t) \<le> length (hreads h)"
    if "wait_ms_loop m u = Some (e, t)" for m u
    using less.hyps [OF _ that] by auto
  from less.prems show ?case
    by (subst (asm) wait_ms_loop.simps)
      (auto simp: pipe_defs Let_def dest!: hrd_less IH split: bind_splits if_splits)
qed

lemma WaitMS_le: "USB_Host_WaitMS n h = Some (e, t) \<Longrightarrow> length (hreads t) \<le> length (hreads h)"
  by (auto simp: USB_Host_WaitMS_def Let_def dest: wait_ms_loop_le split: bind_splits)

lemma arrived_less: "arrived w h = Some (b, t) \<Longrightarrow> length (hreads t) < length (hreads h)"
  by (cases w) (auto simp: pipe_defs dest: hrd_less split: bind_splits)

function wait_ios_loop :: "USB_WaitForTypes \<Rightarrow> u16 \<Rightarrow> host \<Rightarrow> (u8 \<times> host) option" where
  "wait_ios_loop w TimeoutCounter h = do {
     (ready, h) \<leftarrow> arrived w h;
     if ready then Some (HOST_SENDCONTROL_Successful, h)
     else do {
       (ErrorCode, h) \<leftarrow> USB_Host_WaitMS 1 h;
       if ErrorCode \<noteq> HOST_WAITERROR_Successful then Some (ErrorCode, h)
       else if TimeoutCounter = 0 then Some (HOST_SENDCONTROL_SoftwareTimeOut, h)
       else wait_ios_loop w (TimeoutCounter - 1) h } }"
  by pat_completeness auto
termination
  by (relation "measure (\<lambda>(w, n, h). length (hreads h))") (auto dest!: arrived_less WaitMS_le split: bind_splits)

declare wait_ios_loop.simps [simp del]

definition USB_Host_WaitForIOS :: "USB_WaitForTypes \<Rightarrow> host \<Rightarrow> (u8 \<times> host) option" where
  "USB_Host_WaitForIOS w = wait_ios_loop w USB_HOST_TIMEOUT_MS"

lemma wait_ios_loop_less: "wait_ios_loop w n h = Some (e, t) \<Longrightarrow> length (hreads t) < length (hreads h)"
proof (induction "length (hreads h)" arbitrary: n h rule: less_induct)
  case less
  have IH: "length (hreads u) < length (hreads h) \<longrightarrow> length (hreads t) < length (hreads h)"
    if "wait_ios_loop w m u = Some (e, t)" for m u
    using less.hyps [OF _ that] by auto
  from less.prems show ?case
    by (subst (asm) wait_ios_loop.simps)
      (auto dest!: arrived_less WaitMS_le IH split: bind_splits if_splits)
qed

lemma WaitForIOS_less: "USB_Host_WaitForIOS w h = Some (e, t) \<Longrightarrow> length (hreads t) < length (hreads h)"
  by (simp add: USB_Host_WaitForIOS_def wait_ios_loop_less)

section \<open>\<open>USB_Host_SendControlRequest\<close>\<close>

text \<open>The bytes of the structure \<open>USB_ControlRequest\<close> in memory.\<close>

definition header_bytes :: "USB_Request_Header_t \<Rightarrow> u8 list" where
  "header_bytes q = [bmRequestType q, bRequest q, ucast (wValue q), ucast (drop_bit 8 (wValue q)),
     ucast (wIndex q), ucast (drop_bit 8 (wIndex q)), ucast (wLength q), ucast (drop_bit 8 (wLength q))]"

fun write_bytes :: "u8 list \<Rightarrow> host \<Rightarrow> host" where
  "write_bytes [] h = h"
| "write_bytes (b # bs) h = write_bytes bs (Pipe_Write_Byte b h)"

text \<open>Taking the bytes of a packet: with the bytes still to be received, and those received so far.\<close>

function take_bytes :: "u16 \<Rightarrow> u8 list \<Rightarrow> host \<Rightarrow> (u16 \<times> u8 list \<times> host) option" where
  "take_bytes DataLen got h = do {
     (n, h) \<leftarrow> Pipe_BytesInPipe h;
     if n \<noteq> 0 \<and> DataLen \<noteq> 0 then do {
       (b, h) \<leftarrow> Pipe_Read_Byte h;
       take_bytes (DataLen - 1) (got @ [b]) h }
     else Some (DataLen, got, h) }"
  by pat_completeness auto
termination
  by (relation "measure (\<lambda>(n, g, h). length (hreads h))") (auto simp: pipe_defs dest!: hrd_less split: bind_splits)

declare take_bytes.simps [simp del]

lemma take_bytes_less: "take_bytes n g h = Some (m, g', t) \<Longrightarrow> length (hreads t) < length (hreads h)"
proof (induction "length (hreads h)" arbitrary: n g h rule: less_induct)
  case less
  have IH: "length (hreads u) < length (hreads h) \<longrightarrow> length (hreads t) < length (hreads h)"
    if "take_bytes n' g'' u = Some (m, g', t)" for n' g'' u
    using less.hyps [OF _ that] by auto
  from less.prems show ?case
    by (subst (asm) take_bytes.simps) (auto simp: pipe_defs dest!: hrd_less IH split: bind_splits if_splits)
qed

lemma pipe_ops_hreads [simp]:
  "hreads (Pipe_Unfreeze h) = hreads h" "hreads (Pipe_Freeze h) = hreads h" "hreads (Pipe_Write_Byte b h) = hreads h"
  "hreads (Pipe_SetPipeToken k h) = hreads h" "hreads (Pipe_ClearErrorFlags h) = hreads h"
  "hreads (Pipe_ResetPipe n h) = hreads h" "hreads (write_bytes bs h) = hreads h"
  by (simp_all add: Pipe_Unfreeze_def Pipe_Freeze_def Pipe_Write_Byte_def Pipe_SetPipeToken_def
    Pipe_ClearErrorFlags_def Pipe_ResetPipe_def)
    (induction bs arbitrary: h; simp add: Pipe_Write_Byte_def)

function in_stage :: "u16 \<Rightarrow> u8 list \<Rightarrow> host \<Rightarrow> (u8 \<times> u8 list \<times> host) option" where
  "in_stage DataLen got h =
     (if DataLen = 0 then Some (HOST_SENDCONTROL_Successful, got, h)
      else do {
        (ReturnStatus, h) \<leftarrow> USB_Host_WaitForIOS USB_HOST_WAITFOR_InReceived (Pipe_Unfreeze h);
        if ReturnStatus \<noteq> HOST_SENDCONTROL_Successful then Some (ReturnStatus, got, h)
        else do {
          (n, h) \<leftarrow> Pipe_BytesInPipe h;
          let DataLen = (if n = 0 then 0 else DataLen);
          (DataLen, got, h) \<leftarrow> take_bytes DataLen got h;
          h \<leftarrow> Pipe_ClearIN (Pipe_Freeze h);
          in_stage DataLen got h } })"
  by pat_completeness auto
termination
  by (relation "measure (\<lambda>(n, g, h). length (hreads h))")
    (auto simp: pipe_defs Let_def dest!: hrd_less WaitForIOS_less take_bytes_less split: bind_splits)

declare in_stage.simps [simp del]

text \<open>Filling a packet: up to the size of the control pipe.\<close>

function fill_bytes :: "u16 \<Rightarrow> u8 list \<Rightarrow> host \<Rightarrow> (u16 \<times> u8 list \<times> host) option" where
  "fill_bytes DataLen DataStream h =
     (if DataLen = 0 then Some (DataLen, DataStream, h)
      else do {
        (n, h) \<leftarrow> Pipe_BytesInPipe h;
        if n < ucast (USB_ControlPipeSize h) then
          (case DataStream of
             [] \<Rightarrow> None
           | b # bs \<Rightarrow> fill_bytes (DataLen - 1) bs (Pipe_Write_Byte b h))
        else Some (DataLen, DataStream, h) })"
  by pat_completeness auto
termination
  by (relation "measure (\<lambda>(n, d, h). length (hreads h))") (auto simp: pipe_defs dest!: hrd_less split: bind_splits)

declare fill_bytes.simps [simp del]

lemma fill_bytes_le: "fill_bytes n d h = Some (m, d', t) \<Longrightarrow> length (hreads t) \<le> length (hreads h)"
proof (induction "length (hreads h)" arbitrary: n d h rule: less_induct)
  case less
  have IH: "length (hreads u) < length (hreads h) \<longrightarrow> length (hreads t) \<le> length (hreads h)"
    if "fill_bytes n' d'' u = Some (m, d', t)" for n' d'' u
    using less.hyps [OF _ that] by auto
  from less.prems show ?case
    by (subst (asm) fill_bytes.simps) (auto simp: pipe_defs dest!: hrd_less IH split: bind_splits if_splits list.splits)
qed

function out_stage :: "u16 \<Rightarrow> u8 list \<Rightarrow> host \<Rightarrow> (u8 \<times> host) option" where
  "out_stage DataLen DataStream h =
     (if DataLen = 0 then Some (HOST_SENDCONTROL_Successful, h)
      else do {
        (ReturnStatus, h) \<leftarrow> USB_Host_WaitForIOS USB_HOST_WAITFOR_OutReady h;
        if ReturnStatus \<noteq> HOST_SENDCONTROL_Successful then Some (ReturnStatus, h)
        else do {
          (DataLen, DataStream, h) \<leftarrow> fill_bytes DataLen DataStream h;
          h \<leftarrow> Pipe_ClearOUT h;
          out_stage DataLen DataStream h } })"
  by pat_completeness auto
termination
  by (relation "measure (\<lambda>(n, d, h). length (hreads h))")
    (auto simp: pipe_defs dest!: hrd_less WaitForIOS_less fill_bytes_le split: bind_splits)

declare out_stage.simps [simp del]

text \<open>Data and status stage of a request that reads, and of one that writes.\<close>

definition reading_status :: "u8 list \<Rightarrow> host \<Rightarrow> (u8 \<times> u8 list \<times> host) option" where
  "reading_status got h = do {
     let h = Pipe_Unfreeze (Pipe_SetPipeToken PIPE_TOKEN_OUT h);
     (ReturnStatus, h) \<leftarrow> USB_Host_WaitForIOS USB_HOST_WAITFOR_OutReady h;
     if ReturnStatus \<noteq> HOST_SENDCONTROL_Successful then Some (ReturnStatus, got, h)
     else do {
       h \<leftarrow> Pipe_ClearOUT h;
       (ReturnStatus, h) \<leftarrow> USB_Host_WaitForIOS USB_HOST_WAITFOR_OutReady h;
       Some (ReturnStatus, got, h) } }"

definition reading_stages :: "bool \<Rightarrow> host \<Rightarrow> (u8 \<times> u8 list \<times> host) option" where
  "reading_stages DataStream h = do {
     let h = Pipe_SetPipeToken PIPE_TOKEN_IN h;
     (ReturnStatus, got, h) \<leftarrow> (if DataStream then in_stage (wLength (HostRequest h)) [] h
                               else Some (HOST_SENDCONTROL_Successful, [], h));
     if ReturnStatus \<noteq> HOST_SENDCONTROL_Successful then Some (ReturnStatus, got, h)
     else reading_status got h }"

definition writing_data :: "u8 list \<Rightarrow> host \<Rightarrow> (u8 \<times> host) option" where
  "writing_data DataStream h = do {
     let h = Pipe_Unfreeze (Pipe_SetPipeToken PIPE_TOKEN_OUT h);
     (ReturnStatus, h) \<leftarrow> out_stage (wLength (HostRequest h)) DataStream h;
     if ReturnStatus \<noteq> HOST_SENDCONTROL_Successful then Some (ReturnStatus, h)
     else do {
       (ReturnStatus, h) \<leftarrow> USB_Host_WaitForIOS USB_HOST_WAITFOR_OutReady h;
       if ReturnStatus \<noteq> HOST_SENDCONTROL_Successful then Some (ReturnStatus, h)
       else Some (ReturnStatus, Pipe_Freeze h) } }"

definition writing_stages :: "u8 list option \<Rightarrow> host \<Rightarrow> (u8 \<times> host) option" where
  "writing_stages DataStream h = do {
     (ReturnStatus, h) \<leftarrow> (case DataStream of None \<Rightarrow> Some (HOST_SENDCONTROL_Successful, h) | Some bs \<Rightarrow> writing_data bs h);
     if ReturnStatus \<noteq> HOST_SENDCONTROL_Successful then Some (ReturnStatus, h)
     else do {
       let h = Pipe_Unfreeze (Pipe_SetPipeToken PIPE_TOKEN_IN h);
       (ReturnStatus, h) \<leftarrow> USB_Host_WaitForIOS USB_HOST_WAITFOR_InReceived h;
       if ReturnStatus \<noteq> HOST_SENDCONTROL_Successful then Some (ReturnStatus, h)
       else do {
         h \<leftarrow> Pipe_ClearIN h;
         Some (ReturnStatus, h) } } }"

text \<open>Everything before \<open>End_Of_Control_Send\<close>, with the bytes that were received.\<close>

definition setup_stage :: "host \<Rightarrow> (u8 \<times> host) option" where
  "setup_stage h = do {
     (ReturnStatus, h) \<leftarrow> USB_Host_WaitMS 1 h;
     if ReturnStatus \<noteq> HOST_WAITERROR_Successful then Some (ReturnStatus, h)
     else do {
       let h = Pipe_Unfreeze (Pipe_ClearErrorFlags (Pipe_SetPipeToken PIPE_TOKEN_SETUP h));
       h \<leftarrow> Pipe_ClearSETUP (write_bytes (header_bytes (HostRequest h)) h);
       (ReturnStatus, h) \<leftarrow> USB_Host_WaitForIOS USB_HOST_WAITFOR_SetupSent h;
       if ReturnStatus \<noteq> HOST_SENDCONTROL_Successful then Some (ReturnStatus, h)
       else USB_Host_WaitMS 1 (Pipe_Freeze h) } }"

definition control_stages :: "u8 list option \<Rightarrow> host \<Rightarrow> (u8 \<times> u8 list \<times> host) option" where
  "control_stages DataStream h = do {
     (ReturnStatus, h) \<leftarrow> setup_stage (USB_Host_ResumeBus h);
     if ReturnStatus \<noteq> HOST_WAITERROR_Successful then Some (ReturnStatus, [], h)
     else if bmRequestType (HostRequest h) AND 0x80 = 0x80 then reading_stages (DataStream \<noteq> None) h
     else do {
       (ReturnStatus, h) \<leftarrow> writing_stages DataStream h;
       Some (ReturnStatus, [], h) } }"

definition stored :: "u8 list option \<Rightarrow> u8 list \<Rightarrow> u8 list option option" where
  "stored Buffer got =
     (case Buffer of
        None \<Rightarrow> if got = [] then Some None else None
      | Some bs \<Rightarrow> if length got \<le> length bs then Some (Some (got @ drop (length got) bs)) else None)"

definition USB_Host_SendControlRequest :: "u8 list option \<Rightarrow> host \<Rightarrow> (u8 \<times> u8 list option \<times> host) option" where
  "USB_Host_SendControlRequest BufferPtr h = do {
     let BusSuspended = USB_Host_IsBusSuspended h;
     (ReturnStatus, got, h) \<leftarrow> control_stages BufferPtr h;
     Buffer \<leftarrow> stored BufferPtr got;
     let h = Pipe_Freeze h;
     let h = (if BusSuspended then USB_Host_SuspendBus h else h);
     Some (ReturnStatus, Buffer, Pipe_ResetPipe PIPE_CONTROLPIPE h) }"

section \<open>Standard requests\<close>

definition requesting :: "u8 \<Rightarrow> u8 \<Rightarrow> u16 \<Rightarrow> u16 \<Rightarrow> u16 \<Rightarrow> host \<Rightarrow> host" where
  "requesting t r v i n h =
     h\<lparr>HostRequest := \<lparr>bmRequestType = t, bRequest = r, wValue = v, wIndex = i, wLength = n\<rparr>\<rparr>"

definition USB_Host_SetDeviceConfiguration :: "u8 \<Rightarrow> host \<Rightarrow> (u8 \<times> host) option" where
  "USB_Host_SetDeviceConfiguration ConfigNumber h = do {
     let h = Pipe_SelectPipe PIPE_CONTROLPIPE (requesting 0x00 9 (ucast ConfigNumber) 0 0 h);
     (e, _, h) \<leftarrow> USB_Host_SendControlRequest None h;
     Some (e, h) }"

definition USB_Host_GetDeviceDescriptor :: "u8 list \<Rightarrow> host \<Rightarrow> (u8 \<times> u8 list option \<times> host) option" where
  "USB_Host_GetDeviceDescriptor Buffer h =
     USB_Host_SendControlRequest (Some Buffer)
       (Pipe_SelectPipe PIPE_CONTROLPIPE (requesting 0x80 6 (push_bit 8 1) 0 18 h))"

definition USB_Host_GetDeviceStringDescriptor ::
    "u8 \<Rightarrow> u8 list \<Rightarrow> u8 \<Rightarrow> host \<Rightarrow> (u8 \<times> u8 list option \<times> host) option" where
  "USB_Host_GetDeviceStringDescriptor Index Buffer BufferLength h =
     USB_Host_SendControlRequest (Some Buffer)
       (Pipe_SelectPipe PIPE_CONTROLPIPE (requesting 0x80 6 (push_bit 8 3 OR ucast Index) 0 (ucast BufferLength) h))"

text \<open>The token is that of the pipe selected when it is called.\<close>

definition USB_Host_ClearPipeStall :: "u8 \<Rightarrow> host \<Rightarrow> (u8 \<times> host) option" where
  "USB_Host_ClearPipeStall EndpointNum h = do {
     let EndpointNum = (if Pipe_GetPipeToken h = PIPE_TOKEN_IN then EndpointNum OR 0x80 else EndpointNum);
     let h = Pipe_SelectPipe PIPE_CONTROLPIPE (requesting 0x02 1 0 (ucast EndpointNum) 0 h);
     (e, _, h) \<leftarrow> USB_Host_SendControlRequest None h;
     Some (e, h) }"

text \<open>
  \<open>ConfigHeader\<close> is not initialised; what the stack holds there is an argument. The result has the size found
  (\<open>None\<close>: \<open>ConfigSizePtr\<close> has not been written) and the buffer.
\<close>

definition USB_Host_GetDeviceConfigDescriptor ::
    "u8 list \<Rightarrow> u8 \<Rightarrow> u8 list \<Rightarrow> u16 \<Rightarrow> host \<Rightarrow> (u8 \<times> u16 option \<times> u8 list \<times> host) option" where
  "USB_Host_GetDeviceConfigDescriptor ConfigHeader ConfigNumber Buffer BufferSize h = do {
     let h = Pipe_SelectPipe PIPE_CONTROLPIPE
       (requesting 0x80 6 (push_bit 8 2 OR of_int (uint ConfigNumber - 1)) 0 9 h);
     (ErrorCode, header, h) \<leftarrow> USB_Host_SendControlRequest (Some ConfigHeader) h;
     if ErrorCode \<noteq> HOST_SENDCONTROL_Successful then Some (ErrorCode, None, Buffer, h)
     else do {
       header \<leftarrow> header;
       lo \<leftarrow> byte_at header 2;
       hi \<leftarrow> byte_at header 3;
       let size = (ucast lo OR push_bit 8 (ucast hi) :: u16);
       if size > BufferSize then Some (5, Some size, Buffer, h)
       else do {
         (ErrorCode, buf, h) \<leftarrow> USB_Host_SendControlRequest (Some Buffer)
           (h\<lparr>HostRequest := (HostRequest h)\<lparr>wLength := size\<rparr>\<rparr>);
         buf \<leftarrow> buf;
         if ErrorCode \<noteq> HOST_SENDCONTROL_Successful then Some (ErrorCode, Some size, buf, h)
         else do {
           t \<leftarrow> DESCRIPTOR_TYPE buf 0;
           Some (if t \<noteq> 2 then 6 else 0, Some size, buf, h) } } } }"

end
