(* ===== verification/Structures.thy ===== *)
theory Structures
  imports Prelude
begin

text \<open>
  Structures of bytes in memory, as the class drivers of LUFA lay them out on an AVR: little endian and
  without padding. A read or a store that leaves the memory it was given has no result.
\<close>

section \<open>Operations\<close>

definition bytes16 :: "u16 \<Rightarrow> u8 list" where
  "bytes16 w = [ucast w, ucast (drop_bit 8 w)]"

definition bytes32 :: "u32 \<Rightarrow> u8 list" where
  "bytes32 w = [ucast w, ucast (drop_bit 8 w), ucast (drop_bit 16 w), ucast (drop_bit 24 w)]"

definition word32 :: "u8 list \<Rightarrow> u32" where
  "word32 bs = ucast (bs ! 0) OR push_bit 8 (ucast (bs ! 1)) OR push_bit 16 (ucast (bs ! 2)) OR push_bit 24 (ucast (bs ! 3))"

definition word16 :: "u8 list \<Rightarrow> u16" where
  "word16 bs = ucast (bs ! 0) OR push_bit 8 (ucast (bs ! 1))"

definition overlay :: "nat \<Rightarrow> 'a list \<Rightarrow> 'a list \<Rightarrow> 'a list option" where
  "overlay k xs mem = (if k + length xs \<le> length mem then Some (take k mem @ xs @ drop (k + length xs) mem) else None)"

definition get32 :: "nat \<Rightarrow> u8 list \<Rightarrow> u32 option" where
  "get32 k mem = (if k + 4 \<le> length mem then Some (word32 (take 4 (drop k mem))) else None)"

definition put32 :: "nat \<Rightarrow> u32 \<Rightarrow> u8 list \<Rightarrow> u8 list option" where
  "put32 k w = overlay k (bytes32 w)"

text \<open>Several fields, one after the other.\<close>

fun put_fields :: "(nat \<times> u32) list \<Rightarrow> u8 list \<Rightarrow> u8 list option" where
  "put_fields [] mem = Some mem"
| "put_fields ((k, w) # fs) mem = do { mem \<leftarrow> put32 k w mem; put_fields fs mem }"

section \<open>Laws\<close>

lemma length_bytes [simp]: "length (bytes32 w) = 4" "length (bytes16 v) = 2"
  by (simp_all add: bytes32_def bytes16_def)

lemma word32_bytes [simp]: "word32 (bytes32 w) = w"
proof (rule bit_word_eqI)
  fix n
  assume "n < LENGTH(32)"
  then show "bit (word32 (bytes32 w)) n = bit w n"
    by (cases "24 \<le> n"; cases "16 \<le> n") (auto simp: word32_def bytes32_def bit_simps)
qed

lemma word16_bytes [simp]: "word16 (bytes16 w) = w"
proof (rule bit_word_eqI)
  fix n
  assume "n < LENGTH(16)"
  then show "bit (word16 (bytes16 w)) n = bit w n"
    by (auto simp: word16_def bytes16_def bit_simps)
qed

lemma bytes16_word: "bytes16 (word16 [a, b]) = [a, b]"
proof -
  have "ucast (word16 [a, b]) = a" "ucast (drop_bit 8 (word16 [a, b])) = b"
    by (rule bit_word_eqI, auto simp: word16_def bit_simps dest: bit_imp_le_length)+
  then show ?thesis
    by (simp add: bytes16_def)
qed

lemma overlay_length: "overlay k xs mem = Some t \<Longrightarrow> length t = length mem"
  by (auto simp: overlay_def split: if_splits)

lemma put32_length: "put32 k w mem = Some t \<Longrightarrow> length t = length mem"
  by (simp add: put32_def overlay_length)

lemma put_fields_length: "put_fields fs mem = Some t \<Longrightarrow> length t = length mem"
  by (induction fs mem rule: put_fields.induct) (auto dest: put32_length split: bind_splits)

lemma get32_put32 [simp]: "put32 k w mem = Some t \<Longrightarrow> get32 k t = Some w"
  by (auto simp: put32_def overlay_def get32_def split: if_splits)

lemma take_overlay: "overlay k xs mem = Some t \<Longrightarrow> n \<le> k \<Longrightarrow> take n t = take n mem"
  by (auto simp: overlay_def min_def split: if_splits)

lemma drop_overlay: "overlay k xs mem = Some t \<Longrightarrow> k + length xs \<le> n \<Longrightarrow> drop n t = drop n mem"
  by (auto simp: overlay_def split: if_splits)

lemma get32_overlay:
  assumes "overlay k xs mem = Some t" "j + 4 \<le> k \<or> k + length xs \<le> j"
  shows "get32 j t = get32 j mem"
proof -
  have "take 4 (drop j t) = take 4 (drop j mem)"
    using assms(2)
  proof
    assume "j + 4 \<le> k"
    then have "take (j + 4) t = take (j + 4) mem"
      by (rule take_overlay [OF assms(1)])
    then show ?thesis
      by (metis add.commute drop_take diff_add_inverse2 take_drop)
  next
    assume "k + length xs \<le> j"
    then show ?thesis
      by (simp add: drop_overlay [OF assms(1)])
  qed
  then show ?thesis
    by (simp add: get32_def overlay_length [OF assms(1)])
qed

lemma get32_put32_other: "put32 k w mem = Some t \<Longrightarrow> j + 4 \<le> k \<or> k + 4 \<le> j \<Longrightarrow> get32 j t = get32 j mem"
  unfolding put32_def by (erule get32_overlay) simp

text \<open>The fields of a structure, in the order they are stored at distinct places.\<close>

lemma get32_put_fields_other:
  "put_fields fs mem = Some t \<Longrightarrow> \<forall>(k, w) \<in> set fs. j + 4 \<le> k \<or> k + 4 \<le> j \<Longrightarrow> get32 j t = get32 j mem"
  by (induction fs mem rule: put_fields.induct) (auto simp: get32_put32_other split: bind_splits)

definition apart :: "(nat \<times> u32) list \<Rightarrow> bool" where
  "apart = sorted_wrt (\<lambda>(j, _) (k, _). j + 4 \<le> k \<or> k + 4 \<le> j)"

lemma get32_put_fields:
  "put_fields fs mem = Some t \<Longrightarrow> apart fs \<Longrightarrow> (k, w) \<in> set fs \<Longrightarrow> get32 k t = Some w"
  by (induction fs mem rule: put_fields.induct)
    (fastforce simp: apart_def get32_put_fields_other split: bind_splits)+

lemma put_fields_fits:
  "\<forall>(k, w) \<in> set fs. k + 4 \<le> length mem \<Longrightarrow> \<exists>t. put_fields fs mem = Some t"
proof (induction fs mem rule: put_fields.induct)
  case (2 k w fs mem)
  then obtain u where u: "put32 k w mem = Some u"
    by (auto simp: put32_def overlay_def)
  with 2 put32_length [OF u] show ?case
    by auto
qed simp

lemma drop_put_fields: "put_fields fs mem = Some t \<Longrightarrow> \<forall>(k, w) \<in> set fs. k + 4 \<le> n \<Longrightarrow> drop n t = drop n mem"
  by (induction fs mem rule: put_fields.induct) (auto simp: put32_def drop_overlay split: bind_splits)

lemma overlay_fits: "k + length xs \<le> length mem \<Longrightarrow> \<exists>t. overlay k xs mem = Some t"
  by (simp add: overlay_def)

lemma get32_append [simp]: "get32 (length xs) (xs @ bytes32 w @ ys) = Some w"
  by (simp add: get32_def)

text \<open>A structure at the beginning of some memory.\<close>

lemma overlay_append: "overlay k xs mem = Some t \<Longrightarrow> overlay k xs (mem @ more) = Some (t @ more)"
  by (auto simp: overlay_def split: if_splits)

lemma put_fields_append: "put_fields fs mem = Some t \<Longrightarrow> put_fields fs (mem @ more) = Some (t @ more)"
  by (induction fs mem rule: put_fields.induct) (auto simp: put32_def overlay_append split: bind_splits)

lemma get32_longer: "get32 k mem = Some w \<Longrightarrow> get32 k (mem @ more) = Some w"
  by (auto simp: get32_def split: if_splits)

lemma word32_front [simp]: "word32 (bytes32 w @ more) = w"
proof -
  have "word32 (bytes32 w @ more) = word32 (bytes32 w)"
    by (simp add: word32_def nth_append)
  then show ?thesis
    by simp
qed

lemma word16_front [simp]: "word16 (bytes16 w @ more) = w"
proof -
  have "word16 (bytes16 w @ more) = word16 (bytes16 w)"
    by (simp add: word16_def nth_append)
  then show ?thesis
    by simp
qed

lemma bytes32_word: "bytes32 (word32 [a, b, c, d]) = [a, b, c, d]"
proof -
  have "ucast (word32 [a, b, c, d]) = a" "ucast (drop_bit 8 (word32 [a, b, c, d])) = b"
    "ucast (drop_bit 16 (word32 [a, b, c, d])) = c" "ucast (drop_bit 24 (word32 [a, b, c, d])) = d"
    by (rule bit_word_eqI, auto simp: word32_def bit_simps dest: bit_imp_le_length)+
  then show ?thesis
    by (simp add: bytes32_def)
qed

declare put_fields.simps [simp del]

end
