(* ===== verification/ClassHost.thy ===== *)
theory ClassHost
  imports HostControl Structures
begin

text \<open>
  What the class drivers of LUFA for the host (\<open>LUFA/Drivers/USB/Class/Host\<close>) share: the pipes in their
  configuration and state, the comparators for the interface and the endpoints of a device, the loops that
  bind the endpoints to pipes, and the wait for data. A driver whose source repeats one of these is an
  instance of it. The streams are given no callback.
\<close>

section \<open>Descriptors\<close>

abbreviation (input) "DTYPE_Configuration \<equiv> 0x02 :: u8"
abbreviation (input) "DTYPE_Interface \<equiv> 0x04 :: u8"
abbreviation (input) "DTYPE_Endpoint \<equiv> 0x05 :: u8"
abbreviation (input) "ENDPOINT_DESCRIPTOR_DIR_IN \<equiv> 0x80 :: u8"
abbreviation (input) "PIPE_EP_TYPE_BULK \<equiv> 0x02 :: u8"

text \<open>The fields of the descriptors of an interface and an endpoint by their places.\<close>

definition interface_Class :: "u8 list \<Rightarrow> nat \<Rightarrow> u8 option" where
  "interface_Class mem loc = byte_at mem (loc + 5)"

definition endpoint_Address :: "u8 list \<Rightarrow> nat \<Rightarrow> u8 option" where
  "endpoint_Address mem loc = byte_at mem (loc + 2)"

definition endpoint_Type :: "u8 list \<Rightarrow> nat \<Rightarrow> u8 option" where
  "endpoint_Type mem loc = do { a \<leftarrow> byte_at mem (loc + 3); Some (a AND 0x03) }"

definition word_at :: "u8 list \<Rightarrow> nat \<Rightarrow> u16 option" where
  "word_at mem a = do { lo \<leftarrow> byte_at mem a; hi \<leftarrow> byte_at mem (a + 1); Some (ucast lo OR push_bit 8 (ucast hi)) }"

section \<open>Comparators\<close>

text \<open>An interface of the class, subclass and protocol; the fields are looked at one after the other.\<close>

definition class_interface :: "u8 \<Rightarrow> u8 \<Rightarrow> u8 \<Rightarrow> u8 list \<Rightarrow> nat \<Rightarrow> host \<Rightarrow> (u8 \<times> host) option" where
  "class_interface cls sub protocol mem loc h = do {
     t \<leftarrow> DESCRIPTOR_TYPE mem loc;
     if t \<noteq> DTYPE_Interface then Some (DESCRIPTOR_SEARCH_NotFound, h)
     else do {
       c \<leftarrow> interface_Class mem loc;
       if c \<noteq> cls then Some (DESCRIPTOR_SEARCH_NotFound, h)
       else do {
         s \<leftarrow> byte_at mem (loc + 6);
         if s \<noteq> sub then Some (DESCRIPTOR_SEARCH_NotFound, h)
         else do {
           p \<leftarrow> byte_at mem (loc + 7);
           Some (if p = protocol then DESCRIPTOR_SEARCH_Found else DESCRIPTOR_SEARCH_NotFound, h) } } } }"

text \<open>An endpoint of one of the types that no pipe is bound to yet.\<close>

definition free_endpoint :: "u8 list \<Rightarrow> cfgok \<Rightarrow> u8 list \<Rightarrow> nat \<Rightarrow> host \<Rightarrow> (u8 \<times> host) option" where
  "free_endpoint types ok mem loc h = do {
     t \<leftarrow> DESCRIPTOR_TYPE mem loc;
     if t = DTYPE_Endpoint then do {
       EndpointType \<leftarrow> endpoint_Type mem loc;
       if EndpointType \<notin> set types then Some (DESCRIPTOR_SEARCH_NotFound, h)
       else do {
         a \<leftarrow> endpoint_Address mem loc;
         let (bound, h) = Pipe_IsEndpointBound ok a h;
         Some (if \<not> bound then DESCRIPTOR_SEARCH_Found else DESCRIPTOR_SEARCH_NotFound, h) } }
     else Some (if t = DTYPE_Interface then DESCRIPTOR_SEARCH_Fail else DESCRIPTOR_SEARCH_NotFound, h) }"

section \<open>Pipes\<close>

record pipe_config =
  DataINPipeNumber :: u8
  DataINPipeDoubleBank :: bool
  DataOUTPipeNumber :: u8
  DataOUTPipeDoubleBank :: bool

text \<open>With the pipe for events, which CDC and RNDIS call the notification pipe.\<close>

record event_pipe_config = pipe_config +
  EventsPipeNumber :: u8
  EventsPipeDoubleBank :: bool

record data_pipes =
  IsActive :: bool
  DataINPipeSize :: u16
  DataOUTPipeSize :: u16

record event_pipes = data_pipes +
  EventsPipeSize :: u16

datatype enum_failure = ENUMERROR_NoError | ENUMERROR_InvalidConfigDescriptor | ENUMERROR_NoInterfaceFound
  | ENUMERROR_EndpointsNotFound

definition pipe_bank :: "bool \<Rightarrow> u8" where
  "pipe_bank double = (if double then PIPE_BANK_DOUBLE else PIPE_BANK_SINGLE)"

text \<open>A pipe for the endpoint described at \<open>loc\<close>; whether the hardware accepts it is not looked at.\<close>

definition pipe_for :: "cfgok \<Rightarrow> u8 \<Rightarrow> u8 \<Rightarrow> u8 \<Rightarrow> bool \<Rightarrow> u8 list \<Rightarrow> nat \<Rightarrow> host \<Rightarrow> (u16 \<times> host) option" where
  "pipe_for ok Number ty token double mem loc h = do {
     a \<leftarrow> endpoint_Address mem loc;
     n \<leftarrow> word_at mem (loc + 4);
     (_, h) \<leftarrow> Pipe_ConfigurePipe ok Number ty token a n (pipe_bank double) h;
     Some (n, h) }"

type_synonym found = "bool \<times> bool \<times> bool"     \<comment> \<open>events, data IN, data OUT\<close>

definition bind_data ::
    "cfgok \<Rightarrow> 'c pipe_config_scheme \<Rightarrow> u8 list \<Rightarrow> nat \<Rightarrow> found \<Rightarrow> 's data_pipes_scheme \<Rightarrow> host \<Rightarrow>
      (found \<times> 's data_pipes_scheme \<times> host) option" where
  "bind_data ok cfg mem loc found st h = do {
     a \<leftarrow> endpoint_Address mem loc;
     if a AND ENDPOINT_DESCRIPTOR_DIR_IN \<noteq> 0 then do {
       (n, h) \<leftarrow> pipe_for ok (DataINPipeNumber cfg) PIPE_EP_TYPE_BULK PIPE_TOKEN_IN (DataINPipeDoubleBank cfg) mem loc h;
       Some ((fst found, True, snd (snd found)), st\<lparr>DataINPipeSize := n\<rparr>, h) }
     else do {
       (n, h) \<leftarrow> pipe_for ok (DataOUTPipeNumber cfg) PIPE_EP_TYPE_BULK PIPE_TOKEN_OUT (DataOUTPipeDoubleBank cfg) mem loc h;
       Some ((fst found, fst (snd found), True), st\<lparr>DataOUTPipeSize := n\<rparr>, h) } }"

text \<open>An interrupt endpoint from the host to the device is passed over.\<close>

definition bind_any ::
    "cfgok \<Rightarrow> 'c event_pipe_config_scheme \<Rightarrow> u8 list \<Rightarrow> nat \<Rightarrow> found \<Rightarrow> 's event_pipes_scheme \<Rightarrow> host \<Rightarrow>
      (found \<times> 's event_pipes_scheme \<times> host) option" where
  "bind_any ok cfg mem loc found st h = do {
     ty \<leftarrow> endpoint_Type mem loc;
     if ty = PIPE_EP_TYPE_INTERRUPT then do {
       a \<leftarrow> endpoint_Address mem loc;
       if a AND ENDPOINT_DESCRIPTOR_DIR_IN \<noteq> 0 then do {
         (n, h) \<leftarrow> pipe_for ok (EventsPipeNumber cfg) PIPE_EP_TYPE_INTERRUPT PIPE_TOKEN_IN (EventsPipeDoubleBank cfg) mem loc h;
         ms \<leftarrow> byte_at mem (loc + 6);
         Some ((True, snd found), st\<lparr>EventsPipeSize := n\<rparr>, Pipe_SetInterruptPeriod ms h) }
       else Some (found, st, h) }
     else bind_data ok cfg mem loc found st h }"

text \<open>The loops: binding what the comparator finds until every pipe has its endpoint.\<close>

partial_function (option) pipes_loop ::
    "(nat \<Rightarrow> found \<Rightarrow> 's \<Rightarrow> host \<Rightarrow> (found \<times> 's \<times> host) option) \<Rightarrow> found \<Rightarrow> (nat \<Rightarrow> host \<Rightarrow> (u8 \<times> host) option) \<Rightarrow>
      u8 list \<Rightarrow> u16 \<Rightarrow> nat \<Rightarrow> found \<Rightarrow> 's \<Rightarrow> host \<Rightarrow> (enum_failure \<times> 's \<times> host) option" where
  "pipes_loop bind_one wanted endpoints mem rem loc found st h =
     (if found = wanted then Some (ENUMERROR_NoError, st, h)
      else do {
        (e, rem, loc, h) \<leftarrow> USB_GetNextDescriptorComp mem endpoints rem loc h;
        if e \<noteq> DESCRIPTOR_SEARCH_COMP_Found then Some (ENUMERROR_EndpointsNotFound, st, h)
        else do {
          (found, st, h) \<leftarrow> bind_one loc found st h;
          pipes_loop bind_one wanted endpoints mem rem loc found st h } })"

text \<open>
  CDC and RNDIS: at the end of an interface the search goes on in the data interface when the notification
  endpoint has been found, and starts again with the next control interface otherwise.
\<close>

definition disable_pipes :: "'c event_pipe_config_scheme \<Rightarrow> host \<Rightarrow> host" where
  "disable_pipes cfg h =
     (let h = Pipe_DisablePipe (Pipe_SelectPipe (DataINPipeNumber cfg) h);
          h = Pipe_DisablePipe (Pipe_SelectPipe (DataOUTPipeNumber cfg) h)
      in Pipe_DisablePipe (Pipe_SelectPipe (EventsPipeNumber cfg) h))"

type_synonym comparator = "nat \<Rightarrow> host \<Rightarrow> (u8 \<times> host) option"

definition next_endpoint ::
    "'c event_pipe_config_scheme \<Rightarrow> comparator \<Rightarrow> comparator \<Rightarrow> comparator \<Rightarrow> u8 list \<Rightarrow> u16 \<Rightarrow> nat \<Rightarrow> found \<Rightarrow> host \<Rightarrow>
      (enum_failure \<times> u16 \<times> nat \<times> found \<times> host) option" where
  "next_endpoint cfg control_ifs data_ifs endpoints mem rem loc found h = do {
     (e, rem, loc, h) \<leftarrow> USB_GetNextDescriptorComp mem endpoints rem loc h;
     if e = DESCRIPTOR_SEARCH_COMP_Found then Some (ENUMERROR_NoError, rem, loc, found, h)
     else do {
       let (compare, found, h) = (if fst found then (data_ifs, found, h)
                                  else (control_ifs, (False, False, False), disable_pipes cfg h));
       (e, rem, loc, h) \<leftarrow> USB_GetNextDescriptorComp mem compare rem loc h;
       if e \<noteq> DESCRIPTOR_SEARCH_COMP_Found then Some (ENUMERROR_NoInterfaceFound, rem, loc, found, h)
       else do {
         (e, rem, loc, h) \<leftarrow> USB_GetNextDescriptorComp mem endpoints rem loc h;
         Some (if e \<noteq> DESCRIPTOR_SEARCH_COMP_Found then ENUMERROR_EndpointsNotFound else ENUMERROR_NoError, rem, loc, found, h) } } }"

partial_function (option) two_interfaces_loop ::
    "cfgok \<Rightarrow> 'c event_pipe_config_scheme \<Rightarrow> comparator \<Rightarrow> comparator \<Rightarrow> comparator \<Rightarrow> u8 list \<Rightarrow> u16 \<Rightarrow> nat \<Rightarrow>
      found \<Rightarrow> 's event_pipes_scheme \<Rightarrow> host \<Rightarrow> (enum_failure \<times> 's event_pipes_scheme \<times> host) option" where
  "two_interfaces_loop ok cfg control_ifs data_ifs endpoints mem rem loc found st h =
     (if found = (True, True, True) then Some (ENUMERROR_NoError, st, h)
      else do {
        (e, rem, loc, found, h) \<leftarrow> next_endpoint cfg control_ifs data_ifs endpoints mem rem loc found h;
        if e \<noteq> ENUMERROR_NoError then Some (e, st, h)
        else do {
          (found, st, h) \<leftarrow> bind_any ok cfg mem loc found st h;
          two_interfaces_loop ok cfg control_ifs data_ifs endpoints mem rem loc found st h } })"

declare pipes_loop.simps [code] two_interfaces_loop.simps [code]

text \<open>
  The frame of \<open>ConfigurePipes\<close>: the configuration, its first interface of the class, of which \<open>note_interface\<close>
  keeps what the driver needs, and the loop over the endpoints.
\<close>

definition configure_pipes ::
    "comparator \<Rightarrow> (nat \<Rightarrow> 's data_pipes_scheme \<Rightarrow> 's data_pipes_scheme option) \<Rightarrow>
      (u16 \<Rightarrow> nat \<Rightarrow> 's data_pipes_scheme \<Rightarrow> host \<Rightarrow> (enum_failure \<times> 's data_pipes_scheme \<times> host) option) \<Rightarrow>
      's data_pipes_scheme \<Rightarrow> u16 \<Rightarrow> u8 list \<Rightarrow> host \<Rightarrow> (enum_failure \<times> 's data_pipes_scheme \<times> host) option" where
  "configure_pipes interfaces note_interface find_pipes st ConfigDescriptorSize mem h = do {
     t \<leftarrow> DESCRIPTOR_TYPE mem 0;
     if t \<noteq> DTYPE_Configuration then Some (ENUMERROR_InvalidConfigDescriptor, st, h)
     else do {
       (e, rem, loc, h) \<leftarrow> USB_GetNextDescriptorComp mem interfaces ConfigDescriptorSize 0 h;
       if e \<noteq> DESCRIPTOR_SEARCH_COMP_Found then Some (ENUMERROR_NoInterfaceFound, st, h)
       else do {
         st \<leftarrow> note_interface loc st;
         (e, st, h) \<leftarrow> find_pipes rem loc st h;
         Some (e, if e = ENUMERROR_NoError then st\<lparr>IsActive := True\<rparr> else st, h) } } }"

section \<open>Operations\<close>

text \<open>The test at the start of the operations: a configured device with this interface.\<close>

definition attached :: "'s data_pipes_scheme \<Rightarrow> host \<Rightarrow> (bool \<times> host) option" where
  "attached st h = do { (hs, h) \<leftarrow> look_state h; Some (hs = HOST_STATE_Configured \<and> IsActive st, h) }"

definition use_pipe :: "u8 \<Rightarrow> host \<Rightarrow> host" where
  "use_pipe n h = Pipe_Unfreeze (Pipe_SelectPipe n h)"

definition in_pipe :: "u8 \<Rightarrow> host \<Rightarrow> host" where
  "in_pipe n h = Pipe_Unfreeze (Pipe_SetPipeToken PIPE_TOKEN_IN (Pipe_SelectPipe n h))"

abbreviation (input) "PIPE_RWSTREAM_PipeStalled \<equiv> 1 :: u8"
abbreviation (input) "PIPE_RWSTREAM_DeviceDisconnected \<equiv> 2 :: u8"
abbreviation (input) "PIPE_RWSTREAM_Timeout \<equiv> 3 :: u8"
abbreviation (input) "HOST_SENDCONTROL_DeviceDisconnected \<equiv> 1 :: u8"
abbreviation (input) "COMMAND_DATA_TIMEOUT_MS \<equiv> 10000 :: u16"

text \<open>
  The wait of the mass storage and the still image driver, for a bit of \<open>UPINTX\<close> of the IN pipe; both pipes are
  looked at for a stall, which is then cleared on the endpoint with the number of the pipe.
\<close>

function data_wait :: "nat \<Rightarrow> 'c pipe_config_scheme \<Rightarrow> u16 \<Rightarrow> host \<Rightarrow> (u8 \<times> host) option" where
  "data_wait b cfg TimeoutMSRem h = do {
     (ready, h) \<leftarrow> hflag UPINTX b h;
     if ready then Some (PIPE_RWSTREAM_NoError, h)
     else do {
       (frame, h) \<leftarrow> hflag UHINT HSOFI h;
       (TimeoutMSRem, h) \<leftarrow> (if frame then do { h \<leftarrow> hclear UHINT HSOFI h; Some (TimeoutMSRem - 1, h) } else Some (TimeoutMSRem, h));
       if frame \<and> TimeoutMSRem = 0 then Some (PIPE_RWSTREAM_Timeout, h)
       else do {
         (stalled, h) \<leftarrow> Pipe_IsStalled (use_pipe (DataOUTPipeNumber cfg) (Pipe_Freeze h));
         if stalled then do {
           (_, h) \<leftarrow> USB_Host_ClearPipeStall (DataOUTPipeNumber cfg) h;
           Some (PIPE_RWSTREAM_PipeStalled, h) }
         else do {
           (stalled, h) \<leftarrow> Pipe_IsStalled (use_pipe (DataINPipeNumber cfg) (Pipe_Freeze h));
           if stalled then do {
             (_, h) \<leftarrow> USB_Host_ClearPipeStall (DataINPipeNumber cfg) h;
             Some (PIPE_RWSTREAM_PipeStalled, h) }
           else do {
             (hs, h) \<leftarrow> look_state h;
             if hs = HOST_STATE_Unattached then Some (PIPE_RWSTREAM_DeviceDisconnected, h)
             else data_wait b cfg TimeoutMSRem h } } } } }"
  by pat_completeness auto
termination
  by (relation "measure (\<lambda>(b, c, n, h). length (hreads h))")
    (auto simp: pipe_defs use_pipe_def Pipe_SelectPipe_def Let_def dest!: hrd_less split: bind_splits if_splits)

declare data_wait.simps [simp del]

text \<open>The wait of the mass storage and the printer driver for the device to take what was sent.\<close>

function taken_wait :: "host \<Rightarrow> (u8 \<times> host) option" where
  "taken_wait h = do {
     (ready, h) \<leftarrow> Pipe_IsOUTReady h;
     if ready then Some (PIPE_RWSTREAM_NoError, h)
     else do {
       (hs, h) \<leftarrow> look_state h;
       if hs = HOST_STATE_Unattached then Some (PIPE_RWSTREAM_DeviceDisconnected, h) else taken_wait h } }"
  by pat_completeness auto
termination
  by (relation "measure (\<lambda>h. length (hreads h))") (auto simp: pipe_defs Let_def dest!: hrd_less split: bind_splits if_splits)

declare taken_wait.simps [simp del]

text \<open>A class request to the interface, and one that reads.\<close>

definition class_command :: "u8 \<Rightarrow> u16 \<Rightarrow> u8 \<Rightarrow> u16 \<Rightarrow> host \<Rightarrow> host" where
  "class_command r v i n h = Pipe_SelectPipe PIPE_CONTROLPIPE (requesting 0x21 r v (ucast i) n h)"

definition class_query :: "u8 \<Rightarrow> u8 \<Rightarrow> u16 \<Rightarrow> host \<Rightarrow> host" where
  "class_query r i n h = Pipe_SelectPipe PIPE_CONTROLPIPE (requesting 0xA1 r 0 (ucast i) n h)"

end
