(* ===== verification/HidHost.thy ===== *)
theory HidHost
  imports ClassHost
begin

text \<open>
  The host's side of enumeration for a HID device: \<open>HID_Host_ConfigurePipes\<close> of \<open>Class/Host/HID.c\<close> with its
  comparators, over the pipes of \<open>HostPipe\<close>.
\<close>

section \<open>Comparators\<close>

abbreviation (input) "DTYPE_HID \<equiv> 0x21 :: u8"
abbreviation (input) "HID_INTERFACE_CLASS \<equiv> 0x03 :: u8"

definition DComp_HID_Host_NextHIDInterface :: "u8 list \<Rightarrow> nat \<Rightarrow> host \<Rightarrow> (u8 \<times> host) option" where
  "DComp_HID_Host_NextHIDInterface mem loc h = do {
     t \<leftarrow> DESCRIPTOR_TYPE mem loc;
     if t = DTYPE_Interface then do {
       c \<leftarrow> interface_Class mem loc;
       Some (if c = HID_INTERFACE_CLASS then DESCRIPTOR_SEARCH_Found else DESCRIPTOR_SEARCH_NotFound, h) }
     else Some (DESCRIPTOR_SEARCH_NotFound, h) }"

definition DComp_NextHID :: "u8 list \<Rightarrow> nat \<Rightarrow> host \<Rightarrow> (u8 \<times> host) option" where
  "DComp_NextHID mem loc h = do {
     t \<leftarrow> DESCRIPTOR_TYPE mem loc;
     Some (if t = DTYPE_HID then DESCRIPTOR_SEARCH_Found
           else if t = DTYPE_Interface then DESCRIPTOR_SEARCH_Fail
           else DESCRIPTOR_SEARCH_NotFound, h) }"

definition DComp_HID_Host_NextHIDInterfaceEndpoint :: "cfgok \<Rightarrow> u8 list \<Rightarrow> nat \<Rightarrow> host \<Rightarrow> (u8 \<times> host) option" where
  "DComp_HID_Host_NextHIDInterfaceEndpoint ok mem loc h = do {
     t \<leftarrow> DESCRIPTOR_TYPE mem loc;
     if t = DTYPE_Endpoint then do {
       a \<leftarrow> endpoint_Address mem loc;
       let (bound, h) = Pipe_IsEndpointBound ok a h;
       Some (if \<not> bound then DESCRIPTOR_SEARCH_Found else DESCRIPTOR_SEARCH_NotFound, h) }
     else Some (if t = DTYPE_Interface then DESCRIPTOR_SEARCH_Fail else DESCRIPTOR_SEARCH_NotFound, h) }"

section \<open>\<open>HID_Host_ConfigurePipes\<close>\<close>

datatype HIDHost_EnumerationFailure =
    HID_ENUMERROR_NoError | HID_ENUMERROR_InvalidConfigDescriptor | HID_ENUMERROR_NoHIDInterfaceFound
  | HID_ENUMERROR_NoHIDDescriptorFound | HID_ENUMERROR_EndpointsNotFound

record HID_Host_Config = pipe_config +
  HIDInterfaceProtocol :: u8

record HID_Host_State = data_pipes +
  HIDInterfaceNumber :: u8
  SupportsBootProtocol :: bool
  DeviceUsesOUTPipe :: bool
  UsingBootProtocol :: bool
  HIDReportSize :: u16
  LargestReportSize :: u8

definition cleared_state :: HID_Host_State where
  "cleared_state = \<lparr>IsActive = False, DataINPipeSize = 0, DataOUTPipeSize = 0, HIDInterfaceNumber = 0,
     SupportsBootProtocol = False, DeviceUsesOUTPipe = False, UsingBootProtocol = False, HIDReportSize = 0,
     LargestReportSize = 0\<rparr>"

text \<open>The loop over the HID interfaces; protocol 0 accepts every one. \<open>None\<close> inside: no interface was found.\<close>

partial_function (option) interface_loop ::
    "u8 list \<Rightarrow> u8 \<Rightarrow> u16 \<Rightarrow> nat \<Rightarrow> host \<Rightarrow> ((u16 \<times> nat) option \<times> host) option" where
  "interface_loop mem protocol rem loc h = do {
     (e, rem, loc, h) \<leftarrow> USB_GetNextDescriptorComp mem (DComp_HID_Host_NextHIDInterface mem) rem loc h;
     if e \<noteq> DESCRIPTOR_SEARCH_COMP_Found then Some (None, h)
     else do {
       p \<leftarrow> byte_at mem (loc + 7);
       if protocol \<noteq> 0 \<and> p \<noteq> protocol then interface_loop mem protocol rem loc h
       else Some (Some (rem, loc), h) } }"

text \<open>A pipe for an endpoint; whether the hardware accepts it is not looked at.\<close>

definition bind_endpoint ::
    "cfgok \<Rightarrow> HID_Host_Config \<Rightarrow> u8 list \<Rightarrow> nat \<Rightarrow> bool \<times> bool \<Rightarrow> HID_Host_State \<Rightarrow> host \<Rightarrow>
      ((bool \<times> bool) \<times> HID_Host_State \<times> host) option" where
  "bind_endpoint ok cfg mem loc found st h = do {
     a \<leftarrow> endpoint_Address mem loc;
     n \<leftarrow> word_at mem (loc + 4);
     if a AND ENDPOINT_DESCRIPTOR_DIR_IN \<noteq> 0 then do {
       (_, h) \<leftarrow> Pipe_ConfigurePipe ok (DataINPipeNumber cfg) PIPE_EP_TYPE_INTERRUPT PIPE_TOKEN_IN a n
         (if DataINPipeDoubleBank cfg then PIPE_BANK_DOUBLE else PIPE_BANK_SINGLE) h;
       Some ((True, snd found), st\<lparr>DataINPipeSize := n\<rparr>, h) }
     else do {
       (_, h) \<leftarrow> Pipe_ConfigurePipe ok (DataOUTPipeNumber cfg) PIPE_EP_TYPE_INTERRUPT PIPE_TOKEN_OUT a n
         (if DataOUTPipeDoubleBank cfg then PIPE_BANK_DOUBLE else PIPE_BANK_SINGLE) h;
       Some ((fst found, True), st\<lparr>DataOUTPipeSize := n, DeviceUsesOUTPipe := True\<rparr>, h) } }"

text \<open>The loop over the endpoints; the pair says whether one for each direction has been found.\<close>

partial_function (option) endpoint_loop ::
    "cfgok \<Rightarrow> HID_Host_Config \<Rightarrow> u8 list \<Rightarrow> u16 \<Rightarrow> nat \<Rightarrow> bool \<times> bool \<Rightarrow> HID_Host_State \<Rightarrow> host \<Rightarrow>
      (HIDHost_EnumerationFailure \<times> HID_Host_State \<times> host) option" where
  "endpoint_loop ok cfg mem rem loc found st h =
     (if found = (True, True) then Some (HID_ENUMERROR_NoError, st, h)
      else do {
        (e, rem, loc, h) \<leftarrow> USB_GetNextDescriptorComp mem (DComp_HID_Host_NextHIDInterfaceEndpoint ok mem) rem loc h;
        if e \<noteq> DESCRIPTOR_SEARCH_COMP_Found then
          Some (if fst found then HID_ENUMERROR_NoError else HID_ENUMERROR_EndpointsNotFound, st, h)
        else do {
          (found, st, h) \<leftarrow> bind_endpoint ok cfg mem loc found st h;
          endpoint_loop ok cfg mem rem loc found st h } })"

definition HID_Host_ConfigurePipes ::
    "cfgok \<Rightarrow> HID_Host_Config \<Rightarrow> u16 \<Rightarrow> u8 list \<Rightarrow> host \<Rightarrow> (HIDHost_EnumerationFailure \<times> HID_Host_State \<times> host) option" where
  "HID_Host_ConfigurePipes ok cfg ConfigDescriptorSize mem h = do {
     let st = cleared_state;
     t \<leftarrow> DESCRIPTOR_TYPE mem 0;
     if t \<noteq> DTYPE_Configuration then Some (HID_ENUMERROR_InvalidConfigDescriptor, st, h)
     else do {
       (r, h) \<leftarrow> interface_loop mem (HIDInterfaceProtocol cfg) ConfigDescriptorSize 0 h;
       (case r of
          None \<Rightarrow> Some (HID_ENUMERROR_NoHIDInterfaceFound, st, h)
        | Some (rem, loc) \<Rightarrow> do {
            n \<leftarrow> byte_at mem (loc + 2);
            sub \<leftarrow> byte_at mem (loc + 6);
            let st = st\<lparr>HIDInterfaceNumber := n, SupportsBootProtocol := sub \<noteq> 0\<rparr>;
            (e, rem, loc, h) \<leftarrow> USB_GetNextDescriptorComp mem (DComp_NextHID mem) rem loc h;
            if e \<noteq> DESCRIPTOR_SEARCH_COMP_Found then Some (HID_ENUMERROR_NoHIDDescriptorFound, st, h)
            else do {
              l \<leftarrow> word_at mem (loc + 7);
              let st = st\<lparr>HIDReportSize := l\<rparr>;
              (e, st, h) \<leftarrow> endpoint_loop ok cfg mem rem loc (False, False) st h;
              Some (e, if e = HID_ENUMERROR_NoError then st\<lparr>LargestReportSize := 8, IsActive := True\<rparr> else st, h) } }) } }"

declare interface_loop.simps [code] endpoint_loop.simps [code]

end
