(* ===== verification/HostTransfer.thy ===== *)
theory HostTransfer
  imports HostControl
begin

text \<open>
  What a control request of the host transfers, for every behaviour of the hardware: the bytes in the buffer are
  those read from the pipe, the bytes written to it are the request and the buffer.
\<close>

section \<open>The bytes that pass the pipe\<close>

definition fifo_in :: "(hreg \<times> u16) list \<Rightarrow> u8 list" where
  "fifo_in rs = map (ucast \<circ> snd) (filter (\<lambda>(r, x). r = UPDATX) rs)"

definition fifo_out :: "(nat \<times> hreg \<times> u8) list \<Rightarrow> u8 list" where
  "fifo_out ws = map (snd \<circ> snd) (filter (\<lambda>(n, r, x). r = UPDATX) ws)"

lemma fifo_simps [simp]:
  "fifo_in [] = []" "fifo_in (rs @ qs) = fifo_in rs @ fifo_in qs"
  "fifo_in ((r, x) # rs) = (if r = UPDATX then [ucast x] else []) @ fifo_in rs"
  "fifo_out [] = []" "fifo_out (ws @ vs) = fifo_out ws @ fifo_out vs"
  "fifo_out ((n, r, b) # ws) = (if r = UPDATX then [b] else []) @ fifo_out ws"
  by (simp_all add: fifo_in_def fifo_out_def)

lemma byte_back: "ucast (ucast (b :: u8) :: u16) = b"
  by (rule bit_word_eqI) (simp add: bit_simps)

text \<open>The bytes the pipe will deliver, those written to it, and what a transfer leaves alone.\<close>

definition delivered :: "host \<Rightarrow> u8 list" where
  "delivered h = fifo_in (hreads h)"

definition written :: "host \<Rightarrow> u8 list" where
  "written h = fifo_out (hwrites h)"

definition still :: "host \<Rightarrow> USB_Request_Header_t \<times> u8 \<times> nat" where
  "still h = (HostRequest h, USB_ControlPipeSize h, UPNUM h)"

text \<open>Both are kept on the way from \<open>h\<close> to \<open>t\<close>, and \<open>t\<close> has fewer reads left (or not more).\<close>

definition calm :: "host \<Rightarrow> host \<Rightarrow> bool" where
  "calm h t \<longleftrightarrow> delivered t = delivered h \<and> written t = written h \<and> still t = still h"

lemma calm_hrd: "hrd r h = Some (x, t) \<Longrightarrow> r \<noteq> UPDATX \<Longrightarrow> calm h t \<and> length (hreads t) < length (hreads h)"
  by (auto simp: hrd_def calm_def delivered_def written_def still_def split: list.splits if_splits)

lemmas calm_reads = calm_hrd [of UPINTX, simplified] calm_hrd [of UPBCX, simplified] calm_hrd [of UHINT, simplified]
  calm_hrd [of HostLook, simplified]

lemma calm_updates [simp]:
  "calm h (on_pipe f t) = calm h t" "calm (on_pipe f h) t = calm h t"
  "calm h (t\<lparr>SOFEN := b\<rparr>) = calm h t" "calm (h\<lparr>SOFEN := b\<rparr>) t = calm h t"
  "calm h (t\<lparr>USB_HostState := st\<rparr>) = calm h t" "calm (h\<lparr>USB_HostState := st\<rparr>) t = calm h t"
  "r \<noteq> UPDATX \<Longrightarrow> calm h (hwr r x t) = calm h t" "r \<noteq> UPDATX \<Longrightarrow> calm (hwr r x h) t = calm h t"
  by (simp_all add: on_pipe_def hwr_def calm_def delivered_def written_def still_def)

lemma calm_refl [simp]: "calm h h"
  by (simp add: calm_def)

lemma calm_trans: "calm h t \<Longrightarrow> calm t u \<Longrightarrow> calm h u"
  by (simp add: calm_def)

text \<open>The accesses to the data register.\<close>

lemma read_view:
  "Pipe_Read_Byte h = Some (b, t) \<Longrightarrow> delivered h = b # delivered t \<and> written t = written h \<and> still t = still h"
  by (auto simp: Pipe_Read_Byte_def hrd_def delivered_def written_def still_def split: bind_splits list.splits if_splits)

lemma write_view [simp]:
  "delivered (Pipe_Write_Byte b h) = delivered h" "written (Pipe_Write_Byte b h) = written h @ [b]"
  "still (Pipe_Write_Byte b h) = still h"
  by (simp_all add: Pipe_Write_Byte_def hwr_def delivered_def written_def still_def)

lemma frame_view [simp]:
  "delivered (on_pipe f h) = delivered h" "written (on_pipe f h) = written h" "still (on_pipe f h) = still h"
  "delivered (h\<lparr>SOFEN := b\<rparr>) = delivered h" "written (h\<lparr>SOFEN := b\<rparr>) = written h" "still (h\<lparr>SOFEN := b\<rparr>) = still h"
  "r \<noteq> UPDATX \<Longrightarrow> delivered (hwr r x h) = delivered h" "r \<noteq> UPDATX \<Longrightarrow> written (hwr r x h) = written h"
  "r \<noteq> UPDATX \<Longrightarrow> still (hwr r x h) = still h"
  by (simp_all add: on_pipe_def hwr_def delivered_def written_def still_def)

lemmas frame_defs = Pipe_Unfreeze_def Pipe_Freeze_def Pipe_SetPipeToken_def Pipe_ClearErrorFlags_def
  USB_Host_ResumeBus_def USB_Host_SuspendBus_def

section \<open>Waits\<close>

lemma calm_wait_ms_loop: "wait_ms_loop n h = Some (e, t) \<Longrightarrow> calm h t"
proof (induction "length (hreads h)" arbitrary: n h rule: less_induct)
  case less
  have IH: "length (hreads u) < length (hreads h) \<longrightarrow> calm u t"
    if "wait_ms_loop m u = Some (e, t)" for m u
    using less.hyps [OF _ that] by auto
  from less.prems show ?case
    by (subst (asm) wait_ms_loop.simps, auto simp: pipe_defs Let_def dest!: calm_reads IH split: bind_splits if_splits)
      (auto simp: calm_def)
qed

lemma calm_WaitMS: "USB_Host_WaitMS n h = Some (e, t) \<Longrightarrow> calm h t"
  by (auto simp: USB_Host_WaitMS_def Let_def frame_defs dest!: calm_wait_ms_loop split: bind_splits if_splits)

lemma calm_arrived: "arrived w h = Some (b, t) \<Longrightarrow> calm h t"
  by (cases w) (auto simp: pipe_defs dest: calm_reads split: bind_splits)

lemma calm_wait_ios_loop: "wait_ios_loop w n h = Some (e, t) \<Longrightarrow> calm h t"
proof (induction "length (hreads h)" arbitrary: n h rule: less_induct)
  case less
  have IH: "length (hreads u) < length (hreads h) \<longrightarrow> calm u t"
    if "wait_ios_loop w m u = Some (e, t)" for m u
    using less.hyps [OF _ that] by auto
  have looks: "arrived w h = Some (b, u) \<Longrightarrow> calm h u \<and> length (hreads u) < length (hreads h)"
    "USB_Host_WaitMS 1 h = Some (d, u) \<Longrightarrow> calm h u \<and> length (hreads u) \<le> length (hreads h)" for b d h u
    by (simp_all add: calm_arrived arrived_less calm_WaitMS WaitMS_le)
  from less.prems show ?case
    by (subst (asm) wait_ios_loop.simps, auto dest!: looks IH split: bind_splits if_splits)
      (auto simp: calm_def)
qed

lemma calm_WaitForIOS: "USB_Host_WaitForIOS w h = Some (e, t) \<Longrightarrow> calm h t"
  by (simp add: USB_Host_WaitForIOS_def calm_wait_ios_loop)

section \<open>Reading\<close>

lemma take_bytes_view:
  assumes "take_bytes n got h = Some (m, got', t)"
  shows "\<exists>bs. got' = got @ bs \<and> delivered h = bs @ delivered t \<and> unat n = length bs + unat m \<and>
    written t = written h \<and> still t = still h"
  using assms
proof (induction "length (hreads h)" arbitrary: n got h rule: less_induct)
  case less
  obtain c u where u: "Pipe_BytesInPipe h = Some (c, u)"
    using less.prems by (subst (asm) take_bytes.simps) (auto split: bind_splits)
  then have calm: "calm h u" "length (hreads u) < length (hreads h)"
    by (auto simp: pipe_defs dest: calm_reads)
  show ?case
  proof (cases "c \<noteq> 0 \<and> n \<noteq> 0")
    case True
    then obtain b v where v: "Pipe_Read_Byte u = Some (b, v)" "take_bytes (n - 1) (got @ [b]) v = Some (m, got', t)"
      using less.prems u by (subst (asm) take_bytes.simps) (auto split: bind_splits)
    have "length (hreads v) < length (hreads u)"
      using v(1) by (auto simp: Pipe_Read_Byte_def dest: hrd_less split: bind_splits)
    with calm(2) have "length (hreads v) < length (hreads h)"
      by simp
    from less.hyps [OF this v(2)] obtain bs where bs: "got' = (got @ [b]) @ bs" "delivered v = bs @ delivered t"
        "unat (n - 1) = length bs + unat m" "written t = written v" "still t = still v"
      by blast
    moreover have "0 < unat n" "unat (n - 1) = unat n - 1"
      using True by (simp_all add: unat_gt_0 unat_minus_one)
    ultimately show ?thesis
      using read_view [OF v(1)] calm(1) by (intro exI [of _ "b # bs"]) (auto simp: calm_def)
  next
    case False
    then have "(n, got, u) = (m, got', t)"
      using less.prems u by (subst (asm) take_bytes.simps) (auto split: if_splits)
    with calm(1) show ?thesis
      by (intro exI [of _ "[]"]) (auto simp: calm_def)
  qed
qed

lemma in_stage_view:
  assumes "in_stage n got h = Some (e, got', t)"
  shows "\<exists>bs. got' = got @ bs \<and> delivered h = bs @ delivered t \<and> length bs \<le> unat n \<and>
    written t = written h \<and> still t = still h"
  using assms
proof (induction "length (hreads h)" arbitrary: n got h rule: less_induct)
  case less
  show ?case
  proof (cases "n = 0")
    case True
    with less.prems show ?thesis
      by (subst (asm) in_stage.simps) simp
  next
    case False
    then obtain r u where u: "USB_Host_WaitForIOS USB_HOST_WAITFOR_InReceived (Pipe_Unfreeze h) = Some (r, u)"
      using less.prems by (subst (asm) in_stage.simps) (auto split: bind_splits)
    have calm: "calm h u" "length (hreads u) < length (hreads h)"
      using calm_WaitForIOS [OF u] WaitForIOS_less [OF u] by (simp_all add: frame_defs)
    show ?thesis
    proof (cases "r = 0")
      case error: False
      with less.prems u False have "(r, got, u) = (e, got', t)"
        by (subst (asm) in_stage.simps) simp
      with calm(1) show ?thesis
        by (auto simp: calm_def)
    next
      case True
      with less.prems u False obtain c v m gs w x where v: "Pipe_BytesInPipe u = Some (c, v)"
          "take_bytes (if c = 0 then 0 else n) got v = Some (m, gs, w)" "Pipe_ClearIN (Pipe_Freeze w) = Some x"
          "in_stage m gs x = Some (e, got', t)"
        by (subst (asm) in_stage.simps) (auto simp: Let_def split: bind_splits)
      have "calm u v" "length (hreads v) < length (hreads u)" "calm w x" "length (hreads x) < length (hreads w)"
        using v(1,3) by (auto simp: pipe_defs frame_defs dest!: calm_reads split: bind_splits)
      moreover obtain bs where bs: "gs = got @ bs" "delivered v = bs @ delivered w"
          "unat (if c = 0 then 0 else n) = length bs + unat m" "written w = written v" "still w = still v"
        using take_bytes_view [OF v(2)] by blast
      moreover have "length (hreads w) < length (hreads v)"
        by (rule take_bytes_less [OF v(2)])
      ultimately have "length (hreads x) < length (hreads h)"
        using calm(2) by linarith
      from less.hyps [OF this v(4)] obtain cs where "got' = gs @ cs" "delivered x = cs @ delivered t"
          "length cs \<le> unat m" "written t = written x" "still t = still x"
        by blast
      with bs calm(1) \<open>calm u v\<close> \<open>calm w x\<close> show ?thesis
        by (intro exI [of _ "bs @ cs"]) (auto simp: calm_def split: if_splits)
    qed
  qed
qed

section \<open>Writing\<close>

lemma write_bytes_view [simp]:
  "written (write_bytes bs h) = written h @ bs" "delivered (write_bytes bs h) = delivered h"
  "still (write_bytes bs h) = still h"
  by (induction bs arbitrary: h) simp_all

lemma fill_bytes_view:
  assumes "fill_bytes n d h = Some (m, d', t)"
  shows "\<exists>k \<le> length d. d' = drop k d \<and> written t = written h @ take k d \<and> unat n = k + unat m \<and>
    delivered t = delivered h \<and> still t = still h"
  using assms
proof (induction d arbitrary: n h)
  case Nil
  then have "d' = [] \<and> m = n \<and> calm h t"
    by (subst (asm) fill_bytes.simps) (auto simp: pipe_defs dest: calm_reads split: bind_splits if_splits)
  then show ?case
    by (simp add: calm_def)
next
  case (Cons b bs)
  show ?case
  proof (cases "n = 0")
    case True
    with Cons.prems have "(n, b # bs, h) = (m, d', t)"
      by (subst (asm) fill_bytes.simps) simp
    then show ?thesis
      by (intro exI [of _ 0]) auto
  next
    case False
    then obtain c u where u: "Pipe_BytesInPipe h = Some (c, u)"
      using Cons.prems by (subst (asm) fill_bytes.simps) (auto split: bind_splits)
    then have calm: "calm h u"
      by (auto simp: pipe_defs dest: calm_reads)
    show ?thesis
    proof (cases "c < ucast (USB_ControlPipeSize u)")
      case True
      with False Cons.prems u have "fill_bytes (n - 1) bs (Pipe_Write_Byte b u) = Some (m, d', t)"
        by (subst (asm) fill_bytes.simps) simp
      from Cons.IH [OF this] obtain k where k: "k \<le> length bs" "d' = drop k bs" "written t = written u @ [b] @ take k bs"
          "unat (n - 1) = k + unat m" "delivered t = delivered u" "still t = still u"
        by auto
      have "0 < unat n" "unat (n - 1) = unat n - 1"
        using False by (simp_all add: unat_gt_0 unat_minus_one)
      with k calm show ?thesis
        by (intro exI [of _ "Suc k"]) (auto simp: calm_def)
    next
      case no: False
      with False Cons.prems u have "(n, b # bs, u) = (m, d', t)"
        by (subst (asm) fill_bytes.simps) simp
      with calm show ?thesis
        by (intro exI [of _ 0]) (auto simp: calm_def)
    qed
  qed
qed

lemma out_stage_view:
  assumes "out_stage n d h = Some (e, t)"
  shows "\<exists>k. k \<le> length d \<and> k \<le> unat n \<and> (e = 0 \<longrightarrow> k = unat n) \<and> written t = written h @ take k d \<and>
    delivered t = delivered h \<and> still t = still h"
  using assms
proof (induction "length (hreads h)" arbitrary: n d h rule: less_induct)
  case less
  show ?case
  proof (cases "n = 0")
    case True
    with less.prems have "t = h \<and> e = 0"
      by (subst (asm) out_stage.simps) simp
    with True show ?thesis
      by (intro exI [of _ 0]) simp
  next
    case False
    then obtain r u where u: "USB_Host_WaitForIOS USB_HOST_WAITFOR_OutReady h = Some (r, u)"
      using less.prems by (subst (asm) out_stage.simps) (auto split: bind_splits)
    have calm: "calm h u" "length (hreads u) < length (hreads h)"
      using calm_WaitForIOS [OF u] WaitForIOS_less [OF u] by simp_all
    show ?thesis
    proof (cases "r = 0")
      case error: False
      with less.prems u False have "(r, u) = (e, t)"
        by (subst (asm) out_stage.simps) simp
      with calm(1) error show ?thesis
        by (intro exI [of _ 0]) (auto simp: calm_def)
    next
      case True
      with less.prems u False obtain m d' w x where v:
          "fill_bytes n d u = Some (m, d', w)" "Pipe_ClearOUT w = Some x" "out_stage m d' x = Some (e, t)"
        by (subst (asm) out_stage.simps) (auto split: bind_splits)
      have x: "calm w x" "length (hreads x) < length (hreads w)"
        using v(2) by (auto simp: pipe_defs dest!: calm_reads split: bind_splits)
      obtain k where k: "k \<le> length d" "d' = drop k d" "written w = written u @ take k d" "unat n = k + unat m"
          "delivered w = delivered u" "still w = still u"
        using fill_bytes_view [OF v(1)] by blast
      have "length (hreads x) < length (hreads h)"
        using fill_bytes_le [OF v(1)] calm(2) x(2) by linarith
      from less.hyps [OF this v(3)] obtain j where "j \<le> length d'" "j \<le> unat m" "e = 0 \<longrightarrow> j = unat m"
          "written t = written x @ take j d'" "delivered t = delivered x" "still t = still x"
        by blast
      with k calm(1) x(1) show ?thesis
        by (intro exI [of _ "k + j"]) (auto simp: calm_def take_add)
    qed
  qed
qed

section \<open>The whole request\<close>

lemma calm_clears:
  "Pipe_ClearSETUP h = Some t \<Longrightarrow> calm h t" "Pipe_ClearOUT h = Some t \<Longrightarrow> calm h t" "Pipe_ClearIN h = Some t \<Longrightarrow> calm h t"
  by (auto simp: pipe_defs dest!: calm_reads split: bind_splits)

lemma setup_stage_view:
  assumes "setup_stage h = Some (e, t)"
  shows "\<exists>sent. written t = written h @ sent \<and> (sent = header_bytes (HostRequest h) \<or> sent = [] \<and> e \<noteq> 0) \<and>
    delivered t = delivered h \<and> still t = still h"
proof -
  obtain r u where u: "USB_Host_WaitMS 1 h = Some (r, u)"
    using assms by (auto simp: setup_stage_def split: bind_splits)
  note calm = calm_WaitMS [OF u]
  show ?thesis
  proof (cases "r = 0")
    case False
    with assms u have "(r, u) = (e, t)"
      by (simp add: setup_stage_def)
    with calm False show ?thesis
      by (intro exI [of _ "[]"]) (auto simp: calm_def)
  next
    case True
    let ?v = "Pipe_Unfreeze (Pipe_ClearErrorFlags (Pipe_SetPipeToken PIPE_TOKEN_SETUP u))"
    obtain w s x where w: "Pipe_ClearSETUP (write_bytes (header_bytes (HostRequest ?v)) ?v) = Some w"
        "USB_Host_WaitForIOS USB_HOST_WAITFOR_SetupSent w = Some (s, x)"
        "if s \<noteq> 0 then (e, t) = (s, x) else USB_Host_WaitMS 1 (Pipe_Freeze x) = Some (e, t)"
      using assms u True by (auto simp: setup_stage_def Let_def split: bind_splits if_splits)
    have "calm x t"
      using w(3) calm_WaitMS [of 1 "Pipe_Freeze x"] by (auto simp: frame_defs split: if_splits)
    moreover have v: "delivered ?v = delivered u" "written ?v = written u" "still ?v = still u"
      by (simp_all add: frame_defs)
    moreover have "HostRequest ?v = HostRequest h"
      using calm v(3) by (simp add: calm_def still_def)
    ultimately show ?thesis
      using calm_clears(1) [OF w(1)] calm_WaitForIOS [OF w(2)] calm
      by (intro exI [of _ "header_bytes (HostRequest h)"]) (simp add: calm_def)
  qed
qed

lemma reading_stages_view:
  assumes "reading_stages b h = Some (e, got, t)"
  shows "delivered h = got @ delivered t \<and> length got \<le> unat (wLength (HostRequest h)) \<and>
    written t = written h \<and> still t = still h"
proof -
  let ?h = "Pipe_SetPipeToken PIPE_TOKEN_IN h"
  obtain r gs u where u: "(if b then in_stage (wLength (HostRequest ?h)) [] ?h else Some (0, [], ?h)) = Some (r, gs, u)"
    using assms by (auto simp: reading_stages_def Let_def split: bind_splits)
  have same: "delivered ?h = delivered h" "written ?h = written h" "still ?h = still h"
      "wLength (HostRequest ?h) = wLength (HostRequest h)"
    by (simp_all add: frame_defs on_pipe_def delivered_def written_def still_def)
  have data: "delivered h = gs @ delivered u" "length gs \<le> unat (wLength (HostRequest h))" "written u = written h"
      "still u = still h"
    using u in_stage_view [of "wLength (HostRequest h)" "[]" ?h r gs u] same by (auto split: if_splits)
  have "calm u t" and "got = gs"
    using assms u
    by (auto simp: reading_stages_def reading_status_def Let_def frame_defs dest!: calm_WaitForIOS calm_clears split: bind_splits if_splits)
      (auto simp: calm_def)
  with data show ?thesis
    by (simp add: calm_def)
qed

lemma writing_data_view:
  assumes "writing_data bs h = Some (e, t)"
  shows "\<exists>k. k \<le> length bs \<and> k \<le> unat (wLength (HostRequest h)) \<and> (e = 0 \<longrightarrow> k = unat (wLength (HostRequest h))) \<and>
    written t = written h @ take k bs \<and> delivered t = delivered h \<and> still t = still h"
proof -
  let ?h = "Pipe_Unfreeze (Pipe_SetPipeToken PIPE_TOKEN_OUT h)"
  obtain r u where u: "out_stage (wLength (HostRequest ?h)) bs ?h = Some (r, u)"
    using assms by (auto simp: writing_data_def Let_def split: bind_splits)
  have same: "delivered ?h = delivered h" "written ?h = written h" "still ?h = still h"
      "wLength (HostRequest ?h) = wLength (HostRequest h)"
    by (simp_all add: frame_defs on_pipe_def delivered_def written_def still_def)
  have "calm u t" and "e = 0 \<longrightarrow> r = 0"
    using assms u
    by (auto simp: writing_data_def Let_def frame_defs dest!: calm_WaitForIOS split: bind_splits if_splits)
  with out_stage_view [OF u] same show ?thesis
    by (auto simp: calm_def)
qed

lemma writing_stages_view:
  assumes "writing_stages d h = Some (e, t)"
  shows "\<exists>k. k \<le> (case d of None \<Rightarrow> 0 | Some bs \<Rightarrow> min (length bs) (unat (wLength (HostRequest h)))) \<and>
    (e = 0 \<and> d \<noteq> None \<longrightarrow> k = unat (wLength (HostRequest h))) \<and>
    written t = written h @ take k (the d) \<and> delivered t = delivered h \<and> still t = still h"
proof -
  obtain r u where u: "(case d of None \<Rightarrow> Some (0, h) | Some bs \<Rightarrow> writing_data bs h) = Some (r, u)"
    using assms by (auto simp: writing_stages_def split: bind_splits)
  have "calm u t" and "e = 0 \<longrightarrow> r = 0"
    using assms u
    by (auto simp: writing_stages_def Let_def frame_defs dest!: calm_WaitForIOS calm_clears split: bind_splits if_splits)
      (auto simp: calm_def)
  with u writing_data_view [of "the d" h r u] show ?thesis
    by (cases d) (auto simp: calm_def)
qed

lemma direction_bit: "(x AND 0x80 = (0x80 :: u8)) = bit x 7"
proof
  assume "x AND 0x80 = 0x80"
  from arg_cong [OF this, of "\<lambda>w. bit w 7"] show "bit x 7"
    by (simp add: bit_and_iff)
next
  have "bit (0x80 :: u8) n \<longleftrightarrow> n = 7" for n
    using bit_exp_iff [of 7 n, where ?'a = "8 word"] by auto
  then show "x AND 0x80 = 0x80" if "bit x 7"
    using that by (intro bit_word_eqI) (auto simp only: bit_and_iff)
qed

lemma send_view:
  assumes "USB_Host_SendControlRequest buf h = Some (e, buf', t)"
  obtains got u where "control_stages buf h = Some (e, got, u)" "stored buf got = Some buf'" "calm u t"
  using assms
  by (auto simp: USB_Host_SendControlRequest_def Let_def frame_defs Pipe_ResetPipe_def split: bind_splits)

text \<open>what a control request that reads stores, whatever the hardware does\<close>

lemma control_in_view:
  assumes "USB_Host_SendControlRequest buf h = Some (e, buf', t)" and "bit (bmRequestType (HostRequest h)) 7"
  shows "\<exists>got sent. delivered h = got @ delivered t \<and> length got \<le> unat (wLength (HostRequest h)) \<and>
    buf' = map_option (\<lambda>bs. got @ drop (length got) bs) buf \<and>
    written t = written h @ sent \<and> (sent = header_bytes (HostRequest h) \<or> sent = [] \<and> e \<noteq> 0)"
proof -
  obtain got u where u: "control_stages buf h = Some (e, got, u)" "stored buf got = Some buf'" "calm u t"
    by (rule send_view [OF assms(1)])
  obtain s v where v: "setup_stage (USB_Host_ResumeBus h) = Some (s, v)"
    using u(1) by (auto simp: control_stages_def split: bind_splits)
  have same: "delivered (USB_Host_ResumeBus h) = delivered h" "written (USB_Host_ResumeBus h) = written h"
      "still (USB_Host_ResumeBus h) = still h" "HostRequest (USB_Host_ResumeBus h) = HostRequest h"
    by (simp_all add: frame_defs) 
  from setup_stage_view [OF v] obtain sent where sent: "written v = written h @ sent"
      "sent = header_bytes (HostRequest h) \<or> sent = [] \<and> s \<noteq> 0" "delivered v = delivered h" "still v = still h"
    unfolding same by blast
  then have request: "HostRequest v = HostRequest h"
    by (simp add: still_def)
  have "delivered v = got @ delivered u \<and> length got \<le> unat (wLength (HostRequest v)) \<and> written u = written v \<and>
      (s \<noteq> 0 \<longrightarrow> e = s)"
    using u(1) v request assms(2) reading_stages_view [of "buf \<noteq> None" v e got u]
    by (auto simp: control_stages_def direction_bit split: if_splits)
  moreover have "buf' = map_option (\<lambda>bs. got @ drop (length got) bs) buf"
    using u(2) by (auto simp: stored_def split: option.splits if_splits)
  ultimately show ?thesis
    using sent u(3) request by (intro exI [of _ got] exI [of _ sent]) (auto simp: calm_def)
qed

lemma control_out_view:
  assumes "USB_Host_SendControlRequest buf h = Some (0, buf', t)" and "\<not> bit (bmRequestType (HostRequest h)) 7"
  shows "written t = written h @ header_bytes (HostRequest h) @
      (case buf of None \<Rightarrow> [] | Some bs \<Rightarrow> take (unat (wLength (HostRequest h))) bs) \<and>
    (\<forall>bs. buf = Some bs \<longrightarrow> unat (wLength (HostRequest h)) \<le> length bs) \<and>
    buf' = buf \<and> delivered t = delivered h \<and> HostRequest t = HostRequest h"
proof -
  obtain got u where u: "control_stages buf h = Some (0, got, u)" "stored buf got = Some buf'" "calm u t"
    by (rule send_view [OF assms(1)])
  obtain s v where v: "setup_stage (USB_Host_ResumeBus h) = Some (s, v)"
    using u(1) by (auto simp: control_stages_def split: bind_splits)
  have same: "delivered (USB_Host_ResumeBus h) = delivered h" "written (USB_Host_ResumeBus h) = written h"
      "still (USB_Host_ResumeBus h) = still h" "HostRequest (USB_Host_ResumeBus h) = HostRequest h"
    by (simp_all add: frame_defs)
  from setup_stage_view [OF v] have sent: "s = 0 \<longrightarrow> written v = written h @ header_bytes (HostRequest h)"
      "delivered v = delivered h" "still v = still h"
    unfolding same by auto
  then have request: "HostRequest v = HostRequest h"
    by (simp add: still_def)
  then have out: "s = 0" "writing_stages buf v = Some (0, u)" "got = []"
    using u(1) v assms(2) by (auto simp: control_stages_def direction_bit split: if_splits bind_splits)
  have "written u = written v @ (case buf of None \<Rightarrow> [] | Some bs \<Rightarrow> take (unat (wLength (HostRequest h))) bs)"
      "\<forall>bs. buf = Some bs \<longrightarrow> unat (wLength (HostRequest h)) \<le> length bs" "delivered u = delivered v" "still u = still v"
    using writing_stages_view [OF out(2)] request by (auto split: option.splits)
  moreover have "buf' = buf"
    using u(2) out(3) by (auto simp: stored_def split: option.splits)
  ultimately show ?thesis
    using sent out(1) u(3) by (auto simp: calm_def still_def)
qed

text \<open>C28: a control request that writes, whatever the hardware does: when it succeeds, the host has written to the
  pipe the eight bytes of the request and then exactly the first bytes of its buffer, as many as the request says;
  no byte has been read.\<close>

theorem control_out_bytes:
  assumes "USB_Host_SendControlRequest buf h = Some (0, buf', t)" and "\<not> bit (bmRequestType (HostRequest h)) 7"
  shows "written t = written h @ header_bytes (HostRequest h) @
      (case buf of None \<Rightarrow> [] | Some bs \<Rightarrow> take (unat (wLength (HostRequest h))) bs) \<and>
    (\<forall>bs. buf = Some bs \<longrightarrow> unat (wLength (HostRequest h)) \<le> length bs) \<and>
    buf' = buf \<and> delivered t = delivered h \<and> HostRequest t = HostRequest h"
  by (rule control_out_view [OF assms])

text \<open>A host that sends two bytes to a report of an interface, and the reads this takes.\<close>

definition writing_host :: host where
  "writing_host = \<lparr>pipes = replicate PIPE_TOTAL_PIPES \<lparr>UPCONX = 0, UPCFG0X = 0, UPCFG1X = 0\<rparr>, UPNUM = 0,
     hreads = (let frame = [(UHINT, 0x20), (UHINT, 0x20), (HostLook, 0), (UPINTX, 0), (UPINTX, 0)]
       in frame @ [(UPINTX, 8), (UPINTX, 8)] @ frame @ [(UPINTX, 4), (UPBCX, 0), (UPBCX, 1), (UPINTX, 4), (UPINTX, 4), (UPINTX, 1), (UPINTX, 1)]),
     hwrites = [], SOFEN = True, USB_HostState = HOST_STATE_Configured, USB_ControlPipeSize = 8,
     HostRequest = \<lparr>bmRequestType = 0x21, bRequest = 9, wValue = 0x0200, wIndex = 0, wLength = 2\<rparr>\<rparr>"

lemmas once = wait_ms_loop.simps [of 1] wait_ms_loop.simps [of 0] wait_ios_loop.simps [of _ 1000]
  out_stage.simps [of 2] out_stage.simps [of 0] fill_bytes.simps [of 2] fill_bytes.simps [of 1] fill_bytes.simps [of 0]

theorem control_out_bytes_witness:
  "\<exists>t. USB_Host_SendControlRequest (Some [7, 9, 11]) writing_host = Some (0, Some [7, 9, 11], t) \<and>
    written t = [0x21, 9, 0, 2, 0, 0, 2, 0, 7, 9]"
proof -
  have "\<exists>t. USB_Host_SendControlRequest (Some [7, 9, 11]) writing_host = Some (0, Some [7, 9, 11], t)"
    by (simp add: writing_host_def USB_Host_SendControlRequest_def control_stages_def setup_stage_def writing_stages_def
      writing_data_def USB_Host_WaitMS_def USB_Host_WaitForIOS_def USB_Host_IsBusSuspended_def once pipe_defs frame_defs
      stored_def header_bytes_def Pipe_Write_Byte_def hrd_def hwr_def on_pipe_def bit_simps Let_def)
  then obtain t where "USB_Host_SendControlRequest (Some [7, 9, 11]) writing_host = Some (0, Some [7, 9, 11], t)"
    by blast
  from control_out_bytes [OF this] this show ?thesis
    by (auto simp: writing_host_def header_bytes_def written_def)
qed

end
