(* ===== verification/HostStreams.thy ===== *)
theory HostStreams
  imports HostTransfer ClassHost
begin

text \<open>
  What the streams of the host transfer: a stream that reads returns the bytes its pipe delivers, one that
  writes has written its data, whatever the hardware does; nothing else touches the data register.
\<close>

section \<open>Streams that read\<close>

lemma calm_pipe_wait: "pipe_wait_loop n h = Some (e, t) \<Longrightarrow> calm h t"
proof (induction "length (hreads h)" arbitrary: n h rule: less_induct)
  case less
  have IH: "length (hreads u) < length (hreads h) \<longrightarrow> calm u t"
    if "pipe_wait_loop m u = Some (e, t)" for m u
    using less.hyps [OF _ that] by auto
  from less.prems show ?case
    by (subst (asm) pipe_wait_loop.simps, auto simp: pipe_defs Let_def dest!: calm_reads IH split: bind_splits if_splits)
      (auto simp: calm_def)
qed

lemma calm_WaitUntilReady: "Pipe_WaitUntilReady h = Some (e, t) \<Longrightarrow> calm h t"
  by (simp add: Pipe_WaitUntilReady_def calm_pipe_wait)

lemma pipe_read_loop_view:
  assumes "pipe_read_loop n got h = Some (e, got', t)"
  shows "\<exists>bs. got' = got @ bs \<and> delivered h = bs @ delivered t \<and> length bs \<le> unat n \<and> (e = 0 \<longrightarrow> length bs = unat n) \<and>
    written t = written h \<and> HostRequest t = HostRequest h"
  using assms
proof (induction "length (hreads h)" arbitrary: n got h rule: less_induct)
  case less
  show ?case
  proof (cases "n = 0")
    case True
    with less.prems show ?thesis
      by (subst (asm) pipe_read_loop.simps) simp
  next
    case False
    then obtain ok u where u: "Pipe_IsReadWriteAllowed h = Some (ok, u)"
      using less.prems by (subst (asm) pipe_read_loop.simps) (auto split: bind_splits)
    then have calm: "calm h u" "length (hreads u) < length (hreads h)"
      by (auto simp: pipe_defs dest!: calm_reads split: bind_splits)
    show ?thesis
    proof (cases ok)
      case True
      with less.prems u False obtain b v where v: "Pipe_Read_Byte u = Some (b, v)" "pipe_read_loop (n - 1) (got @ [b]) v = Some (e, got', t)"
        by (subst (asm) pipe_read_loop.simps) (auto split: bind_splits)
      have "length (hreads v) < length (hreads h)"
        using v(1) calm(2) by (auto simp: Pipe_Read_Byte_def dest!: hrd_less split: bind_splits)
      from less.hyps [OF this v(2)] obtain bs where bs: "got' = (got @ [b]) @ bs" "delivered v = bs @ delivered t"
          "length bs \<le> unat (n - 1)" "e = 0 \<longrightarrow> length bs = unat (n - 1)" "written t = written v" "HostRequest t = HostRequest v"
        by blast
      moreover have "0 < unat n" "unat (n - 1) = unat n - 1"
        using False by (simp_all add: unat_gt_0 unat_minus_one)
      ultimately show ?thesis
        using read_view [OF v(1)] calm(1) by (intro exI [of _ "b # bs"]) (auto simp: calm_def still_def)
    next
      case no: False
      with less.prems u False obtain v r w where v: "Pipe_ClearIN u = Some v" "Pipe_WaitUntilReady v = Some (r, w)"
          "if r \<noteq> 0 then (e, got', t) = (r, got, w) else pipe_read_loop n got w = Some (e, got', t)"
        by (subst (asm) pipe_read_loop.simps) (auto split: bind_splits if_splits)
      have w: "calm h w" "length (hreads w) < length (hreads h)"
        using calm v(1,2) calm_WaitUntilReady [OF v(2)] Pipe_WaitUntilReady_less [OF v(2)]
        by (auto simp: pipe_defs dest!: calm_reads split: bind_splits) (auto simp: calm_def)
      show ?thesis
      proof (cases "r = 0")
        case True
        with v(3) have "pipe_read_loop n got w = Some (e, got', t)"
          by simp
        from less.hyps [OF w(2) this] w(1) show ?thesis
          by (auto simp: calm_def still_def)
      next
        case False
        with v(3) w(1) show ?thesis
          by (auto simp: calm_def still_def)
      qed
    qed
  qed
qed

lemma read_stream_view:
  assumes "Pipe_Read_Stream_LE n h = Some (e, bs, t)"
  shows "delivered h = bs @ delivered t" "length bs \<le> unat n" "e = 0 \<longrightarrow> length bs = unat n" "written t = written h"
proof -
  obtain r u where u: "Pipe_WaitUntilReady (Pipe_SetPipeToken PIPE_TOKEN_IN h) = Some (r, u)"
      "if r \<noteq> 0 then (e, bs, t) = (r, [], u) else pipe_read_loop n [] u = Some (e, bs, t)"
    using assms by (auto simp: Pipe_Read_Stream_LE_def pipe_stream_read_def Let_def split: bind_splits if_splits)
  have "calm h u"
    using calm_WaitUntilReady [OF u(1)] by (simp add: frame_defs)
  moreover have "bs = [] \<and> t = u \<and> e \<noteq> 0 \<or> delivered u = bs @ delivered t \<and> length bs \<le> unat n \<and>
      (e = 0 \<longrightarrow> length bs = unat n) \<and> written t = written u"
    using u(2) pipe_read_loop_view [of n "[]" u e bs t] by (auto split: if_splits)
  ultimately show "delivered h = bs @ delivered t" "length bs \<le> unat n" "e = 0 \<longrightarrow> length bs = unat n" "written t = written h"
    by (auto simp: calm_def)
qed

lemma calm_attached: "attached st h = Some (ok, u) \<Longrightarrow> calm h u"
  by (auto simp: attached_def pipe_defs Let_def dest!: calm_reads split: bind_splits if_splits)

section \<open>Streams that write\<close>

text \<open>No byte passes on the way from \<open>h\<close> to \<open>t\<close>; another pipe may be selected.\<close>

definition quiet :: "host \<Rightarrow> host \<Rightarrow> bool" where
  "quiet h t \<longleftrightarrow> delivered t = delivered h \<and> written t = written h"

lemma quiet_same [simp]: "quiet h h"
  by (simp add: quiet_def)

lemma quiet_steps: "quiet h t \<Longrightarrow> quiet t u \<Longrightarrow> quiet h u"
  by (simp add: quiet_def)

lemma calm_quiet: "calm h t \<Longrightarrow> quiet h t"
  by (simp add: calm_def quiet_def)

lemma pipe_views [simp]:
  "delivered (in_pipe n h) = delivered h" "written (in_pipe n h) = written h" "USB_HostState (in_pipe n h) = USB_HostState h"
  "delivered (use_pipe n h) = delivered h" "written (use_pipe n h) = written h" "USB_HostState (use_pipe n h) = USB_HostState h"
  "delivered (Pipe_Freeze h) = delivered h" "written (Pipe_Freeze h) = written h" "USB_HostState (Pipe_Freeze h) = USB_HostState h"
  by (simp_all add: in_pipe_def use_pipe_def Pipe_SelectPipe_def Pipe_Unfreeze_def Pipe_Freeze_def Pipe_SetPipeToken_def on_pipe_def
      delivered_def written_def)

lemma quiet_updates [simp]:
  "quiet h (on_pipe f t) = quiet h t" "quiet (on_pipe f h) t = quiet h t"
  "quiet h (Pipe_SelectPipe n t) = quiet h t" "quiet (Pipe_SelectPipe n h) t = quiet h t"
  "quiet h (use_pipe n t) = quiet h t" "quiet (use_pipe n h) t = quiet h t"
  "quiet h (Pipe_Freeze t) = quiet h t" "quiet (Pipe_Freeze h) t = quiet h t"
  by (simp_all add: quiet_def use_pipe_def Pipe_SelectPipe_def Pipe_Unfreeze_def Pipe_Freeze_def on_pipe_def delivered_def written_def)

lemma quiet_views: "quiet h t \<Longrightarrow> delivered t = delivered h \<and> written t = written h"
  by (simp add: quiet_def)

lemma pipe_write_loop_view:
  assumes "pipe_write_loop d n h = Some (e, t)"
  shows "\<exists>k \<le> unat n. written t = written h @ take k d \<and> delivered t = delivered h \<and> (e = 0 \<longrightarrow> k = unat n \<and> k \<le> length d)"
  using assms
proof (induction "length (hreads h)" arbitrary: d n h rule: less_induct)
  case less
  show ?case
  proof (cases "n = 0")
    case True
    with less.prems show ?thesis
      by (subst (asm) pipe_write_loop.simps) simp
  next
    case False
    then obtain ok u where u: "Pipe_IsReadWriteAllowed h = Some (ok, u)"
      using less.prems by (subst (asm) pipe_write_loop.simps) (auto split: bind_splits)
    then have calm: "calm h u" "length (hreads u) < length (hreads h)"
      by (auto simp: pipe_defs dest!: calm_reads split: bind_splits)
    show ?thesis
    proof (cases ok)
      case True
      with less.prems u False obtain b bs where b: "d = b # bs" "pipe_write_loop bs (n - 1) (Pipe_Write_Byte b u) = Some (e, t)"
        by (subst (asm) pipe_write_loop.simps) (auto split: bind_splits list.splits)
      have "length (hreads (Pipe_Write_Byte b u)) < length (hreads h)"
        using calm(2) by simp
      from less.hyps [OF this b(2)] obtain k where k: "k \<le> unat (n - 1)" "written t = written (Pipe_Write_Byte b u) @ take k bs"
          "delivered t = delivered (Pipe_Write_Byte b u)" "e = 0 \<longrightarrow> k = unat (n - 1) \<and> k \<le> length bs"
        by blast
      moreover have "0 < unat n" "unat (n - 1) = unat n - 1"
        using False by (simp_all add: unat_gt_0 unat_minus_one)
      ultimately show ?thesis
        using calm(1) b(1) by (intro exI [of _ "Suc k"]) (auto simp: calm_def)
    next
      case no: False
      with less.prems u False obtain v r w where v: "Pipe_ClearOUT u = Some v" "Pipe_WaitUntilReady v = Some (r, w)"
          "if r \<noteq> 0 then (e, t) = (r, w) else pipe_write_loop d n w = Some (e, t)"
        by (subst (asm) pipe_write_loop.simps) (auto split: bind_splits if_splits)
      have w: "calm h w" "length (hreads w) < length (hreads h)"
        using calm v(1,2) calm_WaitUntilReady [OF v(2)] Pipe_WaitUntilReady_less [OF v(2)]
        by (auto simp: pipe_defs dest!: calm_reads split: bind_splits) (auto simp: calm_def)
      show ?thesis
      proof (cases "r = 0")
        case True
        with v(3) have "pipe_write_loop d n w = Some (e, t)"
          by simp
        from less.hyps [OF w(2) this] w(1) show ?thesis
          by (auto simp: calm_def)
      next
        case False
        with v(3) w(1) show ?thesis
          by (auto simp: calm_def intro: exI [of _ 0])
      qed
    qed
  qed
qed

lemma write_stream_view:
  assumes "Pipe_Write_Stream_LE d n h = Some (e, t)"
  shows "\<exists>k \<le> unat n. written t = written h @ take k d \<and> delivered t = delivered h \<and> (e = 0 \<longrightarrow> k = unat n \<and> k \<le> length d)"
proof -
  obtain r u where u: "Pipe_WaitUntilReady (Pipe_SetPipeToken PIPE_TOKEN_OUT h) = Some (r, u)"
      "if r \<noteq> 0 then (e, t) = (r, u) else pipe_write_loop d n u = Some (e, t)"
    using assms by (auto simp: Pipe_Write_Stream_LE_def pipe_stream_write_def Let_def split: bind_splits if_splits)
  have "calm h u"
    using calm_WaitUntilReady [OF u(1)] by (simp add: frame_defs)
  with u(2) show ?thesis
    using pipe_write_loop_view [of d n u e t] by (auto simp: calm_def split: if_splits intro: exI [of _ 0])
qed

lemma write_stream_ok:
  assumes "Pipe_Write_Stream_LE d n h = Some (0, t)"
  shows "written t = written h @ take (unat n) d" "delivered t = delivered h" "unat n \<le> length d"
  using write_stream_view [OF assms] by auto

lemma read_stream_ok:
  assumes "Pipe_Read_Stream_LE n h = Some (0, bs, t)"
  shows "delivered h = bs @ delivered t" "length bs = unat n" "written t = written h"
  using read_stream_view [OF assms] by simp_all

section \<open>Waits of the class drivers\<close>

lemma quiet_clear: "Pipe_ClearIN h = Some t \<Longrightarrow> quiet h t" "Pipe_ClearOUT h = Some t \<Longrightarrow> quiet h t"
  by (auto simp: pipe_defs dest!: calm_reads calm_quiet split: bind_splits) (auto simp: calm_def quiet_def)

lemma data_wait_quiet: "data_wait b cfg n h = Some (0, t) \<Longrightarrow> quiet h t"
proof (induction "length (hreads h)" arbitrary: n h rule: less_induct)
  case less
  have IH: "length (hreads u) < length (hreads h) \<longrightarrow> quiet u t"
    if "data_wait b cfg m u = Some (0, t)" for m u
    using less.hyps [OF _ that] by auto
  from less.prems show ?case
    by (subst (asm) data_wait.simps, auto simp: pipe_defs Let_def use_pipe_def Pipe_SelectPipe_def frame_defs
        dest!: calm_reads IH split: bind_splits if_splits)
      (auto simp: calm_def quiet_def delivered_def written_def on_pipe_def hwr_def)
qed

lemma taken_wait_quiet: "taken_wait h = Some (e, t) \<Longrightarrow> quiet h t"
proof (induction "length (hreads h)" arbitrary: h rule: less_induct)
  case less
  have IH: "length (hreads u) < length (hreads h) \<longrightarrow> quiet u t" if "taken_wait u = Some (e, t)" for u
    using less.hyps [OF _ that] by auto
  from less.prems show ?case
    by (subst (asm) taken_wait.simps, auto simp: pipe_defs Let_def dest!: calm_reads IH split: bind_splits if_splits)
      (auto simp: calm_def quiet_def delivered_def written_def)
qed

section \<open>Streams with a device that is ready\<close>

text \<open>The state after reads \<open>rs\<close> are left and the bytes \<open>d\<close> have been written.\<close>

definition after :: "(hreg \<times> u16) list \<Rightarrow> u8 list \<Rightarrow> host \<Rightarrow> host" where
  "after rs d h = h\<lparr>hreads := rs, hwrites := hwrites h @ map (\<lambda>b. (UPNUM h, UPDATX, b)) d\<rparr>"

lemma after_fields [simp]:
  "hreads (after rs d h) = rs" "UPNUM (after rs d h) = UPNUM h" "pipes (after rs d h) = pipes h" "SOFEN (after rs d h) = SOFEN h"
  "USB_HostState (after rs d h) = USB_HostState h" "HostRequest (after rs d h) = HostRequest h"
  by (simp_all add: after_def)

abbreviation (input) "written_reads n \<equiv> replicate n (UPINTX, 0x20 :: u16)"

abbreviation (input) "delivered_reads bs \<equiv> concat (map (\<lambda>b :: u8. [(UPINTX, 0x20 :: u16), (UPDATX, ucast b)]) bs)"

lemma write_loop_runs:
  assumes "length d < 2 ^ 16" "hreads h = written_reads (length d) @ rs"
  shows "pipe_write_loop (d @ x) (of_nat (length d)) h = Some (0, after rs d h)"
  using assms
proof (induction d arbitrary: h)
  case Nil
  then show ?case
    by (subst pipe_write_loop.simps) (simp add: after_def)
next
  case (Cons b d)
  let ?u = "Pipe_Write_Byte b (h\<lparr>hreads := written_reads (length d) @ rs\<rparr>)"
  have "(of_nat (length (b # d)) :: u16) \<noteq> 0"
    using Cons.prems(1) of_nat_u16 by (metis length_0_conv list.distinct(1))
  moreover have "pipe_write_loop (d @ x) (of_nat (length d)) ?u = Some (0, after rs d ?u)"
    using Cons.prems by (intro Cons.IH) simp_all
  moreover have "after rs d ?u = after rs (b # d) h"
    by (simp add: after_def Pipe_Write_Byte_def hwr_def)
  ultimately show ?case
    using Cons.prems(2) by (subst pipe_write_loop.simps) (simp add: pipe_defs hrd_def bit_simps)
qed

lemma read_loop_runs:
  assumes "length d < 2 ^ 16" "hreads h = delivered_reads d @ rs"
  shows "pipe_read_loop (of_nat (length d)) got h = Some (0, got @ d, after rs [] h)"
  using assms
proof (induction d arbitrary: h got)
  case Nil
  then show ?case
    by (subst pipe_read_loop.simps) (simp add: after_def)
next
  case (Cons b d)
  let ?u = "h\<lparr>hreads := delivered_reads d @ rs\<rparr>"
  have "(of_nat (length (b # d)) :: u16) \<noteq> 0"
    using Cons.prems(1) of_nat_u16 by (metis length_0_conv list.distinct(1))
  moreover have "pipe_read_loop (of_nat (length d)) (got @ [b]) ?u = Some (0, (got @ [b]) @ d, after rs [] ?u)"
    using Cons.prems by (intro Cons.IH) simp_all
  moreover have "after rs [] ?u = after rs [] h"
    by (simp add: after_def)
  ultimately show ?case
    using Cons.prems(2) by (subst pipe_read_loop.simps) (simp add: pipe_defs hrd_def bit_simps byte_back)
qed

text \<open>The token of the selected pipe.\<close>

lemma token_set: "UPNUM h < length (pipes h) \<Longrightarrow> t \<in> {PIPE_TOKEN_IN, PIPE_TOKEN_OUT} \<Longrightarrow> Pipe_GetPipeToken (Pipe_SetPipeToken t h) = t"
  by (auto simp: Pipe_GetPipeToken_def Pipe_SetPipeToken_def on_pipe_def bit.conj_disj_distrib2 and.assoc)

lemma wait_ready_in:
  "Pipe_GetPipeToken h = PIPE_TOKEN_IN \<Longrightarrow> hreads h = (UPINTX, x) # rs \<Longrightarrow> bit x 0 \<Longrightarrow>
    Pipe_WaitUntilReady h = Some (0, h\<lparr>hreads := rs\<rparr>)"
  by (simp add: Pipe_WaitUntilReady_def pipe_wait_loop.simps [of 100] pipe_defs hrd_def)

lemma wait_ready_out:
  "Pipe_GetPipeToken h = PIPE_TOKEN_OUT \<Longrightarrow> hreads h = (UPINTX, x) # rs \<Longrightarrow> bit x 2 \<Longrightarrow>
    Pipe_WaitUntilReady h = Some (0, h\<lparr>hreads := rs\<rparr>)"
  by (simp add: Pipe_WaitUntilReady_def pipe_wait_loop.simps [of 100] pipe_defs hrd_def)

lemma write_prefix_runs:
  assumes "length d < 2 ^ 16" "UPNUM h < length (pipes h)" "hreads h = (UPINTX, 4) # written_reads (length d) @ rs"
  shows "Pipe_Write_Stream_LE (d @ x) (of_nat (length d)) h = Some (0, after rs d (Pipe_SetPipeToken PIPE_TOKEN_OUT h))"
proof -
  let ?h = "(Pipe_SetPipeToken PIPE_TOKEN_OUT h)\<lparr>hreads := written_reads (length d) @ rs\<rparr>"
  have "Pipe_WaitUntilReady (Pipe_SetPipeToken PIPE_TOKEN_OUT h) = Some (0, ?h)"
    using assms(2,3) by (intro wait_ready_out [where x = 4] token_set) (simp_all add: bit_simps)
  moreover have "pipe_write_loop (d @ x) (of_nat (length d)) ?h = Some (0, after rs d ?h)"
    using assms(1) by (intro write_loop_runs) simp_all
  moreover have "after rs d ?h = after rs d (Pipe_SetPipeToken PIPE_TOKEN_OUT h)"
    by (simp add: after_def)
  ultimately show ?thesis
    by (simp add: Pipe_Write_Stream_LE_def pipe_stream_write_def)
qed

lemmas write_stream_runs = write_prefix_runs [where x = "[]", simplified]

lemma read_stream_runs:
  assumes "length d < 2 ^ 16" "UPNUM h < length (pipes h)" "hreads h = (UPINTX, 1) # delivered_reads d @ rs"
  shows "Pipe_Read_Stream_LE (of_nat (length d)) h = Some (0, d, after rs [] (Pipe_SetPipeToken PIPE_TOKEN_IN h))"
proof -
  let ?h = "(Pipe_SetPipeToken PIPE_TOKEN_IN h)\<lparr>hreads := delivered_reads d @ rs\<rparr>"
  have "Pipe_WaitUntilReady (Pipe_SetPipeToken PIPE_TOKEN_IN h) = Some (0, ?h)"
    using assms(2,3) by (intro wait_ready_in [where x = 1] token_set) (simp_all add: bit_simps)
  moreover have "pipe_read_loop (of_nat (length d)) [] ?h = Some (0, [] @ d, after rs [] ?h)"
    using assms(1) by (intro read_loop_runs) simp_all
  moreover have "after rs [] ?h = after rs [] (Pipe_SetPipeToken PIPE_TOKEN_IN h)"
    by (simp add: after_def)
  ultimately show ?thesis
    by (simp add: Pipe_Read_Stream_LE_def pipe_stream_read_def)
qed

section \<open>Streams of several packets\<close>

text \<open>
  A wait for the pipe: one round per element in which it is not ready, the device neither stalls nor goes, and
  a frame has begun (\<open>True\<close>) or not. Before each packet the pipe may be waited for; in a packet the bank has
  bytes, or room, for as many as the packet has, and then the flag for another access is clear.
\<close>

definition pipe_waiting :: "bool list \<Rightarrow> (hreg \<times> u16) list" where
  "pipe_waiting fs = concat (map (\<lambda>f. [(UPINTX, 0), (UPINTX, 0), (HostLook, 0)] @
     (if f then [(UHINT, 0x20), (UHINT, 0x20)] else [(UHINT, 0)])) fs)"

definition frames :: "bool list \<Rightarrow> nat" where
  "frames fs = length (filter id fs)"

type_synonym in_packet = "bool list \<times> u8 list"     \<comment> \<open>the wait and the bytes\<close>
type_synonym out_packet = "bool list \<times> nat"          \<comment> \<open>the wait and the room\<close>

definition more_in :: "in_packet list \<Rightarrow> (hreg \<times> u16) list" where
  "more_in ps = concat (map (\<lambda>(fs, p). [(UPINTX, 0), (UPINTX, 0)] @ pipe_waiting fs @ [(UPINTX, 1)] @ delivered_reads p) ps)"

definition more_out :: "out_packet list \<Rightarrow> (hreg \<times> u16) list" where
  "more_out ks = concat (map (\<lambda>(fs, k). [(UPINTX, 0), (UPINTX, 0)] @ pipe_waiting fs @ [(UPINTX, 4)] @ written_reads k) ks)"

text \<open>The accesses of a stream are those of its packets, without the release of a bank before the first.\<close>

definition in_stream :: "in_packet list \<Rightarrow> (hreg \<times> u16) list" where
  "in_stream ps = drop 2 (more_in ps)"

definition out_stream :: "out_packet list \<Rightarrow> (hreg \<times> u16) list" where
  "out_stream ks = drop 2 (more_out ks)"

definition in_bytes :: "in_packet list \<Rightarrow> u8 list" where
  "in_bytes ps = concat (map snd ps)"

definition out_room :: "out_packet list \<Rightarrow> nat" where
  "out_room ks = sum_list (map snd ks)"

text \<open>No wait is longer than 100 frames, and the last of several packets is not empty.\<close>

definition in_order :: "in_packet list \<Rightarrow> bool" where
  "in_order ps \<longleftrightarrow> (\<forall>(fs, p) \<in> set ps. frames fs \<le> 100) \<and> ps \<noteq> [] \<and> (tl ps = [] \<or> snd (last ps) \<noteq> [])"

definition out_order :: "out_packet list \<Rightarrow> bool" where
  "out_order ks \<longleftrightarrow> (\<forall>(fs, k) \<in> set ks. frames fs \<le> 100) \<and> ks \<noteq> [] \<and> (tl ks = [] \<or> snd (last ks) \<noteq> 0)"

definition reached :: "(hreg \<times> u16) list \<Rightarrow> host \<Rightarrow> host \<Rightarrow> bool" where
  "reached rs h t \<longleftrightarrow> hreads t = rs \<and> pipes t = pipes h \<and> UPNUM t = UPNUM h \<and> USB_HostState t = USB_HostState h"

lemma reached_token: "reached rs h t \<Longrightarrow> Pipe_GetPipeToken t = Pipe_GetPipeToken h"
  by (simp add: reached_def Pipe_GetPipeToken_def)

lemma frames_simps [simp]: "frames [] = 0" "frames (f # fs) = (if f then Suc (frames fs) else frames fs)"
  by (simp_all add: frames_def)

lemma unat_pred: "Suc k \<le> unat n \<Longrightarrow> n \<noteq> 0 \<and> k \<le> unat (n - 1)" for n :: "'a :: len word"
  by (cases "n = 0") (auto simp: unat_minus_one)

lemma unat_rest: "unat n = a + b \<Longrightarrow> unat (n - of_nat a) = b" for n :: "'a :: len word"
proof -
  assume n: "unat n = a + b"
  have "n = of_nat (unat n)"
    by simp
  then have "n = of_nat a + of_nat b"
    unfolding n by simp
  then have "n - of_nat a = of_nat b"
    by simp
  moreover have "b < 2 ^ LENGTH('a)"
    using n unsigned_less [of n, where ?'a = nat] by linarith
  ultimately show ?thesis
    by (simp add: unsigned_of_nat take_bit_nat_eq_self)
qed

lemma wait_passes:
  assumes "Pipe_GetPipeToken h = PIPE_TOKEN_IN \<and> bit x RXINI \<or> Pipe_GetPipeToken h = PIPE_TOKEN_OUT \<and> bit x TXOUTI"
    and "frames fs \<le> unat n" "hreads h = pipe_waiting fs @ (UPINTX, x) # rs" "USB_HostState h \<noteq> HOST_STATE_Unattached"
  shows "\<exists>t. pipe_wait_loop n h = Some (0, t) \<and> reached rs h t"
  using assms
proof (induction fs arbitrary: n h)
  case Nil
  then show ?case
    by (subst pipe_wait_loop.simps) (auto simp: pipe_waiting_def pipe_defs hrd_def reached_def)
next
  case (Cons f fs)
  let ?rest = "pipe_waiting fs @ (UPINTX, x) # rs"
  let ?h = "if f then hwr UHINT (unset_bit HSOFI 0x20) (h\<lparr>hreads := ?rest\<rparr>) else h\<lparr>hreads := ?rest\<rparr>"
  let ?n = "if f then n - 1 else n"
  have n: "f \<longrightarrow> n \<noteq> 0" "frames fs \<le> unat ?n"
    using Cons.prems(2) unat_pred [of "frames fs" n] by auto
  have h: "hreads ?h = ?rest" "pipes ?h = pipes h" "UPNUM ?h = UPNUM h" "USB_HostState ?h = USB_HostState h"
    by (simp_all add: hwr_def)
  then have "Pipe_GetPipeToken ?h = Pipe_GetPipeToken h"
    by (simp add: Pipe_GetPipeToken_def)
  with Cons.IH [of ?h ?n] Cons.prems(1,4) n(2) h obtain t where t: "pipe_wait_loop ?n ?h = Some (0, t)" "reached rs ?h t"
    by (auto split: if_splits)
  have "pipe_wait_loop n h = pipe_wait_loop ?n ?h"
    using Cons.prems(1,3,4) n(1)
    by (subst pipe_wait_loop.simps) (auto simp: pipe_waiting_def pipe_defs hrd_def bit_simps)
  with t h show ?case
    by (auto simp: reached_def)
qed

lemma wait_until_ready:
  assumes "Pipe_GetPipeToken h = PIPE_TOKEN_IN \<and> bit x RXINI \<or> Pipe_GetPipeToken h = PIPE_TOKEN_OUT \<and> bit x TXOUTI"
    and "frames fs \<le> 100" "hreads h = pipe_waiting fs @ (UPINTX, x) # rs" "USB_HostState h \<noteq> HOST_STATE_Unattached"
  shows "\<exists>t. Pipe_WaitUntilReady h = Some (0, t) \<and> reached rs h t"
  using wait_passes [OF assms(1) _ assms(3,4), of 100] assms(2) by (simp add: Pipe_WaitUntilReady_def)

subsection \<open>Reading\<close>

lemma read_part:
  assumes "length p \<le> unat n" "hreads h = delivered_reads p @ rs"
  shows "pipe_read_loop n got h = pipe_read_loop (n - of_nat (length p)) (got @ p) (h\<lparr>hreads := rs\<rparr>)"
  using assms
proof (induction p arbitrary: n h got)
  case Nil
  then have "h\<lparr>hreads := rs\<rparr> = h"
    by simp
  then show ?case
    by simp
next
  case (Cons b p)
  let ?u = "h\<lparr>hreads := delivered_reads p @ rs\<rparr>"
  have n: "n \<noteq> 0" "length p \<le> unat (n - 1)"
    using Cons.prems(1) unat_pred [of "length p" n] by simp_all
  have "pipe_read_loop n got h = pipe_read_loop (n - 1) (got @ [b]) ?u"
    using Cons.prems(2) n(1) by (subst pipe_read_loop.simps) (simp add: pipe_defs hrd_def bit_simps byte_back)
  also have "\<dots> = pipe_read_loop (n - 1 - of_nat (length p)) ((got @ [b]) @ p) (?u\<lparr>hreads := rs\<rparr>)"
    using n(2) by (intro Cons.IH) simp_all
  finally show ?case
    by (simp add: diff_diff_eq)
qed

lemma read_packet:
  assumes "n \<noteq> 0" "length p \<le> unat n" "frames fs \<le> 100"
    and "hreads h = (UPINTX, 0) # (UPINTX, 0) # pipe_waiting fs @ (UPINTX, 1) # delivered_reads p @ rs"
    and "Pipe_GetPipeToken h = PIPE_TOKEN_IN" "USB_HostState h \<noteq> HOST_STATE_Unattached"
  shows "\<exists>t. pipe_read_loop n got h = pipe_read_loop (n - of_nat (length p)) (got @ p) t \<and> reached rs h t"
proof -
  let ?rest = "pipe_waiting fs @ (UPINTX, 1) # delivered_reads p @ rs"
  obtain u where u: "Pipe_ClearIN (h\<lparr>hreads := (UPINTX, 0) # ?rest\<rparr>) = Some u" "reached ?rest h u"
    by (simp add: pipe_defs hrd_def hwr_def reached_def)
  have "hreads u = ?rest" "USB_HostState u \<noteq> HOST_STATE_Unattached" "Pipe_GetPipeToken u = PIPE_TOKEN_IN"
    using u(2) assms(5,6) by (simp_all add: reached_def Pipe_GetPipeToken_def)
  with wait_until_ready [of u 1 fs "delivered_reads p @ rs"] assms(3)
  obtain v where v: "Pipe_WaitUntilReady u = Some (0, v)" "reached (delivered_reads p @ rs) u v"
    by auto
  have "pipe_read_loop n got h = pipe_read_loop n got v"
    using assms(1,4) u(1) v(1) by (subst pipe_read_loop.simps) (simp add: Pipe_IsReadWriteAllowed_def hflag_def hrd_def)
  also have "\<dots> = pipe_read_loop (n - of_nat (length p)) (got @ p) (v\<lparr>hreads := rs\<rparr>)"
    using assms(2) v(2) by (intro read_part) (simp_all add: reached_def)
  finally show ?thesis
    using u(2) v(2) by (auto simp: reached_def)
qed

lemma read_packets:
  assumes "hreads h = more_in ps @ rs" "\<forall>(fs, p) \<in> set ps. frames fs \<le> 100" "ps = [] \<or> snd (last ps) \<noteq> []"
    and "unat n = length (in_bytes ps)" "Pipe_GetPipeToken h = PIPE_TOKEN_IN" "USB_HostState h \<noteq> HOST_STATE_Unattached"
  shows "\<exists>t. pipe_read_loop n got h = Some (0, got @ in_bytes ps, t) \<and> reached rs h t"
  using assms
proof (induction ps arbitrary: n got h)
  case Nil
  then have "n = 0"
    by (simp add: in_bytes_def unat_eq_0)
  with Nil show ?case
    by (subst pipe_read_loop.simps) (simp add: more_in_def in_bytes_def reached_def)
next
  case (Cons q ps)
  obtain fs p where q: "q = (fs, p)"
    by (cases q)
  have len: "unat n = length p + length (in_bytes ps)"
    using Cons.prems(4) by (simp add: in_bytes_def q)
  have "in_bytes (q # ps) \<noteq> []"
    using Cons.prems(3) by (auto simp: in_bytes_def intro: last_in_set split: if_splits)
  then have n: "n \<noteq> 0"
    using Cons.prems(4) by auto
  from read_packet [of n p fs h "more_in ps @ rs" got] n len Cons.prems obtain u where
    u: "pipe_read_loop n got h = pipe_read_loop (n - of_nat (length p)) (got @ p) u" "reached (more_in ps @ rs) h u"
    by (auto simp: more_in_def q)
  have "unat (n - of_nat (length p)) = length (in_bytes ps)"
    using len by (rule unat_rest)
  moreover have "ps = [] \<or> snd (last ps) \<noteq> []"
    using Cons.prems(3) by auto
  ultimately obtain t where "pipe_read_loop (n - of_nat (length p)) (got @ p) u = Some (0, (got @ p) @ in_bytes ps, t)" "reached rs u t"
    using Cons.IH [of u "n - of_nat (length p)" "got @ p"] Cons.prems(2,5,6) u(2) reached_token [OF u(2)]
    by (auto simp: reached_def)
  with u show ?case
    by (auto simp: reached_def in_bytes_def q)
qed

lemma stream_is_read:
  assumes "hreads h = in_stream ps @ rs" "in_order ps" "length (in_bytes ps) < 2 ^ 16"
    and "UPNUM h < length (pipes h)" "USB_HostState h \<noteq> HOST_STATE_Unattached"
  shows "\<exists>t. Pipe_Read_Stream_LE (of_nat (length (in_bytes ps))) h = Some (0, in_bytes ps, t) \<and>
    reached rs (Pipe_SetPipeToken PIPE_TOKEN_IN h) t"
proof -
  obtain fs p qs where ps: "ps = (fs, p) # qs"
    using assms(2) by (cases ps) (auto simp: in_order_def)
  let ?n = "of_nat (length (in_bytes ps)) :: u16"
  let ?h = "Pipe_SetPipeToken PIPE_TOKEN_IN h"
  have tok: "Pipe_GetPipeToken ?h = PIPE_TOKEN_IN"
    using assms(4) by (intro token_set) simp_all
  have len: "unat ?n = length p + length (in_bytes qs)"
    using assms(3) by (simp add: unsigned_of_nat take_bit_nat_eq_self in_bytes_def ps del: of_nat_add)
  from wait_until_ready [of ?h 1 fs "delivered_reads p @ more_in qs @ rs"] tok assms(1,2,5)
  obtain u where u: "Pipe_WaitUntilReady ?h = Some (0, u)" "reached (delivered_reads p @ more_in qs @ rs) ?h u"
    by (auto simp: in_stream_def more_in_def in_order_def ps Pipe_SetPipeToken_def on_pipe_def)
  have part: "pipe_read_loop ?n [] u = pipe_read_loop (?n - of_nat (length p)) p (u\<lparr>hreads := more_in qs @ rs\<rparr>)"
    using read_part [of p ?n u "more_in qs @ rs" "[]"] len u(2) by (simp add: reached_def)
  have "unat (?n - of_nat (length p)) = length (in_bytes qs)"
    using len by (rule unat_rest)
  moreover have "qs = [] \<or> snd (last qs) \<noteq> []" "\<forall>(fs, p) \<in> set qs. frames fs \<le> 100"
    using assms(2) by (auto simp: in_order_def ps)
  ultimately obtain t where "pipe_read_loop (?n - of_nat (length p)) p (u\<lparr>hreads := more_in qs @ rs\<rparr>) = Some (0, p @ in_bytes qs, t)"
      "reached rs u t"
    using read_packets [of "u\<lparr>hreads := more_in qs @ rs\<rparr>" qs rs "?n - of_nat (length p)" p] tok assms(5) u(2) reached_token [OF u(2)]
    by (auto simp: reached_def Pipe_GetPipeToken_def Pipe_SetPipeToken_def on_pipe_def)
  with u part show ?thesis
    by (auto simp: Pipe_Read_Stream_LE_def pipe_stream_read_def reached_def in_bytes_def ps)
qed

subsection \<open>Writing\<close>

lemma write_part:
  assumes "length p \<le> unat n" "hreads h = written_reads (length p) @ rs"
  shows "pipe_write_loop (p @ x) n h = pipe_write_loop x (n - of_nat (length p)) (after rs p h)"
  using assms
proof (induction p arbitrary: n h)
  case Nil
  then have "after rs [] h = h"
    by (simp add: after_def)
  then show ?case
    by simp
next
  case (Cons b p)
  let ?u = "Pipe_Write_Byte b (h\<lparr>hreads := written_reads (length p) @ rs\<rparr>)"
  have n: "n \<noteq> 0" "length p \<le> unat (n - 1)"
    using Cons.prems(1) unat_pred [of "length p" n] by simp_all
  have "pipe_write_loop ((b # p) @ x) n h = pipe_write_loop (p @ x) (n - 1) ?u"
    using Cons.prems(2) n(1) by (subst pipe_write_loop.simps) (simp add: pipe_defs hrd_def bit_simps)
  also have "\<dots> = pipe_write_loop x (n - 1 - of_nat (length p)) (after rs p ?u)"
    using n(2) Cons.prems(2) by (intro Cons.IH) simp_all
  also have "after rs p ?u = after rs (b # p) h"
    by (simp add: after_def Pipe_Write_Byte_def hwr_def)
  finally show ?case
    by (simp add: diff_diff_eq)
qed

lemma write_packet:
  assumes "n \<noteq> 0" "length p \<le> unat n" "frames fs \<le> 100"
    and "hreads h = (UPINTX, 0) # (UPINTX, 0) # pipe_waiting fs @ (UPINTX, 4) # written_reads (length p) @ rs"
    and "Pipe_GetPipeToken h = PIPE_TOKEN_OUT" "USB_HostState h \<noteq> HOST_STATE_Unattached"
  shows "\<exists>t. pipe_write_loop (p @ x) n h = pipe_write_loop x (n - of_nat (length p)) t \<and> reached rs h t"
proof -
  let ?rest = "pipe_waiting fs @ (UPINTX, 4) # written_reads (length p) @ rs"
  obtain u where u: "Pipe_ClearOUT (h\<lparr>hreads := (UPINTX, 0) # ?rest\<rparr>) = Some u" "reached ?rest h u"
    by (simp add: pipe_defs hrd_def hwr_def reached_def)
  have "hreads u = ?rest" "USB_HostState u \<noteq> HOST_STATE_Unattached" "Pipe_GetPipeToken u = PIPE_TOKEN_OUT"
    using u(2) assms(5,6) by (simp_all add: reached_def Pipe_GetPipeToken_def)
  with wait_until_ready [of u 4 fs "written_reads (length p) @ rs"] assms(3)
  obtain v where v: "Pipe_WaitUntilReady u = Some (0, v)" "reached (written_reads (length p) @ rs) u v"
    by (auto simp: bit_simps)
  have "pipe_write_loop (p @ x) n h = pipe_write_loop (p @ x) n v"
    using assms(1,4) u(1) v(1) by (subst pipe_write_loop.simps) (simp add: Pipe_IsReadWriteAllowed_def hflag_def hrd_def)
  also have "\<dots> = pipe_write_loop x (n - of_nat (length p)) (after rs p v)"
    using assms(2) v(2) by (intro write_part) (simp_all add: reached_def)
  finally show ?thesis
    using u(2) v(2) by (auto simp: reached_def)
qed

lemma write_packets:
  assumes "hreads h = more_out ks @ rs" "\<forall>(fs, k) \<in> set ks. frames fs \<le> 100" "ks = [] \<or> snd (last ks) \<noteq> 0"
    and "unat n = length d" "length d = out_room ks" "Pipe_GetPipeToken h = PIPE_TOKEN_OUT" "USB_HostState h \<noteq> HOST_STATE_Unattached"
  shows "\<exists>t. pipe_write_loop d n h = Some (0, t) \<and> reached rs h t"
  using assms
proof (induction ks arbitrary: n d h)
  case Nil
  then have "n = 0"
    by (simp add: out_room_def unat_eq_0)
  with Nil show ?case
    by (subst pipe_write_loop.simps) (simp add: more_out_def reached_def)
next
  case (Cons q ks)
  obtain fs k where q: "q = (fs, k)"
    by (cases q)
  have d: "length (take k d) = k" "length (drop k d) = out_room ks" "unat n = k + out_room ks"
    using Cons.prems(4,5) by (simp_all add: out_room_def q)
  have "out_room (q # ks) \<noteq> 0"
    using Cons.prems(3) by (auto simp: out_room_def q intro: last_in_set split: if_splits)
  then have n: "n \<noteq> 0"
    using Cons.prems(4,5) by auto
  from write_packet [of n "take k d" fs h "more_out ks @ rs" "drop k d"] n d Cons.prems(1,2,6,7) obtain u where
    u: "pipe_write_loop d n h = pipe_write_loop (drop k d) (n - of_nat k) u" "reached (more_out ks @ rs) h u"
    by (auto simp: more_out_def q)
  have "unat (n - of_nat k) = out_room ks"
    using d(3) by (rule unat_rest)
  moreover have "ks = [] \<or> snd (last ks) \<noteq> 0"
    using Cons.prems(3) by (auto split: if_splits)
  ultimately obtain t where "pipe_write_loop (drop k d) (n - of_nat k) u = Some (0, t)" "reached rs u t"
    using Cons.IH [of u "n - of_nat k" "drop k d"] Cons.prems(2,6,7) d(2) u(2) reached_token [OF u(2)]
    by (auto simp: reached_def)
  with u show ?case
    by (auto simp: reached_def)
qed

lemma stream_is_written:
  assumes "hreads h = out_stream ks @ rs" "out_order ks" "out_room ks = length d" "length d < 2 ^ 16"
    and "UPNUM h < length (pipes h)" "USB_HostState h \<noteq> HOST_STATE_Unattached"
  shows "\<exists>t. Pipe_Write_Stream_LE d (of_nat (length d)) h = Some (0, t) \<and> reached rs (Pipe_SetPipeToken PIPE_TOKEN_OUT h) t"
proof -
  obtain fs k qs where ks: "ks = (fs, k) # qs"
    using assms(2) by (cases ks) (auto simp: out_order_def)
  let ?n = "of_nat (length d) :: u16"
  let ?h = "Pipe_SetPipeToken PIPE_TOKEN_OUT h"
  have tok: "Pipe_GetPipeToken ?h = PIPE_TOKEN_OUT"
    using assms(5) by (intro token_set) simp_all
  have d: "length (take k d) = k" "length (drop k d) = out_room qs" "unat ?n = k + out_room qs"
    using assms(3,4) by (simp_all add: out_room_def ks unsigned_of_nat take_bit_nat_eq_self)
  from wait_until_ready [of ?h 4 fs "written_reads k @ more_out qs @ rs"] tok assms(1,2,6)
  obtain u where u: "Pipe_WaitUntilReady ?h = Some (0, u)" "reached (written_reads k @ more_out qs @ rs) ?h u"
    by (auto simp: out_stream_def more_out_def out_order_def ks Pipe_SetPipeToken_def on_pipe_def bit_simps)
  let ?u = "after (more_out qs @ rs) (take k d) u"
  have part: "pipe_write_loop d ?n u = pipe_write_loop (drop k d) (?n - of_nat k) ?u"
    using write_part [of "take k d" ?n u "more_out qs @ rs" "drop k d"] d u(2) by (simp add: reached_def)
  have "unat (?n - of_nat k) = out_room qs"
    using d(3) by (rule unat_rest)
  moreover have "qs = [] \<or> snd (last qs) \<noteq> 0" "\<forall>(fs, k) \<in> set qs. frames fs \<le> 100"
    using assms(2) by (auto simp: out_order_def ks split: if_splits)
  ultimately obtain t where "pipe_write_loop (drop k d) (?n - of_nat k) ?u = Some (0, t)" "reached rs ?u t"
    using write_packets [of ?u qs rs "?n - of_nat k" "drop k d"] tok assms(6) d(2) u(2)
    by (auto simp: reached_def Pipe_GetPipeToken_def Pipe_SetPipeToken_def on_pipe_def)
  with u part show ?thesis
    by (auto simp: Pipe_Write_Stream_LE_def pipe_stream_write_def reached_def)
qed

lemma clear_runs:
  "hreads h = (UPINTX, x) # rs \<Longrightarrow> \<exists>t. Pipe_ClearIN h = Some t \<and> hreads t = rs \<and> pipes t = pipes h \<and> UPNUM t = UPNUM h \<and>
    USB_HostState t = USB_HostState h"
  "hreads h = (UPINTX, x) # rs \<Longrightarrow> \<exists>t. Pipe_ClearOUT h = Some t \<and> hreads t = rs \<and> pipes t = pipes h \<and> UPNUM t = UPNUM h \<and>
    USB_HostState t = USB_HostState h"
  by (simp_all add: pipe_defs hrd_def hwr_def)

lemma use_pipe_fields [simp]:
  "hreads (use_pipe n h) = hreads h" "UPNUM (use_pipe n h) = unat n" "length (pipes (use_pipe n h)) = length (pipes h)"
  "hreads (Pipe_SelectPipe n h) = hreads h" "length (pipes (Pipe_SelectPipe n h)) = length (pipes h)"
  "length (pipes (Pipe_Freeze h)) = length (pipes h)" "length (pipes (Pipe_SetPipeToken t h)) = length (pipes h)"
  "UPNUM (Pipe_SetPipeToken t h) = UPNUM h" "USB_HostState (Pipe_SetPipeToken t h) = USB_HostState h"
  by (simp_all add: use_pipe_def Pipe_SelectPipe_def Pipe_Unfreeze_def Pipe_Freeze_def Pipe_SetPipeToken_def on_pipe_def)

lemma attached_runs:
  assumes "hreads h = (HostLook, 0) # rs" "USB_HostState h = HOST_STATE_Configured" "IsActive st"
  shows "attached st h = Some (True, h\<lparr>hreads := rs\<rparr>)"
  using assms by (simp add: attached_def look_state_def hrd_def)

end
