(* ===== verification/HidClass.thy ===== *)
theory HidClass
  imports HidHost HostStreams HidParser
begin

text \<open>
  The operations of LUFA's host class driver for HID devices (\<open>Class/Host/HID.c\<close>) after
  \<open>HID_Host_ConfigurePipes\<close>, as it is compiled without \<open>HID_HOST_BOOT_PROTOCOL_ONLY\<close>: receiving and sending
  reports, and the choice of the protocol.

  The parser data \<open>HIDParserData\<close> points to are an argument (\<open>None\<close>: the null pointer, whose use has no result)
  and come back when they change. Bytes a function stores through a pointer to a buffer are a result.
\<close>

section \<open>Reports\<close>

definition class_request :: "u8 \<Rightarrow> u16 \<Rightarrow> HID_Host_State \<Rightarrow> u16 \<Rightarrow> host \<Rightarrow> host" where
  "class_request r v st n = requesting 0x21 r v (ucast (HIDInterfaceNumber st)) n"

definition HID_Host_ReceiveReportByID ::
    "HID_Host_State \<Rightarrow> HID_ReportInfo_t option \<Rightarrow> u8 \<Rightarrow> u8 list \<Rightarrow> host \<Rightarrow> (u8 \<times> u8 list option \<times> host) option" where
  "HID_Host_ReceiveReportByID st HIDParserData ID Buffer h = do {
     p \<leftarrow> HIDParserData;
     let h = class_request 9 (push_bit 8 1 OR ucast ID) st (USB_GetHIDReportSize p ID In) h;
     USB_Host_SendControlRequest (Some Buffer) (Pipe_SelectPipe PIPE_CONTROLPIPE h) }"

text \<open>What precedes the data: the report ID read from the pipe, if reports have one, and the size of the report.\<close>

definition report_size ::
    "HID_Host_State \<Rightarrow> HID_ReportInfo_t option \<Rightarrow> host \<Rightarrow> (u8 list \<times> u16 \<times> host) option" where
  "report_size st HIDParserData h =
     (if \<not> UsingBootProtocol st then do {
        p \<leftarrow> HIDParserData;
        if UsingReportIDs p then do {
          (ID, h) \<leftarrow> Pipe_Read_Byte h;
          Some ([ID], USB_GetHIDReportSize p ID In, h) }
        else Some ([], USB_GetHIDReportSize p 0 In, h) }
      else do {
        (n, h) \<leftarrow> Pipe_BytesInPipe h;
        Some ([], n, h) })"

definition HID_Host_ReceiveReport ::
    "HID_Host_Config \<Rightarrow> HID_Host_State \<Rightarrow> HID_ReportInfo_t option \<Rightarrow> host \<Rightarrow> (u8 \<times> u8 list \<times> host) option" where
  "HID_Host_ReceiveReport cfg st HIDParserData h = do {
     (ok, h) \<leftarrow> attached st h;
     if \<not> ok then Some (PIPE_READYWAIT_DeviceDisconnected, [], h)
     else do {
       let h = Pipe_Unfreeze (Pipe_SelectPipe (DataINPipeNumber cfg) h);
       (k, ReportSize, h) \<leftarrow> report_size st HIDParserData h;
       (ErrorCode, bs, h) \<leftarrow> Pipe_Read_Stream_LE ReportSize h;
       if ErrorCode \<noteq> PIPE_RWSTREAM_NoError then Some (ErrorCode, k @ bs, h)
       else do {
         h \<leftarrow> Pipe_ClearIN h;
         Some (PIPE_RWSTREAM_NoError, k @ bs, Pipe_Freeze h) } } }"

text \<open>Through the OUT pipe: the result of sending the report ID is not looked at.\<close>

definition send_on_pipe :: "HID_Host_Config \<Rightarrow> u8 \<Rightarrow> u8 list \<Rightarrow> u16 \<Rightarrow> host \<Rightarrow> (u8 \<times> host) option" where
  "send_on_pipe cfg ID Buffer ReportSize h = do {
     let h = Pipe_Unfreeze (Pipe_SelectPipe (DataOUTPipeNumber cfg) h);
     h \<leftarrow> (if ID \<noteq> 0 then do { (_, h) \<leftarrow> Pipe_Write_Stream_LE [ID] 1 h; Some h } else Some h);
     (ErrorCode, h) \<leftarrow> Pipe_Write_Stream_LE Buffer ReportSize h;
     if ErrorCode \<noteq> PIPE_RWSTREAM_NoError then Some (ErrorCode, h)
     else do {
       h \<leftarrow> Pipe_ClearOUT h;
       Some (PIPE_RWSTREAM_NoError, Pipe_Freeze h) } }"

definition HID_Host_SendReportByID ::
    "HID_Host_Config \<Rightarrow> HID_Host_State \<Rightarrow> u8 \<Rightarrow> u8 list \<Rightarrow> u16 \<Rightarrow> host \<Rightarrow> (u8 \<times> host) option" where
  "HID_Host_SendReportByID cfg st ID Buffer ReportSize h = do {
     (ok, h) \<leftarrow> attached st h;
     if \<not> ok then Some (of_bool False, h)
     else if DeviceUsesOUTPipe st then send_on_pipe cfg ID Buffer ReportSize h
     else do {
       let h = class_request 9 (push_bit 8 2 OR ucast ID) st ReportSize h;
       (e, _, h) \<leftarrow> USB_Host_SendControlRequest (Some Buffer) (Pipe_SelectPipe PIPE_CONTROLPIPE h);
       Some (e, h) } }"

definition HID_Host_IsReportReceived :: "HID_Host_Config \<Rightarrow> HID_Host_State \<Rightarrow> host \<Rightarrow> (bool \<times> host) option" where
  "HID_Host_IsReportReceived cfg st h = do {
     (ok, h) \<leftarrow> attached st h;
     if \<not> ok then Some (False, h)
     else do {
       (ReportReceived, h) \<leftarrow> Pipe_IsINReceived (Pipe_Unfreeze (Pipe_SelectPipe (DataINPipeNumber cfg) h));
       Some (ReportReceived, Pipe_Freeze h) } }"

section \<open>Protocols\<close>

abbreviation (input) "HID_ERROR_LOGICAL \<equiv> 0x80 :: u8"

definition HID_Host_SetBootProtocol :: "HID_Host_State \<Rightarrow> host \<Rightarrow> (u8 \<times> HID_Host_State \<times> host) option" where
  "HID_Host_SetBootProtocol st h = do {
     let h = Pipe_SelectPipe PIPE_CONTROLPIPE (class_request 0x0B 0 st 0 h);
     if \<not> SupportsBootProtocol st then Some (HID_ERROR_LOGICAL, st, h)
     else do {
       (ErrorCode, _, h) \<leftarrow> USB_Host_SendControlRequest None h;
       if ErrorCode \<noteq> HOST_SENDCONTROL_Successful then Some (ErrorCode, st, h)
       else Some (HOST_SENDCONTROL_Successful, st\<lparr>LargestReportSize := 8, UsingBootProtocol := True\<rparr>, h) } }"

fun error_code :: "HID_Parse_ErrorCodes_t \<Rightarrow> u8" where
  "error_code HID_PARSE_Successful = 0"
| "error_code HID_PARSE_HIDStackOverflow = 1"
| "error_code HID_PARSE_HIDStackUnderflow = 2"
| "error_code HID_PARSE_InsufficientReportItems = 3"
| "error_code HID_PARSE_UnexpectedEndCollection = 4"
| "error_code HID_PARSE_InsufficientCollectionPaths = 5"
| "error_code HID_PARSE_UsageListOverflow = 6"
| "error_code HID_PARSE_InsufficientReportIDItems = 7"
| "error_code HID_PARSE_NoUnfilteredReportItems = 8"

text \<open>The end of \<open>HID_Host_SetReportProtocol\<close>; \<open>LargestReportSizeBits\<close> is kept in a byte.\<close>

definition parse_report ::
    "(HID_ReportItem_t \<Rightarrow> bool) \<Rightarrow> u8 list \<Rightarrow> HID_Host_State \<Rightarrow> HID_ReportInfo_t option \<Rightarrow>
      (u8 \<times> HID_Host_State \<times> HID_ReportInfo_t option) option" where
  "parse_report filt HIDReportData st HIDParserData =
     (if HIDParserData = None then Some (HID_ERROR_LOGICAL, st, None)
      else do {
        (ErrorCode, p) \<leftarrow> USB_ProcessHIDReport filt HIDReportData;
        if error_code ErrorCode \<noteq> 0 then Some (HID_ERROR_LOGICAL OR error_code ErrorCode, st, Some p)
        else do {
          let bits = (ucast (LargestReportSizeBits p) :: u8);
          Some (0, st\<lparr>LargestReportSize := drop_bit 3 bits + of_bool (bits AND 7 \<noteq> 0)\<rparr>, Some p) } })"

text \<open>\<open>HIDReportData\<close> is a local array of \<open>HIDReportSize\<close> bytes; what it holds first is an argument.\<close>

definition HID_Host_SetReportProtocol ::
    "(HID_ReportItem_t \<Rightarrow> bool) \<Rightarrow> u8 list \<Rightarrow> HID_Host_State \<Rightarrow> HID_ReportInfo_t option \<Rightarrow> host \<Rightarrow>
      (u8 \<times> HID_Host_State \<times> HID_ReportInfo_t option \<times> host) option" where
  "HID_Host_SetReportProtocol filt HIDReportData st HIDParserData h = do {
     let h = Pipe_SelectPipe PIPE_CONTROLPIPE
       (requesting 0x81 6 (push_bit 8 0x22) (ucast (HIDInterfaceNumber st)) (HIDReportSize st) h);
     (ErrorCode, D, h) \<leftarrow> USB_Host_SendControlRequest (Some HIDReportData) h;
     if ErrorCode \<noteq> HOST_SENDCONTROL_Successful then Some (ErrorCode, st, HIDParserData, h)
     else do {
       (ErrorCode, st, h) \<leftarrow>
         (if UsingBootProtocol st then do {
            (ErrorCode, _, h) \<leftarrow> USB_Host_SendControlRequest None (class_request 0x0B 1 st 0 h);
            Some (ErrorCode, if ErrorCode = 0 then st\<lparr>UsingBootProtocol := False\<rparr> else st, h) }
          else Some (HOST_SENDCONTROL_Successful, st, h));
       if ErrorCode \<noteq> HOST_SENDCONTROL_Successful then Some (ErrorCode, st, HIDParserData, h)
       else do {
         D \<leftarrow> D;
         (r, st, p) \<leftarrow> parse_report filt D st HIDParserData;
         Some (r, st, p, h) } } }"

section \<open>What a report transfers\<close>

lemma receive_report_view:
  assumes "HID_Host_ReceiveReport cfg st (Some p) h = Some (0, bs, t)" "\<not> UsingBootProtocol st" "\<not> UsingReportIDs p"
  shows "delivered h = bs @ delivered t \<and> length bs = unat (USB_GetHIDReportSize p 0 In)"
proof -
  obtain ok u where u: "attached st h = Some (ok, u)"
    using assms(1) by (auto simp: HID_Host_ReceiveReport_def split: bind_splits)
  note calm = calm_attached [OF u]
  let ?u = "Pipe_Unfreeze (Pipe_SelectPipe (DataINPipeNumber cfg) u)"
  have ok
    using assms(1) u by (auto simp: HID_Host_ReceiveReport_def split: if_splits)
  then obtain v where v: "Pipe_Read_Stream_LE (USB_GetHIDReportSize p 0 In) ?u = Some (0, bs, v)" "calm v t"
    using assms u
    by (auto simp: HID_Host_ReceiveReport_def report_size_def Let_def frame_defs dest!: calm_clears split: bind_splits if_splits)
  have "delivered ?u = delivered u"
    by (simp add: frame_defs Pipe_SelectPipe_def delivered_def on_pipe_def)
  with read_stream_view [OF v(1)] v(2) calm show ?thesis
    by (simp add: calm_def)
qed

text \<open>\<open>HID_Host_ReceiveReportByID\<close> receives nothing: its request is SET_REPORT, from the host to the device. When
  it succeeds, the host has written the request and the contents of the buffer to the device, has read no
  byte, and the buffer is as it was.\<close>

theorem receive_by_id_sends:
  assumes "HID_Host_ReceiveReportByID st (Some p) k Buffer h = Some (0, buf, t)"
  shows "buf = Some Buffer \<and> delivered t = delivered h \<and>
    written t = written h @ header_bytes (HostRequest t) @ take (unat (USB_GetHIDReportSize p k In)) Buffer \<and>
    bmRequestType (HostRequest t) = 0x21 \<and> bRequest (HostRequest t) = 9"
proof -
  let ?h = "Pipe_SelectPipe PIPE_CONTROLPIPE
    (class_request 9 (push_bit 8 1 OR ucast k) st (USB_GetHIDReportSize p k In) h)"
  have run: "USB_Host_SendControlRequest (Some Buffer) ?h = Some (0, buf, t)"
    using assms by (simp add: HID_Host_ReceiveReportByID_def Let_def)
  have same: "delivered ?h = delivered h" "written ?h = written h"
    by (simp_all add: Pipe_SelectPipe_def class_request_def requesting_def delivered_def written_def)
  have request: "bmRequestType (HostRequest ?h) = 0x21" "bRequest (HostRequest ?h) = 9"
      "wLength (HostRequest ?h) = USB_GetHIDReportSize p k In"
    by (simp_all add: Pipe_SelectPipe_def class_request_def requesting_def)
  have "\<not> bit (bmRequestType (HostRequest ?h)) 7"
    unfolding request(1) by simp
  from control_out_view [OF run this] show ?thesis
    by (simp add: same request)
qed

definition two_byte_info :: HID_ReportInfo_t where
  "two_byte_info = \<lparr>ReportItems = [], CollectionPaths = [], TotalDeviceReports = 1,
     ReportIDSizes = [\<lparr>SizeReportID = 0, ReportSizeBits = \<lambda>_. 16\<rparr>], LargestReportSizeBits = 16, UsingReportIDs = False\<rparr>"

theorem receive_by_id_sends_witness:
  "\<exists>t. HID_Host_ReceiveReportByID cleared_state (Some two_byte_info) 0 [7, 9, 11] writing_host = Some (0, Some [7, 9, 11], t) \<and>
    written t = [0x21, 9, 0, 1, 0, 0, 2, 0, 7, 9]"
proof -
  have size: "USB_GetHIDReportSize two_byte_info 0 In = 2"
    by (simp add: USB_GetHIDReportSize_def two_byte_info_def size_bytes_def)
  have "(push_bit 8 1 :: u16) = 0x0100"
    by (simp add: push_bit_eq_mult)
  with size obtain t where t: "HID_Host_ReceiveReportByID cleared_state (Some two_byte_info) 0 [7, 9, 11] writing_host = Some (0, Some [7, 9, 11], t)"
      "HostRequest t = \<lparr>bmRequestType = 0x21, bRequest = 9, wValue = 0x0100, wIndex = 0, wLength = 2\<rparr>"
    by (simp add: HID_Host_ReceiveReportByID_def class_request_def requesting_def cleared_state_def Pipe_SelectPipe_def
      writing_host_def USB_Host_SendControlRequest_def control_stages_def setup_stage_def writing_stages_def
      writing_data_def USB_Host_WaitMS_def USB_Host_WaitForIOS_def USB_Host_IsBusSuspended_def once pipe_defs frame_defs
      stored_def header_bytes_def Pipe_Write_Byte_def Pipe_ResetPipe_def hrd_def hwr_def on_pipe_def bit_simps Let_def)
  from receive_by_id_sends [OF t(1)] t size show ?thesis
    by (simp add: writing_host_def header_bytes_def written_def)
qed

text \<open>Without a configured device \<open>HID_Host_SendReportByID\<close> returns the code of success, having sent nothing.\<close>

lemma send_without_device:
  assumes "attached st h = Some (False, t)"
  shows "HID_Host_SendReportByID cfg st k Buffer n h = Some (PIPE_RWSTREAM_NoError, t) \<and> written t = written h"
  using assms calm_attached [OF assms] by (simp add: HID_Host_SendReportByID_def calm_def)

end
