(* ===== verification/JoystickHost.thy ===== *)
theory JoystickHost
  imports HidClass HidJoystick
begin

text \<open>
  A host with LUFA's driver for HID devices enumerates the joystick of \<open>ps-2/\<close>: \<open>HID_Host_ConfigurePipes\<close> on
  the configuration descriptor of \<open>usb_joystick.c\<close>.
\<close>

section \<open>Pipes\<close>

lemma bound_loop_frame: "\<exists>n. snd (bound_loop ok a ns h) = h\<lparr>UPNUM := n\<rparr>"
proof (induction ns arbitrary: h)
  case Nil
  show ?case
    by (intro exI [of _ "UPNUM h"]) simp
next
  case (Cons n ns)
  show ?case
    using Cons [of "h\<lparr>UPNUM := n\<rparr>"] by (auto simp: Let_def intro: exI [of _ n])
qed

lemma unbound: "\<not> fst (Pipe_IsEndpointBound ok a h) \<Longrightarrow> Pipe_IsEndpointBound ok a h = (False, h)"
  using bound_loop_frame [of ok a "[0..<PIPE_TOTAL_PIPES]" h]
  by (auto simp: Pipe_IsEndpointBound_def split: prod.splits bool.splits)

text \<open>The registers \<open>Pipe_ConfigurePipe\<close> leaves.\<close>

definition configured :: "pipe \<Rightarrow> u8 \<Rightarrow> u8 \<Rightarrow> u16 \<Rightarrow> u8 \<Rightarrow> pipe" where
  "configured p Token a n Banks =
     \<lparr>UPCONX = UPCONX p OR 0x21, UPCFG0X = 0xC0 OR Token OR (a AND 0x0F), UPCFG1X = 2 OR Banks OR Pipe_BytesToEPSizeMask n\<rparr>"

lemma configure_pipe:
  assumes "unat N < length (pipes h)"
  shows "\<exists>b. Pipe_ConfigurePipe ok N PIPE_EP_TYPE_INTERRUPT Token a n Banks h =
    Some (b, h\<lparr>UPNUM := unat N, pipes := (pipes h)[unat N := configured (pipes h ! unat N) Token a n Banks]\<rparr>)"
  using assms
  by (cases "pipes h ! unat N") (simp add: Pipe_ConfigurePipe_def Let_def on_pipe_def Pipe_EnablePipe_def Pipe_SetInfiniteINRequests_def configured_def or.assoc)

section \<open>The descriptor of the joystick\<close>

lemma config1_bytes: "config1_descriptor =
  [9, 2, 34, 0, 1, 1, 0, 0xC0, 50, 9, 4, 0, 0, 1, 3, 1, 1, 0, 9, 0x21, 0x11, 1, 0, 1, 0x22, 67, 0, 7, 5, 0x83, 3, 8, 0, 1]"
  by (simp add: config1_descriptor_def LSB_def MSB_def CONFIG1_DESC_SIZE_def joystick_hid_report_desc_def)

lemmas search_simps = USB_GetNextDescriptor_def DESCRIPTOR_SIZE_def DESCRIPTOR_TYPE_def byte_at_def
  DComp_HID_Host_NextHIDInterface_def DComp_NextHID_def DComp_HID_Host_NextHIDInterfaceEndpoint_def interface_Class_def
  endpoint_Address_def word_at_def

lemmas search_steps = USB_GetNextDescriptorComp.simps [of _ _ 34] USB_GetNextDescriptorComp.simps [of _ _ 25]
  USB_GetNextDescriptorComp.simps [of _ _ 16] USB_GetNextDescriptorComp.simps [of _ _ 7] USB_GetNextDescriptorComp.simps [of _ _ 0]

lemma joystick_searches:
  fixes x y :: u8
  assumes "y \<noteq> DTYPE_Endpoint" "\<not> fst (Pipe_IsEndpointBound ok 0x83 h)"
    and mem: "mem = config1_descriptor @ x # y # post"
  shows "USB_GetNextDescriptorComp mem (DComp_HID_Host_NextHIDInterface mem) 34 0 h = Some (0, 25, 9, h)"
    "USB_GetNextDescriptorComp mem (DComp_NextHID mem) 25 9 h = Some (0, 16, 18, h)"
    "USB_GetNextDescriptorComp mem (DComp_HID_Host_NextHIDInterfaceEndpoint ok mem) 16 18 h = Some (0, 7, 27, h)"
    "\<exists>e r l. USB_GetNextDescriptorComp mem (DComp_HID_Host_NextHIDInterfaceEndpoint ok mem) 7 27 h' = Some (e, r, l, h') \<and> e \<noteq> 0"
  using assms(1) unbound [OF assms(2)] unfolding mem config1_bytes
  by (simp_all add: search_simps search_steps)

lemmas loop_steps = interface_loop.simps [of _ _ 34] endpoint_loop.simps [of _ _ _ 16] endpoint_loop.simps [of _ _ _ 7]

section \<open>Results\<close>

text \<open>A host whose pipes are all free, and accepts what is allocated.\<close>

definition free_host :: host where
  "free_host = \<lparr>pipes = replicate PIPE_TOTAL_PIPES \<lparr>UPCONX = 0, UPCFG0X = 0, UPCFG1X = 0\<rparr>, UPNUM = 0,
     hreads = [], hwrites = [], SOFEN = True, USB_HostState = HOST_STATE_Addressed, USB_ControlPipeSize = 64,
     HostRequest = no_request\<rparr>"

definition allocated :: cfgok where
  "allocated n ps = bit (UPCFG1X (ps ! n)) 1"

definition sample_config :: HID_Host_Config where
  "sample_config = \<lparr>DataINPipeNumber = 1, DataINPipeDoubleBank = False, DataOUTPipeNumber = 2,
     DataOUTPipeDoubleBank = False, HIDInterfaceProtocol = 0\<rparr>"

text \<open>C16: on the configuration descriptor of the joystick, \<open>HID_Host_ConfigurePipes\<close> finds its interface, its
  report descriptor with the right length, and its endpoint, binds the pipe for IN to it (interrupt, endpoint 3,
  eight bytes) and leaves the other pipes as they are. The second byte behind the descriptor, which is
  read, must not look like the type of an endpoint.\<close>

theorem joystick_pipes:
  assumes "unat (DataINPipeNumber cfg) < length (pipes h)" and "HIDInterfaceProtocol cfg = 0 \<or> HIDInterfaceProtocol cfg = 1"
    and "\<not> fst (Pipe_IsEndpointBound ok 0x83 h)" and "y \<noteq> DTYPE_Endpoint"
  shows "HID_Host_ConfigurePipes ok cfg (of_nat CONFIG1_DESC_SIZE) (config1_descriptor @ x # y # post) h =
    Some (HID_ENUMERROR_NoError,
      cleared_state\<lparr>IsActive := True, DataINPipeSize := 8, SupportsBootProtocol := True,
        HIDReportSize := of_nat (length joystick_hid_report_desc), LargestReportSize := 8\<rparr>,
      (let n = unat (DataINPipeNumber cfg)
       in h\<lparr>pipes := (pipes h)[n := configured (pipes h ! n) PIPE_TOKEN_IN 0x83 8
            (if DataINPipeDoubleBank cfg then PIPE_BANK_DOUBLE else PIPE_BANK_SINGLE)], UPNUM := n\<rparr>))"
proof -
  let ?mem = "config1_descriptor @ x # y # post"
  let ?bank = "if DataINPipeDoubleBank cfg then PIPE_BANK_DOUBLE else PIPE_BANK_SINGLE"
  let ?h = "let n = unat (DataINPipeNumber cfg)
       in h\<lparr>pipes := (pipes h)[n := configured (pipes h ! n) PIPE_TOKEN_IN 0x83 8 ?bank], UPNUM := n\<rparr>"
  note s = joystick_searches [OF assms(4,3) refl, of x post]
  have size: "(of_nat CONFIG1_DESC_SIZE :: u16) = 34"
    by (simp add: CONFIG1_DESC_SIZE_def)
  have interface: "interface_loop ?mem (HIDInterfaceProtocol cfg) 34 0 h = Some (Some (25, 9), h)"
    using assms(2) by (auto simp: loop_steps s(1)) (auto simp: byte_at_def config1_bytes)
  obtain b where "Pipe_ConfigurePipe ok (DataINPipeNumber cfg) PIPE_EP_TYPE_INTERRUPT PIPE_TOKEN_IN 0x83 8 ?bank h = Some (b, ?h)"
    using configure_pipe [OF assms(1), of ok PIPE_TOKEN_IN "0x83" 8 ?bank] by (auto simp: Let_def)
  then have bind: "bind_endpoint ok cfg ?mem 27 (False, False) st h = Some ((True, False), st\<lparr>DataINPipeSize := 8\<rparr>, ?h)" for st
    by (simp add: bind_endpoint_def endpoint_Address_def word_at_def byte_at_def config1_bytes)
  obtain e r l where "USB_GetNextDescriptorComp ?mem (DComp_HID_Host_NextHIDInterfaceEndpoint ok ?mem) 7 27 ?h = Some (e, r, l, ?h)" "e \<noteq> 0"
    using s(4) by blast
  then have endpoints: "endpoint_loop ok cfg ?mem 16 18 (False, False) st h = Some (HID_ENUMERROR_NoError, st\<lparr>DataINPipeSize := 8\<rparr>, ?h)" for st
    using s(3) bind by (simp add: loop_steps)
  have fields: "DESCRIPTOR_TYPE ?mem 0 = Some 2" "byte_at ?mem 11 = Some 0" "byte_at ?mem 15 = Some 1" "word_at ?mem 25 = Some 67"
      "of_nat (length joystick_hid_report_desc) = (67 :: u16)"
    by (simp_all add: DESCRIPTOR_TYPE_def byte_at_def word_at_def config1_bytes joystick_hid_report_desc_def)
  show ?thesis
    using interface s(2) endpoints fields by (simp add: HID_Host_ConfigurePipes_def size cleared_state_def)
qed

theorem joystick_pipes_witness:
  "\<exists>st h. HID_Host_ConfigurePipes allocated sample_config 34 (config1_descriptor @ [0, 0]) free_host = Some (HID_ENUMERROR_NoError, st, h)"
proof -
  have "\<not> fst (Pipe_IsEndpointBound allocated 0x83 free_host)"
    by code_simp
  then show ?thesis
    using joystick_pipes [of sample_config free_host allocated 0 0 "[]"]
    by (simp add: sample_config_def free_host_def CONFIG1_DESC_SIZE_def)
qed

text \<open>With other bytes behind the descriptor the host binds its OUT pipe to an endpoint the joystick does not have.\<close>

lemma joystick_ghost_endpoint:
  "case HID_Host_ConfigurePipes allocated sample_config 34 (config1_descriptor @ [7, 5, 2, 3, 64, 0]) free_host of
     Some (e, st, h) \<Rightarrow> e = HID_ENUMERROR_NoError \<and> DeviceUsesOUTPipe st \<and> UPCFG0X (pipes h ! 2) = 0xE2
   | None \<Rightarrow> False"
  by code_simp

section \<open>Reports\<close>

text \<open>C9: a host and the joystick: when the next bytes the pipe delivers are a report of the firmware,
  \<open>HID_Host_ReceiveReport\<close>, if it succeeds, has taken exactly this report, and reading the items of the parsed descriptor
  from it gives the four axes, the direction of the hat and the twelve buttons.\<close>

theorem joystick_report_received:
  assumes "USB_ProcessHIDReport (\<lambda>_. True) joystick_hid_report_desc = Some (e, p)"
    and "HID_Host_ReceiveReport cfg st (Some p) h = Some (0, bs, t)" and "\<not> UsingBootProtocol st"
    and "delivered h = report s @ rest"
  shows "bs = report s \<and> delivered t = rest \<and>
    map (\<lambda>it. map_option (\<lambda>(ok, it'). (ok, Value it')) (USB_GetHIDReportItemInfo bs it)) (ReportItems p) =
    map (\<lambda>v. Some (True, Some v)) (joystick_values s)"
proof -
  have p: "\<not> UsingReportIDs p" "USB_GetHIDReportSize p 0 In = 6"
    using joystick_parse assms(1) by simp_all
  then have "delivered h = bs @ delivered t" "length bs = length (report s)"
    using receive_report_view [OF assms(2,3)] by (simp_all add: report_def)
  with assms(4) have "bs = report s" "delivered t = rest"
    by simp_all
  with joystick_items_read [of s] assms(1) show ?thesis
    by auto
qed

text \<open>The reads when a report is there.\<close>

definition report_reads :: "u8 list \<Rightarrow> (hreg \<times> u16) list" where
  "report_reads bs = [(HostLook, 0), (UPINTX, 1)] @ concat (map (\<lambda>b. [(UPINTX, 0x20), (UPDATX, ucast b)]) bs) @ [(UPINTX, 0x21)]"

definition receiving_host :: "u8 list \<Rightarrow> host" where
  "receiving_host bs = free_host\<lparr>USB_HostState := HOST_STATE_Configured, hreads := report_reads bs\<rparr>"

lemma receive_run:
  assumes "USB_GetHIDReportSize p 0 In = 6" "\<not> UsingReportIDs p"
  shows "\<exists>t. HID_Host_ReceiveReport sample_config (cleared_state\<lparr>IsActive := True\<rparr>) (Some p)
    (receiving_host [a, b, c, d, e, f]) = Some (0, [a, b, c, d, e, f], t)"
  using assms
  by (simp add: HID_Host_ReceiveReport_def attached_def receiving_host_def report_reads_def free_host_def cleared_state_def
    sample_config_def report_size_def Pipe_Read_Stream_LE_def pipe_stream_read_def Pipe_WaitUntilReady_def pipe_wait_loop.simps [of 100]
    pipe_read_loop.simps [of 6] pipe_read_loop.simps [of 5] pipe_read_loop.simps [of 4] pipe_read_loop.simps [of 3]
    pipe_read_loop.simps [of 2] pipe_read_loop.simps [of 1] pipe_read_loop.simps [of 0] pipe_defs frame_defs hrd_def hwr_def
    on_pipe_def Pipe_SelectPipe_def Pipe_GetPipeToken_def byte_back bit_simps Let_def)

theorem joystick_report_received_witness:
  "\<forall>s. \<exists>p t. USB_ProcessHIDReport (\<lambda>_. True) joystick_hid_report_desc = Some (HID_PARSE_Successful, p) \<and>
    HID_Host_ReceiveReport sample_config (cleared_state\<lparr>IsActive := True\<rparr>) (Some p) (receiving_host (report s)) =
      Some (0, report s, t) \<and>
    map (\<lambda>it. map_option (\<lambda>(ok, it'). (ok, Value it')) (USB_GetHIDReportItemInfo (report s) it)) (ReportItems p) =
    map (\<lambda>v. Some (True, Some v)) (joystick_values s)"
proof
  fix s
  obtain p where p: "USB_ProcessHIDReport (\<lambda>_. True) joystick_hid_report_desc = Some (HID_PARSE_Successful, p)"
      "USB_GetHIDReportSize p 0 In = 6" "\<not> UsingReportIDs p"
    using joystick_parse by (auto split: option.splits)
  obtain t where t: "HID_Host_ReceiveReport sample_config (cleared_state\<lparr>IsActive := True\<rparr>) (Some p) (receiving_host (report s)) =
      Some (0, report s, t)"
    using receive_run [OF p(2,3)] by (fastforce simp: report_def)
  have "delivered (receiving_host (report s)) = report s @ []"
    by (simp add: delivered_def receiving_host_def report_reads_def report_def byte_back)
  from joystick_report_received [OF p(1) t _ this] p(1) t show "\<exists>p t. USB_ProcessHIDReport (\<lambda>_. True) joystick_hid_report_desc = Some (HID_PARSE_Successful, p) \<and>
    HID_Host_ReceiveReport sample_config (cleared_state\<lparr>IsActive := True\<rparr>) (Some p) (receiving_host (report s)) =
      Some (0, report s, t) \<and>
    map (\<lambda>it. map_option (\<lambda>(ok, it'). (ok, Value it')) (USB_GetHIDReportItemInfo (report s) it)) (ReportItems p) =
    map (\<lambda>v. Some (True, Some v)) (joystick_values s)"
    by (auto simp: cleared_state_def)
qed

end
