(* ===== verification/HostAnswers.thy ===== *)
theory HostAnswers
  imports HostTransfer
begin

text \<open>
  Control requests of the host to a device that answers, or falls silent. The reads of the registers such a
  device causes are written down (a frame passes whenever the host waits), with the number of frames the
  device takes for each answer.
\<close>

section \<open>The reads a device causes\<close>

text \<open>A frame passes in \<open>USB_Host_WaitMS\<close>, without a disconnection, an error or a stall.\<close>

abbreviation (input) "frame_reads \<equiv> [(UHINT, 0x20 :: u16), (UHINT, 0x20), (HostLook, 0), (UPINTX, 0), (UPINTX, 0)]"

fun silent :: "nat \<Rightarrow> (hreg \<times> u16) list" where
  "silent 0 = []"
| "silent (Suc k) = ((UPINTX, 0) # frame_reads) @ silent k"

definition waiting :: "nat \<Rightarrow> nat \<Rightarrow> (hreg \<times> u16) list" where
  "waiting b k = silent k @ [(UPINTX, push_bit b 1)]"

text \<open>The host takes the bytes of a packet, up to \<open>n\<close> of them.\<close>

fun take_reads :: "nat \<Rightarrow> u8 list \<Rightarrow> (hreg \<times> u16) list" where
  "take_reads n [] = [(UPBCX, 0)]"
| "take_reads 0 p = [(UPBCX, of_nat (length p))]"
| "take_reads (Suc n) (b # p) = (UPBCX, of_nat (length (b # p))) # (UPDATX, ucast b) # take_reads n p"

text \<open>The packets of the data stage, each with the frames it takes to come.\<close>

fun data_reads :: "nat \<Rightarrow> (nat \<times> u8 list) list \<Rightarrow> (hreg \<times> u16) list" where
  "data_reads n [] = []"
| "data_reads n ((k, p) # ps) =
     waiting RXINI k @ [(UPBCX, of_nat (length p))] @ take_reads n p @ [(UPINTX, 0)] @ data_reads (n - length p) ps"

text \<open>
  The device sends as long as the host asks, each time within a second; an empty packet is its last one.
  \<open>left n ps\<close> is what the host still asks for then.
\<close>

fun flows :: "nat \<Rightarrow> (nat \<times> u8 list) list \<Rightarrow> bool" where
  "flows n [] = True"
| "flows n ((k, p) # ps) =
     (n \<noteq> 0 \<and> k \<le> 1000 \<and> length p < 65536 \<and> (p = [] \<longrightarrow> ps = []) \<and> flows (n - length p) ps)"

fun left :: "nat \<Rightarrow> (nat \<times> u8 list) list \<Rightarrow> nat" where
  "left n [] = n"
| "left n ((k, p) # ps) = (if p = [] then 0 else left (n - length p) ps)"

section \<open>Waits\<close>

lemma tick:
  assumes "hreads h = frame_reads @ r" "USB_HostState h \<noteq> HOST_STATE_Unattached"
  shows "USB_Host_WaitMS 1 h = Some (0, h\<lparr>hreads := r, hwrites := hwrites h @ [(UPNUM h, UHINT, 0)]\<rparr>)"
  using assms
  by (cases h)
    (simp add: USB_Host_WaitMS_def USB_Host_IsBusSuspended_def frame_defs wait_ms_loop.simps [of 1]
      wait_ms_loop.simps [of 0] hrd_def hwr_def pipe_defs)

lemma wait_arrives:
  assumes "hreads h = waiting b k @ r" "USB_HostState h \<noteq> HOST_STATE_Unattached" "k \<le> unat n"
    and "\<And>h. arrived w h = hflag UPINTX b h" "b < 8"
  shows "wait_ios_loop w n h = Some (0, h\<lparr>hreads := r, hwrites := hwrites h @ replicate k (UPNUM h, UHINT, 0)\<rparr>)"
  using assms
proof (induction k arbitrary: n h)
  case 0
  then show ?case
    by (subst wait_ios_loop.simps) (simp add: hflag_def hrd_def waiting_def bit_simps)
next
  case (Suc k)
  let ?u = "h\<lparr>hreads := frame_reads @ silent k @ [(UPINTX, push_bit b 1)] @ r\<rparr>"
  let ?v = "h\<lparr>hreads := waiting b k @ r, hwrites := hwrites h @ [(UPNUM h, UHINT, 0)]\<rparr>"
  have u: "arrived w h = Some (False, ?u)"
    using Suc.prems(1,4,5) by (simp add: hflag_def hrd_def waiting_def)
  have "USB_Host_WaitMS 1 ?u = Some (0, ?v)"
    using tick [of ?u "waiting b k @ r"] Suc.prems(2) by (simp add: waiting_def)
  moreover have n: "n \<noteq> 0"
    using Suc.prems(3) by auto
  moreover from n have "k \<le> unat (n - 1)"
    using Suc.prems(3) by (simp add: unat_minus_one)
  ultimately have "wait_ios_loop w n h = wait_ios_loop w (n - 1) ?v"
    using u by (subst wait_ios_loop.simps) simp
  also have "\<dots> = Some (0, ?v\<lparr>hreads := r, hwrites := hwrites ?v @ replicate k (UPNUM ?v, UHINT, 0)\<rparr>)"
    using Suc.prems \<open>k \<le> unat (n - 1)\<close> by (intro Suc.IH) simp_all
  finally show ?case
    by (simp add: replicate_append_same [symmetric])
qed

text \<open>A device that does not answer for more than a second.\<close>

lemma wait_times_out:
  assumes "hreads h = silent (Suc k) @ r" "USB_HostState h \<noteq> HOST_STATE_Unattached" "k = unat n"
    and "\<And>h. arrived w h = hflag UPINTX b h"
  shows "wait_ios_loop w n h = Some (4, h\<lparr>hreads := r, hwrites := hwrites h @ replicate (Suc k) (UPNUM h, UHINT, 0)\<rparr>)"
  using assms
proof (induction k arbitrary: n h)
  case 0
  then have "n = 0"
    by (simp add: unat_eq_0)
  with 0 show ?case
    using tick [of "h\<lparr>hreads := frame_reads @ r\<rparr>" r]
    by (subst wait_ios_loop.simps) (simp add: hflag_def hrd_def)
next
  case (Suc k)
  let ?u = "h\<lparr>hreads := frame_reads @ silent (Suc k) @ r\<rparr>"
  let ?v = "h\<lparr>hreads := silent (Suc k) @ r, hwrites := hwrites h @ [(UPNUM h, UHINT, 0)]\<rparr>"
  have u: "arrived w h = Some (False, ?u)"
    using Suc.prems(1,4) by (simp add: hflag_def hrd_def)
  have "USB_Host_WaitMS 1 ?u = Some (0, ?v)"
    using tick [of ?u "silent (Suc k) @ r"] Suc.prems(2) by simp
  moreover have n: "n \<noteq> 0"
    using Suc.prems(3) by auto
  moreover from n have "k = unat (n - 1)"
    using Suc.prems(3) by (simp add: unat_minus_one)
  ultimately have "wait_ios_loop w n h = wait_ios_loop w (n - 1) ?v"
    using u by (subst wait_ios_loop.simps) simp
  also have "\<dots> = Some (4, ?v\<lparr>hreads := r, hwrites := hwrites ?v @ replicate (Suc k) (UPNUM ?v, UHINT, 0)\<rparr>)"
    using Suc.prems \<open>k = unat (n - 1)\<close> by (intro Suc.IH) simp_all
  finally show ?case
    by (simp add: replicate_append_same [symmetric])
qed

section \<open>The data stage\<close>

lemma take_bytes_reads:
  assumes "hreads h = take_reads (unat n) p @ r" "length p < 65536"
  shows "take_bytes n got h = Some (n - of_nat (min (unat n) (length p)), got @ take (unat n) p, h\<lparr>hreads := r\<rparr>)"
  using assms
proof (induction p arbitrary: n got h)
  case Nil
  then show ?case
    by (subst take_bytes.simps) (simp add: Pipe_BytesInPipe_def hrd_def)
next
  case (Cons b p)
  show ?case
  proof (cases "n = 0")
    case True
    with Cons.prems show ?thesis
      by (subst take_bytes.simps) (simp add: Pipe_BytesInPipe_def hrd_def)
  next
    case False
    then obtain m where m: "unat n = Suc m"
      by (metis not0_implies_Suc unat_eq_0)
    with False have n1: "unat (n - 1) = m"
      by (simp add: unat_minus_one)
    have "unat (of_nat (length (b # p)) :: u16) = length (b # p)"
      using Cons.prems(2) by (simp add: unat_of_nat del: of_nat_Suc)
    then have "(of_nat (length (b # p)) :: u16) \<noteq> 0"
      by (metis list.size(4) One_nat_def add_is_0 unat_0 zero_neq_one add_Suc_right nat.simps(3))
    then have "take_bytes n got h = take_bytes (n - 1) (got @ [b]) (h\<lparr>hreads := take_reads m p @ r\<rparr>)"
      using Cons.prems False m
      by (subst take_bytes.simps) (simp add: Pipe_BytesInPipe_def Pipe_Read_Byte_def hrd_def byte_back)
    also have "\<dots> = Some (n - 1 - of_nat (min (unat (n - 1)) (length p)), (got @ [b]) @ take (unat (n - 1)) p, h\<lparr>hreads := r\<rparr>)"
      using Cons.prems n1 Cons.IH [of "h\<lparr>hreads := take_reads m p @ r\<rparr>" "n - 1" "got @ [b]"] by simp
    finally show ?thesis
      by (simp add: m n1 algebra_simps)
  qed
qed

text \<open>All but the log, the script and the configuration of the pipes.\<close>

definition same_but :: "host \<Rightarrow> host \<Rightarrow> bool" where
  "same_but h t \<longleftrightarrow> USB_HostState t = USB_HostState h \<and> HostRequest t = HostRequest h \<and>
     USB_ControlPipeSize t = USB_ControlPipeSize h \<and> SOFEN t = SOFEN h \<and> UPNUM t = UPNUM h"

lemma same_but_updates [simp]:
  "same_but h h" "same_but h (t\<lparr>hreads := rs\<rparr>) = same_but h t" "same_but h (t\<lparr>hwrites := ws\<rparr>) = same_but h t"
  "same_but h (on_pipe f t) = same_but h t" "same_but h (hwr r x t) = same_but h t"
  "same_but (h\<lparr>hreads := rs\<rparr>) t = same_but h t" "same_but (h\<lparr>hwrites := ws\<rparr>) t = same_but h t"
  "same_but (on_pipe f h) t = same_but h t" "same_but (hwr r x h) t = same_but h t"
  by (simp_all add: same_but_def on_pipe_def hwr_def)

lemma same_but_trans: "same_but h t \<Longrightarrow> same_but t u \<Longrightarrow> same_but h u"
  by (simp add: same_but_def)

lemma same_but_write: "same_but h (write_bytes bs h)"
proof (induction bs arbitrary: h)
  case (Cons b bs)
  show ?case
    using Cons [of "Pipe_Write_Byte b h"] by (simp add: Pipe_Write_Byte_def)
qed simp

lemma WaitForIOS_arrives:
  assumes "hreads h = waiting b k @ r" "USB_HostState h \<noteq> HOST_STATE_Unattached" "k \<le> 1000"
    and "(w, b) \<in> {(USB_HOST_WAITFOR_SetupSent, TXSTPI), (USB_HOST_WAITFOR_InReceived, RXINI), (USB_HOST_WAITFOR_OutReady, TXOUTI)}"
  shows "\<exists>t. USB_Host_WaitForIOS w h = Some (0, t) \<and> hreads t = r \<and> same_but h t"
proof -
  have "\<And>h. arrived w h = hflag UPINTX b h" "b < 8"
    using assms(4) by (auto simp: pipe_defs)
  with assms(1-3) show ?thesis
    by (subst USB_Host_WaitForIOS_def) (auto simp: wait_arrives)
qed

lemma in_stage_packets:
  assumes "hreads h = data_reads (unat n) ps @ r" "USB_HostState h \<noteq> HOST_STATE_Unattached" "flows (unat n) ps"
  shows "\<exists>t. in_stage n got h = in_stage (of_nat (left (unat n) ps)) (got @ take (unat n) (concat (map snd ps))) t \<and>
    hreads t = r \<and> same_but h t"
  using assms
proof (induction ps arbitrary: n got h)
  case Nil
  then show ?case
    by (intro exI [of _ h]) simp
next
  case (Cons kp ps)
  obtain k p where kp: "kp = (k, p)"
    by fastforce
  let ?rest = "[(UPBCX, of_nat (length p))] @ take_reads (unat n) p @ [(UPINTX, 0)] @ data_reads (unat n - length p) ps @ r"
  have flow: "n \<noteq> 0" "k \<le> 1000" "length p < 65536" "p = [] \<longrightarrow> ps = []" "flows (unat n - length p) ps"
    using Cons.prems(3) kp by (auto simp: unat_eq_0)
  have "hreads (Pipe_Unfreeze h) = waiting RXINI k @ ?rest" "USB_HostState (Pipe_Unfreeze h) \<noteq> HOST_STATE_Unattached"
    using Cons.prems(1,2) kp by (simp_all add: Pipe_Unfreeze_def on_pipe_def)
  from WaitForIOS_arrives [OF this flow(2), of USB_HOST_WAITFOR_InReceived] obtain u where u:
      "USB_Host_WaitForIOS USB_HOST_WAITFOR_InReceived (Pipe_Unfreeze h) = Some (0, u)" "hreads u = ?rest"
      "same_but h u"
    by (auto simp: Pipe_Unfreeze_def)
  let ?n = "if p = [] then 0 else n" and ?v = "u\<lparr>hreads := take_reads (unat n) p @ [(UPINTX, 0)] @ data_reads (unat n - length p) ps @ r\<rparr>"
  let ?w = "?v\<lparr>hreads := [(UPINTX, 0)] @ data_reads (unat n - length p) ps @ r\<rparr>"
  have len: "unat (of_nat (length p) :: u16) = length p"
    using flow(3) by (simp add: unat_of_nat)
  then have count: "Pipe_BytesInPipe u = Some (of_nat (length p), ?v)" "(of_nat (length p) = (0 :: u16)) = (p = [])"
    using u(2) by (simp_all add: Pipe_BytesInPipe_def hrd_def flip: unat_eq_0)
  have "hreads ?v = take_reads (unat ?n) p @ [(UPINTX, 0)] @ data_reads (unat n - length p) ps @ r"
    by (cases p) simp_all
  from take_bytes_reads [OF this flow(3), of got]
  have taken: "take_bytes ?n got ?v = Some (?n - of_nat (min (unat ?n) (length p)), got @ take (unat n) p, ?w)"
    by (cases p) simp_all
  obtain x where x: "Pipe_ClearIN (Pipe_Freeze ?w) = Some x" "hreads x = data_reads (unat n - length p) ps @ r" "same_but u x"
    by (simp add: Pipe_ClearIN_def acknowledge_def hrd_def Pipe_Freeze_def on_pipe_def hwr_def same_but_def)
  let ?m = "?n - of_nat (min (unat ?n) (length p))"
  have step: "in_stage n got h = in_stage ?m (got @ take (unat n) p) x"
    using flow(1) u(1) count taken x(1) by (subst in_stage.simps) simp
  show ?case
  proof (cases "p = []")
    case True
    with flow(4) kp step x u(3) show ?thesis
      by (intro exI [of _ x]) (auto intro: same_but_trans)
  next
    case False
    have m: "unat ?m = unat n - length p"
      using False len
      by (simp add: min_def unat_sub word_le_nat_alt split: if_splits)
    have "USB_HostState x \<noteq> HOST_STATE_Unattached"
      using u(3) x(3) Cons.prems(2) by (simp add: same_but_def)
    with Cons.IH [of x ?m "got @ take (unat n) p"] x(2) flow(5) m obtain t where
        "in_stage ?m (got @ take (unat n) p) x = in_stage (of_nat (left (unat n - length p) ps))
          ((got @ take (unat n) p) @ take (unat n - length p) (concat (map snd ps))) t" "hreads t = r" "same_but x t"
      by auto
    with step kp False x(3) u(3) show ?thesis
      by (intro exI [of _ t]) (auto intro: same_but_trans)
  qed
qed

section \<open>Requests that read\<close>

text \<open>
  A whole request: a frame passes, the request is sent, acknowledged after \<open>a\<close> frames, a frame passes,
  the data come, and the status is taken after \<open>b\<close> and \<open>c\<close> frames.
\<close>

definition setup_reads :: "nat \<Rightarrow> (hreg \<times> u16) list" where
  "setup_reads a = frame_reads @ [(UPINTX, 0)] @ waiting TXSTPI a @ frame_reads"

definition status_reads :: "nat \<Rightarrow> nat \<Rightarrow> (hreg \<times> u16) list" where
  "status_reads b c = waiting TXOUTI b @ [(UPINTX, 0)] @ waiting TXOUTI c"

lemma setup_arrives:
  assumes "hreads h = setup_reads a @ r" "USB_HostState h \<noteq> HOST_STATE_Unattached" "a \<le> 1000"
  shows "\<exists>t. setup_stage h = Some (0, t) \<and> hreads t = r \<and> same_but h t"
proof -
  let ?r = "[(UPINTX, 0)] @ waiting TXSTPI a @ frame_reads @ r"
  let ?u = "h\<lparr>hreads := ?r, hwrites := hwrites h @ [(UPNUM h, UHINT, 0)]\<rparr>"
  have u: "USB_Host_WaitMS 1 h = Some (0, ?u)"
    using assms(1,2) by (intro tick) (simp_all add: setup_reads_def)
  let ?v = "Pipe_Unfreeze (Pipe_ClearErrorFlags (Pipe_SetPipeToken PIPE_TOKEN_SETUP ?u))"
  let ?w = "write_bytes (header_bytes (HostRequest ?v)) ?v"
  have v: "same_but h ?v" "hreads ?w = ?r"
    by (simp_all add: frame_defs)
  with same_but_write [of ?v "header_bytes (HostRequest ?v)"] have w: "same_but h ?w"
    using same_but_trans by blast
  obtain x where x: "Pipe_ClearSETUP ?w = Some x" "hreads x = waiting TXSTPI a @ frame_reads @ r" "same_but ?w x"
    using v(2) by (simp add: Pipe_ClearSETUP_def acknowledge_def hrd_def del: pipe_ops_hreads)
  have "USB_HostState x \<noteq> HOST_STATE_Unattached"
    using assms(2) w x(3) by (simp add: same_but_def)
  from WaitForIOS_arrives [OF x(2) this assms(3), of USB_HOST_WAITFOR_SetupSent] obtain y where y:
      "USB_Host_WaitForIOS USB_HOST_WAITFOR_SetupSent x = Some (0, y)" "hreads y = frame_reads @ r" "same_but x y"
    by auto
  have "hreads (Pipe_Freeze y) = frame_reads @ r" "USB_HostState (Pipe_Freeze y) \<noteq> HOST_STATE_Unattached"
    using y(2,3) x(3) w assms(2) by (simp_all add: same_but_def Pipe_Freeze_def on_pipe_def)
  from tick [OF this] obtain t where "USB_Host_WaitMS 1 (Pipe_Freeze y) = Some (0, t)" "hreads t = r" "same_but y t"
    by (simp add: Pipe_Freeze_def)
  with u x(1) y(1,3) x(3) w show ?thesis
    by (intro exI [of _ t]) (auto simp: setup_stage_def Let_def intro: same_but_trans)
qed

lemma status_arrives:
  assumes "hreads h = status_reads b c @ r" "USB_HostState h \<noteq> HOST_STATE_Unattached" "b \<le> 1000" "c \<le> 1000"
  shows "\<exists>t. reading_status got h = Some (0, got, t) \<and> hreads t = r \<and> same_but h t"
proof -
  let ?h = "Pipe_Unfreeze (Pipe_SetPipeToken PIPE_TOKEN_OUT h)"
  have "hreads ?h = waiting TXOUTI b @ [(UPINTX, 0)] @ waiting TXOUTI c @ r" "USB_HostState ?h \<noteq> HOST_STATE_Unattached"
    using assms(1,2) by (simp_all add: status_reads_def frame_defs on_pipe_def)
  from WaitForIOS_arrives [OF this assms(3), of USB_HOST_WAITFOR_OutReady] obtain u where u:
      "USB_Host_WaitForIOS USB_HOST_WAITFOR_OutReady ?h = Some (0, u)" "hreads u = [(UPINTX, 0)] @ waiting TXOUTI c @ r" "same_but h u"
    by (auto simp: frame_defs)
  then obtain v where v: "Pipe_ClearOUT u = Some v" "hreads v = waiting TXOUTI c @ r" "same_but u v"
    by (simp add: Pipe_ClearOUT_def acknowledge_def hrd_def)
  have "USB_HostState v \<noteq> HOST_STATE_Unattached"
    using assms(2) u(3) v(3) by (simp add: same_but_def)
  from WaitForIOS_arrives [OF v(2) this assms(4), of USB_HOST_WAITFOR_OutReady] obtain t where
      "USB_Host_WaitForIOS USB_HOST_WAITFOR_OutReady v = Some (0, t)" "hreads t = r" "same_but v t"
    by auto
  with u v show ?thesis
    by (intro exI [of _ t]) (auto simp: reading_status_def Let_def intro: same_but_trans)
qed

lemma request_of:
  assumes "hreads h = setup_reads a @ data_reads (unat n) ps @ r" "a \<le> 1000"
    and "bit (bmRequestType (HostRequest h)) 7" "n = wLength (HostRequest h)" "USB_HostState h \<noteq> HOST_STATE_Unattached"
    and "flows (unat n) ps"
  shows "\<exists>t. control_stages (Some buf) h = (do {
      (e, got, u) \<leftarrow> in_stage (of_nat (left (unat n) ps)) (take (unat n) (concat (map snd ps))) t;
      if e \<noteq> 0 then Some (e, got, u) else reading_status got u }) \<and>
    hreads t = r \<and> USB_HostState t = USB_HostState h"
proof -
  have "hreads (USB_Host_ResumeBus h) = setup_reads a @ data_reads (unat n) ps @ r"
      "USB_HostState (USB_Host_ResumeBus h) \<noteq> HOST_STATE_Unattached"
    using assms by (simp_all add: USB_Host_ResumeBus_def)
  from setup_arrives [OF this assms(2)] obtain u where u:
      "setup_stage (USB_Host_ResumeBus h) = Some (0, u)" "hreads u = data_reads (unat n) ps @ r"
      "same_but (USB_Host_ResumeBus h) u"
    by blast
  let ?u = "Pipe_SetPipeToken PIPE_TOKEN_IN u"
  have v: "hreads ?u = data_reads (unat n) ps @ r" "USB_HostState ?u = USB_HostState h" "HostRequest u = HostRequest h"
      "HostRequest ?u = HostRequest h"
    using u(2,3) by (simp_all add: same_but_def frame_defs on_pipe_def)
  with in_stage_packets [of ?u n ps r "[]"] assms(5,6) obtain t where
      "in_stage n [] ?u = in_stage (of_nat (left (unat n) ps)) (take (unat n) (concat (map snd ps))) t" "hreads t = r"
      "same_but ?u t"
    by auto
  with v u(1) assms(3,4) show ?thesis
    by (intro exI [of _ t]) (simp add: control_stages_def reading_stages_def direction_bit same_but_def Let_def)
qed

lemma left_le: "flows n ps \<Longrightarrow> left n ps \<le> n"
  by (induction n ps rule: left.induct) (auto intro: le_trans)

lemma send_of_stages:
  assumes "control_stages (Some buf) h = Some (e, got, u)" "length got \<le> length buf"
  shows "\<exists>t. USB_Host_SendControlRequest (Some buf) h = Some (e, Some (got @ drop (length got) buf), t) \<and> hreads t = hreads u"
  using assms by (simp add: USB_Host_SendControlRequest_def stored_def Let_def)

lemma control_in_finishes:
  assumes "hreads h = setup_reads a @ data_reads (unat (wLength (HostRequest h))) ps @ status_reads b c @ r"
    and "a \<le> 1000" "b \<le> 1000" "c \<le> 1000" and "flows (unat (wLength (HostRequest h))) ps"
    and "left (unat (wLength (HostRequest h))) ps = 0" and "bit (bmRequestType (HostRequest h)) 7"
    and "USB_HostState h \<noteq> HOST_STATE_Unattached"
    and "D = take (unat (wLength (HostRequest h))) (concat (map snd ps))" and "length D \<le> length buf"
  shows "\<exists>t. USB_Host_SendControlRequest (Some buf) h = Some (0, Some (D @ drop (length D) buf), t) \<and> hreads t = r"
proof -
  obtain t where t: "control_stages (Some buf) h = (do {
      (e, got, u) \<leftarrow> in_stage 0 D t; if e \<noteq> 0 then Some (e, got, u) else reading_status got u })"
      "hreads t = status_reads b c @ r" "USB_HostState t = USB_HostState h"
    using request_of [OF assms(1,2,7) refl assms(8,5)] assms(6,9) by auto
  moreover have "in_stage 0 D t = Some (0, D, t)"
    by (subst in_stage.simps) simp
  moreover obtain u where "reading_status D t = Some (0, D, u)" "hreads u = r"
    using status_arrives [OF t(2) _ assms(3,4)] t(3) assms(8) by auto
  ultimately show ?thesis
    using send_of_stages [OF _ assms(10), of h 0 u] by simp
qed

text \<open>C20: a control request that reads from a device that answers each step within a second: when the packets have
  as many bytes as the request asks for, or the last one is empty, the request succeeds and the buffer
  has the bytes of the packets, up to those asked for; every read has been used.\<close>

theorem control_in_completes:
  assumes "hreads h = setup_reads a @ data_reads (unat (wLength (HostRequest h))) ps @ status_reads b c @ r"
    and "a \<le> 1000" "b \<le> 1000" "c \<le> 1000" and "flows (unat (wLength (HostRequest h))) ps"
    and "left (unat (wLength (HostRequest h))) ps = 0" and "bit (bmRequestType (HostRequest h)) 7"
    and "USB_HostState h \<noteq> HOST_STATE_Unattached"
    and "D = take (unat (wLength (HostRequest h))) (concat (map snd ps))" and "length D \<le> length buf"
  shows "\<exists>t. USB_Host_SendControlRequest (Some buf) h = Some (0, Some (D @ drop (length D) buf), t) \<and> hreads t = r"
  by (rule control_in_finishes [OF assms])

text \<open>C40: a request that reads from a device that has less to send than asked for and ends its data with a short
  packet, as USB has it, instead of an empty one: the host goes on asking, and after a second of silence gives up with
  \<open>HOST_SENDCONTROL_SoftwareTimeOut\<close>, all the data being in its buffer.\<close>

theorem short_packet_times_out:
  assumes "hreads h = setup_reads a @ data_reads (unat (wLength (HostRequest h))) ps @ silent 1001 @ r" and "a \<le> 1000"
    and "flows (unat (wLength (HostRequest h))) ps" "left (unat (wLength (HostRequest h))) ps \<noteq> 0"
    and "bit (bmRequestType (HostRequest h)) 7" "USB_HostState h \<noteq> HOST_STATE_Unattached"
    and "D = take (unat (wLength (HostRequest h))) (concat (map snd ps))" "length D \<le> length buf"
  shows "\<exists>t. USB_Host_SendControlRequest (Some buf) h = Some (4, Some (D @ drop (length D) buf), t) \<and> hreads t = r"
proof -
  let ?n = "unat (wLength (HostRequest h))"
  obtain t where t: "control_stages (Some buf) h = (do {
      (e, got, u) \<leftarrow> in_stage (of_nat (left ?n ps)) D t; if e \<noteq> 0 then Some (e, got, u) else reading_status got u })"
      "hreads t = silent 1001 @ r" "USB_HostState t = USB_HostState h"
    using request_of [OF assms(1,2,5) refl assms(6,3)] assms(7) by auto
  have "left ?n ps < 2 ^ 16"
    using left_le [OF assms(3)] unsigned_less [of "wLength (HostRequest h)", where ?'a = nat] by (simp del: unsigned_less)
  then have n: "(of_nat (left ?n ps) :: u16) \<noteq> 0"
    using assms(4) by (simp add: word_of_nat_eq_0_iff nat_dvd_not_less)
  have u: "hreads (Pipe_Unfreeze t) = silent (Suc 1000) @ r" "USB_HostState (Pipe_Unfreeze t) \<noteq> HOST_STATE_Unattached"
    using t(2,3) assms(6) by (simp_all only: pipe_ops_hreads) (simp_all add: Pipe_Unfreeze_def on_pipe_def)
  obtain v where "USB_Host_WaitForIOS USB_HOST_WAITFOR_InReceived (Pipe_Unfreeze t) = Some (4, v)" "hreads v = r"
    using wait_times_out [OF u, of 1000 USB_HOST_WAITFOR_InReceived RXINI]
    by (simp add: USB_Host_WaitForIOS_def Pipe_IsINReceived_def)
  with n have "in_stage (of_nat (left ?n ps)) D t = Some (4, D, v)"
    by (subst in_stage.simps) simp
  with t(1) \<open>hreads v = r\<close> show ?thesis
    using send_of_stages [OF _ assms(8), of h 4 v] by simp
qed

text \<open>Two packets for a request of three bytes; the device takes two frames for the second.\<close>

definition asking_host :: "(hreg \<times> u16) list \<Rightarrow> host" where
  "asking_host rs = \<lparr>pipes = replicate PIPE_TOTAL_PIPES \<lparr>UPCONX = 0, UPCFG0X = 0, UPCFG1X = 0\<rparr>, UPNUM = 0,
     hreads = rs, hwrites = [], SOFEN = False, USB_HostState = HOST_STATE_Default, USB_ControlPipeSize = 8,
     HostRequest = \<lparr>bmRequestType = 0x80, bRequest = 6, wValue = 0x0100, wIndex = 0, wLength = 3\<rparr>\<rparr>"

definition three_bytes :: "(hreg \<times> u16) list" where
  "three_bytes = setup_reads 1 @ data_reads 3 [(0, [18, 1]), (2, [0])] @ status_reads 0 5"

theorem control_in_completes_witness:
  "\<exists>t. USB_Host_SendControlRequest (Some [9, 9, 9, 9]) (asking_host three_bytes) = Some (0, Some [18, 1, 0, 9], t) \<and> hreads t = []"
  using control_in_completes [of "asking_host three_bytes" 1 "[(0, [18, 1]), (2, [0])]" 0 5 "[]" "[18, 1, 0]" "[9, 9, 9, 9]"]
  by (simp add: asking_host_def three_bytes_def bit_simps)

text \<open>C11: a control request that reads, whatever the hardware does: the buffer has the bytes that came through the
  pipe meanwhile, in their order, at most as many as the request says, and behind them what it had before; the
  only bytes the host has written to the pipe are those of the request.\<close>

theorem control_in_bytes:
  assumes "USB_Host_SendControlRequest buf h = Some (e, buf', t)" and "bit (bmRequestType (HostRequest h)) 7"
  shows "\<exists>got sent. delivered h = got @ delivered t \<and> length got \<le> unat (wLength (HostRequest h)) \<and>
    buf' = map_option (\<lambda>bs. got @ drop (length got) bs) buf \<and>
    written t = written h @ sent \<and> (sent = header_bytes (HostRequest h) \<or> sent = [] \<and> e \<noteq> 0)"
  using assms by (rule control_in_view)

theorem control_in_bytes_witness:
  "\<exists>t. USB_Host_SendControlRequest (Some [9, 9, 9, 9]) (asking_host three_bytes) = Some (0, Some [18, 1, 0, 9], t) \<and>
    written t = [0x80, 6, 0, 1, 0, 0, 3, 0]"
proof -
  obtain t where t: "USB_Host_SendControlRequest (Some [9, 9, 9, 9]) (asking_host three_bytes) = Some (0, Some [18, 1, 0, 9], t)"
    using control_in_finishes [of "asking_host three_bytes" 1 "[(0, [18, 1]), (2, [0])]" 0 5 "[]" "[18, 1, 0]" "[9, 9, 9, 9]"]
    by (auto simp: asking_host_def three_bytes_def bit_simps)
  from control_in_bytes [OF t] t show ?thesis
    by (auto simp: asking_host_def header_bytes_def written_def bit_simps)
qed

theorem short_packet_times_out_witness:
  "\<exists>t. USB_Host_SendControlRequest (Some [9, 9, 9, 9])
      (asking_host (setup_reads 0 @ data_reads 3 [(0, [18, 1])] @ silent 1001)) = Some (4, Some [18, 1, 9, 9], t) \<and> hreads t = []"
  using short_packet_times_out [of "asking_host (setup_reads 0 @ data_reads 3 [(0, [18, 1])] @ silent 1001)" 0
      "[(0, [18, 1])]" "[]" "[18, 1]" "[9, 9, 9, 9]"]
  by (simp add: asking_host_def bit_simps del: silent.simps)

end
