(* ===== verification/HostEnumeration.thy ===== *)
theory HostEnumeration
  imports HostAnswers
begin

text \<open>
  The state machine with which LUFA's host side enumerates a device: \<open>USB_Host_ProcessNextHostState\<close> and
  \<open>USB_Host_ResetDevice\<close> of \<open>Host.c\<close>, \<open>USB_HostTask\<close> of \<open>USBTask.c\<close>, and \<open>USB_ResetInterface\<close> of
  \<open>LowLevel.c\<close> for a part of series 6 or 7 that is host only. Busy waiting (\<open>_delay_ms\<close>) has no effect.
\<close>

section \<open>Power and controller (\<open>Host.h\<close>, \<open>LowLevel.h\<close>)\<close>

abbreviation (input) "DCONNI \<equiv> 0 :: nat"
abbreviation (input) "DDISCI \<equiv> 1 :: nat"
abbreviation (input) "SRPI \<equiv> 0 :: nat"
abbreviation (input) "VBERRI \<equiv> 1 :: nat"
abbreviation (input) "BCERRI \<equiv> 2 :: nat"

definition USB_Host_HostMode_On :: "host \<Rightarrow> host option" where
  "USB_Host_HostMode_On = hset USBCON 6"

definition USB_Host_VBUS_Auto_Enable :: "host \<Rightarrow> host option" where
  "USB_Host_VBUS_Auto_Enable h = do { h \<leftarrow> hclear OTGCON 2 h; hset UHWCON 4 h }"

definition USB_Host_VBUS_Manual_Enable :: "host \<Rightarrow> host option" where
  "USB_Host_VBUS_Manual_Enable h = do { h \<leftarrow> hset OTGCON 2 h; h \<leftarrow> hclear UHWCON 4 h; hset DDRE 7 h }"

definition USB_Host_VBUS_Auto_On :: "host \<Rightarrow> host option" where "USB_Host_VBUS_Auto_On = hset OTGCON 1"
definition USB_Host_VBUS_Manual_On :: "host \<Rightarrow> host option" where "USB_Host_VBUS_Manual_On = hset PORTE 7"
definition USB_Host_VBUS_Auto_Off :: "host \<Rightarrow> host option" where "USB_Host_VBUS_Auto_Off = hset OTGCON 0"
definition USB_Host_VBUS_Manual_Off :: "host \<Rightarrow> host option" where "USB_Host_VBUS_Manual_Off = hclear PORTE 7"

definition USB_OTGPAD_On :: "host \<Rightarrow> host option" where "USB_OTGPAD_On = hset USBCON 4"
definition USB_OTGPAD_Off :: "host \<Rightarrow> host option" where "USB_OTGPAD_Off = hclear USBCON 4"

definition USB_Host_SetDeviceAddress :: "u8 \<Rightarrow> host \<Rightarrow> host" where
  "USB_Host_SetDeviceAddress addr = hwr UHADDR (addr AND 0x7F)"

text \<open>\<open>UHCON\<close> keeps \<open>SOFEN\<close> and, while a reset goes on, \<open>RESET\<close>.\<close>

definition USB_Host_ResetBus :: "host \<Rightarrow> host" where
  "USB_Host_ResetBus h = hwr UHCON (of_bool (SOFEN h) OR 2) h"

function wait_reset :: "host \<Rightarrow> host option" where
  "wait_reset h = do { (resetting, h) \<leftarrow> hflag UHCON 1 h; if resetting then wait_reset h else Some h }"
  by pat_completeness auto
termination
  by (relation "measure (\<lambda>h. length (hreads h))") (auto simp: pipe_defs dest!: hrd_less split: bind_splits)

declare wait_reset.simps [simp del]

fun reset_loop :: "nat \<Rightarrow> host \<Rightarrow> host option" where
  "reset_loop 0 h = Some h"
| "reset_loop (Suc MSRem) h = do {
     (frame, h) \<leftarrow> hflag UHINT HSOFI h;
     if frame then do { h \<leftarrow> hclear UHINT HSOFI h; hclear UHINT DDISCI h }
     else reset_loop MSRem h }"

definition USB_Host_ResetDevice :: "host \<Rightarrow> host option" where
  "USB_Host_ResetDevice h = do {
     let BusSuspended = USB_Host_IsBusSuspended h;
     h \<leftarrow> hclear UHIEN DDISCI h;
     h \<leftarrow> wait_reset (USB_Host_ResetBus h);
     h \<leftarrow> hclear UHINT HSOFI (USB_Host_ResumeBus h);
     h \<leftarrow> reset_loop 10 h;
     let h = (if BusSuspended then USB_Host_SuspendBus h else h);
     hset UHIEN DDISCI h }"

section \<open>\<open>LowLevel.c\<close>\<close>

definition USB_INT_DisableAllInterrupts_host :: "host \<Rightarrow> host option" where
  "USB_INT_DisableAllInterrupts_host h = do {
     (x, h) \<leftarrow> hrd USBCON h;
     let h = hwr USBCON (unset_bit 0 (unset_bit 1 (ucast x))) h;
     Some (hwr OTGIEN 0 (hwr UHIEN 0 h)) }"

definition USB_INT_ClearAllInterrupts_host :: "host \<Rightarrow> host" where
  "USB_INT_ClearAllInterrupts_host h = hwr OTGINT 0 (hwr UHINT 0 (hwr USBINT 0 h))"

definition pll_prescaler :: u8 where "pll_prescaler = 0x0C"   \<comment> \<open>\<open>PLLP1\<close> and \<open>PLLP0\<close>: 8 MHz\<close>

function wait_pll_host :: "host \<Rightarrow> host option" where
  "wait_pll_host h = do { (ready, h) \<leftarrow> hflag PLLCSR 0 h; if ready then Some h else wait_pll_host h }"
  by pat_completeness auto
termination
  by (relation "measure (\<lambda>h. length (hreads h))") (auto simp: pipe_defs dest!: hrd_less split: bind_splits)

declare wait_pll_host.simps [simp del]

text \<open>\<open>USB_Options\<close> is the argument: bit 1 disables the regulator, bit 2 leaves the PLL to the application.\<close>

definition USB_ResetInterface_host :: "u8 \<Rightarrow> host \<Rightarrow> host option" where
  "USB_ResetInterface_host USB_Options h = do {
     h \<leftarrow> USB_INT_DisableAllInterrupts_host h;
     let h = USB_INT_ClearAllInterrupts_host h;
     let h = h\<lparr>USB_HostState := HOST_STATE_Unattached\<rparr>;
     h \<leftarrow> (if \<not> bit USB_Options 2 then do { h \<leftarrow> hset PLLCSR 1 (hwr PLLCSR pll_prescaler h); wait_pll_host h } else Some h);
     (Temp, h) \<leftarrow> hrd USBCON h;
     let h = hwr USBCON (set_bit 7 (ucast Temp)) (hwr USBCON (unset_bit 7 (ucast Temp)) h);
     h \<leftarrow> (if \<not> bit USB_Options 1 then hset UHWCON 0 h else hclear UHWCON 0 h);
     h \<leftarrow> hclear USBCON 5 h;
     h \<leftarrow> hclear UDCON 0 h;
     h \<leftarrow> USB_Host_HostMode_On h;
     h \<leftarrow> USB_Host_VBUS_Auto_Off h;
     h \<leftarrow> USB_OTGPAD_Off h;
     h \<leftarrow> USB_Host_VBUS_Manual_Enable h;
     h \<leftarrow> USB_Host_VBUS_Manual_On h;
     h \<leftarrow> hset OTGIEN SRPI h;
     hset OTGIEN BCERRI h }"

section \<open>The state machine\<close>

datatype host_event = DeviceAttached | DeviceUnattached | DeviceEnumerationFailed u8 u8 | DeviceEnumerationComplete | HostError u8

abbreviation (input) "HOST_ENUMERROR_NoError \<equiv> 0 :: u8"
abbreviation (input) "HOST_ENUMERROR_WaitStage \<equiv> 1 :: u8"
abbreviation (input) "HOST_ENUMERROR_ControlError \<equiv> 3 :: u8"
abbreviation (input) "HOST_ENUMERROR_PipeConfigError \<equiv> 4 :: u8"
abbreviation (input) "HOST_DEVICE_SETTLE_DELAY_MS \<equiv> 1500 :: u16"
abbreviation (input) "PIPE_CONTROLPIPE_DEFAULT_SIZE \<equiv> 64 :: u16"
abbreviation (input) "USB_HOST_DEVICEADDRESS \<equiv> 1 :: u8"

text \<open>The machine with the static variables of the function and the events it has raised.\<close>

record host_task =
  machine :: host
  WaitMSRemaining :: u16
  PostWaitState :: host_state
  events :: "host_event list"

type_synonym stage_result = "(u8 \<times> u8 \<times> host_task) option"   \<comment> \<open>\<open>ErrorCode\<close> and \<open>SubErrorCode\<close>\<close>

definition enter :: "host_state \<Rightarrow> host_task \<Rightarrow> host_task" where
  "enter st t = t\<lparr>machine := (machine t)\<lparr>USB_HostState := st\<rparr>\<rparr>"

definition HOST_TASK_NONBLOCK_WAIT :: "u16 \<Rightarrow> host_state \<Rightarrow> host_task \<Rightarrow> host_task" where
  "HOST_TASK_NONBLOCK_WAIT duration nextstate t =
     (enter HOST_STATE_WaitForDevice t)\<lparr>WaitMSRemaining := duration, PostWaitState := nextstate\<rparr>"

definition stage_ok :: "host_task \<Rightarrow> stage_result" where
  "stage_ok t = Some (HOST_ENUMERROR_NoError, 0, t)"

definition waiting_stage :: "host_task \<Rightarrow> stage_result" where
  "waiting_stage t =
     (if WaitMSRemaining t \<noteq> 0 then do {
        (SubErrorCode, h) \<leftarrow> USB_Host_WaitMS 1 (machine t);
        let t = t\<lparr>machine := h\<rparr>;
        if SubErrorCode \<noteq> HOST_WAITERROR_Successful then
          Some (HOST_ENUMERROR_WaitStage, SubErrorCode, enter (PostWaitState t) t)
        else do {
          let t = t\<lparr>WaitMSRemaining := WaitMSRemaining t - 1\<rparr>;
          stage_ok (if WaitMSRemaining t = 0 then enter (PostWaitState t) t else t) } }
      else stage_ok t)"

definition settle_stage :: "host_task \<Rightarrow> stage_result" where
  "settle_stage t = do {
     let remaining = WaitMSRemaining t;
     let t = t\<lparr>WaitMSRemaining := WaitMSRemaining t - 1\<rparr>;
     if remaining \<noteq> 0 then stage_ok t
     else do {
       h \<leftarrow> USB_Host_VBUS_Manual_Off (machine t);
       h \<leftarrow> USB_OTGPAD_On h;
       h \<leftarrow> USB_Host_VBUS_Auto_Enable h;
       h \<leftarrow> USB_Host_VBUS_Auto_On h;
       stage_ok (enter HOST_STATE_Powered_WaitForConnect (t\<lparr>machine := h\<rparr>)) } }"

definition connect_stage :: "host_task \<Rightarrow> stage_result" where
  "connect_stage t = do {
     (connected, h) \<leftarrow> hflag UHINT DCONNI (machine t);
     if connected then do {
       h \<leftarrow> hclear UHINT DCONNI h;
       h \<leftarrow> hclear UHINT DDISCI h;
       h \<leftarrow> hclear OTGINT VBERRI h;
       h \<leftarrow> hset OTGIEN VBERRI h;
       h \<leftarrow> Pipe_ClearPipes (USB_Host_ResumeBus h);
       stage_ok (HOST_TASK_NONBLOCK_WAIT 100 HOST_STATE_Powered_DoReset (t\<lparr>machine := h\<rparr>)) }
     else stage_ok (t\<lparr>machine := h\<rparr>) }"

definition reset_stage :: "host_task \<Rightarrow> stage_result" where
  "reset_stage t = do {
     h \<leftarrow> USB_Host_ResetDevice (machine t);
     stage_ok (HOST_TASK_NONBLOCK_WAIT 200 HOST_STATE_Powered_ConfigPipe (t\<lparr>machine := h\<rparr>)) }"

definition config_pipe_stage :: "cfgok \<Rightarrow> host_task \<Rightarrow> stage_result" where
  "config_pipe_stage ok t = do {
     (_, h) \<leftarrow> Pipe_ConfigurePipe ok PIPE_CONTROLPIPE 0 PIPE_TOKEN_SETUP 0 PIPE_CONTROLPIPE_DEFAULT_SIZE PIPE_BANK_SINGLE (machine t);
     let t = t\<lparr>machine := h\<rparr>;
     if \<not> Pipe_IsConfigured ok h then Some (HOST_ENUMERROR_PipeConfigError, 0, t)
     else stage_ok (enter HOST_STATE_Default t) }"

text \<open>\<open>DataBuffer\<close> is not initialised; byte 7 of the device descriptor is the size of endpoint 0.\<close>

definition default_stage :: "u8 list \<Rightarrow> host_task \<Rightarrow> stage_result" where
  "default_stage DataBuffer t = do {
     (SubErrorCode, D, h) \<leftarrow> USB_Host_SendControlRequest (Some DataBuffer) (requesting 0x80 6 (push_bit 8 1) 0 8 (machine t));
     if SubErrorCode \<noteq> HOST_SENDCONTROL_Successful then Some (HOST_ENUMERROR_ControlError, SubErrorCode, t\<lparr>machine := h\<rparr>)
     else do {
       D \<leftarrow> D;
       n \<leftarrow> byte_at D 7;
       h \<leftarrow> USB_Host_ResetDevice (h\<lparr>USB_ControlPipeSize := n\<rparr>);
       stage_ok (HOST_TASK_NONBLOCK_WAIT 200 HOST_STATE_Default_PostReset (t\<lparr>machine := h\<rparr>)) } }"

definition address_stage :: "cfgok \<Rightarrow> host_task \<Rightarrow> stage_result" where
  "address_stage ok t = do {
     let h = Pipe_ResetPipe PIPE_CONTROLPIPE (Pipe_DeallocateMemory (Pipe_DisablePipe (machine t)));
     (_, h) \<leftarrow> Pipe_ConfigurePipe ok PIPE_CONTROLPIPE 0 PIPE_TOKEN_SETUP 0 (ucast (USB_ControlPipeSize h)) PIPE_BANK_SINGLE h;
     if \<not> Pipe_IsConfigured ok h then Some (HOST_ENUMERROR_PipeConfigError, 0, t\<lparr>machine := h\<rparr>)
     else do {
       (SubErrorCode, _, h) \<leftarrow> USB_Host_SendControlRequest None (requesting 0x00 5 (ucast USB_HOST_DEVICEADDRESS) 0 0 h);
       let t = t\<lparr>machine := h\<rparr>;
       if SubErrorCode \<noteq> HOST_SENDCONTROL_Successful then Some (HOST_ENUMERROR_ControlError, SubErrorCode, t)
       else stage_ok (HOST_TASK_NONBLOCK_WAIT 100 HOST_STATE_Default_PostAddressSet t) } }"

definition addressed_stage :: "host_task \<Rightarrow> stage_result" where
  "addressed_stage t =
     stage_ok (enter HOST_STATE_Addressed
       (t\<lparr>machine := USB_Host_SetDeviceAddress USB_HOST_DEVICEADDRESS (machine t), events := events t @ [DeviceEnumerationComplete]\<rparr>))"

fun host_stage :: "cfgok \<Rightarrow> u8 list \<Rightarrow> host_state \<Rightarrow> host_task \<Rightarrow> stage_result" where
  "host_stage ok D HOST_STATE_WaitForDevice t = waiting_stage t"
| "host_stage ok D HOST_STATE_Powered t =
     stage_ok (enter HOST_STATE_Powered_WaitForDeviceSettle (t\<lparr>WaitMSRemaining := HOST_DEVICE_SETTLE_DELAY_MS\<rparr>))"
| "host_stage ok D HOST_STATE_Powered_WaitForDeviceSettle t = settle_stage t"
| "host_stage ok D HOST_STATE_Powered_WaitForConnect t = connect_stage t"
| "host_stage ok D HOST_STATE_Powered_DoReset t = reset_stage t"
| "host_stage ok D HOST_STATE_Powered_ConfigPipe t = config_pipe_stage ok t"
| "host_stage ok D HOST_STATE_Default t = default_stage D t"
| "host_stage ok D HOST_STATE_Default_PostReset t = address_stage ok t"
| "host_stage ok D HOST_STATE_Default_PostAddressSet t = addressed_stage t"
| "host_stage ok D _ t = stage_ok t"

text \<open>The test at the end looks at the state again.\<close>

definition USB_Host_ProcessNextHostState :: "u8 \<Rightarrow> cfgok \<Rightarrow> u8 list \<Rightarrow> host_task \<Rightarrow> host_task option" where
  "USB_Host_ProcessNextHostState USB_Options ok DataBuffer t = do {
     (st, h) \<leftarrow> look_state (machine t);
     (ErrorCode, SubErrorCode, t) \<leftarrow> host_stage ok DataBuffer st (t\<lparr>machine := h\<rparr>);
     if ErrorCode = HOST_ENUMERROR_NoError then Some t
     else do {
       (st, h) \<leftarrow> look_state (machine t);
       let t = t\<lparr>machine := h\<rparr>;
       if st = HOST_STATE_Unattached then Some t
       else do {
         let t = t\<lparr>events := events t @ [DeviceEnumerationFailed ErrorCode SubErrorCode]\<rparr>;
         h \<leftarrow> USB_Host_VBUS_Auto_Off (machine t);
         let t = t\<lparr>events := events t @ [DeviceUnattached]\<rparr>;
         h \<leftarrow> USB_ResetInterface_host USB_Options h;
         Some (t\<lparr>machine := h\<rparr>) } } }"

definition USB_HostTask :: "u8 \<Rightarrow> cfgok \<Rightarrow> u8 list \<Rightarrow> host_task \<Rightarrow> host_task option" where
  "USB_HostTask USB_Options ok DataBuffer t = do {
     let PrevPipe = UPNUM (machine t);
     t \<leftarrow> USB_Host_ProcessNextHostState USB_Options ok DataBuffer (t\<lparr>machine := Pipe_SelectPipe PIPE_CONTROLPIPE (machine t)\<rparr>);
     Some (t\<lparr>machine := Pipe_SelectPipe (of_nat PrevPipe) (machine t)\<rparr>) }"

section \<open>The interrupt\<close>

text \<open>The part for the host of \<open>USB_GEN_vect\<close>: an interrupt is served when it has occurred and is enabled.\<close>

definition serving :: "hreg \<Rightarrow> hreg \<Rightarrow> nat \<Rightarrow> (host_task \<Rightarrow> host_task option) \<Rightarrow> host_task \<Rightarrow> host_task option" where
  "serving r en b f t = do {
     (occurred, h) \<leftarrow> hflag r b (machine t);
     let t = t\<lparr>machine := h\<rparr>;
     if occurred then do {
       (enabled, h) \<leftarrow> hflag en b (machine t);
       let t = t\<lparr>machine := h\<rparr>;
       if enabled then f t else Some t }
     else Some t }"

definition raise_event :: "host_event \<Rightarrow> host_task \<Rightarrow> host_task" where
  "raise_event e t = t\<lparr>events := events t @ [e]\<rparr>"

definition int_detached :: "u8 \<Rightarrow> host_task \<Rightarrow> host_task option" where
  "int_detached USB_Options t = do {
     h \<leftarrow> hclear UHINT DDISCI (machine t);
     h \<leftarrow> hclear UHINT DCONNI h;
     h \<leftarrow> hclear UHIEN DDISCI h;
     let t = raise_event DeviceUnattached t;
     h \<leftarrow> USB_ResetInterface_host USB_Options h;
     Some (t\<lparr>machine := h\<rparr>) }"

definition int_vbus_error :: "host_task \<Rightarrow> host_task option" where
  "int_vbus_error t = do {
     h \<leftarrow> hclear OTGINT VBERRI (machine t);
     h \<leftarrow> USB_Host_VBUS_Manual_Off h;
     h \<leftarrow> USB_Host_VBUS_Auto_Off h;
     Some (enter HOST_STATE_Unattached (raise_event DeviceUnattached (raise_event (HostError 0) (t\<lparr>machine := h\<rparr>)))) }"

definition int_attached :: "host_task \<Rightarrow> host_task option" where
  "int_attached t = do {
     h \<leftarrow> hclear OTGINT SRPI (machine t);
     h \<leftarrow> hclear OTGIEN SRPI h;
     let t = raise_event DeviceAttached t;
     h \<leftarrow> hset UHIEN DDISCI h;
     Some (enter HOST_STATE_Powered (t\<lparr>machine := h\<rparr>)) }"

definition int_no_device :: "u8 \<Rightarrow> host_task \<Rightarrow> host_task option" where
  "int_no_device USB_Options t = do {
     h \<leftarrow> hclear OTGINT BCERRI (machine t);
     let t = raise_event DeviceUnattached (raise_event (DeviceEnumerationFailed 2 0) t);
     h \<leftarrow> USB_ResetInterface_host USB_Options h;
     Some (t\<lparr>machine := h\<rparr>) }"

definition USB_GEN_vect_host :: "u8 \<Rightarrow> host_task \<Rightarrow> host_task option" where
  "USB_GEN_vect_host USB_Options t = do {
     t \<leftarrow> serving UHINT UHIEN DDISCI (int_detached USB_Options) t;
     t \<leftarrow> serving OTGINT OTGIEN VBERRI int_vbus_error t;
     t \<leftarrow> serving OTGINT OTGIEN SRPI int_attached t;
     serving OTGINT OTGIEN BCERRI (int_no_device USB_Options) t }"

section \<open>The order of the enumeration\<close>

text \<open>
  What the state machine promises: a device goes through the stages in their order, one at a time, or is taken
  as detached. The stage of a task that waits is the one it waits for.
\<close>

inductive enumerates :: "host_state \<Rightarrow> host_state \<Rightarrow> bool" where
  stays: "enumerates st st"
| detached: "enumerates st HOST_STATE_Unattached"
| settle: "enumerates HOST_STATE_Powered HOST_STATE_Powered_WaitForDeviceSettle"
| power: "enumerates HOST_STATE_Powered_WaitForDeviceSettle HOST_STATE_Powered_WaitForConnect"
| connected: "enumerates HOST_STATE_Powered_WaitForConnect HOST_STATE_Powered_DoReset"
| first_reset: "enumerates HOST_STATE_Powered_DoReset HOST_STATE_Powered_ConfigPipe"
| control_pipe: "enumerates HOST_STATE_Powered_ConfigPipe HOST_STATE_Default"
| pipe_size: "enumerates HOST_STATE_Default HOST_STATE_Default_PostReset"
| address: "enumerates HOST_STATE_Default_PostReset HOST_STATE_Default_PostAddressSet"
| complete: "enumerates HOST_STATE_Default_PostAddressSet HOST_STATE_Addressed"

declare enumerates.intros [simp]

definition stage_of :: "host_task \<Rightarrow> host_state" where
  "stage_of t = (if USB_HostState (machine t) = HOST_STATE_WaitForDevice then PostWaitState t else USB_HostState (machine t))"

lemma stage_of_machine: "USB_HostState h = USB_HostState (machine t) \<Longrightarrow> stage_of (t\<lparr>machine := h\<rparr>) = stage_of t"
  by (simp add: stage_of_def)

lemma hrd_state: "hrd r h = Some (x, t) \<Longrightarrow> USB_HostState t = USB_HostState h"
  by (auto simp: hrd_def split: list.splits if_splits)

lemma hwr_state [simp]: "USB_HostState (hwr r x h) = USB_HostState h"
  by (simp add: hwr_def)

lemma wait_ms_loop_state: "wait_ms_loop n h = Some (0, t) \<Longrightarrow> USB_HostState t = USB_HostState h"
proof (induction "length (hreads h)" arbitrary: n h rule: less_induct)
  case less
  have IH: "length (hreads u) < length (hreads h) \<longrightarrow> USB_HostState t = USB_HostState u"
    if "wait_ms_loop m u = Some (0, t)" for m u
    using less.hyps [OF _ that] by auto
  have reads: "hrd r u = Some (x, v) \<Longrightarrow> USB_HostState v = USB_HostState u \<and> length (hreads v) < length (hreads u)" for r u x v
    by (simp add: hrd_state hrd_less)
  from less.prems show ?case
    by (subst (asm) wait_ms_loop.simps)
      (auto simp: pipe_defs Let_def dest!: reads IH split: bind_splits if_splits)
qed

lemma WaitMS_state: "USB_Host_WaitMS n h = Some (0, t) \<Longrightarrow> USB_HostState t = USB_HostState h"
  by (auto simp: USB_Host_WaitMS_def USB_Host_ResumeBus_def USB_Host_SuspendBus_def Let_def
    dest!: wait_ms_loop_state split: bind_splits if_splits)

lemma reset_interface_state:
  assumes "USB_ResetInterface_host opts h = Some t"
  shows "USB_HostState t = HOST_STATE_Unattached"
proof -
  have set: "hset r b u = Some v \<Longrightarrow> USB_HostState v = USB_HostState u" "hclear r b u = Some v \<Longrightarrow> USB_HostState v = USB_HostState u" for r b u v
    by (auto simp: pipe_defs dest: hrd_state split: bind_splits)
  have pll: "wait_pll_host u = Some v \<Longrightarrow> USB_HostState v = USB_HostState u" for u v
  proof (induction u rule: wait_pll_host.induct)
    case (1 u)
    then show ?case
      by (subst (asm) (2) wait_pll_host.simps) (auto simp: pipe_defs dest: hrd_state split: bind_splits if_splits)
  qed
  show ?thesis
    using assms
    by (auto simp: USB_ResetInterface_host_def USB_Host_HostMode_On_def USB_Host_VBUS_Auto_Off_def USB_OTGPAD_Off_def
        USB_Host_VBUS_Manual_Enable_def USB_Host_VBUS_Manual_On_def Let_def
        dest!: set pll hrd_state split: bind_splits if_splits)
qed

lemma stage_order:
  assumes "host_stage ok D (USB_HostState (machine t)) t = Some (0, sub, u)"
  shows "enumerates (stage_of t) (stage_of u)"
proof (cases "USB_HostState (machine t)")
  case HOST_STATE_WaitForDevice
  with assms show ?thesis
    by (auto simp: waiting_stage_def stage_ok_def stage_of_def enter_def Let_def
      dest!: WaitMS_state split: bind_splits if_splits)
next
  case HOST_STATE_Powered_WaitForConnect
  with assms show ?thesis
    by (auto simp: connect_stage_def stage_ok_def stage_of_def enter_def HOST_TASK_NONBLOCK_WAIT_def hflag_def Let_def
      dest!: hrd_state split: bind_splits if_splits)
qed (use assms in \<open>auto simp: stage_ok_def stage_of_def enter_def HOST_TASK_NONBLOCK_WAIT_def settle_stage_def reset_stage_def config_pipe_stage_def default_stage_def address_stage_def addressed_stage_def Let_def
  split: bind_splits if_splits\<close>)

lemma look_cases:
  assumes "look_state h = Some (st, u)"
  shows "st = USB_HostState u" "USB_HostState u = USB_HostState h \<or> USB_HostState u = HOST_STATE_Unattached"
  using assms by (auto simp: look_state_def Let_def dest: hrd_state split: bind_splits if_splits)

lemma next_state_order:
  assumes "USB_Host_ProcessNextHostState opts ok D t = Some u"
  shows "enumerates (stage_of t) (stage_of u)"
proof -
  obtain st h where h: "look_state (machine t) = Some (st, h)"
    using assms by (auto simp: USB_Host_ProcessNextHostState_def split: bind_splits)
  let ?t = "t\<lparr>machine := h\<rparr>"
  obtain e sub v where v: "host_stage ok D st ?t = Some (e, sub, v)"
    using assms h by (auto simp: USB_Host_ProcessNextHostState_def split: bind_splits)
  show ?thesis
  proof (cases "e = 0")
    case True
    then have "u = v"
      using assms h v by (simp add: USB_Host_ProcessNextHostState_def)
    with True v look_cases [OF h] stage_order [of ok D ?t sub v] consider "enumerates (stage_of ?t) (stage_of u)" "USB_HostState h = USB_HostState (machine t)"
      | "USB_HostState h = HOST_STATE_Unattached" "u = ?t"
      by (auto simp: stage_ok_def)
    then show ?thesis
      by cases (simp_all add: stage_of_machine, simp add: stage_of_def)
  next
    case False
    obtain st' h' where h': "look_state (machine v) = Some (st', h')"
      using assms h v False by (auto simp: USB_Host_ProcessNextHostState_def split: bind_splits)
    then have "USB_HostState (machine u) = HOST_STATE_Unattached"
      using assms h v False look_cases(1) [OF h']
      by (auto simp: USB_Host_ProcessNextHostState_def Let_def dest!: reset_interface_state split: bind_splits if_splits)
    then show ?thesis
      by (simp add: stage_of_def)
  qed
qed

text \<open>C13: the state machine of the host: one call of \<open>USB_HostTask\<close>, whatever the hardware does, leaves the device at
  its stage of the enumeration, takes it to the next one in the order settle, power, connection, reset, control pipe,
  size of the pipe, address, addressed, or takes it as detached; no stage is left out, and the pipe selected before is selected again.\<close>

theorem enumeration_order:
  assumes "USB_HostTask opts ok D t = Some u" and "UPNUM (machine t) < 256"
  shows "enumerates (stage_of t) (stage_of u) \<and> UPNUM (machine u) = UPNUM (machine t)"
proof -
  obtain v where v: "USB_Host_ProcessNextHostState opts ok D (t\<lparr>machine := Pipe_SelectPipe PIPE_CONTROLPIPE (machine t)\<rparr>) = Some v"
      "u = v\<lparr>machine := Pipe_SelectPipe (of_nat (UPNUM (machine t))) (machine v)\<rparr>"
    using assms(1) by (auto simp: USB_HostTask_def Let_def split: bind_splits)
  from next_state_order [OF v(1)] v(2) assms(2) show ?thesis
    by (simp add: stage_of_machine Pipe_SelectPipe_def unat_of_nat)
qed

definition enumerating :: "host_state \<Rightarrow> (hreg \<times> u16) list \<Rightarrow> host_task" where
  "enumerating st rs = \<lparr>machine = (asking_host rs)\<lparr>USB_HostState := st\<rparr>, WaitMSRemaining = 7,
     PostWaitState = HOST_STATE_Powered_DoReset, events = []\<rparr>"

theorem enumeration_order_witness:
  "\<exists>u. USB_HostTask 0 (\<lambda>_ _. True) (replicate 8 0) (enumerating HOST_STATE_Powered [(HostLook, 0)]) = Some u \<and>
    enumerates HOST_STATE_Powered (stage_of u)"
proof -
  obtain u where "USB_HostTask 0 (\<lambda>_ _. True) (replicate 8 0) (enumerating HOST_STATE_Powered [(HostLook, 0)]) = Some u"
    by (simp add: USB_HostTask_def USB_Host_ProcessNextHostState_def enumerating_def asking_host_def look_state_def hrd_def
      stage_ok_def Pipe_SelectPipe_def Let_def)
  with enumeration_order [OF this] show ?thesis
    by (simp add: enumerating_def asking_host_def stage_of_def)
qed

text \<open>The interrupt only starts an enumeration or ends it.\<close>

lemma hflag_state: "hflag r b h = Some (x, t) \<Longrightarrow> USB_HostState t = USB_HostState h"
  by (auto simp: hflag_def dest: hrd_state split: bind_splits)

lemma serving_state:
  assumes "serving r en b f t = Some u"
    and "\<And>v. f v = Some u \<Longrightarrow> USB_HostState (machine u) \<in> S"
  shows "USB_HostState (machine u) = USB_HostState (machine t) \<or> USB_HostState (machine u) \<in> S"
  using assms(1) by (auto simp: serving_def Let_def dest!: hflag_state split: bind_splits if_splits)
    (use assms(2) in blast)

lemma interrupt_states:
  assumes "USB_GEN_vect_host opts t = Some u"
  shows "USB_HostState (machine u) \<in> {USB_HostState (machine t), HOST_STATE_Unattached, HOST_STATE_Powered}"
proof -
  obtain a b c where run: "serving UHINT UHIEN DDISCI (int_detached opts) t = Some a" "serving OTGINT OTGIEN VBERRI int_vbus_error a = Some b"
      "serving OTGINT OTGIEN SRPI int_attached b = Some c" "serving OTGINT OTGIEN BCERRI (int_no_device opts) c = Some u"
    using assms by (auto simp: USB_GEN_vect_host_def split: bind_splits)
  have "USB_HostState (machine w) \<in> {HOST_STATE_Unattached}" if "int_detached opts v = Some w" for v w
    using that by (auto simp: int_detached_def Let_def dest: reset_interface_state split: bind_splits)
  from serving_state [OF run(1) this] have a: "USB_HostState (machine a) \<in> {USB_HostState (machine t), HOST_STATE_Unattached}"
    by auto
  have "USB_HostState (machine w) \<in> {HOST_STATE_Unattached}" if "int_vbus_error v = Some w" for v w
    using that by (auto simp: int_vbus_error_def enter_def split: bind_splits)
  from serving_state [OF run(2) this] have b: "USB_HostState (machine b) \<in> {USB_HostState (machine a), HOST_STATE_Unattached}"
    by auto
  have "USB_HostState (machine w) \<in> {HOST_STATE_Powered}" if "int_attached v = Some w" for v w
    using that by (auto simp: int_attached_def enter_def Let_def split: bind_splits)
  from serving_state [OF run(3) this] have c: "USB_HostState (machine c) \<in> {USB_HostState (machine b), HOST_STATE_Powered}"
    by auto
  have "USB_HostState (machine w) \<in> {HOST_STATE_Unattached}" if "int_no_device opts v = Some w" for v w
    using that by (auto simp: int_no_device_def Let_def dest: reset_interface_state split: bind_splits)
  from serving_state [OF run(4) this] a b c show ?thesis
    by auto
qed

text \<open>A wait of \<open>n\<close> frames: so many calls, in each of which a frame passes.\<close>

fun tasks :: "u8 \<Rightarrow> cfgok \<Rightarrow> u8 list \<Rightarrow> nat \<Rightarrow> host_task \<Rightarrow> host_task option" where
  "tasks opts ok D 0 t = Some t"
| "tasks opts ok D (Suc n) t = do { t \<leftarrow> USB_HostTask opts ok D t; tasks opts ok D n t }"

fun frames_pass :: "nat \<Rightarrow> (hreg \<times> u16) list" where
  "frames_pass 0 = []"
| "frames_pass (Suc n) = ((HostLook, 0) # frame_reads) @ frames_pass n"

lemma wait_step:
  assumes "hreads (machine t) = ((HostLook, 0) # frame_reads) @ r" "USB_HostState (machine t) = HOST_STATE_WaitForDevice"
    and "WaitMSRemaining t \<noteq> 0"
  shows "\<exists>u. USB_HostTask opts ok D t = Some u \<and> hreads (machine u) = r \<and> events u = events t \<and>
    WaitMSRemaining u = WaitMSRemaining t - 1 \<and> PostWaitState u = PostWaitState t \<and>
    USB_HostState (machine u) = (if WaitMSRemaining t = 1 then PostWaitState t else HOST_STATE_WaitForDevice)"
proof -
  let ?h = "(Pipe_SelectPipe PIPE_CONTROLPIPE (machine t))\<lparr>hreads := frame_reads @ r\<rparr>"
  have "look_state (Pipe_SelectPipe PIPE_CONTROLPIPE (machine t)) = Some (HOST_STATE_WaitForDevice, ?h)"
    using assms(1,2) by (simp add: look_state_def hrd_def Pipe_SelectPipe_def)
  moreover have "USB_Host_WaitMS 1 ?h = Some (0, ?h\<lparr>hreads := r, hwrites := hwrites ?h @ [(UPNUM ?h, UHINT, 0)]\<rparr>)"
    using assms(2) by (intro tick) (simp_all add: Pipe_SelectPipe_def)
  ultimately show ?thesis
    using assms(2,3)
    by (simp add: USB_HostTask_def USB_Host_ProcessNextHostState_def waiting_stage_def stage_ok_def enter_def
      Pipe_SelectPipe_def Let_def)
qed

text \<open>A wait between two stages of the enumeration ends: after \<open>HOST_TASK_NONBLOCK_WAIT\<close> of \<open>n\<close> milliseconds, \<open>n\<close> calls of
  \<open>USB_HostTask\<close>, in each of which a frame passes without an error, take the state machine to the stage it waits for.\<close>

theorem wait_ends:
  assumes "hreads (machine t) = frames_pass (unat n) @ r" and "n \<noteq> 0"
  shows "\<exists>u. tasks opts ok D (unat n) (HOST_TASK_NONBLOCK_WAIT n st t) = Some u \<and> USB_HostState (machine u) = st \<and>
    hreads (machine u) = r \<and> events u = events t"
proof -
  have run: "\<exists>u. tasks opts ok D (unat m) t = Some u \<and> USB_HostState (machine u) = st \<and> hreads (machine u) = r \<and> events u = events t"
    if "unat m = Suc k" "hreads (machine t) = frames_pass (unat m) @ r" "USB_HostState (machine t) = HOST_STATE_WaitForDevice"
      "WaitMSRemaining t = m" "PostWaitState t = st" for k m t
    using that
  proof (induction k arbitrary: m t)
    case 0
    then have "m = 1"
      by (simp add: word_unat_eq_iff)
    with 0 wait_step [of t r opts ok D] show ?case
      by auto
  next
    case (Suc k)
    have "m \<noteq> 0" "m \<noteq> 1"
      using Suc.prems(1) by auto
    then have m: "m \<noteq> 0" "m \<noteq> 1" "unat (m - 1) = Suc k"
      using Suc.prems(1) by (simp_all add: unat_minus_one)
    with Suc.prems wait_step [of t "frames_pass (Suc k) @ r" opts ok D] obtain u where u: "USB_HostTask opts ok D t = Some u"
        "hreads (machine u) = frames_pass (unat (m - 1)) @ r" "events u = events t" "WaitMSRemaining u = m - 1"
        "PostWaitState u = st" "USB_HostState (machine u) = HOST_STATE_WaitForDevice"
      by auto
    with Suc.IH [OF m(3) u(2,6,4,5)] Suc.prems(1) m(3) show ?case
      by auto
  qed
  obtain k where "unat n = Suc k"
    using assms(2) by (metis not0_implies_Suc unat_eq_0)
  with run [of n k "HOST_TASK_NONBLOCK_WAIT n st t"] assms(1) show ?thesis
    by (simp add: HOST_TASK_NONBLOCK_WAIT_def enter_def)
qed

theorem wait_ends_witness:
  "\<exists>u. tasks 0 (\<lambda>_ _. True) [] 2 (HOST_TASK_NONBLOCK_WAIT 2 HOST_STATE_Powered_DoReset (enumerating HOST_STATE_Powered (frames_pass 2))) =
    Some u \<and> USB_HostState (machine u) = HOST_STATE_Powered_DoReset"
  using wait_ends [of "enumerating HOST_STATE_Powered (frames_pass 2)" 2 "[]" 0 "\<lambda>_ _. True" "[]" HOST_STATE_Powered_DoReset]
  by (auto simp: enumerating_def asking_host_def)

section \<open>Errors\<close>

text \<open>A device that is detached during a wait between two stages: the wait ends with an error and overwrites
  \<open>HOST_STATE_Unattached\<close>, which the interrupt has set, by the state it waited for. So the test for it fails, and
  the events for a failed enumeration and for a device that has gone are raised, the latter a second time after the interrupt.\<close>

theorem detached_reported_twice:
  assumes "USB_Host_ProcessNextHostState opts ok D t = Some u" and "USB_HostState (machine t) = HOST_STATE_WaitForDevice"
    and "hreads (machine t) = (HostLook, 0) # r" "WaitMSRemaining t \<noteq> 0" "PostWaitState t \<noteq> HOST_STATE_Unattached"
    and "USB_Host_WaitMS 1 ((machine t)\<lparr>hreads := r\<rparr>) = Some (1, h)" "hreads h = (HostLook, 0) # r'"
  shows "events u = events t @ [DeviceEnumerationFailed 1 1, DeviceUnattached] \<and> USB_HostState (machine u) = HOST_STATE_Unattached"
proof -
  have "look_state (machine t) = Some (HOST_STATE_WaitForDevice, (machine t)\<lparr>hreads := r\<rparr>)"
    using assms(2,3) by (simp add: look_state_def hrd_def)
  moreover have "look_state (h\<lparr>USB_HostState := PostWaitState t\<rparr>) = Some (PostWaitState t, h\<lparr>hreads := r', USB_HostState := PostWaitState t\<rparr>)"
    using assms(7) by (simp add: look_state_def hrd_def)
  ultimately show ?thesis
    using assms(1,4-6)
    by (auto simp: USB_Host_ProcessNextHostState_def waiting_stage_def enter_def Let_def dest: reset_interface_state split: bind_splits)
qed

definition detaching :: host_task where
  "detaching = enumerating HOST_STATE_WaitForDevice
     ([(HostLook, 0), (UHINT, 0), (HostLook, 1), (HostLook, 0)] @
      map (\<lambda>r. (r, 1)) [OTGCON, USBCON, PLLCSR, PLLCSR, USBCON, UHWCON, USBCON, UDCON, USBCON, OTGCON, USBCON, OTGCON,
        UHWCON, DDRE, PORTE, OTGIEN, OTGIEN])"

theorem detached_reported_twice_witness:
  "\<exists>u. USB_Host_ProcessNextHostState 0 (\<lambda>_ _. True) [] detaching = Some u \<and>
    events u = [DeviceEnumerationFailed 1 1, DeviceUnattached]"
proof -
  let ?r = "[(UHINT, 0), (HostLook, 1), (HostLook, 0)] @
      map (\<lambda>r. (r, 1)) [OTGCON, USBCON, PLLCSR, PLLCSR, USBCON, UHWCON, USBCON, UDCON, USBCON, OTGCON, USBCON, OTGCON,
        UHWCON, DDRE, PORTE, OTGIEN, OTGIEN]"
  have t: "USB_HostState (machine detaching) = HOST_STATE_WaitForDevice" "hreads (machine detaching) = (HostLook, 0) # ?r"
      "WaitMSRemaining detaching \<noteq> 0" "PostWaitState detaching \<noteq> HOST_STATE_Unattached" "events detaching = []"
    by (simp_all add: detaching_def enumerating_def asking_host_def)
  obtain h where h: "USB_Host_WaitMS 1 ((machine detaching)\<lparr>hreads := ?r\<rparr>) = Some (1, h)" "hreads h = drop 2 ?r"
    by (simp add: detaching_def enumerating_def asking_host_def USB_Host_WaitMS_def USB_Host_IsBusSuspended_def frame_defs
      wait_ms_loop.simps [of 1] pipe_defs hrd_def Let_def)
  obtain u where u: "USB_Host_ProcessNextHostState 0 (\<lambda>_ _. True) [] detaching = Some u"
    by (simp add: detaching_def enumerating_def asking_host_def USB_Host_ProcessNextHostState_def waiting_stage_def enter_def
      USB_Host_WaitMS_def USB_Host_IsBusSuspended_def frame_defs wait_ms_loop.simps [of 1] pipe_defs hrd_def hwr_def Let_def
      USB_Host_VBUS_Auto_Off_def USB_ResetInterface_host_def USB_INT_DisableAllInterrupts_host_def USB_INT_ClearAllInterrupts_host_def
      wait_pll_host.simps USB_Host_HostMode_On_def USB_OTGPAD_Off_def USB_Host_VBUS_Manual_Enable_def USB_Host_VBUS_Manual_On_def)
  from detached_reported_twice [OF u t(1-4) h(1)] h(2) u t(5) show ?thesis
    by simp
qed

end
