(* ===== verification/HostEmulator.thy ===== *)
theory HostEmulator
  imports HostAnswers SixpairEnumeration
begin

text \<open>
  A host with LUFA's host side reads a descriptor of the controller emulator: the bytes of the request the one
  writes are those the other reads, and the packets the one sends are those the other takes.
\<close>

lemma header_bytes_setup: "header_bytes q = setup_bytes q"
  by (simp add: header_bytes_def setup_bytes_def le16_def)

lemma packets_nonempty:
  assumes "0 < n" "length xs mod n \<noteq> 0" "p \<in> set (packets n xs)"
  shows "p \<noteq> [] \<and> length p \<le> n"
  using assms
proof (induction n xs rule: packets.induct)
  case (1 n xs)
  show ?case
  proof (cases "length xs < n")
    case True
    with 1 show ?thesis
      by (auto simp: packets_short)
  next
    case False
    then have "(length xs - n) mod n = length xs mod n"
      by (simp add: le_mod_geq)
    then have rest: "p \<in> set (packets n (drop n xs)) \<Longrightarrow> p \<noteq> [] \<and> length p \<le> n"
      using 1(1-3) False by simp
    have "packets n xs = take n xs # packets n (drop n xs)"
      by (rule packets_long [OF False 1(2)])
    then consider "p = take n xs" | "p \<in> set (packets n (drop n xs))"
      using 1(4) by auto
    then show ?thesis
    proof cases
      case 1
      with False \<open>0 < n\<close> show ?thesis
        by auto
    next
      case 2
      then show ?thesis
        by (rule rest)
    qed
  qed
qed

lemma flows_all:
  assumes "\<forall>p \<in> set ps. p \<noteq> [] \<and> length p < 65536" "\<forall>k \<in> set ks. k \<le> 1000" "length ks = length ps"
    and "length (concat ps) \<le> n"
  shows "flows n (zip ks ps) \<and> left n (zip ks ps) = n - length (concat ps)"
  using assms
proof (induction ps arbitrary: n ks)
  case (Cons p ps)
  then obtain k js where "ks = k # js"
    by (cases ks) auto
  moreover have "0 < n"
    using Cons.prems(1,4) by (cases p) auto
  ultimately show ?case
    using Cons.prems Cons.IH [of js "n - length p"] by auto
qed simp

text \<open>C7: a host and the emulator: the host asks for the first bytes of a descriptor the emulator has, as many
  as fill no packet completely. The emulator reads the request, answers with packets, and when the host finds these
  packets in its pipe, each after at most a second, its request succeeds with exactly these bytes of the
  descriptor in its buffer.\<close>

theorem host_reads_emulator:
  assumes "inp s UEDATX = header_bytes (HostRequest h) @ rest" and "bRequest (HostRequest h) = 6"
    and "bmRequestType (HostRequest h) = 0x80 \<or> bmRequestType (HostRequest h) = 0x81"
    and "get_descriptor_callback (dd s) (wValue (HostRequest h)) (ucast (wIndex (HostRequest h))) = (bytes, D, space)"
    and "n = wLength (HostRequest h)" "n \<le> bytes" "unat n mod 64 \<noteq> 0" "reading_host False (unat n) s"
    and "unread False (unat n) s = z # zs" "\<not> bit z RXSTPI"
    and "USB_HostState h \<noteq> HOST_STATE_Unattached" "\<forall>k \<in> set (a # b # c # ks). k \<le> 1000" "length ks = unat n div 64 + 1"
    and "unat n \<le> length buf"
  shows "\<exists>t w u. USB_Device_ProcessControlRequest emu_app s = Some t \<and> out t = out s @ w \<and>
    USB_Host_SendControlRequest (Some buf)
      (h\<lparr>hreads := setup_reads a @ data_reads (unat n) (zip ks (sent [] w)) @ status_reads b c\<rparr>) =
      Some (0, Some (take (unat n) D @ drop (unat n) buf), u)"
proof -
  let ?X = "take (unat n) D"
  have nz: "unat n \<noteq> 0" "n \<noteq> 0"
    using assms(7) by auto
  have min: "n = min bytes (wLength (HostRequest h))"
    using assms(5,6) by (simp add: min_absorb2)
  have len: "length ?X = unat n"
    using callback_in_bounds [OF assms(4)] assms(6) by (simp add: word_le_nat_alt)
  obtain t w where t: "USB_Device_ProcessControlRequest emu_app s = Some t" "out t = out s @ w" "sent [] w = packets 64 ?X"
    using descriptor_packets [OF assms(1) [unfolded header_bytes_setup] assms(2-4) min nz(2) assms(8-10)]
      packets_taken_all [of ?X "unat n"] len by auto
  have ps: "concat (packets 64 ?X) = ?X" "length (packets 64 ?X) = unat n div 64 + 1"
    using packets_spec [of 64 ?X] length_packets [of 64 ?X] len by simp_all
  have "\<forall>p \<in> set (packets 64 ?X). p \<noteq> [] \<and> length p < 65536"
    using packets_nonempty [of 64 ?X] assms(7) len by fastforce
  then have flow: "flows (unat n) (zip ks (sent [] w))" "left (unat n) (zip ks (sent [] w)) = 0"
    using flows_all [of "packets 64 ?X" ks "unat n"] ps len assms(12,13) t(3) by auto
  have taken: "?X = take (unat n) (concat (map snd (zip ks (sent [] w))))"
    using ps assms(13) t(3) by simp
  have "bit (bmRequestType (HostRequest h)) 7"
    using assms(3) by auto
  then show ?thesis
    using t(1,2) control_in_finishes [of "h\<lparr>hreads := setup_reads a @ data_reads (unat n) (zip ks (sent [] w)) @ status_reads b c\<rparr>"
      a "zip ks (sent [] w)" b c "[]" ?X buf] flow taken len assms(5,11,12,14)
    by auto
qed

text \<open>The host asks for the device descriptor as \<open>USB_Host_GetDeviceDescriptor\<close> does.\<close>

abbreviation (input) "ask_device_18 \<equiv>
  \<lparr>bmRequestType = 0x80, bRequest = 6, wValue = 0x0100, wIndex = 0, wLength = 18\<rparr>"

definition asked_18 :: emu where
  "asked_18 = receiving ask_device_18 (setup_bytes ask_device_18) idle_emu"

theorem host_reads_emulator_witness:
  "\<exists>t w u. USB_Device_ProcessControlRequest emu_app asked_18 = Some t \<and> out t = out asked_18 @ w \<and>
    USB_Host_GetDeviceDescriptor (replicate 18 0)
      (asking_host (setup_reads 1 @ data_reads 18 (zip [2] (sent [] w)) @ status_reads 3 4)) =
      Some (0, Some (device_bytes (dd idle_emu)), u)"
proof -
  have "inp asked_18 UEDATX = setup_bytes ask_device_18 @ []" "dd asked_18 = dd idle_emu" "reading_host False 18 asked_18"
    "unread False 18 asked_18 = [1, 1]"
    by (simp_all add: asked_18_def answered_host_defs unread_def)
  moreover have "get_descriptor_callback (dd idle_emu) 0x0100 0 = (18, device_bytes (dd idle_emu), MEMSPACE_RAM)"
    by (simp add: get_descriptor_callback_def)
  moreover have "length (device_bytes (dd idle_emu)) = 18"
    by (simp add: device_bytes_def le16_def)
  moreover have "(push_bit 8 1 :: u16) = 0x0100"
    by (simp add: push_bit_eq_mult)
  ultimately show ?thesis
    using host_reads_emulator [of asked_18 "asking_host []\<lparr>HostRequest := ask_device_18\<rparr>" "[]" 18 "device_bytes (dd idle_emu)"
        MEMSPACE_RAM 18 1 "[1]" 1 3 4 "[2]" "replicate 18 0"]
    by (simp add: nth_Cons_numeral header_bytes_setup asking_host_def USB_Host_GetDeviceDescriptor_def requesting_def
        Pipe_SelectPipe_def)
qed

end
