(* ===== verification/MassStorage.thy ===== *)
theory MassStorage
  imports Structures
begin

text \<open>
  What the mass storage drivers of the host and of the device share (\<open>Class/Common/MassStorage.h\<close>): the wrappers
  of a command and of its status, as structures and as the bytes they are in memory and on the bus.
\<close>

abbreviation (input) "MS_CBW_SIGNATURE \<equiv> 0x43425355 :: u32"
abbreviation (input) "MS_CSW_SIGNATURE \<equiv> 0x53425355 :: u32"
abbreviation (input) "COMMAND_DIRECTION_DATA_OUT \<equiv> 0x00 :: u8"
abbreviation (input) "COMMAND_DIRECTION_DATA_IN \<equiv> 0x80 :: u8"
abbreviation (input) "SCSI_Command_Pass \<equiv> 0 :: u8"
abbreviation (input) "SCSI_Command_Fail \<equiv> 1 :: u8"

record MS_CommandBlockWrapper_t =
  Signature :: u32
  Tag :: u32
  DataTransferLength :: u32
  Flags :: u8
  LUN :: u8
  SCSICommandLength :: u8
  SCSICommandData :: "u8 list"

record MS_CommandStatusWrapper_t =
  CSWSignature :: u32
  CSWTag :: u32
  DataTransferResidue :: u32
  CSWStatus :: u8

definition block_bytes :: "MS_CommandBlockWrapper_t \<Rightarrow> u8 list" where
  "block_bytes c = bytes32 (Signature c) @ bytes32 (Tag c) @ bytes32 (DataTransferLength c) @
     [Flags c, LUN c, SCSICommandLength c] @ SCSICommandData c"

definition block_of :: "u8 list \<Rightarrow> MS_CommandBlockWrapper_t" where
  "block_of bs = \<lparr>Signature = word32 (take 4 bs), Tag = word32 (take 4 (drop 4 bs)), DataTransferLength = word32 (take 4 (drop 8 bs)),
     Flags = bs ! 12, LUN = bs ! 13, SCSICommandLength = bs ! 14, SCSICommandData = drop 15 bs\<rparr>"

definition status_bytes :: "MS_CommandStatusWrapper_t \<Rightarrow> u8 list" where
  "status_bytes c = bytes32 (CSWSignature c) @ bytes32 (CSWTag c) @ bytes32 (DataTransferResidue c) @ [CSWStatus c]"

lemma length_wrappers [simp]:
  "length (block_bytes c) = 15 + length (SCSICommandData c)" "length (status_bytes s) = 13"
  by (simp_all add: block_bytes_def status_bytes_def)

lemma block_of_bytes [simp]: "block_of (block_bytes c) = c"
  by (simp add: block_of_def block_bytes_def nth_append)

end
