(* ===== verification/MassStorageHost.thy ===== *)
theory MassStorageHost
  imports MassStorage HostStreams
begin

text \<open>
  LUFA's class driver of the host for mass storage devices (\<open>Class/Host/MassStorage.c\<close>, bulk-only transport): a
  command block goes to the device, the data follow in one direction, and a status block comes back.

  A buffer comes with the bytes it holds and is returned with what it holds then. The local status block is
  only used when all of it has been received.
\<close>

section \<open>State\<close>

record MS_Host_State = data_pipes +
  InterfaceNumber :: u8
  TransactionTag :: u32

definition cleared_ms :: MS_Host_State where
  "cleared_ms = \<lparr>IsActive = False, DataINPipeSize = 0, DataOUTPipeSize = 0, InterfaceNumber = 0, TransactionTag = 0\<rparr>"

abbreviation (input) "MS_ERROR_LOGICAL_CMD_FAILED \<equiv> 0x80 :: u8"

section \<open>Enumeration\<close>

definition DComp_NextMSInterface :: "u8 list \<Rightarrow> nat \<Rightarrow> host \<Rightarrow> (u8 \<times> host) option" where
  "DComp_NextMSInterface = class_interface 0x08 0x06 0x50"

definition DComp_NextMSInterfaceEndpoint :: "cfgok \<Rightarrow> u8 list \<Rightarrow> nat \<Rightarrow> host \<Rightarrow> (u8 \<times> host) option" where
  "DComp_NextMSInterfaceEndpoint = free_endpoint [PIPE_EP_TYPE_BULK]"

definition MS_Host_ConfigurePipes ::
    "cfgok \<Rightarrow> pipe_config \<Rightarrow> u16 \<Rightarrow> u8 list \<Rightarrow> host \<Rightarrow> (enum_failure \<times> MS_Host_State \<times> host) option" where
  "MS_Host_ConfigurePipes ok cfg ConfigDescriptorSize mem h =
     configure_pipes (DComp_NextMSInterface mem)
       (\<lambda>loc st. do { n \<leftarrow> byte_at mem (loc + 2); Some (st\<lparr>InterfaceNumber := n\<rparr>) })
       (\<lambda>rem loc. pipes_loop (bind_data ok cfg mem) (False, True, True) (DComp_NextMSInterfaceEndpoint ok mem) mem rem loc
          (False, False, False))
       cleared_ms ConfigDescriptorSize mem h"

section \<open>Transport\<close>

definition MS_Host_WaitForDataReceived :: "pipe_config \<Rightarrow> host \<Rightarrow> (u8 \<times> host) option" where
  "MS_Host_WaitForDataReceived cfg h = do {
     (e, h) \<leftarrow> data_wait RXINI cfg COMMAND_DATA_TIMEOUT_MS (use_pipe (DataINPipeNumber cfg) h);
     if e \<noteq> PIPE_RWSTREAM_NoError then Some (e, h)
     else (let h = Pipe_Freeze (Pipe_SelectPipe (DataINPipeNumber cfg) h)
           in Some (PIPE_RWSTREAM_NoError, Pipe_Freeze (Pipe_SelectPipe (DataOUTPipeNumber cfg) h))) }"

text \<open>The length of the data has 32 bits in the command and 16 here.\<close>

definition receive_data :: "pipe_config \<Rightarrow> u16 \<Rightarrow> u8 list \<Rightarrow> host \<Rightarrow> (u8 \<times> u8 list \<times> host) option" where
  "receive_data cfg BytesRem Buffer h = do {
     (ErrorCode, h) \<leftarrow> MS_Host_WaitForDataReceived cfg h;
     if ErrorCode \<noteq> PIPE_RWSTREAM_NoError then Some (ErrorCode, Buffer, Pipe_Freeze h)
     else do {
       (ErrorCode, bs, h) \<leftarrow> Pipe_Read_Stream_LE BytesRem (use_pipe (DataINPipeNumber cfg) h);
       Buffer \<leftarrow> overlay 0 bs Buffer;
       if ErrorCode \<noteq> PIPE_RWSTREAM_NoError then Some (ErrorCode, Buffer, h)
       else do { h \<leftarrow> Pipe_ClearIN h; Some (ErrorCode, Buffer, Pipe_Freeze h) } } }"

definition send_data :: "pipe_config \<Rightarrow> u16 \<Rightarrow> u8 list \<Rightarrow> host \<Rightarrow> (u8 \<times> host) option" where
  "send_data cfg BytesRem Buffer h = do {
     (ErrorCode, h) \<leftarrow> Pipe_Write_Stream_LE Buffer BytesRem (use_pipe (DataOUTPipeNumber cfg) h);
     if ErrorCode \<noteq> PIPE_RWSTREAM_NoError then Some (ErrorCode, h)
     else do {
       h \<leftarrow> Pipe_ClearOUT h;
       (e, h) \<leftarrow> taken_wait h;
       Some (e, if e = PIPE_RWSTREAM_NoError then Pipe_Freeze h else h) } }"

definition MS_Host_SendReceiveData ::
    "pipe_config \<Rightarrow> MS_CommandBlockWrapper_t \<Rightarrow> u8 list \<Rightarrow> host \<Rightarrow> (u8 \<times> u8 list \<times> host) option" where
  "MS_Host_SendReceiveData cfg SCSICommandBlock Buffer h = do {
     let BytesRem = (ucast (DataTransferLength SCSICommandBlock) :: u16);
     if Flags SCSICommandBlock AND COMMAND_DIRECTION_DATA_IN \<noteq> 0 then receive_data cfg BytesRem Buffer h
     else do { (e, h) \<leftarrow> send_data cfg BytesRem Buffer h; Some (e, Buffer, h) } }"

definition next_tag :: "MS_Host_State \<Rightarrow> u32 \<times> MS_Host_State" where
  "next_tag st =
     (let tag = TransactionTag st + 1
      in (tag, st\<lparr>TransactionTag := (if tag = 0xFFFFFFFF then 1 else tag)\<rparr>))"

definition MS_Host_SendCommand ::
    "pipe_config \<Rightarrow> MS_Host_State \<Rightarrow> MS_CommandBlockWrapper_t \<Rightarrow> u8 list option \<Rightarrow> host \<Rightarrow>
      (u8 \<times> u8 list option \<times> MS_Host_State \<times> host) option" where
  "MS_Host_SendCommand cfg st SCSICommandBlock BufferPtr h = do {
     let (tag, st) = next_tag st;
     let block = SCSICommandBlock\<lparr>Tag := tag\<rparr>;
     (ErrorCode, h) \<leftarrow> Pipe_Write_Stream_LE (block_bytes block) 31 (use_pipe (DataOUTPipeNumber cfg) h);
     if ErrorCode \<noteq> PIPE_RWSTREAM_NoError then Some (ErrorCode, BufferPtr, st, h)
     else do {
       h \<leftarrow> Pipe_ClearOUT h;
       (_, h) \<leftarrow> Pipe_WaitUntilReady h;
       let h = Pipe_Freeze h;
       (case BufferPtr of
          None \<Rightarrow> Some (ErrorCode, None, st, h)
        | Some Buffer \<Rightarrow> do {
            (ErrorCode, Buffer, h) \<leftarrow> MS_Host_SendReceiveData cfg block Buffer h;
            Some (ErrorCode, Some Buffer, st, if ErrorCode \<noteq> PIPE_RWSTREAM_NoError then Pipe_Freeze h else h) }) } }"

text \<open>Of the status block only the last byte is looked at: neither its signature nor its tag.\<close>

definition MS_Host_GetReturnedStatus :: "pipe_config \<Rightarrow> host \<Rightarrow> (u8 \<times> host) option" where
  "MS_Host_GetReturnedStatus cfg h = do {
     (ErrorCode, h) \<leftarrow> MS_Host_WaitForDataReceived cfg h;
     if ErrorCode \<noteq> PIPE_RWSTREAM_NoError then Some (ErrorCode, h)
     else do {
       (ErrorCode, SCSICommandStatus, h) \<leftarrow> Pipe_Read_Stream_LE 13 (use_pipe (DataINPipeNumber cfg) h);
       if ErrorCode \<noteq> PIPE_RWSTREAM_NoError then Some (ErrorCode, h)
       else do {
         h \<leftarrow> Pipe_ClearIN h;
         Status \<leftarrow> byte_at SCSICommandStatus 12;
         Some (if Status \<noteq> SCSI_Command_Pass then MS_ERROR_LOGICAL_CMD_FAILED else ErrorCode, Pipe_Freeze h) } } }"

section \<open>Commands\<close>

definition command_block :: "u32 \<Rightarrow> u8 \<Rightarrow> u8 \<Rightarrow> u8 list \<Rightarrow> MS_CommandBlockWrapper_t" where
  "command_block n flags lun cmd =
     \<lparr>Signature = MS_CBW_SIGNATURE, Tag = 0, DataTransferLength = n, Flags = flags, LUN = lun,
      SCSICommandLength = of_nat (length cmd), SCSICommandData = cmd @ replicate (16 - length cmd) 0\<rparr>"

text \<open>What every command does: the block and the data, a change of the data, the status.\<close>

definition transaction ::
    "pipe_config \<Rightarrow> MS_Host_State \<Rightarrow> MS_CommandBlockWrapper_t \<Rightarrow> (u8 list \<Rightarrow> u8 list) \<Rightarrow> u8 list option \<Rightarrow> host \<Rightarrow>
      (u8 \<times> u8 list option \<times> MS_Host_State \<times> host) option" where
  "transaction cfg st block change BufferPtr h = do {
     (ok, h) \<leftarrow> attached st h;
     if \<not> ok then Some (HOST_SENDCONTROL_DeviceDisconnected, BufferPtr, st, h)
     else do {
       (ErrorCode, BufferPtr, st, h) \<leftarrow> MS_Host_SendCommand cfg st block BufferPtr h;
       if ErrorCode \<noteq> PIPE_RWSTREAM_NoError then Some (ErrorCode, BufferPtr, st, h)
       else do {
         (ErrorCode, h) \<leftarrow> MS_Host_GetReturnedStatus cfg h;
         Some (ErrorCode, map_option change BufferPtr, st, h) } } }"

definition MS_Host_ResetMSInterface :: "MS_Host_State \<Rightarrow> host \<Rightarrow> (u8 \<times> host) option" where
  "MS_Host_ResetMSInterface st h = do {
     (e, _, h) \<leftarrow> USB_Host_SendControlRequest None (class_command 0xFF 0 (InterfaceNumber st) 0 h);
     Some (e, h) }"

text \<open>The highest unit; zero, and success, after any error.\<close>

definition MS_Host_GetMaxLUN :: "MS_Host_State \<Rightarrow> u8 \<Rightarrow> host \<Rightarrow> (u8 \<times> u8 \<times> host) option" where
  "MS_Host_GetMaxLUN st MaxLUNIndex h = do {
     (e, buf, h) \<leftarrow> USB_Host_SendControlRequest (Some [MaxLUNIndex]) (class_query 0xFE (InterfaceNumber st) 1 h);
     buf \<leftarrow> buf;
     Some (HOST_SENDCONTROL_Successful, if e \<noteq> HOST_SENDCONTROL_Successful then 0 else hd buf, h) }"

definition MS_Host_GetInquiryData ::
    "pipe_config \<Rightarrow> MS_Host_State \<Rightarrow> u8 \<Rightarrow> u8 list \<Rightarrow> host \<Rightarrow> (u8 \<times> u8 list option \<times> MS_Host_State \<times> host) option" where
  "MS_Host_GetInquiryData cfg st LUNIndex InquiryData =
     transaction cfg st (command_block 36 COMMAND_DIRECTION_DATA_IN LUNIndex [0x12, 0, 0, 0, 36, 0]) id (Some InquiryData)"

definition MS_Host_TestUnitReady ::
    "pipe_config \<Rightarrow> MS_Host_State \<Rightarrow> u8 \<Rightarrow> host \<Rightarrow> (u8 \<times> u8 list option \<times> MS_Host_State \<times> host) option" where
  "MS_Host_TestUnitReady cfg st LUNIndex =
     transaction cfg st (command_block 0 COMMAND_DIRECTION_DATA_IN LUNIndex [0x00, 0, 0, 0, 0, 0]) id None"

text \<open>Number and size of the blocks come most significant byte first and are turned round where they are.\<close>

definition swap_capacity :: "u8 list \<Rightarrow> u8 list" where
  "swap_capacity bs = rev (take 4 bs) @ rev (take 4 (drop 4 bs)) @ drop 8 bs"

definition MS_Host_ReadDeviceCapacity ::
    "pipe_config \<Rightarrow> MS_Host_State \<Rightarrow> u8 \<Rightarrow> u8 list \<Rightarrow> host \<Rightarrow> (u8 \<times> u8 list option \<times> MS_Host_State \<times> host) option" where
  "MS_Host_ReadDeviceCapacity cfg st LUNIndex DeviceCapacity =
     transaction cfg st (command_block 8 COMMAND_DIRECTION_DATA_IN LUNIndex [0x25, 0, 0, 0, 0, 0, 0, 0, 0, 0]) swap_capacity
       (Some DeviceCapacity)"

definition MS_Host_RequestSense ::
    "pipe_config \<Rightarrow> MS_Host_State \<Rightarrow> u8 \<Rightarrow> u8 list \<Rightarrow> host \<Rightarrow> (u8 \<times> u8 list option \<times> MS_Host_State \<times> host) option" where
  "MS_Host_RequestSense cfg st LUNIndex SenseData =
     transaction cfg st (command_block 18 COMMAND_DIRECTION_DATA_IN LUNIndex [0x03, 0, 0, 0, 18, 0]) id (Some SenseData)"

definition MS_Host_PreventAllowMediumRemoval ::
    "pipe_config \<Rightarrow> MS_Host_State \<Rightarrow> u8 \<Rightarrow> bool \<Rightarrow> host \<Rightarrow> (u8 \<times> u8 list option \<times> MS_Host_State \<times> host) option" where
  "MS_Host_PreventAllowMediumRemoval cfg st LUNIndex PreventRemoval =
     transaction cfg st (command_block 0 COMMAND_DIRECTION_DATA_OUT LUNIndex [0x1E, 0, 0, of_bool PreventRemoval, 0, 0]) id None"

definition block_command :: "u8 \<Rightarrow> u32 \<Rightarrow> u8 \<Rightarrow> u8 list" where
  "block_command op BlockAddress Blocks =
     [op, 0, ucast (drop_bit 24 BlockAddress), ucast (drop_bit 16 BlockAddress), ucast (drop_bit 8 BlockAddress),
      ucast BlockAddress, 0, 0, Blocks, 0]"

definition MS_Host_ReadDeviceBlocks ::
    "pipe_config \<Rightarrow> MS_Host_State \<Rightarrow> u8 \<Rightarrow> u32 \<Rightarrow> u8 \<Rightarrow> u16 \<Rightarrow> u8 list \<Rightarrow> host \<Rightarrow>
      (u8 \<times> u8 list option \<times> MS_Host_State \<times> host) option" where
  "MS_Host_ReadDeviceBlocks cfg st LUNIndex BlockAddress Blocks BlockSize BlockBuffer =
     transaction cfg st (command_block (ucast Blocks * ucast BlockSize) COMMAND_DIRECTION_DATA_IN LUNIndex
       (block_command 0x28 BlockAddress Blocks)) id (Some BlockBuffer)"

definition MS_Host_WriteDeviceBlocks ::
    "pipe_config \<Rightarrow> MS_Host_State \<Rightarrow> u8 \<Rightarrow> u32 \<Rightarrow> u8 \<Rightarrow> u16 \<Rightarrow> u8 list \<Rightarrow> host \<Rightarrow>
      (u8 \<times> u8 list option \<times> MS_Host_State \<times> host) option" where
  "MS_Host_WriteDeviceBlocks cfg st LUNIndex BlockAddress Blocks BlockSize BlockBuffer =
     transaction cfg st (command_block (ucast Blocks * ucast BlockSize) COMMAND_DIRECTION_DATA_OUT LUNIndex
       (block_command 0x2A BlockAddress Blocks)) id (Some BlockBuffer)"

end
