(* ===== verification/MassStorageTransfer.thy ===== *)
theory MassStorageTransfer
  imports MassStorageHost
begin

text \<open>
  What a mass storage command of the host transfers when it succeeds, whatever the hardware does on the way: the
  bytes of the command block and of the data, and what the status block said.
\<close>

lemma wait_quiet: "MS_Host_WaitForDataReceived cfg h = Some (0, t) \<Longrightarrow> quiet h t"
  by (auto simp: MS_Host_WaitForDataReceived_def Let_def dest!: data_wait_quiet split: bind_splits if_splits)

section \<open>The stages\<close>

lemma receive_data_view:
  assumes "receive_data cfg n buf h = Some (0, buf', t)"
  shows "\<exists>d. delivered h = d @ delivered t \<and> length d = unat n \<and> overlay 0 d buf = Some buf' \<and> written t = written h"
proof -
  obtain u where u: "MS_Host_WaitForDataReceived cfg h = Some (0, u)"
    using assms by (auto simp: receive_data_def split: bind_splits if_splits)
  obtain d v where v: "Pipe_Read_Stream_LE n (use_pipe (DataINPipeNumber cfg) u) = Some (0, d, v)" "overlay 0 d buf = Some buf'" "quiet v t"
    using assms u by (auto simp: receive_data_def dest!: quiet_clear split: bind_splits if_splits)
  have "quiet u (use_pipe (DataINPipeNumber cfg) u)"
    by simp
  with read_stream_ok [OF v(1)] wait_quiet [OF u] v(2,3) show ?thesis
    unfolding quiet_def by metis
qed

lemma send_data_view:
  assumes "send_data cfg n buf h = Some (0, t)"
  shows "written t = written h @ take (unat n) buf \<and> unat n \<le> length buf \<and> delivered t = delivered h"
proof -
  obtain u v w where u: "Pipe_Write_Stream_LE buf n (use_pipe (DataOUTPipeNumber cfg) h) = Some (0, u)"
      "Pipe_ClearOUT u = Some v" "taken_wait v = Some (0, w)" "t = Pipe_Freeze w"
    using assms by (auto simp: send_data_def split: bind_splits if_splits)
  have "quiet h (use_pipe (DataOUTPipeNumber cfg) h)" "quiet w t"
    using u(4) by simp_all
  with write_stream_ok [OF u(1)] quiet_clear(2) [OF u(2)] taken_wait_quiet [OF u(3)] show ?thesis
    by (simp add: quiet_def)
qed

lemma status_view:
  assumes "MS_Host_GetReturnedStatus cfg h = Some (0, t)"
  shows "\<exists>c. delivered h = c @ delivered t \<and> length c = 13 \<and> c ! 12 = SCSI_Command_Pass \<and> written t = written h"
proof -
  obtain u where u: "MS_Host_WaitForDataReceived cfg h = Some (0, u)"
    using assms by (auto simp: MS_Host_GetReturnedStatus_def split: bind_splits if_splits)
  obtain c v where v: "Pipe_Read_Stream_LE 13 (use_pipe (DataINPipeNumber cfg) u) = Some (0, c, v)" "quiet v t" "byte_at c 12 = Some 0"
    using assms u by (auto simp: MS_Host_GetReturnedStatus_def dest!: quiet_clear split: bind_splits if_splits)
  have "quiet u (use_pipe (DataINPipeNumber cfg) u)"
    by simp
  moreover have "length c = 13"
    using read_stream_ok(2) [OF v(1)] by simp
  moreover from this have "c ! 12 = SCSI_Command_Pass"
    using v(3) by (simp add: byte_at_def split: if_splits)
  ultimately show ?thesis
    using read_stream_ok(1,3) [OF v(1)] wait_quiet [OF u] v(2) unfolding quiet_def by metis
qed

text \<open>The command block as it is sent.\<close>

definition sent_block :: "MS_Host_State \<Rightarrow> MS_CommandBlockWrapper_t \<Rightarrow> u8 list" where
  "sent_block st block = block_bytes (block\<lparr>Tag := TransactionTag st + 1\<rparr>)"

lemma send_command_view:
  assumes "MS_Host_SendCommand cfg st block (Some buf) h = Some (0, buf', st', t)" "length (SCSICommandData block) = 16"
  obtains u b where "written u = written h @ sent_block st block \<and> delivered u = delivered h"
    "MS_Host_SendReceiveData cfg (block\<lparr>Tag := TransactionTag st + 1\<rparr>) buf u = Some (0, b, t)" "buf' = Some b"
proof -
  let ?block = "block\<lparr>Tag := TransactionTag st + 1\<rparr>"
  obtain u v r w b where u: "Pipe_Write_Stream_LE (block_bytes ?block) 31 (use_pipe (DataOUTPipeNumber cfg) h) = Some (0, u)"
      "Pipe_ClearOUT u = Some v" "Pipe_WaitUntilReady v = Some (r, w)"
      "MS_Host_SendReceiveData cfg ?block buf (Pipe_Freeze w) = Some (0, b, t)" "buf' = Some b"
    using assms(1) by (auto simp: MS_Host_SendCommand_def next_tag_def Let_def split: bind_splits if_splits)
  have "quiet w (Pipe_Freeze w)" "quiet h (use_pipe (DataOUTPipeNumber cfg) h)" "quiet v w"
    using calm_quiet [OF calm_WaitUntilReady [OF u(3)]] by simp_all
  with write_stream_ok [OF u(1)] quiet_clear(2) [OF u(2)] assms(2)
  have "written (Pipe_Freeze w) = written h @ sent_block st block \<and> delivered (Pipe_Freeze w) = delivered h"
    by (simp add: quiet_def sent_block_def)
  with u(4,5) that show thesis
    by blast
qed

lemma transaction_view:
  assumes "transaction cfg st block change (Some buf) h = Some (0, buf', st', t)" "length (SCSICommandData block) = 16"
  obtains u v b c where "written u = written h @ sent_block st block" "delivered u = delivered h"
    "MS_Host_SendReceiveData cfg (block\<lparr>Tag := TransactionTag st + 1\<rparr>) buf u = Some (0, b, v)" "buf' = Some (change b)"
    "delivered v = c @ delivered t" "length c = 13" "c ! 12 = SCSI_Command_Pass" "written t = written v"
proof -
  obtain ok g where g: "attached st h = Some (ok, g)"
    using assms(1) by (auto simp: transaction_def split: bind_splits)
  with assms(1) obtain buf1 v where v: "MS_Host_SendCommand cfg st block (Some buf) g = Some (0, buf1, st', v)"
      "MS_Host_GetReturnedStatus cfg v = Some (0, t)" "buf' = map_option change buf1"
    by (auto simp: transaction_def split: bind_splits if_splits)
  obtain u b where u: "written u = written g @ sent_block st block \<and> delivered u = delivered g"
      "MS_Host_SendReceiveData cfg (block\<lparr>Tag := TransactionTag st + 1\<rparr>) buf u = Some (0, b, v)" "buf1 = Some b"
    by (rule send_command_view [OF v(1) assms(2)])
  from status_view [OF v(2)] obtain c where "delivered v = c @ delivered t" "length c = 13" "c ! 12 = SCSI_Command_Pass" "written t = written v"
    by blast
  moreover have "quiet h g"
    by (rule calm_quiet [OF calm_attached [OF g]])
  ultimately show thesis
    using u v(3) by (intro that [of u b v c]) (simp_all add: quiet_def)
qed

lemma length_block_command [simp]: "length (block_command op a n) = 10"
  by (simp add: block_command_def)

lemma command_fields [simp]:
  "length cmd \<le> 16 \<Longrightarrow> length (SCSICommandData (command_block n f l cmd)) = 16"
  "DataTransferLength (command_block n f l cmd) = n" "Flags (command_block n f l cmd) = f"
  by (simp_all add: command_block_def)

lemma transfer_length: "unat (ucast (ucast (n :: u8) * ucast (k :: u16) :: u32) :: u16) = unat n * unat k mod 2 ^ 16"
proof -
  have "unat n * unat k < 2 ^ 8 * 2 ^ 16"
    by (intro mult_strict_mono) (use unsigned_less [of n] unsigned_less [of k] in auto)
  moreover have "unat n < 2 ^ LENGTH(8)" "unat k < 2 ^ LENGTH(16)"
    by (rule unsigned_less)+
  ultimately have "unat (ucast n * ucast k :: u32) = unat n * unat k"
    by (simp add: unat_word_ariths unsigned_ucast_eq take_bit_nat_eq_self)
  then show ?thesis
    by (simp add: unsigned_ucast_eq take_bit_eq_mod)
qed

text \<open>The bytes of a command that reads or writes blocks.\<close>

definition blocks_on_bus :: "u8 \<Rightarrow> u8 \<Rightarrow> u32 \<Rightarrow> u8 \<Rightarrow> u32 \<Rightarrow> u8 \<Rightarrow> u16 \<Rightarrow> u8 list" where
  "blocks_on_bus op flags tag lun a n k = bytes32 MS_CBW_SIGNATURE @ bytes32 tag @ bytes32 (ucast n * ucast k) @ [flags, lun, 10] @
     [op, 0] @ rev (bytes32 a) @ [0, 0, n, 0] @ replicate 6 0"

lemma sent_blocks:
  "sent_block st (command_block (ucast n * ucast k) flags lun (block_command op a n)) =
    blocks_on_bus op flags (TransactionTag st + 1) lun a n k"
  by (simp add: sent_block_def command_block_def block_bytes_def blocks_on_bus_def block_command_def bytes32_def [of a])

text \<open>C14: when a host has read blocks, it has sent a READ(10) command with the next tag, the address most significant
  byte first and the number of blocks; then it has received the data and a status block that says success, and
  the data are in the buffer in order. There are as many bytes as the blocks have, modulo 65536.\<close>

theorem blocks_read:
  assumes "MS_Host_ReadDeviceBlocks cfg st lun a n k buf h = Some (0, buf', st', t)"
  shows "\<exists>d c. delivered h = d @ c @ delivered t \<and> length d = unat n * unat k mod 2 ^ 16 \<and>
    length c = 13 \<and> c ! 12 = SCSI_Command_Pass \<and> buf' = Some (d @ drop (length d) buf) \<and> length d \<le> length buf \<and>
    written t = written h @ blocks_on_bus 0x28 0x80 (TransactionTag st + 1) lun a n k"
proof -
  let ?block = "command_block (ucast n * ucast k) COMMAND_DIRECTION_DATA_IN lun (block_command 0x28 a n)"
  obtain u v b c where u: "written u = written h @ sent_block st ?block" "delivered u = delivered h"
      "MS_Host_SendReceiveData cfg (?block\<lparr>Tag := TransactionTag st + 1\<rparr>) buf u = Some (0, b, v)" "buf' = Some (id b)"
      "delivered v = c @ delivered t" "length c = 13" "c ! 12 = SCSI_Command_Pass" "written t = written v"
    by (rule transaction_view [OF assms [unfolded MS_Host_ReadDeviceBlocks_def]]) simp_all
  have "receive_data cfg (ucast (ucast n * ucast k :: u32)) buf u = Some (0, b, v)"
    using u(3) by (simp add: MS_Host_SendReceiveData_def)
  from receive_data_view [OF this] obtain d where "delivered u = d @ delivered v" "length d = unat n * unat k mod 2 ^ 16"
      "overlay 0 d buf = Some b" "written v = written u"
    unfolding transfer_length by blast
  with u show ?thesis
    by (intro exI [of _ d] exI [of _ c]) (auto simp: sent_blocks overlay_def split: if_splits)
qed

text \<open>C25: when a host has written blocks, it has sent a WRITE(10) command and behind it the first bytes of the buffer, as
  many as the blocks have modulo 65536, and the device has sent a status block that says success.\<close>

theorem blocks_written:
  assumes "MS_Host_WriteDeviceBlocks cfg st lun a n k buf h = Some (0, buf', st', t)"
  shows "\<exists>c. delivered h = c @ delivered t \<and> length c = 13 \<and> c ! 12 = SCSI_Command_Pass \<and> buf' = Some buf \<and>
    unat n * unat k mod 2 ^ 16 \<le> length buf \<and>
    written t = written h @ blocks_on_bus 0x2A 0 (TransactionTag st + 1) lun a n k @ take (unat n * unat k mod 2 ^ 16) buf"
proof -
  let ?block = "command_block (ucast n * ucast k) COMMAND_DIRECTION_DATA_OUT lun (block_command 0x2A a n)"
  obtain u v b c where u: "written u = written h @ sent_block st ?block" "delivered u = delivered h"
      "MS_Host_SendReceiveData cfg (?block\<lparr>Tag := TransactionTag st + 1\<rparr>) buf u = Some (0, b, v)" "buf' = Some (id b)"
      "delivered v = c @ delivered t" "length c = 13" "c ! 12 = SCSI_Command_Pass" "written t = written v"
    by (rule transaction_view [OF assms [unfolded MS_Host_WriteDeviceBlocks_def]]) simp_all
  have "send_data cfg (ucast (ucast n * ucast k :: u32)) buf u = Some (0, v)" "b = buf"
    using u(3) by (auto simp: MS_Host_SendReceiveData_def split: bind_splits)
  with send_data_view [OF this(1)] u show ?thesis
    by (intro exI [of _ c]) (simp add: sent_blocks transfer_length)
qed

section \<open>A device that answers\<close>

text \<open>
  The accesses a device causes that stays attached and does not stall. It takes the command block and the data in packets
  and delivers data and status in packets, each after a wait of its own of at most 100 frames; before
  data and status arrive the pipe may be looked at for less than \<open>COMMAND_DATA_TIMEOUT_MS\<close> frames.
\<close>

definition arrival_waiting :: "bool list \<Rightarrow> (hreg \<times> u16) list" where
  "arrival_waiting fs = concat (map (\<lambda>f. [(UPINTX, 0)] @ (if f then [(UHINT, 0x20), (UHINT, 0x20)] else [(UHINT, 0)]) @
     [(UPINTX, 0), (UPINTX, 0), (HostLook, 0)]) fs)"

definition command_reads :: "out_packet list \<Rightarrow> bool list \<Rightarrow> (hreg \<times> u16) list" where
  "command_reads ks fs = out_stream ks @ [(UPINTX, 0)] @ pipe_waiting fs @ [(UPINTX, 4)]"

definition in_reads :: "bool list \<times> in_packet list \<Rightarrow> (hreg \<times> u16) list" where
  "in_reads p = arrival_waiting (fst p) @ [(UPINTX, 1)] @ in_stream (snd p) @ [(UPINTX, 0)]"

definition arriving :: "bool list \<times> in_packet list \<Rightarrow> bool" where
  "arriving p \<longleftrightarrow> frames (fst p) < 10000 \<and> in_order (snd p) \<and> length (in_bytes (snd p)) < 2 ^ 16"

definition taking :: "out_packet list \<Rightarrow> nat \<Rightarrow> bool" where
  "taking ks n \<longleftrightarrow> out_order ks \<and> out_room ks = n"

lemma arrival_passes:
  assumes "frames fs < unat n" "hreads h = arrival_waiting fs @ (UPINTX, 1) # rs" "USB_HostState h \<noteq> HOST_STATE_Unattached"
  shows "\<exists>t. data_wait RXINI cfg n h = Some (0, t) \<and> hreads t = rs \<and> length (pipes t) = length (pipes h) \<and>
    USB_HostState t = USB_HostState h"
  using assms
proof (induction fs arbitrary: n h)
  case Nil
  then show ?case
    by (subst data_wait.simps) (simp add: arrival_waiting_def pipe_defs hrd_def)
next
  case (Cons f fs)
  let ?rest = "arrival_waiting fs @ (UPINTX, 1) # rs"
  let ?tail = "(UPINTX, 0) # (UPINTX, 0) # (HostLook, 0) # ?rest"
  let ?u = "if f then hwr UHINT (unset_bit HSOFI 0x20) (h\<lparr>hreads := ?tail\<rparr>) else h\<lparr>hreads := ?tail\<rparr>"
  let ?n = "if f then n - 1 else n"
  let ?v = "(use_pipe (DataOUTPipeNumber cfg) (Pipe_Freeze ?u))\<lparr>hreads := (UPINTX, 0) # (HostLook, 0) # ?rest\<rparr>"
  let ?w = "(use_pipe (DataINPipeNumber cfg) (Pipe_Freeze ?v))\<lparr>hreads := ?rest\<rparr>"
  have n: "f \<longrightarrow> n - 1 \<noteq> 0" "frames fs < unat ?n"
    using Cons.prems(1) unat_pred [of "Suc (frames fs)" n] by auto
  have w: "hreads ?w = ?rest" "length (pipes ?w) = length (pipes h)" "USB_HostState ?w = USB_HostState h"
    by (simp_all add: use_pipe_def Pipe_SelectPipe_def Pipe_Unfreeze_def Pipe_Freeze_def on_pipe_def hwr_def)
  with Cons.IH [OF n(2), of ?w] Cons.prems(3) obtain t where
    t: "data_wait RXINI cfg ?n ?w = Some (0, t)" "hreads t = rs" "length (pipes t) = length (pipes h)" "USB_HostState t = USB_HostState h"
    by auto
  have fields: "hreads (Pipe_Freeze g) = hreads g" "USB_HostState (Pipe_Freeze g) = USB_HostState g" for g
    by (simp_all add: Pipe_Freeze_def on_pipe_def)
  have "data_wait RXINI cfg n h = data_wait RXINI cfg ?n ?w"
    using Cons.prems(2,3) n(1)
    by (subst data_wait.simps) (auto simp: arrival_waiting_def pipe_defs hrd_def bit_simps fields hwr_def)
  with t show ?case
    by simp
qed

lemma arrival_received:
  assumes "frames fs < 10000" "hreads h = arrival_waiting fs @ (UPINTX, 1) # rs" "USB_HostState h \<noteq> HOST_STATE_Unattached"
  shows "\<exists>t. MS_Host_WaitForDataReceived cfg h = Some (0, t) \<and> hreads t = rs \<and> length (pipes t) = length (pipes h) \<and>
    USB_HostState t = USB_HostState h"
proof -
  let ?h = "use_pipe (DataINPipeNumber cfg) h"
  obtain t where "data_wait RXINI cfg 10000 ?h = Some (0, t)" "hreads t = rs" "length (pipes t) = length (pipes h)"
      "USB_HostState t = USB_HostState h"
    using arrival_passes [of fs 10000 ?h rs cfg] assms by auto
  moreover have "hreads (Pipe_Freeze g) = hreads g" for g
    by (simp add: Pipe_Freeze_def on_pipe_def)
  moreover have "USB_HostState (Pipe_SelectPipe m g) = USB_HostState g" for m g
    by (simp add: Pipe_SelectPipe_def)
  ultimately show ?thesis
    by (simp add: MS_Host_WaitForDataReceived_def Let_def)
qed

text \<open>What both readers of a packet stream have in common.\<close>

lemma arrived_stream:
  assumes "hreads h = in_reads p @ rs" "arriving p" "unat (DataINPipeNumber cfg) < length (pipes h)"
    and "USB_HostState h = HOST_STATE_Configured"
  obtains u v t where "MS_Host_WaitForDataReceived cfg h = Some (0, u)"
    "Pipe_Read_Stream_LE (of_nat (length (in_bytes (snd p)))) (use_pipe (DataINPipeNumber cfg) u) = Some (0, in_bytes (snd p), v)"
    "Pipe_ClearIN v = Some t" "hreads t = rs" "length (pipes t) = length (pipes h)" "USB_HostState t = HOST_STATE_Configured"
proof -
  let ?ps = "snd p"
  obtain u where u: "MS_Host_WaitForDataReceived cfg h = Some (0, u)" "hreads u = in_stream ?ps @ (UPINTX, 0) # rs"
      "length (pipes u) = length (pipes h)" "USB_HostState u = HOST_STATE_Configured"
    using arrival_received [of "fst p" h "in_stream ?ps @ (UPINTX, 0) # rs" cfg] assms by (auto simp: in_reads_def arriving_def)
  let ?v = "use_pipe (DataINPipeNumber cfg) u"
  obtain v where v: "Pipe_Read_Stream_LE (of_nat (length (in_bytes ?ps))) ?v = Some (0, in_bytes ?ps, v)"
      "reached ((UPINTX, 0) # rs) (Pipe_SetPipeToken PIPE_TOKEN_IN ?v) v"
    using stream_is_read [of ?v ?ps "(UPINTX, 0) # rs"] u assms(2,3) by (auto simp: arriving_def)
  from v(2) have "hreads v = (UPINTX, 0) # rs" "length (pipes v) = length (pipes h)" "USB_HostState v = HOST_STATE_Configured"
    using u(3,4) by (simp_all add: reached_def)
  with clear_runs(1) [of v 0 rs] that [OF u(1) v(1)] show thesis
    by auto
qed

lemma data_in_runs:
  assumes "hreads h = in_reads p @ rs" "arriving p" "in_bytes (snd p) = d" "length d \<le> length buf"
    and "unat (DataINPipeNumber cfg) < length (pipes h)" "USB_HostState h = HOST_STATE_Configured"
  shows "\<exists>t. receive_data cfg (of_nat (length d)) buf h = Some (0, d @ drop (length d) buf, t) \<and> hreads t = rs \<and>
    length (pipes t) = length (pipes h) \<and> USB_HostState t = HOST_STATE_Configured"
proof -
  obtain u v t where "MS_Host_WaitForDataReceived cfg h = Some (0, u)"
    "Pipe_Read_Stream_LE (of_nat (length d)) (use_pipe (DataINPipeNumber cfg) u) = Some (0, d, v)"
    "Pipe_ClearIN v = Some t" "hreads t = rs" "length (pipes t) = length (pipes h)" "USB_HostState t = HOST_STATE_Configured"
    using arrived_stream [OF assms(1,2,5,6)] assms(3) by metis
  moreover have "hreads (Pipe_Freeze g) = hreads g" for g
    by (simp add: Pipe_Freeze_def on_pipe_def)
  ultimately show ?thesis
    using assms(4) by (simp add: receive_data_def overlay_def)
qed

lemma status_runs:
  assumes "hreads h = in_reads p @ rs" "arriving p" "in_bytes (snd p) = c" "length c = 13" "c ! 12 = SCSI_Command_Pass"
    and "unat (DataINPipeNumber cfg) < length (pipes h)" "USB_HostState h = HOST_STATE_Configured"
  shows "\<exists>t. MS_Host_GetReturnedStatus cfg h = Some (0, t) \<and> hreads t = rs"
proof -
  obtain u v t where "MS_Host_WaitForDataReceived cfg h = Some (0, u)"
    "Pipe_Read_Stream_LE (of_nat (length c)) (use_pipe (DataINPipeNumber cfg) u) = Some (0, c, v)"
    "Pipe_ClearIN v = Some t" "hreads t = rs"
    using arrived_stream [OF assms(1,2,6,7)] assms(3) by metis
  moreover have "hreads (Pipe_Freeze g) = hreads g" for g
    by (simp add: Pipe_Freeze_def on_pipe_def)
  ultimately show ?thesis
    using assms(4,5) by (simp add: MS_Host_GetReturnedStatus_def byte_at_def)
qed

lemma block_runs:
  assumes "hreads h = command_reads ks fs @ rs" "taking ks 31" "frames fs \<le> 100" "length (SCSICommandData block) = 16"
    and "unat (DataOUTPipeNumber cfg) < length (pipes h)" "USB_HostState h = HOST_STATE_Configured"
  shows "\<exists>t. MS_Host_SendCommand cfg st block (Some buf) h = do {
      (e, b, v) \<leftarrow> MS_Host_SendReceiveData cfg (block\<lparr>Tag := TransactionTag st + 1\<rparr>) buf t;
      Some (e, Some b, snd (next_tag st), if e \<noteq> 0 then Pipe_Freeze v else v) } \<and> hreads t = rs \<and> length (pipes t) = length (pipes h) \<and>
    USB_HostState t = HOST_STATE_Configured"
proof -
  let ?bs = "block_bytes (block\<lparr>Tag := TransactionTag st + 1\<rparr>)"
  let ?u = "use_pipe (DataOUTPipeNumber cfg) h"
  let ?rest = "pipe_waiting fs @ (UPINTX, 4) # rs"
  have len: "length ?bs = 31"
    using assms(4) by simp
  obtain v where v: "Pipe_Write_Stream_LE ?bs (of_nat (length ?bs)) ?u = Some (0, v)"
      "reached ((UPINTX, 0) # ?rest) (Pipe_SetPipeToken PIPE_TOKEN_OUT ?u) v"
    using stream_is_written [of ?u ks "(UPINTX, 0) # ?rest" ?bs] assms len by (auto simp: command_reads_def taking_def)
  obtain w where w: "Pipe_ClearOUT v = Some w" "hreads w = ?rest" "pipes w = pipes v" "UPNUM w = UPNUM v" "USB_HostState w = USB_HostState v"
    using clear_runs(2) [of v 0 ?rest] v(2) by (auto simp: reached_def)
  have "Pipe_GetPipeToken w = Pipe_GetPipeToken (Pipe_SetPipeToken PIPE_TOKEN_OUT ?u)"
    using w v(2) by (simp add: Pipe_GetPipeToken_def reached_def)
  also have "\<dots> = PIPE_TOKEN_OUT"
    using assms(5) by (intro token_set) simp_all
  finally obtain x where x: "Pipe_WaitUntilReady w = Some (0, x)" "reached rs w x"
    using wait_until_ready [of w 4 fs rs] w(2,5) v(2) assms(3,6) by (auto simp: bit_simps reached_def)
  have "hreads (Pipe_Freeze x) = rs \<and> length (pipes (Pipe_Freeze x)) = length (pipes h) \<and> USB_HostState (Pipe_Freeze x) = HOST_STATE_Configured"
    using x(2) w(3,5) v(2) assms(6) by (simp add: reached_def Pipe_Freeze_def on_pipe_def)
  then show ?thesis
    using v(1) w(1) x(1) len by (intro exI [of _ "Pipe_Freeze x"]) (simp add: MS_Host_SendCommand_def next_tag_def Let_def)
qed

text \<open>The reads of a transaction that delivers data: the state, the command, the data, the status.\<close>

definition arriving_reads ::
    "out_packet list \<times> bool list \<Rightarrow> bool list \<times> in_packet list \<Rightarrow> bool list \<times> in_packet list \<Rightarrow> (hreg \<times> u16) list" where
  "arriving_reads cmd p q = (HostLook, 0) # command_reads (fst cmd) (snd cmd) @ in_reads p @ in_reads q"

definition command_taken :: "out_packet list \<times> bool list \<Rightarrow> bool" where
  "command_taken cmd \<longleftrightarrow> taking (fst cmd) 31 \<and> frames (snd cmd) \<le> 100"

definition status_passed :: "bool list \<times> in_packet list \<Rightarrow> bool" where
  "status_passed q \<longleftrightarrow> arriving q \<and> length (in_bytes (snd q)) = 13 \<and> in_bytes (snd q) ! 12 = SCSI_Command_Pass"

lemma data_arrive:
  assumes "hreads h = arriving_reads cmd p q @ rs" "USB_HostState h = HOST_STATE_Configured" "IsActive st"
    and "unat (DataINPipeNumber cfg) < length (pipes h)" "unat (DataOUTPipeNumber cfg) < length (pipes h)"
    and "Flags block AND 0x80 \<noteq> 0" "(ucast (DataTransferLength block) :: u16) = of_nat (length d)" "length (SCSICommandData block) = 16"
    and "command_taken cmd" "arriving p" "in_bytes (snd p) = d" "length d \<le> length buf" "status_passed q"
  shows "\<exists>t. transaction cfg st block id (Some buf) h = Some (0, Some (d @ drop (length d) buf), snd (next_tag st), t) \<and> hreads t = rs"
proof -
  let ?g = "h\<lparr>hreads := command_reads (fst cmd) (snd cmd) @ in_reads p @ in_reads q @ rs\<rparr>"
  have g: "attached st h = Some (True, ?g)"
    using assms(1-3) by (intro attached_runs) (simp_all add: arriving_reads_def)
  obtain u where u: "MS_Host_SendCommand cfg st block (Some buf) ?g = do {
        (e, b, v) \<leftarrow> MS_Host_SendReceiveData cfg (block\<lparr>Tag := TransactionTag st + 1\<rparr>) buf u;
        Some (e, Some b, snd (next_tag st), if e \<noteq> 0 then Pipe_Freeze v else v) }"
      "hreads u = in_reads p @ in_reads q @ rs" "length (pipes u) = length (pipes h)" "USB_HostState u = HOST_STATE_Configured"
    using block_runs [of ?g "fst cmd" "snd cmd" "in_reads p @ in_reads q @ rs" block cfg st buf] assms(2,5,8,9)
    by (auto simp: command_taken_def)
  obtain v where v: "receive_data cfg (of_nat (length d)) buf u = Some (0, d @ drop (length d) buf, v)"
      "hreads v = in_reads q @ rs" "length (pipes v) = length (pipes h)" "USB_HostState v = HOST_STATE_Configured"
    using data_in_runs [OF u(2) assms(10-12)] u(3,4) assms(4) by auto
  obtain t where t: "MS_Host_GetReturnedStatus cfg v = Some (0, t)" "hreads t = rs"
    using status_runs [OF v(2)] v(3,4) assms(4,13) by (auto simp: status_passed_def)
  show ?thesis
    using g u(1) v(1) t assms(6,7) by (simp add: transaction_def MS_Host_SendReceiveData_def)
qed

lemma blocks_come:
  assumes "hreads h = arriving_reads cmd p q @ rs" "USB_HostState h = HOST_STATE_Configured" "IsActive st"
    and "unat (DataINPipeNumber cfg) < length (pipes h)" "unat (DataOUTPipeNumber cfg) < length (pipes h)"
    and "command_taken cmd" "arriving p" "status_passed q"
    and "length (in_bytes (snd p)) = unat n * unat k" "length (in_bytes (snd p)) \<le> length buf"
  shows "\<exists>t. MS_Host_ReadDeviceBlocks cfg st lun a n k buf h =
      Some (0, Some (in_bytes (snd p) @ drop (unat n * unat k) buf), snd (next_tag st), t) \<and> hreads t = rs"
proof -
  let ?d = "in_bytes (snd p)"
  have "(ucast (ucast n * ucast k :: u32) :: u16) = of_nat (unat n * unat k mod 2 ^ 16)"
    unfolding transfer_length [symmetric] by simp
  moreover have "unat n * unat k < 2 ^ 16"
    using assms(7,9) by (simp add: arriving_def)
  ultimately have "(ucast (ucast n * ucast k :: u32) :: u16) = of_nat (length ?d)"
    using assms(9) by simp
  then have "\<exists>t. MS_Host_ReadDeviceBlocks cfg st lun a n k buf h =
      Some (0, Some (?d @ drop (length ?d) buf), snd (next_tag st), t) \<and> hreads t = rs"
    unfolding MS_Host_ReadDeviceBlocks_def using assms by (intro data_arrive) simp_all
  then show ?thesis
    by (simp only: assms(9))
qed


text \<open>The reads of a transaction that takes data; the last packet is taken after some looks.\<close>

definition taking_reads ::
    "out_packet list \<times> bool list \<Rightarrow> out_packet list \<times> nat \<Rightarrow> bool list \<times> in_packet list \<Rightarrow> (hreg \<times> u16) list" where
  "taking_reads cmd p q = (HostLook, 0) # command_reads (fst cmd) (snd cmd) @ out_stream (fst p) @ [(UPINTX, 0)] @
     concat (replicate (snd p) [(UPINTX, 0), (HostLook, 0)]) @ [(UPINTX, 4)] @ in_reads q"

lemma taken_runs:
  "hreads h = concat (replicate k [(UPINTX, 0), (HostLook, 0)]) @ (UPINTX, 4) # rs \<Longrightarrow> USB_HostState h \<noteq> HOST_STATE_Unattached \<Longrightarrow>
    taken_wait h = Some (0, h\<lparr>hreads := rs\<rparr>)"
proof (induction k arbitrary: h)
  case 0
  then show ?case
    by (simp add: taken_wait.simps [of h] pipe_defs hrd_def bit_simps)
next
  case (Suc k)
  let ?u = "h\<lparr>hreads := concat (replicate k [(UPINTX, 0), (HostLook, 0)]) @ (UPINTX, 4) # rs\<rparr>"
  have "taken_wait h = taken_wait ?u"
    using Suc.prems by (subst taken_wait.simps) (simp add: pipe_defs hrd_def)
  with Suc.IH [of ?u] Suc.prems(2) show ?case
    by simp
qed

lemma data_out_runs:
  assumes "hreads h = out_stream (fst p) @ (UPINTX, 0) # concat (replicate (snd p) [(UPINTX, 0), (HostLook, 0)]) @ (UPINTX, 4) # rs"
    and "taking (fst p) (length d)" "length d < 2 ^ 16" "unat (DataOUTPipeNumber cfg) < length (pipes h)"
    and "USB_HostState h = HOST_STATE_Configured"
  shows "\<exists>t. send_data cfg (of_nat (length d)) d h = Some (0, t) \<and> hreads t = rs \<and> length (pipes t) = length (pipes h) \<and>
    USB_HostState t = HOST_STATE_Configured"
proof -
  let ?u = "use_pipe (DataOUTPipeNumber cfg) h"
  let ?rest = "concat (replicate (snd p) [(UPINTX, 0), (HostLook, 0)]) @ (UPINTX, 4) # rs"
  obtain v where v: "Pipe_Write_Stream_LE d (of_nat (length d)) ?u = Some (0, v)"
      "reached ((UPINTX, 0) # ?rest) (Pipe_SetPipeToken PIPE_TOKEN_OUT ?u) v"
    using stream_is_written [of ?u "fst p" "(UPINTX, 0) # ?rest" d] assms by (auto simp: taking_def)
  obtain w where w: "Pipe_ClearOUT v = Some w" "hreads w = ?rest" "pipes w = pipes v" "USB_HostState w = USB_HostState v"
    using clear_runs(2) [of v 0 ?rest] v(2) by (auto simp: reached_def)
  have "hreads (Pipe_Freeze g) = hreads g" for g
    by (simp add: Pipe_Freeze_def on_pipe_def)
  with v w taken_runs [OF w(2)] assms(5) show ?thesis
    by (simp add: send_data_def reached_def)
qed

lemma data_taken:
  assumes "hreads h = taking_reads cmd p q @ rs" "USB_HostState h = HOST_STATE_Configured" "IsActive st"
    and "unat (DataINPipeNumber cfg) < length (pipes h)" "unat (DataOUTPipeNumber cfg) < length (pipes h)"
    and "Flags block AND 0x80 = 0" "(ucast (DataTransferLength block) :: u16) = of_nat (length d)" "length (SCSICommandData block) = 16"
    and "length d < 2 ^ 16" "command_taken cmd" "taking (fst p) (length d)" "status_passed q"
  shows "\<exists>t. transaction cfg st block id (Some d) h = Some (0, Some d, snd (next_tag st), t) \<and> hreads t = rs"
proof -
  let ?data = "out_stream (fst p) @ (UPINTX, 0) # concat (replicate (snd p) [(UPINTX, 0), (HostLook, 0)]) @ (UPINTX, 4) # in_reads q @ rs"
  let ?g = "h\<lparr>hreads := command_reads (fst cmd) (snd cmd) @ ?data\<rparr>"
  have g: "attached st h = Some (True, ?g)"
    using assms(1-3) by (intro attached_runs) (simp_all add: taking_reads_def)
  obtain u where u: "MS_Host_SendCommand cfg st block (Some d) ?g = do {
        (e, b, v) \<leftarrow> MS_Host_SendReceiveData cfg (block\<lparr>Tag := TransactionTag st + 1\<rparr>) d u;
        Some (e, Some b, snd (next_tag st), if e \<noteq> 0 then Pipe_Freeze v else v) }"
      "hreads u = ?data" "length (pipes u) = length (pipes h)" "USB_HostState u = HOST_STATE_Configured"
    using block_runs [of ?g "fst cmd" "snd cmd" ?data block cfg st d] assms(2,5,8,10) by (auto simp: command_taken_def)
  obtain v where v: "send_data cfg (of_nat (length d)) d u = Some (0, v)"
      "hreads v = in_reads q @ rs" "length (pipes v) = length (pipes h)" "USB_HostState v = HOST_STATE_Configured"
    using data_out_runs [OF u(2) assms(11,9)] u(3,4) assms(5) by auto
  obtain t where t: "MS_Host_GetReturnedStatus cfg v = Some (0, t)" "hreads t = rs"
    using status_runs [OF v(2)] v(3,4) assms(4,12) by (auto simp: status_passed_def)
  show ?thesis
    using g u(1) v(1) t assms(6,7) by (simp add: transaction_def MS_Host_SendReceiveData_def)
qed

text \<open>
  A block of 512 bytes at address 5, delivered in eight packets of 64, and the status of success with its
  signature; the pipes are waited for now and then.
\<close>

definition pipes_1_2 :: pipe_config where
  "pipes_1_2 = \<lparr>DataINPipeNumber = 1, DataINPipeDoubleBank = False, DataOUTPipeNumber = 2, DataOUTPipeDoubleBank = False\<rparr>"

definition disk_host :: "(hreg \<times> u16) list \<Rightarrow> host" where
  "disk_host rs = \<lparr>pipes = replicate PIPE_TOTAL_PIPES \<lparr>UPCONX = 0, UPCFG0X = 0, UPCFG1X = 0\<rparr>, UPNUM = 0,
     hreads = rs, hwrites = [], SOFEN = False, USB_HostState = HOST_STATE_Configured, USB_ControlPipeSize = 8,
     HostRequest = no_request\<rparr>"

definition passed :: "bool list \<times> in_packet list" where
  "passed = ([True, False], [([], [0x55, 0x53, 0x42, 0x53, 1, 0, 0, 0]), ([True], [0, 0, 0, 0, 0])])"

definition taken :: "out_packet list \<times> bool list" where
  "taken = ([([], 8), ([False, True], 8), ([], 8), ([], 7)], [True])"

definition sector :: "bool list \<times> in_packet list" where
  "sector = (replicate 20 True, replicate 8 ([True, False], map of_nat [0..<64]))"

abbreviation (input) "active_disk \<equiv> cleared_ms\<lparr>IsActive := True\<rparr>"

lemma taken_sound: "command_taken taken"
  by code_simp

lemma passed_sound: "status_passed passed"
  by (simp add: status_passed_def arriving_def passed_def in_order_def in_bytes_def)

lemma sector_sound: "arriving sector \<and> length (in_bytes (snd sector)) = 512"
proof -
  have "frames (replicate k True) = k" for k
    by (simp add: frames_def)
  then have "in_order (snd sector) \<and> frames (fst sector) = 20"
    by (auto simp: in_order_def sector_def)
  moreover have "length (in_bytes (snd sector)) = 512"
    by (simp add: in_bytes_def sector_def length_concat map_replicate_const sum_list_replicate)
  ultimately show ?thesis
    by (simp add: arriving_def)
qed

lemma disk_fields:
  "hreads (disk_host rs) = rs" "USB_HostState (disk_host rs) = HOST_STATE_Configured" "length (pipes (disk_host rs)) = 7"
  "written (disk_host rs) = []" "unat (DataINPipeNumber pipes_1_2) = 1" "unat (DataOUTPipeNumber pipes_1_2) = 2"
  by (simp_all add: disk_host_def pipes_1_2_def written_def)

lemma sector_arrives:
  "\<exists>t. MS_Host_ReadDeviceBlocks pipes_1_2 active_disk 0 5 1 512 (replicate 600 9) (disk_host (arriving_reads taken sector passed)) =
    Some (0, Some (in_bytes (snd sector) @ replicate 88 9), snd (next_tag active_disk), t) \<and> hreads t = []"
  using blocks_come [of "disk_host (arriving_reads taken sector passed)" taken sector passed "[]" active_disk pipes_1_2
      1 512 "replicate 600 9" 0 5] sector_sound
  by (simp add: disk_fields taken_sound passed_sound)


lemma six_zeros: "replicate 6 (0 :: u8) = [0, 0, 0, 0, 0, 0]"
  by (simp add: numeral_eq_Suc)

theorem blocks_read_witness:
  "\<exists>t. MS_Host_ReadDeviceBlocks pipes_1_2 active_disk 0 5 1 512 (replicate 600 9) (disk_host (arriving_reads taken sector passed)) =
      Some (0, Some (in_bytes (snd sector) @ replicate 88 9), snd (next_tag active_disk), t) \<and>
    written t = [0x55, 0x53, 0x42, 0x43, 1, 0, 0, 0, 0, 2, 0, 0, 0x80, 0, 10, 0x28, 0, 0, 0, 0, 5, 0, 0, 1, 0, 0, 0, 0, 0, 0, 0]"
proof -
  obtain t where t: "MS_Host_ReadDeviceBlocks pipes_1_2 active_disk 0 5 1 512 (replicate 600 9)
        (disk_host (arriving_reads taken sector passed)) =
      Some (0, Some (in_bytes (snd sector) @ replicate 88 9), snd (next_tag active_disk), t)"
    using sector_arrives by blast
  have "blocks_on_bus 0x28 0x80 1 0 5 1 512 =
      [0x55, 0x53, 0x42, 0x43, 1, 0, 0, 0, 0, 2, 0, 0, 0x80, 0, 10, 0x28, 0, 0, 0, 0, 5, 0, 0, 1, 0, 0, 0, 0, 0, 0, 0]"
    by code_simp
  moreover have "TransactionTag active_disk + 1 = 1"
    by (simp add: cleared_ms_def)
  ultimately show ?thesis
    using blocks_read [OF t] t by (auto simp: disk_fields)
qed

theorem blocks_written_witness:
  "\<exists>t. MS_Host_WriteDeviceBlocks pipes_1_2 active_disk 0 5 1 2 [7, 8]
      (disk_host (taking_reads taken ([([True], 1), ([], 1)], 3) passed)) =
      Some (0, Some [7, 8], snd (next_tag active_disk), t) \<and>
    written t = [0x55, 0x53, 0x42, 0x43, 1, 0, 0, 0, 2, 0, 0, 0, 0, 0, 10, 0x2A, 0, 0, 0, 0, 5, 0, 0, 1, 0, 0, 0, 0, 0, 0, 0, 7, 8]"
proof -
  let ?h = "disk_host (taking_reads taken ([([True], 1), ([], 1)], 3) passed)"
  have tk: "taking [([True], 1), ([], 1)] (Suc (Suc 0))"
    by code_simp
  obtain t where t: "MS_Host_WriteDeviceBlocks pipes_1_2 active_disk 0 5 1 2 [7, 8] ?h =
      Some (0, Some [7, 8], snd (next_tag active_disk), t)"
    using data_taken [of ?h taken "([([True], 1), ([], 1)], 3)" passed "[]" active_disk pipes_1_2
      "command_block (1 * 2) 0 0 (block_command 0x2A 5 1)" "[7, 8]"]
    by (auto simp: disk_fields MS_Host_WriteDeviceBlocks_def taken_sound passed_sound tk [simplified])
  have "blocks_on_bus 0x2A 0 1 0 5 1 2 =
      [0x55, 0x53, 0x42, 0x43, 1, 0, 0, 0, 2, 0, 0, 0, 0, 0, 10, 0x2A, 0, 0, 0, 0, 5, 0, 0, 1, 0, 0, 0, 0, 0, 0, 0]"
    by code_simp
  moreover have "TransactionTag active_disk + 1 = 1"
    by (simp add: cleared_ms_def)
  ultimately show ?thesis
    using blocks_written [OF t] t by (auto simp: disk_fields)
qed

end
