(* ===== verification/PrinterHost.thy ===== *)
theory PrinterHost
  imports HostStreams
begin

text \<open>
  LUFA's class driver of the host for printers (\<open>Class/Host/Printer.c\<close>). The string buffer of \<open>PRNT_Host_GetDeviceID\<close>
  comes with the bytes it holds; an access outside of it has no result.
\<close>

section \<open>Enumeration\<close>

record PRNT_Host_State = data_pipes +
  InterfaceNumber :: u8
  AlternateSetting :: u8

definition cleared_printer :: PRNT_Host_State where
  "cleared_printer = \<lparr>IsActive = False, DataINPipeSize = 0, DataOUTPipeSize = 0, InterfaceNumber = 0, AlternateSetting = 0\<rparr>"

definition DComp_NextPRNTInterface :: "u8 list \<Rightarrow> nat \<Rightarrow> host \<Rightarrow> (u8 \<times> host) option" where
  "DComp_NextPRNTInterface = class_interface 0x07 0x01 0x02"

text \<open>An endpoint that has a pipe already is found again.\<close>

definition DComp_NextPRNTInterfaceEndpoint :: "u8 list \<Rightarrow> nat \<Rightarrow> host \<Rightarrow> (u8 \<times> host) option" where
  "DComp_NextPRNTInterfaceEndpoint mem loc h = do {
     t \<leftarrow> DESCRIPTOR_TYPE mem loc;
     if t = DTYPE_Endpoint then do {
       EndpointType \<leftarrow> endpoint_Type mem loc;
       Some (if EndpointType = PIPE_EP_TYPE_BULK then DESCRIPTOR_SEARCH_Found else DESCRIPTOR_SEARCH_NotFound, h) }
     else Some (if t = DTYPE_Interface then DESCRIPTOR_SEARCH_Fail else DESCRIPTOR_SEARCH_NotFound, h) }"

definition PRNT_Host_ConfigurePipes ::
    "cfgok \<Rightarrow> pipe_config \<Rightarrow> u16 \<Rightarrow> u8 list \<Rightarrow> host \<Rightarrow> (enum_failure \<times> PRNT_Host_State \<times> host) option" where
  "PRNT_Host_ConfigurePipes ok cfg ConfigDescriptorSize mem h =
     configure_pipes (DComp_NextPRNTInterface mem)
       (\<lambda>loc st. do { n \<leftarrow> byte_at mem (loc + 2); a \<leftarrow> byte_at mem (loc + 3); Some (st\<lparr>InterfaceNumber := n, AlternateSetting := a\<rparr>) })
       (\<lambda>rem loc. pipes_loop (bind_data ok cfg mem) (False, True, True) (DComp_NextPRNTInterfaceEndpoint mem) mem rem loc
          (False, False, False))
       cleared_printer ConfigDescriptorSize mem h"

section \<open>Requests\<close>

definition PRNT_Host_SetBidirectionalMode :: "PRNT_Host_State \<Rightarrow> host \<Rightarrow> (u8 \<times> host) option" where
  "PRNT_Host_SetBidirectionalMode st h =
     (if AlternateSetting st \<noteq> 0 then do {
        (ErrorCode, _, h) \<leftarrow> USB_Host_SendControlRequest None (Pipe_SelectPipe PIPE_CONTROLPIPE
          (requesting 0x01 0x0B (ucast (AlternateSetting st)) (ucast (InterfaceNumber st)) 0 h));
        Some (ErrorCode, h) }
      else Some (HOST_SENDCONTROL_Successful, h))"

definition PRNT_Host_GetPortStatus :: "PRNT_Host_State \<Rightarrow> u8 \<Rightarrow> host \<Rightarrow> (u8 \<times> u8 list option \<times> host) option" where
  "PRNT_Host_GetPortStatus st PortStatus h = USB_Host_SendControlRequest (Some [PortStatus]) (class_query 1 (InterfaceNumber st) 1 h)"

definition PRNT_Host_SoftReset :: "PRNT_Host_State \<Rightarrow> host \<Rightarrow> (u8 \<times> host) option" where
  "PRNT_Host_SoftReset st h = do {
     (ErrorCode, _, h) \<leftarrow> USB_Host_SendControlRequest None (class_command 2 0 (InterfaceNumber st) 0 h);
     Some (ErrorCode, h) }"

definition PRNT_Host_SendData :: "pipe_config \<Rightarrow> PRNT_Host_State \<Rightarrow> u8 list \<Rightarrow> u16 \<Rightarrow> host \<Rightarrow> (u8 \<times> host) option" where
  "PRNT_Host_SendData cfg st PrinterCommands CommandSize h = do {
     (ok, h) \<leftarrow> attached st h;
     if \<not> ok then Some (PIPE_RWSTREAM_DeviceDisconnected, h)
     else do {
       (ErrorCode, h) \<leftarrow> Pipe_Write_Stream_LE PrinterCommands CommandSize (use_pipe (DataOUTPipeNumber cfg) h);
       if ErrorCode \<noteq> PIPE_RWSTREAM_NoError then Some (ErrorCode, h)
       else do {
         h \<leftarrow> Pipe_ClearOUT h;
         (ErrorCode, h) \<leftarrow> taken_wait h;
         if ErrorCode \<noteq> PIPE_RWSTREAM_NoError then Some (ErrorCode, h)
         else Some (PIPE_RWSTREAM_NoError, Pipe_Freeze h) } } }"

text \<open>The string moved to the front of the buffer over its length, and its end; \<open>n - 2\<close> has 16 bits.\<close>

definition move_string :: "u16 \<Rightarrow> u8 list \<Rightarrow> u8 list option" where
  "move_string n S = (let k = unat (n - 2)
     in if k + 2 \<le> length S then do { S \<leftarrow> overlay 0 (take k (drop 2 S)) S; overlay k [0] S } else None)"

definition PRNT_Host_GetDeviceID ::
    "PRNT_Host_State \<Rightarrow> u8 list \<Rightarrow> u16 \<Rightarrow> host \<Rightarrow> (u8 \<times> u8 list \<times> host) option" where
  "PRNT_Host_GetDeviceID st DeviceIDString BufferSize h = do {
     (ErrorCode, len, h) \<leftarrow> USB_Host_SendControlRequest (Some [0, 0]) (class_query 0 (InterfaceNumber st) 2 h);
     len \<leftarrow> len;
     if ErrorCode \<noteq> HOST_SENDCONTROL_Successful then Some (ErrorCode, DeviceIDString, h)
     else if word16 len = 0 then do { S \<leftarrow> overlay 0 [0] DeviceIDString; Some (HOST_SENDCONTROL_Successful, S, h) }
     else do {
       let n = min (word16 (rev len)) BufferSize;
       (ErrorCode, S, h) \<leftarrow> USB_Host_SendControlRequest (Some DeviceIDString) (h\<lparr>HostRequest := (HostRequest h)\<lparr>wLength := n\<rparr>\<rparr>);
       S \<leftarrow> S;
       if ErrorCode \<noteq> HOST_SENDCONTROL_Successful then Some (ErrorCode, S, h)
       else do { S \<leftarrow> move_string n S; Some (HOST_SENDCONTROL_Successful, S, h) } } }"

end
