(* ===== verification/MidiEvent.thy ===== *)
theory MidiEvent
  imports Structures
begin

text \<open>
  The event packet of USB MIDI (\<open>Common/MIDI.h\<close>): two numbers of four bits and three bytes, in four bytes.
\<close>

record MIDI_EventPacket_t =
  Command :: u8
  CableNumber :: u8
  Data1 :: u8
  Data2 :: u8
  Data3 :: u8

definition event_bytes :: "MIDI_EventPacket_t \<Rightarrow> u8 list" where
  "event_bytes e = [Command e AND 0x0F OR push_bit 4 (CableNumber e AND 0x0F), Data1 e, Data2 e, Data3 e]"

definition event_of :: "u8 list \<Rightarrow> MIDI_EventPacket_t" where
  "event_of bs = \<lparr>Command = bs ! 0 AND 0x0F, CableNumber = drop_bit 4 (bs ! 0), Data1 = bs ! 1, Data2 = bs ! 2, Data3 = bs ! 3\<rparr>"

definition event_ok :: "MIDI_EventPacket_t \<Rightarrow> bool" where
  "event_ok e \<longleftrightarrow> Command e AND 0x0F = Command e \<and> CableNumber e AND 0x0F = CableNumber e"

lemma length_event_bytes [simp]: "length (event_bytes e) = 4"
  by (simp add: event_bytes_def)

lemma nibbles:
  fixes a b :: u8
  shows "(a AND 0x0F OR push_bit 4 (b AND 0x0F)) AND 0x0F = a AND 0x0F" "drop_bit 4 (a AND 0x0F OR push_bit 4 (b AND 0x0F)) = b AND 0x0F"
proof -
  have cases: "n < 8 \<Longrightarrow> n = 0 \<or> n = 1 \<or> n = 2 \<or> n = 3 \<or> n = 4 \<or> n = 5 \<or> n = 6 \<or> n = 7" for n :: nat
    by linarith
  show "(a AND 0x0F OR push_bit 4 (b AND 0x0F)) AND 0x0F = a AND 0x0F"
    by (rule bit_word_eqI) (auto simp: bit_simps dest!: cases)
  show "drop_bit 4 (a AND 0x0F OR push_bit 4 (b AND 0x0F)) = b AND 0x0F"
    by (rule bit_word_eqI) (auto simp: bit_simps dest!: cases)
qed

lemma event_of_bytes [simp]: "event_ok e \<Longrightarrow> event_of (event_bytes e) = e"
  using nibbles [of "Command e" "CableNumber e"] by (simp add: event_ok_def event_of_def event_bytes_def)

end
