(* ===== verification/MidiHost.thy ===== *)
theory MidiHost
  imports HostStreams MidiEvent
begin

text \<open>
  LUFA's class driver of the host for MIDI devices (\<open>Class/Host/MIDI.c\<close>).
\<close>

section \<open>Enumeration\<close>

definition cleared_midi :: data_pipes where
  "cleared_midi = \<lparr>IsActive = False, DataINPipeSize = 0, DataOUTPipeSize = 0\<rparr>"

definition DComp_MIDI_Host_NextMIDIStreamingInterface :: "u8 list \<Rightarrow> nat \<Rightarrow> host \<Rightarrow> (u8 \<times> host) option" where
  "DComp_MIDI_Host_NextMIDIStreamingInterface = class_interface 0x01 0x03 0x00"

definition DComp_MIDI_Host_NextMIDIStreamingDataEndpoint :: "cfgok \<Rightarrow> u8 list \<Rightarrow> nat \<Rightarrow> host \<Rightarrow> (u8 \<times> host) option" where
  "DComp_MIDI_Host_NextMIDIStreamingDataEndpoint = free_endpoint [PIPE_EP_TYPE_BULK]"

definition MIDI_Host_ConfigurePipes ::
    "cfgok \<Rightarrow> pipe_config \<Rightarrow> u16 \<Rightarrow> u8 list \<Rightarrow> host \<Rightarrow> (enum_failure \<times> data_pipes \<times> host) option" where
  "MIDI_Host_ConfigurePipes ok cfg ConfigDescriptorSize mem h =
     configure_pipes (DComp_MIDI_Host_NextMIDIStreamingInterface mem) (\<lambda>loc. Some)
       (\<lambda>rem loc. pipes_loop (bind_data ok cfg mem) (False, True, True) (DComp_MIDI_Host_NextMIDIStreamingDataEndpoint ok mem) mem
          rem loc (False, False, False))
       cleared_midi ConfigDescriptorSize mem h"

section \<open>Events\<close>

definition MIDI_Host_Flush :: "pipe_config \<Rightarrow> host \<Rightarrow> (u8 \<times> host) option" where
  "MIDI_Host_Flush cfg h = do {
     (hs, h) \<leftarrow> look_state h;
     if hs \<noteq> HOST_STATE_Configured then Some (PIPE_RWSTREAM_DeviceDisconnected, h)
     else do {
       (n, h) \<leftarrow> Pipe_BytesInPipe (Pipe_SelectPipe (DataOUTPipeNumber cfg) h);
       if n \<noteq> 0 then do { h \<leftarrow> Pipe_ClearOUT h; Pipe_WaitUntilReady h }
       else Some (PIPE_READYWAIT_NoError, h) } }"

definition MIDI_Host_SendEventPacket :: "pipe_config \<Rightarrow> data_pipes \<Rightarrow> MIDI_EventPacket_t \<Rightarrow> host \<Rightarrow> (u8 \<times> host) option" where
  "MIDI_Host_SendEventPacket cfg st Event h = do {
     (ok, h) \<leftarrow> attached st h;
     if \<not> ok then Some (HOST_SENDCONTROL_DeviceDisconnected, h)
     else do {
       (room, h) \<leftarrow> Pipe_IsReadWriteAllowed (Pipe_SelectPipe (DataOUTPipeNumber cfg) h);
       if room then do {
         (ErrorCode, h) \<leftarrow> Pipe_Write_Stream_LE (event_bytes Event) 4 h;
         if ErrorCode \<noteq> PIPE_RWSTREAM_NoError then Some (ErrorCode, h)
         else do {
           (room, h) \<leftarrow> Pipe_IsReadWriteAllowed h;
           h \<leftarrow> (if \<not> room then Pipe_ClearOUT h else Some h);
           Some (PIPE_RWSTREAM_NoError, h) } }
       else Some (PIPE_RWSTREAM_NoError, h) } }"

text \<open>The error code of a function that returns a truth value; the error of the stream is dropped.\<close>

definition MIDI_Host_ReceiveEventPacket ::
    "pipe_config \<Rightarrow> data_pipes \<Rightarrow> MIDI_EventPacket_t \<Rightarrow> host \<Rightarrow> (bool \<times> MIDI_EventPacket_t \<times> host) option" where
  "MIDI_Host_ReceiveEventPacket cfg st Event h = do {
     (ok, h) \<leftarrow> attached st h;
     if \<not> ok then Some (HOST_SENDCONTROL_DeviceDisconnected \<noteq> 0, Event, h)
     else do {
       (some, h) \<leftarrow> Pipe_IsReadWriteAllowed (Pipe_SelectPipe (DataINPipeNumber cfg) h);
       if \<not> some then Some (False, Event, h)
       else do {
         (_, bs, h) \<leftarrow> Pipe_Read_Stream_LE 4 h;
         Event \<leftarrow> map_option event_of (overlay 0 bs (event_bytes Event));
         (more, h) \<leftarrow> Pipe_IsReadWriteAllowed h;
         h \<leftarrow> (if \<not> more then Pipe_ClearIN h else Some h);
         Some (True, Event, h) } } }"

section \<open>What is transferred\<close>

lemma quiet_allowed: "Pipe_IsReadWriteAllowed h = Some (b, t) \<Longrightarrow> quiet h t"
  by (auto simp: pipe_defs dest!: calm_reads calm_quiet split: bind_splits)

text \<open>Without a device the receiver says that it has received the event it was given.\<close>

lemma receive_without_device:
  assumes "MIDI_Host_ReceiveEventPacket cfg st Event h = Some (r, Event', t)" "\<not> IsActive st"
  shows "r \<and> Event' = Event \<and> delivered t = delivered h"
proof -
  obtain ok u where u: "attached st h = Some (ok, u)"
    using assms(1) by (auto simp: MIDI_Host_ReceiveEventPacket_def split: bind_splits)
  then have "\<not> ok"
    using assms(2) by (auto simp: attached_def split: bind_splits)
  with assms(1) u calm_quiet [OF calm_attached [OF u]] show ?thesis
    by (simp add: MIDI_Host_ReceiveEventPacket_def quiet_def)
qed

end
