(* ===== verification/CdcHost.thy ===== *)
theory CdcHost
  imports HostStreams HostEnumeration
begin

text \<open>
  LUFA's class driver of the host for virtual serial ports (\<open>Class/Host/CDC.c\<close>), as built for a host only, with
  the stub for the event of a changed control line. The local structure a notification is read into is not
  initialised: what it holds first is an argument.
\<close>

section \<open>State\<close>

record CDC_LineEncoding =
  BaudRateBPS :: u32
  CharFormat :: u8
  ParityType :: u8
  DataBits :: u8

record CDC_Host_State = event_pipes +
  ControlInterfaceNumber :: u8
  HostToDevice :: u8
  DeviceToHost :: u8
  LineEncoding :: CDC_LineEncoding

definition cleared_cdc :: CDC_Host_State where
  "cleared_cdc = \<lparr>IsActive = False, DataINPipeSize = 0, DataOUTPipeSize = 0, EventsPipeSize = 0, ControlInterfaceNumber = 0,
     HostToDevice = 0, DeviceToHost = 0, LineEncoding = \<lparr>BaudRateBPS = 0, CharFormat = 0, ParityType = 0, DataBits = 0\<rparr>\<rparr>"

definition encoding_bytes :: "CDC_LineEncoding \<Rightarrow> u8 list" where
  "encoding_bytes e = bytes32 (BaudRateBPS e) @ [CharFormat e, ParityType e, DataBits e]"

section \<open>Enumeration\<close>

definition DComp_CDC_Host_NextCDCControlInterface :: "u8 list \<Rightarrow> nat \<Rightarrow> host \<Rightarrow> (u8 \<times> host) option" where
  "DComp_CDC_Host_NextCDCControlInterface = class_interface 0x02 0x02 0x01"

definition DComp_CDC_Host_NextCDCDataInterface :: "u8 list \<Rightarrow> nat \<Rightarrow> host \<Rightarrow> (u8 \<times> host) option" where
  "DComp_CDC_Host_NextCDCDataInterface = class_interface 0x0A 0x00 0x00"

definition DComp_CDC_Host_NextCDCInterfaceEndpoint :: "cfgok \<Rightarrow> u8 list \<Rightarrow> nat \<Rightarrow> host \<Rightarrow> (u8 \<times> host) option" where
  "DComp_CDC_Host_NextCDCInterfaceEndpoint = free_endpoint [PIPE_EP_TYPE_BULK, PIPE_EP_TYPE_INTERRUPT]"

definition CDC_Host_ConfigurePipes ::
    "cfgok \<Rightarrow> event_pipe_config \<Rightarrow> u16 \<Rightarrow> u8 list \<Rightarrow> host \<Rightarrow> (enum_failure \<times> CDC_Host_State \<times> host) option" where
  "CDC_Host_ConfigurePipes ok cfg ConfigDescriptorSize mem h =
     configure_pipes (DComp_CDC_Host_NextCDCControlInterface mem)
       (\<lambda>loc st. do { n \<leftarrow> byte_at mem (loc + 2); Some (st\<lparr>ControlInterfaceNumber := n\<rparr>) })
       (\<lambda>rem loc st h. do {
          (e, st, h) \<leftarrow> two_interfaces_loop ok cfg (DComp_CDC_Host_NextCDCControlInterface mem) (DComp_CDC_Host_NextCDCDataInterface mem)
            (DComp_CDC_Host_NextCDCInterfaceEndpoint ok mem) mem rem loc (False, False, False) st h;
          Some (e, if e = ENUMERROR_NoError then st\<lparr>HostToDevice := 3, DeviceToHost := 3\<rparr> else st, h) })
       cleared_cdc ConfigDescriptorSize mem h"

section \<open>Control lines\<close>

definition read_notification :: "u8 list \<Rightarrow> CDC_Host_State \<Rightarrow> host \<Rightarrow> (CDC_Host_State \<times> host) option" where
  "read_notification Notification st h = do {
     (_, bs, h) \<leftarrow> Pipe_Read_Stream_LE 8 h;
     Notification \<leftarrow> overlay 0 bs Notification;
     bmRequestType \<leftarrow> byte_at Notification 0;
     bRequest \<leftarrow> byte_at Notification 1;
     (st, h) \<leftarrow> (if bRequest = 0x20 \<and> bmRequestType = 0xA1 then do {
         (_, bs, h) \<leftarrow> Pipe_Read_Stream_LE 1 h;
         d \<leftarrow> overlay 0 bs [DeviceToHost st];
         Some (st\<lparr>DeviceToHost := hd d\<rparr>, h) }
       else Some (st, h));
     h \<leftarrow> Pipe_ClearIN h;
     Some (st, h) }"

definition CDC_Host_USBTask ::
    "u8 list \<Rightarrow> event_pipe_config \<Rightarrow> CDC_Host_State \<Rightarrow> host \<Rightarrow> (CDC_Host_State \<times> host) option" where
  "CDC_Host_USBTask Notification cfg st h = do {
     (ok, h) \<leftarrow> attached st h;
     if \<not> ok then Some (st, h)
     else do {
       (received, h) \<leftarrow> Pipe_IsINReceived (in_pipe (EventsPipeNumber cfg) h);
       (st, h) \<leftarrow> (if received then read_notification Notification st h else Some (st, h));
       Some (st, Pipe_Freeze h) } }"

definition CDC_Host_SetLineEncoding :: "CDC_Host_State \<Rightarrow> host \<Rightarrow> (u8 \<times> host) option" where
  "CDC_Host_SetLineEncoding st h = do {
     (e, _, h) \<leftarrow> USB_Host_SendControlRequest (Some (encoding_bytes (LineEncoding st)))
       (class_command 0x20 0 (ControlInterfaceNumber st) 7 h);
     Some (e, h) }"

definition CDC_Host_SendControlLineStateChange :: "CDC_Host_State \<Rightarrow> host \<Rightarrow> (u8 \<times> host) option" where
  "CDC_Host_SendControlLineStateChange st h = do {
     (e, _, h) \<leftarrow> USB_Host_SendControlRequest None
       (class_command 0x22 (ucast (HostToDevice st)) (ControlInterfaceNumber st) 0 h);
     Some (e, h) }"

section \<open>Data\<close>

definition CDC_Host_SendString :: "event_pipe_config \<Rightarrow> CDC_Host_State \<Rightarrow> u8 list \<Rightarrow> u16 \<Rightarrow> host \<Rightarrow> (u8 \<times> host) option" where
  "CDC_Host_SendString cfg st Data n h = do {
     (ok, h) \<leftarrow> attached st h;
     if \<not> ok then Some (PIPE_READYWAIT_DeviceDisconnected, h)
     else do {
       (ErrorCode, h) \<leftarrow> Pipe_Write_Stream_LE Data n (use_pipe (DataOUTPipeNumber cfg) h);
       Some (ErrorCode, Pipe_Freeze h) } }"

definition CDC_Host_SendByte :: "event_pipe_config \<Rightarrow> CDC_Host_State \<Rightarrow> u8 \<Rightarrow> host \<Rightarrow> (u8 \<times> host) option" where
  "CDC_Host_SendByte cfg st Data h = do {
     (ok, h) \<leftarrow> attached st h;
     if \<not> ok then Some (PIPE_READYWAIT_DeviceDisconnected, h)
     else do {
       (room, h) \<leftarrow> Pipe_IsReadWriteAllowed (use_pipe (DataOUTPipeNumber cfg) h);
       (ErrorCode, h) \<leftarrow> (if \<not> room then do { h \<leftarrow> Pipe_ClearOUT h; Pipe_WaitUntilReady h } else Some (PIPE_READYWAIT_NoError, h));
       if ErrorCode \<noteq> PIPE_READYWAIT_NoError then Some (ErrorCode, h)
       else Some (PIPE_READYWAIT_NoError, Pipe_Freeze (Pipe_Write_Byte Data h)) } }"

definition CDC_Host_BytesReceived :: "event_pipe_config \<Rightarrow> CDC_Host_State \<Rightarrow> host \<Rightarrow> (u16 \<times> host) option" where
  "CDC_Host_BytesReceived cfg st h = do {
     (ok, h) \<leftarrow> attached st h;
     if \<not> ok then Some (0, h)
     else do {
       (received, h) \<leftarrow> Pipe_IsINReceived (in_pipe (DataINPipeNumber cfg) h);
       if received then do {
         (n, h) \<leftarrow> Pipe_BytesInPipe h;
         h \<leftarrow> (if n = 0 then Pipe_ClearIN h else Some h);
         (BytesInPipe, h) \<leftarrow> Pipe_BytesInPipe h;
         Some (BytesInPipe, Pipe_Freeze h) }
       else Some (0, Pipe_Freeze h) } }"

definition CDC_Host_ReceiveByte :: "event_pipe_config \<Rightarrow> CDC_Host_State \<Rightarrow> host \<Rightarrow> (u8 \<times> host) option" where
  "CDC_Host_ReceiveByte cfg st h = do {
     (ok, h) \<leftarrow> attached st h;
     if \<not> ok then Some (0, h)
     else do {
       (ReceivedByte, h) \<leftarrow> Pipe_Read_Byte (in_pipe (DataINPipeNumber cfg) h);
       (n, h) \<leftarrow> Pipe_BytesInPipe h;
       h \<leftarrow> (if n = 0 then Pipe_ClearIN h else Some h);
       Some (ReceivedByte, Pipe_Freeze h) } }"

definition CDC_Host_Flush :: "event_pipe_config \<Rightarrow> CDC_Host_State \<Rightarrow> host \<Rightarrow> (u8 \<times> host) option" where
  "CDC_Host_Flush cfg st h = do {
     (ok, h) \<leftarrow> attached st h;
     if \<not> ok then Some (PIPE_READYWAIT_DeviceDisconnected, h)
     else do {
       (n, h) \<leftarrow> Pipe_BytesInPipe (use_pipe (DataOUTPipeNumber cfg) h);
       if n = 0 then Some (PIPE_READYWAIT_NoError, h)
       else do {
         (room, h) \<leftarrow> Pipe_IsReadWriteAllowed h;
         h \<leftarrow> Pipe_ClearOUT h;
         (ErrorCode, h) \<leftarrow>
           (if \<not> room then do {
              (ErrorCode, h) \<leftarrow> Pipe_WaitUntilReady h;
              h \<leftarrow> (if ErrorCode \<noteq> PIPE_READYWAIT_NoError then Some h else Pipe_ClearOUT h);
              Some (ErrorCode, h) }
            else Some (PIPE_READYWAIT_NoError, h));
         Some (ErrorCode, if ErrorCode \<noteq> PIPE_READYWAIT_NoError then h else Pipe_Freeze h) } } }"

section \<open>Characters of a stream\<close>

abbreviation (input) "FDEV_ERR \<equiv> - 1 :: int"
abbreviation (input) "FDEV_EOF \<equiv> - 2 :: int"

definition CDC_Host_putchar :: "event_pipe_config \<Rightarrow> CDC_Host_State \<Rightarrow> u8 \<Rightarrow> host \<Rightarrow> (int \<times> host) option" where
  "CDC_Host_putchar cfg st c h = do {
     (e, h) \<leftarrow> CDC_Host_SendByte cfg st c h;
     Some (if e \<noteq> 0 then FDEV_ERR else 0, h) }"

definition CDC_Host_getchar :: "event_pipe_config \<Rightarrow> CDC_Host_State \<Rightarrow> host \<Rightarrow> (int \<times> host) option" where
  "CDC_Host_getchar cfg st h = do {
     (n, h) \<leftarrow> CDC_Host_BytesReceived cfg st h;
     if n = 0 then Some (FDEV_EOF, h)
     else do {
       (b, h) \<leftarrow> CDC_Host_ReceiveByte cfg st h;
       Some (uint b, h) } }"

text \<open>The one that waits lets the driver and the state machine of the host go on meanwhile.\<close>

partial_function (option) CDC_Host_getchar_Blocking ::
    "u8 \<Rightarrow> cfgok \<Rightarrow> u8 list \<Rightarrow> u8 list \<Rightarrow> event_pipe_config \<Rightarrow> CDC_Host_State \<Rightarrow> host_task \<Rightarrow>
      (int \<times> CDC_Host_State \<times> host_task) option" where
  "CDC_Host_getchar_Blocking opts ok DataBuffer Notification cfg st t = do {
     (n, h) \<leftarrow> CDC_Host_BytesReceived cfg st (machine t);
     if n \<noteq> 0 then do {
       (b, h) \<leftarrow> CDC_Host_ReceiveByte cfg st h;
       Some (uint b, st, t\<lparr>machine := h\<rparr>) }
     else do {
       (hs, h) \<leftarrow> look_state h;
       if hs = HOST_STATE_Unattached then Some (FDEV_EOF, st, t\<lparr>machine := h\<rparr>)
       else do {
         (st, h) \<leftarrow> CDC_Host_USBTask Notification cfg st h;
         t \<leftarrow> USB_HostTask opts ok DataBuffer (t\<lparr>machine := h\<rparr>);
         CDC_Host_getchar_Blocking opts ok DataBuffer Notification cfg st t } } }"

declare CDC_Host_getchar_Blocking.simps [code]

end
