(* ===== verification/CdcTransfer.thy ===== *)
theory CdcTransfer
  imports CdcHost
begin

text \<open>
  The characters that pass a virtual serial port of the host: what the streams of the standard library get and put,
  as long as the device stays attached.
\<close>

section \<open>Views\<close>

text \<open>No byte passes, and a host that is configured afterwards was so before.\<close>

definition idle :: "host \<Rightarrow> host \<Rightarrow> bool" where
  "idle h t \<longleftrightarrow> delivered t = delivered h \<and> written t = written h \<and>
     (USB_HostState t = HOST_STATE_Configured \<longrightarrow> USB_HostState h = HOST_STATE_Configured)"

lemma hrd_idle: "hrd r h = Some (x, t) \<Longrightarrow> r \<noteq> UPDATX \<Longrightarrow> idle h t"
  by (auto simp: hrd_def idle_def delivered_def written_def split: list.splits if_splits)

lemma hwr_idle: "r \<noteq> UPDATX \<Longrightarrow> idle h (hwr r x h)"
  by (simp add: hwr_def idle_def delivered_def written_def)

lemma idle_trans: "idle h t \<Longrightarrow> idle t u \<Longrightarrow> idle h u"
  by (simp add: idle_def)

lemma flag_idle: "hflag r b h = Some (x, t) \<Longrightarrow> r \<noteq> UPDATX \<Longrightarrow> idle h t"
  by (auto simp: hflag_def dest!: hrd_idle split: bind_splits)

lemma clear_idle: "hclear r b h = Some t \<Longrightarrow> r \<noteq> UPDATX \<Longrightarrow> idle h t"
  by (auto simp: hclear_def intro: idle_trans [OF hrd_idle hwr_idle] split: bind_splits)

lemma ops_idle:
  "Pipe_IsINReceived h = Some (b, t) \<Longrightarrow> idle h t" "Pipe_IsReadWriteAllowed h = Some (b, t) \<Longrightarrow> idle h t"
  "Pipe_BytesInPipe h = Some (n, t) \<Longrightarrow> idle h t" "Pipe_ClearIN h = Some t \<Longrightarrow> idle h t" "Pipe_ClearOUT h = Some t \<Longrightarrow> idle h t"
  by (auto simp: pipe_defs dest!: hrd_idle split: bind_splits)
    (auto simp: idle_def hwr_def delivered_def written_def)

lemma look_idle: "look_state h = Some (s, t) \<Longrightarrow> idle h t \<and> s = USB_HostState t"
  by (auto simp: look_state_def Let_def dest!: hrd_idle split: bind_splits) (auto simp: idle_def delivered_def written_def)

lemma attached_idle:
  "attached st h = Some (ok, t) \<Longrightarrow> idle h t \<and> ok = (USB_HostState t = HOST_STATE_Configured \<and> IsActive st)"
  by (auto simp: attached_def dest!: look_idle split: bind_splits)

section \<open>Characters\<close>

section \<open>A device at the other end\<close>

text \<open>
  What the pipe of the received characters shows at each visit of \<open>CDC_Host_getchar\<close>, while the device stays attached:
  the value of \<open>UPINTX\<close> and, if it says that a packet has been received, the bytes of that packet, possibly none.
  The packet stays in the bank, and the count of its bytes goes down with each one that is taken, until the bank is
  released; then nothing is counted before the next visit. \<open>port_reads\<close> are the reads this makes, \<open>port_chars\<close> the
  characters that have come, and \<open>port_releases\<close> the packets of which the bank is to be released.
\<close>

type_synonym visit = "u16 \<times> u8 list"

fun packet_reads :: "u16 \<Rightarrow> u8 list \<Rightarrow> (hreg \<times> u16) list" where
  "packet_reads x [] = [(UPINTX, x)]"
| "packet_reads x (b # bs) =
     [(HostLook, 0), (UPINTX, x), (UPBCX, of_nat (Suc (length bs))), (UPBCX, of_nat (Suc (length bs))),
      (HostLook, 0), (UPDATX, ucast b), (UPBCX, of_nat (length bs))] @ packet_reads x bs"

definition visit_reads :: "visit \<Rightarrow> (hreg \<times> u16) list" where
  "visit_reads v = (case v of (x, bs) \<Rightarrow>
     if \<not> bit x RXINI then [(HostLook, 0), (UPINTX, x)]
     else if bs = [] then [(HostLook, 0), (UPINTX, x), (UPBCX, 0), (UPINTX, x), (UPBCX, 0)]
     else packet_reads x bs)"

definition visit_chars :: "visit \<Rightarrow> int list" where
  "visit_chars v = (case v of (x, bs) \<Rightarrow> if \<not> bit x RXINI \<or> bs = [] then [FDEV_EOF] else map uint bs)"

definition release :: "u8 \<Rightarrow> u16 \<Rightarrow> (nat \<times> hreg \<times> u8) list" where
  "release p x = [(unat p, UPINTX, unset_bit RXINI (ucast x)), (unat p, UPINTX, unset_bit FIFOCON (ucast x))]"

definition visit_writes :: "u8 \<Rightarrow> visit \<Rightarrow> (nat \<times> hreg \<times> u8) list" where
  "visit_writes p v = (case v of (x, bs) \<Rightarrow> if bit x RXINI then release p x else [])"

definition port_reads :: "visit list \<Rightarrow> (hreg \<times> u16) list" where
  "port_reads vs = concat (map visit_reads vs)"

definition port_chars :: "visit list \<Rightarrow> int list" where
  "port_chars vs = concat (map visit_chars vs)"

definition port_writes :: "u8 \<Rightarrow> visit list \<Rightarrow> (nat \<times> hreg \<times> u8) list" where
  "port_writes p vs = concat (map (visit_writes p) vs)"

section \<open>Characters that are received\<close>

text \<open>Getting a number of characters.\<close>

fun getchars :: "nat \<Rightarrow> event_pipe_config \<Rightarrow> CDC_Host_State \<Rightarrow> host \<Rightarrow> (int list \<times> host) option" where
  "getchars 0 cfg st h = Some ([], h)"
| "getchars (Suc n) cfg st h = do {
     (c, h) \<leftarrow> CDC_Host_getchar cfg st h;
     (cs, h) \<leftarrow> getchars n cfg st h;
     Some (c # cs, h) }"

lemma getchars_add:
  "getchars m cfg st h = Some (cs, t) \<Longrightarrow> getchars n cfg st t = Some (ds, u) \<Longrightarrow> getchars (m + n) cfg st h = Some (cs @ ds, u)"
  by (induction m arbitrary: h cs) (auto split: bind_splits)

text \<open>From \<open>h\<close> to \<open>t\<close> the reads up to \<open>rs\<close> are used and \<open>ws\<close> is written; the host stays configured.\<close>

definition went :: "(hreg \<times> u16) list \<Rightarrow> (nat \<times> hreg \<times> u8) list \<Rightarrow> host \<Rightarrow> host \<Rightarrow> bool" where
  "went rs ws h t \<longleftrightarrow> hreads t = rs \<and> hwrites t = hwrites h @ ws \<and> USB_HostState t = HOST_STATE_Configured"

lemma in_pipe_fields [simp]:
  "hreads (in_pipe n h) = hreads h" "hwrites (in_pipe n h) = hwrites h" "UPNUM (in_pipe n h) = unat n"
  "hreads (Pipe_Freeze h) = hreads h" "hwrites (Pipe_Freeze h) = hwrites h"
  by (simp_all add: in_pipe_def Pipe_SelectPipe_def Pipe_Unfreeze_def Pipe_Freeze_def Pipe_SetPipeToken_def on_pipe_def)

lemma none_received:
  assumes "hreads h = (HostLook, 0) # (UPINTX, x) # rs" "USB_HostState h = HOST_STATE_Configured" "IsActive st" "\<not> bit x RXINI"
  shows "\<exists>t. CDC_Host_getchar cfg st h = Some (FDEV_EOF, t) \<and> went rs [] h t"
  using attached_runs [OF assms(1-3)] assms(2,4)
  by (simp add: CDC_Host_getchar_def CDC_Host_BytesReceived_def pipe_defs hrd_def went_def)

lemma empty_received:
  assumes "hreads h = (HostLook, 0) # (UPINTX, x) # (UPBCX, 0) # (UPINTX, x) # (UPBCX, 0) # rs"
    "USB_HostState h = HOST_STATE_Configured" "IsActive st" "bit x RXINI"
  shows "\<exists>t. CDC_Host_getchar cfg st h = Some (FDEV_EOF, t) \<and> went rs (release (DataINPipeNumber cfg) x) h t"
  using attached_runs [OF assms(1-3)] assms(2,4)
  by (simp add: CDC_Host_getchar_def CDC_Host_BytesReceived_def pipe_defs hrd_def hwr_def went_def release_def)

lemma byte_received:
  fixes b :: u8
  assumes "hreads h = [(HostLook, 0), (UPINTX, x), (UPBCX, n), (UPBCX, n), (HostLook, 0), (UPDATX, ucast b), (UPBCX, m)] @ rs"
    "USB_HostState h = HOST_STATE_Configured" "IsActive st" "bit x RXINI" "n \<noteq> 0" "m = 0 \<longrightarrow> rs = (UPINTX, x) # qs"
  shows "\<exists>t. CDC_Host_getchar cfg st h = Some (uint b, t) \<and>
    went (if m = 0 then qs else rs) (if m = 0 then release (DataINPipeNumber cfg) x else []) h t"
proof -
  have "\<exists>u. CDC_Host_BytesReceived cfg st h = Some (n, u) \<and>
      went ([(HostLook, 0), (UPDATX, ucast b), (UPBCX, m)] @ rs) [] h u"
    using attached_runs [OF _ assms(2,3)] assms(1,2,4,5)
    by (simp add: CDC_Host_BytesReceived_def pipe_defs hrd_def went_def)
  then obtain u where u: "CDC_Host_BytesReceived cfg st h = Some (n, u)"
      "hreads u = (HostLook, 0) # (UPDATX, ucast b) # (UPBCX, m) # rs" "hwrites u = hwrites h" "USB_HostState u = HOST_STATE_Configured"
    by (auto simp: went_def)
  have "\<exists>t. CDC_Host_ReceiveByte cfg st u = Some (b, t) \<and>
      went (if m = 0 then qs else rs) (if m = 0 then release (DataINPipeNumber cfg) x else []) u t"
    using attached_runs [OF u(2,4) assms(3)] u(4) assms(6)
    by (simp add: CDC_Host_ReceiveByte_def pipe_defs hrd_def hwr_def went_def release_def byte_back)
  with u(1,3) assms(5) show ?thesis
    by (auto simp: CDC_Host_getchar_def went_def)
qed

lemma packet_received:
  assumes "bs \<noteq> []" "length bs < 2 ^ 16" "hreads h = packet_reads x bs @ rs" "USB_HostState h = HOST_STATE_Configured"
    "IsActive st" "bit x RXINI"
  shows "\<exists>t. getchars (length bs) cfg st h = Some (map uint bs, t) \<and> went rs (release (DataINPipeNumber cfg) x) h t"
  using assms
proof (induction bs arbitrary: h)
  case Nil
  then show ?case
    by simp
next
  case (Cons b bs)
  let ?m = "of_nat (length bs) :: u16"
  have m: "?m = 0 \<longleftrightarrow> bs = []" "(of_nat (Suc (length bs)) :: u16) \<noteq> 0"
    using of_nat_u16 [of "length bs"] of_nat_u16 [of "Suc (length bs)"] Cons.prems(2) by (simp_all del: of_nat_Suc)
  from byte_received [of h x "of_nat (Suc (length bs))" b ?m "packet_reads x bs @ rs" st rs cfg] Cons.prems m
  obtain t where t: "CDC_Host_getchar cfg st h = Some (uint b, t)"
      "went (if bs = [] then rs else packet_reads x bs @ rs) (if bs = [] then release (DataINPipeNumber cfg) x else []) h t"
    by (auto simp del: of_nat_Suc)
  show ?case
  proof (cases "bs = []")
    case True
    with t show ?thesis
      by simp
  next
    case False
    with Cons.IH [of t] Cons.prems t(2) obtain u where "getchars (length bs) cfg st t = Some (map uint bs, u)"
        "went rs (release (DataINPipeNumber cfg) x) t u"
      by (auto simp: went_def)
    with t False show ?thesis
      by (auto simp: went_def)
  qed
qed

lemma visit_received:
  assumes "length (snd v) < 2 ^ 16" "hreads h = visit_reads v @ rs" "USB_HostState h = HOST_STATE_Configured" "IsActive st"
  shows "\<exists>t. getchars (length (visit_chars v)) cfg st h = Some (visit_chars v, t) \<and> went rs (visit_writes (DataINPipeNumber cfg) v) h t"
proof -
  obtain x bs where v: "v = (x, bs)"
    by (cases v)
  consider "\<not> bit x RXINI" | "bit x RXINI" "bs = []" | "bit x RXINI" "bs \<noteq> []"
    by blast
  then show ?thesis
  proof cases
    case 1
    with none_received [of h x rs st cfg] assms v show ?thesis
      by (auto simp: visit_reads_def visit_chars_def visit_writes_def)
  next
    case 2
    with empty_received [of h x rs st cfg] assms v show ?thesis
      by (auto simp: visit_reads_def visit_chars_def visit_writes_def)
  next
    case 3
    with packet_received [of bs h x rs st cfg] assms v show ?thesis
      by (simp add: visit_reads_def visit_chars_def visit_writes_def)
  qed
qed

text \<open>C22: characters that are got from a virtual serial port whose device stays attached. Whatever packets come and
  however often the port is asked in vain, \<open>CDC_Host_getchar\<close> gives exactly the bytes of the packets, in their order,
  and \<open>_FDEV_EOF\<close> exactly when nothing has come or the packet was empty; it never waits, and each packet's bank is released
  exactly once, after its last byte. (A device that is detached between the two tests of the function
  makes it return a character that never came, see \<open>zero_from_nowhere\<close>.)\<close>

theorem characters_received:
  assumes "hreads h = port_reads vs @ rs" "\<forall>v \<in> set vs. length (snd v) < 2 ^ 16"
    "USB_HostState h = HOST_STATE_Configured" "IsActive st"
  shows "\<exists>t. getchars (length (port_chars vs)) cfg st h = Some (port_chars vs, t) \<and> hreads t = rs \<and>
    hwrites t = hwrites h @ port_writes (DataINPipeNumber cfg) vs \<and> USB_HostState t = HOST_STATE_Configured"
  using assms
proof (induction vs arbitrary: h)
  case Nil
  then show ?case
    by (simp add: port_reads_def port_chars_def port_writes_def)
next
  case (Cons v vs)
  from visit_received [of v h "port_reads vs @ rs" st cfg] Cons.prems obtain t where
    t: "getchars (length (visit_chars v)) cfg st h = Some (visit_chars v, t)"
      "went (port_reads vs @ rs) (visit_writes (DataINPipeNumber cfg) v) h t"
    by (auto simp: port_reads_def)
  with Cons.IH [of t] Cons.prems obtain u where
    "getchars (length (port_chars vs)) cfg st t = Some (port_chars vs, u)" "hreads u = rs"
      "hwrites u = hwrites t @ port_writes (DataINPipeNumber cfg) vs" "USB_HostState u = HOST_STATE_Configured"
    by (auto simp: went_def)
  with getchars_add [OF t(1)] t(2) show ?case
    by (auto simp: went_def port_chars_def port_writes_def)
qed

text \<open>A device that is gone between the two tests of \<open>CDC_Host_getchar\<close> makes it return a character that never came.\<close>

lemma zero_from_nowhere:
  assumes "CDC_Host_ReceiveByte cfg st h = Some (b, t)" "USB_HostState h \<noteq> HOST_STATE_Configured"
  shows "b = 0 \<and> delivered t = delivered h"
  using assms by (auto simp: CDC_Host_ReceiveByte_def dest!: attached_idle split: bind_splits if_splits)
    (auto simp: idle_def)

lemma wait_view: "Pipe_WaitUntilReady h = Some (e, t) \<Longrightarrow> delivered t = delivered h \<and> written t = written h"
  by (drule calm_WaitUntilReady) (simp add: calm_def)

lemma putchar_view:
  assumes "CDC_Host_putchar cfg st c h = Some (r, t)"
  shows "delivered t = delivered h \<and> (r = 0 \<and> written t = written h @ [c] \<or> r = FDEV_ERR \<and> written t = written h)"
  using assms
  by (auto simp: CDC_Host_putchar_def CDC_Host_SendByte_def dest!: attached_idle ops_idle wait_view split: bind_splits if_splits)
    (auto simp: idle_def)

text \<open>Putting characters one after the other, with what \<open>CDC_Host_putchar\<close> returns for each.\<close>

fun putchars :: "u8 list \<Rightarrow> event_pipe_config \<Rightarrow> CDC_Host_State \<Rightarrow> host \<Rightarrow> (int list \<times> host) option" where
  "putchars [] cfg st h = Some ([], h)"
| "putchars (c # cs) cfg st h = do {
     (r, h) \<leftarrow> CDC_Host_putchar cfg st c h;
     (rs, h) \<leftarrow> putchars cs cfg st h;
     Some (r # rs, h) }"

text \<open>Characters that are put to a virtual serial port, whatever the device does: the pipe is given exactly those
  for which no error is returned, in their order, and nothing is read.\<close>

theorem characters_sent:
  assumes "putchars cs cfg st h = Some (rs, t)"
  shows "written t = written h @ map fst (filter (\<lambda>(c, r). r = 0) (zip cs rs)) \<and> set rs \<subseteq> {0, FDEV_ERR} \<and> length rs = length cs \<and>
    delivered t = delivered h"
  using assms
proof (induction cs arbitrary: h rs)
  case Nil
  then show ?case
    by simp
next
  case (Cons c cs)
  then obtain r u qs where u: "CDC_Host_putchar cfg st c h = Some (r, u)" "putchars cs cfg st u = Some (qs, t)" "rs = r # qs"
    by (auto split: bind_splits)
  from putchar_view [OF u(1)] Cons.IH [OF u(2)] u(3) show ?case
    by auto
qed

text \<open>A string goes to the pipe as a whole; it is not sent off before the bank is full or flushed.\<close>

lemma string_sent:
  assumes "CDC_Host_SendString cfg st s n h = Some (0, t)"
  shows "written t = written h @ take (unat n) s \<and> unat n \<le> length s \<and> delivered t = delivered h"
proof -
  obtain u v where u: "attached st h = Some (True, u)" "Pipe_Write_Stream_LE s n (use_pipe (DataOUTPipeNumber cfg) u) = Some (0, v)"
      "t = Pipe_Freeze v"
    using assms by (auto simp: CDC_Host_SendString_def split: bind_splits if_splits)
  from write_stream_ok [OF u(2)] attached_idle [OF u(1)] u(3) show ?thesis
    by (simp add: idle_def)
qed

definition port_host :: "(hreg \<times> u16) list \<Rightarrow> host" where
  "port_host rs = \<lparr>pipes = replicate PIPE_TOTAL_PIPES \<lparr>UPCONX = 0, UPCFG0X = 0, UPCFG1X = 0\<rparr>, UPNUM = 0,
     hreads = rs, hwrites = [], SOFEN = False, USB_HostState = HOST_STATE_Configured, USB_ControlPipeSize = 8,
     HostRequest = no_request\<rparr>"

definition port_pipes :: event_pipe_config where
  "port_pipes = \<lparr>DataINPipeNumber = 1, DataINPipeDoubleBank = False, DataOUTPipeNumber = 2, DataOUTPipeDoubleBank = False,
     EventsPipeNumber = 3, EventsPipeDoubleBank = False\<rparr>"

abbreviation (input) "open_port \<equiv> cleared_cdc\<lparr>IsActive := True\<rparr>"

text \<open>Nothing, a packet of the two bytes 65 and 66, an empty packet, one byte, nothing.\<close>

definition some_visits :: "visit list" where
  "some_visits = [(0x40, []), (0x21, [65, 66]), (1, []), (1, [67]), (0, [68])]"

theorem characters_received_witness:
  "\<exists>t. getchars 6 port_pipes open_port (port_host (port_reads some_visits)) =
      Some ([FDEV_EOF, 65, 66, FDEV_EOF, 67, FDEV_EOF], t) \<and>
    hwrites t = [(1, UPINTX, 0x20), (1, UPINTX, 0x21), (1, UPINTX, 0), (1, UPINTX, 1), (1, UPINTX, 0), (1, UPINTX, 1)]"
proof -
  have c: "port_chars some_visits = [FDEV_EOF, 65, 66, FDEV_EOF, 67, FDEV_EOF]"
    by code_simp
  have w: "port_writes 1 some_visits =
      [(1, UPINTX, 0x20), (1, UPINTX, 0x21), (1, UPINTX, 0), (1, UPINTX, 1), (1, UPINTX, 0), (1, UPINTX, 1)]"
    by code_simp
  have n: "length [FDEV_EOF, 65, 66, FDEV_EOF, 67, FDEV_EOF] = 6"
    by simp
  let ?h = "port_host (port_reads some_visits)"
  have h: "hreads ?h = port_reads some_visits @ []" "USB_HostState ?h = HOST_STATE_Configured" "hwrites ?h = []"
      "IsActive open_port" "DataINPipeNumber port_pipes = 1"
    by (simp_all add: port_host_def port_pipes_def)
  have "\<forall>v \<in> set some_visits. length (snd v) < 2 ^ 16"
    by (simp add: some_visits_def)
  from characters_received [OF h(1) this h(2,4), of port_pipes] show ?thesis
    by (auto simp only: c w n h append_Nil)
qed

theorem characters_sent_witness:
  "\<exists>t. putchars [65, 66] port_pipes open_port (port_host [(HostLook, 0), (UPINTX, 32), (HostLook, 1)]) = Some ([0, FDEV_ERR], t) \<and>
    written t = [65]"
proof -
  obtain t where t: "putchars [65, 66] port_pipes open_port (port_host [(HostLook, 0), (UPINTX, 32), (HostLook, 1)]) = Some ([0, FDEV_ERR], t)"
    by (simp add: CDC_Host_putchar_def CDC_Host_SendByte_def attached_def pipe_defs Let_def hrd_def hwr_def use_pipe_def
        Pipe_SelectPipe_def Pipe_Unfreeze_def Pipe_Freeze_def on_pipe_def port_host_def port_pipes_def cleared_cdc_def bit_simps
        Pipe_Write_Byte_def)
  from characters_sent [OF t] t show ?thesis
    by (auto simp: port_host_def written_def)
qed

end
