(* ===== verification/ImageHost.thy ===== *)
theory ImageHost
  imports HostStreams
begin

text \<open>
  LUFA's class driver of the host for still image devices, that is cameras (\<open>Class/Host/StillImage.c\<close>). Commands and
  their responses are PIMA containers; a container is modelled as its 32 bytes, the last 20 of which are five
  parameters. A store outside of the container has no result.
\<close>

section \<open>Containers\<close>

abbreviation (input) "CType_CommandBlock \<equiv> 1 :: u16"
abbreviation (input) "CType_ResponseBlock \<equiv> 3 :: u16"
abbreviation (input) "SI_ERROR_LOGICAL_CMD_FAILED \<equiv> 0x80 :: u8"

definition container :: "u32 \<Rightarrow> u16 \<Rightarrow> u16 \<Rightarrow> u32 list \<Rightarrow> u8 list option" where
  "container DataLength ty Code Params =
     (if length Params \<le> 5
      then Some (bytes32 DataLength @ bytes16 ty @ bytes16 Code @ bytes32 0 @ concat (map bytes32 Params) @ replicate (20 - 4 * length Params) 0)
      else None)"

definition container_type :: "u8 list \<Rightarrow> u16" where
  "container_type c = word16 (take 2 (drop 4 c))"

definition container_code :: "u8 list \<Rightarrow> u16" where
  "container_code c = word16 (take 2 (drop 6 c))"

text \<open>\<open>ParamBytes\<close>: the length without the header, in a byte.\<close>

definition param_bytes :: "u8 list \<Rightarrow> u8 option" where
  "param_bytes c = do { n \<leftarrow> get32 0 c; Some (ucast (n - 12)) }"

section \<open>Enumeration\<close>

record SI_Host_State = event_pipes +
  IsSessionOpen :: bool
  TransactionID :: u32

definition cleared_camera :: SI_Host_State where
  "cleared_camera = \<lparr>IsActive = False, DataINPipeSize = 0, DataOUTPipeSize = 0, EventsPipeSize = 0, IsSessionOpen = False,
     TransactionID = 0\<rparr>"

definition DComp_SI_Host_NextSIInterface :: "u8 list \<Rightarrow> nat \<Rightarrow> host \<Rightarrow> (u8 \<times> host) option" where
  "DComp_SI_Host_NextSIInterface = class_interface 0x06 0x01 0x01"

definition DComp_SI_Host_NextSIInterfaceEndpoint :: "cfgok \<Rightarrow> u8 list \<Rightarrow> nat \<Rightarrow> host \<Rightarrow> (u8 \<times> host) option" where
  "DComp_SI_Host_NextSIInterfaceEndpoint = free_endpoint [PIPE_EP_TYPE_BULK, PIPE_EP_TYPE_INTERRUPT]"

definition SImage_Host_ConfigurePipes ::
    "cfgok \<Rightarrow> event_pipe_config \<Rightarrow> u16 \<Rightarrow> u8 list \<Rightarrow> host \<Rightarrow> (enum_failure \<times> SI_Host_State \<times> host) option" where
  "SImage_Host_ConfigurePipes ok cfg ConfigDescriptorSize mem h =
     configure_pipes (DComp_SI_Host_NextSIInterface mem) (\<lambda>loc. Some)
       (\<lambda>rem loc. pipes_loop (bind_any ok cfg mem) (True, True, True) (DComp_SI_Host_NextSIInterfaceEndpoint ok mem) mem rem loc
          (False, False, False))
       cleared_camera ConfigDescriptorSize mem h"

section \<open>Blocks\<close>

definition SImage_Host_SendBlockHeader ::
    "event_pipe_config \<Rightarrow> SI_Host_State \<Rightarrow> u8 list \<Rightarrow> host \<Rightarrow> (u8 \<times> u8 list \<times> SI_Host_State \<times> host) option" where
  "SImage_Host_SendBlockHeader cfg st PIMAHeader h = do {
     (ok, h) \<leftarrow> attached st h;
     if \<not> ok then Some (PIPE_RWSTREAM_DeviceDisconnected, PIMAHeader, st, h)
     else do {
       PIMAHeader \<leftarrow> put32 8 (TransactionID st) PIMAHeader;
       let st = st\<lparr>TransactionID := TransactionID st + 1\<rparr>;
       (ErrorCode, h) \<leftarrow> Pipe_Write_Stream_LE PIMAHeader 12 (use_pipe (DataOUTPipeNumber cfg) h);
       if ErrorCode \<noteq> PIPE_RWSTREAM_NoError then Some (ErrorCode, PIMAHeader, st, h)
       else do {
         ParamBytes \<leftarrow> param_bytes PIMAHeader;
         (ErrorCode, h) \<leftarrow> (if ParamBytes \<noteq> 0 then Pipe_Write_Stream_LE (drop 12 PIMAHeader) (ucast ParamBytes) h
                           else Some (PIPE_RWSTREAM_NoError, h));
         if ErrorCode \<noteq> PIPE_RWSTREAM_NoError then Some (ErrorCode, PIMAHeader, st, h)
         else do {
           h \<leftarrow> Pipe_ClearOUT h;
           Some (PIPE_RWSTREAM_NoError, PIMAHeader, st, Pipe_Freeze h) } } } }"

text \<open>The errors of the streams are dropped, and nothing limits the parameters a response announces.\<close>

definition SImage_Host_ReceiveBlockHeader ::
    "event_pipe_config \<Rightarrow> SI_Host_State \<Rightarrow> u8 list \<Rightarrow> host \<Rightarrow> (u8 \<times> u8 list \<times> host) option" where
  "SImage_Host_ReceiveBlockHeader cfg st PIMAHeader h = do {
     (ok, h) \<leftarrow> attached st h;
     if \<not> ok then Some (PIPE_RWSTREAM_DeviceDisconnected, PIMAHeader, h)
     else do {
       (ErrorCode, h) \<leftarrow> data_wait PIPE_RWAL cfg COMMAND_DATA_TIMEOUT_MS (use_pipe (DataINPipeNumber cfg) h);
       if ErrorCode \<noteq> PIPE_RWSTREAM_NoError then Some (ErrorCode, PIMAHeader, h)
       else do {
         (_, bs, h) \<leftarrow> Pipe_Read_Stream_LE 12 h;
         PIMAHeader \<leftarrow> overlay 0 bs PIMAHeader;
         (PIMAHeader, h) \<leftarrow>
           (if container_type PIMAHeader = CType_ResponseBlock then do {
              ParamBytes \<leftarrow> param_bytes PIMAHeader;
              (PIMAHeader, h) \<leftarrow> (if ParamBytes \<noteq> 0 then do {
                  (_, bs, h) \<leftarrow> Pipe_Read_Stream_LE (ucast ParamBytes) h;
                  PIMAHeader \<leftarrow> overlay 12 bs PIMAHeader;
                  Some (PIMAHeader, h) }
                else Some (PIMAHeader, h));
              h \<leftarrow> Pipe_ClearIN h;
              Some (PIMAHeader, h) }
            else Some (PIMAHeader, h));
         Some (PIPE_RWSTREAM_NoError, PIMAHeader, Pipe_Freeze h) } } }"

section \<open>Data and events\<close>

definition SImage_Host_SendData :: "event_pipe_config \<Rightarrow> SI_Host_State \<Rightarrow> u8 list \<Rightarrow> u16 \<Rightarrow> host \<Rightarrow> (u8 \<times> host) option" where
  "SImage_Host_SendData cfg st Buffer Bytes h = do {
     (ok, h) \<leftarrow> attached st h;
     if \<not> ok then Some (PIPE_RWSTREAM_DeviceDisconnected, h)
     else do {
       (ErrorCode, h) \<leftarrow> Pipe_Write_Stream_LE Buffer Bytes (use_pipe (DataOUTPipeNumber cfg) h);
       h \<leftarrow> Pipe_ClearOUT h;
       Some (ErrorCode, Pipe_Freeze h) } }"

definition SImage_Host_ReadData :: "event_pipe_config \<Rightarrow> SI_Host_State \<Rightarrow> u8 list \<Rightarrow> u16 \<Rightarrow> host \<Rightarrow> (u8 \<times> u8 list \<times> host) option" where
  "SImage_Host_ReadData cfg st Buffer Bytes h = do {
     (ok, h) \<leftarrow> attached st h;
     if \<not> ok then Some (PIPE_RWSTREAM_DeviceDisconnected, Buffer, h)
     else do {
       (ErrorCode, bs, h) \<leftarrow> Pipe_Read_Stream_LE Bytes (use_pipe (DataINPipeNumber cfg) h);
       Buffer \<leftarrow> overlay 0 bs Buffer;
       Some (ErrorCode, Buffer, Pipe_Freeze h) } }"

definition SImage_Host_IsEventReceived :: "event_pipe_config \<Rightarrow> SI_Host_State \<Rightarrow> host \<Rightarrow> (bool \<times> host) option" where
  "SImage_Host_IsEventReceived cfg st h = do {
     (ok, h) \<leftarrow> attached st h;
     if \<not> ok then Some (False, h)
     else do {
       (n, h) \<leftarrow> Pipe_BytesInPipe (use_pipe (EventsPipeNumber cfg) h);
       Some (n \<noteq> 0, Pipe_Freeze h) } }"

definition SImage_Host_ReceiveEventHeader ::
    "event_pipe_config \<Rightarrow> SI_Host_State \<Rightarrow> u8 list \<Rightarrow> host \<Rightarrow> (u8 \<times> u8 list \<times> host) option" where
  "SImage_Host_ReceiveEventHeader cfg st PIMAHeader h = do {
     (ok, h) \<leftarrow> attached st h;
     if \<not> ok then Some (PIPE_RWSTREAM_DeviceDisconnected, PIMAHeader, h)
     else do {
       (ErrorCode, bs, h) \<leftarrow> Pipe_Read_Stream_LE 32 (use_pipe (EventsPipeNumber cfg) h);
       PIMAHeader \<leftarrow> overlay 0 bs PIMAHeader;
       h \<leftarrow> Pipe_ClearIN h;
       Some (ErrorCode, PIMAHeader, Pipe_Freeze h) } }"

section \<open>Sessions\<close>

text \<open>A command without parameters and its response in the same container.\<close>

definition exchange :: "u16 \<Rightarrow> event_pipe_config \<Rightarrow> SI_Host_State \<Rightarrow> host \<Rightarrow> (u8 \<times> u8 list \<times> SI_Host_State \<times> host) option" where
  "exchange Code cfg st h = do {
     PIMABlock \<leftarrow> container 12 CType_CommandBlock Code [];
     (ErrorCode, PIMABlock, st, h) \<leftarrow> SImage_Host_SendBlockHeader cfg st PIMABlock h;
     if ErrorCode \<noteq> PIPE_RWSTREAM_NoError then Some (ErrorCode, PIMABlock, st, h)
     else do {
       (ErrorCode, PIMABlock, h) \<leftarrow> SImage_Host_ReceiveBlockHeader cfg st PIMABlock h;
       Some (ErrorCode, PIMABlock, st, h) } }"

definition command_passed :: "u8 list \<Rightarrow> bool" where
  "command_passed c \<longleftrightarrow> container_type c = CType_ResponseBlock \<and> container_code c = 0x2001"

definition SImage_Host_OpenSession :: "event_pipe_config \<Rightarrow> SI_Host_State \<Rightarrow> host \<Rightarrow> (u8 \<times> SI_Host_State \<times> host) option" where
  "SImage_Host_OpenSession cfg st h = do {
     (ok, h) \<leftarrow> attached st h;
     if \<not> ok then Some (HOST_SENDCONTROL_DeviceDisconnected, st, h)
     else do {
       (ErrorCode, PIMABlock, st, h) \<leftarrow> exchange 0x1002 cfg st h;
       if ErrorCode \<noteq> PIPE_RWSTREAM_NoError then Some (ErrorCode, st, h)
       else if \<not> command_passed PIMABlock then Some (SI_ERROR_LOGICAL_CMD_FAILED, st, h)
       else Some (PIPE_RWSTREAM_NoError, st\<lparr>TransactionID := 0, IsSessionOpen := True\<rparr>, h) } }"

definition SImage_Host_CloseSession :: "event_pipe_config \<Rightarrow> SI_Host_State \<Rightarrow> host \<Rightarrow> (u8 \<times> SI_Host_State \<times> host) option" where
  "SImage_Host_CloseSession cfg st h = do {
     (ok, h) \<leftarrow> attached st h;
     if \<not> ok then Some (HOST_SENDCONTROL_DeviceDisconnected, st, h)
     else do {
       (ErrorCode, PIMABlock, st, h) \<leftarrow> exchange 0x1003 cfg st h;
       if ErrorCode \<noteq> PIPE_RWSTREAM_NoError then Some (ErrorCode, st, h)
       else Some (if \<not> command_passed PIMABlock then SI_ERROR_LOGICAL_CMD_FAILED else PIPE_RWSTREAM_NoError,
                  st\<lparr>IsSessionOpen := False\<rparr>, h) } }"

definition SImage_Host_SendCommand ::
    "event_pipe_config \<Rightarrow> SI_Host_State \<Rightarrow> u16 \<Rightarrow> u32 list \<Rightarrow> host \<Rightarrow> (u8 \<times> SI_Host_State \<times> host) option" where
  "SImage_Host_SendCommand cfg st Operation Params h = do {
     (ok, h) \<leftarrow> attached st h;
     if \<not> ok then Some (HOST_SENDCONTROL_DeviceDisconnected, st, h)
     else do {
       PIMABlock \<leftarrow> container (12 + of_nat (4 * length Params)) CType_CommandBlock Operation Params;
       (ErrorCode, _, st, h) \<leftarrow> SImage_Host_SendBlockHeader cfg st PIMABlock h;
       Some (ErrorCode, st, h) } }"

text \<open>The container of the response is not initialised: what it holds first is an argument.\<close>

definition SImage_Host_ReceiveResponse ::
    "u8 list \<Rightarrow> event_pipe_config \<Rightarrow> SI_Host_State \<Rightarrow> host \<Rightarrow> (u8 \<times> host) option" where
  "SImage_Host_ReceiveResponse PIMABlock cfg st h = do {
     (ok, h) \<leftarrow> attached st h;
     if \<not> ok then Some (HOST_SENDCONTROL_DeviceDisconnected, h)
     else do {
       (ErrorCode, PIMABlock, h) \<leftarrow> SImage_Host_ReceiveBlockHeader cfg st PIMABlock h;
       if ErrorCode \<noteq> PIPE_RWSTREAM_NoError then Some (ErrorCode, h)
       else Some (if \<not> command_passed PIMABlock then SI_ERROR_LOGICAL_CMD_FAILED else PIPE_RWSTREAM_NoError, h) } }"

end
