(* ===== verification/ImageTransfer.thy ===== *)
theory ImageTransfer
  imports ImageHost
begin

text \<open>
  What passes the pipes when a session with a camera is opened, and what a camera can do to the driver.
\<close>

section \<open>Blocks\<close>

lemma put_id: "length c = 32 \<Longrightarrow> put32 8 w c = Some (take 8 c @ bytes32 w @ drop 12 c)"
  by (simp add: put32_def overlay_def)

lemma send_block_view:
  assumes "SImage_Host_SendBlockHeader cfg st c h = Some (0, c', st', t)" "length c = 32"
  shows "\<exists>n. param_bytes c' = Some n \<and> unat n \<le> 20 \<and> c' = take 8 c @ bytes32 (TransactionID st) @ drop 12 c \<and>
    written t = written h @ take (12 + unat n) c' \<and> delivered t = delivered h \<and> st' = st\<lparr>TransactionID := TransactionID st + 1\<rparr>"
proof -
  let ?c = "take 8 c @ bytes32 (TransactionID st) @ drop 12 c"
  obtain g where g: "attached st h = Some (True, g)" "quiet h g"
    using assms(1) by (auto simp: SImage_Host_SendBlockHeader_def dest: calm_quiet [OF calm_attached] split: bind_splits if_splits)
  obtain u n v where u: "Pipe_Write_Stream_LE ?c 12 (use_pipe (DataOUTPipeNumber cfg) g) = Some (0, u)" "param_bytes ?c = Some n"
      "(if n \<noteq> 0 then Pipe_Write_Stream_LE (drop 12 ?c) (ucast n) u else Some (0, u)) = Some (0, v)" "quiet v t" "c' = ?c"
      "st' = st\<lparr>TransactionID := TransactionID st + 1\<rparr>"
    using assms g(1) by (auto simp: SImage_Host_SendBlockHeader_def put_id Let_def dest!: quiet_clear split: bind_splits if_splits)
  have "written u = written h @ take 12 ?c" "delivered u = delivered h"
    using write_stream_ok [OF u(1)] g(2) by (simp_all add: quiet_def)
  moreover have "written v = written u @ take (unat n) (drop 12 ?c) \<and> delivered v = delivered u \<and> unat n \<le> 20"
  proof (cases "n = 0")
    case False
    with u(3) have "Pipe_Write_Stream_LE (drop 12 ?c) (ucast n) u = Some (0, v)"
      by simp
    moreover have "unat (ucast n :: u16) = unat n"
    proof -
      have "unat n < 2 ^ LENGTH(8)"
        by (rule unsigned_less)
      then show ?thesis
        by (simp add: unsigned_ucast_eq take_bit_nat_eq_self)
    qed
    ultimately show ?thesis
      using write_stream_ok [of "drop 12 ?c" "ucast n" u v] assms(2) by simp
  qed (use u(3) in simp)
  ultimately show ?thesis
    using u(2,4,5,6) assms(2) by (intro exI [of _ n]) (simp add: quiet_def take_add)
qed

lemma receive_block_view:
  assumes "SImage_Host_ReceiveBlockHeader cfg st c h = Some (0, c', t)" "length c = 32"
  shows "\<exists>a b. delivered h = a @ b @ delivered t \<and> length a \<le> 12 \<and> take 12 c' = a @ drop (length a) (take 12 c) \<and>
    written t = written h \<and> length c' = 32"
proof -
  obtain g where g: "attached st h = Some (True, g)" "quiet h g"
    using assms(1) by (auto simp: SImage_Host_ReceiveBlockHeader_def dest: calm_quiet [OF calm_attached] split: bind_splits if_splits)
  obtain u where u: "data_wait PIPE_RWAL cfg 10000 (use_pipe (DataINPipeNumber cfg) g) = Some (0, u)"
    using assms(1) g(1) by (auto simp: SImage_Host_ReceiveBlockHeader_def split: bind_splits if_splits)
  from data_wait_quiet [OF this] g(2) have hu: "quiet h u"
    by (simp add: quiet_def)
  obtain e a v d where v: "Pipe_Read_Stream_LE 12 u = Some (e, a, v)" "overlay 0 a c = Some d"
    using assms(1) g(1) u by (auto simp: SImage_Host_ReceiveBlockHeader_def split: bind_splits if_splits)
  note a = read_stream_view [OF v(1)]
  have d: "length d = 32" "take 12 d = a @ drop (length a) (take 12 c)"
    using overlay_length [OF v(2)] v(2) assms(2) a(2) by (auto simp: overlay_def drop_take split: if_splits)
  have "\<exists>b. delivered v = b @ delivered t \<and> take 12 c' = take 12 d \<and> written t = written v \<and> length c' = 32"
  proof (cases "container_type d = CType_ResponseBlock")
    case False
    then show ?thesis
      using assms(1) g(1) u v d(1) by (auto simp: SImage_Host_ReceiveBlockHeader_def Pipe_Freeze_def on_pipe_def delivered_def written_def)
  next
    case True
    then obtain n where n: "param_bytes d = Some n"
      using assms(1) g(1) u v by (auto simp: SImage_Host_ReceiveBlockHeader_def split: bind_splits)
    show ?thesis
    proof (cases "n = 0")
      case no_params: True
      then have "c' = d" "quiet v t"
        using assms(1) g(1) u v True n by (auto simp: SImage_Host_ReceiveBlockHeader_def dest!: quiet_clear split: bind_splits)
      with d(1) show ?thesis
        by (auto simp: quiet_def)
    next
      case False
      then obtain r b w where b: "Pipe_Read_Stream_LE (ucast n) v = Some (r, b, w)" "overlay 12 b d = Some c'" "quiet w t"
        using assms(1) g(1) u v True n by (auto simp: SImage_Host_ReceiveBlockHeader_def dest!: quiet_clear split: bind_splits)
      have "take 12 c' = take 12 d \<and> length c' = 32"
        using overlay_length [OF b(2)] b(2) d(1) by (simp add: overlay_def split: if_splits) auto
      with read_stream_view(1,4) [OF b(1)] b(3) show ?thesis
        by (intro exI [of _ b]) (simp add: quiet_def)
    qed
  qed
  then obtain b where "delivered v = b @ delivered t" "take 12 c' = take 12 d" "written t = written v" "length c' = 32"
    by blast
  with a hu d(2) show ?thesis
    unfolding quiet_def by (intro exI [of _ a] exI [of _ b]) simp
qed

section \<open>Opening a session\<close>

lemma two_bytes: "k + 2 \<le> length xs \<Longrightarrow> take 2 (drop k xs) = [xs ! k, xs ! (k + 1)]"
  by (rule nth_equalityI) (auto simp: less_2_cases_iff)

lemma word16_two: "word16 [a, b] = 0x2001 \<Longrightarrow> a = 1 \<and> b = 0x20" "word16 [a, b] = 3 \<Longrightarrow> a = 3 \<and> b = 0"
  using bytes16_word [of a b] by (simp_all add: bytes16_def)

text \<open>Four bytes of a block that replaces a command by a response come from the device.\<close>

lemma replaced:
  assumes "length c = 32" "take 12 c' = a @ drop (length a) (take 12 c)" "length c' = 32" "length a \<le> 12" "command_passed c'"
    and "c ! 7 = 0x10"
  shows "8 \<le> length a \<and> take 4 (drop 4 a) = [3, 0, 1, 0x20]"
proof -
  have "word16 [c' ! 4, c' ! 5] = 3" "word16 [c' ! 6, c' ! 7] = 0x2001"
    using assms(3,5) by (simp_all add: command_passed_def container_type_def container_code_def two_bytes)
  then have c': "c' ! 4 = 3" "c' ! 5 = 0" "c' ! 6 = 1" "c' ! 7 = 0x20"
    by (blast dest: word16_two)+
  have eight: "8 \<le> length a"
  proof (rule ccontr)
    assume "\<not> 8 \<le> length a"
    then have "take 12 c' ! 7 = take 12 c ! 7"
      unfolding assms(2) using assms(1) by (simp add: nth_append)
    then show False
      using c'(4) assms(6) by simp
  qed
  have "a ! k = c' ! k" if "k < 8" for k
  proof -
    have "a ! k = take 12 c' ! k"
      unfolding assms(2) using eight that by (simp add: nth_append)
    then show ?thesis
      using that by simp
  qed
  then have "a ! 4 = 3" "a ! 5 = 0" "a ! 6 = 1" "a ! 7 = 0x20"
    using c' by simp_all
  moreover have "take 4 (drop 4 a) = take 2 (drop 4 a) @ take 2 (drop 6 a)"
    using take_add [of 2 2 "drop 4 a"] by simp
  ultimately show ?thesis
    using eight by (simp add: two_bytes)
qed

text \<open>C18: a session that has been opened: the host has sent the command to open it with the transaction it was at, and
  the device has answered with at least the first eight bytes of a response block that says OK, whatever the
  hardware did; the session is open and its transactions are counted from zero.\<close>

theorem session_opened:
  assumes "SImage_Host_OpenSession cfg st h = Some (0, st', t)"
  shows "\<exists>a b. delivered h = a @ b @ delivered t \<and> 8 \<le> length a \<and> take 4 (drop 4 a) = [3, 0, 1, 0x20] \<and>
    written t = written h @ bytes32 12 @ [1, 0, 2, 0x10] @ bytes32 (TransactionID st) \<and>
    st' = st\<lparr>TransactionID := 0, IsSessionOpen := True\<rparr>"
proof -
  let ?c = "bytes32 12 @ bytes16 1 @ bytes16 0x1002 @ bytes32 0 @ replicate 20 (0 :: u8)"
  let ?d = "bytes32 12 @ bytes16 1 @ bytes16 0x1002 @ bytes32 (TransactionID st) @ replicate 20 (0 :: u8)"
  obtain g where g: "attached st h = Some (True, g)" "quiet h g"
    using assms by (auto simp: SImage_Host_OpenSession_def dest: calm_quiet [OF calm_attached] split: bind_splits if_splits)
  obtain c st1 u d where u: "SImage_Host_SendBlockHeader cfg st ?c g = Some (0, c, st1, u)"
      "SImage_Host_ReceiveBlockHeader cfg st1 c u = Some (0, d, t)" "command_passed d" "st' = st1\<lparr>TransactionID := 0, IsSessionOpen := True\<rparr>"
    using assms g(1) by (auto simp: SImage_Host_OpenSession_def exchange_def container_def split: bind_splits if_splits)
  have "length ?c = 32"
    by simp
  from send_block_view [OF u(1) this] obtain n where n: "param_bytes c = Some n" "c = ?d" "written u = written g @ take (12 + unat n) c"
      "delivered u = delivered g" "st1 = st\<lparr>TransactionID := TransactionID st + 1\<rparr>"
    by (auto simp: bytes32_def bytes16_def)
  have "get32 0 c = Some 12"
    unfolding n(2) using get32_append [of "[]" 12] by simp
  then have "n = 0"
    using n(1) by (simp add: param_bytes_def)
  then have w: "written u = written g @ bytes32 12 @ [1, 0, 2, 0x10] @ bytes32 (TransactionID st)"
    using n(2,3) by (simp add: bytes16_def)
  have c: "length c = 32" "c ! 7 = 0x10"
    unfolding n(2) by (simp_all add: bytes32_def bytes16_def)
  from receive_block_view [OF u(2) c(1)] obtain a b where a: "delivered u = a @ b @ delivered t" "length a \<le> 12"
      "take 12 d = a @ drop (length a) (take 12 c)" "written t = written u" "length d = 32"
    by blast
  from replaced [OF c(1) a(3,5,2) u(3) c(2)] a(1,4) n(4,5) u(4) w g(2) show ?thesis
    unfolding quiet_def by (intro exI [of _ a] exI [of _ b]) simp
qed

text \<open>A camera that takes the command and answers with the twelve bytes \<open>d\<close>.\<close>

definition opening_reads :: "u8 list \<Rightarrow> (hreg \<times> u16) list" where
  "opening_reads d = (HostLook, 0) # (HostLook, 0) # (UPINTX, 4) # written_reads 12 @
     (UPINTX, 0) # (HostLook, 0) # (UPINTX, 0x20) # (UPINTX, 1) # delivered_reads d @ [(UPINTX, 0)]"

lemma session_runs:
  assumes "hreads h = opening_reads d @ rs" "USB_HostState h = HOST_STATE_Configured" "IsActive st"
    and "unat (DataINPipeNumber cfg) < length (pipes h)" "unat (DataOUTPipeNumber cfg) < length (pipes h)"
    and "d = bytes32 12 @ [3, 0, 1, 0x20] @ e" "length e = 4"
  shows "\<exists>t. SImage_Host_OpenSession cfg st h = Some (0, st\<lparr>TransactionID := 0, IsSessionOpen := True\<rparr>, t) \<and> hreads t = rs"
proof -
  let ?answer = "(UPINTX, 1) # delivered_reads d @ (UPINTX, 0) # rs"
  let ?c = "bytes32 12 @ bytes16 1 @ bytes16 0x1002 @ bytes32 (TransactionID st) @ replicate 20 (0 :: u8)"
  let ?st = "st\<lparr>TransactionID := TransactionID st + 1\<rparr>"
  let ?g = "h\<lparr>hreads := tl (opening_reads d) @ rs\<rparr>"
  let ?k = "h\<lparr>hreads := tl (tl (opening_reads d)) @ rs\<rparr>"
  let ?u = "after ((UPINTX, 0) # (HostLook, 0) # (UPINTX, 0x20) # ?answer) (take 12 ?c)
    (Pipe_SetPipeToken PIPE_TOKEN_OUT (use_pipe (DataOUTPipeNumber cfg) ?k))"
  have d: "length d = 12" "container_type (d @ drop 12 ?c) = 3" "container_code (d @ drop 12 ?c) = 0x2001"
      "get32 0 (d @ drop 12 ?c) = Some 12"
    using assms(6,7) get32_append [of "[]" 12] by (simp_all add: container_type_def container_code_def word16_def bytes32_def)
  have g: "attached st h = Some (True, ?g)" "attached st ?g = Some (True, ?k)"
    using assms(1-3) by (simp_all add: attached_def look_state_def hrd_def opening_reads_def)
  have "Pipe_Write_Stream_LE (take 12 ?c @ drop 12 ?c) (of_nat (length (take 12 ?c))) (use_pipe (DataOUTPipeNumber cfg) ?k) = Some (0, ?u)"
    using assms(5) by (intro write_prefix_runs) (simp_all add: opening_reads_def)
  then have w: "Pipe_Write_Stream_LE ?c 12 (use_pipe (DataOUTPipeNumber cfg) ?k) = Some (0, ?u)"
    unfolding append_take_drop_id by simp
  obtain v where v: "Pipe_ClearOUT ?u = Some v" "hreads v = (HostLook, 0) # (UPINTX, 0x20) # ?answer" "pipes v = pipes ?u"
      "USB_HostState v = HOST_STATE_Configured"
    using clear_runs(2) [of ?u 0] assms(2) by auto
  have sent: "SImage_Host_SendBlockHeader cfg st (bytes32 12 @ bytes16 1 @ bytes16 0x1002 @ bytes32 0 @ replicate 20 0) ?g =
      Some (0, ?c, ?st, Pipe_Freeze v)"
    using g(2) w v(1) get32_append [of "[]" 12]
    by (simp add: SImage_Host_SendBlockHeader_def put32_def overlay_def param_bytes_def)
  let ?f = "Pipe_Freeze v"
  let ?r = "use_pipe (DataINPipeNumber cfg) (?f\<lparr>hreads := ?answer\<rparr>)"
  have f: "attached ?st ?f = Some (True, ?f\<lparr>hreads := (UPINTX, 0x20) # ?answer\<rparr>)"
    using v(2,4) assms(3) by (simp add: attached_def look_state_def hrd_def Pipe_Freeze_def on_pipe_def)
  have "data_wait PIPE_RWAL cfg 10000 (use_pipe (DataINPipeNumber cfg) (?f\<lparr>hreads := (UPINTX, 0x20) # ?answer\<rparr>)) = Some (0, ?r)"
    by (simp add: data_wait.simps [of _ _ 10000] pipe_defs hrd_def bit_simps use_pipe_def Pipe_SelectPipe_def Pipe_Unfreeze_def on_pipe_def)
  moreover have "Pipe_Read_Stream_LE (of_nat (length d)) ?r = Some (0, d, after ((UPINTX, 0) # rs) [] (Pipe_SetPipeToken PIPE_TOKEN_IN ?r))"
    using d(1) assms(4) v(3) by (intro read_stream_runs) simp_all
  moreover obtain t where "Pipe_ClearIN (after ((UPINTX, 0) # rs) [] (Pipe_SetPipeToken PIPE_TOKEN_IN ?r)) = Some t" "hreads t = rs"
    using clear_runs(1) [of "after ((UPINTX, 0) # rs) [] (Pipe_SetPipeToken PIPE_TOKEN_IN ?r)" 0 rs] by auto
  ultimately have received: "SImage_Host_ReceiveBlockHeader cfg ?st ?c ?f = Some (0, d @ drop 12 ?c, Pipe_Freeze t)"
    using f d by (simp add: SImage_Host_ReceiveBlockHeader_def overlay_def param_bytes_def)
  show ?thesis
    using g(1) sent received d \<open>hreads t = rs\<close>
    by (simp add: SImage_Host_OpenSession_def exchange_def container_def command_passed_def)
qed

definition camera_host :: "(hreg \<times> u16) list \<Rightarrow> host" where
  "camera_host rs = \<lparr>pipes = replicate PIPE_TOTAL_PIPES \<lparr>UPCONX = 0, UPCFG0X = 0, UPCFG1X = 0\<rparr>, UPNUM = 0,
     hreads = rs, hwrites = [], SOFEN = False, USB_HostState = HOST_STATE_Configured, USB_ControlPipeSize = 8,
     HostRequest = no_request\<rparr>"

definition camera_pipes :: event_pipe_config where
  "camera_pipes = \<lparr>DataINPipeNumber = 1, DataINPipeDoubleBank = False, DataOUTPipeNumber = 2, DataOUTPipeDoubleBank = False,
     EventsPipeNumber = 3, EventsPipeDoubleBank = False\<rparr>"

abbreviation (input) "found_camera \<equiv> cleared_camera\<lparr>IsActive := True, TransactionID := 7\<rparr>"
abbreviation (input) "opened_camera \<equiv> cleared_camera\<lparr>IsActive := True, IsSessionOpen := True\<rparr>"

theorem session_opened_witness:
  "\<exists>t. SImage_Host_OpenSession camera_pipes found_camera (camera_host (opening_reads [12, 0, 0, 0, 3, 0, 1, 0x20, 0, 0, 0, 0])) =
      Some (0, opened_camera, t) \<and> written t = [12, 0, 0, 0, 1, 0, 2, 0x10, 7, 0, 0, 0]"
proof -
  let ?h = "camera_host (opening_reads [12, 0, 0, 0, 3, 0, 1, 0x20, 0, 0, 0, 0])"
  have d: "[12, 0, 0, 0, 3, 0, 1, 0x20, 0, 0, 0, 0] = bytes32 12 @ [3, 0, 1, 0x20] @ [0, 0, 0, 0 :: u8]"
    by (simp add: bytes32_def)
  have h: "hreads ?h = opening_reads [12, 0, 0, 0, 3, 0, 1, 0x20, 0, 0, 0, 0] @ []" "USB_HostState ?h = HOST_STATE_Configured"
      "unat (DataINPipeNumber camera_pipes) < length (pipes ?h)" "unat (DataOUTPipeNumber camera_pipes) < length (pipes ?h)"
    by (simp_all add: camera_host_def camera_pipes_def)
  have st: "IsActive found_camera" "found_camera\<lparr>TransactionID := 0, IsSessionOpen := True\<rparr> = opened_camera"
    by (simp_all add: cleared_camera_def)
  obtain t where t: "SImage_Host_OpenSession camera_pipes found_camera ?h = Some (0, opened_camera, t)"
    using session_runs [OF h(1,2) st(1) h(3,4) d] unfolding st(2) by auto
  from session_opened [OF t] have "written t = [12, 0, 0, 0, 1, 0, 2, 0x10, 7, 0, 0, 0]"
    by (auto simp: camera_host_def cleared_camera_def bytes32_def written_def)
  with t show ?thesis
    by blast
qed

end
