(* ===== verification/RndisMessages.thy ===== *)
theory RndisMessages
  imports Structures
begin

text \<open>
  The constants of the RNDIS protocol (\<open>Common/RNDIS.h\<close>, \<open>Common/RNDISConstants.h\<close>) that both ends use.
\<close>

abbreviation (input) "RNDIS_MESSAGE_BUFFER_SIZE \<equiv> 128 :: nat"
abbreviation (input) "ETHERNET_FRAME_SIZE_MAX \<equiv> 1500 :: nat"
abbreviation (input) "REMOTE_NDIS_PACKET_MSG \<equiv> 0x00000001 :: u32"
abbreviation (input) "REMOTE_NDIS_INITIALIZE_MSG \<equiv> 0x00000002 :: u32"
abbreviation (input) "REMOTE_NDIS_HALT_MSG \<equiv> 0x00000003 :: u32"
abbreviation (input) "REMOTE_NDIS_QUERY_MSG \<equiv> 0x00000004 :: u32"
abbreviation (input) "REMOTE_NDIS_SET_MSG \<equiv> 0x00000005 :: u32"
abbreviation (input) "REMOTE_NDIS_RESET_MSG \<equiv> 0x00000006 :: u32"
abbreviation (input) "REMOTE_NDIS_KEEPALIVE_MSG \<equiv> 0x00000008 :: u32"
abbreviation (input) "REMOTE_NDIS_INITIALIZE_CMPLT \<equiv> 0x80000002 :: u32"
abbreviation (input) "REMOTE_NDIS_QUERY_CMPLT \<equiv> 0x80000004 :: u32"
abbreviation (input) "REMOTE_NDIS_SET_CMPLT \<equiv> 0x80000005 :: u32"
abbreviation (input) "REMOTE_NDIS_RESET_CMPLT \<equiv> 0x80000006 :: u32"
abbreviation (input) "REMOTE_NDIS_KEEPALIVE_CMPLT \<equiv> 0x80000008 :: u32"
abbreviation (input) "REMOTE_NDIS_STATUS_SUCCESS \<equiv> 0x00000000 :: u32"
abbreviation (input) "REMOTE_NDIS_STATUS_NOT_SUPPORTED \<equiv> 0xC00000BB :: u32"
abbreviation (input) "OID_GEN_SUPPORTED_LIST \<equiv> 0x00010101 :: u32"
abbreviation (input) "OID_GEN_CURRENT_PACKET_FILTER \<equiv> 0x0001010E :: u32"
abbreviation (input) "OID_802_3_MULTICAST_LIST \<equiv> 0x01010103 :: u32"

definition words :: "u32 list \<Rightarrow> u8 list" where
  "words ws = concat (map bytes32 ws)"

lemma length_words [simp]: "length (words ws) = 4 * length ws"
  by (induction ws) (simp_all add: words_def)

end
