(* ===== verification/RndisHost.thy ===== *)
theory RndisHost
  imports HostStreams RndisMessages
begin

text \<open>
  LUFA's class driver of the host for network adapters with the RNDIS protocol (\<open>Class/Host/RNDIS.c\<close>). The local
  structures that a response or a header is read into are not initialised: what they hold first is an argument.
\<close>

section \<open>State\<close>

record RNDIS_Host_Config = event_pipe_config +
  HostMaxPacketSize :: u32

record RNDIS_Host_State = event_pipes +
  ControlInterfaceNumber :: u8
  DeviceMaxPacketSize :: u32
  RequestID :: u32

definition cleared_rndis :: RNDIS_Host_State where
  "cleared_rndis = \<lparr>IsActive = False, DataINPipeSize = 0, DataOUTPipeSize = 0, EventsPipeSize = 0, ControlInterfaceNumber = 0,
     DeviceMaxPacketSize = 0, RequestID = 0\<rparr>"

abbreviation (input) "RNDIS_COMMAND_FAILED \<equiv> 0xC0 :: u8"

section \<open>Enumeration\<close>

definition DComp_RNDIS_Host_NextRNDISControlInterface :: "u8 list \<Rightarrow> nat \<Rightarrow> host \<Rightarrow> (u8 \<times> host) option" where
  "DComp_RNDIS_Host_NextRNDISControlInterface = class_interface 0x02 0x02 0xFF"

definition DComp_RNDIS_Host_NextRNDISDataInterface :: "u8 list \<Rightarrow> nat \<Rightarrow> host \<Rightarrow> (u8 \<times> host) option" where
  "DComp_RNDIS_Host_NextRNDISDataInterface = class_interface 0x0A 0x00 0x00"

definition DComp_RNDIS_Host_NextRNDISInterfaceEndpoint :: "cfgok \<Rightarrow> u8 list \<Rightarrow> nat \<Rightarrow> host \<Rightarrow> (u8 \<times> host) option" where
  "DComp_RNDIS_Host_NextRNDISInterfaceEndpoint = free_endpoint [PIPE_EP_TYPE_BULK, PIPE_EP_TYPE_INTERRUPT]"

definition RNDIS_Host_ConfigurePipes ::
    "cfgok \<Rightarrow> RNDIS_Host_Config \<Rightarrow> u16 \<Rightarrow> u8 list \<Rightarrow> host \<Rightarrow> (enum_failure \<times> RNDIS_Host_State \<times> host) option" where
  "RNDIS_Host_ConfigurePipes ok cfg ConfigDescriptorSize mem h =
     configure_pipes (DComp_RNDIS_Host_NextRNDISControlInterface mem)
       (\<lambda>loc st. do { n \<leftarrow> byte_at mem (loc + 2); Some (st\<lparr>ControlInterfaceNumber := n\<rparr>) })
       (\<lambda>rem loc. two_interfaces_loop ok cfg (DComp_RNDIS_Host_NextRNDISControlInterface mem)
          (DComp_RNDIS_Host_NextRNDISDataInterface mem) (DComp_RNDIS_Host_NextRNDISInterfaceEndpoint ok mem) mem rem loc
          (False, False, False))
       cleared_rndis ConfigDescriptorSize mem h"

section \<open>Messages\<close>

definition RNDIS_SendEncapsulatedCommand :: "RNDIS_Host_State \<Rightarrow> u8 list \<Rightarrow> u16 \<Rightarrow> host \<Rightarrow> (u8 \<times> host) option" where
  "RNDIS_SendEncapsulatedCommand st Buffer Length h = do {
     (e, _, h) \<leftarrow> USB_Host_SendControlRequest (Some Buffer) (class_command 0x00 0 (ControlInterfaceNumber st) Length h);
     Some (e, h) }"

definition RNDIS_GetEncapsulatedResponse ::
    "RNDIS_Host_State \<Rightarrow> u8 list \<Rightarrow> u16 \<Rightarrow> host \<Rightarrow> (u8 \<times> u8 list \<times> host) option" where
  "RNDIS_GetEncapsulatedResponse st Buffer Length h = do {
     (e, buf, h) \<leftarrow> USB_Host_SendControlRequest (Some Buffer) (class_query 0x01 (ControlInterfaceNumber st) Length h);
     buf \<leftarrow> buf;
     Some (e, buf, h) }"

text \<open>A message and its answer, with the request ID counted.\<close>

definition dialogue ::
    "(u32 \<Rightarrow> u8 list) \<Rightarrow> u16 \<Rightarrow> u8 list \<Rightarrow> u16 \<Rightarrow> RNDIS_Host_State \<Rightarrow> host \<Rightarrow>
      (u8 \<times> u8 list \<times> RNDIS_Host_State \<times> host) option" where
  "dialogue message n Response k st h = do {
     let m = message (RequestID st);
     let st = st\<lparr>RequestID := RequestID st + 1\<rparr>;
     (ErrorCode, h) \<leftarrow> RNDIS_SendEncapsulatedCommand st m n h;
     if ErrorCode \<noteq> HOST_SENDCONTROL_Successful then Some (ErrorCode, Response, st, h)
     else do {
       (ErrorCode, Response, h) \<leftarrow> RNDIS_GetEncapsulatedResponse st Response k h;
       Some (ErrorCode, Response, st, h) } }"

definition RNDIS_Host_SendKeepAlive :: "u8 list \<Rightarrow> RNDIS_Host_State \<Rightarrow> host \<Rightarrow> (u8 \<times> RNDIS_Host_State \<times> host) option" where
  "RNDIS_Host_SendKeepAlive Response st h = do {
     (ErrorCode, _, st, h) \<leftarrow> dialogue (\<lambda>id. words [REMOTE_NDIS_KEEPALIVE_MSG, 12, id]) 12 Response 16 st h;
     Some (ErrorCode, st, h) }"

definition RNDIS_Host_InitializeDevice ::
    "u8 list \<Rightarrow> RNDIS_Host_Config \<Rightarrow> RNDIS_Host_State \<Rightarrow> host \<Rightarrow> (u8 \<times> RNDIS_Host_State \<times> host) option" where
  "RNDIS_Host_InitializeDevice Response cfg st h = do {
     (ErrorCode, Response, st, h) \<leftarrow>
       dialogue (\<lambda>id. words [REMOTE_NDIS_INITIALIZE_MSG, 24, id, 1, 0, HostMaxPacketSize cfg]) 24 Response 52 st h;
     if ErrorCode \<noteq> HOST_SENDCONTROL_Successful then Some (ErrorCode, st, h)
     else do {
       Status \<leftarrow> get32 12 Response;
       MaxTransferSize \<leftarrow> get32 36 Response;
       if Status \<noteq> REMOTE_NDIS_STATUS_SUCCESS then Some (RNDIS_COMMAND_FAILED, st, h)
       else Some (HOST_SENDCONTROL_Successful, st\<lparr>DeviceMaxPacketSize := MaxTransferSize\<rparr>, h) } }"

text \<open>The buffer behind the header of the message; \<open>sizeof\<close> and the lengths have 16 bits.\<close>

definition RNDIS_Host_SetRNDISProperty ::
    "u8 list \<Rightarrow> RNDIS_Host_State \<Rightarrow> u32 \<Rightarrow> u8 list \<Rightarrow> u16 \<Rightarrow> host \<Rightarrow> (u8 \<times> RNDIS_Host_State \<times> host) option" where
  "RNDIS_Host_SetRNDISProperty Response st Oid Buffer n h = do {
     let len = 28 + n;
     info \<leftarrow> (if unat n \<le> length Buffer then Some (take (unat n) Buffer) else None);
     (ErrorCode, Response, st, h) \<leftarrow>
       dialogue (\<lambda>id. words [REMOTE_NDIS_SET_MSG, ucast len, id, Oid, ucast n, 20, 0] @ info) len Response 16 st h;
     if ErrorCode \<noteq> HOST_SENDCONTROL_Successful then Some (ErrorCode, st, h)
     else do {
       Status \<leftarrow> get32 12 Response;
       Some (if Status \<noteq> REMOTE_NDIS_STATUS_SUCCESS then RNDIS_COMMAND_FAILED else HOST_SENDCONTROL_Successful, st, h) } }"

text \<open>As many bytes as the buffer has are copied, whatever length the response says.\<close>

definition RNDIS_Host_QueryRNDISProperty ::
    "u8 list \<Rightarrow> RNDIS_Host_State \<Rightarrow> u32 \<Rightarrow> u8 list \<Rightarrow> u16 \<Rightarrow> host \<Rightarrow> (u8 \<times> u8 list \<times> RNDIS_Host_State \<times> host) option" where
  "RNDIS_Host_QueryRNDISProperty Response st Oid Buffer MaxLength h = do {
     (ErrorCode, Response, st, h) \<leftarrow>
       dialogue (\<lambda>id. words [REMOTE_NDIS_QUERY_MSG, 28, id, Oid, 0, 0, 0]) 28 Response (24 + MaxLength) st h;
     if ErrorCode \<noteq> HOST_SENDCONTROL_Successful then Some (ErrorCode, Buffer, st, h)
     else do {
       Status \<leftarrow> get32 12 Response;
       if Status \<noteq> REMOTE_NDIS_STATUS_SUCCESS then Some (RNDIS_COMMAND_FAILED, Buffer, st, h)
       else do {
         Buffer \<leftarrow> (if 24 + unat MaxLength \<le> length Response then overlay 0 (take (unat MaxLength) (drop 24 Response)) Buffer else None);
         Some (HOST_SENDCONTROL_Successful, Buffer, st, h) } } }"

section \<open>Packets\<close>

definition RNDIS_Host_IsPacketReceived :: "RNDIS_Host_Config \<Rightarrow> RNDIS_Host_State \<Rightarrow> host \<Rightarrow> (bool \<times> host) option" where
  "RNDIS_Host_IsPacketReceived cfg st h = do {
     (ok, h) \<leftarrow> attached st h;
     if \<not> ok then Some (False, h)
     else do {
       (PacketWaiting, h) \<leftarrow> Pipe_IsINReceived (in_pipe (DataINPipeNumber cfg) h);
       Some (PacketWaiting, Pipe_Freeze h) } }"

text \<open>The error of the stream with the data is dropped, and its length is not compared with the buffer's.\<close>

definition read_frame :: "u8 list \<Rightarrow> u8 list \<Rightarrow> u16 \<Rightarrow> host \<Rightarrow> (u8 \<times> u8 list \<times> u16 \<times> host) option" where
  "read_frame DeviceMessage Buffer PacketLength h = do {
     (ErrorCode, bs, h) \<leftarrow> Pipe_Read_Stream_LE 44 h;
     DeviceMessage \<leftarrow> overlay 0 bs DeviceMessage;
     if ErrorCode \<noteq> PIPE_RWSTREAM_NoError then Some (ErrorCode, Buffer, PacketLength, h)
     else do {
       n \<leftarrow> get32 12 DeviceMessage;
       let PacketLength = (ucast n :: u16);
       offset \<leftarrow> get32 8 DeviceMessage;
       (_, h) \<leftarrow> Pipe_Discard_Stream (ucast (offset - 36)) h;
       (_, bs, h) \<leftarrow> Pipe_Read_Stream_LE PacketLength h;
       Buffer \<leftarrow> overlay 0 bs Buffer;
       (rest, h) \<leftarrow> Pipe_BytesInPipe h;
       h \<leftarrow> (if rest = 0 then Pipe_ClearIN h else Some h);
       Some (PIPE_RWSTREAM_NoError, Buffer, PacketLength, Pipe_Freeze h) } }"

definition RNDIS_Host_ReadPacket ::
    "u8 list \<Rightarrow> RNDIS_Host_Config \<Rightarrow> RNDIS_Host_State \<Rightarrow> u8 list \<Rightarrow> u16 \<Rightarrow> host \<Rightarrow> (u8 \<times> u8 list \<times> u16 \<times> host) option" where
  "RNDIS_Host_ReadPacket DeviceMessage cfg st Buffer PacketLength h = do {
     (ok, h) \<leftarrow> attached st h;
     if \<not> ok then Some (PIPE_READYWAIT_DeviceDisconnected, Buffer, PacketLength, h)
     else do {
       (some, h) \<leftarrow> Pipe_IsReadWriteAllowed (in_pipe (DataINPipeNumber cfg) h);
       if \<not> some then do {
         (received, h) \<leftarrow> Pipe_IsINReceived h;
         h \<leftarrow> (if received then Pipe_ClearIN h else Some h);
         Some (PIPE_RWSTREAM_NoError, Buffer, 0, Pipe_Freeze h) }
       else read_frame DeviceMessage Buffer PacketLength h } }"

definition RNDIS_Host_SendPacket ::
    "RNDIS_Host_Config \<Rightarrow> RNDIS_Host_State \<Rightarrow> u8 list \<Rightarrow> u16 \<Rightarrow> host \<Rightarrow> (u8 \<times> host) option" where
  "RNDIS_Host_SendPacket cfg st Buffer PacketLength h = do {
     (ok, h) \<leftarrow> attached st h;
     if \<not> ok then Some (PIPE_READYWAIT_DeviceDisconnected, h)
     else do {
       (ErrorCode, h) \<leftarrow> Pipe_Write_Stream_LE
         (words [REMOTE_NDIS_PACKET_MSG, ucast (44 + PacketLength), 36, ucast PacketLength, 0, 0, 0, 0, 0, 0, 0]) 44
         (use_pipe (DataOUTPipeNumber cfg) h);
       if ErrorCode \<noteq> PIPE_RWSTREAM_NoError then Some (ErrorCode, h)
       else do {
         (_, h) \<leftarrow> Pipe_Write_Stream_LE Buffer PacketLength h;
         h \<leftarrow> Pipe_ClearOUT h;
         Some (PIPE_RWSTREAM_NoError, Pipe_Freeze h) } } }"

end
