(* ===== verification/ClassDevice.thy ===== *)
theory ClassDevice
  imports LufaDevice Structures
begin

text \<open>
  What the class drivers of LUFA for devices (\<open>LUFA/Drivers/USB/Class/Device\<close>) share: the data and notification
  endpoints in their configuration, and the test of the device's state. The instance structure of a driver is
  an argument of its functions: \<open>Config\<close> as a constant, \<open>State\<close> with the state of the library before and after.

  The class drivers cannot be built with \<open>NO_STREAM_CALLBACKS\<close>; where they pass \<open>NO_STREAM_CALLBACK\<close>, the null
  pointer, the stream functions behave as those of \<open>LufaStream\<close>.
\<close>

abbreviation (input) "EP_TYPE_ISOCHRONOUS \<equiv> 1 :: u8"
abbreviation (input) "EP_TYPE_BULK \<equiv> 2 :: u8"
abbreviation (input) "ENDPOINT_BANK_DOUBLE \<equiv> 4 :: u8"

record data_endpoints =
  DataINEndpointNumber :: u8
  DataINEndpointSize :: u16
  DataINEndpointDoubleBank :: bool
  DataOUTEndpointNumber :: u8
  DataOUTEndpointSize :: u16
  DataOUTEndpointDoubleBank :: bool

record notifying_endpoints = data_endpoints +
  NotificationEndpointNumber :: u8
  NotificationEndpointSize :: u16
  NotificationEndpointDoubleBank :: bool

definition bank :: "bool \<Rightarrow> u8" where
  "bank double = (if double then ENDPOINT_BANK_DOUBLE else ENDPOINT_BANK_SINGLE)"

text \<open>The two data endpoints, and the three of a driver that notifies; the first that fails ends it.\<close>

definition configure_in :: "u8 \<Rightarrow> 'c data_endpoints_scheme \<Rightarrow> u8 \<Rightarrow> 'a lufa_scheme \<Rightarrow> (bool \<times> 'a lufa_scheme) option" where
  "configure_in ty cfg banks = Endpoint_ConfigureEndpoint (DataINEndpointNumber cfg) ty ENDPOINT_DIR_IN (DataINEndpointSize cfg) banks"

definition configure_out :: "u8 \<Rightarrow> 'c data_endpoints_scheme \<Rightarrow> u8 \<Rightarrow> 'a lufa_scheme \<Rightarrow> (bool \<times> 'a lufa_scheme) option" where
  "configure_out ty cfg banks = Endpoint_ConfigureEndpoint (DataOUTEndpointNumber cfg) ty ENDPOINT_DIR_OUT (DataOUTEndpointSize cfg) banks"

definition configure_data :: "'c data_endpoints_scheme \<Rightarrow> 'a lufa_scheme \<Rightarrow> (bool \<times> 'a lufa_scheme) option" where
  "configure_data cfg s = do {
     (ok, s) \<leftarrow> configure_in EP_TYPE_BULK cfg (bank (DataINEndpointDoubleBank cfg)) s;
     if \<not> ok then Some (False, s)
     else configure_out EP_TYPE_BULK cfg (bank (DataOUTEndpointDoubleBank cfg)) s }"

definition configure_notifying :: "'c notifying_endpoints_scheme \<Rightarrow> 'a lufa_scheme \<Rightarrow> (bool \<times> 'a lufa_scheme) option" where
  "configure_notifying cfg s = do {
     (ok, s) \<leftarrow> configure_data cfg s;
     if \<not> ok then Some (False, s)
     else Endpoint_ConfigureEndpoint (NotificationEndpointNumber cfg) EP_TYPE_INTERRUPT ENDPOINT_DIR_IN
       (NotificationEndpointSize cfg) (bank (NotificationEndpointDoubleBank cfg)) s }"

text \<open>\<open>USB_DeviceState == DEVICE_STATE_Configured\<close>\<close>

definition configured :: "'a lufa_scheme \<Rightarrow> bool \<times> 'a lufa_scheme" where
  "configured s = (case read_state s of (d, s) \<Rightarrow> (d = Configured, s))"

text \<open>A SETUP packet for the interface of the driver.\<close>

definition addressed_request :: "u8 \<Rightarrow> 'a lufa_scheme \<Rightarrow> (bool \<times> 'a lufa_scheme) option" where
  "addressed_request InterfaceNumber s = do {
     (received, s) \<leftarrow> Endpoint_IsSETUPReceived s;
     Some (received \<and> wIndex (USB_ControlRequest s) = ucast InterfaceNumber, s) }"

definition class_in :: "u8 \<Rightarrow> 'a lufa_scheme \<Rightarrow> bool" where
  "class_in r s \<longleftrightarrow> bRequest (USB_ControlRequest s) = r \<and> bmRequestType (USB_ControlRequest s) = 0xA1"

definition class_out :: "u8 \<Rightarrow> 'a lufa_scheme \<Rightarrow> bool" where
  "class_out r s \<longleftrightarrow> bRequest (USB_ControlRequest s) = r \<and> bmRequestType (USB_ControlRequest s) = 0x21"

text \<open>The answer of one byte, and the one without data.\<close>

definition answer_byte :: "u8 \<Rightarrow> 'a lufa_scheme \<Rightarrow> 'a lufa_scheme option" where
  "answer_byte b s = do {
     s \<leftarrow> Endpoint_ClearSETUP s;
     s \<leftarrow> Endpoint_ClearIN (Endpoint_Write_Byte b s);
     Endpoint_ClearStatusStage s }"

text \<open>A structure read from the current endpoint over what the memory held before.\<close>

definition read_structure :: "u16 \<Rightarrow> u8 list \<Rightarrow> 'a lufa_scheme \<Rightarrow> (rw_error \<times> u8 list \<times> 'a lufa_scheme) option" where
  "read_structure n old s = do {
     (e, bs, s) \<leftarrow> Endpoint_Read_Stream_LE n s;
     new \<leftarrow> overlay 0 bs old;
     Some (e, new, s) }"

end
