(* ===== verification/RndisDevice.thy ===== *)
theory RndisDevice
  imports ClassDevice RndisMessages
begin

text \<open>
  LUFA's class driver for a network adapter with the RNDIS protocol (\<open>Class/Device/RNDIS.c\<close>). A message and its
  answer share a buffer of 128 bytes at the beginning of the driver's state. What is stored behind the buffer goes
  into the fields that follow it, as they lie in memory, and what is sent from behind it comes from there; a store
  behind the whole state has no result. The local structure a packet header is read into is not initialised: what it
  holds first is an argument.
\<close>

section \<open>State\<close>

text \<open>A flag is a byte: what is not zero is true.\<close>

abbreviation (input) "RNDIS_Uninitialized \<equiv> 0 :: u8"
abbreviation (input) "RNDIS_Initialized \<equiv> 1 :: u8"
abbreviation (input) "RNDIS_Data_Initialized \<equiv> 2 :: u8"

record Ethernet_Frame_Info_t =
  FrameData :: "u8 list"
  FrameLength :: u16
  FrameInBuffer :: u8

record RNDIS_Device_Config = notifying_endpoints +
  ControlInterfaceNumber :: u8
  AdapterVendorDescription :: "u8 list"     \<comment> \<open>without the final zero\<close>
  AdapterMACAddress :: "u8 list"

record RNDIS_Device_State =
  RNDISMessageBuffer :: "u8 list"
  ResponseReady :: u8
  CurrRNDISState :: u8
  CurrPacketFilter :: u32
  FrameIN :: Ethernet_Frame_Info_t
  FrameOUT :: Ethernet_Frame_Info_t

definition no_frame :: Ethernet_Frame_Info_t where
  "no_frame = \<lparr>FrameData = replicate ETHERNET_FRAME_SIZE_MAX 0, FrameLength = 0, FrameInBuffer = 0\<rparr>"

definition cleared_adapter :: RNDIS_Device_State where
  "cleared_adapter = \<lparr>RNDISMessageBuffer = replicate RNDIS_MESSAGE_BUFFER_SIZE 0, ResponseReady = 0,
     CurrRNDISState = RNDIS_Uninitialized, CurrPacketFilter = 0, FrameIN = no_frame, FrameOUT = no_frame\<rparr>"

text \<open>The bytes of the state, and the state of the same sizes that has given bytes.\<close>

definition frame_bytes :: "Ethernet_Frame_Info_t \<Rightarrow> u8 list" where
  "frame_bytes f = FrameData f @ bytes16 (FrameLength f) @ [FrameInBuffer f]"

definition state_bytes :: "RNDIS_Device_State \<Rightarrow> u8 list" where
  "state_bytes st = RNDISMessageBuffer st @ [ResponseReady st, CurrRNDISState st] @ bytes32 (CurrPacketFilter st) @
     frame_bytes (FrameIN st) @ frame_bytes (FrameOUT st)"

definition frame_of :: "Ethernet_Frame_Info_t \<Rightarrow> u8 list \<Rightarrow> Ethernet_Frame_Info_t" where
  "frame_of f m = (let k = length (FrameData f)
     in \<lparr>FrameData = take k m, FrameLength = word16 (drop k m), FrameInBuffer = m ! (k + 2)\<rparr>)"

definition state_of :: "RNDIS_Device_State \<Rightarrow> u8 list \<Rightarrow> RNDIS_Device_State" where
  "state_of st m =
     (let b = length (RNDISMessageBuffer st); m1 = drop b m; m2 = drop 6 m1; i = length (frame_bytes (FrameIN st))
      in \<lparr>RNDISMessageBuffer = take b m, ResponseReady = m1 ! 0, CurrRNDISState = m1 ! 1, CurrPacketFilter = word32 (drop 2 m1),
          FrameIN = frame_of (FrameIN st) m2, FrameOUT = frame_of (FrameOUT st) (drop i m2)\<rparr>)"

definition AdapterSupportedOIDList :: "u32 list" where
  "AdapterSupportedOIDList =
     [OID_GEN_SUPPORTED_LIST, 0x00010202, 0x00010102, 0x00010103, 0x00010104, 0x00010106, 0x00010111, 0x00010107,
      0x0001010A, 0x0001010B, 0x0001010C, 0x0001010D, OID_GEN_CURRENT_PACKET_FILTER, 0x00010111, 0x00010114,
      0x00020101, 0x00020102, 0x00020103, 0x00020104, 0x00020105, 0x01010101, 0x01010102, OID_802_3_MULTICAST_LIST,
      0x01010104, 0x01020101, 0x01020102, 0x01020103]"

section \<open>Queries and settings\<close>

text \<open>The bytes of the response to a query; \<open>None\<close>: the object is not supported. \<open>ResponseSize\<close> has 16 bits.\<close>

definition RNDIS_Device_ProcessNDISQuery :: "RNDIS_Device_Config \<Rightarrow> RNDIS_Device_State \<Rightarrow> u32 \<Rightarrow> u8 list option" where
  "RNDIS_Device_ProcessNDISQuery cfg st OId =
     (if OId = OID_GEN_SUPPORTED_LIST then Some (concat (map bytes32 AdapterSupportedOIDList))
      else if OId = 0x00010202 then Some (bytes32 0)
      else if OId = 0x00010102 then Some (bytes32 0)
      else if OId = 0x00010103 \<or> OId = 0x00010104 then Some (bytes32 0)
      else if OId = 0x0001010C then Some (bytes32 0x00FFFFFF)
      else if OId = 0x00010106 \<or> OId = 0x0001010A \<or> OId = 0x0001010B then Some (bytes32 1500)
      else if OId = 0x0001010D then
        (let ResponseSize = of_nat (length (AdapterVendorDescription cfg) + 1) :: u16
         in Some (take (unat ResponseSize) (AdapterVendorDescription cfg @ [0])))
      else if OId = 0x00010114 then Some (bytes32 0)
      else if OId = 0x00010107 then Some (bytes32 100000)
      else if OId = 0x01010101 \<or> OId = 0x01010102 then Some (AdapterMACAddress cfg)
      else if OId = 0x01010104 then Some (bytes32 1)
      else if OId = OID_GEN_CURRENT_PACKET_FILTER then Some (bytes32 (CurrPacketFilter st))
      else if OId \<in> {0x00020101, 0x00020102, 0x00020103, 0x00020104, 0x00020105, 0x01020101, 0x01020102, 0x01020103}
      then Some (bytes32 0)
      else if OId = 0x00010111 then Some (bytes32 (128 + 1500))
      else None)"

text \<open>
  \<open>SetData\<close> is the index of the new value from the beginning of the message buffer on, and may be any; what is found
  there outside of the state is the parameter \<open>far\<close>. Both branches on the filter give the same state.
\<close>

definition RNDIS_Device_ProcessNDISSet :: "(nat \<Rightarrow> u32) \<Rightarrow> RNDIS_Device_State \<Rightarrow> u32 \<Rightarrow> nat \<Rightarrow> bool \<times> RNDIS_Device_State" where
  "RNDIS_Device_ProcessNDISSet far st OId SetData =
     (if OId = OID_GEN_CURRENT_PACKET_FILTER then
        (let f = (case get32 SetData (state_bytes st) of Some w \<Rightarrow> w | None \<Rightarrow> far SetData)
         in (True, st\<lparr>CurrPacketFilter := f,
              CurrRNDISState := (if f \<noteq> 0 then RNDIS_Data_Initialized else RNDIS_Data_Initialized)\<rparr>))
      else if OId = OID_802_3_MULTICAST_LIST then (True, st)
      else (False, st))"

section \<open>Messages\<close>

definition on_message :: "(u8 list \<Rightarrow> u8 list option) \<Rightarrow> RNDIS_Device_State \<Rightarrow> RNDIS_Device_State option" where
  "on_message f st = do { m \<leftarrow> f (state_bytes st); Some (state_of st m) }"

text \<open>The request ID of a message stays at its place in the answer.\<close>

definition initialize_message :: "RNDIS_Device_State \<Rightarrow> RNDIS_Device_State option" where
  "initialize_message st = do {
     st \<leftarrow> on_message (put_fields [(0, REMOTE_NDIS_INITIALIZE_CMPLT), (4, 52), (12, REMOTE_NDIS_STATUS_SUCCESS),
       (16, 1), (20, 0), (24, 1), (28, 0), (32, 1), (36, 44 + 1500), (40, 0), (44, 0), (48, 0)]) (st\<lparr>ResponseReady := 1\<rparr>);
     Some (st\<lparr>CurrRNDISState := RNDIS_Initialized\<rparr>) }"

definition halt_message :: "RNDIS_Device_State \<Rightarrow> RNDIS_Device_State option" where
  "halt_message st = do {
     st \<leftarrow> on_message (put32 4 0) (st\<lparr>ResponseReady := 0\<rparr>);
     Some (st\<lparr>CurrRNDISState := RNDIS_Uninitialized\<rparr>) }"

definition query_message :: "RNDIS_Device_Config \<Rightarrow> RNDIS_Device_State \<Rightarrow> RNDIS_Device_State option" where
  "query_message cfg st = do {
     let st = st\<lparr>ResponseReady := 1\<rparr>;
     Query_Oid \<leftarrow> get32 12 (RNDISMessageBuffer st);
     st \<leftarrow> on_message (put_fields [(0, REMOTE_NDIS_QUERY_CMPLT), (4, 24)]) st;
     (case RNDIS_Device_ProcessNDISQuery cfg st Query_Oid of
        Some ResponseData \<Rightarrow> do {
          st \<leftarrow> on_message (overlay 24 ResponseData) st;
          let n = (of_nat (length ResponseData) :: u32);
          on_message (put_fields [(12, REMOTE_NDIS_STATUS_SUCCESS), (4, 24 + n), (16, n), (20, 16)]) st }
      | None \<Rightarrow> on_message (put_fields [(12, REMOTE_NDIS_STATUS_NOT_SUPPORTED), (16, 0), (20, 0)]) st) }"

definition set_message :: "(nat \<Rightarrow> u32) \<Rightarrow> RNDIS_Device_State \<Rightarrow> RNDIS_Device_State option" where
  "set_message far st = do {
     let st = st\<lparr>ResponseReady := 1\<rparr>;
     SET_Oid \<leftarrow> get32 12 (RNDISMessageBuffer st);
     st \<leftarrow> on_message (put_fields [(0, REMOTE_NDIS_SET_CMPLT), (4, 16)]) st;
     Offset \<leftarrow> get32 20 (RNDISMessageBuffer st);
     let (ok, st) = RNDIS_Device_ProcessNDISSet far st SET_Oid (unat (8 + Offset));
     on_message (put32 12 (if ok then REMOTE_NDIS_STATUS_SUCCESS else REMOTE_NDIS_STATUS_NOT_SUPPORTED)) st }"

definition RNDIS_Device_ProcessRNDISControlMessage ::
    "(nat \<Rightarrow> u32) \<Rightarrow> RNDIS_Device_Config \<Rightarrow> RNDIS_Device_State \<Rightarrow> RNDIS_Device_State option" where
  "RNDIS_Device_ProcessRNDISControlMessage far cfg st = do {
     MessageType \<leftarrow> get32 0 (RNDISMessageBuffer st);
     if MessageType = REMOTE_NDIS_INITIALIZE_MSG then initialize_message st
     else if MessageType = REMOTE_NDIS_HALT_MSG then halt_message st
     else if MessageType = REMOTE_NDIS_QUERY_MSG then query_message cfg st
     else if MessageType = REMOTE_NDIS_SET_MSG then set_message far st
     else if MessageType = REMOTE_NDIS_RESET_MSG then
       on_message (put_fields [(0, REMOTE_NDIS_RESET_CMPLT), (4, 16), (8, REMOTE_NDIS_STATUS_SUCCESS), (12, 0)])
         (st\<lparr>ResponseReady := 1\<rparr>)
     else if MessageType = REMOTE_NDIS_KEEPALIVE_MSG then
       on_message (put_fields [(0, REMOTE_NDIS_KEEPALIVE_CMPLT), (4, 16), (12, REMOTE_NDIS_STATUS_SUCCESS)])
         (st\<lparr>ResponseReady := 1\<rparr>)
     else Some st }"

section \<open>Requests\<close>

text \<open>
  The message is read with the length the request announces, whatever the size of the buffer; the answer is
  written with the length its header says.
\<close>

definition send_encapsulated ::
    "(nat \<Rightarrow> u32) \<Rightarrow> RNDIS_Device_Config \<Rightarrow> RNDIS_Device_State \<Rightarrow> 'a lufa_scheme \<Rightarrow> (RNDIS_Device_State \<times> 'a lufa_scheme) option" where
  "send_encapsulated far cfg st s = do {
     s \<leftarrow> Endpoint_ClearSETUP s;
     (e, bs, s) \<leftarrow> Endpoint_Read_Control_Stream_LE (wLength (USB_ControlRequest s)) s;
     st \<leftarrow> on_message (overlay 0 bs) st;
     s \<leftarrow> Endpoint_ClearIN s;
     st \<leftarrow> RNDIS_Device_ProcessRNDISControlMessage far cfg st;
     Some (st, s) }"

definition get_encapsulated :: "RNDIS_Device_State \<Rightarrow> 'a lufa_scheme \<Rightarrow> (RNDIS_Device_State \<times> 'a lufa_scheme) option" where
  "get_encapsulated st s = do {
     s \<leftarrow> Endpoint_ClearSETUP s;
     n \<leftarrow> get32 4 (RNDISMessageBuffer st);
     st \<leftarrow> (if n = 0 then do { st \<leftarrow> on_message (overlay 0 [0]) st; on_message (put32 4 1) st } else Some st);
     n \<leftarrow> get32 4 (RNDISMessageBuffer st);
     (e, s) \<leftarrow> Endpoint_Write_Control_Stream_LE (state_bytes st) (ucast n) s;
     s \<leftarrow> Endpoint_ClearOUT s;
     st \<leftarrow> on_message (put32 4 0) st;
     Some (st, s) }"

definition RNDIS_Device_ProcessControlRequest ::
    "(nat \<Rightarrow> u32) \<Rightarrow> RNDIS_Device_Config \<Rightarrow> RNDIS_Device_State \<Rightarrow> 'a lufa_scheme \<Rightarrow> (RNDIS_Device_State \<times> 'a lufa_scheme) option" where
  "RNDIS_Device_ProcessControlRequest far cfg st s = do {
     (for_us, s) \<leftarrow> addressed_request (ControlInterfaceNumber cfg) s;
     if \<not> for_us then Some (st, s)
     else if class_out 0x00 s then send_encapsulated far cfg st s
     else if class_in 0x01 s then get_encapsulated st s
     else Some (st, s) }"

definition RNDIS_Device_ConfigureEndpoints ::
    "RNDIS_Device_Config \<Rightarrow> 'a lufa_scheme \<Rightarrow> (bool \<times> RNDIS_Device_State \<times> 'a lufa_scheme) option" where
  "RNDIS_Device_ConfigureEndpoints cfg s = do {
     (ok, s) \<leftarrow> configure_notifying cfg s;
     Some (ok, cleared_adapter, s) }"

section \<open>The task\<close>

definition notify_response ::
    "RNDIS_Device_Config \<Rightarrow> RNDIS_Device_State \<Rightarrow> 'a lufa_scheme \<Rightarrow> (RNDIS_Device_State \<times> 'a lufa_scheme) option" where
  "notify_response cfg st s = do {
     (ready, s) \<leftarrow> Endpoint_IsINReady (Endpoint_SelectEndpoint (NotificationEndpointNumber cfg) s);
     if ready \<and> ResponseReady st \<noteq> 0 then do {
       (_, s) \<leftarrow> Endpoint_Write_Stream_LE [0xA1, 1, 0, 0, 0, 0, 0, 0] 8 s;
       s \<leftarrow> Endpoint_ClearIN s;
       Some (st\<lparr>ResponseReady := 0\<rparr>, s) }
     else Some (st, s) }"

text \<open>The packet the host sends; the first component says whether the task goes on.\<close>

definition receive_frame ::
    "RNDIS_Device_Config \<Rightarrow> u8 list \<Rightarrow> RNDIS_Device_State \<Rightarrow> 'a lufa_scheme \<Rightarrow>
      (bool \<times> RNDIS_Device_State \<times> 'a lufa_scheme) option" where
  "receive_frame cfg RNDISPacketHeader st s = do {
     (received, s) \<leftarrow> Endpoint_IsOUTReceived (Endpoint_SelectEndpoint (DataOUTEndpointNumber cfg) s);
     if received \<and> FrameInBuffer (FrameIN st) = 0 then do {
       (_, header, s) \<leftarrow> read_structure 44 RNDISPacketHeader s;
       DataLength \<leftarrow> get32 12 header;
       if DataLength > 1500 then do { s \<leftarrow> Endpoint_StallTransaction s; Some (False, st, s) }
       else do {
         (_, d, s) \<leftarrow> read_structure (ucast DataLength) (FrameData (FrameIN st)) s;
         s \<leftarrow> Endpoint_ClearOUT s;
         Some (True, st\<lparr>FrameIN := \<lparr>FrameData = d, FrameLength = ucast DataLength, FrameInBuffer = 1\<rparr>\<rparr>, s) } }
     else Some (True, st, s) }"

definition packet_header :: "u16 \<Rightarrow> u8 list" where
  "packet_header n = concat (map bytes32 [REMOTE_NDIS_PACKET_MSG, ucast (44 + n), 36, ucast n, 0, 0, 0, 0, 0, 0, 0])"

definition send_frame ::
    "RNDIS_Device_Config \<Rightarrow> RNDIS_Device_State \<Rightarrow> 'a lufa_scheme \<Rightarrow> (RNDIS_Device_State \<times> 'a lufa_scheme) option" where
  "send_frame cfg st s = do {
     (ready, s) \<leftarrow> Endpoint_IsINReady (Endpoint_SelectEndpoint (DataINEndpointNumber cfg) s);
     if ready \<and> FrameInBuffer (FrameOUT st) \<noteq> 0 then do {
       (_, s) \<leftarrow> Endpoint_Write_Stream_LE (packet_header (FrameLength (FrameOUT st))) 44 s;
       (_, s) \<leftarrow> Endpoint_Write_Stream_LE (FrameData (FrameOUT st)) (FrameLength (FrameOUT st)) s;
       s \<leftarrow> Endpoint_ClearIN s;
       Some (st\<lparr>FrameOUT := (FrameOUT st)\<lparr>FrameInBuffer := 0\<rparr>\<rparr>, s) }
     else Some (st, s) }"

definition RNDIS_Device_USBTask ::
    "RNDIS_Device_Config \<Rightarrow> u8 list \<Rightarrow> RNDIS_Device_State \<Rightarrow> 'a lufa_scheme \<Rightarrow> (RNDIS_Device_State \<times> 'a lufa_scheme) option" where
  "RNDIS_Device_USBTask cfg RNDISPacketHeader st s =
     (case configured s of (ok, s) \<Rightarrow>
        if \<not> ok then Some (st, s)
        else do {
          (st, s) \<leftarrow> notify_response cfg st s;
          n \<leftarrow> get32 4 (RNDISMessageBuffer st);
          if CurrRNDISState st = RNDIS_Data_Initialized \<and> n = 0 then do {
            (go_on, st, s) \<leftarrow> receive_frame cfg RNDISPacketHeader st s;
            if go_on then send_frame cfg st s else Some (st, s) }
          else Some (st, s) })"

end
