(* ===== verification/RndisProofs.thy ===== *)
theory RndisProofs
  imports RndisDevice
begin

text \<open>
  The messages of the RNDIS adapter: what an answer contains, and what the one query does to the adapter whose answer
  does not fit into the buffer.
\<close>

section \<open>The state as memory\<close>

lemma bytes32_four: "length xs = 4 \<Longrightarrow> bytes32 (word32 xs) = xs"
  by (auto simp: numeral_eq_Suc length_Suc_conv) (use bytes32_word in simp)

lemma bytes16_two: "length xs = 2 \<Longrightarrow> bytes16 (word16 xs) = xs"
  by (auto simp: numeral_eq_Suc length_Suc_conv) (use bytes16_word in simp)

definition same_sizes :: "RNDIS_Device_State \<Rightarrow> RNDIS_Device_State \<Rightarrow> bool" where
  "same_sizes st t \<longleftrightarrow> length (RNDISMessageBuffer t) = length (RNDISMessageBuffer st) \<and>
     length (FrameData (FrameIN t)) = length (FrameData (FrameIN st)) \<and>
     length (FrameData (FrameOUT t)) = length (FrameData (FrameOUT st))"

lemma frame_of_bytes:
  assumes "length (FrameData g) = length (FrameData f)"
  shows "frame_of f (frame_bytes g @ rest) = g"
proof -
  have "(frame_bytes g @ rest) ! (length (FrameData f) + 2) = FrameInBuffer g"
    using assms by (simp add: frame_bytes_def bytes16_def nth_append)
  then show ?thesis
    using assms by (simp add: frame_of_def Let_def) (simp add: frame_bytes_def)
qed

lemma state_of_bytes: "same_sizes st t \<Longrightarrow> state_of st (state_bytes t) = t"
proof -
  assume sizes: "same_sizes st t"
  have l: "length (frame_bytes (FrameIN t)) = length (frame_bytes (FrameIN st))"
    using sizes by (simp add: same_sizes_def frame_bytes_def)
  let ?b = "length (RNDISMessageBuffer st)"
  have m1: "drop ?b (state_bytes t) = ResponseReady t # CurrRNDISState t # bytes32 (CurrPacketFilter t) @
      frame_bytes (FrameIN t) @ frame_bytes (FrameOUT t)"
    using sizes by (simp add: state_bytes_def same_sizes_def)
  have m2: "drop 6 (drop ?b (state_bytes t)) = frame_bytes (FrameIN t) @ frame_bytes (FrameOUT t)"
    unfolding m1 by simp
  have m3: "drop (length (frame_bytes (FrameIN st))) (drop 6 (drop ?b (state_bytes t))) = frame_bytes (FrameOUT t) @ []"
    unfolding m2 l [symmetric] by simp
  show ?thesis
    using sizes frame_of_bytes [of "FrameOUT t" "FrameOUT st" "[]"]
    by (simp only: state_of_def Let_def m3) (simp add: m1 m2 frame_of_bytes same_sizes_def, simp add: state_bytes_def)
qed

lemma split_list_at: "length m = a + b \<Longrightarrow> \<exists>x y. m = x @ y \<and> length x = a \<and> length y = b"
  by (intro exI [of _ "take a m"] exI [of _ "drop a m"]) simp

lemma some_frame:
  assumes "length m = length (frame_bytes f)"
  shows "\<exists>g. m = frame_bytes g \<and> length (FrameData g) = length (FrameData f)"
proof -
  obtain d x where d: "m = d @ x" "length d = length (FrameData f)" "length x = 2 + 1"
    using assms split_list_at [of m "length (FrameData f)" "2 + 1"] by (auto simp: frame_bytes_def)
  obtain l y where y: "x = l @ y" "length l = 2" "length y = 1"
    using split_list_at [OF d(3)] by auto
  obtain b where "y = [b]"
    using y(3) by (auto simp: length_Suc_conv)
  then show ?thesis
    using d y bytes16_two [of l]
    by (intro exI [of _ "\<lparr>FrameData = d, FrameLength = word16 l, FrameInBuffer = b\<rparr>"]) (simp add: frame_bytes_def)
qed

lemma bytes_state_of:
  assumes "length m = length (state_bytes st)"
  shows "state_bytes (state_of st m) = m" "same_sizes st (state_of st m)"
proof -
  let ?b = "length (RNDISMessageBuffer st)" and ?i = "length (frame_bytes (FrameIN st))" and ?o = "length (frame_bytes (FrameOUT st))"
  obtain b x where b: "m = b @ x" "length b = ?b" "length x = 2 + (4 + (?i + ?o))"
    using assms split_list_at [of m ?b "2 + (4 + (?i + ?o))"] by (auto simp: state_bytes_def)
  obtain rc y where rc: "x = rc @ y" "length rc = 2" "length y = 4 + (?i + ?o)"
    using split_list_at [OF b(3)] by auto
  obtain p z where p: "y = p @ z" "length p = 4" "length z = ?i + ?o"
    using split_list_at [OF rc(3)] by auto
  obtain i o' where io: "z = i @ o'" "length i = ?i" "length o' = ?o"
    using split_list_at [OF p(3)] by auto
  obtain r c where "rc = [r, c]"
    using rc(2) by (auto simp: numeral_2_eq_2 length_Suc_conv)
  moreover obtain f where f: "i = frame_bytes f" "length (FrameData f) = length (FrameData (FrameIN st))"
    using some_frame [OF io(2)] by blast
  moreover obtain g where g: "o' = frame_bytes g" "length (FrameData g) = length (FrameData (FrameOUT st))"
    using some_frame [OF io(3)] by blast
  ultimately obtain t where t: "m = state_bytes t" "same_sizes st t"
    using b(1,2) rc(1) p(1,2) io(1) bytes32_four [of p]
    by (intro that [of "\<lparr>RNDISMessageBuffer = b, ResponseReady = r, CurrRNDISState = c, CurrPacketFilter = word32 p, FrameIN = f, FrameOUT = g\<rparr>"])
      (simp_all add: state_bytes_def same_sizes_def)
  then show "state_bytes (state_of st m) = m" "same_sizes st (state_of st m)"
    by (simp_all add: state_of_bytes)
qed

lemma get32_buffer:
  "k + 4 \<le> length (RNDISMessageBuffer st) \<Longrightarrow> get32 k (state_bytes st) = get32 k (RNDISMessageBuffer st)"
proof -
  assume "k + 4 \<le> length (RNDISMessageBuffer st)"
  then obtain w where "get32 k (RNDISMessageBuffer st) = Some w"
    by (auto simp: get32_def)
  then show ?thesis
    by (simp add: state_bytes_def get32_longer)
qed

text \<open>A change within the buffer leaves the rest of the state, and any change gives the state with the new bytes.\<close>

lemma on_buffer:
  assumes "f (RNDISMessageBuffer st) = Some m" "length m = length (RNDISMessageBuffer st)"
    and "\<And>rest. f (RNDISMessageBuffer st @ rest) = Some (m @ rest)"
  shows "on_message f st = Some (st\<lparr>RNDISMessageBuffer := m\<rparr>)"
proof -
  have "f (state_bytes st) = Some (state_bytes (st\<lparr>RNDISMessageBuffer := m\<rparr>))"
    using assms(3) by (simp add: state_bytes_def)
  moreover have "same_sizes st (st\<lparr>RNDISMessageBuffer := m\<rparr>)"
    using assms(2) by (simp add: same_sizes_def)
  ultimately show ?thesis
    by (simp add: on_message_def state_of_bytes)
qed

lemma on_put_fields:
  "put_fields fs (RNDISMessageBuffer st) = Some m \<Longrightarrow> on_message (put_fields fs) st = Some (st\<lparr>RNDISMessageBuffer := m\<rparr>)"
  by (rule on_buffer) (auto dest: put_fields_length put_fields_append)

lemma on_overlay:
  "overlay k xs (RNDISMessageBuffer st) = Some m \<Longrightarrow> on_message (overlay k xs) st = Some (st\<lparr>RNDISMessageBuffer := m\<rparr>)"
  by (rule on_buffer) (auto dest: overlay_length overlay_append)

lemma on_put32:
  "put32 k w (RNDISMessageBuffer st) = Some m \<Longrightarrow> on_message (put32 k w) st = Some (st\<lparr>RNDISMessageBuffer := m\<rparr>)"
  by (rule on_buffer) (auto simp: put32_def dest: overlay_length overlay_append)

lemma on_message_bytes:
  assumes "on_message f st = Some t" "\<And>m. f (state_bytes st) = Some m \<Longrightarrow> length m = length (state_bytes st)"
  shows "f (state_bytes st) = Some (state_bytes t)" "same_sizes st t"
proof -
  obtain m where m: "f (state_bytes st) = Some m" "t = state_of st m"
    using assms(1) by (auto simp: on_message_def split: bind_splits)
  then show "f (state_bytes st) = Some (state_bytes t)" "same_sizes st t"
    using bytes_state_of [OF assms(2) [OF m(1)]] by simp_all
qed

lemma on_fields_bytes:
  "on_message (put_fields fs) st = Some t \<Longrightarrow> put_fields fs (state_bytes st) = Some (state_bytes t)"
  by (rule on_message_bytes(1)) (auto dest: put_fields_length)

lemma on_overlay_bytes:
  "on_message (overlay k xs) st = Some t \<Longrightarrow> overlay k xs (state_bytes st) = Some (state_bytes t)"
  by (rule on_message_bytes(1)) (auto dest: overlay_length)

section \<open>Answers\<close>

text \<open>An answer within the buffer, to the message it replaces there.\<close>

definition answer_to :: "u8 list \<Rightarrow> u8 list \<Rightarrow> bool" where
  "answer_to m a \<longleftrightarrow> length a = length m \<and> get32 0 a = map_option (\<lambda>t. t OR 0x80000000) (get32 0 m) \<and> get32 8 a = get32 8 m \<and>
     (\<exists>n. get32 4 a = Some n \<and> 16 \<le> n \<and> n \<le> 128)"

text \<open>Announced, and nothing but the message, the state and the filter is changed.\<close>

definition announced :: "RNDIS_Device_State \<Rightarrow> RNDIS_Device_State \<Rightarrow> bool" where
  "announced st t \<longleftrightarrow> ResponseReady t = 1 \<and> FrameIN t = FrameIN st \<and> FrameOUT t = FrameOUT st"

lemma get32_fits: "k + 4 \<le> length m \<Longrightarrow> \<exists>w. get32 k m = Some w"
  by (simp add: get32_def)

lemma initialize_answer:
  assumes "length (RNDISMessageBuffer st) = 128" "get32 0 (RNDISMessageBuffer st) = Some REMOTE_NDIS_INITIALIZE_MSG"
  shows "\<exists>st'. initialize_message st = Some st' \<and> announced st st' \<and> answer_to (RNDISMessageBuffer st) (RNDISMessageBuffer st') \<and>
    get32 12 (RNDISMessageBuffer st') = Some REMOTE_NDIS_STATUS_SUCCESS \<and> get32 36 (RNDISMessageBuffer st') = Some 1544 \<and>
    CurrRNDISState st' = RNDIS_Initialized"
proof -
  let ?fs = "[(0, REMOTE_NDIS_INITIALIZE_CMPLT), (4, 52), (12, REMOTE_NDIS_STATUS_SUCCESS),
       (16, 1), (20, 0), (24, 1), (28, 0), (32, 1), (36, 44 + 1500), (40, 0), (44, 0), (48, 0)] :: (nat \<times> u32) list"
  obtain m where m: "put_fields ?fs (RNDISMessageBuffer st) = Some m"
    using put_fields_fits [of ?fs "RNDISMessageBuffer st"] assms(1) by auto
  have "get32 0 m = Some REMOTE_NDIS_INITIALIZE_CMPLT" "get32 4 m = Some 52" "get32 12 m = Some 0" "get32 36 m = Some 1544"
    using get32_put_fields [OF m] by (simp_all add: apart_def)
  moreover have "get32 8 m = get32 8 (RNDISMessageBuffer st)"
    by (rule get32_put_fields_other [OF m]) simp
  ultimately show ?thesis
    using on_put_fields [of ?fs "st\<lparr>ResponseReady := 1\<rparr>" m] m put_fields_length [OF m] assms
    by (simp add: initialize_message_def answer_to_def announced_def)
qed

lemma keepalive_answer:
  assumes "length (RNDISMessageBuffer st) = 128" "get32 0 (RNDISMessageBuffer st) = Some REMOTE_NDIS_KEEPALIVE_MSG"
  shows "\<exists>st'. on_message (put_fields [(0, REMOTE_NDIS_KEEPALIVE_CMPLT), (4, 16), (12, REMOTE_NDIS_STATUS_SUCCESS)])
         (st\<lparr>ResponseReady := 1\<rparr>) = Some st' \<and> announced st st' \<and> answer_to (RNDISMessageBuffer st) (RNDISMessageBuffer st')"
proof -
  let ?fs = "[(0, REMOTE_NDIS_KEEPALIVE_CMPLT), (4, 16), (12, REMOTE_NDIS_STATUS_SUCCESS)] :: (nat \<times> u32) list"
  obtain m where m: "put_fields ?fs (RNDISMessageBuffer st) = Some m"
    using put_fields_fits [of ?fs "RNDISMessageBuffer st"] assms(1) by auto
  have "get32 0 m = Some REMOTE_NDIS_KEEPALIVE_CMPLT" "get32 4 m = Some 16"
    using get32_put_fields [OF m] by (simp_all add: apart_def)
  moreover have "get32 8 m = get32 8 (RNDISMessageBuffer st)"
    by (rule get32_put_fields_other [OF m]) simp
  ultimately show ?thesis
    using on_put_fields [of ?fs "st\<lparr>ResponseReady := 1\<rparr>" m] m put_fields_length [OF m] assms
    by (simp add: answer_to_def announced_def)
qed

lemma set_answer:
  assumes len: "length (RNDISMessageBuffer st) = 128" and ty: "get32 0 (RNDISMessageBuffer st) = Some REMOTE_NDIS_SET_MSG"
  shows "\<exists>st'. set_message far st = Some st' \<and> announced st st' \<and> answer_to (RNDISMessageBuffer st) (RNDISMessageBuffer st')"
proof -
  let ?fs = "[(0, REMOTE_NDIS_SET_CMPLT), (4, 16)] :: (nat \<times> u32) list"
  obtain o' where oid: "get32 12 (RNDISMessageBuffer st) = Some o'"
    using get32_fits [of 12 "RNDISMessageBuffer st"] len by auto
  obtain m where m: "put_fields ?fs (RNDISMessageBuffer st) = Some m"
    using put_fields_fits [of ?fs "RNDISMessageBuffer st"] len by auto
  note length_m = put_fields_length [OF m]
  have m04: "get32 0 m = Some REMOTE_NDIS_SET_CMPLT" "get32 4 m = Some 16"
    using get32_put_fields [OF m] by (simp_all add: apart_def)
  have m8: "get32 8 m = get32 8 (RNDISMessageBuffer st)"
    using get32_put_fields_other [OF m] by simp
  obtain k where k: "get32 20 m = Some k"
    using get32_fits [of 20 m] length_m len by auto
  let ?u = "st\<lparr>ResponseReady := 1, RNDISMessageBuffer := m\<rparr>"
  obtain ok u where u: "RNDIS_Device_ProcessNDISSet far ?u o' (unat (8 + k)) = (ok, u)"
    by (cases "RNDIS_Device_ProcessNDISSet far ?u o' (unat (8 + k))")
  then have u': "RNDISMessageBuffer u = m" "announced st u"
    by (auto simp: RNDIS_Device_ProcessNDISSet_def announced_def Let_def split: if_splits)
  let ?w = "if ok then REMOTE_NDIS_STATUS_SUCCESS else REMOTE_NDIS_STATUS_NOT_SUPPORTED"
  obtain a where a: "put32 12 ?w m = Some a"
    unfolding put32_def using overlay_fits [of 12 "bytes32 ?w" m] len length_m by auto
  have "get32 0 a = get32 0 m" "get32 4 a = get32 4 m" "get32 8 a = get32 8 m" "length a = length m"
    using get32_put32_other [OF a] put32_length [OF a] by simp_all
  moreover have "set_message far st = Some (u\<lparr>RNDISMessageBuffer := a\<rparr>)"
    using on_put_fields [of ?fs "st\<lparr>ResponseReady := 1\<rparr>" m] m oid k u on_put32 [of 12 ?w u a] u' a
    by (simp add: set_message_def Let_def)
  ultimately show ?thesis
    using u' m04 m8 length_m ty by (simp add: answer_to_def announced_def)
qed

lemma query_fits:
  assumes "RNDIS_Device_ProcessNDISQuery cfg st i = Some r" "i \<noteq> OID_GEN_SUPPORTED_LIST"
    "length (AdapterVendorDescription cfg) < 104" "length (AdapterMACAddress cfg) = 6"
  shows "length r \<le> 104"
  using assms by (auto simp: RNDIS_Device_ProcessNDISQuery_def Let_def split: if_splits)

lemma query_answer:
  assumes len: "length (RNDISMessageBuffer st) = 128" and ty: "get32 0 (RNDISMessageBuffer st) = Some REMOTE_NDIS_QUERY_MSG"
    and oid: "get32 12 (RNDISMessageBuffer st) = Some i" "i \<noteq> OID_GEN_SUPPORTED_LIST"
    and cfg: "length (AdapterVendorDescription cfg) < 104" "length (AdapterMACAddress cfg) = 6"
  shows "\<exists>st'. query_message cfg st = Some st' \<and> announced st st' \<and> answer_to (RNDISMessageBuffer st) (RNDISMessageBuffer st')"
proof -
  let ?fs = "[(0, REMOTE_NDIS_QUERY_CMPLT), (4, 24)] :: (nat \<times> u32) list"
  obtain m where m: "put_fields ?fs (RNDISMessageBuffer st) = Some m"
    using put_fields_fits [of ?fs "RNDISMessageBuffer st"] len by auto
  note length_m = put_fields_length [OF m]
  have m0: "get32 0 m = Some REMOTE_NDIS_QUERY_CMPLT" and m4: "get32 4 m = Some 24"
    using get32_put_fields [OF m] by (simp_all add: apart_def)
  have m8: "get32 8 m = get32 8 (RNDISMessageBuffer st)"
    by (rule get32_put_fields_other [OF m]) simp
  let ?st = "st\<lparr>ResponseReady := 1, RNDISMessageBuffer := m\<rparr>"
  note first = on_put_fields [of ?fs "st\<lparr>ResponseReady := 1\<rparr>" m]
  show ?thesis
  proof (cases "RNDIS_Device_ProcessNDISQuery cfg ?st i")
    case None
    let ?gs = "[(12, REMOTE_NDIS_STATUS_NOT_SUPPORTED), (16, 0), (20, 0)] :: (nat \<times> u32) list"
    obtain a where a: "put_fields ?gs m = Some a"
      using put_fields_fits [of ?gs m] len length_m by auto
    have "get32 0 a = get32 0 m" "get32 4 a = get32 4 m" "get32 8 a = get32 8 m"
      using get32_put_fields_other [OF a] by simp_all
    moreover have "query_message cfg st = Some (?st\<lparr>RNDISMessageBuffer := a\<rparr>)"
      using None first m oid on_put_fields [of ?gs ?st a] a by (simp add: query_message_def Let_def)
    ultimately show ?thesis
      using m0 m4 m8 length_m put_fields_length [OF a] ty by (simp add: answer_to_def announced_def)
  next
    case (Some r)
    let ?n = "of_nat (length r) :: u32"
    let ?gs = "[(12, REMOTE_NDIS_STATUS_SUCCESS), (4, 24 + ?n), (16, ?n), (20, 16)] :: (nat \<times> u32) list"
    have r: "length r \<le> 104"
      by (rule query_fits [OF Some oid(2) cfg])
    obtain d where d: "overlay 24 r m = Some d"
      using overlay_fits [of 24 r m] r len length_m by auto
    obtain a where a: "put_fields ?gs d = Some a"
      using put_fields_fits [of ?gs d] len length_m overlay_length [OF d] by auto
    have "get32 0 a = get32 0 m" "get32 8 a = get32 8 m"
      using get32_put_fields_other [OF a] get32_overlay [OF d] by simp_all
    moreover have "get32 4 a = Some (24 + ?n)"
      by (rule get32_put_fields [OF a]) (simp_all add: apart_def)
    moreover have "unat (24 + ?n) = 24 + length r"
      using r by (simp add: unat_word_ariths unsigned_of_nat take_bit_eq_mod)
    then have "16 \<le> 24 + ?n" "24 + ?n \<le> 128"
      using r by (simp_all add: word_le_nat_alt)
    moreover have "query_message cfg st = Some (?st\<lparr>RNDISMessageBuffer := a\<rparr>)"
      using Some first m oid on_overlay [of 24 r ?st d] on_put_fields [of ?gs "?st\<lparr>RNDISMessageBuffer := d\<rparr>" a] d a
      by (simp add: query_message_def Let_def)
    ultimately show ?thesis
      using m0 m8 length_m put_fields_length [OF a] overlay_length [OF d] ty by (simp add: answer_to_def announced_def)
  qed
qed

section \<open>The list of the supported objects\<close>


lemma supported_list:
  "length (concat (map bytes32 AdapterSupportedOIDList)) = 108"
  "drop 104 (concat (map bytes32 AdapterSupportedOIDList)) = [3, 1, 2, 1]"
  "concat (map bytes32 (butlast AdapterSupportedOIDList @ [0x01020100])) = take 104 (concat (map bytes32 AdapterSupportedOIDList)) @ [0, 1, 2, 1]"
  by code_simp+

lemma list_answer:
  assumes len: "length (RNDISMessageBuffer st) = 128" and ty: "get32 0 (RNDISMessageBuffer st) = Some REMOTE_NDIS_QUERY_MSG"
    and oid: "get32 12 (RNDISMessageBuffer st) = Some OID_GEN_SUPPORTED_LIST"
  shows "\<exists>st'. query_message cfg st = Some st' \<and> length (RNDISMessageBuffer st') = 128 \<and>
    get32 0 (RNDISMessageBuffer st') = Some REMOTE_NDIS_QUERY_CMPLT \<and> get32 8 (RNDISMessageBuffer st') = get32 8 (RNDISMessageBuffer st) \<and>
    get32 4 (RNDISMessageBuffer st') = Some 132 \<and>
    drop 24 (RNDISMessageBuffer st') = take 104 (concat (map bytes32 AdapterSupportedOIDList)) \<and>
    ResponseReady st' = 3 \<and> CurrRNDISState st' = RNDIS_Initialized \<and>
    bytes32 (CurrPacketFilter st') = [2, 1] @ drop 2 (bytes32 (CurrPacketFilter st)) \<and>
    FrameIN st' = FrameIN st \<and> FrameOUT st' = FrameOUT st"
proof -
  let ?fs = "[(0, REMOTE_NDIS_QUERY_CMPLT), (4, 24)] :: (nat \<times> u32) list"
  let ?list = "concat (map bytes32 AdapterSupportedOIDList)"
  let ?gs = "[(12, REMOTE_NDIS_STATUS_SUCCESS), (4, 24 + 108), (16, 108), (20, 16)] :: (nat \<times> u32) list"
  obtain m where m: "put_fields ?fs (RNDISMessageBuffer st) = Some m"
    using put_fields_fits [of ?fs "RNDISMessageBuffer st"] len by auto
  note length_m = put_fields_length [OF m]
  let ?st = "st\<lparr>ResponseReady := 1, RNDISMessageBuffer := m\<rparr>"
  let ?b = "take 24 m @ take 104 ?list"
  let ?p = "[2, 1] @ drop 2 (bytes32 (CurrPacketFilter st))"
  let ?t = "?st\<lparr>RNDISMessageBuffer := ?b, ResponseReady := 3, CurrRNDISState := 1, CurrPacketFilter := word32 ?p\<rparr>"
  have b: "length ?b = 128"
    using len length_m supported_list(1) by simp
  have p: "bytes32 (word32 ?p) = ?p"
    by (rule bytes32_four) simp
  have "state_bytes ?st = m @ [1, CurrRNDISState st] @ bytes32 (CurrPacketFilter st) @ frame_bytes (FrameIN st) @ frame_bytes (FrameOUT st)"
    by (simp add: state_bytes_def)
  moreover have "drop 132 (m @ [1, CurrRNDISState st] @ bytes32 (CurrPacketFilter st) @ rest) = drop 2 (bytes32 (CurrPacketFilter st)) @ rest" for rest
    using len length_m by simp
  moreover have "?list = take 104 ?list @ [3, 1, 2, 1]"
    using supported_list(2) by (metis append_take_drop_id)
  ultimately have "overlay 24 ?list (state_bytes ?st) = Some (take 24 m @ (take 104 ?list @ [3, 1, 2, 1]) @
      drop 2 (bytes32 (CurrPacketFilter st)) @ frame_bytes (FrameIN st) @ frame_bytes (FrameOUT st))"
    using len length_m supported_list(1) by (simp add: overlay_def)
  also have "\<dots> = Some (state_bytes ?t)"
    using p by (simp add: state_bytes_def)
  finally have over: "on_message (overlay 24 ?list) ?st = Some ?t"
    using b len length_m by (simp add: on_message_def state_of_bytes same_sizes_def)
  obtain a where a: "put_fields ?gs ?b = Some a"
    using put_fields_fits [of ?gs ?b] b by auto
  have "RNDIS_Device_ProcessNDISQuery cfg ?st OID_GEN_SUPPORTED_LIST = Some ?list"
    by (simp add: RNDIS_Device_ProcessNDISQuery_def)
  then have q: "query_message cfg st = Some (?t\<lparr>RNDISMessageBuffer := a\<rparr>)"
    using on_put_fields [of ?fs "st\<lparr>ResponseReady := 1\<rparr>" m] m oid over on_put_fields [of ?gs ?t a] a supported_list(1)
    by (simp add: query_message_def Let_def)
  have m0: "get32 0 m = Some REMOTE_NDIS_QUERY_CMPLT" and m8: "get32 8 m = get32 8 (RNDISMessageBuffer st)"
    using get32_put_fields [OF m] get32_put_fields_other [OF m] by (simp_all add: apart_def)
  have front: "get32 k ?b = get32 k m" if "k + 4 \<le> 24" for k
    using that len length_m b by (simp add: get32_def take_drop [of 4 k] take_append)
  have "get32 0 a = get32 0 ?b" "get32 8 a = get32 8 ?b" "get32 4 a = Some 132"
    using get32_put_fields_other [OF a] get32_put_fields [OF a] by (simp_all add: apart_def)
  moreover have "drop 24 a = drop 24 ?b"
    by (rule drop_put_fields [OF a]) simp
  ultimately show ?thesis
    using q p m0 m8 front put_fields_length [OF a] b len length_m by simp
qed


definition some_adapter :: RNDIS_Device_Config where
  "some_adapter = \<lparr>DataINEndpointNumber = 1, DataINEndpointSize = 64, DataINEndpointDoubleBank = False, DataOUTEndpointNumber = 2,
     DataOUTEndpointSize = 64, DataOUTEndpointDoubleBank = False, NotificationEndpointNumber = 3, NotificationEndpointSize = 8,
     NotificationEndpointDoubleBank = False, ControlInterfaceNumber = 0, AdapterVendorDescription = [76, 85, 70, 65],
     AdapterMACAddress = [2, 0, 2, 0, 2, 0]\<rparr>"

definition message_in_buffer :: "u32 list \<Rightarrow> RNDIS_Device_State" where
  "message_in_buffer ws = cleared_adapter\<lparr>RNDISMessageBuffer :=
     concat (map bytes32 ws) @ replicate (128 - 4 * length ws) 0\<rparr>"

lemmas length_concat_words [simp] = length_words [unfolded words_def]


section \<open>All messages\<close>

text \<open>C15: an RNDIS message of the host of the four kinds with a request ID is answered, whatever its fields say and whatever
  the state of the adapter is (with a vendor's description of less than 104 characters): the answer is of the kind that completes the
  message, has its request ID and is announced, and its length field says a length between that of a completion and that
  of the buffer, except for the query for the supported objects, whose answer has 132 bytes. The frames are untouched.\<close>

theorem message_answered:
  assumes "length (RNDISMessageBuffer st) = RNDIS_MESSAGE_BUFFER_SIZE"
    and "length (AdapterVendorDescription cfg) < 104" "length (AdapterMACAddress cfg) = 6"
    and "get32 0 (RNDISMessageBuffer st) = Some ty"
    and "ty \<in> {REMOTE_NDIS_INITIALIZE_MSG, REMOTE_NDIS_QUERY_MSG, REMOTE_NDIS_SET_MSG, REMOTE_NDIS_KEEPALIVE_MSG}"
  shows "\<exists>st' n. RNDIS_Device_ProcessRNDISControlMessage far cfg st = Some st' \<and> ResponseReady st' \<noteq> 0 \<and>
    length (RNDISMessageBuffer st') = RNDIS_MESSAGE_BUFFER_SIZE \<and>
    get32 0 (RNDISMessageBuffer st') = Some (ty OR 0x80000000) \<and> get32 8 (RNDISMessageBuffer st') = get32 8 (RNDISMessageBuffer st) \<and>
    get32 4 (RNDISMessageBuffer st') = Some n \<and> 16 \<le> n \<and>
    (if ty = REMOTE_NDIS_QUERY_MSG \<and> get32 12 (RNDISMessageBuffer st) = Some OID_GEN_SUPPORTED_LIST then n = 132 else n \<le> 128) \<and>
    FrameIN st' = FrameIN st \<and> FrameOUT st' = FrameOUT st"
proof -
  let ?list = "ty = REMOTE_NDIS_QUERY_MSG \<and> get32 12 (RNDISMessageBuffer st) = Some OID_GEN_SUPPORTED_LIST"
  obtain i where i: "get32 12 (RNDISMessageBuffer st) = Some i"
    using get32_fits [of 12 "RNDISMessageBuffer st"] assms(1) by auto
  show ?thesis
  proof (cases ?list)
    case True
    then show ?thesis
      using list_answer [of st cfg] assms(1,4) by (auto simp: RNDIS_Device_ProcessRNDISControlMessage_def)
  next
    case False
    then have "\<exists>st'. RNDIS_Device_ProcessRNDISControlMessage far cfg st = Some st' \<and> announced st st' \<and>
        answer_to (RNDISMessageBuffer st) (RNDISMessageBuffer st')"
      using assms i initialize_answer [of st] keepalive_answer [of st] query_answer [of st i cfg] set_answer [of st far]
      by (auto simp: RNDIS_Device_ProcessRNDISControlMessage_def)
    then show ?thesis
      using False assms(1,4) by (auto simp: answer_to_def announced_def)
  qed
qed

theorem message_answered_witness:
  "\<exists>st' n. RNDIS_Device_ProcessRNDISControlMessage (\<lambda>_. 0) some_adapter (message_in_buffer [5, 28, 7, OID_GEN_CURRENT_PACKET_FILTER, 4, 9999]) =
      Some st' \<and>
    get32 8 (RNDISMessageBuffer st') = Some 7 \<and> get32 0 (RNDISMessageBuffer st') = Some REMOTE_NDIS_SET_CMPLT \<and>
    get32 4 (RNDISMessageBuffer st') = Some n \<and> n \<le> 128"
proof -
  let ?st = "message_in_buffer [5, 28, 7, OID_GEN_CURRENT_PACKET_FILTER, 4, 9999]"
  have "length (RNDISMessageBuffer ?st) = 128 \<and> get32 0 (RNDISMessageBuffer ?st) = Some 5 \<and> get32 8 (RNDISMessageBuffer ?st) = Some 7 \<and>
      length (AdapterVendorDescription some_adapter) < 104 \<and> length (AdapterMACAddress some_adapter) = 6"
    by code_simp
  with message_answered [of ?st some_adapter 5 "\<lambda>_. 0"] show ?thesis
    by auto
qed

text \<open>A packet filter of zero, which ends the transfer of data, begins it.\<close>

lemma filter_zero:
  "get32 k (state_bytes st) = Some 0 \<Longrightarrow>
    RNDIS_Device_ProcessNDISSet far st OID_GEN_CURRENT_PACKET_FILTER k =
      (True, st\<lparr>CurrPacketFilter := 0, CurrRNDISState := RNDIS_Data_Initialized\<rparr>)"
  by (simp add: RNDIS_Device_ProcessNDISSet_def)

end
