(* ===== verification/HostSends.thy ===== *)
theory HostSends
  imports HostAnswers
begin

text \<open>
  Control requests that write, to a device that takes each packet of the data within a second: they succeed. As in
  \<open>HostAnswers\<close> the reads such a device causes are written down.
\<close>

section \<open>The reads a device causes\<close>

text \<open>The host puts \<open>n\<close> bytes into the bank of size \<open>s\<close>, in which \<open>i\<close> already are.\<close>

definition fill_reads :: "nat \<Rightarrow> nat \<Rightarrow> nat \<Rightarrow> (hreg \<times> u16) list" where
  "fill_reads s i n = map (\<lambda>j. (UPBCX, of_nat j)) [i..<i + min n (s - i)] @ (if s - i < n then [(UPBCX, of_nat s)] else [])"

text \<open>The packets of the data stage, with the frames it takes until the bank is free.\<close>

fun out_reads :: "nat \<Rightarrow> nat list \<Rightarrow> nat \<Rightarrow> (hreg \<times> u16) list" where
  "out_reads s [] n = []"
| "out_reads s (k # ks) n = waiting TXOUTI k @ fill_reads s 0 n @ [(UPINTX, 0)] @ out_reads s ks (n - s)"

fun takes :: "nat \<Rightarrow> nat list \<Rightarrow> nat \<Rightarrow> bool" where
  "takes s [] n = (n = 0)"
| "takes s (k # ks) n = (n \<noteq> 0 \<and> k \<le> 1000 \<and> takes s ks (n - s))"

section \<open>The data stage\<close>

lemma same_but_ops [simp]:
  "same_but h (Pipe_Unfreeze t) = same_but h t" "same_but h (Pipe_Freeze t) = same_but h t" "same_but h (Pipe_SetPipeToken k t) = same_but h t"
  "same_but h (Pipe_ResetPipe n t) = same_but h t"
  by (simp_all add: Pipe_Unfreeze_def Pipe_Freeze_def Pipe_SetPipeToken_def Pipe_ResetPipe_def)

lemma fill_runs:
  assumes "hreads h = fill_reads s i (length d) @ rs" "s = unat (USB_ControlPipeSize h)" "i \<le> s" "length d < 2 ^ 16"
  shows "\<exists>t. fill_bytes (of_nat (length d)) d h = Some (of_nat (length d - (s - i)), drop (s - i) d, t) \<and> hreads t = rs \<and> same_but h t"
  using assms
proof (induction d arbitrary: h i)
  case Nil
  then show ?case
    by (subst fill_bytes.simps) (simp add: fill_reads_def)
next
  case (Cons b d)
  have n: "(of_nat (length (b # d)) :: u16) \<noteq> 0"
    using Cons.prems(4) of_nat_u16 by (metis length_0_conv list.distinct(1))
  have small: "unat (USB_ControlPipeSize h) < 2 ^ LENGTH(8)"
    by (rule unsigned_less)
  show ?case
  proof (cases "i < s")
    case True
    then have "i + min (Suc (length d)) (s - i) = Suc i + min (length d) (s - Suc i)"
      by linarith
    then have "[i..<i + min (Suc (length d)) (s - i)] = i # [Suc i..<Suc i + min (length d) (s - Suc i)]"
      by (simp only: upt_conv_Cons)
    then have reads: "hreads h = (UPBCX, of_nat i) # fill_reads s (Suc i) (length d) @ rs"
      using Cons.prems(1) True by (auto simp: fill_reads_def)
    let ?u = "Pipe_Write_Byte b (h\<lparr>hreads := fill_reads s (Suc i) (length d) @ rs\<rparr>)"
    have less: "(of_nat i :: u16) < ucast (USB_ControlPipeSize h)"
      using True Cons.prems(2) small by (simp add: word_less_nat_alt unsigned_of_nat unsigned_ucast_eq take_bit_nat_eq_self)
    have "\<exists>t. fill_bytes (of_nat (length d)) d ?u = Some (of_nat (length d - (s - Suc i)), drop (s - Suc i) d, t) \<and> hreads t = rs \<and> same_but ?u t"
      using Cons.prems True by (intro Cons.IH) (simp_all add: Pipe_Write_Byte_def hwr_def)
    moreover have "same_but h ?u"
      by (simp add: same_but_def Pipe_Write_Byte_def hwr_def)
    moreover have "drop (s - i) (b # d) = drop (s - Suc i) d" "length (b # d) - (s - i) = length d - (s - Suc i)"
      using True by (simp_all add: Suc_diff_Suc [symmetric])
    ultimately show ?thesis
      using n reads less by (subst fill_bytes.simps) (auto simp: Pipe_BytesInPipe_def hrd_def intro: same_but_trans)
  next
    case False
    then have "hreads h = (UPBCX, of_nat s) # rs" "s = i"
      using Cons.prems(1,3) by (simp_all add: fill_reads_def)
    moreover have "\<not> (of_nat s :: u16) < ucast (USB_ControlPipeSize h)"
      using Cons.prems(2) small by (simp add: word_less_nat_alt unsigned_of_nat unsigned_ucast_eq take_bit_nat_eq_self)
    ultimately show ?thesis
      using n by (subst fill_bytes.simps) (simp add: Pipe_BytesInPipe_def hrd_def same_but_def)
  qed
qed

lemma out_stage_runs:
  assumes "hreads h = out_reads s ks (length d) @ rs" "s = unat (USB_ControlPipeSize h)" "takes s ks (length d)"
    and "length d < 2 ^ 16" "USB_HostState h \<noteq> HOST_STATE_Unattached"
  shows "\<exists>t. out_stage (of_nat (length d)) d h = Some (0, t) \<and> hreads t = rs \<and> same_but h t"
  using assms
proof (induction ks arbitrary: d h)
  case Nil
  then show ?case
    by (subst out_stage.simps) (simp add: same_but_def)
next
  case (Cons k ks)
  then have n: "(of_nat (length d) :: u16) \<noteq> 0"
    using of_nat_u16 by auto
  have "hreads h = waiting TXOUTI k @ fill_reads s 0 (length d) @ [(UPINTX, 0)] @ out_reads s ks (length d - s) @ rs" "k \<le> 1000"
    using Cons.prems(1,3) by simp_all
  from WaitForIOS_arrives [OF this(1) Cons.prems(5) this(2), of USB_HOST_WAITFOR_OutReady] obtain u where u:
      "USB_Host_WaitForIOS USB_HOST_WAITFOR_OutReady h = Some (0, u)"
      "hreads u = fill_reads s 0 (length d) @ [(UPINTX, 0)] @ out_reads s ks (length d - s) @ rs" "same_but h u"
    by auto
  have "s = unat (USB_ControlPipeSize u)"
    using Cons.prems(2) u(3) by (simp add: same_but_def)
  from fill_runs [OF u(2) this _ Cons.prems(4)] obtain v where v:
      "fill_bytes (of_nat (length d)) d u = Some (of_nat (length (drop s d)), drop s d, v)"
      "hreads v = (UPINTX, 0) # out_reads s ks (length (drop s d)) @ rs" "same_but u v"
    by auto
  obtain w where w: "Pipe_ClearOUT v = Some w" "hreads w = out_reads s ks (length (drop s d)) @ rs" "same_but v w"
    using v(2) by (simp add: Pipe_ClearOUT_def acknowledge_def hrd_def)
  have "\<exists>t. out_stage (of_nat (length (drop s d))) (drop s d) w = Some (0, t) \<and> hreads t = rs \<and> same_but w t"
    using Cons.prems w u(3) v(3) by (intro Cons.IH) (auto simp: same_but_def)
  then show ?case
    using n u v w(1,3) by (subst out_stage.simps) (auto intro: same_but_trans)
qed

section \<open>The request\<close>

text \<open>
  A frame passes, the request is sent, acknowledged after \<open>a\<close> frames, a frame passes, the packets are taken, the last one
  has gone after \<open>b\<close> frames, and the status comes after \<open>c\<close> frames.
\<close>

definition sending_reads :: "nat \<Rightarrow> nat \<Rightarrow> nat list \<Rightarrow> nat \<Rightarrow> nat \<Rightarrow> nat \<Rightarrow> (hreg \<times> u16) list" where
  "sending_reads s a ks n b c = setup_reads a @ out_reads s ks n @ waiting TXOUTI b @ waiting RXINI c @ [(UPINTX, 0)]"

lemma control_out_finishes:
  assumes "hreads h = sending_reads s a ks (length d) b c @ rs" "s = unat (USB_ControlPipeSize h)" "takes s ks (length d)"
    and "wLength (HostRequest h) = of_nat (length d)" "length d < 2 ^ 16"
    and "a \<le> 1000" "b \<le> 1000" "c \<le> 1000" "\<not> bit (bmRequestType (HostRequest h)) 7" "USB_HostState h \<noteq> HOST_STATE_Unattached"
  shows "\<exists>t. USB_Host_SendControlRequest (Some d) h = Some (0, Some d, t) \<and> hreads t = rs \<and>
    USB_HostState t = USB_HostState h \<and> USB_ControlPipeSize t = USB_ControlPipeSize h"
proof -
  let ?g = "USB_Host_ResumeBus h"
  have g: "USB_HostState ?g = USB_HostState h" "HostRequest ?g = HostRequest h" "USB_ControlPipeSize ?g = USB_ControlPipeSize h"
      "hreads ?g = hreads h"
    by (simp_all add: USB_Host_ResumeBus_def)
  have "hreads ?g = setup_reads a @ out_reads s ks (length d) @ waiting TXOUTI b @ waiting RXINI c @ (UPINTX, 0) # rs"
      "USB_HostState ?g \<noteq> HOST_STATE_Unattached"
    using assms(1,10) g by (simp_all add: sending_reads_def)
  from setup_arrives [OF this assms(6)] obtain u where u: "setup_stage ?g = Some (0, u)"
      "hreads u = out_reads s ks (length d) @ waiting TXOUTI b @ waiting RXINI c @ (UPINTX, 0) # rs" "same_but ?g u"
    by blast
  let ?u = "Pipe_Unfreeze (Pipe_SetPipeToken PIPE_TOKEN_OUT u)"
  have v: "hreads ?u = out_reads s ks (length d) @ waiting TXOUTI b @ waiting RXINI c @ (UPINTX, 0) # rs" "same_but ?g ?u"
    using u(2,3) by simp_all
  with assms(2,10) g have "s = unat (USB_ControlPipeSize ?u)" "USB_HostState ?u \<noteq> HOST_STATE_Unattached"
    by (simp_all add: same_but_def)
  from out_stage_runs [OF v(1) this(1) assms(3,5) this(2)] obtain w where w: "out_stage (of_nat (length d)) d ?u = Some (0, w)"
      "hreads w = waiting TXOUTI b @ waiting RXINI c @ (UPINTX, 0) # rs" "same_but ?u w"
    by blast
  have "USB_HostState w \<noteq> HOST_STATE_Unattached"
    using w(3) v(2) g(1) assms(10) by (simp add: same_but_def)
  from WaitForIOS_arrives [OF w(2) this assms(7), of USB_HOST_WAITFOR_OutReady] obtain x where x:
      "USB_Host_WaitForIOS USB_HOST_WAITFOR_OutReady w = Some (0, x)" "hreads x = waiting RXINI c @ (UPINTX, 0) # rs" "same_but w x"
    by auto
  let ?x = "Pipe_Unfreeze (Pipe_SetPipeToken PIPE_TOKEN_IN (Pipe_Freeze x))"
  have y: "hreads ?x = waiting RXINI c @ (UPINTX, 0) # rs" "same_but x ?x"
    using x(2) by simp_all
  with x(3) w(3) v(2) g(1) assms(10) have "USB_HostState ?x \<noteq> HOST_STATE_Unattached"
    by (simp add: same_but_def)
  from WaitForIOS_arrives [OF y(1) this assms(8), of USB_HOST_WAITFOR_InReceived] obtain z where z:
      "USB_Host_WaitForIOS USB_HOST_WAITFOR_InReceived ?x = Some (0, z)" "hreads z = (UPINTX, 0) # rs" "same_but ?x z"
    by auto
  obtain t where t: "Pipe_ClearIN z = Some t" "hreads t = rs" "same_but z t"
    using z(2) by (simp add: Pipe_ClearIN_def acknowledge_def hrd_def)
  have request: "HostRequest u = HostRequest h" "HostRequest ?u = HostRequest h"
    using u(3) v(2) g(2) by (simp_all add: same_but_def)
  have "writing_data d u = Some (0, Pipe_Freeze x)"
    using w(1) x(1) request(2) assms(4) by (simp add: writing_data_def Let_def)
  then have "writing_stages (Some d) u = Some (0, t)"
    using z(1) t(1) by (simp add: writing_stages_def Let_def)
  then have "control_stages (Some d) h = Some (0, [], t)"
    using u(1) request(1) assms(9) by (simp add: control_stages_def direction_bit)
  moreover have "same_but ?g t"
    using v(2) w(3) x(3) y(2) z(3) t(3) by (blast intro: same_but_trans)
  then have "USB_HostState t = USB_HostState h" "USB_ControlPipeSize t = USB_ControlPipeSize h"
    using g by (simp_all add: same_but_def)
  ultimately show ?thesis
    using t(2) by (simp add: USB_Host_SendControlRequest_def stored_def Let_def USB_Host_SuspendBus_def frame_defs Pipe_ResetPipe_def on_pipe_def hwr_def)
qed

text \<open>C23: a request that writes to a device that acknowledges the request, takes each packet of the data and confirms them,
  each within a second: the host succeeds after exactly these accesses, with packets of the size of the control
  pipe.\<close>

theorem control_out_completes:
  assumes "hreads h = sending_reads s a ks (length d) b c @ rs" "s = unat (USB_ControlPipeSize h)" "takes s ks (length d)"
    and "wLength (HostRequest h) = of_nat (length d)" "length d < 2 ^ 16"
    and "a \<le> 1000" "b \<le> 1000" "c \<le> 1000" "\<not> bit (bmRequestType (HostRequest h)) 7" "USB_HostState h \<noteq> HOST_STATE_Unattached"
  shows "\<exists>t. USB_Host_SendControlRequest (Some d) h = Some (0, Some d, t) \<and> hreads t = rs"
  using control_out_finishes [OF assms] by blast

definition telling_host :: "(hreg \<times> u16) list \<Rightarrow> host" where
  "telling_host rs = \<lparr>pipes = replicate PIPE_TOTAL_PIPES \<lparr>UPCONX = 0, UPCFG0X = 0, UPCFG1X = 0\<rparr>, UPNUM = 0,
     hreads = rs, hwrites = [], SOFEN = False, USB_HostState = HOST_STATE_Default, USB_ControlPipeSize = 8,
     HostRequest = \<lparr>bmRequestType = 0x21, bRequest = 9, wValue = 0x0200, wIndex = 0, wLength = 10\<rparr>\<rparr>"

theorem control_out_completes_witness:
  "\<exists>t. USB_Host_SendControlRequest (Some [0, 1, 2, 3, 4, 5, 6, 7, 8, 9]) (telling_host (sending_reads 8 0 [3, 1] 10 0 2)) =
    Some (0, Some [0, 1, 2, 3, 4, 5, 6, 7, 8, 9], t) \<and> hreads t = []"
proof -
  have len: "length [0, 1, 2, 3, 4, 5, 6, 7, 8, 9 :: u8] = 10"
    by simp
  show ?thesis
    by (rule control_out_completes [where s = 8 and a = 0 and ks = "[3, 1]" and b = 0 and c = 2], unfold len)
      (simp_all add: telling_host_def bit_simps)
qed

end
