(* ===== verification/RndisAgreed.thy ===== *)
theory RndisAgreed
  imports RndisHost RndisProofs HostSends
begin

text \<open>
  The two ends of RNDIS together: the host's driver asks the adapter for a property, and has the adapter's value of it
  in its buffer.
\<close>

section \<open>The host\<close>

lemma length_header [simp]: "length (header_bytes r) = 8"
  by (simp add: header_bytes_def)

lemma request_views [simp]:
  "delivered (class_command r v i n h) = delivered h" "written (class_command r v i n h) = written h"
  "delivered (class_query r i n h) = delivered h" "written (class_query r i n h) = written h"
  "wLength (HostRequest (class_command r v i n h)) = n" "bmRequestType (HostRequest (class_command r v i n h)) = 0x21"
  "wLength (HostRequest (class_query r i n h)) = n" "bmRequestType (HostRequest (class_query r i n h)) = 0xA1"
  by (simp_all add: class_command_def class_query_def requesting_def Pipe_SelectPipe_def delivered_def written_def)

text \<open>A dialogue that succeeds: the message between the two requests, and what the device answers.\<close>

lemma dialogue_view:
  assumes "dialogue message n old k st h = Some (0, response, st', t)"
  shows "\<exists>a b got. written t = written h @ a @ take (unat n) (message (RequestID st)) @ b \<and> length a = 8 \<and> length b = 8 \<and>
    delivered h = got @ delivered t \<and> length got \<le> unat k \<and> response = got @ drop (length got) old \<and>
    st' = st\<lparr>RequestID := RequestID st + 1\<rparr> \<and> unat n \<le> length (message (RequestID st))"
proof -
  let ?st = "st\<lparr>RequestID := RequestID st + 1\<rparr>"
  let ?m = "message (RequestID st)"
  let ?h = "class_command 0 0 (RNDIS_Host_State.ControlInterfaceNumber ?st) n h"
  obtain b1 u where u: "USB_Host_SendControlRequest (Some ?m) ?h = Some (0, b1, u)" "st' = ?st"
      "RNDIS_GetEncapsulatedResponse ?st old k u = Some (0, response, t)"
    using assms by (auto simp: dialogue_def RNDIS_SendEncapsulatedCommand_def Let_def split: bind_splits if_splits)
  have out: "written u = written h @ header_bytes (HostRequest ?h) @ take (unat n) ?m" "unat n \<le> length ?m" "delivered u = delivered h"
    using control_out_view [OF u(1)] by simp_all
  let ?u = "class_query 1 (RNDIS_Host_State.ControlInterfaceNumber ?st) k u"
  have v: "USB_Host_SendControlRequest (Some old) ?u = Some (0, Some response, t)"
    using u(3) by (auto simp: RNDIS_GetEncapsulatedResponse_def split: bind_splits)
  from control_in_view [OF v] obtain got sent where "delivered u = got @ delivered t" "length got \<le> unat k"
      "response = got @ drop (length got) old" "written t = written u @ sent" "sent = header_bytes (HostRequest ?u)"
    by (auto simp: bit_simps)
  with out u(2) show ?thesis
    by (intro exI [of _ "header_bytes (HostRequest ?h)"] exI [of _ sent] exI [of _ got]) simp
qed

section \<open>The adapter\<close>

text \<open>What a query finds does not depend on the message buffer.\<close>

lemma query_of_state:
  "RNDIS_Device_ProcessNDISQuery cfg (st\<lparr>ResponseReady := b, RNDISMessageBuffer := m\<rparr>) i = RNDIS_Device_ProcessNDISQuery cfg st i"
  by (simp add: RNDIS_Device_ProcessNDISQuery_def)

lemma query_data:
  assumes "query_message cfg st = Some st'" "get32 12 (RNDISMessageBuffer st) = Some i"
    and "RNDIS_Device_ProcessNDISQuery cfg st i = Some r" "28 \<le> length (RNDISMessageBuffer st)"
  shows "take (length r) (drop 24 (state_bytes st')) = r \<and> get32 12 (state_bytes st') = Some 0 \<and>
    get32 4 (state_bytes st') = Some (24 + of_nat (length r)) \<and> length (state_bytes st') = length (state_bytes st) \<and>
    24 + length r \<le> length (state_bytes st)"
proof -
  let ?n = "of_nat (length r) :: u32"
  let ?fs = "[(0, REMOTE_NDIS_QUERY_CMPLT), (4, 24)] :: (nat \<times> u32) list"
  let ?gs = "[(12, REMOTE_NDIS_STATUS_SUCCESS), (4, 24 + ?n), (16, ?n), (20, 16)] :: (nat \<times> u32) list"
  obtain u where u: "on_message (put_fields ?fs) (st\<lparr>ResponseReady := 1\<rparr>) = Some u"
      "(case RNDIS_Device_ProcessNDISQuery cfg u i of
        Some ResponseData \<Rightarrow> do {
          st \<leftarrow> on_message (overlay 24 ResponseData) u;
          let n = (of_nat (length ResponseData) :: u32);
          on_message (put_fields [(12, REMOTE_NDIS_STATUS_SUCCESS), (4, 24 + n), (16, n), (20, 16)]) st }
      | None \<Rightarrow> on_message (put_fields [(12, REMOTE_NDIS_STATUS_NOT_SUPPORTED), (16, 0), (20, 0)]) u) = Some st'"
    using assms(1,2) by (auto simp: query_message_def Let_def split: bind_splits)
  obtain m where m: "put_fields ?fs (RNDISMessageBuffer st) = Some m"
    using put_fields_fits [of ?fs "RNDISMessageBuffer st"] assms(4) by auto
  have "u = st\<lparr>ResponseReady := 1, RNDISMessageBuffer := m\<rparr>"
    using u(1) on_put_fields [of ?fs "st\<lparr>ResponseReady := 1\<rparr>" m] m by simp
  then have "RNDIS_Device_ProcessNDISQuery cfg u i = Some r"
    using assms(3) by (simp add: query_of_state)
  then obtain v where v: "on_message (overlay 24 r) u = Some v" "on_message (put_fields ?gs) v = Some st'"
    using u(2) by (auto simp: Let_def split: bind_splits)
  note d = on_overlay_bytes [OF v(1)] and a = on_fields_bytes [OF v(2)]
  have "drop 24 (state_bytes st') = drop 24 (state_bytes v)"
    by (rule drop_put_fields [OF a]) simp_all
  moreover have fits: "24 + length r \<le> length (state_bytes u)"
    using d by (auto simp: overlay_def split: if_splits)
  moreover have "state_bytes v = take 24 (state_bytes u) @ r @ drop (24 + length r) (state_bytes u)"
    using d fits by (simp add: overlay_def)
  then have "take (length r) (drop 24 (state_bytes v)) = r"
    using fits by simp
  moreover have "get32 12 (state_bytes st') = Some 0" "get32 4 (state_bytes st') = Some (24 + ?n)"
    by (rule get32_put_fields [OF a]; simp add: apart_def)+
  moreover have "length (state_bytes u) = length (state_bytes (st\<lparr>ResponseReady := 1\<rparr>))"
    using put_fields_length [OF on_fields_bytes [OF u(1)]] .
  moreover have "length (state_bytes (st\<lparr>ResponseReady := 1\<rparr>)) = length (state_bytes st)"
    by (simp add: state_bytes_def)
  ultimately show ?thesis
    using overlay_length [OF d] put_fields_length [OF a] by simp
qed

section \<open>Both\<close>

lemma message_fields:
  assumes "overlay 0 (words [t, n, k, i, 0, 0, 0]) old = Some m"
  shows "get32 0 m = Some t" "get32 12 m = Some i"
proof -
  have m: "m = [] @ bytes32 t @ words [n, k, i, 0, 0, 0] @ drop 28 old" "m = words [t, n, k] @ bytes32 i @ words [0, 0, 0] @ drop 28 old"
    using assms by (auto simp: overlay_def words_def split: if_splits)
  show "get32 0 m = Some t"
    using get32_append [of "[]" t "words [n, k, i, 0, 0, 0] @ drop 28 old"] unfolding m(1) by simp
  show "get32 12 m = Some i"
    using get32_append [of "words [t, n, k]" i "words [0, 0, 0] @ drop 28 old"] unfolding m(2) by simp
qed

text \<open>C12: a host and an adapter of LUFA: the host sends the query for a property; the adapter has this message in its
  buffer, processes it, and what the host receives is the answer as it lies from the beginning of that buffer on. When the host's query succeeds for
  a property whose value has the length the host expects, its buffer begins with this value, and the rest of it is as
  it was.\<close>

theorem query_agreed:
  assumes host: "RNDIS_Host_QueryRNDISProperty old hst i buf n h = Some (0, buf', hst', t)"
    and message: "overlay 0 (words [REMOTE_NDIS_QUERY_MSG, 28, RequestID hst, i, 0, 0, 0]) mem = Some (RNDISMessageBuffer st)"
    and adapter: "RNDIS_Device_ProcessRNDISControlMessage far cfg st = Some st'"
    and property: "RNDIS_Device_ProcessNDISQuery cfg st i = Some r" "length r = unat n"
    and answer: "delivered h = take (24 + unat n) (state_bytes st') @ delivered t"
  shows "buf' = r @ drop (length r) buf \<and> RequestID hst' = RequestID hst + 1 \<and>
    (\<exists>a b. written t = written h @ a @ words [REMOTE_NDIS_QUERY_MSG, 28, RequestID hst, i, 0, 0, 0] @ b \<and> length a = 8 \<and> length b = 8)"
proof -
  let ?m = "\<lambda>id. words [REMOTE_NDIS_QUERY_MSG, 28, id, i, 0, 0, 0]"
  obtain response where d: "dialogue ?m 28 old (24 + n) hst h = Some (0, response, hst', t)" "get32 12 response = Some 0"
      "overlay 0 (take (unat n) (drop 24 response)) buf = Some buf'" "24 + unat n \<le> length response"
    using host by (auto simp: RNDIS_Host_QueryRNDISProperty_def split: bind_splits if_splits)
  from dialogue_view [OF d(1)] obtain a b got where v: "written t = written h @ a @ take 28 (?m (RequestID hst)) @ b" "length a = 8" "length b = 8"
      "delivered h = got @ delivered t" "response = got @ drop (length got) old" "hst' = hst\<lparr>RequestID := RequestID hst + 1\<rparr>"
    by auto
  note fields = message_fields [OF message]
  have "query_message cfg st = Some st'"
    using adapter fields(1) by (simp add: RNDIS_Device_ProcessRNDISControlMessage_def)
  moreover have "28 \<le> length (RNDISMessageBuffer st)"
    using message overlay_length [OF message] by (auto simp: overlay_def split: if_splits)
  ultimately have q: "take (length r) (drop 24 (state_bytes st')) = r" "24 + length r \<le> length (state_bytes st')"
    using query_data [OF _ fields(2) property(1)] by auto
  have got: "got = take (24 + unat n) (state_bytes st')"
    using v(4) answer by simp
  have "take (unat n) (drop 24 response) = r"
    using q v(5) property(2) unfolding got by (simp add: drop_take)
  then show ?thesis
    using d(3) v property(2) by (auto simp: overlay_def split: if_splits)
qed

section \<open>A device that is ready\<close>

lemma dialogue_runs:
  assumes "hreads h = sending_reads s a ks (length (message (RequestID st))) b c @ setup_reads x @ data_reads (unat k) ps @ status_reads y z @ rs"
    and "s = unat (USB_ControlPipeSize h)" "takes s ks (length (message (RequestID st)))" "n = of_nat (length (message (RequestID st)))"
    and "length (message (RequestID st)) < 2 ^ 16" "a \<le> 1000" "b \<le> 1000" "c \<le> 1000" "x \<le> 1000" "y \<le> 1000" "z \<le> 1000"
    and "USB_HostState h \<noteq> HOST_STATE_Unattached" "flows (unat k) ps" "left (unat k) ps = 0"
    and "D = take (unat k) (concat (map snd ps))" "length D \<le> length old"
  shows "\<exists>t. dialogue message n old k st h = Some (0, D @ drop (length D) old, st\<lparr>RequestID := RequestID st + 1\<rparr>, t) \<and> hreads t = rs"
proof -
  let ?st = "st\<lparr>RequestID := RequestID st + 1\<rparr>"
  let ?h = "class_command 0 0 (RNDIS_Host_State.ControlInterfaceNumber ?st) n h"
  have fields: "hreads ?h = hreads h" "USB_ControlPipeSize ?h = USB_ControlPipeSize h" "USB_HostState ?h = USB_HostState h"
    by (simp_all add: class_command_def requesting_def Pipe_SelectPipe_def)
  have "\<exists>u. USB_Host_SendControlRequest (Some (message (RequestID st))) ?h = Some (0, Some (message (RequestID st)), u) \<and>
      hreads u = setup_reads x @ data_reads (unat k) ps @ status_reads y z @ rs \<and> USB_HostState u = USB_HostState ?h \<and>
      USB_ControlPipeSize u = USB_ControlPipeSize ?h"
    by (rule control_out_finishes [where a = a and b = b and c = c and ks = ks and s = s]) (use assms fields in \<open>simp_all add: bit_simps\<close>)
  then obtain u where u: "USB_Host_SendControlRequest (Some (message (RequestID st))) ?h = Some (0, Some (message (RequestID st)), u)"
      "hreads u = setup_reads x @ data_reads (unat k) ps @ status_reads y z @ rs" "USB_HostState u = USB_HostState h"
    using fields by auto
  let ?u = "class_query 1 (RNDIS_Host_State.ControlInterfaceNumber ?st) k u"
  have "\<exists>t. USB_Host_SendControlRequest (Some old) ?u = Some (0, Some (D @ drop (length D) old), t) \<and> hreads t = rs"
    by (rule control_in_finishes [where a = x and b = y and c = z and ps = ps])
      (use assms u in \<open>simp_all add: bit_simps class_query_def requesting_def Pipe_SelectPipe_def\<close>)
  with u(1) show ?thesis
    by (auto simp: dialogue_def RNDIS_SendEncapsulatedCommand_def RNDIS_GetEncapsulatedResponse_def Let_def)
qed

text \<open>The link speed, asked for with request 7.\<close>

abbreviation (input) "speed_query \<equiv> [4, 28, 7, 0x00010107, 0, 0, 0] :: u32 list"
abbreviation (input) "speed_answer \<equiv> [0x80000004, 28, 7, 0, 4, 16, 100000] :: u32 list"
abbreviation (input) "found_adapter \<equiv> cleared_rndis\<lparr>IsActive := True, RequestID := 7\<rparr>"

definition network_host :: "(hreg \<times> u16) list \<Rightarrow> host" where
  "network_host rs = \<lparr>pipes = replicate PIPE_TOTAL_PIPES \<lparr>UPCONX = 0, UPCFG0X = 0, UPCFG1X = 0\<rparr>, UPNUM = 0,
     hreads = rs, hwrites = [], SOFEN = False, USB_HostState = HOST_STATE_Configured, USB_ControlPipeSize = 64,
     HostRequest = no_request\<rparr>"

definition speed_reads :: "(hreg \<times> u16) list" where
  "speed_reads = sending_reads 64 0 [0] 28 0 0 @ setup_reads 0 @ data_reads 28 [(0, words speed_answer)] @ status_reads 0 0"

lemma speed_answered:
  "\<exists>st'. RNDIS_Device_ProcessRNDISControlMessage far some_adapter (message_in_buffer speed_query) = Some st' \<and>
    take 28 (state_bytes st') = words speed_answer"
proof -
  let ?st = "message_in_buffer speed_query"
  let ?fs = "[(0, REMOTE_NDIS_QUERY_CMPLT), (4, 24)] :: (nat \<times> u32) list"
  let ?gs = "[(12, REMOTE_NDIS_STATUS_SUCCESS), (4, 24 + 4), (16, 4), (20, 16)] :: (nat \<times> u32) list"
  have "(case put_fields ?fs (RNDISMessageBuffer ?st) of None \<Rightarrow> False | Some m \<Rightarrow>
      (case overlay 24 (bytes32 100000) m of None \<Rightarrow> False | Some d \<Rightarrow>
        (case put_fields ?gs d of None \<Rightarrow> False | Some a \<Rightarrow> take 28 a = words speed_answer)))"
    by code_simp
  then obtain m d a where m: "put_fields ?fs (RNDISMessageBuffer ?st) = Some m" "overlay 24 (bytes32 100000) m = Some d"
      "put_fields ?gs d = Some a" "take 28 a = words speed_answer"
    by (auto split: option.splits)
  have i: "get32 0 (RNDISMessageBuffer ?st) = Some 4 \<and> get32 12 (RNDISMessageBuffer ?st) = Some 0x00010107"
    by code_simp
  let ?u = "?st\<lparr>ResponseReady := 1, RNDISMessageBuffer := m\<rparr>"
  have "RNDIS_Device_ProcessNDISQuery some_adapter ?u 0x00010107 = Some (bytes32 100000)"
    by (simp add: RNDIS_Device_ProcessNDISQuery_def)
  then have "query_message some_adapter ?st = Some (?u\<lparr>RNDISMessageBuffer := a\<rparr>)"
    using on_put_fields [of ?fs "?st\<lparr>ResponseReady := 1\<rparr>" m] on_overlay [of 24 "bytes32 100000" ?u d]
      on_put_fields [of ?gs "?u\<lparr>RNDISMessageBuffer := d\<rparr>" a] m i
    by (simp add: query_message_def Let_def)
  moreover have "28 \<le> length a"
    using arg_cong [OF m(4), where f = length] by simp
  ultimately show ?thesis
    using m(4) i by (simp add: RNDIS_Device_ProcessRNDISControlMessage_def state_bytes_def)
qed

lemma speed_bytes:
  "delivered (network_host speed_reads) = words speed_answer" "length (words speed_answer) = 28" "length (words speed_query) = 28"
  by (code_simp, simp_all)

lemma speed_run:
  "\<exists>buf' hst' t. RNDIS_Host_QueryRNDISProperty (replicate 28 0) found_adapter 0x00010107 [9, 9, 9, 9, 9] 4 (network_host speed_reads) =
    Some (0, buf', hst', t) \<and> delivered t = []"
proof -
  let ?m = "\<lambda>id. words [REMOTE_NDIS_QUERY_MSG, 28, id, 0x00010107, 0, 0, 0]"
  have "\<exists>t. dialogue ?m 28 (replicate 28 0) 28 found_adapter (network_host speed_reads) =
      Some (0, words speed_answer @ drop (length (words speed_answer)) (replicate 28 0), found_adapter\<lparr>RequestID := RequestID found_adapter + 1\<rparr>, t) \<and>
      hreads t = []"
    by (rule dialogue_runs [where s = 64 and a = 0 and ks = "[0]" and b = 0 and c = 0 and x = 0 and ps = "[(0, words speed_answer)]" and y = 0 and z = 0])
      (simp_all add: network_host_def speed_reads_def)
  moreover have "get32 12 (words speed_answer) = Some 0"
    by code_simp
  ultimately show ?thesis
    by (auto simp: RNDIS_Host_QueryRNDISProperty_def overlay_def delivered_def)
qed

theorem query_agreed_witness:
  "\<exists>hst' t. RNDIS_Host_QueryRNDISProperty (replicate 28 0) found_adapter 0x00010107 [9, 9, 9, 9, 9] 4 (network_host speed_reads) =
    Some (0, bytes32 100000 @ [9], hst', t)"
proof -
  obtain buf' hst' t where t: "RNDIS_Host_QueryRNDISProperty (replicate 28 0) found_adapter 0x00010107 [9, 9, 9, 9, 9] 4
      (network_host speed_reads) = Some (0, buf', hst', t)" "delivered t = []"
    using speed_run by blast
  obtain st' where st': "RNDIS_Device_ProcessRNDISControlMessage (\<lambda>_. 0) some_adapter (message_in_buffer speed_query) = Some st'"
      "take 28 (state_bytes st') = words speed_answer"
    using speed_answered by blast
  have "overlay 0 (words speed_query) (replicate 128 0) = Some (RNDISMessageBuffer (message_in_buffer speed_query))"
    by code_simp
  moreover have "RNDIS_Device_ProcessNDISQuery some_adapter (message_in_buffer speed_query) 0x00010107 = Some (bytes32 100000)"
    by code_simp
  ultimately have "buf' = bytes32 100000 @ drop (length (bytes32 100000)) [9, 9, 9, 9, 9]"
    using query_agreed [OF t(1), of "replicate 128 0" "message_in_buffer speed_query" "\<lambda>_. 0" some_adapter st' "bytes32 100000"] st' t(2) speed_bytes
    by simp
  with t(1) show ?thesis
    by auto
qed

end
