(* ===== verification/Spec2Isabelle.thy ===== *)
theory Spec2Isabelle
  imports PS3Controller SixpairIdle SixpairEnumeration Pairing Customizer SixProxy L2capProxy SerialBench
    HidJoystick JoystickHost HostEnumeration HostEmulator MassStorageTransfer PrinterHost MidiHost CdcTransfer ImageTransfer
    RndisAgreed
begin

text \<open>
  Verification of the DIY PS3 controller: firmware that turns a PS/2 mouse and keyboard into a USB
  joystick for a PlayStation 3, firmware that emulates a controller well enough to be paired with the
  console, and the programs for a PC that pair, proxy and measure.

  \<^bold>\<open>The program.\<close> \<open>ps-2/\<close> is the firmware of an AT90USB1286. Two interrupt handlers (\<open>KB_ClockInterrupt\<close>,
  \<open>MS_ClockInterrupt\<close>) receive bytes bit by bit and put them into ring buffers. The main loop of
  \<open>PS3Controller.c\<close> calls \<open>KB_EventTask\<close> and \<open>MS_EventTask\<close>, which take bytes from the ring buffers,
  run the dialogues with the devices, and update the joystick report of \<open>usb_joystick.c\<close>, which is
  handed to the USB controller with \<open>usb_joystick_send\<close>. Two USB interrupts answer the host.
  \<open>tools/sixpair-emu\<close> is the controller emulator, another firmware, on top of the USB device library
  LUFA, which is part of the repository. \<open>tools/sixutils\<close>, \<open>tools/sixproxy\<close>, \<open>tools/l2cap_proxy\<close> and the
  files of \<open>tools\<close> itself are independent programs for Linux; the first talk to the controller, or the
  emulator, over USB.

  \<^bold>\<open>The theories.\<close>
  \<^item> \<open>Prelude\<close>: bytes and bits, the avr-libc macros the sources use, the collections of rules.
  \<^item> \<open>RingBuffer\<close> (\<open>RingBuffer.c\<close>): the four operations; the locale \<open>bounded_fifo\<close> is the contract of
    a bounded queue, which the ring buffer interprets; a run of operations refines a list queue.
  \<^item> \<open>EventAction\<close> (\<open>EventAction.h\<close>): the event macros and their round trip.
  \<^item> \<open>Ps2Line\<close>: the bit protocol both drivers implement. \<open>ps2_send\<close> is the common body of \<open>KB_Send\<close>
    and \<open>SendByte\<close>; the host's actions are a trace, from which the device samples and decodes.
    The locale \<open>ps2_receiver\<close> states the laws of one falling clock edge; frames and sequences of
    frames are proved once and hold for both interrupts by interpretation.
  \<^item> \<open>KeyboardDriver\<close>, \<open>KeyboardEvents\<close> (\<open>KeyboardDriver.c\<close>): state, interrupt, transmission, scan
    codes; then the event filter and the task.
  \<^item> \<open>MouseDriver\<close>, \<open>MouseEvents\<close>, \<open>MouseStartup\<close> (\<open>MouseDriver.c\<close>): state, interrupts and the
    arithmetic of the stick; the event filter, the dispatcher and the task on the state of the whole
    firmware (record \<open>firmware\<close>); the start-up dialogue in the loop with a modelled mouse.
  \<^item> \<open>UsbJoystick\<close>, \<open>UsbDevice\<close>, \<open>UsbEnumeration\<close> (\<open>usb_joystick.c\<close>): the report and its
    transmission; descriptors and interrupts; what the host sees.
  \<^item> \<open>PS3Controller\<close> (\<open>PS3Controller.c\<close>): the initialisation, the step relation \<open>fw_step\<close> and the
    invariant of all reachable states.

  \<^item> \<open>LufaEndpoint\<close> (\<open>Endpoint.h\<close>), \<open>LufaStream\<close> (\<open>Endpoint.c\<close>, \<open>Template_Endpoint_*.c\<close>): the endpoint
    operations on the registers and the streams over them; \<open>LufaTransfer\<close>: what a stream transfers.
    \<open>LufaContract\<close>: the locale of a callback that keeps the invariant of the device.
    \<open>LufaDevice\<close> (\<open>DevChapter9.c\<close>, \<open>USBInterrupt.c\<close>, \<open>USBTask.c\<close>, \<open>LowLevel.c\<close>): standard requests,
    interrupt and initialisation.
  \<^item> \<open>SixpairDescriptors\<close> (\<open>Descriptors.c\<close>), \<open>SixpairEmu\<close> (\<open>sixaxis_pair_emu.c\<close>): the emulator;
    \<open>SixpairProofs\<close>: its invariant; \<open>SixpairReports\<close>: the feature reports as the host sees them;
    \<open>SixpairIdle\<close>: the idle rate; \<open>SixpairEnumeration\<close>: whole control requests.
  \<^item> \<open>Process\<close>: a computation that may end its process. \<open>Sixutils\<close> (\<open>sixpair.c\<close>, \<open>sixaddr.c\<close>, \<open>sixmod.c\<close>,
    \<open>sixdump.c\<close>); \<open>Pairing\<close>: the tool and the emulator together; \<open>L2capProxy\<close> (\<open>l2cap_proxy.c\<close>,
    \<open>l2cap_con.c\<close>, \<open>bt_utils.c\<close>); \<open>SixProxy\<close> (\<open>sixproxy.c\<close>); \<open>LatencyTools\<close> (\<open>sixemulat.c\<close>,
    \<open>sixemulat2.c\<close>, \<open>sixemulat_usb.c\<close>); \<open>SerialBench\<close> (\<open>serial_bench.c\<close>); \<open>Customizer\<close>
    (\<open>sixp-emu-cust.py\<close>, with the emulator).
  \<^item> \<open>HidParser\<close> (\<open>HIDParser.c\<close>, \<open>HIDParser.h\<close> of LUFA): the parser of report descriptors and the access to
    the items of a report. \<open>HidProofs\<close>: the locale \<open>parser_invariant\<close>, what an invariant has to satisfy item
    by item to hold after the loop, and its first interpretation, the bounds of the tables; \<open>HidReports\<close>: the
    second one, the places of the items; \<open>HidValues\<close>: reading and writing an item; \<open>HidJoystick\<close>: the parser
    on the descriptor and the reports of \<open>usb_joystick.c\<close>.
  \<^item> \<open>ConfigSearch\<close> (\<open>ConfigDescriptor.c\<close>, \<open>ConfigDescriptor.h\<close>): the searches through a configuration
    descriptor.
  \<^item> The other end of the bus, LUFA's host side. \<open>HostPipe\<close> (\<open>Pipe.h\<close>, \<open>Pipe.c\<close>, \<open>Template_Pipe_RW.c\<close>): pipes
    and streams; \<open>HostControl\<close> (\<open>HostChapter9.c\<close>, \<open>Host.c\<close>, \<open>ConfigDescriptor.c\<close>): control requests;
    \<open>HostTransfer\<close>: the bytes they transfer, whatever the hardware does; \<open>HostAnswers\<close>: requests to a device that
    answers in time, or falls silent; \<open>HostEnumeration\<close> (\<open>Host.c\<close>, \<open>USBTask.c\<close>, \<open>USBInterrupt.c\<close>,
    \<open>LowLevel.c\<close>): the state machine, which refines the relation \<open>enumerates\<close>; \<open>HostEmulator\<close>: a host reads a
    descriptor of the emulator. \<open>HidHost\<close>, \<open>HidClass\<close> (\<open>Class/Host/HID.c\<close>): enumeration of a HID device, and
    its reports; \<open>JoystickHost\<close>: with the joystick of \<open>ps-2/\<close> at the other end.
  \<^item> LUFA's class drivers. \<open>Structures\<close>: fields of a structure as bytes in memory. \<open>ClassHost\<close>: what the drivers
    of the host share, comparators, pipes and waits; \<open>HostStreams\<close>: what the streams of the host transfer.
    \<open>MassStorage\<close> (\<open>Common/MassStorage.h\<close>), \<open>MassStorageHost\<close> (\<open>Class/Host/MassStorage.c\<close>): enumeration, transport
    and commands; \<open>MassStorageTransfer\<close>: the bytes a command moves, and that it ends with a device that is ready.
    \<open>PrinterHost\<close> (\<open>Class/Host/Printer.c\<close>), \<open>MidiEvent\<close>, \<open>MidiHost\<close> (\<open>Class/Host/MIDI.c\<close>), \<open>CdcHost\<close>
    (\<open>Class/Host/CDC.c\<close>), \<open>ImageHost\<close> (\<open>Class/Host/StillImage.c\<close>) and \<open>RndisHost\<close> (\<open>Class/Host/RNDIS.c\<close>): the other
    drivers of the host; \<open>CdcTransfer\<close>: the characters that pass a serial port; \<open>ImageTransfer\<close>: the containers
    that open a session with a camera. \<open>ClassDevice\<close>: what the drivers of a device share; \<open>RndisMessages\<close>: the
    constants of RNDIS; \<open>RndisDevice\<close> (\<open>Class/Device/RNDIS.c\<close>): a network adapter; \<open>RndisProofs\<close>: its answers and
    the invariant of its buffers; \<open>RndisAgreed\<close>: a query with both drivers of RNDIS. \<open>HostSends\<close>: beside
    \<open>HostAnswers\<close>, requests that write to a device that takes their data in time.

  \<^bold>\<open>Hardware.\<close> Registers the code writes are traces (\<open>ops\<close> of a PS/2 line, \<open>writes\<close> of the USB
  controller). What volatile reads return is an input: \<open>pins\<close> are the samples of a PIN register in the
  waiting loops, \<open>reads\<close> those of the USB registers. A waiting loop that uses up its samples has not
  returned: its value, and that of its callers, is \<open>None\<close>. Termination is proved as such: 24 clock
  periods of a device that keeps clocking are enough for a transmission (\<open>clocking\<close>, \<open>send_returns\<close>),
  fifty frames for a report (\<open>send_times_out\<close>), 960 periods for the dialogue with an Intellimouse.

  For the emulator every register has its own stream of values that reads return; interrupts that
  arrive at a read are an input too. There, and in the tools, \<open>None\<close> stands for waiting for an
  input that does not come and for behaviour that C leaves undefined. On the host's side all reads are one
  script in the order of the program, \<open>hreads\<close>, which also has the moments at which a disconnection is noticed.

  \<^bold>\<open>Parameters.\<close> BlueZ (record \<open>hci\<close> of \<open>SixProxy\<close>, \<open>valid\<close> of \<open>L2capProxy\<close>), libusb and the system
  calls (their results are inputs), PyUSB, \<open>rand\<close>, and what \<open>atoi\<close>, \<open>popen\<close> and \<open>sscanf\<close> read from the arguments.
  On the host's side the filter of report items, the comparator of a search, and whether the hardware accepts the
  configuration of a pipe.

  \<^bold>\<open>Fuel.\<close> \<open>mouse_loop\<close> and \<open>dialogue_run\<close> stop after a number of bytes: 40 is more than the 32 bytes
  an Intellimouse sends, 140 more than the 120 bytes a standard mouse sends before the driver gives
  up; both runs end because the mouse has nothing more to say.

  \<^bold>\<open>Concurrency.\<close> In \<open>fw_step\<close> interrupts are taken between tasks. The ring buffer operations are atomic
  in the code; the other data shared with interrupts are single bytes.

  \<^bold>\<open>Not modelled.\<close> The FARCRY2 variant of the mouse driver (selected by no build). In the emulator the
  LED functions do nothing (the board is BOARD_NONE), and the watchdog and clock settings of
  \<open>SetupHardware\<close> have no effect on the model. Of LUFA the drivers of a device for mass storage, CDC,
  MIDI, audio and the HID class (the emulator has its own), the functions of CDC that only store pointers into a stream,
  the board and peripheral drivers, the scheduler and the code for other chips are not
  compiled into the emulator, and nothing else in the repository uses them. \<open>tools/simple.c\<close> only prints events. The tools' terminal settings and the formatting of their output are pure I/O.
\<close>

end
